(* ===== verification/Prelude.thy ===== *)
theory Prelude
  imports Main "HOL-Library.Word" "HOL-Library.Sublist" "HOL-Library.Signed_Division"
begin

section \<open>Shared vocabulary of the development\<close>

text \<open>
  Results, byte strings, ranges, decimal numerals and the list lemmas that the component
  theories share. Bytes are characters (\<^typ>\<open>char\<close> has 256 values), so a Rust \<open>String\<close>, a
  \<open>&[u8]\<close>, a \<open>Vec<u8>\<close> and a \<open>[u8; N]\<close> are all \<^typ>\<open>string\<close>; the length of an array type is
  stated where it is used. Sizes (\<open>usize\<close>) are natural numbers: every one of them is bounded by
  the length of a buffer in memory. Integers whose overflow the code can meet keep their width.
\<close>

named_theorems res_simps \<open>characteristic equations of results\<close>
named_theorems byte_defs \<open>definitions of the byte classes\<close>

type_synonym bytes = string
type_synonym u64 = "64 word"

subsection \<open>Results\<close>

text \<open>
  \<open>anyhow::Result\<close>. An error is the message of the check that failed (the text of the
  \<open>ensure!\<close>, \<open>bail!\<close> or \<open>context\<close> call, its interpolations left as placeholders), possibly
  wrapped by \<open>context\<close>. A panic is kept apart: no \<open>?\<close>, \<open>ok()\<close> or \<open>context\<close> of the code
  turns it into an ordinary error.
\<close>

datatype error = Msg string | Context string error | Panic string

type_synonym 'a res = "error + 'a"

definition and_then :: "'e + 'a \<Rightarrow> ('a \<Rightarrow> 'e + 'b) \<Rightarrow> 'e + 'b" where
  "and_then r f = (case r of Inl e \<Rightarrow> Inl e | Inr x \<Rightarrow> f x)"

definition ensure :: "bool \<Rightarrow> string \<Rightarrow> 'a res \<Rightarrow> 'a res" where
  "ensure b m r = (if b then r else Inl (Msg m))"

definition bail :: "string \<Rightarrow> 'a res" where
  "bail m = Inl (Msg m)"

definition with_ctx :: "string \<Rightarrow> 'a res \<Rightarrow> 'a res" where
  "with_ctx m r =
     (case r of Inr x \<Rightarrow> Inr x | Inl (Panic p) \<Rightarrow> Inl (Panic p) | Inl e \<Rightarrow> Inl (Context m e))"

definition some_or :: "string \<Rightarrow> 'a option \<Rightarrow> 'a res" where
  "some_or m x = (case x of None \<Rightarrow> Inl (Msg m) | Some y \<Rightarrow> Inr y)"

text \<open>\<open>iter().map(f).collect::<Result<Vec<_>>>()\<close>: the first error ends the iteration.\<close>

fun collect_res :: "('a \<Rightarrow> 'e + 'b) \<Rightarrow> 'a list \<Rightarrow> 'e + 'b list" where
  "collect_res f [] = Inr []"
| "collect_res f (x # xs) =
     and_then (f x) (\<lambda>y. and_then (collect_res f xs) (\<lambda>ys. Inr (y # ys)))"

text \<open>\<open>for x in xs { f(x)?; }\<close>\<close>

fun for_each_res :: "('a \<Rightarrow> 'e + unit) \<Rightarrow> 'a list \<Rightarrow> 'e + unit" where
  "for_each_res f [] = Inr ()"
| "for_each_res f (x # xs) = and_then (f x) (\<lambda>_. for_each_res f xs)"

definition panicked :: "'a res \<Rightarrow> bool" where
  "panicked r = (case r of Inl (Panic _) \<Rightarrow> True | _ \<Rightarrow> False)"

definition is_ok :: "'a res \<Rightarrow> bool" where
  "is_ok r = (case r of Inl _ \<Rightarrow> False | Inr _ \<Rightarrow> True)"

text \<open>\<open>tokio::time::timeout\<close>: the value of a future that ends in time.\<close>

datatype 'a timed = In_time 'a | Elapsed

definition timeout :: "nat \<Rightarrow> nat option \<Rightarrow> 'a \<Rightarrow> 'a timed" where
  "timeout limit t x = (case t of Some n \<Rightarrow> if n \<le> limit then In_time x else Elapsed | None \<Rightarrow> Elapsed)"

lemma and_then_simps [simp, res_simps]:
  "and_then (Inl e) f = Inl e"
  "and_then (Inr x) f = f x"
  by (simp_all add: and_then_def)

lemma and_then_Inr_iff [res_simps]:
  "and_then r f = Inr y \<longleftrightarrow> (\<exists>x. r = Inr x \<and> f x = Inr y)"
  by (cases r) simp_all

lemma and_then_Inl_iff [res_simps]:
  "and_then r f = Inl e \<longleftrightarrow> r = Inl e \<or> (\<exists>x. r = Inr x \<and> f x = Inl e)"
  by (cases r) simp_all

lemma and_then_assoc: "and_then (and_then r f) g = and_then r (\<lambda>x. and_then (f x) g)"
  by (cases r) simp_all

lemma and_then_cong [fundef_cong]:
  "r = r' \<Longrightarrow> (\<And>x. r' = Inr x \<Longrightarrow> f x = g x) \<Longrightarrow> and_then r f = and_then r' g"
  by (cases r') simp_all

lemma ensure_simps [simp]:
  "ensure True m r = r"
  "ensure False m r = Inl (Msg m)"
  by (simp_all add: ensure_def)

lemma ensure_Inr_iff [res_simps]: "ensure b m r = Inr y \<longleftrightarrow> b \<and> r = Inr y"
  by (simp add: ensure_def)

lemma ensure_Inl_iff [res_simps]:
  "ensure b m r = Inl e \<longleftrightarrow> (\<not> b \<and> e = Msg m) \<or> (b \<and> r = Inl e)"
  by (auto simp: ensure_def)

lemma bail_not_Inr [simp]: "bail m \<noteq> Inr y"
  by (simp add: bail_def)

lemma with_ctx_simps [simp]: "with_ctx m (Inr x) = Inr x"
  by (simp add: with_ctx_def)

lemma with_ctx_Inr_iff [simp]: "with_ctx m r = Inr y \<longleftrightarrow> r = Inr y"
  by (cases r) (auto simp: with_ctx_def split: error.splits)

lemma some_or_simps [simp]:
  "some_or m (Some x) = Inr x"
  "some_or m None = Inl (Msg m)"
  by (simp_all add: some_or_def)

lemma some_or_Inr_iff [simp]: "some_or m x = Inr y \<longleftrightarrow> x = Some y"
  by (cases x) simp_all

lemma is_ok_simps [simp]: "is_ok (Inr x)" "\<not> is_ok (Inl e)"
  by (simp_all add: is_ok_def)

lemma is_ok_iff: "is_ok r \<longleftrightarrow> (\<exists>x. r = Inr x)"
  by (cases r) simp_all

lemma panicked_simps [simp]:
  "\<not> panicked (Inr x)" "panicked (Inl e) \<longleftrightarrow> (\<exists>m. e = Panic m)"
  "\<not> panicked (bail m)" "\<not> panicked (some_or m y)"
  by (simp_all add: panicked_def bail_def some_or_def split: option.splits error.splits)

lemma panicked_and_then [simp]:
  "panicked (and_then r f) \<longleftrightarrow> panicked r \<or> (\<exists>x. r = Inr x \<and> panicked (f x))"
  by (cases r) (auto simp: panicked_def split: sum.splits error.splits)

lemma panicked_ensure [simp]: "panicked (ensure b m r) \<longleftrightarrow> b \<and> panicked r"
  by (simp add: ensure_def)

lemma panicked_with_ctx [simp]: "panicked (with_ctx m r) \<longleftrightarrow> panicked r"
  by (auto simp: with_ctx_def panicked_def split: sum.splits error.splits)

lemma panicked_collect: "panicked (collect_res f xs) \<Longrightarrow> \<exists>x \<in> set xs. panicked (f x)"
  by (induction xs) auto

lemma panicked_for_each: "panicked (for_each_res f xs) \<Longrightarrow> \<exists>x \<in> set xs. panicked (f x)"
  by (induction xs) auto

lemma collect_res_Inr_iff:
  "collect_res f xs = Inr ys \<longleftrightarrow> list_all2 (\<lambda>x y. f x = Inr y) xs ys"
proof (induction xs arbitrary: ys)
  case Nil
  show ?case by auto
next
  case (Cons x xs)
  show ?case
    by (cases ys) (auto simp: and_then_Inr_iff Cons.IH)
qed

lemma collect_res_length: "collect_res f xs = Inr ys \<Longrightarrow> length ys = length xs"
  by (auto simp: collect_res_Inr_iff dest: list_all2_lengthD)

lemma collect_res_nth:
  "collect_res f xs = Inr ys \<Longrightarrow> i < length xs \<Longrightarrow> f (xs ! i) = Inr (ys ! i)"
  by (auto simp: collect_res_Inr_iff dest: list_all2_nthD)

lemma collect_res_total: "(\<And>x. x \<in> set xs \<Longrightarrow> f x = Inr (g x)) \<Longrightarrow> collect_res f xs = Inr (map g xs)"
  by (induction xs) simp_all

lemma for_each_res_ok [simp]: "for_each_res f xs = Inr u \<longleftrightarrow> (\<forall>x \<in> set xs. f x = Inr ())"
  by (induction xs) (auto simp: and_then_Inr_iff)

subsection \<open>Ranges and slices\<close>

text \<open>\<open>std::ops::Range<usize>\<close>; indexing a slice by a range outside it panics.\<close>

datatype range = Range (rstart: nat) (rend: nat)

definition range_len :: "range \<Rightarrow> nat" where
  "range_len r = rend r - rstart r"

definition shift :: "nat \<Rightarrow> range \<Rightarrow> range" where
  "shift n r = Range (rstart r + n) (rend r + n)"

definition slice :: "'a list \<Rightarrow> range \<Rightarrow> 'a list" where
  "slice xs r = take (rend r - rstart r) (drop (rstart r) xs)"

definition in_bounds :: "'a list \<Rightarrow> range \<Rightarrow> bool" where
  "in_bounds xs r \<longleftrightarrow> rstart r \<le> rend r \<and> rend r \<le> length xs"

definition index_range :: "'a list \<Rightarrow> range \<Rightarrow> 'a list res" where
  "index_range xs r =
     (if in_bounds xs r then Inr (slice xs r) else Inl (Panic ''range out of bounds of slice''))"

definition index_at :: "'a list \<Rightarrow> nat \<Rightarrow> 'a res" where
  "index_at xs i = (if i < length xs then Inr (xs ! i) else Inl (Panic ''index out of bounds''))"

text \<open>
  \<open>holds bs r s\<close>: the bytes of \<open>bs\<close> at \<open>r\<close> are exactly \<open>s\<close>. What a writer reports about a piece
  stays true while more is appended, and moves with a prefix.
\<close>

definition holds :: "'a list \<Rightarrow> range \<Rightarrow> 'a list \<Rightarrow> bool" where
  "holds bs r s \<longleftrightarrow> in_bounds bs r \<and> slice bs r = s"

lemma holds_iff_append:
  "holds bs r s \<longleftrightarrow> (\<exists>pre post. bs = pre @ s @ post \<and> r = Range (length pre) (length pre + length s))"
proof
  assume h: "holds bs r s"
  let ?pre = "take (rstart r) bs" and ?post = "drop (rend r) bs"
  from h have le: "rstart r \<le> rend r" "rend r \<le> length bs" and s: "s = slice bs r"
    by (auto simp: holds_def in_bounds_def)
  have "bs = ?pre @ drop (rstart r) bs" by simp
  also have "drop (rstart r) bs = s @ drop (rend r - rstart r) (drop (rstart r) bs)"
    unfolding s slice_def by (rule append_take_drop_id [symmetric])
  also have "drop (rend r - rstart r) (drop (rstart r) bs) = ?post"
    using le by simp
  finally have "bs = ?pre @ s @ ?post" .
  moreover have "r = Range (length ?pre) (length ?pre + length s)"
    using le by (cases r) (simp add: s slice_def)
  ultimately show "\<exists>pre post. bs = pre @ s @ post \<and> r = Range (length pre) (length pre + length s)"
    by blast
next
  assume "\<exists>pre post. bs = pre @ s @ post \<and> r = Range (length pre) (length pre + length s)"
  then show "holds bs r s" by (auto simp: holds_def in_bounds_def slice_def)
qed

lemma holdsI [intro]: "holds (pre @ s @ post) (Range (length pre) (length pre + length s)) s"
  by (auto simp: holds_iff_append)

lemma holds_at: "a = length pre \<Longrightarrow> b = length pre + length s \<Longrightarrow> holds (pre @ s @ post) (Range a b) s"
  by auto

lemma holds_append [intro]: "holds bs r s \<Longrightarrow> holds (bs @ more) r s"
  by (auto simp: holds_iff_append) (metis append.assoc)

lemma holds_shift [intro]: "holds bs r s \<Longrightarrow> holds (pre @ bs) (shift (length pre) r) s"
proof -
  assume "holds bs r s"
  then obtain p q where "bs = p @ s @ q" and r: "r = Range (length p) (length p + length s)"
    by (auto simp: holds_iff_append)
  then have "pre @ bs = (pre @ p) @ s @ q"
    and "shift (length pre) r = Range (length (pre @ p)) (length (pre @ p) + length s)"
    by (simp_all add: shift_def)
  then show ?thesis using holdsI by metis
qed

lemma holds_trans:
  assumes "holds bs r s" and "holds s (Range a b) t"
  shows "holds bs (Range (rstart r + a) (rstart r + b)) t"
proof -
  obtain p q where bs: "bs = p @ s @ q" and r: "rstart r = length p"
    using assms(1) by (auto simp: holds_iff_append)
  have "holds (s @ q) (Range a b) t" using assms(2) by (rule holds_append)
  then have "holds (p @ s @ q) (shift (length p) (Range a b)) t" by (rule holds_shift)
  with bs r show ?thesis by (simp add: shift_def add.commute)
qed

lemma holds_length: "holds bs r s \<Longrightarrow> range_len r = length s"
  by (auto simp: holds_iff_append range_len_def)

lemma holds_slice: "holds bs r s \<Longrightarrow> slice bs r = s"
  by (simp add: holds_def)

lemma holds_in_bounds: "holds bs r s \<Longrightarrow> in_bounds bs r"
  by (simp add: holds_def)

lemma index_range_Inr_iff [simp]: "index_range xs r = Inr ys \<longleftrightarrow> holds xs r ys"
  by (auto simp: index_range_def holds_def)

lemma index_range_of_holds: "holds xs r ys \<Longrightarrow> index_range xs r = Inr ys"
  by simp

lemma index_at_Inr_iff [simp]: "index_at xs i = Inr x \<longleftrightarrow> i < length xs \<and> xs ! i = x"
  by (auto simp: index_at_def)

lemma shift_simps [simp]: "shift n (Range a b) = Range (a + n) (b + n)"
  by (simp add: shift_def)

lemma range_len_simps [simp]: "range_len (Range a b) = b - a"
  by (simp add: range_len_def)

text \<open>Adjacent pieces: \<open>before r q\<close> says that \<open>r\<close> ends before \<open>q\<close> starts.\<close>

definition before :: "range \<Rightarrow> range \<Rightarrow> bool" where
  "before r q \<longleftrightarrow> rend r \<le> rstart q"

definition disjoint_ranges :: "range \<Rightarrow> range \<Rightarrow> bool" where
  "disjoint_ranges r q \<longleftrightarrow> before r q \<or> before q r"

lemma before_simps [simp]: "before (Range a b) (Range c d) \<longleftrightarrow> b \<le> c"
  by (simp add: before_def)

subsection \<open>Byte classes\<close>

abbreviation byte_val :: "char \<Rightarrow> nat" where
  "byte_val c \<equiv> of_char c"

definition is_ascii_byte :: "char \<Rightarrow> bool" where
  [byte_defs]: "is_ascii_byte c \<longleftrightarrow> byte_val c < 128"

definition is_ascii_digit :: "char \<Rightarrow> bool" where
  [byte_defs]: "is_ascii_digit c \<longleftrightarrow> 48 \<le> byte_val c \<and> byte_val c \<le> 57"

definition is_ascii_alphabetic :: "char \<Rightarrow> bool" where
  [byte_defs]: "is_ascii_alphabetic c \<longleftrightarrow>
     (65 \<le> byte_val c \<and> byte_val c \<le> 90) \<or> (97 \<le> byte_val c \<and> byte_val c \<le> 122)"

definition is_ascii_alphanumeric :: "char \<Rightarrow> bool" where
  [byte_defs]: "is_ascii_alphanumeric c \<longleftrightarrow> is_ascii_digit c \<or> is_ascii_alphabetic c"

definition is_ascii_control :: "char \<Rightarrow> bool" where
  [byte_defs]: "is_ascii_control c \<longleftrightarrow> byte_val c < 32 \<or> byte_val c = 127"

definition is_ascii :: "bytes \<Rightarrow> bool" where
  "is_ascii s \<longleftrightarrow> list_all is_ascii_byte s"

definition all_digits :: "bytes \<Rightarrow> bool" where
  "all_digits s \<longleftrightarrow> list_all is_ascii_digit s"

lemma is_ascii_simps [simp]:
  "is_ascii []" "is_ascii (c # s) \<longleftrightarrow> is_ascii_byte c \<and> is_ascii s"
  "is_ascii (s @ t) \<longleftrightarrow> is_ascii s \<and> is_ascii t"
  by (auto simp: is_ascii_def)

lemma all_digits_simps [simp]:
  "all_digits []" "all_digits (c # s) \<longleftrightarrow> is_ascii_digit c \<and> all_digits s"
  "all_digits (s @ t) \<longleftrightarrow> all_digits s \<and> all_digits t"
  by (auto simp: all_digits_def)

lemma digit_is_ascii [simp]: "is_ascii_digit c \<Longrightarrow> is_ascii_byte c"
  by (simp add: byte_defs)

text \<open>
  The first character of a \<open>str\<close>: its leading UTF-8 sequence, whose length the first byte gives.
\<close>

definition utf8_width :: "char \<Rightarrow> nat" where
  "utf8_width c = (if byte_val c < 128 then 1 else if byte_val c < 224 then 2
                   else if byte_val c < 240 then 3 else 4)"

definition first_char :: "bytes \<Rightarrow> bytes option" where
  "first_char s = (case s of [] \<Rightarrow> None | c # _ \<Rightarrow> Some (take (utf8_width c) s))"

subsection \<open>Splitting\<close>

text \<open>\<open>str::split\<close> at a character: the pieces between its occurrences, at least one.\<close>

fun split_at_char :: "char \<Rightarrow> bytes \<Rightarrow> bytes list" where
  "split_at_char c [] = [[]]"
| "split_at_char c (x # s) =
     (if x = c then [] # split_at_char c s
      else case split_at_char c s of [] \<Rightarrow> [[x]] | p # ps \<Rightarrow> (x # p) # ps)"

lemma split_at_char_concat: "concat (split_at_char c s) = filter (\<lambda>x. x \<noteq> c) s"
  by (induction s) (auto split: list.splits)

subsection \<open>Decimal numerals\<close>

text \<open>\<open>to_string\<close> and \<open>{}\<close> of an unsigned integer, and the value of a string of digits.\<close>

definition digit_char :: "nat \<Rightarrow> char" where
  "digit_char d = char_of (48 + d)"

fun dec :: "nat \<Rightarrow> bytes" where
  "dec n = (if n < 10 then [digit_char n] else dec (n div 10) @ [digit_char (n mod 10)])"

declare dec.simps [simp del]

definition dec_value :: "bytes \<Rightarrow> nat" where
  "dec_value s = foldl (\<lambda>a c. 10 * a + (byte_val c - 48)) 0 s"

lemma byte_val_digit_char [simp]: "d < 10 \<Longrightarrow> byte_val (digit_char d) = 48 + d"
  by (simp add: digit_char_def)

lemma digit_char_digit [simp]: "d < 10 \<Longrightarrow> is_ascii_digit (digit_char d)"
  by (simp add: is_ascii_digit_def)

lemma dec_nonempty [simp]: "dec n \<noteq> []"
  by (subst dec.simps) simp

lemma dec_digits [simp]: "all_digits (dec n)"
proof (induction n rule: dec.induct)
  case (1 n)
  then show ?case by (cases "n < 10") (simp_all add: dec.simps [of n])
qed

lemma dec_value_dec [simp]: "dec_value (dec n) = n"
proof (induction n rule: dec.induct)
  case (1 n)
  then show ?case
    by (cases "n < 10") (simp_all add: dec.simps [of n] dec_value_def)
qed

lemma dec_inject [simp]: "dec m = dec n \<longleftrightarrow> m = n"
  by (metis dec_value_dec)

subsection \<open>Big-endian integers\<close>

text \<open>\<open>from_be_bytes\<close> and \<open>to_be_bytes\<close>; the value of a byte string of any length.\<close>

definition be_value :: "bytes \<Rightarrow> nat" where
  "be_value bs = foldl (\<lambda>a c. 256 * a + byte_val c) 0 bs"

fun be_bytes :: "nat \<Rightarrow> nat \<Rightarrow> bytes" where
  "be_bytes 0 n = []"
| "be_bytes (Suc k) n = be_bytes k (n div 256) @ [char_of n]"

lemma be_value_Nil [simp]: "be_value [] = 0"
  by (simp add: be_value_def)

lemma be_value_snoc [simp]: "be_value (bs @ [c]) = 256 * be_value bs + byte_val c"
  by (simp add: be_value_def)

lemma be_value_append: "be_value (xs @ ys) = be_value xs * 256 ^ length ys + be_value ys"
proof (induction ys rule: rev_induct)
  case Nil
  show ?case by simp
next
  case (snoc y ys)
  have "be_value (xs @ ys @ [y]) = 256 * be_value (xs @ ys) + byte_val y"
    using be_value_snoc [of "xs @ ys" y] by simp
  with snoc show ?case by (simp add: algebra_simps)
qed

lemma be_value_less: "be_value bs < 256 ^ length bs"
proof (induction bs rule: rev_induct)
  case Nil
  show ?case by simp
next
  case (snoc c bs)
  have "byte_val c < 256" by simp
  moreover from snoc have "Suc (be_value bs) \<le> 256 ^ length bs" by simp
  ultimately have "256 * be_value bs + byte_val c < 256 * 256 ^ length bs" by linarith
  then show ?case by simp
qed

lemma length_be_bytes [simp]: "length (be_bytes k n) = k"
  by (induction k arbitrary: n) simp_all

lemma be_value_be_bytes [simp]: "be_value (be_bytes k n) = n mod 256 ^ k"
proof (induction k arbitrary: n)
  case 0
  show ?case by simp
next
  case (Suc k)
  show ?case by (simp add: Suc mod_mult2_eq)
qed

lemma be_bytes_be_value: "length bs = k \<Longrightarrow> be_bytes k (be_value bs) = bs"
proof (induction bs arbitrary: k rule: rev_induct)
  case Nil
  then show ?case by simp
next
  case (snoc c bs)
  then obtain j where k: "k = Suc j" and "length bs = j" by auto
  have "(256 * be_value bs + byte_val c) div 256 = be_value bs"
    using nat_of_char_less_256 [of c] by simp
  moreover have "char_of (256 * be_value bs + byte_val c) = c"
    by (metis char_of_mod_256 char_of_char mod_mult_self4)
  ultimately show ?case using snoc.IH [OF \<open>length bs = j\<close>] by (simp add: k)
qed

lemma be_value_inject:
  "length xs = length ys \<Longrightarrow> be_value xs = be_value ys \<longleftrightarrow> xs = ys"
  by (metis be_bytes_be_value)


subsection \<open>Segments\<close>

text \<open>
  A buffer written as a list of segments: \<open>offsets n ss\<close> are the positions of the segments when
  the first starts at \<open>n\<close>.
\<close>

fun offsets :: "nat \<Rightarrow> 'a list list \<Rightarrow> range list" where
  "offsets n [] = []"
| "offsets n (s # ss) = Range n (n + length s) # offsets (n + length s) ss"

lemma length_offsets [simp]: "length (offsets n ss) = length ss"
  by (induction ss arbitrary: n) simp_all

lemma offsets_append:
  "offsets n (ss @ ts) = offsets n ss @ offsets (n + length (concat ss)) ts"
  by (induction ss arbitrary: n) (simp_all add: add.assoc)

lemma offsets_shift: "map (shift k) (offsets n ss) = offsets (n + k) ss"
  by (induction ss arbitrary: n) (simp_all add: add.commute add.left_commute)

lemma offsets_cong: "map length ss = map length ts \<Longrightarrow> offsets n ss = offsets n ts"
proof (induction ss arbitrary: n ts)
  case Nil
  then show ?case by simp
next
  case (Cons s ss)
  then show ?case by (cases ts) auto
qed

lemma holds_offsets:
  "i < length ss \<Longrightarrow> holds (pre @ concat ss) (offsets (length pre) ss ! i) (ss ! i)"
proof (induction ss arbitrary: pre i)
  case Nil
  then show ?case by simp
next
  case (Cons s ss)
  show ?case
  proof (cases i)
    case 0
    then show ?thesis by auto
  next
    case (Suc j)
    with Cons.IH [of j "pre @ s"] Cons.prems show ?thesis by simp
  qed
qed

lemma holds_concat: "i < length ss \<Longrightarrow> holds (concat ss) (offsets 0 ss ! i) (ss ! i)"
  using holds_offsets [of i ss "[]"] by simp

lemma offsets_rstart_ge: "i < length ss \<Longrightarrow> n \<le> rstart (offsets n ss ! i)"
proof (induction ss arbitrary: n i)
  case Nil
  then show ?case by simp
next
  case (Cons s ss)
  show ?case
  proof (cases i)
    case 0
    then show ?thesis by simp
  next
    case (Suc j)
    with Cons.IH [of j "n + length s"] Cons.prems show ?thesis by simp
  qed
qed

lemma offsets_before: "i < j \<Longrightarrow> j < length ss \<Longrightarrow> before (offsets n ss ! i) (offsets n ss ! j)"
proof (induction ss arbitrary: n i j)
  case Nil
  then show ?case by simp
next
  case (Cons s ss)
  from Cons.prems obtain j' where j: "j = Suc j'" by (cases j) auto
  show ?case
  proof (cases i)
    case 0
    with Cons.prems j offsets_rstart_ge [of j' ss "n + length s"] show ?thesis
      by (simp add: before_def)
  next
    case (Suc i')
    with Cons.IH [of i' j' "n + length s"] Cons.prems j show ?thesis by simp
  qed
qed

lemma offsets_disjoint:
  "i \<noteq> j \<Longrightarrow> i < length ss \<Longrightarrow> j < length ss \<Longrightarrow>
   disjoint_ranges (offsets n ss ! i) (offsets n ss ! j)"
  unfolding disjoint_ranges_def using offsets_before by (metis nat_neq_iff)

lemma offsets_shift_nth: "i < length ss \<Longrightarrow> shift k (offsets n ss ! i) = offsets (n + k) ss ! i"
  by (simp flip: offsets_shift)

lemma offsets_nth_append:
  "offsets n (ss @ ts @ us) ! (length ss + i) =
     (if i < length ts then offsets (n + length (concat ss)) ts ! i
      else offsets (n + length (concat ss)) (ts @ us) ! i)"
  by (simp add: offsets_append nth_append)

subsection \<open>Searching a byte string\<close>

text \<open>\<open>windows(n).position(..)\<close> of byte slices and \<open>str::find\<close> of a string.\<close>

fun window_position :: "bytes \<Rightarrow> bytes \<Rightarrow> nat option" where
  "window_position pat [] = (if pat = [] then Some 0 else None)"
| "window_position pat (x # s) =
     (if prefix pat (x # s) then Some 0 else map_option Suc (window_position pat s))"

text \<open>\<open>str::split_once\<close> at a character.\<close>

fun split_once :: "char \<Rightarrow> bytes \<Rightarrow> (bytes \<times> bytes) option" where
  "split_once c [] = None"
| "split_once c (x # s) = (if x = c then Some ([], s) else map_option (\<lambda>(k, v). (x # k, v)) (split_once c s))"

lemma window_position_Some:
  "window_position pat s = Some i \<Longrightarrow> prefix pat (drop i s) \<and> (\<forall>j < i. \<not> prefix pat (drop j s)) \<and> i + length pat \<le> length s"
proof (induction s arbitrary: i)
  case (Cons x s)
  show ?case
  proof (cases "prefix pat (x # s)")
    case True
    then show ?thesis using Cons.prems by (auto dest: prefix_length_le)
  next
    case False
    then obtain k where k: "window_position pat s = Some k" "i = Suc k" using Cons.prems by auto
    from Cons.IH [OF k(1)] k(2) False show ?thesis by (auto simp: less_Suc_eq_0_disj)
  qed
qed (auto split: if_splits)

lemma prefix_append_long: "length p \<le> length s \<Longrightarrow> prefix p (s @ t) \<longleftrightarrow> prefix p s"
  by (auto simp: prefix_append)

lemma window_position_append:
  "window_position pat s = Some i \<Longrightarrow> window_position pat (s @ t) = Some i"
proof (induction s arbitrary: i)
  case Nil
  then show ?case by (cases t) (auto split: if_splits)
next
  case (Cons x s)
  have "length pat \<le> length (x # s)" using window_position_Some [OF Cons.prems] by simp
  then have "prefix pat (x # s @ t) \<longleftrightarrow> prefix pat (x # s)" using prefix_append_long [of pat "x # s" t] by simp
  then show ?case using Cons by (auto split: if_splits)
qed

end
