(* ===== verification/Exchange.thy ===== *)
theory Exchange
  imports Prelude
begin

section \<open>The notarised exchange\<close>

text \<open>
  What \<open>pprev-types/src/layout.rs\<close> and \<open>record.rs\<close> share: the parameters of a layout file that
  both kinds of source have (one record, extended by each of them), the padding of values, the
  writer that appends template pieces and reports where each landed, and the shape of a notarised
  exchange. Two locales state what the rest of the system relies on: a segmented source
  writes its response as a list of segments with fixed lengths and fixed revealed segments, and a
  response source has the same ranges and the same revealed bytes for every record. The first
  contract gives the second.
\<close>

subsection \<open>Parameters, padding and the writer\<close>

definition KEY_ACCOUNT :: bytes where "KEY_ACCOUNT = ''account''"
definition KEY_RECORD :: bytes where "KEY_RECORD = ''record''"
definition KEY_PROPERTY_ID :: bytes where "KEY_PROPERTY_ID = ''propertyId''"
definition KEY_OWNERS :: bytes where "KEY_OWNERS = ''owners''"
definition KEY_ENCUMBRANCE :: bytes where "KEY_ENCUMBRANCE = ''encumbrance''"
definition KEY_ASSESSED_VALUE :: bytes where "KEY_ASSESSED_VALUE = ''assessedValue''"
definition KEY_RECORD_DATE :: bytes where "KEY_RECORD_DATE = ''recordDate''"

lemmas key_defs = KEY_ACCOUNT_def KEY_RECORD_def KEY_PROPERTY_ID_def KEY_OWNERS_def
  KEY_ENCUMBRANCE_def KEY_ASSESSED_VALUE_def KEY_RECORD_DATE_def

record source_layout =
  layout_id :: bytes
  server_name :: bytes
  path_prefix :: bytes
  status_line :: bytes
  content_type :: bytes
  padding :: bytes
  account_width :: nat

definition padding_byte :: "'a source_layout_scheme \<Rightarrow> char res" where
  "padding_byte l = index_at (padding l) 0"

definition path :: "'a source_layout_scheme \<Rightarrow> bytes \<Rightarrow> bytes" where
  "path l subject = path_prefix l @ subject"

definition request_line :: "'a source_layout_scheme \<Rightarrow> bytes \<Rightarrow> bytes" where
  "request_line l subject = ''GET '' @ path l subject @ '' HTTP/1.1''"

abbreviation dquote :: char where "dquote \<equiv> CHR 0x22"
abbreviation backslash :: char where "backslash \<equiv> CHR 0x5C"
abbreviation crlf :: bytes where "crlf \<equiv> [CHR 0x0D, CHR 0x0A]"

definition pad_value :: "bytes \<Rightarrow> bytes \<Rightarrow> nat \<Rightarrow> bytes res" where
  "pad_value pad_str value width =
     ensure (is_ascii value) ''value is not ASCII'' (
     ensure (\<not> (dquote \<in> set value \<or> backslash \<in> set value))
       ''value contains a quote or backslash'' (
     ensure (\<not> list_ex is_ascii_control value) ''value contains a control character'' (
     if length value > width then bail ''value is longer than its width''
     else Inr (value @ concat (replicate (width - length value)
                 (case first_char pad_str of Some c \<Rightarrow> c | None \<Rightarrow> '' ''))))))"

definition pad :: "'a source_layout_scheme \<Rightarrow> bytes \<Rightarrow> nat \<Rightarrow> bytes res" where
  "pad l value width = pad_value (padding l) value width"

text \<open>The writer's state is the bytes written so far; each operation returns it with the range.\<close>

definition lit :: "bytes \<Rightarrow> bytes \<Rightarrow> bytes \<times> range" where
  "lit w s = (w @ s, Range (length w) (length w + length s))"

definition write_key :: "bytes \<Rightarrow> bytes \<Rightarrow> bytes \<times> range" where
  "write_key w name = lit w ([dquote] @ name @ [dquote] @ '':'')"

definition write_string :: "bytes \<Rightarrow> bytes \<Rightarrow> bytes \<times> range" where
  "write_string w value =
     (let (w, _) = lit w [dquote]; (w, r) = lit w value; (w, _) = lit w [dquote] in (w, r))"

record response_shape =
  shape_server_name :: bytes
  shape_path :: bytes
  shape_request_line :: bytes
  shape_template :: bytes
  shape_len :: nat
  shape_revealed :: "range list"
  shape_hidden :: "range list"

subsection \<open>Padding\<close>

text \<open>What a layout that passes \<open>validate\<close> guarantees.\<close>

definition valid_padding :: "'a source_layout_scheme \<Rightarrow> bool" where
  "valid_padding l \<longleftrightarrow> length (padding l) = 1 \<and> is_ascii (padding l)"

lemma valid_padding_char: "valid_padding l \<Longrightarrow> \<exists>c. padding l = [c] \<and> is_ascii_byte c"
  by (auto simp: valid_padding_def length_Suc_conv)

definition plain_value :: "bytes \<Rightarrow> bool" where
  "plain_value v \<longleftrightarrow> is_ascii v \<and> dquote \<notin> set v \<and> backslash \<notin> set v \<and>
     \<not> list_ex is_ascii_control v"

lemma pad_value_eq:
  assumes "is_ascii_byte c"
  shows "pad_value [c] v w = Inr x \<longleftrightarrow>
    plain_value v \<and> length v \<le> w \<and> x = v @ replicate (w - length v) c"
proof -
  have "concat (replicate n [c]) = replicate n c" for n
    by (induction n) simp_all
  moreover from assms have "first_char [c] = Some [c]"
    by (simp add: first_char_def utf8_width_def byte_defs)
  ultimately show ?thesis
    by (auto simp: pad_value_def plain_value_def res_simps)
qed

lemma pad_Inr_iff:
  assumes "padding l = [c]" and "is_ascii_byte c"
  shows "pad l v w = Inr x \<longleftrightarrow> plain_value v \<and> length v \<le> w \<and> x = v @ replicate (w - length v) c"
  using assms by (simp add: pad_def pad_value_eq)

lemma pad_length: "valid_padding l \<Longrightarrow> pad l v w = Inr x \<Longrightarrow> length x = w"
  by (auto dest!: valid_padding_char simp: pad_Inr_iff)

lemma pad_blank: "valid_padding l \<Longrightarrow> \<exists>c. padding l = [c] \<and> pad l [] w = Inr (replicate w c)"
  by (auto dest!: valid_padding_char simp: pad_Inr_iff plain_value_def)

subsection \<open>Segments of a response\<close>

definition key_segment :: "bytes \<Rightarrow> bytes" where
  "key_segment name = [dquote] @ name @ [dquote] @ '':''"

definition head_segments :: "'a source_layout_scheme \<Rightarrow> nat \<Rightarrow> bytes list" where
  "head_segments l n =
     [status_line l, crlf, ''Content-Type: '' @ content_type l, crlf,
      ''Content-Length: '' @ dec n @ crlf, ''Connection: close'' @ crlf @ crlf]"

lemma write_key_eq: "write_key w name = (w @ key_segment name,
    Range (length w) (length w + length (key_segment name)))"
  by (simp add: write_key_def lit_def key_segment_def)

lemma write_string_eq: "write_string w v =
    (w @ [dquote] @ v @ [dquote], Range (length w + 1) (length w + 1 + length v))"
  by (simp add: write_string_def lit_def)

lemma length_concat_cong: "map length ss = map length ts \<Longrightarrow> length (concat ss) = length (concat ts)"
  by (simp add: length_concat)


subsection \<open>Sources\<close>

text \<open>
  A response source: \<open>render l v\<close> is the response of the layout \<open>l\<close> to the values \<open>v\<close>, and
  \<open>shape_of l subject\<close> the exchange the prover and the policy verifier expect.
\<close>

locale response_source =
  fixes valid :: "'l \<Rightarrow> bool"
    and render :: "'l \<Rightarrow> 'v \<Rightarrow> bytes res"
    and shape_of :: "'l \<Rightarrow> bytes \<Rightarrow> response_shape res"
  assumes shape_total: "valid l \<Longrightarrow> \<exists>s. shape_of l subject = Inr s"
    and shape_length: "valid l \<Longrightarrow> shape_of l subject = Inr s \<Longrightarrow>
      render l v = Inr b \<Longrightarrow> length b = shape_len s \<and> length (shape_template s) = shape_len s"
    and shape_revealed_bytes: "valid l \<Longrightarrow> shape_of l subject = Inr s \<Longrightarrow>
      render l v = Inr b \<Longrightarrow> r \<in> set (shape_revealed s) \<Longrightarrow>
      holds b r (slice (shape_template s) r) \<and> in_bounds (shape_template s) r"
    and shape_hidden_bounds: "valid l \<Longrightarrow> shape_of l subject = Inr s \<Longrightarrow>
      render l v = Inr b \<Longrightarrow> r \<in> set (shape_hidden s) \<Longrightarrow> in_bounds b r"
    and shape_disjoint: "valid l \<Longrightarrow> shape_of l subject = Inr s \<Longrightarrow>
      r \<in> set (shape_revealed s) \<Longrightarrow> q \<in> set (shape_hidden s) \<Longrightarrow> disjoint_ranges r q"
    and shape_hidden_apart: "valid l \<Longrightarrow> shape_of l subject = Inr s \<Longrightarrow>
      i < j \<Longrightarrow> j < length (shape_hidden s) \<Longrightarrow>
      disjoint_ranges (shape_hidden s ! i) (shape_hidden s ! j)"
    and shape_hidden_nonempty: "valid l \<Longrightarrow> shape_of l subject = Inr s \<Longrightarrow>
      r \<in> set (shape_hidden s) \<Longrightarrow> 0 < range_len r"

text \<open>
  A source that writes segments: \<open>fits l ss\<close> says that \<open>ss\<close> are segments of a response of \<open>l\<close>,
  \<open>rev l\<close> and \<open>hid l\<close> which of them are revealed and hidden.
\<close>

locale segmented_source =
  fixes valid :: "'l \<Rightarrow> bool"
    and render :: "'l \<Rightarrow> 'v \<Rightarrow> bytes res"
    and shape_of :: "'l \<Rightarrow> bytes \<Rightarrow> response_shape res"
    and fits :: "'l \<Rightarrow> bytes list \<Rightarrow> bool"
    and rev_segs :: "'l \<Rightarrow> nat list"
    and hid_segs :: "'l \<Rightarrow> nat list"
  assumes render_fits: "valid l \<Longrightarrow> render l v = Inr b \<Longrightarrow> \<exists>ss. fits l ss \<and> b = concat ss"
    and shape_fits: "valid l \<Longrightarrow> \<exists>ss s. fits l ss \<and> shape_of l subject = Inr s \<and>
      shape_template s = concat ss \<and> shape_len s = length (concat ss) \<and>
      shape_revealed s = map (\<lambda>i. offsets 0 ss ! i) (rev_segs l) \<and>
      shape_hidden s = map (\<lambda>i. offsets 0 ss ! i) (hid_segs l)"
    and fits_lengths: "valid l \<Longrightarrow> fits l ss \<Longrightarrow> fits l ts \<Longrightarrow> map length ss = map length ts"
    and fits_revealed: "valid l \<Longrightarrow> fits l ss \<Longrightarrow> fits l ts \<Longrightarrow> i \<in> set (rev_segs l) \<Longrightarrow>
      ss ! i = ts ! i"
    and fits_index: "valid l \<Longrightarrow> fits l ss \<Longrightarrow> i \<in> set (rev_segs l) \<union> set (hid_segs l) \<Longrightarrow>
      i < length ss"
    and segs_disjoint: "valid l \<Longrightarrow> set (rev_segs l) \<inter> set (hid_segs l) = {}"
    and hid_distinct: "valid l \<Longrightarrow> distinct (hid_segs l)"
    and hid_nonempty: "valid l \<Longrightarrow> fits l ss \<Longrightarrow> i \<in> set (hid_segs l) \<Longrightarrow> ss ! i \<noteq> []"
begin

lemma shape_obtain:
  assumes "valid l" and "shape_of l subject = Inr s"
  obtains ss where "fits l ss" "shape_template s = concat ss" "shape_len s = length (concat ss)"
    "shape_revealed s = map (\<lambda>i. offsets 0 ss ! i) (rev_segs l)"
    "shape_hidden s = map (\<lambda>i. offsets 0 ss ! i) (hid_segs l)"
  using shape_fits [OF assms(1), of subject] assms(2) by auto

end

sublocale segmented_source \<subseteq> response_source
proof
  fix l subject
  assume "valid l"
  then show "\<exists>s. shape_of l subject = Inr s" using shape_fits by blast
next
  fix l subject s v b
  assume l: "valid l" and s: "shape_of l subject = Inr s" and b: "render l v = Inr b"
  obtain ss where ss: "fits l ss" "shape_template s = concat ss" "shape_len s = length (concat ss)"
    using shape_obtain [OF l s] by blast
  obtain ts where ts: "fits l ts" "b = concat ts" using render_fits [OF l b] by blast
  show "length b = shape_len s \<and> length (shape_template s) = shape_len s"
    using length_concat_cong [OF fits_lengths [OF l ss(1) ts(1)]] ss ts by simp
next
  fix l subject s v b r
  assume l: "valid l" and s: "shape_of l subject = Inr s" and b: "render l v = Inr b"
    and r: "r \<in> set (shape_revealed s)"
  obtain ss where ss: "fits l ss" "shape_template s = concat ss"
    "shape_revealed s = map (\<lambda>i. offsets 0 ss ! i) (rev_segs l)"
    using shape_obtain [OF l s] by blast
  obtain ts where ts: "fits l ts" "b = concat ts" using render_fits [OF l b] by blast
  from r ss obtain i where i: "i \<in> set (rev_segs l)" and ri: "r = offsets 0 ss ! i" by auto
  have "offsets 0 ss = offsets 0 ts" by (rule offsets_cong) (rule fits_lengths [OF l ss(1) ts(1)])
  then have "holds b r (ts ! i)"
    using holds_concat [OF fits_index [OF l ts(1), of i]] i ri ts by simp
  moreover have "holds (shape_template s) r (ss ! i)"
    using holds_concat [OF fits_index [OF l ss(1), of i]] i ri ss by simp
  moreover have "ss ! i = ts ! i" using fits_revealed [OF l ss(1) ts(1) i] .
  ultimately show "holds b r (slice (shape_template s) r) \<and> in_bounds (shape_template s) r"
    by (metis holds_slice holds_in_bounds)
next
  fix l subject s v b r
  assume l: "valid l" and s: "shape_of l subject = Inr s" and b: "render l v = Inr b"
    and r: "r \<in> set (shape_hidden s)"
  obtain ss where ss: "fits l ss" "shape_hidden s = map (\<lambda>i. offsets 0 ss ! i) (hid_segs l)"
    using shape_obtain [OF l s] by blast
  obtain ts where ts: "fits l ts" "b = concat ts" using render_fits [OF l b] by blast
  from r ss obtain i where i: "i \<in> set (hid_segs l)" and ri: "r = offsets 0 ss ! i" by auto
  have "offsets 0 ss = offsets 0 ts" by (rule offsets_cong) (rule fits_lengths [OF l ss(1) ts(1)])
  then show "in_bounds b r"
    using holds_concat [OF fits_index [OF l ts(1), of i]] i ri ts holds_in_bounds by simp
next
  fix l subject s r q
  assume l: "valid l" and s: "shape_of l subject = Inr s"
    and r: "r \<in> set (shape_revealed s)" and q: "q \<in> set (shape_hidden s)"
  obtain ss where ss: "fits l ss"
    "shape_revealed s = map (\<lambda>i. offsets 0 ss ! i) (rev_segs l)"
    "shape_hidden s = map (\<lambda>i. offsets 0 ss ! i) (hid_segs l)"
    using shape_obtain [OF l s] by blast
  from r q ss obtain i j where "i \<in> set (rev_segs l)" "r = offsets 0 ss ! i"
    and "j \<in> set (hid_segs l)" "q = offsets 0 ss ! j" by auto
  moreover from this have "i \<noteq> j" using segs_disjoint [OF l] by auto
  ultimately show "disjoint_ranges r q"
    using offsets_disjoint [of i j ss 0] fits_index [OF l ss(1)] by auto
next
  fix l subject s i j
  assume l: "valid l" and s: "shape_of l subject = Inr s"
    and ij: "i < j" "j < length (shape_hidden s)"
  obtain ss where ss: "fits l ss" "shape_hidden s = map (\<lambda>i. offsets 0 ss ! i) (hid_segs l)"
    using shape_obtain [OF l s] by blast
  have "hid_segs l ! i \<noteq> hid_segs l ! j"
    using hid_distinct [OF l] ij ss(2) by (simp add: nth_eq_iff_index_eq)
  then show "disjoint_ranges (shape_hidden s ! i) (shape_hidden s ! j)"
    using offsets_disjoint [of "hid_segs l ! i" "hid_segs l ! j" ss 0] fits_index [OF l ss(1)] ij ss(2)
    by simp
next
  fix l subject s r
  assume l: "valid l" and s: "shape_of l subject = Inr s" and r: "r \<in> set (shape_hidden s)"
  obtain ss where ss: "fits l ss" "shape_hidden s = map (\<lambda>i. offsets 0 ss ! i) (hid_segs l)"
    using shape_obtain [OF l s] by blast
  from r ss obtain i where i: "i \<in> set (hid_segs l)" "r = offsets 0 ss ! i" by auto
  have "range_len r = length (ss ! i)"
    using holds_length [OF holds_concat [OF fits_index [OF l ss(1), of i]]] i by simp
  then show "0 < range_len r" using hid_nonempty [OF l ss(1) i(1)] by simp
qed

end
