(* ===== verification/Layout.thy ===== *)
theory Layout
  imports Exchange
begin

section \<open>The fixed-layout title response\<close>

text \<open>
  Model of \<open>pprev-types/src/layout.rs\<close>: the layout file and its validation, the rendering of a
  title record as a full HTTP response with the byte range of every part, and the shape of the
  notarised exchange. The reading of the file and \<open>serde_json\<close> are parameters. The response is then
  characterised as the concatenation of a list of segments whose positions are the prefix sums of
  their lengths; with it the title layout is a segmented source, from which the properties follow.
\<close>

subsection \<open>The layout\<close>

record layout = source_layout +
  property_id_width :: nat
  owner_slots :: nat
  encumbrance_width :: nat
  assessed_value_width :: nat
  record_date_width :: nat

record title_record =
  property_id :: bytes
  owners :: "bytes list"
  encumbrance :: bytes
  assessed_value :: bytes
  record_date :: bytes

record response_ranges =
  response_len :: nat
  status_line_range :: range
  content_type_range :: range
  key_ranges :: "range list"
  account_range :: range
  owners_range :: range
  owner_slot_offsets :: "nat list"
  property_id_range :: range

definition revealed :: "response_ranges \<Rightarrow> range list" where
  "revealed r = [status_line_range r, content_type_range r] @ key_ranges r"

definition hidden :: "response_ranges \<Rightarrow> range list" where
  "hidden r = [account_range r, owners_range r, property_id_range r]"

record rendered =
  rendered_bytes :: bytes
  rendered_ranges :: response_ranges

definition validate_layout :: "layout \<Rightarrow> unit res" where
  "validate_layout l =
     ensure (length (padding l) = 1 \<and> is_ascii (padding l)) ''padding must be one ASCII character'' (
     ensure (owner_slots l > 0) ''owner_slots must be positive'' (
     for_each_res (\<lambda>(name, w). ensure (w > 0) (name @ '' must be positive'') (Inr ()))
       [(''accountWidth'', account_width l),
        (''propertyIdWidth'', property_id_width l),
        (''encumbranceWidth'', encumbrance_width l),
        (''assessedValueWidth'', assessed_value_width l),
        (''recordDateWidth'', record_date_width l)]))"

definition layout_from_json :: "(bytes \<Rightarrow> layout res) \<Rightarrow> bytes \<Rightarrow> layout res" where
  "layout_from_json serde_json_from_str text =
     and_then (with_ctx ''parsing layout'' (serde_json_from_str text)) (\<lambda>layout.
     and_then (validate_layout layout) (\<lambda>_. Inr layout))"

definition load_layout ::
    "('path \<Rightarrow> bytes res) \<Rightarrow> (bytes \<Rightarrow> layout res) \<Rightarrow> 'path \<Rightarrow> layout res" where
  "load_layout read_to_string serde_json_from_str file =
     and_then (with_ctx ''reading'' (read_to_string file)) (layout_from_json serde_json_from_str)"

definition owner_at :: "bytes list \<Rightarrow> nat \<Rightarrow> bytes" where
  "owner_at os i = (if i < length os then os ! i else [])"

fun write_owner_slots ::
    "layout \<Rightarrow> bytes list \<Rightarrow> nat list \<Rightarrow> bytes \<Rightarrow> range list \<Rightarrow> (bytes \<times> range list) res" where
  "write_owner_slots l os [] body slots = Inr (body, slots)"
| "write_owner_slots l os (i # is) body slots =
     (let body = (if i > 0 then fst (lit body '','') else body) in
      and_then (pad l (owner_at os i) (account_width l)) (\<lambda>v.
      let (body, r) = write_string body v in
      write_owner_slots l os is body (slots @ [r])))"

subsection \<open>Rendering\<close>

definition render_response :: "layout \<Rightarrow> bytes \<Rightarrow> title_record \<Rightarrow> rendered res" where
  "render_response l account r =
     ensure (length (owners r) \<le> owner_slots l) ''record has too many owners for the layout'' (
     let (body, _) = lit [] ''{'';
         (body, k1) = write_key body KEY_ACCOUNT in
     and_then (pad l account (account_width l)) (\<lambda>v.
     let (body, account_r) = write_string body v;
         (body, _) = lit body '','';
         (body, k2) = write_key body KEY_RECORD;
         (body, _) = lit body ''{'';
         (body, k3) = write_key body KEY_PROPERTY_ID in
     and_then (pad l (property_id r) (property_id_width l)) (\<lambda>v.
     let (body, property_r) = write_string body v;
         (body, _) = lit body '','';
         (body, k4) = write_key body KEY_OWNERS;
         (body, _) = lit body ''['' in
     and_then (write_owner_slots l (owners r) [0..<owner_slots l] body []) (\<lambda>(body, slots).
     let (body, _) = lit body ''],'';
         (body, k5) = write_key body KEY_ENCUMBRANCE in
     and_then (pad l (encumbrance r) (encumbrance_width l)) (\<lambda>v.
     let (body, _) = write_string body v;
         (body, _) = lit body '','';
         (body, k6) = write_key body KEY_ASSESSED_VALUE in
     and_then (pad l (assessed_value r) (assessed_value_width l)) (\<lambda>v.
     let (body, _) = write_string body v;
         (body, _) = lit body '','';
         (body, k7) = write_key body KEY_RECORD_DATE in
     and_then (pad l (record_date r) (record_date_width l)) (\<lambda>v.
     let (body, _) = write_string body v;
         (body, _) = lit body ''}}'';
         (head, status_line) = lit [] (status_line l);
         (head, _) = lit head crlf;
         (head, content_type_line) = lit head (''Content-Type: '' @ content_type l);
         (head, _) = lit head crlf;
         (head, _) = lit head (''Content-Length: '' @ dec (length body) @ crlf);
         (head, _) = lit head (''Connection: close'' @ crlf @ crlf);
         sh = length head in
     and_then (index_at slots 0) (\<lambda>first_slot.
     and_then (index_at slots (length slots - 1)) (\<lambda>last_slot.
     let owners_r = shift sh (Range (rstart first_slot) (rend last_slot)) in
     Inr \<lparr>rendered_bytes = head @ body,
          rendered_ranges =
            \<lparr>response_len = length head + length body,
             status_line_range = status_line,
             content_type_range = content_type_line,
             key_ranges = map (shift sh) [k1, k2, k3, k4, k5, k6, k7],
             account_range = shift sh account_r,
             owners_range = owners_r,
             owner_slot_offsets = map (\<lambda>s. rstart s + sh - rstart owners_r) slots,
             property_id_range = shift sh property_r\<rparr>\<rparr>)))))))))"

definition blank_record :: title_record where
  "blank_record =
     \<lparr>property_id = [], owners = [], encumbrance = [], assessed_value = [], record_date = []\<rparr>"

definition template :: "layout \<Rightarrow> rendered res" where
  "template l = render_response l [] blank_record"

definition layout_ranges :: "layout \<Rightarrow> response_ranges res" where
  "layout_ranges l = and_then (template l) (\<lambda>t. Inr (rendered_ranges t))"

definition shape :: "layout \<Rightarrow> bytes \<Rightarrow> response_shape res" where
  "shape l pid =
     and_then (template l) (\<lambda>t.
     Inr \<lparr>shape_server_name = server_name l,
          shape_path = path l pid,
          shape_request_line = request_line l pid,
          shape_template = rendered_bytes t,
          shape_len = response_len (rendered_ranges t),
          shape_revealed = revealed (rendered_ranges t),
          shape_hidden = hidden (rendered_ranges t)\<rparr>)"

definition property_id_word :: "layout \<Rightarrow> bytes \<Rightarrow> bytes res" where
  "property_id_word l pid =
     ensure (property_id_width l \<le> 32) ''property id width exceeds 32 bytes'' (
     and_then (pad l pid (property_id_width l)) (\<lambda>value.
     if length value \<le> 32 then Inr (value @ replicate (32 - length value) (CHR 0x00))
     else Inl (Panic ''range out of bounds of slice'')))"


subsection \<open>The response as a list of segments\<close>

text \<open>The value range of the owners: the slots with the separators between them.\<close>

fun join_slots :: "bytes list \<Rightarrow> bytes" where
  "join_slots [] = []"
| "join_slots [v] = v"
| "join_slots (v # vs) = v @ [dquote, CHR '','', dquote] @ join_slots vs"

definition body_segments ::
    "bytes \<Rightarrow> bytes \<Rightarrow> bytes list \<Rightarrow> bytes \<Rightarrow> bytes \<Rightarrow> bytes \<Rightarrow> bytes list" where
  "body_segments acc prop slots enc val date =
     [''{'', key_segment KEY_ACCOUNT, [dquote], acc, [dquote], '','',
      key_segment KEY_RECORD, ''{'', key_segment KEY_PROPERTY_ID, [dquote], prop, [dquote], '','',
      key_segment KEY_OWNERS, ''['', [dquote], join_slots slots, [dquote], ''],'',
      key_segment KEY_ENCUMBRANCE, [dquote], enc, [dquote], '','',
      key_segment KEY_ASSESSED_VALUE, [dquote], val, [dquote], '','',
      key_segment KEY_RECORD_DATE, [dquote], date, [dquote], ''}}'']"

definition response_segments ::
    "layout \<Rightarrow> bytes \<Rightarrow> bytes \<Rightarrow> bytes list \<Rightarrow> bytes \<Rightarrow> bytes \<Rightarrow> bytes \<Rightarrow> bytes list" where
  "response_segments l acc prop slots enc val date =
     (let body = body_segments acc prop slots enc val date
      in head_segments l (length (concat body)) @ body)"

text \<open>Which segment each range of the response is.\<close>

definition revealed_segments :: "nat list" where
  "revealed_segments = [0, 2, 7, 12, 14, 19, 25, 30, 35]"

definition hidden_segments :: "nat list" where
  "hidden_segments = [9, 22, 16]"

lemma length_response_segments [simp]:
  "length (response_segments l acc prop slots enc val date) = 40"
  by (simp add: response_segments_def Let_def head_segments_def body_segments_def)

subsection \<open>What the writer produces\<close>

definition slot_values :: "layout \<Rightarrow> bytes list \<Rightarrow> bytes list res" where
  "slot_values l os =
     collect_res (\<lambda>i. pad l (owner_at os i) (account_width l)) [0..<owner_slots l]"

text \<open>The distance between the starts of neighbouring owner slots.\<close>

definition stride :: "layout \<Rightarrow> nat" where
  "stride l = account_width l + 3"

definition slot_range :: "layout \<Rightarrow> nat \<Rightarrow> nat \<Rightarrow> range" where
  "slot_range l start i = Range (start + i * stride l) (start + i * stride l + account_width l)"

lemma write_owner_slots_tail:
  assumes vp: "valid_padding l" and "0 \<notin> set is"
  shows "write_owner_slots l os is body slots =
    and_then (collect_res (\<lambda>i. pad l (owner_at os i) (account_width l)) is) (\<lambda>vs.
      Inr (body @ concat (map (\<lambda>v. [CHR '','', dquote] @ v @ [dquote]) vs),
           slots @ map (slot_range l (length body + 2)) [0..<length is]))"
  using assms(2)
proof (induction "is" arbitrary: body slots)
  case Nil
  then show ?case by simp
next
  case (Cons i js)
  show ?case
  proof (cases "pad l (owner_at os i) (account_width l)")
    case (Inl e)
    with Cons.prems show ?thesis by (simp add: lit_def)
  next
    case (Inr v)
    then have "length v = account_width l" by (rule pad_length [OF vp])
    moreover have "map (slot_range l (length body + 2)) [0..<Suc (length js)] =
        slot_range l (length body + 2) 0 #
        map (slot_range l (length body + account_width l + 5)) [0..<length js]"
      by (simp add: upt_conv_Cons map_Suc_upt [symmetric] slot_range_def stride_def algebra_simps
          del: upt_Suc)
    moreover have "slot_range l (length body + 2) 0
        = Range (length body + 2) (length body + 2 + account_width l)"
      by (simp add: slot_range_def)
    ultimately show ?thesis using Inr Cons
      by (cases "collect_res (\<lambda>i. pad l (owner_at os i) (account_width l)) js")
        (simp_all add: lit_def write_string_eq Cons.IH add.commute eval_nat_numeral del: upt_Suc)
  qed
qed

lemma join_slots_concat:
  "[dquote] @ join_slots (v # vs) @ [dquote] =
   [dquote] @ v @ [dquote] @ concat (map (\<lambda>v. [CHR '','', dquote] @ v @ [dquote]) vs)"
  by (induction vs arbitrary: v) simp_all

lemma write_owner_slots_eq:
  assumes vp: "valid_padding l" and pos: "0 < owner_slots l"
  shows "write_owner_slots l os [0..<owner_slots l] body [] =
    and_then (slot_values l os) (\<lambda>vs.
      Inr (body @ [dquote] @ join_slots vs @ [dquote],
           map (slot_range l (length body + 1)) [0..<owner_slots l]))"
proof -
  obtain k where k: "owner_slots l = Suc k" using pos by (cases "owner_slots l") auto
  have upt: "[0..<Suc k] = 0 # [1..<Suc k]" by (simp add: upt_conv_Cons del: upt_Suc)
  let ?rest = "collect_res (\<lambda>i. pad l (owner_at os i) (account_width l)) [1..<Suc k]"
  show ?thesis
  proof (cases "pad l (owner_at os 0) (account_width l)")
    case (Inl e)
    then show ?thesis unfolding slot_values_def k upt by simp
  next
    case (Inr v)
    then have len: "length v = account_width l" by (rule pad_length [OF vp])
    have "map (slot_range l (length body + 1)) [0..<Suc k] =
        slot_range l (length body + 1) 0 #
        map (slot_range l (length body + account_width l + 4)) [0..<k]"
      by (simp add: upt_conv_Cons map_Suc_upt [symmetric] slot_range_def stride_def algebra_simps
          del: upt_Suc)
    moreover have "slot_range l (length body + 1) 0
        = Range (length body + 1) (length body + 1 + account_width l)"
      by (simp add: slot_range_def)
    ultimately show ?thesis using Inr len join_slots_concat [of v]
      unfolding slot_values_def k
      by (cases ?rest)
        (simp_all add: upt write_string_eq write_owner_slots_tail [OF vp] add.commute
          eval_nat_numeral del: upt_Suc)
  qed
qed

text \<open>The rendering of padded values.\<close>

definition rendering ::
    "layout \<Rightarrow> bytes \<Rightarrow> bytes \<Rightarrow> bytes list \<Rightarrow> bytes \<Rightarrow> bytes \<Rightarrow> bytes \<Rightarrow> rendered" where
  "rendering l acc prop slots enc val date =
     (let segs = response_segments l acc prop slots enc val date;
          at = (\<lambda>i. offsets 0 segs ! i)
      in \<lparr>rendered_bytes = concat segs,
          rendered_ranges =
            \<lparr>response_len = length (concat segs),
             status_line_range = at 0, content_type_range = at 2,
             key_ranges = map at [7, 12, 14, 19, 25, 30, 35],
             account_range = at 9, owners_range = at 22,
             owner_slot_offsets = map (\<lambda>i. i * stride l) [0..<owner_slots l],
             property_id_range = at 16\<rparr>\<rparr>)"

lemma length_join_slots:
  "vs \<noteq> [] \<Longrightarrow> (\<And>v. v \<in> set vs \<Longrightarrow> length v = w) \<Longrightarrow>
   length (join_slots vs) = (length vs - 1) * (w + 3) + w"
proof (induction vs rule: join_slots.induct)
  case (3 v u vs)
  then show ?case by simp
qed simp_all

lemma slot_values_length:
  assumes "valid_padding l" and "slot_values l os = Inr vs"
  shows "length vs = owner_slots l" and "v \<in> set vs \<Longrightarrow> length v = account_width l"
  using assms
  by (auto simp: slot_values_def dest: collect_res_length)
    (metis collect_res_length collect_res_nth in_set_conv_nth pad_length)

lemma render_response_eq:
  assumes vp: "valid_padding l" and pos: "0 < owner_slots l"
  shows "render_response l acc r =
    ensure (length (owners r) \<le> owner_slots l) ''record has too many owners for the layout'' (
    and_then (pad l acc (account_width l)) (\<lambda>a.
    and_then (pad l (property_id r) (property_id_width l)) (\<lambda>p.
    and_then (slot_values l (owners r)) (\<lambda>vs.
    and_then (pad l (encumbrance r) (encumbrance_width l)) (\<lambda>e.
    and_then (pad l (assessed_value r) (assessed_value_width l)) (\<lambda>v.
    and_then (pad l (record_date r) (record_date_width l)) (\<lambda>d.
    Inr (rendering l a p vs e v d))))))))"
proof -
  have step: "ensure b m x = ensure b m y" if "x = y" for b m and x y :: "rendered res"
    using that by simp
  { fix a p vs e v d
    assume "pad l acc (account_width l) = Inr a"
      and "pad l (property_id r) (property_id_width l) = Inr p"
      and vs: "slot_values l (owners r) = Inr vs"
      and "pad l (encumbrance r) (encumbrance_width l) = Inr e"
      and "pad l (assessed_value r) (assessed_value_width l) = Inr v"
      and "pad l (record_date r) (record_date_width l) = Inr d"
    have "vs \<noteq> []" using slot_values_length(1) [OF vp vs] pos by auto
    then have "length (join_slots vs) = (owner_slots l - 1) * stride l + account_width l"
      using length_join_slots slot_values_length [OF vp vs] by (simp add: stride_def) }
  note js = this
  have slots: "index_at (map (slot_range l n) [0..<owner_slots l]) 0
        = Inr (slot_range l n 0)"
    "index_at (map (slot_range l n) [0..<owner_slots l])
        (length (map (slot_range l n) [0..<owner_slots l]) - 1)
        = Inr (slot_range l n (owner_slots l - 1))" for n
    using pos by (simp_all add: index_at_def)
  show ?thesis
    unfolding render_response_def Let_def write_owner_slots_eq [OF vp pos] and_then_assoc
      write_key_eq write_string_eq lit_def prod.case and_then_simps slots fst_conv
    by (intro step and_then_cong refl)
      (simp add: rendering_def Let_def response_segments_def head_segments_def
        body_segments_def js slot_range_def)
qed

text \<open>What \<open>validate\<close> establishes, and the widths of padded values.\<close>

definition valid_layout :: "layout \<Rightarrow> bool" where
  "valid_layout l \<longleftrightarrow> valid_padding l \<and> 0 < owner_slots l \<and> 0 < account_width l \<and>
     0 < property_id_width l \<and> 0 < encumbrance_width l \<and> 0 < assessed_value_width l \<and>
     0 < record_date_width l"

lemma validate_layout_iff: "validate_layout l = Inr () \<longleftrightarrow> valid_layout l"
  by (auto simp: validate_layout_def valid_layout_def valid_padding_def ensure_Inr_iff and_then_Inr_iff)

definition padded_values ::
    "layout \<Rightarrow> bytes \<Rightarrow> bytes \<Rightarrow> bytes list \<Rightarrow> bytes \<Rightarrow> bytes \<Rightarrow> bytes \<Rightarrow> bool" where
  "padded_values l acc prop slots enc val date \<longleftrightarrow>
     length acc = account_width l \<and> length prop = property_id_width l \<and>
     length slots = owner_slots l \<and> list_all (\<lambda>v. length v = account_width l) slots \<and>
     length enc = encumbrance_width l \<and> length val = assessed_value_width l \<and>
     length date = record_date_width l"

lemma padded_join_slots:
  assumes "valid_layout l" and "padded_values l acc prop slots enc val date"
  shows "length (join_slots slots) = (owner_slots l - 1) * stride l + account_width l"
proof -
  from assms have "slots \<noteq> []" and "\<And>v. v \<in> set slots \<Longrightarrow> length v = account_width l"
    by (auto simp: padded_values_def valid_layout_def list_all_iff)
  from length_join_slots [OF this] assms(2) show ?thesis
    by (simp add: padded_values_def stride_def)
qed

lemma render_response_Inr:
  assumes "valid_layout l" and "render_response l acc r = Inr x"
  obtains a p vs e v d where
    "pad l acc (account_width l) = Inr a" "pad l (property_id r) (property_id_width l) = Inr p"
    "slot_values l (owners r) = Inr vs" "padded_values l a p vs e v d"
    "x = rendering l a p vs e v d"
proof -
  from assms have vp: "valid_padding l" and pos: "0 < owner_slots l"
    by (auto simp: valid_layout_def)
  from assms(2) obtain a p vs e v d where
    a: "pad l acc (account_width l) = Inr a" and
    p: "pad l (property_id r) (property_id_width l) = Inr p" and
    vs: "slot_values l (owners r) = Inr vs" and
    e: "pad l (encumbrance r) (encumbrance_width l) = Inr e" and
    v: "pad l (assessed_value r) (assessed_value_width l) = Inr v" and
    d: "pad l (record_date r) (record_date_width l) = Inr d" and
    x: "x = rendering l a p vs e v d"
    unfolding render_response_eq [OF vp pos] ensure_Inr_iff and_then_Inr_iff by blast
  have "padded_values l a p vs e v d"
    using slot_values_length [OF vp vs] pad_length [OF vp] a p e v d
    by (simp add: padded_values_def list_all_iff)
  with that a p vs x show ?thesis by blast
qed

lemma template_rendering:
  assumes "valid_layout l"
  obtains a p vs e v d where "padded_values l a p vs e v d"
    "template l = Inr (rendering l a p vs e v d)"
proof -
  from assms have vp: "valid_padding l" and pos: "0 < owner_slots l"
    by (auto simp: valid_layout_def)
  obtain c where c: "\<And>w. pad l [] w = Inr (replicate w c)"
    using valid_padding_char [OF vp] by (auto simp: pad_Inr_iff plain_value_def intro: that)
  have "slot_values l [] = Inr (map (\<lambda>_. replicate (account_width l) c) [0..<owner_slots l])"
    unfolding slot_values_def by (rule collect_res_total) (simp add: c owner_at_def)
  with c have "template l = Inr (rendering l (replicate (account_width l) c)
      (replicate (property_id_width l) c)
      (map (\<lambda>_. replicate (account_width l) c) [0..<owner_slots l])
      (replicate (encumbrance_width l) c) (replicate (assessed_value_width l) c)
      (replicate (record_date_width l) c))"
    by (simp add: template_def blank_record_def render_response_eq [OF vp pos])
  then show ?thesis by (rule that [rotated]) (simp add: padded_values_def list_all_iff)
qed

text \<open>Two renderings of one layout have the same segment lengths and the same revealed segments.\<close>

lemma segments_agree:
  assumes "valid_layout l" "padded_values l a p vs e v d" "padded_values l a' p' vs' e' v' d'"
  shows "map length (response_segments l a p vs e v d)
      = map length (response_segments l a' p' vs' e' v' d')"
    and "i \<in> set revealed_segments \<Longrightarrow>
      response_segments l a p vs e v d ! i = response_segments l a' p' vs' e' v' d' ! i"
  using assms(2,3) padded_join_slots [OF assms(1,2)] padded_join_slots [OF assms(1,3)]
  by (auto simp: response_segments_def Let_def head_segments_def body_segments_def
      padded_values_def revealed_segments_def)

lemma rendering_ranges_cong:
  assumes "valid_layout l" "padded_values l a p vs e v d" "padded_values l a' p' vs' e' v' d'"
  shows "rendered_ranges (rendering l a p vs e v d)
       = rendered_ranges (rendering l a' p' vs' e' v' d')"
  using offsets_cong [OF segments_agree(1) [OF assms], of 0]
    length_concat_cong [OF segments_agree(1) [OF assms]]
  by (simp add: rendering_def Let_def)

lemma revealed_rendering:
  "revealed (rendered_ranges (rendering l a p vs e v d))
   = map (\<lambda>i. offsets 0 (response_segments l a p vs e v d) ! i) revealed_segments"
  by (simp add: revealed_def rendering_def revealed_segments_def Let_def)

lemma hidden_rendering:
  "hidden (rendered_ranges (rendering l a p vs e v d))
   = map (\<lambda>i. offsets 0 (response_segments l a p vs e v d) ! i) hidden_segments"
  by (simp add: hidden_def rendering_def hidden_segments_def Let_def)

lemma rendering_len: "response_len (rendered_ranges (rendering l a p vs e v d))
    = length (concat (response_segments l a p vs e v d))"
  by (simp add: rendering_def Let_def)

lemma rendering_bytes:
  "rendered_bytes (rendering l a p vs e v d) = concat (response_segments l a p vs e v d)"
  by (simp add: rendering_def Let_def)

subsection \<open>The title layout as a source\<close>

text \<open>The values of one rendering: the account and the record.\<close>

definition title_response :: "layout \<Rightarrow> bytes \<times> title_record \<Rightarrow> bytes res" where
  "title_response l v = and_then (render_response l (fst v) (snd v)) (\<lambda>x. Inr (rendered_bytes x))"

definition title_fits :: "layout \<Rightarrow> bytes list \<Rightarrow> bool" where
  "title_fits l ss \<longleftrightarrow> (\<exists>a p vs e v d. padded_values l a p vs e v d \<and>
     ss = response_segments l a p vs e v d)"

lemma title_fits_length: "title_fits l ss \<Longrightarrow> length ss = 40"
  by (auto simp: title_fits_def)

interpretation title: segmented_source valid_layout title_response shape title_fits
  "\<lambda>_. revealed_segments" "\<lambda>_. hidden_segments"
proof
  fix l v b
  assume l: "valid_layout l" and "title_response l v = Inr b"
  then obtain x where "render_response l (fst v) (snd v) = Inr x" and b: "b = rendered_bytes x"
    by (auto simp: title_response_def and_then_Inr_iff)
  from render_response_Inr [OF l this(1)] b show "\<exists>ss. title_fits l ss \<and> b = concat ss"
    by (metis rendering_bytes title_fits_def)
next
  fix l subject
  assume "valid_layout l"
  then obtain a p vs e v d where "padded_values l a p vs e v d"
    and "template l = Inr (rendering l a p vs e v d)" using template_rendering by blast
  then show "\<exists>ss s. title_fits l ss \<and> shape l subject = Inr s \<and>
      shape_template s = concat ss \<and> shape_len s = length (concat ss) \<and>
      shape_revealed s = map (\<lambda>i. offsets 0 ss ! i) revealed_segments \<and>
      shape_hidden s = map (\<lambda>i. offsets 0 ss ! i) hidden_segments"
    by (intro exI [of _ "response_segments l a p vs e v d"])
      (simp add: title_fits_def shape_def revealed_rendering hidden_rendering rendering_bytes
        rendering_len, blast)
next
  fix l ss ts
  assume "valid_layout l" "title_fits l ss" "title_fits l ts"
  then show "map length ss = map length ts"
    unfolding title_fits_def using segments_agree(1) by metis
next
  fix l ss ts i
  assume "valid_layout l" "title_fits l ss" "title_fits l ts" "i \<in> set revealed_segments"
  then show "ss ! i = ts ! i"
    unfolding title_fits_def using segments_agree(2) by metis
next
  fix l ss i
  assume "valid_layout l" "title_fits l ss" "i \<in> set revealed_segments \<union> set hidden_segments"
  then show "i < length ss"
    using title_fits_length by (auto simp: revealed_segments_def hidden_segments_def)
next
  show "set revealed_segments \<inter> set hidden_segments = {}"
    by (simp add: revealed_segments_def hidden_segments_def)
next
  show "distinct hidden_segments" by (simp add: hidden_segments_def)
next
  fix l ss i
  assume l: "valid_layout l" and "title_fits l ss" and i: "i \<in> set hidden_segments"
  then obtain a p vs e v d where pad: "padded_values l a p vs e v d"
    and "ss = response_segments l a p vs e v d" by (auto simp: title_fits_def)
  moreover have "a \<noteq> []" "p \<noteq> []" using l pad by (auto simp: padded_values_def valid_layout_def)
  moreover have "join_slots vs \<noteq> []" using padded_join_slots [OF l pad] l
    by (auto simp: valid_layout_def)
  ultimately show "ss ! i \<noteq> []"
    using i by (auto simp: hidden_segments_def response_segments_def head_segments_def
        body_segments_def Let_def)
qed

text \<open>Where the hidden values stand.\<close>

lemma rendering_holds:
  "i < 40 \<Longrightarrow> holds (rendered_bytes (rendering l a p vs e v d))
     (offsets 0 (response_segments l a p vs e v d) ! i) (response_segments l a p vs e v d ! i)"
  by (simp add: rendering_bytes holds_concat)

lemma rendering_hidden_values:
  assumes "x = rendering l a p vs e v d"
  shows "holds (rendered_bytes x) (account_range (rendered_ranges x)) a"
    and "holds (rendered_bytes x) (property_id_range (rendered_ranges x)) p"
    and "holds (rendered_bytes x) (owners_range (rendered_ranges x)) (join_slots vs)"
  using rendering_holds [of 9 l a p vs e v d] rendering_holds [of 16 l a p vs e v d]
    rendering_holds [of 22 l a p vs e v d] assms
  by (simp_all add: rendering_def Let_def response_segments_def head_segments_def
      body_segments_def)

lemma join_slots_holds:
  "i < length vs \<Longrightarrow> (\<And>v. v \<in> set vs \<Longrightarrow> length v = w) \<Longrightarrow>
   holds (join_slots vs) (Range (i * (w + 3)) (i * (w + 3) + w)) (vs ! i)"
proof (induction vs arbitrary: i rule: join_slots.induct)
  case 1
  then show ?case by simp
next
  case (2 v)
  then show ?case using holdsI [of "[]" v "[]"] by simp
next
  case (3 v u vs)
  show ?case
  proof (cases i)
    case 0
    with 3 holdsI [of "[]" v "[dquote, CHR '','', dquote] @ join_slots (u # vs)"] show ?thesis
      by simp
  next
    case (Suc j)
    have "holds (join_slots (u # vs)) (Range (j * (w + 3)) (j * (w + 3) + w)) ((u # vs) ! j)"
      using 3 Suc by simp
    from holds_shift [OF this, of "v @ [dquote, CHR '','', dquote]"] 3 Suc show ?thesis
      by (simp add: algebra_simps eval_nat_numeral)
  qed
qed

lemma slot_values_nth:
  "slot_values l os = Inr vs \<Longrightarrow> i < owner_slots l \<Longrightarrow>
   pad l (owner_at os i) (account_width l) = Inr (vs ! i)"
  unfolding slot_values_def by (drule collect_res_nth [where i = i]) simp_all

text \<open>The value fits its field: it can be padded to the width.\<close>

definition fits_field :: "bytes \<Rightarrow> nat \<Rightarrow> bool" where
  "fits_field v w \<longleftrightarrow> plain_value v \<and> length v \<le> w"

lemma is_ok_pad: "valid_padding l \<Longrightarrow> is_ok (pad l v w) \<longleftrightarrow> fits_field v w"
  by (auto dest!: valid_padding_char simp: is_ok_iff pad_Inr_iff fits_field_def)

lemma is_ok_and_then: "is_ok (and_then r f) \<longleftrightarrow> (\<exists>x. r = Inr x \<and> is_ok (f x))"
  by (cases r) simp_all

lemma is_ok_collect_res: "is_ok (collect_res f xs) \<longleftrightarrow> (\<forall>x \<in> set xs. is_ok (f x))"
proof (induction xs)
  case (Cons x xs)
  then show ?case by (cases "f x"; cases "collect_res f xs") auto
qed simp

lemma is_ok_slot_values:
  assumes "valid_padding l" and "length os \<le> owner_slots l"
  shows "is_ok (slot_values l os) \<longleftrightarrow> (\<forall>v \<in> set os. fits_field v (account_width l))"
proof -
  have "fits_field [] (account_width l)" by (simp add: fits_field_def plain_value_def)
  then have "(\<forall>i \<in> {0..<owner_slots l}. fits_field (owner_at os i) (account_width l))
      \<longleftrightarrow> (\<forall>v \<in> set os. fits_field v (account_width l))"
    using assms(2) unfolding all_set_conv_all_nth by (auto simp: owner_at_def)
  then show ?thesis by (simp add: slot_values_def is_ok_collect_res is_ok_pad [OF assms(1)])
qed

subsection \<open>Properties of the title response\<close>

text \<open>The layout of \<open>policies/layouts/title-v1.json\<close> and a record, for the concrete instances.\<close>

definition title_v1 :: layout where
  "title_v1 =
     \<lparr>layout_id = ''title-v1'', server_name = ''registry.pprev.test'', path_prefix = ''/title/'',
      status_line = ''HTTP/1.1 200 OK'', content_type = ''application/json'', padding = '' '',
      account_width = 16, property_id_width = 20, owner_slots = 4, encumbrance_width = 1,
      assessed_value_width = 15, record_date_width = 10\<rparr>"

definition sample_record :: title_record where
  "sample_record =
     \<lparr>property_id = ''TR-06-CANKAYA-000123'', owners = [''ACC-000000000001'', ''ACC-000000000002''],
      encumbrance = ''N'', assessed_value = ''000000012500000'', record_date = ''2026-09-24''\<rparr>"

lemma valid_title_v1: "validate_layout title_v1 = Inr ()"
  by (simp add: validate_layout_iff valid_layout_def valid_padding_def title_v1_def byte_defs)

lemma render_response_ok_iff_raw:
  assumes "valid_layout l"
  shows "is_ok (render_response l acc r) \<longleftrightarrow>
     length (owners r) \<le> owner_slots l \<and> fits_field acc (account_width l) \<and>
     fits_field (property_id r) (property_id_width l) \<and>
     (\<forall>v \<in> set (owners r). fits_field v (account_width l)) \<and>
     fits_field (encumbrance r) (encumbrance_width l) \<and>
     fits_field (assessed_value r) (assessed_value_width l) \<and>
     fits_field (record_date r) (record_date_width l)"
proof -
  from assms have vp: "valid_padding l" and pos: "0 < owner_slots l" by (auto simp: valid_layout_def)
  have ens: "is_ok (ensure b m x) \<longleftrightarrow> b \<and> is_ok x" for b m and x :: "rendered res"
    by (simp add: ensure_def)
  show ?thesis
    unfolding render_response_eq [OF vp pos] ens is_ok_and_then
    using is_ok_slot_values [OF vp, of "owners r"] is_ok_pad [OF vp]
    by (simp add: is_ok_iff [symmetric] cong: conj_cong)
qed

lemma sample_render_ok:
  "\<exists>x. render_response title_v1 ''ACC-000000000001'' sample_record = Inr x"
  using render_response_ok_iff_raw [of title_v1] valid_title_v1
  by (simp add: is_ok_iff [symmetric] validate_layout_iff)
    (simp add: title_v1_def sample_record_def fits_field_def plain_value_def byte_defs)

text \<open>Under a layout that passes \<open>validate\<close>, \<open>render_response\<close> renders a record exactly when the
  record has no more owners than slots and every value is printable ASCII without quote or backslash
  and no longer than its field; the template (the empty record) therefore always renders.\<close>

theorem render_response_ok_iff:
  assumes "validate_layout l = Inr ()"
  shows "(is_ok (render_response l acc r) \<longleftrightarrow>
     length (owners r) \<le> owner_slots l \<and> fits_field acc (account_width l) \<and>
     fits_field (property_id r) (property_id_width l) \<and>
     (\<forall>v \<in> set (owners r). fits_field v (account_width l)) \<and>
     fits_field (encumbrance r) (encumbrance_width l) \<and>
     fits_field (assessed_value r) (assessed_value_width l) \<and>
     fits_field (record_date r) (record_date_width l)) \<and> is_ok (template l)"
proof -
  from assms have l: "valid_layout l" by (simp add: validate_layout_iff)
  have "is_ok (template l)" using template_rendering [OF l] by (metis is_ok_simps(1))
  then show ?thesis using render_response_ok_iff_raw [OF l] by blast
qed

theorem render_response_ok_iff_witness:
  "is_ok (render_response title_v1 ''ACC-000000000001'' sample_record) \<and>
   \<not> is_ok (render_response title_v1 [CHR 0x22] sample_record)"
  unfolding render_response_ok_iff [OF valid_title_v1, THEN conjunct1]
  by (simp add: title_v1_def sample_record_def fits_field_def plain_value_def byte_defs)

text \<open>C21: The response has the same byte ranges for every account and record as for the empty record,
  and the revealed bytes (status line, Content-Type line, JSON keys) are those of the template.\<close>

theorem render_response_fixed_ranges:
  assumes "validate_layout l = Inr ()" and "render_response l acc r = Inr x"
  shows "layout_ranges l = Inr (rendered_ranges x) \<and>
    (\<forall>t. template l = Inr t \<longrightarrow>
      (\<forall>q \<in> set (revealed (rendered_ranges x)).
         holds (rendered_bytes x) q (slice (rendered_bytes t) q))) \<and>
    length (rendered_bytes x) = response_len (rendered_ranges x)"
proof -
  from assms have l: "valid_layout l" by (simp add: validate_layout_iff)
  obtain a p vs e v d where pad: "padded_values l a p vs e v d"
    and x: "x = rendering l a p vs e v d" using render_response_Inr [OF l assms(2)] by metis
  obtain a' p' vs' e' v' d' where pad': "padded_values l a' p' vs' e' v' d'"
    and t: "template l = Inr (rendering l a' p' vs' e' v' d')" using template_rendering [OF l] by metis
  obtain s where s: "shape l [] = Inr s" using title.shape_total [OF l] by blast
  then have rev: "shape_revealed s = revealed (rendered_ranges x)"
    and tpl: "\<And>y. template l = Inr y \<Longrightarrow> shape_template s = rendered_bytes y"
    using t rendering_ranges_cong [OF l pad pad'] x by (auto simp: shape_def)
  have "title_response l (acc, r) = Inr (rendered_bytes x)"
    using assms(2) by (simp add: title_response_def)
  note title.shape_revealed_bytes [OF l s this]
  then show ?thesis
    using t rendering_ranges_cong [OF l pad pad'] x rev tpl
      length_concat_cong [OF segments_agree(1) [OF l pad pad']]
    by (simp add: layout_ranges_def rendering_len rendering_bytes)
qed

theorem render_response_fixed_ranges_witness:
  "\<exists>x. render_response title_v1 ''ACC-000000000001'' sample_record = Inr x \<and>
    layout_ranges title_v1 = Inr (rendered_ranges x)"
  using sample_render_ok render_response_fixed_ranges [OF valid_title_v1] by blast

text \<open>The hidden ranges of a response hold the padded values: the account, the property
  identifier and, at the slot offsets inside the owners range, every owner (blank where the record
  has none). Neighbouring slots are \<open>accountWidth + 3\<close> bytes apart.\<close>

theorem render_response_hidden_values:
  assumes "validate_layout l = Inr ()" and "render_response l acc r = Inr x"
  shows "\<exists>a p. pad l acc (account_width l) = Inr a \<and> 
    pad l (property_id r) (property_id_width l) = Inr p \<and>
    holds (rendered_bytes x) (account_range (rendered_ranges x)) a \<and>
    holds (rendered_bytes x) (property_id_range (rendered_ranges x)) p \<and>
    owner_slot_offsets (rendered_ranges x) =
      map (\<lambda>i. i * (account_width l + 3)) [0..<owner_slots l] \<and>
    (\<forall>i < owner_slots l. \<exists>o_pad. pad l (owner_at (owners r) i) (account_width l) = Inr o_pad \<and>
      (let start = rstart (owners_range (rendered_ranges x)) +
         owner_slot_offsets (rendered_ranges x) ! i
       in holds (rendered_bytes x) (Range start (start + account_width l)) o_pad))"
proof -
  from assms have l: "valid_layout l" by (simp add: validate_layout_iff)
  obtain a p vs e v d where a: "pad l acc (account_width l) = Inr a"
    and p: "pad l (property_id r) (property_id_width l) = Inr p"
    and vs: "slot_values l (owners r) = Inr vs" and pad: "padded_values l a p vs e v d"
    and x: "x = rendering l a p vs e v d" using render_response_Inr [OF l assms(2)] by metis
  have off: "owner_slot_offsets (rendered_ranges x) =
      map (\<lambda>i. i * (account_width l + 3)) [0..<owner_slots l]"
    by (simp add: x rendering_def Let_def stride_def)
  have "holds (rendered_bytes x) (Range (rstart (owners_range (rendered_ranges x)) + i * (account_width l + 3))
      (rstart (owners_range (rendered_ranges x)) + (i * (account_width l + 3) + account_width l))) (vs ! i)"
    if "i < owner_slots l" for i
    using that pad join_slots_holds [of i vs "account_width l"]
    by (intro holds_trans [OF rendering_hidden_values(3) [OF x]])
      (simp add: padded_values_def list_all_iff)
  then show ?thesis
    using a p off rendering_hidden_values(1,2) [OF x] slot_values_nth [OF vs]
    by (auto simp: Let_def add.assoc intro!: exI [of _ a] exI [of _ p])
qed

theorem render_response_hidden_values_witness:
  "\<exists>x a. render_response title_v1 ''ACC-000000000001'' sample_record = Inr x \<and>
    pad title_v1 ''ACC-000000000001'' 16 = Inr a \<and>
    holds (rendered_bytes x) (account_range (rendered_ranges x)) a \<and>
    owner_slot_offsets (rendered_ranges x) = [0, 19, 38, 57]"
proof -
  obtain x where x: "render_response title_v1 ''ACC-000000000001'' sample_record = Inr x"
    using sample_render_ok by blast
  note h = render_response_hidden_values [OF valid_title_v1 x]
  have "account_width title_v1 = 16" "owner_slots title_v1 = 4" by (simp_all add: title_v1_def)
  moreover have "[0..<4] = [0, 1, 2, 3::nat]" by (simp add: upt_rec)
  ultimately show ?thesis using x h by auto
qed

text \<open>The revealed and the hidden ranges of the exchange lie inside the response of the shape's
  length, and no revealed range meets a hidden one: revealing the template discloses no byte of a
  hidden value.\<close>

theorem shape_ranges_disjoint:
  assumes "validate_layout l = Inr ()" and "shape l pid = Inr s"
  shows "length (shape_template s) = shape_len s \<and>
    (\<forall>q \<in> set (shape_revealed s @ shape_hidden s). in_bounds (shape_template s) q) \<and>
    (\<forall>r \<in> set (shape_revealed s). \<forall>q \<in> set (shape_hidden s). disjoint_ranges r q)"
proof -
  from assms(1) have l: "valid_layout l" by (simp add: validate_layout_iff)
  from assms(2) obtain t where t: "template l = Inr t" and "shape_template s = rendered_bytes t"
    by (auto simp: shape_def and_then_Inr_iff)
  then have b: "title_response l ([], blank_record) = Inr (shape_template s)"
    by (simp add: title_response_def template_def)
  show ?thesis
    using title.shape_length [OF l assms(2) b] title.shape_revealed_bytes [OF l assms(2) b]
      title.shape_hidden_bounds [OF l assms(2) b] title.shape_disjoint [OF l assms(2)]
    by auto
qed

theorem shape_ranges_disjoint_witness:
  "\<exists>s. shape title_v1 ''TR-06-CANKAYA-000123'' = Inr s \<and>
    length (shape_template s) = shape_len s"
proof -
  from valid_title_v1 have "valid_layout title_v1" by (simp add: validate_layout_iff)
  from title.shape_total [OF this] obtain s where
    "shape title_v1 ''TR-06-CANKAYA-000123'' = Inr s" by blast
  with shape_ranges_disjoint [OF valid_title_v1 this] show ?thesis by blast
qed

end
