(* ===== verification/Record_Layout.thy ===== *)
theory Record_Layout
  imports Layout
begin

section \<open>Single-record responses\<close>

text \<open>
  Model of \<open>pprev-types/src/record.rs\<close>: the layouts of the Apply and Settle sources (income record and
  tenancy notation), whose body is an account and a list of named fields. A record layout is a
  segmented source as well, with one segment group per field, so the contract of
  \<^theory_text>\<open>response_source\<close> holds for it too. The word of a field agrees with the word of the title's
  property identifier.
\<close>

record record_field =
  key :: bytes
  width :: nat

record record_layout = source_layout +
  record_fields :: "record_field list"

record record_ranges =
  rr_len :: nat
  rr_status_line :: range
  rr_content_type_line :: range
  rr_keys :: "range list"
  rr_account :: range
  rr_fields :: "range list"

definition record_revealed :: "record_ranges \<Rightarrow> range list" where
  "record_revealed r = [rr_status_line r, rr_content_type_line r] @ rr_keys r"

definition record_hidden :: "record_ranges \<Rightarrow> range list" where
  "record_hidden r = [rr_account r] @ rr_fields r"

record rendered_record =
  record_bytes :: bytes
  record_byte_ranges :: record_ranges

definition plain_identifier :: "bytes \<Rightarrow> bool" where
  "plain_identifier k \<longleftrightarrow> k \<noteq> [] \<and> list_all (\<lambda>b. is_ascii_alphanumeric b \<or> b = CHR ''_'') k"

definition validate_field :: "record_layout \<Rightarrow> nat \<Rightarrow> unit res" where
  "validate_field l i =
     (let f = record_fields l ! i in
      ensure (width f > 0) ''field has width 0'' (
      ensure (plain_identifier (key f)) ''field key is not a plain identifier'' (
      ensure (key f \<noteq> KEY_ACCOUNT \<and> key f \<noteq> KEY_RECORD) ''field key is reserved'' (
      ensure (list_all (\<lambda>g. key g \<noteq> key f) (take i (record_fields l))) ''field appears twice'' (
      Inr ())))))"

definition validate_record_layout :: "record_layout \<Rightarrow> unit res" where
  "validate_record_layout l =
     ensure (length (padding l) = 1 \<and> is_ascii (padding l)) ''padding must be one ASCII character'' (
     ensure (account_width l > 0) ''accountWidth must be positive'' (
     ensure (record_fields l \<noteq> []) ''a record has at least one field'' (
     for_each_res (validate_field l) [0..<length (record_fields l)])))"

definition record_layout_from_json :: "(bytes \<Rightarrow> record_layout res) \<Rightarrow> bytes \<Rightarrow> record_layout res" where
  "record_layout_from_json serde_json_from_str text =
     and_then (with_ctx ''parsing record layout'' (serde_json_from_str text)) (\<lambda>layout.
     and_then (validate_record_layout layout) (\<lambda>_. Inr layout))"

definition load_record_layout ::
    "('path \<Rightarrow> bytes res) \<Rightarrow> (bytes \<Rightarrow> record_layout res) \<Rightarrow> 'path \<Rightarrow> record_layout res" where
  "load_record_layout read_to_string serde_json_from_str file =
     and_then (with_ctx ''reading'' (read_to_string file))
       (record_layout_from_json serde_json_from_str)"

fun position :: "('a \<Rightarrow> bool) \<Rightarrow> 'a list \<Rightarrow> nat option" where
  "position p [] = None"
| "position p (x # xs) = (if p x then Some 0 else map_option Suc (position p xs))"

definition index_of :: "record_layout \<Rightarrow> bytes \<Rightarrow> nat res" where
  "index_of l k = some_or ''layout has no field'' (position (\<lambda>f. key f = k) (record_fields l))"

definition width_of :: "record_layout \<Rightarrow> bytes \<Rightarrow> nat res" where
  "width_of l k = and_then (index_of l k) (\<lambda>i.
     and_then (index_at (record_fields l) i) (\<lambda>f. Inr (width f)))"

text \<open>The loop over the fields, with the writer, the key ranges and the field ranges so far.\<close>

fun write_fields ::
    "record_layout \<Rightarrow> nat \<Rightarrow> (record_field \<times> bytes) list \<Rightarrow> bytes \<Rightarrow> range list \<Rightarrow> range list
      \<Rightarrow> (bytes \<times> range list \<times> range list) res" where
  "write_fields l i [] body keys field_rs = Inr (body, keys, field_rs)"
| "write_fields l i ((f, v) # fvs) body keys field_rs =
     (let body = (if i > 0 then fst (lit body '','') else body);
          (body, k) = write_key body (key f) in
      and_then (pad l v (width f)) (\<lambda>w.
      let (body, r) = write_string body w in
      write_fields l (Suc i) fvs body (keys @ [k]) (field_rs @ [r])))"

definition render_record :: "record_layout \<Rightarrow> bytes \<Rightarrow> bytes list \<Rightarrow> rendered_record res" where
  "render_record l account values =
     ensure (length values = length (record_fields l)) ''wrong number of values for the layout'' (
     let (body, _) = lit [] ''{'';
         (body, k1) = write_key body KEY_ACCOUNT in
     and_then (pad l account (account_width l)) (\<lambda>v.
     let (body, account_r) = write_string body v;
         (body, _) = lit body '','';
         (body, k2) = write_key body KEY_RECORD;
         (body, _) = lit body ''{'' in
     and_then (write_fields l 0 (zip (record_fields l) values) body [k1, k2] [])
       (\<lambda>(body, keys, field_rs).
     let (body, _) = lit body ''}}'';
         (head, status_line_r) = lit [] (status_line l);
         (head, _) = lit head crlf;
         (head, content_type_line) = lit head (''Content-Type: '' @ content_type l);
         (head, _) = lit head crlf;
         (head, _) = lit head (''Content-Length: '' @ dec (length body) @ crlf);
         (head, _) = lit head (''Connection: close'' @ crlf @ crlf);
         sh = length head in
     Inr \<lparr>record_bytes = head @ body,
          record_byte_ranges =
            \<lparr>rr_len = length head + length body,
             rr_status_line = status_line_r,
             rr_content_type_line = content_type_line,
             rr_keys = map (shift sh) keys,
             rr_account = shift sh account_r,
             rr_fields = map (shift sh) field_rs\<rparr>\<rparr>)))"

definition record_template :: "record_layout \<Rightarrow> rendered_record res" where
  "record_template l = render_record l [] (replicate (length (record_fields l)) [])"

definition record_layout_ranges :: "record_layout \<Rightarrow> record_ranges res" where
  "record_layout_ranges l = and_then (record_template l) (\<lambda>t. Inr (record_byte_ranges t))"

definition record_shape :: "record_layout \<Rightarrow> bytes \<Rightarrow> response_shape res" where
  "record_shape l subject =
     and_then (record_template l) (\<lambda>t.
     Inr \<lparr>shape_server_name = server_name l,
          shape_path = path l subject,
          shape_request_line = request_line l subject,
          shape_template = record_bytes t,
          shape_len = rr_len (record_byte_ranges t),
          shape_revealed = record_revealed (record_byte_ranges t),
          shape_hidden = record_hidden (record_byte_ranges t)\<rparr>)"

definition field_word :: "record_layout \<Rightarrow> bytes \<Rightarrow> bytes \<Rightarrow> bytes res" where
  "field_word l k value =
     and_then (width_of l k) (\<lambda>w.
     ensure (w \<le> 32) ''field is wider than 32 bytes'' (
     and_then (pad l value w) (\<lambda>v.
     if length v \<le> 32 then Inr (v @ replicate (32 - length v) (CHR 0x00))
     else Inl (Panic ''range out of bounds of slice''))))"

subsection \<open>The response as a list of segments\<close>

text \<open>Five segments per field: separator and key, quote, value, quote.\<close>

definition field_segments :: "nat \<Rightarrow> bytes \<Rightarrow> bytes \<Rightarrow> bytes list" where
  "field_segments i k v =
     [if i > 0 then '','' else [], key_segment k, [dquote], v, [dquote]]"

fun fields_segments :: "nat \<Rightarrow> (bytes \<times> bytes) list \<Rightarrow> bytes list" where
  "fields_segments i [] = []"
| "fields_segments i ((k, v) # kvs) = field_segments i k v @ fields_segments (Suc i) kvs"

definition record_segments :: "record_layout \<Rightarrow> bytes \<Rightarrow> bytes list \<Rightarrow> bytes list" where
  "record_segments l acc vs =
     (let body = [''{'', key_segment KEY_ACCOUNT, [dquote], acc, [dquote], '','',
                  key_segment KEY_RECORD, ''{'']
                 @ fields_segments 0 (zip (map key (record_fields l)) vs) @ [''}}'']
      in head_segments l (length (concat body)) @ body)"

definition record_revealed_segments :: "record_layout \<Rightarrow> nat list" where
  "record_revealed_segments l = [0, 2, 7, 12] @ map (\<lambda>i. 15 + 5 * i) [0..<length (record_fields l)]"

definition record_hidden_segments :: "record_layout \<Rightarrow> nat list" where
  "record_hidden_segments l = [9] @ map (\<lambda>i. 17 + 5 * i) [0..<length (record_fields l)]"

definition field_values :: "record_layout \<Rightarrow> (record_field \<times> bytes) list \<Rightarrow> bytes list res" where
  "field_values l fvs = collect_res (\<lambda>(f, v). pad l v (width f)) fvs"

lemma length_fields_segments [simp]: "length (fields_segments i kvs) = 5 * length kvs"
  by (induction i kvs rule: fields_segments.induct) (simp_all add: field_segments_def)

lemma fields_segments_nth:
  "j < length kvs \<Longrightarrow> m < 5 \<Longrightarrow>
   fields_segments i kvs ! (5 * j + m) = field_segments (i + j) (fst (kvs ! j)) (snd (kvs ! j)) ! m"
proof (induction i kvs arbitrary: j rule: fields_segments.induct)
  case (1 i)
  then show ?case by simp
next
  case (2 i k v kvs)
  have len: "length (field_segments i k v) = 5" by (simp add: field_segments_def)
  show ?case
  proof (cases j)
    case 0
    with 2 len show ?thesis by (simp add: nth_append)
  next
    case (Suc n)
    with 2 len show ?thesis by (simp add: nth_append)
  qed
qed

text \<open>The loop appends the field segments and reports the positions of keys and values.\<close>

lemma write_fields_eq:
  "write_fields l i fvs body keys field_rs =
   and_then (field_values l fvs) (\<lambda>vs.
     let ss = fields_segments i (zip (map (key \<circ> fst) fvs) vs);
         at = (\<lambda>m j. offsets (length body) ss ! (5 * j + m))
     in Inr (body @ concat ss, keys @ map (at 1) [0..<length fvs], field_rs @ map (at 3) [0..<length fvs]))"
proof (induction fvs arbitrary: i body keys field_rs)
  case Nil
  then show ?case by (simp add: field_values_def)
next
  case (Cons fv fvs)
  obtain f v where fv: "fv = (f, v)" by (cases fv)
  show ?case
  proof (cases "pad l v (width f)")
    case (Inl e)
    then show ?thesis by (simp add: fv field_values_def write_key_eq Let_def split: prod.splits)
  next
    case (Inr w)
    have sep: "(if i > 0 then fst (lit body '','') else body) = body @ (if i > 0 then '','' else [])"
      by (simp add: lit_def)
    have idx: "[0..<Suc n] = 0 # map Suc [0..<n]" for n
      by (simp add: upt_conv_Cons map_Suc_upt del: upt_Suc)
    show ?thesis
      by (cases "field_values l fvs")
        (simp_all add: fv Inr sep write_key_eq write_string_eq Cons.IH field_values_def Let_def
          field_segments_def idx add.assoc eval_nat_numeral del: upt_Suc)
  qed
qed

definition record_rendering :: "record_layout \<Rightarrow> bytes \<Rightarrow> bytes list \<Rightarrow> rendered_record" where
  "record_rendering l acc vs =
     (let segs = record_segments l acc vs;
          at = (\<lambda>i. offsets 0 segs ! i);
          n = length (record_fields l)
      in \<lparr>record_bytes = concat segs,
          record_byte_ranges =
            \<lparr>rr_len = length (concat segs),
             rr_status_line = at 0, rr_content_type_line = at 2,
             rr_keys = [at 7, at 12] @ map (\<lambda>i. at (15 + 5 * i)) [0..<n],
             rr_account = at 9,
             rr_fields = map (\<lambda>i. at (17 + 5 * i)) [0..<n]\<rparr>\<rparr>)"

lemma field_values_length:
  "field_values l fvs = Inr vs \<Longrightarrow> length vs = length fvs"
  by (auto simp: field_values_def dest: collect_res_length)

lemma render_record_eq:
  "render_record l acc values =
    ensure (length values = length (record_fields l)) ''wrong number of values for the layout'' (
    and_then (pad l acc (account_width l)) (\<lambda>a.
    and_then (field_values l (zip (record_fields l) values)) (\<lambda>vs.
    Inr (record_rendering l a vs))))"
proof (cases "length values = length (record_fields l)")
  case False
  then show ?thesis by (simp add: render_record_def)
next
  case True
  have keys: "map (key \<circ> fst) (zip (record_fields l) values) = map key (record_fields l)"
    using True by (metis length_map map_fst_zip map_map)
  { fix a vs
    assume vs: "field_values l (zip (record_fields l) values) = Inr vs"
    let ?n = "length (record_fields l)"
    let ?ss = "fields_segments 0 (zip (map key (record_fields l)) vs)"
    let ?pre = "[''{'', key_segment KEY_ACCOUNT, [dquote], a, [dquote], '','', key_segment KEY_RECORD, ''{'']"
    let ?head = "head_segments l (length (concat (?pre @ ?ss @ [''}}''])))"
    have n: "length vs = ?n" using field_values_length [OF vs] True by simp
    have nth: "shift (length (concat ?head)) (offsets (length (concat ?pre)) ?ss ! (5 * j + m)) =
        offsets 0 (record_segments l a vs) ! (14 + (5 * j + m))" if "j < ?n" "m < 5" for j m
    proof -
      have "14 = length (?head @ ?pre)" by (simp add: head_segments_def)
      then show ?thesis
        using that n offsets_nth_append [of 0 "?head @ ?pre" ?ss "[''}}'']" "5 * j + m"]
        by (simp add: record_segments_def Let_def offsets_shift_nth add.commute del: concat.simps)
    qed
    have "\<forall>j \<in> {0..<?n}. shift (length (concat ?head)) (offsets (length (concat ?pre)) ?ss ! (5 * j + 1))
        = offsets 0 (record_segments l a vs) ! (15 + 5 * j)"
      and "\<forall>j \<in> {0..<?n}. shift (length (concat ?head)) (offsets (length (concat ?pre)) ?ss ! (5 * j + 3))
        = offsets 0 (record_segments l a vs) ! (17 + 5 * j)"
      using nth [of _ 1] nth [of _ 3] by (simp_all add: add.assoc [symmetric] del: concat.simps) }
  note nth = this
  show ?thesis
    unfolding render_record_def Let_def and_then_assoc write_fields_eq
      write_key_eq write_string_eq lit_def prod.case and_then_simps fst_conv keys
    apply (intro arg_cong [where f = "ensure _ _"] and_then_cong refl)
    subgoal premises prems for a vs
      using nth [OF prems(2), of a] True
      by (simp add: record_rendering_def Let_def record_segments_def head_segments_def)
    done
qed

subsection \<open>The record layout as a source\<close>

definition valid_record_layout :: "record_layout \<Rightarrow> bool" where
  "valid_record_layout l \<longleftrightarrow> validate_record_layout l = Inr ()"

definition record_response :: "record_layout \<Rightarrow> bytes \<times> bytes list \<Rightarrow> bytes res" where
  "record_response l v = and_then (render_record l (fst v) (snd v)) (\<lambda>x. Inr (record_bytes x))"

definition padded_fields :: "record_layout \<Rightarrow> bytes \<Rightarrow> bytes list \<Rightarrow> bool" where
  "padded_fields l a vs \<longleftrightarrow> length a = account_width l \<and>
     map length vs = map width (record_fields l)"

definition record_fits :: "record_layout \<Rightarrow> bytes list \<Rightarrow> bool" where
  "record_fits l ss \<longleftrightarrow> (\<exists>a vs. padded_fields l a vs \<and> ss = record_segments l a vs)"

lemma validate_record_iff:
  "validate_record_layout l = Inr () \<longleftrightarrow>
    valid_padding l \<and> 0 < account_width l \<and> record_fields l \<noteq> [] \<and>
    (\<forall>i < length (record_fields l). let f = record_fields l ! i in
       0 < width f \<and> plain_identifier (key f) \<and> key f \<noteq> KEY_ACCOUNT \<and> key f \<noteq> KEY_RECORD \<and>
       (\<forall>j < i. key (record_fields l ! j) \<noteq> key f))"
  by (auto simp: validate_record_layout_def validate_field_def valid_padding_def Let_def
      ensure_Inr_iff list_all_length)

lemma valid_record_padding: "valid_record_layout l \<Longrightarrow> valid_padding l"
  by (simp add: valid_record_layout_def validate_record_iff)

lemma padded_fields_length: "padded_fields l a vs \<Longrightarrow> length vs = length (record_fields l)"
  unfolding padded_fields_def by (metis length_map)

lemma length_record_segments:
  "padded_fields l a vs \<Longrightarrow> length (record_segments l a vs) = 15 + 5 * length (record_fields l)"
  by (frule padded_fields_length) (simp add: record_segments_def head_segments_def Let_def)

lemma record_segments_nth:
  assumes "padded_fields l a vs" and j: "j < length (record_fields l)" and m: "m < 5"
  shows "record_segments l a vs ! (14 + (5 * j + m))
    = field_segments j (key (record_fields l ! j)) (vs ! j) ! m"
proof -
  let ?ss = "fields_segments 0 (zip (map key (record_fields l)) vs)"
  have n: "length vs = length (record_fields l)" using padded_fields_length [OF assms(1)] .
  have "record_segments l a vs ! (14 + (5 * j + m)) = ?ss ! (5 * j + m)"
    using n j m by (simp add: record_segments_def head_segments_def Let_def nth_append)
  also have "\<dots> = field_segments j (key (record_fields l ! j)) (vs ! j) ! m"
    using fields_segments_nth [of j "zip (map key (record_fields l)) vs" m 0] n j m by simp
  finally show ?thesis .
qed

lemma fields_segments_lengths:
  "map length vs = map length us \<Longrightarrow>
   map length (fields_segments i (zip ks vs)) = map length (fields_segments i (zip ks us))"
proof (induction vs arbitrary: i ks us)
  case (Cons v vs)
  then obtain u us' where "us = u # us'" "length v = length u" by (cases us) auto
  with Cons show ?case by (cases ks) (auto simp: field_segments_def)
qed simp

lemma record_segments_agree:
  assumes "padded_fields l a vs" and "padded_fields l b us"
  shows "map length (record_segments l a vs) = map length (record_segments l b us)"
    and "i \<in> set (record_revealed_segments l) \<Longrightarrow>
      record_segments l a vs ! i = record_segments l b us ! i"
proof -
  have lens: "map length (fields_segments 0 (zip ks vs)) = map length (fields_segments 0 (zip ks us))"
    for ks using assms by (simp add: fields_segments_lengths padded_fields_def)
  show eq: "map length (record_segments l a vs) = map length (record_segments l b us)"
    using assms lens length_concat_cong [OF lens]
    by (simp add: record_segments_def head_segments_def Let_def padded_fields_def)
  assume "i \<in> set (record_revealed_segments l)"
  then consider "i \<in> {0, 2, 7, 12}" | j where "i = 14 + (5 * j + 1)" "j < length (record_fields l)"
    by (auto simp: record_revealed_segments_def)
  then show "record_segments l a vs ! i = record_segments l b us ! i"
  proof cases
    case 1
    then show ?thesis by (auto simp: record_segments_def head_segments_def Let_def)
  next
    case 2
    then show ?thesis
      by (simp only: record_segments_nth [OF assms(1)] record_segments_nth [OF assms(2)])
        (simp add: field_segments_def)
  qed
qed

lemma render_record_Inr:
  assumes "valid_record_layout l" and "render_record l acc values = Inr x"
  obtains a vs where "pad l acc (account_width l) = Inr a"
    "field_values l (zip (record_fields l) values) = Inr vs" "padded_fields l a vs"
    "length values = length (record_fields l)" "x = record_rendering l a vs"
proof -
  from assms(2) obtain a vs where a: "pad l acc (account_width l) = Inr a"
    and vs: "field_values l (zip (record_fields l) values) = Inr vs"
    and n: "length values = length (record_fields l)" and x: "x = record_rendering l a vs"
    unfolding render_record_eq ensure_Inr_iff and_then_Inr_iff by blast
  have "map length vs = map width (record_fields l)"
  proof (rule nth_equalityI)
    show "length (map length vs) = length (map width (record_fields l))"
      using field_values_length [OF vs] n by simp
    fix i
    assume i: "i < length (map length vs)"
    then have "i < length (zip (record_fields l) values)" using field_values_length [OF vs] by simp
    from collect_res_nth [OF vs [unfolded field_values_def] this] i
    show "map length vs ! i = map width (record_fields l) ! i"
      using n field_values_length [OF vs] pad_length [OF valid_record_padding [OF assms(1)]]
      by (simp split: prod.splits)
  qed
  then have "padded_fields l a vs"
    using pad_length [OF valid_record_padding [OF assms(1)] a] by (simp add: padded_fields_def)
  with that a vs n x show ?thesis by blast
qed

lemma record_template_rendering:
  assumes "valid_record_layout l"
  obtains a vs where "padded_fields l a vs" "record_template l = Inr (record_rendering l a vs)"
proof -
  obtain c where c: "\<And>w. pad l [] w = Inr (replicate w c)"
    using valid_padding_char [OF valid_record_padding [OF assms]]
    by (auto simp: pad_Inr_iff plain_value_def intro: that)
  let ?bl = "replicate (length (record_fields l)) []"
  have zip: "zip (record_fields l) ?bl = map (\<lambda>f. (f, [])) (record_fields l)"
    by (simp add: zip_replicate2)
  have "collect_res (\<lambda>(f, v). pad l v (width f)) (map (\<lambda>f. (f, [])) fs)
      = Inr (map (\<lambda>f. replicate (width f) c) fs)" for fs :: "record_field list"
    by (induction fs) (simp_all add: c)
  then have "record_template l = Inr (record_rendering l (replicate (account_width l) c)
      (map (\<lambda>f. replicate (width f) c) (record_fields l)))"
    by (simp add: record_template_def render_record_eq c zip field_values_def)
  then show ?thesis by (rule that [rotated]) (simp add: padded_fields_def comp_def)
qed

lemma record_rendering_simps:
  "record_bytes (record_rendering l a vs) = concat (record_segments l a vs)"
  "rr_len (record_byte_ranges (record_rendering l a vs)) = length (concat (record_segments l a vs))"
  "record_revealed (record_byte_ranges (record_rendering l a vs))
     = map (\<lambda>i. offsets 0 (record_segments l a vs) ! i) (record_revealed_segments l)"
  "record_hidden (record_byte_ranges (record_rendering l a vs))
     = map (\<lambda>i. offsets 0 (record_segments l a vs) ! i) (record_hidden_segments l)"
  by (simp_all add: record_rendering_def Let_def record_revealed_def record_hidden_def
      record_revealed_segments_def record_hidden_segments_def)

lemma record_fits_length: "record_fits l ss \<Longrightarrow> length ss = 15 + 5 * length (record_fields l)"
  by (auto simp: record_fits_def length_record_segments)

interpretation rec: segmented_source valid_record_layout record_response record_shape record_fits
  record_revealed_segments record_hidden_segments
proof
  fix l v b
  assume l: "valid_record_layout l" and "record_response l v = Inr b"
  then obtain x where "render_record l (fst v) (snd v) = Inr x" and b: "b = record_bytes x"
    by (auto simp: record_response_def and_then_Inr_iff)
  from render_record_Inr [OF l this(1)] b show "\<exists>ss. record_fits l ss \<and> b = concat ss"
    by (metis record_rendering_simps(1) record_fits_def)
next
  fix l subject
  assume "valid_record_layout l"
  then obtain a vs where "padded_fields l a vs"
    and "record_template l = Inr (record_rendering l a vs)" using record_template_rendering by metis
  then show "\<exists>ss s. record_fits l ss \<and> record_shape l subject = Inr s \<and>
      shape_template s = concat ss \<and> shape_len s = length (concat ss) \<and>
      shape_revealed s = map (\<lambda>i. offsets 0 ss ! i) (record_revealed_segments l) \<and>
      shape_hidden s = map (\<lambda>i. offsets 0 ss ! i) (record_hidden_segments l)"
    by (intro exI [of _ "record_segments l a vs"])
      (simp add: record_fits_def record_shape_def record_rendering_simps, blast)
next
  fix l ss ts
  assume "record_fits l ss" "record_fits l ts"
  then show "map length ss = map length ts"
    unfolding record_fits_def using record_segments_agree(1) by metis
next
  fix l ss ts i
  assume "record_fits l ss" "record_fits l ts" "i \<in> set (record_revealed_segments l)"
  then show "ss ! i = ts ! i"
    unfolding record_fits_def using record_segments_agree(2) by metis
next
  fix l ss i
  assume "record_fits l ss" "i \<in> set (record_revealed_segments l) \<union> set (record_hidden_segments l)"
  then show "i < length ss"
    using record_fits_length by (fastforce simp: record_revealed_segments_def
        record_hidden_segments_def)
next
  fix l :: record_layout
  show "set (record_revealed_segments l) \<inter> set (record_hidden_segments l) = {}"
    by (auto simp: record_revealed_segments_def record_hidden_segments_def) presburger
next
  fix l :: record_layout
  show "distinct (record_hidden_segments l)"
    by (auto simp: record_hidden_segments_def distinct_map inj_on_def)
next
  fix l ss i
  assume l: "valid_record_layout l" and "record_fits l ss" and i: "i \<in> set (record_hidden_segments l)"
  then obtain a vs where pad: "padded_fields l a vs" and ss: "ss = record_segments l a vs"
    by (auto simp: record_fits_def)
  from i consider "i = 9" | j where "i = 14 + (5 * j + 3)" "j < length (record_fields l)"
    by (auto simp: record_hidden_segments_def)
  then show "ss ! i \<noteq> []"
  proof cases
    case 1
    have "a \<noteq> []" using l pad
      by (auto simp: valid_record_layout_def validate_record_iff padded_fields_def)
    then show ?thesis using 1 ss by (simp add: record_segments_def head_segments_def Let_def)
  next
    case 2
    have "length (vs ! j) = width (record_fields l ! j)"
      using pad 2(2) padded_fields_length [OF pad] unfolding padded_fields_def by (metis nth_map)
    moreover have "0 < width (record_fields l ! j)"
      using l 2(2) by (simp add: valid_record_layout_def validate_record_iff Let_def)
    ultimately have "vs ! j \<noteq> []" by auto
    then show ?thesis
      unfolding ss 2(1) record_segments_nth [OF pad 2(2), of 3, simplified]
      by (simp add: record_segments_nth [OF pad 2(2), of 3, simplified] field_segments_def)
  qed
qed

subsection \<open>Properties of the single-record responses\<close>

text \<open>The layouts of \<open>policies/layouts/income-v1.json\<close> and \<open>tenancy-v1.json\<close>.\<close>

definition income_v1 :: record_layout where
  "income_v1 =
     \<lparr>layout_id = ''income-v1'', server_name = ''registry.pprev.test'', path_prefix = ''/income'',
      status_line = ''HTTP/1.1 200 OK'', content_type = ''application/json'', padding = '' '',
      account_width = 16, record_fields = [\<lparr>key = ''monthlyIncome'', width = 20\<rparr>]\<rparr>"

definition tenancy_v1 :: record_layout where
  "tenancy_v1 =
     \<lparr>layout_id = ''tenancy-v1'', server_name = ''registry.pprev.test'', path_prefix = ''/tenancy/'',
      status_line = ''HTTP/1.1 200 OK'', content_type = ''application/json'', padding = '' '',
      account_width = 16,
      record_fields = [\<lparr>key = ''propertyId'', width = 20\<rparr>, \<lparr>key = ''tenant'', width = 16\<rparr>,
        \<lparr>key = ''recordDate'', width = 10\<rparr>]\<rparr>"

lemma valid_tenancy_v1: "validate_record_layout tenancy_v1 = Inr ()"
  by (simp add: validate_record_layout_def tenancy_v1_def validate_field_def Let_def upt_rec
      plain_identifier_def key_defs byte_defs)

lemma valid_income_v1: "validate_record_layout income_v1 = Inr ()"
  by (simp add: validate_record_layout_def income_v1_def validate_field_def Let_def upt_rec
      plain_identifier_def key_defs byte_defs)

lemma record_layout_ranges_eq:
  assumes l: "valid_record_layout l" and pad: "padded_fields l a vs"
  shows "record_layout_ranges l = Inr (record_byte_ranges (record_rendering l a vs))"
proof -
  obtain b us where pad': "padded_fields l b us"
    and t: "record_template l = Inr (record_rendering l b us)"
    using record_template_rendering [OF l] by metis
  have "offsets 0 (record_segments l b us) = offsets 0 (record_segments l a vs)"
    by (rule offsets_cong) (rule record_segments_agree(1) [OF pad' pad])
  moreover have "length (concat (record_segments l b us)) = length (concat (record_segments l a vs))"
    by (rule length_concat_cong) (rule record_segments_agree(1) [OF pad' pad])
  ultimately show ?thesis
    by (simp add: record_layout_ranges_def t record_rendering_def Let_def)
qed

lemma record_field_holds:
  assumes pad: "padded_fields l a vs" and j: "j < length (record_fields l)"
  shows "holds (record_bytes (record_rendering l a vs))
    (rr_fields (record_byte_ranges (record_rendering l a vs)) ! j) (vs ! j)"
proof -
  have "17 + 5 * j < length (record_segments l a vs)"
    using j by (simp add: length_record_segments [OF pad])
  from holds_concat [OF this] record_segments_nth [OF pad j, of 3] show ?thesis
    using j by (simp add: record_rendering_def Let_def field_segments_def add.assoc [symmetric])
qed

lemma record_account_holds:
  assumes "padded_fields l a vs"
  shows "holds (record_bytes (record_rendering l a vs))
    (rr_account (record_byte_ranges (record_rendering l a vs))) a"
  using holds_concat [of 9 "record_segments l a vs"] length_record_segments [OF assms]
  by (simp add: record_rendering_def Let_def)
    (simp add: record_segments_def head_segments_def Let_def)

text \<open>A rendered single record has the ranges of the layout's template, the account range holds the
  padded account and the range of every field holds that field's padded value.\<close>

theorem render_record_values:
  assumes "validate_record_layout l = Inr ()" and "render_record l acc values = Inr x"
  shows "record_layout_ranges l = Inr (record_byte_ranges x) \<and>
    length values = length (record_fields l) \<and>
    (\<exists>a. pad l acc (account_width l) = Inr a \<and>
       holds (record_bytes x) (rr_account (record_byte_ranges x)) a) \<and>
    (\<forall>j < length (record_fields l). \<exists>w. pad l (values ! j) (width (record_fields l ! j)) = Inr w \<and>
       holds (record_bytes x) (rr_fields (record_byte_ranges x) ! j) w)"
proof -
  from assms(1) have l: "valid_record_layout l" by (simp add: valid_record_layout_def)
  obtain a vs where a: "pad l acc (account_width l) = Inr a"
    and vs: "field_values l (zip (record_fields l) values) = Inr vs" and pad: "padded_fields l a vs"
    and n: "length values = length (record_fields l)" and x: "x = record_rendering l a vs"
    using render_record_Inr [OF l assms(2)] by metis
  have "pad l (values ! j) (width (record_fields l ! j)) = Inr (vs ! j)"
    if "j < length (record_fields l)" for j
    using that n collect_res_nth [OF vs [unfolded field_values_def], of j] by simp
  then show ?thesis
    using a n x record_layout_ranges_eq [OF l pad] record_account_holds [OF pad]
      record_field_holds [OF pad] by auto
qed

theorem render_record_values_witness:
  "\<exists>x. render_record tenancy_v1 ''ACC-000000000001''
      [''TR-06-CANKAYA-000123'', ''ACC-000000000003'', ''2026-10-21''] = Inr x \<and>
    record_layout_ranges tenancy_v1 = Inr (record_byte_ranges x)"
proof -
  have "is_ok (render_record tenancy_v1 ''ACC-000000000001''
      [''TR-06-CANKAYA-000123'', ''ACC-000000000003'', ''2026-10-21''])"
    by (simp add: render_record_eq tenancy_v1_def field_values_def pad_def pad_value_def
        first_char_def utf8_width_def byte_defs)
  then obtain x where x: "render_record tenancy_v1 ''ACC-000000000001''
      [''TR-06-CANKAYA-000123'', ''ACC-000000000003'', ''2026-10-21''] = Inr x"
    by (auto simp: is_ok_iff)
  with render_record_values [OF valid_tenancy_v1 x] show ?thesis by blast
qed

lemma word_of_pad:
  assumes "and_then (pad l v w) (\<lambda>u. if length u \<le> 32 then Inr (u @ replicate (32 - length u) (CHR 0x00))
     else Inl (Panic m)) = Inr x" and "valid_padding l"
  shows "length x = 32 \<and> (\<exists>u. pad l v w = Inr u \<and> length u = w \<and> take w x = u)"
proof -
  from assms(1) obtain u where u: "pad l v w = Inr u" "length u \<le> 32"
    "x = u @ replicate (32 - length u) (CHR 0x00)"
    by (auto simp: and_then_Inr_iff split: if_splits)
  with pad_length [OF assms(2) u(1)] show ?thesis by simp
qed

text \<open>The word of a property identifier is 32 bytes: the value padded to its width, then zero bytes;
  and a record layout whose field has the same width and padding gives the same word, so the tenancy
  notation and the title response agree on \<open>txData.propertyId\<close>.\<close>

theorem property_words_agree:
  assumes "validate_layout l = Inr ()" and "padding r = padding l"
    and "width_of r k = Inr (property_id_width l)"
  shows "(\<forall>w. property_id_word l v = Inr w \<longrightarrow> length w = 32 \<and>
      (\<exists>u. pad l v (property_id_width l) = Inr u \<and> take (property_id_width l) w = u)) \<and>
    (field_word r k v = Inr w \<longleftrightarrow> property_id_word l v = Inr w)"
proof -
  have "valid_padding l" using assms(1) by (simp add: validate_layout_iff valid_layout_def)
  moreover have "pad r v n = pad l v n" for n by (simp add: pad_def assms(2))
  ultimately show ?thesis
    using word_of_pad by (fastforce simp: property_id_word_def field_word_def assms(3) ensure_Inr_iff)
qed

theorem property_words_agree_witness:
  "field_word tenancy_v1 ''propertyId'' ''TR-06-X'' = property_id_word title_v1 ''TR-06-X''"
proof -
  have "width_of tenancy_v1 ''propertyId'' = Inr (property_id_width title_v1)"
    and "padding tenancy_v1 = padding title_v1"
    by (simp_all add: width_of_def index_of_def tenancy_v1_def title_v1_def index_at_def)
  from property_words_agree [OF valid_title_v1 this(2,1)]
  have "field_word tenancy_v1 ''propertyId'' ''TR-06-X'' = Inr w \<longleftrightarrow>
      property_id_word title_v1 ''TR-06-X'' = Inr w" for w by blast
  moreover have "property_id_word title_v1 ''TR-06-X'' = Inr (''TR-06-X'' @ replicate 13 CHR '' '' @
      replicate 12 (CHR 0x00))"
    by (simp add: property_id_word_def title_v1_def pad_def pad_value_def first_char_def
        utf8_width_def byte_defs eval_nat_numeral)
  ultimately show ?thesis by simp
qed

end
