(* ===== verification/Circuit_Inputs.thy ===== *)
theory Circuit_Inputs
  imports Record_Layout
begin

section \<open>Public inputs and circuit parameters\<close>

text \<open>
  Model of \<open>pprev-types/src/field.rs\<close> and \<open>circuit.rs\<close>: 32-byte values as public inputs of the three
  predicates, the public instances phi_R, phi_A and phi_S, the template parameters that
  \<open>PhiRParams::from_layout\<close> derives from a layout, and the generated main components. A \<open>BigUint\<close> is
  a natural number and a \<open>U256\<close> a 256-bit word; their decimal form is \<open>dec\<close>. The properties show that
  the public inputs determine what the policy verifier knows of an instance.
\<close>

type_synonym u256 = "256 word"

subsection \<open>Field elements\<close>

definition BN254_R :: nat where
  "BN254_R = 21888242871839275222246405745257275088548364400416034343698204186575808495617"

definition limbs :: "bytes \<Rightarrow> bytes list" where
  "limbs word = [dec (be_value (take 16 word)), dec (be_value (drop 16 word))]"

definition bind_value :: "bytes \<Rightarrow> bytes" where
  "bind_value digest = dec (be_value digest mod BN254_R)"

definition field_element :: "bytes \<Rightarrow> bytes \<Rightarrow> bytes res" where
  "field_element word name =
     ensure (be_value word < BN254_R) (name @ '' is not below the field order'')
       (Inr (dec (be_value word)))"

subsection \<open>Public instances\<close>

definition PHI_R_PUBLIC_INPUTS :: nat where "PHI_R_PUBLIC_INPUTS = 9"
definition PHI_A_PUBLIC_INPUTS :: nat where "PHI_A_PUBLIC_INPUTS = 7"
definition PHI_S_PUBLIC_INPUTS :: nat where "PHI_S_PUBLIC_INPUTS = 11"
definition PHI_A_AMOUNT_BITS :: nat where "PHI_A_AMOUNT_BITS = 96"
definition KEY_MONTHLY_INCOME :: bytes where "KEY_MONTHLY_INCOME = ''monthlyIncome''"
definition KEY_TENANT :: bytes where "KEY_TENANT = ''tenant''"

record phi_r_public =
  r_account_hash :: bytes
  r_owners_hash :: bytes
  r_property_hash :: bytes
  r_property_id :: bytes
  r_digest :: bytes

definition phi_r_inputs :: "phi_r_public \<Rightarrow> bytes list" where
  "phi_r_inputs p =
     concat (map limbs [r_account_hash p, r_owners_hash p, r_property_hash p, r_property_id p])
     @ [bind_value (r_digest p)]"

record phi_a_public =
  a_account_hash :: bytes
  a_income_hash :: bytes
  a_c_b :: bytes
  a_amount :: bytes
  a_digest :: bytes

definition phi_a_new :: "bytes \<Rightarrow> bytes \<Rightarrow> bytes \<Rightarrow> u256 \<Rightarrow> bytes \<Rightarrow> phi_a_public res" where
  "phi_a_new account_hash income_hash c_b amount digest =
     ensure (amount < push_bit PHI_A_AMOUNT_BITS 1) ''txData.amount exceeds 96 bits'' (
     and_then (field_element c_b ''c_B'') (\<lambda>c.
     Inr \<lparr>a_account_hash = account_hash, a_income_hash = income_hash, a_c_b = c,
          a_amount = dec (unat amount), a_digest = digest\<rparr>))"

definition phi_a_inputs :: "phi_a_public \<Rightarrow> bytes list" where
  "phi_a_inputs p =
     limbs (a_account_hash p) @ limbs (a_income_hash p) @ [a_c_b p] @ [a_amount p]
     @ [bind_value (a_digest p)]"

record phi_s_public =
  s_property_hash :: bytes
  s_tenant_hash :: bytes
  s_date_hash :: bytes
  s_property_id :: bytes
  s_c_b :: bytes
  s_engagement_day :: nat
  s_digest :: bytes

definition phi_s_new ::
    "bytes \<times> bytes \<times> bytes \<Rightarrow> bytes \<Rightarrow> bytes \<Rightarrow> nat \<Rightarrow> bytes \<Rightarrow> phi_s_public res" where
  "phi_s_new hashes pid c_b engaged digest =
     (let (property_hash, tenant_hash, date_hash) = hashes in
      ensure (engaged < 2 ^ 27) ''engagement day exceeds 27 bits'' (
      and_then (field_element c_b ''c_B'') (\<lambda>c.
      Inr \<lparr>s_property_hash = property_hash, s_tenant_hash = tenant_hash, s_date_hash = date_hash,
           s_property_id = pid, s_c_b = c, s_engagement_day = engaged, s_digest = digest\<rparr>)))"

definition phi_s_inputs :: "phi_s_public \<Rightarrow> bytes list" where
  "phi_s_inputs p =
     concat (map limbs [s_property_hash p, s_tenant_hash p, s_date_hash p, s_property_id p])
     @ [s_c_b p] @ [dec (s_engagement_day p)] @ [bind_value (s_digest p)]"

subsection \<open>Template parameters and main components\<close>

record phi_r_params =
  p_account_width :: nat
  p_owner_slots :: nat
  p_owner_stride :: nat
  p_owners_len :: nat
  p_property_id_width :: nat
  p_padding :: char

definition phi_r_params_from_layout :: "layout \<Rightarrow> phi_r_params res" where
  "phi_r_params_from_layout l =
     and_then (layout_ranges l) (\<lambda>ranges.
     let offs = owner_slot_offsets ranges;
         owner_stride = (if length offs > 1 then offs ! 1 - offs ! 0 else account_width l + 3) in
     ensure (list_all (\<lambda>(a, b). b - a = owner_stride) (zip offs (tl offs)))
       ''owner slots are not evenly spaced'' (
     and_then (padding_byte l) (\<lambda>c.
     Inr \<lparr>p_account_width = account_width l, p_owner_slots = owner_slots l,
          p_owner_stride = owner_stride, p_owners_len = range_len (owners_range ranges),
          p_property_id_width = property_id_width l, p_padding = c\<rparr>)))"

definition nl :: bytes where "nl = [CHR 0x0A]"

definition generated_header :: "bytes \<Rightarrow> bytes \<Rightarrow> bytes \<Rightarrow> bytes" where
  "generated_header id_text bin file =
     ''// Generated from the '' @ id_text @ '' layout by '' @ [CHR 0x60]
     @ ''cargo run -p pprev-types --bin '' @ bin @ [CHR 0x60] @ ''.'' @ nl
     @ ''// Do not edit by hand.'' @ nl @ ''pragma circom 2.2.0;'' @ nl @ nl
     @ ''include '' @ [dquote] @ file @ [dquote] @ '';'' @ nl @ nl"

definition args_text :: "nat list \<Rightarrow> bytes" where
  "args_text ns = (case ns of [] \<Rightarrow> [] | n # ms \<Rightarrow> dec n @ concat (map (\<lambda>m. '', '' @ dec m) ms))"

definition main_circom :: "layout \<Rightarrow> bytes res" where
  "main_circom l =
     and_then (phi_r_params_from_layout l) (\<lambda>p.
     Inr (generated_header (layout_id l) ''gen-circuit-main'' ''phi_r.circom''
       @ ''component main {public [accountHash, ownersHash, propertyHash, propertyId, bind]} =''
       @ nl @ ''    PhiR(''
       @ args_text [p_account_width p, p_owner_slots p, p_owner_stride p, p_owners_len p,
           p_property_id_width p, byte_val (p_padding p)]
       @ '');'' @ nl))"

definition main_circom_phi_a :: "record_layout \<Rightarrow> u64 \<Rightarrow> bytes res" where
  "main_circom_phi_a l income_multiple =
     ensure (length (record_fields l) = 1) ''phi_A reads a layout with the one field'' (
     ensure (income_multiple > 0) ''the income multiple must be positive'' (
     and_then (width_of l KEY_MONTHLY_INCOME) (\<lambda>w.
     and_then (padding_byte l) (\<lambda>c.
     Inr (generated_header (layout_id l) ''gen-phase-circuit-main'' ''phi_a.circom''
       @ ''component main {public [accountHash, incomeHash, cB, amount, bind]} ='' @ nl
       @ ''    PhiA(''
       @ args_text [account_width l, w, byte_val c, unat income_multiple, PHI_A_AMOUNT_BITS]
       @ '');'' @ nl)))))"

definition main_circom_phi_s :: "record_layout \<Rightarrow> bytes res" where
  "main_circom_phi_s l =
     (let keys = map key (record_fields l) in
      ensure (keys = [KEY_PROPERTY_ID, KEY_TENANT, KEY_RECORD_DATE])
        ''phi_S reads a layout with the fields propertyId, tenant, recordDate in that order'' (
      and_then (width_of l KEY_RECORD_DATE) (\<lambda>w.
      ensure (w = 10) ''recordDate is YYYY-MM-DD'' (
      and_then (width_of l KEY_TENANT) (\<lambda>w.
      ensure (w = account_width l) ''a tenant identifier is an account identifier'' (
      and_then (width_of l KEY_PROPERTY_ID) (\<lambda>property_width.
      and_then (width_of l KEY_TENANT) (\<lambda>tenant_width.
      and_then (padding_byte l) (\<lambda>c.
      Inr (generated_header (layout_id l) ''gen-phase-circuit-main'' ''phi_s.circom''
        @ ''component main {public [propertyHash, tenantHash, dateHash, propertyId, cB, ''
        @ ''engagementDay, bind]} ='' @ nl
        @ ''    PhiS('' @ args_text [property_width, tenant_width, byte_val c] @ '');'' @ nl))))))))))"

subsection \<open>The inputs determine the instance\<close>

definition is_word :: "bytes \<Rightarrow> bool" where "is_word w \<longleftrightarrow> length w = 32"

lemma limbs_inject: "is_word v \<Longrightarrow> is_word w \<Longrightarrow> limbs v = limbs w \<longleftrightarrow> v = w"
proof -
  assume "is_word v" "is_word w"
  then have "limbs v = limbs w \<longleftrightarrow> take 16 v = take 16 w \<and> drop 16 v = drop 16 w"
    by (simp add: limbs_def is_word_def be_value_inject)
  then show ?thesis by (metis append_take_drop_id)
qed

lemma limbs_below: "is_word v \<Longrightarrow> n \<in> set (limbs v) \<Longrightarrow> dec_value n < BN254_R"
proof -
  assume v: "is_word v" and n: "n \<in> set (limbs v)"
  have "(256::nat) ^ 16 < BN254_R" by (simp add: BN254_R_def)
  moreover have "dec_value n < 256 ^ 16"
    using n v be_value_less [of "take 16 v"] be_value_less [of "drop 16 v"]
    by (auto simp: limbs_def is_word_def)
  ultimately show ?thesis by (rule less_trans [rotated])
qed

lemma length_limbs [simp]: "length (limbs v) = 2"
  by (simp add: limbs_def)

lemma bind_below: "dec_value (bind_value d) < BN254_R"
  by (simp add: bind_value_def BN254_R_def)

lemma bind_inject:
  "bind_value d = bind_value e \<longleftrightarrow> be_value d mod BN254_R = be_value e mod BN254_R"
  by (simp add: bind_value_def)

lemma field_element_Inr_iff [simp]:
  "field_element w n = Inr v \<longleftrightarrow> be_value w < BN254_R \<and> v = dec (be_value w)"
  by (auto simp: field_element_def ensure_Inr_iff)

lemmas append_pair = append_eq_append_conv [OF disjI1]

text \<open>The nine public inputs of phi_R are canonical field elements, and they determine the attested
  commitments and \<open>txData.propertyId\<close>, and the digest of the statement modulo the field order.\<close>

theorem phi_r_inputs_binding:
  assumes "\<forall>w \<in> {r_account_hash p, r_owners_hash p, r_property_hash p, r_property_id p,
      r_account_hash q, r_owners_hash q, r_property_hash q, r_property_id q}. is_word w"
  shows "length (phi_r_inputs p) = PHI_R_PUBLIC_INPUTS \<and>
    (\<forall>n \<in> set (phi_r_inputs p). dec_value n < BN254_R) \<and>
    (phi_r_inputs p = phi_r_inputs q \<longleftrightarrow>
       r_account_hash p = r_account_hash q \<and> r_owners_hash p = r_owners_hash q \<and>
       r_property_hash p = r_property_hash q \<and> r_property_id p = r_property_id q \<and>
       be_value (r_digest p) mod BN254_R = be_value (r_digest q) mod BN254_R)"
  using assms limbs_below
  by (auto simp: phi_r_inputs_def PHI_R_PUBLIC_INPUTS_def append_pair limbs_inject bind_inject
      bind_below)

definition sample_phi_r :: "char \<Rightarrow> phi_r_public" where
  "sample_phi_r c =
     \<lparr>r_account_hash = replicate 32 c, r_owners_hash = replicate 32 (CHR 0x02),
      r_property_hash = replicate 32 (CHR 0x03), r_property_id = replicate 32 (CHR 0x04),
      r_digest = replicate 32 (CHR 0x05)\<rparr>"

theorem phi_r_inputs_binding_witness:
  "length (phi_r_inputs (sample_phi_r (CHR 0x01))) = 9 \<and>
   phi_r_inputs (sample_phi_r (CHR 0x01)) \<noteq> phi_r_inputs (sample_phi_r (CHR 0x06))"
  using phi_r_inputs_binding [of "sample_phi_r (CHR 0x01)" "sample_phi_r (CHR 0x06)"]
  by (simp add: is_word_def PHI_R_PUBLIC_INPUTS_def sample_phi_r_def)

text \<open>The instances of phi_A and phi_S that the constructors accept have bounded scalars (an amount
  below \<open>2^96\<close>, a day below \<open>2^27\<close>, a canonical c_B), and their public inputs determine every
  commitment, c_B, the amount or the day, and the digest modulo the field order.\<close>

theorem phase_inputs_binding:
  assumes words: "\<forall>w \<in> set [ah, ih, cb, ah', ih', cb', ph, th, dh, pid, ph', th', dh', pid']. is_word w"
    and a: "phi_a_new ah ih cb amount d = Inr a" and a': "phi_a_new ah' ih' cb' amount' d' = Inr a'"
    and s: "phi_s_new (ph, th, dh) pid cb day d = Inr s"
    and s': "phi_s_new (ph', th', dh') pid' cb' day' d' = Inr s'"
  shows "(phi_a_inputs a = phi_a_inputs a' \<longleftrightarrow> ah = ah' \<and> ih = ih' \<and> cb = cb' \<and> amount = amount' \<and>
      be_value d mod BN254_R = be_value d' mod BN254_R) \<and>
    (phi_s_inputs s = phi_s_inputs s' \<longleftrightarrow> ph = ph' \<and> th = th' \<and> dh = dh' \<and> pid = pid' \<and> cb = cb' \<and>
      day = day' \<and> be_value d mod BN254_R = be_value d' mod BN254_R) \<and>
    length (phi_a_inputs a) = PHI_A_PUBLIC_INPUTS \<and> length (phi_s_inputs s) = PHI_S_PUBLIC_INPUTS \<and>
    unat amount < 2 ^ 96 \<and> day < 2 ^ 27 \<and> be_value cb < BN254_R"
proof -
  have cb: "be_value cb = be_value cb' \<longleftrightarrow> cb = cb'"
    using words by (simp add: is_word_def be_value_inject)
  have "unat (push_bit 96 1 :: u256) = 2 ^ 96" by simp
  then have "unat amount < 2 ^ 96"
    using a by (auto simp: phi_a_new_def ensure_Inr_iff PHI_A_AMOUNT_BITS_def word_less_nat_alt)
  moreover have "unat amount = unat amount' \<longleftrightarrow> amount = amount'" by (simp add: word_unat_eq_iff)
  ultimately show ?thesis
    using words a a' s s'
    by (auto simp: phi_a_new_def phi_s_new_def ensure_Inr_iff and_then_Inr_iff phi_a_inputs_def
        phi_s_inputs_def append_pair limbs_inject bind_inject cb PHI_A_PUBLIC_INPUTS_def
        PHI_S_PUBLIC_INPUTS_def)
qed

theorem phase_inputs_binding_witness:
  "\<exists>a s. phi_a_new (replicate 32 (CHR 0x01)) (replicate 32 (CHR 0x02)) (replicate 32 (CHR 0x00)) 1000
      (replicate 32 (CHR 0x05)) = Inr a \<and>
    phi_s_new (replicate 32 (CHR 0x01), replicate 32 (CHR 0x02), replicate 32 (CHR 0x03))
      (replicate 32 (CHR 0x04)) (replicate 32 (CHR 0x00)) 20260925 (replicate 32 (CHR 0x05)) = Inr s \<and>
    length (phi_a_inputs a) = PHI_A_PUBLIC_INPUTS \<and> length (phi_s_inputs s) = PHI_S_PUBLIC_INPUTS"
proof -
  let ?w = "\<lambda>c. replicate 32 c :: bytes"
  have "be_value (replicate n (CHR 0x00)) = 0" for n
    by (induction n) (simp_all flip: replicate_append_same)
  then have z: "be_value (?w (CHR 0x00)) < BN254_R" by (simp add: BN254_R_def)
  have "is_ok (phi_a_new (?w (CHR 0x01)) (?w (CHR 0x02)) (?w (CHR 0x00)) 1000 (?w (CHR 0x05)))"
    using z by (simp add: phi_a_new_def field_element_def PHI_A_AMOUNT_BITS_def)
  then obtain a where a: "phi_a_new (?w (CHR 0x01)) (?w (CHR 0x02)) (?w (CHR 0x00)) 1000 (?w (CHR 0x05))
      = Inr a" by (auto simp: is_ok_iff)
  have "is_ok (phi_s_new (?w (CHR 0x01), ?w (CHR 0x02), ?w (CHR 0x03)) (?w (CHR 0x04))
      (?w (CHR 0x00)) 20260925 (?w (CHR 0x05)))"
    using z by (simp add: phi_s_new_def field_element_def)
  then obtain s where s: "phi_s_new (?w (CHR 0x01), ?w (CHR 0x02), ?w (CHR 0x03)) (?w (CHR 0x04))
      (?w (CHR 0x00)) 20260925 (?w (CHR 0x05)) = Inr s" by (auto simp: is_ok_iff)
  from phase_inputs_binding [OF _ a a s s] a s show ?thesis by (simp add: is_word_def)
qed

subsection \<open>The parameters of phi_R\<close>

lemma layout_ranges_shape:
  assumes "validate_layout l = Inr ()"
  obtains r where "layout_ranges l = Inr r"
    "owner_slot_offsets r = map (\<lambda>i. i * (account_width l + 3)) [0..<owner_slots l]"
    "range_len (owners_range r) = (owner_slots l - 1) * (account_width l + 3) + account_width l"
proof -
  have l: "valid_layout l" using assms by (simp add: validate_layout_iff)
  obtain a p vs e v d where pad: "padded_values l a p vs e v d"
    and t: "template l = Inr (rendering l a p vs e v d)" using template_rendering [OF l] by metis
  let ?r = "rendered_ranges (rendering l a p vs e v d)"
  have "range_len (owners_range ?r) = length (join_slots vs)"
    by (rule holds_length [OF rendering_hidden_values(3) [OF refl]])
  then have "range_len (owners_range ?r) = (owner_slots l - 1) * (account_width l + 3) + account_width l"
    using padded_join_slots [OF l pad] by (simp add: stride_def)
  moreover have "owner_slot_offsets ?r = map (\<lambda>i. i * (account_width l + 3)) [0..<owner_slots l]"
    by (simp add: rendering_def Let_def stride_def)
  ultimately show ?thesis using that t by (simp add: layout_ranges_def)
qed

text \<open>For every valid layout \<open>PhiRParams::from_layout\<close> succeeds: the slots are evenly spaced, the
  stride is \<open>accountWidth + 3\<close> and the owners value is as long as the circuit's parameters say.\<close>

theorem phi_r_params_of_layout:
  assumes "validate_layout l = Inr ()"
  shows "phi_r_params_from_layout l = Inr
    \<lparr>p_account_width = account_width l, p_owner_slots = owner_slots l,
     p_owner_stride = account_width l + 3,
     p_owners_len = (owner_slots l - 1) * (account_width l + 3) + account_width l,
     p_property_id_width = property_id_width l, p_padding = hd (padding l)\<rparr>"
proof -
  obtain r where r: "layout_ranges l = Inr r"
    "owner_slot_offsets r = map (\<lambda>i. i * (account_width l + 3)) [0..<owner_slots l]"
    "range_len (owners_range r) = (owner_slots l - 1) * (account_width l + 3) + account_width l"
    using layout_ranges_shape [OF assms] by metis
  have "valid_padding l" using assms by (simp add: validate_layout_iff valid_layout_def)
  then obtain c where c: "padding l = [c]" using valid_padding_char by blast
  have even: "list_all (\<lambda>(a, b). b - a = k) (zip (map (\<lambda>i. i * k) [0..<n]) (tl (map (\<lambda>i. i * k) [0..<n])))"
    for k n :: nat
    by (auto simp: list_all_length nth_tl)
  have "1 < owner_slots l \<Longrightarrow> owner_slot_offsets r ! 1 - owner_slot_offsets r ! 0 = account_width l + 3"
    by (simp add: r)
  then show ?thesis
    using even [of "account_width l + 3" "owner_slots l"]
    by (auto simp: phi_r_params_from_layout_def r Let_def padding_byte_def c index_at_def)
qed

theorem phi_r_params_of_layout_witness:
  "\<exists>p. phi_r_params_from_layout title_v1 = Inr p \<and> p_owner_stride p = 19 \<and> p_owners_len p = 73"
  using phi_r_params_of_layout [OF valid_title_v1] by (simp add: title_v1_def)

end
