(* ===== verification/Statement.thy ===== *)
theory Statement
  imports Circuit_Inputs
begin

section \<open>Phase statements\<close>

text \<open>
  Model of \<open>pprev-types/src/statement.rs\<close>: the statements x_R, x_A and x_S as EIP-712 structs, the
  domain of a deployment, the transaction commitment and the digest that the notary signs. The ABI
  encoding, keccak256 and the EIP-712 hash are those of the alloy crates and are parameters. A
  \<open>bytes32\<close> is a byte string of length 32 and an \<open>address\<close> one of length 20.
\<close>

record tx_data =
  tx_property_id :: bytes
  tx_amount :: u256
  tx_settlement_share :: u256

record register_stmt =
  reg_c_tx :: bytes
  reg_tx_data :: tx_data
  reg_policy_id :: bytes
  reg_submitter :: bytes
  reg_eta :: bytes
  reg_t_att :: u64

record apply_stmt =
  app_tx_id :: u256
  app_c_tx :: bytes
  app_tx_data :: tx_data
  app_c_b :: bytes
  app_policy_id :: bytes
  app_submitter :: bytes
  app_eta :: bytes
  app_t_att :: u64

record settle_stmt =
  set_eng_id :: u256
  set_tx_id :: u256
  set_c_tx :: bytes
  set_tx_data :: tx_data
  set_c_b :: bytes
  set_expires_at :: u256
  set_policy_id :: bytes
  set_submitter :: bytes
  set_eta :: bytes
  set_t_att :: u64

text \<open>The primary type is the domain tag of the phase.\<close>

datatype statement =
    Register_stmt register_stmt
  | Apply_stmt apply_stmt
  | Settle_stmt settle_stmt

fun statement_eta :: "statement \<Rightarrow> bytes" where
  "statement_eta (Register_stmt x) = reg_eta x"
| "statement_eta (Apply_stmt x) = app_eta x"
| "statement_eta (Settle_stmt x) = set_eta x"

record eip712_domain =
  domain_name :: bytes
  domain_version :: bytes
  domain_chain_id :: u64
  domain_contract :: bytes

definition domain_of :: "u64 \<Rightarrow> bytes \<Rightarrow> eip712_domain" where
  "domain_of chain_id verifying_contract =
     \<lparr>domain_name = ''PPREV'', domain_version = ''1'', domain_chain_id = chain_id,
      domain_contract = verifying_contract\<rparr>"

definition commitment ::
    "(bytes \<Rightarrow> bytes) \<Rightarrow> (tx_data \<times> bytes \<times> bytes \<Rightarrow> bytes) \<Rightarrow> tx_data \<Rightarrow> bytes \<Rightarrow> bytes \<Rightarrow> bytes" where
  "commitment keccak256 abi_encode tx policy_id_r r = keccak256 (abi_encode (tx, policy_id_r, r))"

definition digest ::
    "(statement \<Rightarrow> eip712_domain \<Rightarrow> bytes) \<Rightarrow> statement \<Rightarrow> eip712_domain \<Rightarrow> bytes" where
  "digest eip712_signing_hash x d = eip712_signing_hash x d"

end
