(* ===== verification/Presentation.thy ===== *)
theory Presentation
  imports Statement "HOL-Library.Multiset"
begin

section \<open>Checks on a presentation\<close>

text \<open>
  Model of \<open>pprev-notary/src/presentation.rs\<close>: what the policy verifier checks of a TLSNotary
  presentation before it takes anything from it. The tlsn library is a parameter, the record \<open>tlsn\<close>:
  a presentation's attestation key, the verification of a presentation under the trusted roots, the
  commitments of the attestation body as \<open>serde_json\<close> shows them, and the set of indices of a list of
  ranges (\<open>RangeSet\<close>). What verification returns is a record of the model. Lengths and slices are
  checked as the code does, an index outside a transcript being a panic.
\<close>

datatype direction = Sent | Received
datatype hash_alg = SHA256 | Other_alg nat
datatype server_name = Dns bytes | Other_name bytes

record 'rs committed_hash =
  ch_direction :: direction
  ch_idx :: 'rs
  ch_alg :: hash_alg
  ch_hash :: bytes

record 'rs transcript_view =
  sent_authed :: 'rs
  sent_unsafe :: bytes
  received_authed :: 'rs
  received_unsafe :: bytes

record ('att, 'rs) presentation_output =
  out_attestation :: 'att
  out_server_name :: "server_name option"
  out_connection_time :: u64
  out_received_len :: nat
  out_transcript :: "'rs transcript_view option"
  out_extensions :: "(bytes \<times> bytes) list"

record ('p, 'vk, 'att, 'rs) tlsn =
  verifying_key_of :: "'p \<Rightarrow> 'vk"
  cert_verifier_new :: "bytes list \<Rightarrow> unit res"
  verify_presentation :: "bytes list \<Rightarrow> 'p \<Rightarrow> ('att, 'rs) presentation_output res"
  body_commitments :: "'att \<Rightarrow> 'rs committed_hash option list res"
  range_set :: "range list \<Rightarrow> 'rs"

record 'vk shape_expectation =
  exp_shape :: response_shape
  exp_attestation_key :: 'vk
  exp_root_certs :: "bytes list"
  exp_max_session_secs :: u64

record attested_shape =
  as_t_att :: u64
  as_connection_time :: u64
  as_hidden_hashes :: "bytes list"

record attested =
  at_t_att :: u64
  at_connection_time :: u64
  at_account_hash :: bytes
  at_owners_hash :: bytes
  at_property_id_hash :: bytes

definition T_ATT_EXTENSION_ID :: bytes where
  "T_ATT_EXTENSION_ID = ''pprev.t_att''"

definition TLSN_CLOCK_TOLERANCE :: u64 where
  "TLSN_CLOCK_TOLERANCE = 5"

subsection \<open>Public side of phi_R\<close>

definition word32 :: "bytes \<Rightarrow> bytes res" where
  "word32 h = some_or ''commitment is not 32 bytes'' (if length h = 32 then Some h else None)"

definition phi_r_public_of :: "attested \<Rightarrow> bytes \<Rightarrow> bytes \<Rightarrow> phi_r_public res" where
  "phi_r_public_of a pid d =
     and_then (word32 (at_account_hash a)) (\<lambda>account_hash.
     and_then (word32 (at_owners_hash a)) (\<lambda>owners_hash.
     and_then (word32 (at_property_id_hash a)) (\<lambda>property_hash.
     Inr \<lparr>r_account_hash = account_hash, r_owners_hash = owners_hash,
          r_property_hash = property_hash, r_property_id = pid, r_digest = d\<rparr>)))"

subsection \<open>Commitments, time and shape\<close>

definition attested_commitments ::
    "('p, 'vk, 'att, 'rs) tlsn \<Rightarrow> 'att \<Rightarrow> 'rs committed_hash list res" where
  "attested_commitments t att =
     and_then (with_ctx ''reading transcript commitments from the attestation body''
       (body_commitments t att)) (\<lambda>cs.
     collect_res (\<lambda>c. case c of Some h \<Rightarrow> Inr h
                      | None \<Rightarrow> bail ''unsupported transcript commitment kind'') cs)"

definition t_att_of :: "('att, 'rs) presentation_output \<Rightarrow> u64 res" where
  "t_att_of output =
     (let values = filter (\<lambda>e. fst e = T_ATT_EXTENSION_ID) (out_extensions output) in
      and_then (some_or ''attestation has no t_att extension''
        (case values of [] \<Rightarrow> None | e # _ \<Rightarrow> Some e)) (\<lambda>ext.
      ensure (tl values = []) ''attestation has more than one t_att extension'' (
      and_then (some_or ''t_att extension is not 8 bytes''
        (if length (snd ext) = 8 then Some (snd ext) else None)) (\<lambda>bs.
      Inr (of_nat (be_value bs))))))"

definition saturating_sub :: "u64 \<Rightarrow> u64 \<Rightarrow> u64" where
  "saturating_sub a b = (if b \<le> a then a - b else 0)"

definition check_times :: "u64 \<Rightarrow> u64 \<Rightarrow> u64 \<Rightarrow> unit res" where
  "check_times t_att connection_time max_session_secs =
     ensure (t_att + TLSN_CLOCK_TOLERANCE \<ge> connection_time)
       ''t_att precedes the connection time by more than 5 s'' (
     let gap = saturating_sub t_att connection_time in
     ensure (gap \<le> max_session_secs) ''t_att is after the connection time, above the bound'' (
     Inr ()))"

definition expected_commitments ::
    "('p, 'vk, 'att, 'rs) tlsn \<Rightarrow> response_shape \<Rightarrow> (direction \<times> 'rs) list" where
  "expected_commitments t sh =
     [(Sent, range_set t [Range 0 (length (shape_request_line sh))]),
      (Received, range_set t (shape_revealed sh))]
     @ map (\<lambda>r. (Received, range_set t [r])) (shape_hidden sh)"

definition matches :: "direction \<times> 'rs \<Rightarrow> 'rs committed_hash \<Rightarrow> bool" where
  "matches e c \<longleftrightarrow> ch_direction c = fst e \<and> ch_idx c = snd e"

definition hash_of :: "('p, 'vk, 'att, 'rs) tlsn \<Rightarrow> 'rs committed_hash list \<Rightarrow> range \<Rightarrow> bytes res" where
  "hash_of t commitments r =
     (case find (matches (Received, range_set t [r])) commitments of
        None \<Rightarrow> Inl (Panic ''presence checked above'')
      | Some c \<Rightarrow> word32 (ch_hash c))"

definition check_server :: "('att, 'rs) presentation_output \<Rightarrow> response_shape \<Rightarrow> unit res" where
  "check_server output sh =
     (case out_server_name output of
        Some (Dns name) \<Rightarrow> ensure (name = shape_server_name sh) ''server identity'' (Inr ())
      | _ \<Rightarrow> bail ''server identity'')"

definition check_transcript ::
    "('p, 'vk, 'att, 'rs) tlsn \<Rightarrow> 'rs transcript_view \<Rightarrow> response_shape \<Rightarrow> unit res" where
  "check_transcript t transcript sh =
     (let n = length (shape_request_line sh) in
      ensure (sent_authed transcript = range_set t [Range 0 n])
        ''revealed request ranges differ from the layout'' (
      and_then (index_range (sent_unsafe transcript) (Range 0 n)) (\<lambda>bs.
      ensure (bs = shape_request_line sh) ''revealed request line'' (
      ensure (received_authed transcript = range_set t (shape_revealed sh))
        ''revealed response ranges differ from the layout'' (
      for_each_res (\<lambda>r.
        and_then (index_range (received_unsafe transcript) r) (\<lambda>a.
        and_then (index_range (shape_template sh) r) (\<lambda>b.
        ensure (a = b) ''revealed response bytes differ from the layout'' (Inr ()))))
        (shape_revealed sh))))))"

definition check_commitments ::
    "('p, 'vk, 'att, 'rs) tlsn \<Rightarrow> 'rs committed_hash list \<Rightarrow> response_shape \<Rightarrow> unit res" where
  "check_commitments t commitments sh =
     (let expected = expected_commitments t sh in
      ensure (length commitments = length expected) ''number of commitments'' (
      and_then (for_each_res (\<lambda>e.
        ensure (length (filter (matches e) commitments) = 1) ''commitment does not appear once''
          (Inr ())) expected) (\<lambda>_.
      ensure (list_all (\<lambda>c. ch_alg c = SHA256) commitments) ''commitments must use SHA-256''
        (Inr ()))))"

definition check_shape ::
    "('p, 'vk, 'att, 'rs) tlsn \<Rightarrow> 'p \<Rightarrow> 'vk shape_expectation \<Rightarrow> attested_shape res" where
  "check_shape t presentation exp =
     ensure (verifying_key_of t presentation = exp_attestation_key exp)
       ''attestation key is not trusted'' (
     and_then (cert_verifier_new t (exp_root_certs exp)) (\<lambda>_.
     and_then (with_ctx ''presentation does not verify''
       (verify_presentation t (exp_root_certs exp) presentation)) (\<lambda>output.
     let sh = exp_shape exp in
     and_then (check_server output sh) (\<lambda>_.
     and_then (t_att_of output) (\<lambda>t_att.
     let connection_time = out_connection_time output in
     and_then (check_times t_att connection_time (exp_max_session_secs exp)) (\<lambda>_.
     ensure (out_received_len output = shape_len sh) ''received length'' (
     and_then (some_or ''presentation reveals no transcript'' (out_transcript output)) (\<lambda>transcript.
     and_then (check_transcript t transcript sh) (\<lambda>_.
     and_then (attested_commitments t (out_attestation output)) (\<lambda>commitments.
     and_then (check_commitments t commitments sh) (\<lambda>_.
     and_then (collect_res (hash_of t commitments) (shape_hidden sh)) (\<lambda>hashes.
     Inr \<lparr>as_t_att = t_att, as_connection_time = connection_time, as_hidden_hashes = hashes\<rparr>))))))))))))"

record 'vk expectation =
  ex_layout :: layout
  ex_attestation_key :: 'vk
  ex_root_certs :: "bytes list"
  ex_property_id :: bytes
  ex_max_session_secs :: u64

definition check_presentation ::
    "('p, 'vk, 'att, 'rs) tlsn \<Rightarrow> 'p \<Rightarrow> 'vk expectation \<Rightarrow> attested res" where
  "check_presentation t presentation exp =
     and_then (shape (ex_layout exp) (ex_property_id exp)) (\<lambda>sh.
     and_then (check_shape t presentation
       \<lparr>exp_shape = sh, exp_attestation_key = ex_attestation_key exp,
        exp_root_certs = ex_root_certs exp, exp_max_session_secs = ex_max_session_secs exp\<rparr>)
       (\<lambda>a.
     case as_hidden_hashes a of
       [account, owners_h, pid_h] \<Rightarrow>
         Inr \<lparr>at_t_att = as_t_att a, at_connection_time = as_connection_time a,
              at_account_hash = account, at_owners_hash = owners_h, at_property_id_hash = pid_h\<rparr>
     | _ \<Rightarrow> Inl (Msg ''the title layout has three hidden fields'')))"

subsection \<open>What an accepted presentation satisfies\<close>

lemma word32_Inr_iff [simp]: "word32 h = Inr w \<longleftrightarrow> length h = 32 \<and> w = h"
  by (auto simp: word32_def)

lemma check_server_Inr_iff:
  "check_server output sh = Inr () \<longleftrightarrow> out_server_name output = Some (Dns (shape_server_name sh))"
  by (auto simp: check_server_def ensure_Inr_iff split: option.splits server_name.splits)

lemma check_transcript_Inr_iff:
  "check_transcript t tr sh = Inr () \<longleftrightarrow>
     sent_authed tr = range_set t [Range 0 (length (shape_request_line sh))] \<and>
     holds (sent_unsafe tr) (Range 0 (length (shape_request_line sh))) (shape_request_line sh) \<and>
     received_authed tr = range_set t (shape_revealed sh) \<and>
     (\<forall>r \<in> set (shape_revealed sh). \<exists>bs. holds (received_unsafe tr) r bs \<and> holds (shape_template sh) r bs)"
  by (auto simp: check_transcript_def Let_def ensure_Inr_iff and_then_Inr_iff)

lemma check_commitments_Inr_iff:
  "check_commitments t cs sh = Inr () \<longleftrightarrow>
     length cs = length (expected_commitments t sh) \<and>
     (\<forall>e \<in> set (expected_commitments t sh). length (filter (matches e) cs) = 1) \<and>
     list_all (\<lambda>c. ch_alg c = SHA256) cs"
  by (auto simp: check_commitments_def Let_def ensure_Inr_iff and_then_Inr_iff)

lemma attested_commitments_Inr_iff:
  "attested_commitments t att = Inr cs \<longleftrightarrow> body_commitments t att = Inr (map Some cs)"
proof -
  have "collect_res (\<lambda>c. case c of Some h \<Rightarrow> Inr h
      | None \<Rightarrow> bail ''unsupported transcript commitment kind'') ds = Inr cs \<longleftrightarrow> ds = map Some cs" for ds
  proof (induction ds arbitrary: cs)
    case (Cons d ds)
    then show ?case by (cases cs) (auto simp: and_then_Inr_iff split: option.splits)
  qed auto
  then show ?thesis by (auto simp: attested_commitments_def and_then_Inr_iff)
qed

lemma t_att_of_Inr_iff:
  "t_att_of output = Inr n \<longleftrightarrow>
     (\<exists>bs. filter (\<lambda>e. fst e = T_ATT_EXTENSION_ID) (out_extensions output) = [(T_ATT_EXTENSION_ID, bs)] \<and>
        length bs = 8 \<and> n = of_nat (be_value bs))"
proof -
  let ?f = "filter (\<lambda>e. fst e = T_ATT_EXTENSION_ID) (out_extensions output)"
  have "e \<in> set ?f \<Longrightarrow> fst e = T_ATT_EXTENSION_ID" for e by simp
  then have "?f = e # es \<Longrightarrow> fst e = T_ATT_EXTENSION_ID" for e es
    by (metis list.set_intros(1))
  then show ?thesis
    by (cases ?f) (auto simp: t_att_of_def Let_def ensure_Inr_iff and_then_Inr_iff split: if_splits)
qed

lemma hash_of_Inr:
  "hash_of t cs r = Inr h \<Longrightarrow>
   \<exists>c \<in> set cs. matches (Received, range_set t [r]) c \<and> ch_hash c = h \<and> length h = 32"
  by (auto simp: hash_of_def find_Some_iff split: option.splits)

lemma check_shape_Inr:
  assumes "check_shape t p exp = Inr a"
  obtains outp tr cs where "verifying_key_of t p = exp_attestation_key exp"
    "verify_presentation t (exp_root_certs exp) p = Inr outp"
    "check_server outp (exp_shape exp) = Inr ()" "t_att_of outp = Inr (as_t_att a)"
    "as_connection_time a = out_connection_time outp"
    "check_times (as_t_att a) (out_connection_time outp) (exp_max_session_secs exp) = Inr ()"
    "out_received_len outp = shape_len (exp_shape exp)" "out_transcript outp = Some tr"
    "check_transcript t tr (exp_shape exp) = Inr ()"
    "attested_commitments t (out_attestation outp) = Inr cs"
    "check_commitments t cs (exp_shape exp) = Inr ()"
    "collect_res (hash_of t cs) (shape_hidden (exp_shape exp)) = Inr (as_hidden_hashes a)"
  using assms [unfolded check_shape_def Let_def ensure_Inr_iff and_then_Inr_iff some_or_Inr_iff
      with_ctx_Inr_iff sum.inject]
  by (elim exE conjE) (rule that; (assumption | force))

lemma u64_sum: "unat (t + 5 :: u64) = (unat t + 5) mod 2 ^ 64"
  by (simp add: unat_word_ariths)

subsection \<open>Properties of the time check\<close>

text \<open>C37: \<open>check_times\<close> accepts exactly when the connection time is at most five seconds ahead of t_att
  (the sum taken modulo \<open>2^64\<close>, as the release build takes it) and t_att at most the session bound
  after it. An accepted pair is never further apart than the two bounds, wrap-around or not.\<close>

theorem check_times_iff:
  shows "(check_times t_att connection_time bound = Inr () \<longleftrightarrow>
      unat connection_time \<le> (unat t_att + 5) mod 2 ^ 64 \<and>
      unat t_att \<le> unat connection_time + unat bound) \<and>
    (case check_times t_att connection_time bound of Inl _ \<Rightarrow> True | Inr _ \<Rightarrow>
      unat connection_time \<le> unat t_att + 5 \<and> unat t_att \<le> unat connection_time + unat bound)"
proof -
  have gap: "saturating_sub a b \<le> m \<longleftrightarrow> unat a \<le> unat b + unat m" for a b m :: u64
    by (auto simp: saturating_sub_def word_le_nat_alt unat_sub)
  have iff: "check_times t_att connection_time bound = Inr () \<longleftrightarrow>
      unat connection_time \<le> (unat t_att + 5) mod 2 ^ 64 \<and>
      unat t_att \<le> unat connection_time + unat bound"
    unfolding check_times_def Let_def ensure_Inr_iff gap TLSN_CLOCK_TOLERANCE_def
    by (simp add: word_le_nat_alt u64_sum)
  moreover have "(unat t_att + 5) mod 2 ^ 64 \<le> unat t_att + 5" by (rule mod_less_eq_dividend)
  ultimately show ?thesis by (auto split: sum.splits intro: order_trans)
qed

subsection \<open>Soundness of the shape check\<close>

definition commitment_key :: "'rs committed_hash \<Rightarrow> direction \<times> 'rs" where
  "commitment_key c = (ch_direction c, ch_idx c)"

lemma matches_key: "matches e c \<longleftrightarrow> commitment_key c = e"
  by (cases e) (auto simp: matches_def commitment_key_def)

lemma commitments_exact:
  assumes "check_commitments t cs sh = Inr ()" and "distinct (expected_commitments t sh)"
  shows "mset (map commitment_key cs) = mset (expected_commitments t sh)"
proof -
  let ?ex = "expected_commitments t sh"
  have len: "length cs = length ?ex" and once: "\<And>e. e \<in> set ?ex \<Longrightarrow> length (filter (matches e) cs) = 1"
    using assms(1) by (auto simp: check_commitments_Inr_iff)
  have count: "count (mset (map commitment_key ds)) e = length (filter (matches e) ds)"
    for e and ds :: "'d committed_hash list"
    by (induction ds) (auto simp: matches_key)
  have c1: "count (mset ?ex) e = (if e \<in> set ?ex then 1 else 0)" for e
    using assms(2) unfolding distinct_count_atmost_1 by blast
  have "count (mset ?ex) e \<le> count (mset (map commitment_key cs)) e" for e
    unfolding count [of cs] c1 using once [of e] by simp
  then have "mset ?ex \<subseteq># mset (map commitment_key cs)" by (simp add: subseteq_mset_def)
  then show ?thesis using len by (metis length_map mset_subset_size size_mset subset_mset.le_neq_trans less_irrefl)
qed

text \<open>C8: An accepted presentation carries the trusted attestation key and verifies under the trusted
  roots; the server is the policy's; t_att is the attestation's only \<open>pprev.t_att\<close> extension and
  passes the time check; the response has the shape's length; exactly the request line and the
  response structure are revealed, with the template's bytes; and the hashes returned are those of
  SHA-256 commitments to the hidden ranges, taken from the attestation, one per field in order.
  Commitments to anything but the expected ranges are refused.\<close>

theorem check_shape_sound:
  assumes "check_shape t p exp = Inr a"
  shows "\<exists>outp tr cs. let sh = exp_shape exp in
    verifying_key_of t p = exp_attestation_key exp \<and>
    verify_presentation t (exp_root_certs exp) p = Inr outp \<and>
    out_server_name outp = Some (Dns (shape_server_name sh)) \<and>
    (\<exists>bs. filter (\<lambda>e. fst e = T_ATT_EXTENSION_ID) (out_extensions outp) = [(T_ATT_EXTENSION_ID, bs)] \<and>
       length bs = 8 \<and> unat (as_t_att a) = be_value bs) \<and>
    check_times (as_t_att a) (out_connection_time outp) (exp_max_session_secs exp) = Inr () \<and>
    out_received_len outp = shape_len sh \<and> out_transcript outp = Some tr \<and>
    sent_authed tr = range_set t [Range 0 (length (shape_request_line sh))] \<and>
    holds (sent_unsafe tr) (Range 0 (length (shape_request_line sh))) (shape_request_line sh) \<and>
    received_authed tr = range_set t (shape_revealed sh) \<and>
    (\<forall>r \<in> set (shape_revealed sh). holds (received_unsafe tr) r (slice (shape_template sh) r)) \<and>
    body_commitments t (out_attestation outp) = Inr (map Some cs) \<and>
    (distinct (expected_commitments t sh) \<longrightarrow>
       mset (map commitment_key cs) = mset (expected_commitments t sh)) \<and>
    list_all2 (\<lambda>r h. \<exists>c \<in> set cs. commitment_key c = (Received, range_set t [r]) \<and>
       ch_alg c = SHA256 \<and> ch_hash c = h \<and> length h = 32) (shape_hidden sh) (as_hidden_hashes a)"
proof -
  obtain outp tr cs where c: "verifying_key_of t p = exp_attestation_key exp"
    "verify_presentation t (exp_root_certs exp) p = Inr outp"
    "check_server outp (exp_shape exp) = Inr ()" "t_att_of outp = Inr (as_t_att a)"
    "check_times (as_t_att a) (out_connection_time outp) (exp_max_session_secs exp) = Inr ()"
    "out_received_len outp = shape_len (exp_shape exp)" "out_transcript outp = Some tr"
    and tr: "check_transcript t tr (exp_shape exp) = Inr ()"
    and cs: "attested_commitments t (out_attestation outp) = Inr cs"
    "check_commitments t cs (exp_shape exp) = Inr ()"
    and hs: "collect_res (hash_of t cs) (shape_hidden (exp_shape exp)) = Inr (as_hidden_hashes a)"
    using check_shape_Inr [OF assms] by metis
  obtain bs where bs: "filter (\<lambda>e. fst e = T_ATT_EXTENSION_ID) (out_extensions outp) =
      [(T_ATT_EXTENSION_ID, bs)]" "length bs = 8" "as_t_att a = of_nat (be_value bs)"
    using c(4) by (auto simp: t_att_of_Inr_iff)
  have "be_value bs < 2 ^ 64" using be_value_less [of bs] bs(2) by simp
  then have val: "unat (as_t_att a) = be_value bs" by (simp add: bs(3) unat_of_nat take_bit_eq_mod)
  have sha: "list_all (\<lambda>c. ch_alg c = SHA256) cs" using cs(2) by (simp add: check_commitments_Inr_iff)
  have "\<exists>c \<in> set cs. commitment_key c = (Received, range_set t [r]) \<and>
       ch_alg c = SHA256 \<and> ch_hash c = h \<and> length h = 32" if "hash_of t cs r = Inr h" for r h
    using hash_of_Inr [OF that] sha by (auto simp: matches_key list_all_iff)
  then have hidden: "list_all2 (\<lambda>r h. \<exists>c \<in> set cs. commitment_key c = (Received, range_set t [r]) \<and>
       ch_alg c = SHA256 \<and> ch_hash c = h \<and> length h = 32)
       (shape_hidden (exp_shape exp)) (as_hidden_hashes a)"
    using hs by (auto simp: collect_res_Inr_iff elim: list_all2_mono)
  have "\<forall>r \<in> set (shape_revealed (exp_shape exp)).
      holds (received_unsafe tr) r (slice (shape_template (exp_shape exp)) r)"
    using tr holds_slice unfolding check_transcript_Inr_iff by metis
  with c tr cs bs val hidden commitments_exact [OF cs(2)] show ?thesis
    unfolding Let_def check_server_Inr_iff check_transcript_Inr_iff attested_commitments_Inr_iff
    by blast
qed

subsection \<open>An honest prover is accepted\<close>

text \<open>The documented behaviour of \<open>RangeSet\<close>: it is the set of indices of the ranges.\<close>

definition covered :: "range list \<Rightarrow> nat set" where
  "covered rs = {i. \<exists>r \<in> set rs. rstart r \<le> i \<and> i < rend r}"

definition index_sets :: "(range list \<Rightarrow> 'rs) \<Rightarrow> bool" where
  "index_sets f \<longleftrightarrow> (\<forall>rs qs. f rs = f qs \<longleftrightarrow> covered rs = covered qs)"

definition commit_list :: "(direction \<times> 'rs) list \<Rightarrow> bytes list \<Rightarrow> 'rs committed_hash list" where
  "commit_list ks hs =
     map (\<lambda>(k, h). \<lparr>ch_direction = fst k, ch_idx = snd k, ch_alg = SHA256, ch_hash = h\<rparr>) (zip ks hs)"

text \<open>What verification returns for a prover that followed the protocol: the response \<open>b\<close> after a
  request that starts with the expected line, revealed at the shape's ranges.\<close>

definition honest_output ::
    "('p, 'vk, 'att, 'rs) tlsn \<Rightarrow> response_shape \<Rightarrow> bytes \<Rightarrow> bytes \<Rightarrow> u64 \<Rightarrow> u64 \<Rightarrow> 'att
      \<Rightarrow> ('att, 'rs) presentation_output" where
  "honest_output t sh tail b t_att conn att =
     \<lparr>out_attestation = att, out_server_name = Some (Dns (shape_server_name sh)),
      out_connection_time = conn, out_received_len = length b,
      out_transcript = Some
        \<lparr>sent_authed = range_set t [Range 0 (length (shape_request_line sh))],
         sent_unsafe = shape_request_line sh @ tail,
         received_authed = range_set t (shape_revealed sh), received_unsafe = b\<rparr>,
      out_extensions = [(T_ATT_EXTENSION_ID, be_bytes 8 (unat t_att))]\<rparr>"

lemma commit_list_keys:
  "length hs = length ks \<Longrightarrow> map commitment_key (commit_list ks hs) = ks"
  by (rule nth_equalityI) (auto simp: commit_list_def commitment_key_def split: prod.splits)

lemma commit_list_once:
  assumes "length hs = length ks" "distinct ks" "k \<in> set ks"
  shows "length (filter (matches k) (commit_list ks hs)) = 1"
proof -
  have "length (filter (matches k) cs) = length (filter ((=) k) (map commitment_key cs))" for cs
    by (induction cs) (auto simp: matches_key)
  moreover have "length (filter ((=) k) ks) = 1"
    using assms(2,3) by (metis count_mset distinct_count_atmost_1 count_list_eq_length_filter count_mset_0_iff)
  ultimately show ?thesis using commit_list_keys [OF assms(1)] by (simp only:)
qed

lemma commit_list_find:
  assumes "length hs = length ks" "distinct ks" "i < length ks"
  shows "find (matches (ks ! i)) (commit_list ks hs) = Some (commit_list ks hs ! i)"
proof -
  have key: "commitment_key (commit_list ks hs ! j) = ks ! j" if "j < length ks" for j
    using that commit_list_keys [OF assms(1)] assms(1)
    by (metis length_map nth_map)
  have len: "length (commit_list ks hs) = length ks" using assms(1) by (simp add: commit_list_def)
  show ?thesis
    unfolding find_Some_iff
    using assms key len by (auto simp: matches_key nth_eq_iff_index_eq intro!: exI [of _ i])
qed

lemma be_u64 [simp]: "of_nat (be_value (be_bytes 8 (unat (n :: u64)))) = n"
proof -
  have "unat n < 256 ^ 8" using unsigned_less [of n, where 'a = nat] by simp
  then show ?thesis by simp
qed

context response_source
begin

lemma expected_distinct:
  assumes l: "valid l" and s: "shape_of l subject = Inr s" and rs: "index_sets (range_set t)"
  shows "distinct (expected_commitments t s)"
proof -
  have cov: "rstart r \<in> covered [r]" if "r \<in> set (shape_hidden s)" for r
    using shape_hidden_nonempty [OF l s that] by (cases r) (simp add: covered_def)
  have apart: "rstart r \<notin> covered [q]" if "r \<in> set (shape_hidden s)" "disjoint_ranges r q \<or> disjoint_ranges q r"
    for r q
    using that shape_hidden_nonempty [OF l s that(1)]
    by (auto simp: covered_def disjoint_ranges_def before_def range_len_def)
  have rev: "range_set t [r] \<noteq> range_set t (shape_revealed s)" if r: "r \<in> set (shape_hidden s)" for r
  proof -
    have "rstart r \<notin> covered (shape_revealed s)"
      using apart [OF r] shape_disjoint [OF l s _ r] by (auto simp: covered_def)
    then show ?thesis using cov [OF r] rs unfolding index_sets_def by metis
  qed
  have "range_set t [shape_hidden s ! i] \<noteq> range_set t [shape_hidden s ! j]"
    if ij: "i < j" "j < length (shape_hidden s)" for i j
  proof -
    have "rstart (shape_hidden s ! i) \<notin> covered [shape_hidden s ! j]"
      using apart [of "shape_hidden s ! i" "shape_hidden s ! j"] shape_hidden_apart [OF l s ij] ij by simp
    moreover have "rstart (shape_hidden s ! i) \<in> covered [shape_hidden s ! i]" using cov ij by simp
    ultimately show ?thesis using rs unfolding index_sets_def by metis
  qed
  then have "distinct (map (\<lambda>r. range_set t [r]) (shape_hidden s))"
    unfolding distinct_conv_nth by (simp add: nat_neq_iff) metis
  then show ?thesis
    using rev rev [THEN not_sym] by (auto simp: expected_commitments_def distinct_map inj_on_def)
qed

text \<open>Whatever the record, a prover that reveals and commits to the shape's ranges passes.\<close>

lemma honest_accepted:
  assumes l: "valid l" and s: "shape_of l subject = Inr s" and b: "render l v = Inr b"
    and rs: "index_sets (range_set t)" and key: "verifying_key_of t p = vk"
    and roots: "cert_verifier_new t roots = Inr ()"
    and out: "verify_presentation t roots p = Inr (honest_output t s tail b t_att conn att)"
    and cs: "body_commitments t att = Inr (map Some (commit_list (expected_commitments t s) hs))"
    and hs: "length hs = 2 + length (shape_hidden s)" "\<And>h. h \<in> set hs \<Longrightarrow> length h = 32"
    and time: "check_times t_att conn secs = Inr ()"
  shows "check_shape t p \<lparr>exp_shape = s, exp_attestation_key = vk, exp_root_certs = roots,
      exp_max_session_secs = secs\<rparr> =
    Inr \<lparr>as_t_att = t_att, as_connection_time = conn, as_hidden_hashes = drop 2 hs\<rparr>"
proof -
  let ?ks = "expected_commitments t s" and ?o = "honest_output t s tail b t_att conn att"
  let ?cs = "commit_list ?ks hs"
  have ks: "distinct ?ks" by (rule expected_distinct [OF l s rs])
  have len: "length hs = length ?ks" using hs(1) by (simp add: expected_commitments_def)
  have server: "check_server ?o s = Inr ()" by (simp add: check_server_Inr_iff honest_output_def)
  have tatt: "t_att_of ?o = Inr t_att"
    by (simp add: t_att_of_Inr_iff honest_output_def del: be_value_be_bytes)
  have tr: "check_transcript t (the (out_transcript ?o)) s = Inr ()"
    using shape_revealed_bytes [OF l s b] holds_at [of 0 "[]" _ "shape_request_line s" tail]
    by (auto simp: check_transcript_Inr_iff honest_output_def holds_def)
  have att: "attested_commitments t att = Inr ?cs" using cs by (simp add: attested_commitments_Inr_iff)
  have "length ?cs = length ?ks" using len by (simp add: commit_list_def)
  moreover have "list_all (\<lambda>c. ch_alg c = SHA256) ?cs"
    by (auto simp: commit_list_def list_all_iff split: prod.splits)
  ultimately have com: "check_commitments t ?cs s = Inr ()"
    using commit_list_once [OF len ks] by (simp add: check_commitments_Inr_iff)
  have "hash_of t ?cs (shape_hidden s ! i) = Inr (drop 2 hs ! i)" if "i < length (shape_hidden s)" for i
  proof -
    have k: "?ks ! (2 + i) = (Received, range_set t [shape_hidden s ! i])" "2 + i < length ?ks"
      using that by (simp_all add: expected_commitments_def)
    from commit_list_find [OF len ks k(2)] have "find (matches (Received, range_set t [shape_hidden s ! i])) ?cs
        = Some (?cs ! (2 + i))" unfolding k(1) .
    then show ?thesis
      using k(2) len hs by (simp add: hash_of_def commit_list_def split: prod.splits)
  qed
  then have "collect_res (hash_of t ?cs) (shape_hidden s) = Inr (drop 2 hs)"
    using hs(1) by (simp add: collect_res_Inr_iff list_all2_conv_all_nth)
  with server tatt tr att com show ?thesis
    using key roots out time shape_length [OF l s b]
    by (simp add: check_shape_def Let_def) (simp add: honest_output_def)
qed

end

subsection \<open>Honest provers of the three sources\<close>

lemma honest_title_raw:
  assumes "validate_layout (ex_layout exp) = Inr ()"
    and "shape (ex_layout exp) (ex_property_id exp) = Inr s"
    and "render_response (ex_layout exp) account r = Inr x"
    and "index_sets (range_set t)" and "verifying_key_of t p = ex_attestation_key exp"
    and "cert_verifier_new t (ex_root_certs exp) = Inr ()"
    and "verify_presentation t (ex_root_certs exp) p =
      Inr (honest_output t s tail (rendered_bytes x) t_att conn att)"
    and "body_commitments t att = Inr (map Some (commit_list (expected_commitments t s) [g, h, ha, ho, hp]))"
    and "\<forall>w \<in> {g, h, ha, ho, hp}. length w = 32"
    and "check_times t_att conn (ex_max_session_secs exp) = Inr ()"
  shows "check_presentation t p exp = Inr
    \<lparr>at_t_att = t_att, at_connection_time = conn, at_account_hash = ha, at_owners_hash = ho,
     at_property_id_hash = hp\<rparr>"
proof -
  have l: "valid_layout (ex_layout exp)" using assms(1) by (simp add: validate_layout_iff)
  have b: "title_response (ex_layout exp) (account, r) = Inr (rendered_bytes x)"
    using assms(3) by (simp add: title_response_def)
  have "length (shape_hidden s) = 3"
    using assms(2) by (auto simp: shape_def and_then_Inr_iff hidden_def)
  with title.honest_accepted [OF l assms(2) b assms(4-8) _ _ assms(10)] assms(9)
  show ?thesis by (simp add: check_presentation_def assms(2))
qed

text \<open>C22: Completeness for Register: for every title record that the registry renders, the presentation of
  a prover that reveals the request line and the response structure, and commits to the three hidden
  values with SHA-256, is accepted, and the verifier takes exactly the committed hashes from it in
  the order account, owners, property identifier.\<close>

theorem honest_title_accepted:
  assumes "validate_layout (ex_layout exp) = Inr ()"
    and "shape (ex_layout exp) (ex_property_id exp) = Inr s"
    and "render_response (ex_layout exp) account r = Inr x"
    and "index_sets (range_set t)" and "verifying_key_of t p = ex_attestation_key exp"
    and "cert_verifier_new t (ex_root_certs exp) = Inr ()"
    and "verify_presentation t (ex_root_certs exp) p =
      Inr (honest_output t s tail (rendered_bytes x) t_att conn att)"
    and "body_commitments t att = Inr (map Some (commit_list (expected_commitments t s) [g, h, ha, ho, hp]))"
    and "\<forall>w \<in> {g, h, ha, ho, hp}. length w = 32"
    and "check_times t_att conn (ex_max_session_secs exp) = Inr ()"
  shows "check_presentation t p exp = Inr
    \<lparr>at_t_att = t_att, at_connection_time = conn, at_account_hash = ha, at_owners_hash = ho,
     at_property_id_hash = hp\<rparr>"
  using assms by (rule honest_title_raw)

text \<open>A concrete library for the examples: sets of indices, and one honest presentation.\<close>

definition base_tlsn :: "(unit, nat, unit, nat set) tlsn" where
  "base_tlsn =
     \<lparr>verifying_key_of = (\<lambda>_. 7), cert_verifier_new = (\<lambda>_. Inr ()),
      verify_presentation = (\<lambda>_ _. bail ''no presentation''),
      body_commitments = (\<lambda>_. bail ''no attestation''), range_set = covered\<rparr>"

definition sample_tlsn :: "response_shape \<Rightarrow> bytes \<Rightarrow> bytes list \<Rightarrow> (unit, nat, unit, nat set) tlsn" where
  "sample_tlsn s b hs = base_tlsn
     \<lparr>verify_presentation := (\<lambda>_ _. Inr (honest_output base_tlsn s '' '' b 1000 990 ())),
      body_commitments := (\<lambda>_. Inr (map Some (commit_list (expected_commitments base_tlsn s) hs)))\<rparr>"

lemma sample_tlsn_simps:
  "verifying_key_of (sample_tlsn s b hs) p = 7"
  "cert_verifier_new (sample_tlsn s b hs) roots = Inr ()"
  "verify_presentation (sample_tlsn s b hs) roots p =
     Inr (honest_output (sample_tlsn s b hs) s '' '' b 1000 990 ())"
  "body_commitments (sample_tlsn s b hs) () =
     Inr (map Some (commit_list (expected_commitments (sample_tlsn s b hs) s) hs))"
  "index_sets (range_set (sample_tlsn s b hs))"
  by (simp_all add: sample_tlsn_def base_tlsn_def honest_output_def expected_commitments_def
      index_sets_def)

lemma sample_times: "check_times 1000 990 120 = Inr ()"
  by (simp add: check_times_def TLSN_CLOCK_TOLERANCE_def saturating_sub_def Let_def word_le_nat_alt)

definition sample_hashes :: "nat \<Rightarrow> bytes list" where
  "sample_hashes n = map (\<lambda>i. replicate 32 (char_of i)) [0..<n]"

lemma sample_hashes_facts: "length (sample_hashes n) = n" "h \<in> set (sample_hashes n) \<Longrightarrow> length h = 32"
  by (auto simp: sample_hashes_def)

definition title_expectation :: "nat expectation" where
  "title_expectation =
     \<lparr>ex_layout = title_v1, ex_attestation_key = 7, ex_root_certs = [],
      ex_property_id = ''TR-06-CANKAYA-000123'', ex_max_session_secs = 120\<rparr>"

lemma sample_presentation_accepted:
  assumes "shape title_v1 ''TR-06-CANKAYA-000123'' = Inr s"
    and "render_response title_v1 ''ACC-000000000001'' sample_record = Inr x"
  shows "check_presentation (sample_tlsn s (rendered_bytes x) (sample_hashes 5)) () title_expectation = Inr
    \<lparr>at_t_att = 1000, at_connection_time = 990, at_account_hash = replicate 32 (char_of (2::nat)),
     at_owners_hash = replicate 32 (char_of (3::nat)), at_property_id_hash = replicate 32 (char_of (4::nat))\<rparr>"
proof -
  have hs: "sample_hashes 5 = [replicate 32 (char_of (0::nat)), replicate 32 (char_of (1::nat)),
      replicate 32 (char_of (2::nat)), replicate 32 (char_of (3::nat)), replicate 32 (char_of (4::nat))]"
    by (simp add: sample_hashes_def upt_rec)
  show ?thesis
    by (rule honest_title_raw [where s = s and x = x and r = sample_record
          and account = "''ACC-000000000001''" and tail = "'' ''" and att = "()" and
          g = "replicate 32 (char_of (0::nat))" and h = "replicate 32 (char_of (1::nat))"])
      (simp_all add: title_expectation_def valid_title_v1 assms sample_tlsn_simps hs sample_times)
qed

theorem honest_title_accepted_witness:
  "\<exists>s x. shape title_v1 ''TR-06-CANKAYA-000123'' = Inr s \<and>
    render_response title_v1 ''ACC-000000000001'' sample_record = Inr x \<and>
    is_ok (check_presentation (sample_tlsn s (rendered_bytes x) (sample_hashes 5)) () title_expectation)"
proof -
  have l: "valid_layout title_v1" using valid_title_v1 by (simp add: validate_layout_iff)
  obtain s where s: "shape title_v1 ''TR-06-CANKAYA-000123'' = Inr s"
    using title.shape_total [OF l] by blast
  obtain x where x: "render_response title_v1 ''ACC-000000000001'' sample_record = Inr x"
    using sample_render_ok by blast
  let ?t = "sample_tlsn s (rendered_bytes x) (sample_hashes 5)"
  have hs: "sample_hashes 5 = [replicate 32 (char_of (0::nat)), replicate 32 (char_of (1::nat)),
      replicate 32 (char_of (2::nat)), replicate 32 (char_of (3::nat)), replicate 32 (char_of (4::nat))]"
    by (simp add: sample_hashes_def upt_rec)
  have "check_presentation ?t () title_expectation = Inr
    \<lparr>at_t_att = 1000, at_connection_time = 990, at_account_hash = replicate 32 (char_of (2::nat)),
     at_owners_hash = replicate 32 (char_of (3::nat)), at_property_id_hash = replicate 32 (char_of (4::nat))\<rparr>"
    by (rule honest_title_accepted [where s = s and x = x and r = sample_record and t = ?t
          and account = "''ACC-000000000001''" and tail = "'' ''" and att = "()" and
          g = "replicate 32 (char_of (0::nat))" and h = "replicate 32 (char_of (1::nat))"])
      (simp_all add: title_expectation_def valid_title_v1 s x sample_tlsn_simps hs sample_times)
  with s x show ?thesis by (metis is_ok_simps(1))
qed

text \<open>Completeness for Apply and Settle: for every record that a single-record source renders, the
  presentation of a prover that reveals the response structure and commits to the account and to
  every field is accepted, and the verifier takes one hash per hidden value, in the layout's order.\<close>

theorem honest_record_accepted:
  assumes "validate_record_layout l = Inr ()" and "record_shape l subject = Inr s"
    and "render_record l account values = Inr x"
    and "index_sets (range_set t)" and "verifying_key_of t p = vk"
    and "cert_verifier_new t roots = Inr ()"
    and "verify_presentation t roots p = Inr (honest_output t s tail (record_bytes x) t_att conn att)"
    and "body_commitments t att = Inr (map Some (commit_list (expected_commitments t s) hs))"
    and "length hs = 3 + length (record_fields l)" and "\<forall>h \<in> set hs. length h = 32"
    and "check_times t_att conn secs = Inr ()"
  shows "check_shape t p \<lparr>exp_shape = s, exp_attestation_key = vk, exp_root_certs = roots,
      exp_max_session_secs = secs\<rparr> =
    Inr \<lparr>as_t_att = t_att, as_connection_time = conn, as_hidden_hashes = drop 2 hs\<rparr>"
proof -
  have l: "valid_record_layout l" using assms(1) by (simp add: valid_record_layout_def)
  have b: "record_response l (account, values) = Inr (record_bytes x)"
    using assms(3) by (simp add: record_response_def)
  obtain a vs where "record_template l = Inr (record_rendering l a vs)"
    using record_template_rendering [OF l] by metis
  then have "length (shape_hidden s) = 1 + length (record_fields l)"
    using assms(2) by (auto simp: record_shape_def record_rendering_simps record_hidden_segments_def)
  then have "length hs = 2 + length (shape_hidden s)" using assms(9) by simp
  from rec.honest_accepted [OF l assms(2) b assms(4-8) this _ assms(11)] assms(10) show ?thesis by simp
qed

theorem honest_record_accepted_witness:
  "\<exists>s x. record_shape income_v1 [] = Inr s \<and>
    render_record income_v1 ''ACC-000000000003'' [''00000000000000003000''] = Inr x \<and>
    is_ok (check_shape (sample_tlsn s (record_bytes x) (sample_hashes 4)) ()
      \<lparr>exp_shape = s, exp_attestation_key = 7, exp_root_certs = [], exp_max_session_secs = 120\<rparr>)"
proof -
  have l: "valid_record_layout income_v1" using valid_income_v1 by (simp add: valid_record_layout_def)
  obtain s where s: "record_shape income_v1 [] = Inr s" using rec.shape_total [OF l] by blast
  have "is_ok (render_record income_v1 ''ACC-000000000003'' [''00000000000000003000''])"
    by (simp add: render_record_eq income_v1_def field_values_def pad_def pad_value_def
        first_char_def utf8_width_def byte_defs)
  then obtain x where x: "render_record income_v1 ''ACC-000000000003'' [''00000000000000003000''] = Inr x"
    by (auto simp: is_ok_iff)
  let ?t = "sample_tlsn s (record_bytes x) (sample_hashes 4)"
  have hs: "length (sample_hashes 4) = 4" "\<forall>h \<in> set (sample_hashes 4). length h = 32"
    by (auto simp: sample_hashes_def)
  have "check_shape ?t () \<lparr>exp_shape = s, exp_attestation_key = 7, exp_root_certs = [],
      exp_max_session_secs = 120\<rparr> =
    Inr \<lparr>as_t_att = 1000, as_connection_time = 990, as_hidden_hashes = drop 2 (sample_hashes 4)\<rparr>"
    by (rule honest_record_accepted [OF valid_income_v1 s x, where tail = "'' ''" and att = "()"])
      (use hs in \<open>simp_all add: sample_tlsn_simps sample_times income_v1_def\<close>)
  with s x show ?thesis by (metis is_ok_simps(1))
qed

theorem check_shape_sound_witness:
  "\<exists>s b a outp. check_shape (sample_tlsn s b (sample_hashes 4)) ()
      \<lparr>exp_shape = s, exp_attestation_key = 7, exp_root_certs = [], exp_max_session_secs = 120\<rparr> = Inr a \<and>
    out_server_name outp = Some (Dns (shape_server_name s)) \<and>
    verify_presentation (sample_tlsn s b (sample_hashes 4)) [] () = Inr outp"
proof -
  have l: "valid_record_layout income_v1" using valid_income_v1 by (simp add: valid_record_layout_def)
  obtain s where s: "record_shape income_v1 [] = Inr s" using rec.shape_total [OF l] by blast
  obtain a vs where t: "padded_fields income_v1 a vs"
    "record_template income_v1 = Inr (record_rendering income_v1 a vs)"
    using record_template_rendering [OF l] by metis
  let ?b = "record_bytes (record_rendering income_v1 a vs)"
  have b: "record_response income_v1 ([], replicate (length (record_fields income_v1)) []) = Inr ?b"
    using t(2) by (simp add: record_response_def record_template_def)
  have "length (shape_hidden s) = 2"
    using s t(2) by (auto simp: record_shape_def record_rendering_simps record_hidden_segments_def income_v1_def)
  then have hs: "length (sample_hashes 4) = 2 + length (shape_hidden s)" by (simp add: sample_hashes_def)
  from rec.honest_accepted [OF l s b, of "sample_tlsn s ?b (sample_hashes 4)" "()" 7 "[]" "'' ''" 1000 990 "()"
      "sample_hashes 4" 120]
  have a: "check_shape (sample_tlsn s ?b (sample_hashes 4)) () \<lparr>exp_shape = s, exp_attestation_key = 7,
      exp_root_certs = [], exp_max_session_secs = 120\<rparr> =
    Inr \<lparr>as_t_att = 1000, as_connection_time = 990, as_hidden_hashes = drop 2 (sample_hashes 4)\<rparr>"
    using hs sample_hashes_facts(2) by (simp add: sample_tlsn_simps sample_times)
  from check_shape_sound [OF a] a show ?thesis unfolding Let_def by (auto simp only: shape_expectation.simps) 
qed

end
