(* ===== verification/Session_Errors.thy ===== *)
theory Session_Errors
  imports Prelude "HOL-Library.Word"
begin

section \<open>Failures of a session and their retries\<close>

text \<open>
  Model of the failure handling of \<open>pprev-prover/src/session.rs\<close>: errors with their chains of causes, what
  they say about a cut of the session, the race between the prover and the session's driver, and the
  retries. What a task or a library ends with, and whether it ends within the grace, are arguments.
\<close>

subsection \<open>Errors and their causes\<close>

datatype io_kind =
    UnexpectedEof | ConnectionReset | ConnectionAborted | BrokenPipe | NotConnected | WriteZero | Other_io nat

text \<open>One error of a chain. tlsn's error has the three tests that the code uses.\<close>

record tlsn_kind =
  is_user :: bool
  is_config :: bool
  is_internal :: bool

datatype link =
    Message bytes
  | Io io_kind bytes
  | Tlsn tlsn_kind bytes
  | Mux_closed
  | Foreign bytes

text \<open>
  \<open>anyhow::Error\<close>: contexts around an error with its sources. \<open>downcast_ref\<close> looks through the contexts
  at the error itself, \<open>chain\<close> also at its sources. \<open>PreprocessingStalled\<close> is this module's own: no error
  of a library is one.
\<close>

datatype cause = Stalled bytes | Error link

datatype chain = Chain (contexts: "bytes list") (root: cause) (sources: "link list")

definition msg :: "bytes \<Rightarrow> chain" where
  "msg m = Chain [] (Error (Message m)) []"

fun cause_link :: "cause \<Rightarrow> link" where
  "cause_link (Stalled r) = Message (''MPC-TLS preprocessing stalled: '' @ r)"
| "cause_link (Error l) = l"

definition links :: "chain \<Rightarrow> link list" where
  "links e = map Message (contexts e) @ cause_link (root e) # sources e"

definition in_context :: "bytes \<Rightarrow> chain \<Rightarrow> chain" where
  "in_context c e = Chain (c # contexts e) (root e) (sources e)"

definition is_stalled :: "chain \<Rightarrow> bool" where
  "is_stalled e = (case root e of Stalled _ \<Rightarrow> True | _ \<Rightarrow> False)"

fun link_text :: "link \<Rightarrow> bytes" where
  "link_text (Message m) = m"
| "link_text (Io _ m) = m"
| "link_text (Tlsn _ m) = m"
| "link_text Mux_closed = ''connection is closed''"
| "link_text (Foreign m) = m"

fun join_with :: "bytes \<Rightarrow> bytes list \<Rightarrow> bytes" where
  "join_with sep [] = []"
| "join_with sep [x] = x"
| "join_with sep (x # y # xs) = x @ sep @ join_with sep (y # xs)"

text \<open>\<open>{e:#}\<close>\<close>

definition chain_text :: "chain \<Rightarrow> bytes" where
  "chain_text e = join_with '': '' (map link_text (links e))"

text \<open>An error, or a panic, which no handler of the module catches.\<close>

datatype fault = Failed chain | Panicked bytes

type_synonym 'a run = "fault + 'a"

text \<open>What a library returns: an error with its sources, or a panic; or a result of the repository's own crates.\<close>

datatype foreign = Raised link "link list" | Crashed bytes

definition lift_lib :: "foreign + 'a \<Rightarrow> 'a run" where
  "lift_lib r = (case r of
     Inl (Raised l ls) \<Rightarrow> Inl (Failed (Chain [] (Error l) ls)) | Inl (Crashed m) \<Rightarrow> Inl (Panicked m) | Inr x \<Rightarrow> Inr x)"

fun fault_of :: "error \<Rightarrow> fault" where
  "fault_of (Msg m) = Failed (msg m)"
| "fault_of (Context c e) = (case fault_of e of Failed f \<Rightarrow> Failed (in_context c f) | Panicked m \<Rightarrow> Panicked m)"
| "fault_of (Panic m) = Panicked m"

definition lift_res :: "'a res \<Rightarrow> 'a run" where
  "lift_res r = (case r of Inl e \<Rightarrow> Inl (fault_of e) | Inr x \<Rightarrow> Inr x)"

definition fails :: "bytes \<Rightarrow> 'a run" where
  "fails m = Inl (Failed (msg m))"

definition require :: "bool \<Rightarrow> bytes \<Rightarrow> 'a run \<Rightarrow> 'a run" where
  "require b m r = (if b then r else fails m)"

definition some_or_fail :: "bytes \<Rightarrow> 'a option \<Rightarrow> 'a run" where
  "some_or_fail m x = (case x of None \<Rightarrow> fails m | Some y \<Rightarrow> Inr y)"

subsection \<open>What a failure says about a cut\<close>

datatype failure = Final | Closure | Lossy

text \<open>How the driver of the session ended: with its socket, with tlsn's error (its text and its chain), or
  with a panic or cancellation of its task.\<close>

datatype driver_end = Driver_done | Driver_failed bytes "link list" | Driver_lost bytes

fun is_closure :: "link \<Rightarrow> bool" where
  "is_closure (Io k _) = (k \<in> {UnexpectedEof, ConnectionReset, ConnectionAborted, BrokenPipe, NotConnected, WriteZero})"
| "is_closure Mux_closed = True"
| "is_closure _ = False"

fun tlsn_of :: "link list \<Rightarrow> tlsn_kind option" where
  "tlsn_of [] = None"
| "tlsn_of (Tlsn k _ # _) = Some k"
| "tlsn_of (_ # ls) = tlsn_of ls"

definition failure_of :: "chain \<Rightarrow> failure" where
  "failure_of e =
     (let tlsn = tlsn_of (links e) in
      if (case tlsn of Some t \<Rightarrow> is_user t \<or> is_config t | None \<Rightarrow> False) then Final
      else if list_ex is_closure (links e) then Closure
      else if (case tlsn of Some t \<Rightarrow> is_internal t | None \<Rightarrow> False) then Lossy
      else Final)"

fun closure :: "driver_end \<Rightarrow> bytes option" where
  "closure Driver_done = Some ''connection closed''"
| "closure (Driver_failed m ls) = (if list_ex is_closure ls then Some m else None)"
| "closure (Driver_lost m) = None"

fun describe :: "driver_end \<Rightarrow> bytes" where
  "describe Driver_done = ''connection closed''"
| "describe (Driver_failed m ls) = m"
| "describe (Driver_lost m) = m"

definition stall :: "bytes \<Rightarrow> chain" where
  "stall reason = Chain [] (Stalled (''the notary closed the session: '' @ reason)) []"

definition driver_failure :: "driver_end \<Rightarrow> bytes" where
  "driver_failure ended = ''the session driver failed: '' @ describe ended"

definition decide :: "(chain \<times> failure) option \<Rightarrow> driver_end option \<Rightarrow> chain" where
  "decide failed ended =
     (let closed = Option.bind ended closure in
      case (ended, closed) of
        (Some d, None) \<Rightarrow>
          (case failed of Some (e, _) \<Rightarrow> in_context (driver_failure d) e | None \<Rightarrow> msg (driver_failure d))
      | _ \<Rightarrow>
          (case (failed, closed) of
             (Some (e, Final), _) \<Rightarrow> e
           | (Some (e, Closure), _) \<Rightarrow> stall (chain_text e)
           | (Some (e, Lossy), Some reason) \<Rightarrow>
               stall (reason @ '', with an ambiguous internal preprocessing failure: '' @ chain_text e)
           | (Some (e, Lossy), None) \<Rightarrow> e
           | (None, Some reason) \<Rightarrow> stall reason
           | (None, None) \<Rightarrow> msg ''preprocessing failed without an error''))"

text \<open>The driver ended first: whether preprocessing had completed then and after the grace, and the
  prover's result within the grace.\<close>

definition lost :: "driver_end \<Rightarrow> bytes" where
  "lost ended = ''the notary closed the session before notarisation completed: '' @ describe ended"

definition after_driver_end :: "driver_end \<Rightarrow> bool \<Rightarrow> 'x run option \<Rightarrow> bool \<Rightarrow> fault" where
  "after_driver_end ended pre outcome post =
     (case (pre, outcome) of
        (False, Some (Inl (Panicked m))) \<Rightarrow> Panicked m
      | _ \<Rightarrow> Failed (
          if pre then msg (lost ended)
          else if post then
            (case outcome of Some (Inl (Failed e)) \<Rightarrow> in_context (lost ended) e | _ \<Rightarrow> msg (lost ended))
          else case outcome of
            Some (Inl (Failed e)) \<Rightarrow>
              if is_stalled e then
                (case closure ended of
                   Some _ \<Rightarrow> e
                 | None \<Rightarrow> msg (driver_failure ended @ ''; the prover: '' @ chain_text e))
              else decide (Some (e, failure_of e)) (Some ended)
          | Some (Inr _) \<Rightarrow> msg ''the session ended while the prover still ran''
          | _ \<Rightarrow> decide None (Some ended)))"

subsection \<open>The race of the prover and the driver\<close>

text \<open>
  One run of the \<open>select!\<close>: which branch is ready first, the flag \<open>preprocessed\<close> then, and what comes
  within the grace: the driver's end in the one branch, the prover's result and the flag in the other.
\<close>

record 'x race =
  rc_first :: "'x run + driver_end"
  rc_preprocessed :: bool
  rc_driver_in_grace :: "driver_end option"
  rc_prover_in_grace :: "'x run option"
  rc_preprocessed_after :: bool

definition settle_race :: "'x race \<Rightarrow> 'x run" where
  "settle_race rc =
     (case rc_first rc of
        Inl (Inl (Failed e)) \<Rightarrow>
          if \<not> rc_preprocessed rc \<and> \<not> is_stalled e then
            let failure = failure_of e;
                ended = (case failure of Lossy \<Rightarrow> rc_driver_in_grace rc | Final \<Rightarrow> None | Closure \<Rightarrow> None)
            in Inl (Failed (decide (Some (e, failure)) ended))
          else Inl (Failed e)
      | Inl result \<Rightarrow> result
      | Inr ended \<Rightarrow>
          Inl (after_driver_end ended (rc_preprocessed rc) (rc_prover_in_grace rc) (rc_preprocessed_after rc)))"

subsection \<open>Retries\<close>

record notarize_stats =
  attempts :: "32 word"
  stalls :: "bytes list"

definition DEFAULT_MAX_RETRIES :: "32 word" where "DEFAULT_MAX_RETRIES = 3"

text \<open>
  The loop, over what each attempt meets: \<open>connect\<close> is given the attempt's number and the run's
  position \<open>i\<close>, the session only the latter. The counter wraps as a machine word does; a loop that
  does not end has the value \<open>None\<close>.
\<close>

partial_function (option) with_retries_from ::
    "(nat \<Rightarrow> 32 word \<Rightarrow> 's run) \<Rightarrow> (nat \<Rightarrow> 's \<Rightarrow> 'a run) \<Rightarrow> 32 word \<Rightarrow> nat \<Rightarrow> notarize_stats
      \<Rightarrow> ('a \<times> notarize_stats) run option" where
  "with_retries_from connect notarize_one max_retries i stats =
     (let stats = stats\<lparr>attempts := attempts stats + 1\<rparr> in
      case connect i (attempts stats) of
        Inl f \<Rightarrow> Some (Inl f)
      | Inr notary \<Rightarrow>
          (case notarize_one i notary of
             Inr notarized \<Rightarrow> Some (Inr (notarized, stats))
           | Inl (Panicked m) \<Rightarrow> Some (Inl (Panicked m))
           | Inl (Failed e) \<Rightarrow>
               if is_stalled e then
                 let stats = stats\<lparr>stalls := stalls stats @ [chain_text e]\<rparr> in
                 if attempts stats > max_retries
                 then Some (fails (''preprocessing stalled on all '' @ dec (unat (attempts stats)) @ '' attempts: ''
                   @ join_with ''; '' (stalls stats)))
                 else with_retries_from connect notarize_one max_retries (Suc i) stats
               else Some (Inl (Failed (in_context
                 (''notarisation failed on attempt '' @ dec (unat (attempts stats))) e)))))"

definition with_retries ::
    "(nat \<Rightarrow> 32 word \<Rightarrow> 's run) \<Rightarrow> (nat \<Rightarrow> 's \<Rightarrow> 'a run) \<Rightarrow> 32 word \<Rightarrow> ('a \<times> notarize_stats) run option" where
  "with_retries connect notarize_one max_retries =
     with_retries_from connect notarize_one max_retries 0 \<lparr>attempts = 0, stalls = []\<rparr>"

subsection \<open>When a failure may be retried\<close>

lemma is_stalled_simps [simp]:
  "\<not> is_stalled (msg m)" "is_stalled (stall m)" "is_stalled (in_context c e) \<longleftrightarrow> is_stalled e"
  "is_stalled (Chain cs (Stalled r) ls)" "\<not> is_stalled (Chain cs (Error l) ls)"
  by (simp_all add: is_stalled_def msg_def stall_def in_context_def)

definition rejected :: "chain \<Rightarrow> bool" where
  "rejected e \<longleftrightarrow> (case tlsn_of (links e) of Some t \<Rightarrow> is_user t \<or> is_config t | None \<Rightarrow> False)"

definition shows_closure :: "chain \<Rightarrow> bool" where
  "shows_closure e \<longleftrightarrow> list_ex is_closure (links e)"

lemma failure_of_cases:
  "failure_of e = Closure \<Longrightarrow> shows_closure e \<and> \<not> rejected e"
  "failure_of e = Lossy \<Longrightarrow> \<not> rejected e"
  "rejected e \<Longrightarrow> failure_of e = Final"
  by (auto simp: failure_of_def shows_closure_def rejected_def Let_def split: if_splits)

text \<open>The decision on each branch.\<close>

lemma decide_simps:
  "decide None None = msg ''preprocessing failed without an error''"
  "decide (Some (e, Final)) None = e"
  "decide (Some (e, Closure)) None = stall (chain_text e)"
  "decide (Some (e, Lossy)) None = e"
  "closure d = None \<Longrightarrow> decide None (Some d) = msg (driver_failure d)"
  "closure d = None \<Longrightarrow> decide (Some (e, f)) (Some d) = in_context (driver_failure d) e"
  "closure d = Some r \<Longrightarrow> decide None (Some d) = stall r"
  "closure d = Some r \<Longrightarrow> decide (Some (e, Final)) (Some d) = e"
  "closure d = Some r \<Longrightarrow> decide (Some (e, Closure)) (Some d) = stall (chain_text e)"
  "closure d = Some r \<Longrightarrow> decide (Some (e, Lossy)) (Some d) =
     stall (r @ '', with an ambiguous internal preprocessing failure: '' @ chain_text e)"
  by (simp_all add: decide_def Let_def)

lemma after_driver_end_simps:
  "after_driver_end d True x post = Failed (msg (lost d))"
  "after_driver_end d False (Some (Inl (Panicked m))) post = Panicked m"
  "after_driver_end d False None True = Failed (msg (lost d))"
  "after_driver_end d False (Some (Inr y)) True = Failed (msg (lost d))"
  "after_driver_end d False (Some (Inl (Failed e))) True = Failed (in_context (lost d) e)"
  "after_driver_end d False None False = Failed (decide None (Some d))"
  "after_driver_end d False (Some (Inr y)) False = Failed (msg ''the session ended while the prover still ran'')"
  "is_stalled e \<Longrightarrow> closure d = None \<Longrightarrow> after_driver_end d False (Some (Inl (Failed e))) False =
     Failed (msg (driver_failure d @ ''; the prover: '' @ chain_text e))"
  "is_stalled e \<Longrightarrow> closure d = Some r \<Longrightarrow> after_driver_end d False (Some (Inl (Failed e))) False = Failed e"
  "\<not> is_stalled e \<Longrightarrow> after_driver_end d False (Some (Inl (Failed e))) False =
     Failed (decide (Some (e, failure_of e)) (Some d))"
  by (simp_all add: after_driver_end_def)

text \<open>A stall only with a closure, seen in the failure or at the driver, never after a rejection, and never
  when the driver itself failed.\<close>

definition retry_evidence :: "chain option \<Rightarrow> driver_end option \<Rightarrow> bool" where
  "retry_evidence failed seen \<longleftrightarrow>
     (\<forall>d. seen = Some d \<longrightarrow> closure d \<noteq> None) \<and>
     (\<forall>f. failed = Some f \<longrightarrow> is_stalled f \<or> \<not> rejected f) \<and>
     (seen \<noteq> None \<or> (\<exists>f. failed = Some f \<and> (is_stalled f \<or> shows_closure f)))"

lemma decide_none_stalled: "is_stalled (decide None seen) \<Longrightarrow> retry_evidence None seen"
proof (cases seen)
  case (Some d)
  moreover assume "is_stalled (decide None seen)"
  ultimately show ?thesis by (cases "closure d") (simp_all add: decide_simps retry_evidence_def)
qed (simp add: decide_simps)

lemma decide_some_stalled:
  assumes "is_stalled (decide (Some (e, failure_of e)) seen)" and "\<not> is_stalled e"
  shows "retry_evidence (Some e) seen"
proof (cases seen)
  case None
  then have "failure_of e = Closure" using assms by (cases "failure_of e") (simp_all add: decide_simps)
  then show ?thesis using None failure_of_cases(1) by (simp add: retry_evidence_def)
next
  case (Some d)
  then obtain r where r: "closure d = Some r" using assms by (cases "closure d") (simp_all add: decide_simps)
  then have "failure_of e \<noteq> Final" using assms Some by (auto simp: decide_simps)
  then have "\<not> rejected e" using failure_of_cases(3) by blast
  then show ?thesis using Some r by (simp add: retry_evidence_def)
qed

text \<open>The prover's failure in a race, the driver's end as far as the code looks at it, and the flag when it
  decides.\<close>

definition prover_failure :: "'x race \<Rightarrow> chain option" where
  "prover_failure rc =
     (case rc_first rc of
        Inl (Inl (Failed e)) \<Rightarrow> Some e
      | Inr _ \<Rightarrow> (case rc_prover_in_grace rc of Some (Inl (Failed e)) \<Rightarrow> Some e | _ \<Rightarrow> None)
      | _ \<Rightarrow> None)"

definition driver_seen :: "'x race \<Rightarrow> driver_end option" where
  "driver_seen rc =
     (case rc_first rc of
        Inr d \<Rightarrow> Some d
      | Inl (Inl (Failed e)) \<Rightarrow> (if failure_of e = Lossy \<and> \<not> is_stalled e then rc_driver_in_grace rc else None)
      | _ \<Rightarrow> None)"

definition preprocessed_then :: "'x race \<Rightarrow> bool" where
  "preprocessed_then rc =
     (case rc_first rc of Inl _ \<Rightarrow> rc_preprocessed rc | Inr _ \<Rightarrow> rc_preprocessed rc \<or> rc_preprocessed_after rc)"

lemma after_driver_end_stalled:
  assumes "after_driver_end d pre x post = Failed e" and "is_stalled e"
    and "\<And>f. x = Some (Inl (Failed f)) \<Longrightarrow> is_stalled f \<Longrightarrow> \<not> post"
  shows "\<not> pre \<and> \<not> post \<and>
    retry_evidence (case x of Some (Inl (Failed f)) \<Rightarrow> Some f | _ \<Rightarrow> None) (Some d)"
proof -
  have pre: "\<not> pre" using assms(1,2) by (cases pre) (auto simp: after_driver_end_simps)
  consider "x = None" | y where "x = Some (Inr y)" | m where "x = Some (Inl (Panicked m))"
    | f where "x = Some (Inl (Failed f))"
    by (cases x) (auto, metis fault.exhaust sumE)
  then show ?thesis
  proof cases
    case 1
    then have "\<not> post \<and> e = decide None (Some d)"
      using assms(1,2) pre by (cases post) (auto simp: after_driver_end_simps)
    then show ?thesis using decide_none_stalled assms(2) pre 1 by simp
  next
    case (4 f)
    show ?thesis
    proof (cases "is_stalled f")
      case True
      with assms(3) 4 have post: "\<not> post" by blast
      then have "closure d \<noteq> None"
        using assms(1,2) pre 4 True by (cases "closure d") (auto simp: after_driver_end_simps)
      then show ?thesis using True pre post 4 by (simp add: retry_evidence_def)
    next
      case False
      then have "\<not> post \<and> e = decide (Some (f, failure_of f)) (Some d)"
        using assms(1,2) pre 4 by (cases post) (auto simp: after_driver_end_simps)
      then show ?thesis using decide_some_stalled [of f "Some d"] assms(2) False pre 4 by simp
    qed
  qed (use assms(1,2) pre in \<open>cases post; auto simp: after_driver_end_simps\<close>)+
qed

lemma settle_race_stalled:
  assumes "settle_race rc = Inl (Failed e)" and "is_stalled e"
    and "\<And>f. prover_failure rc = Some f \<Longrightarrow> is_stalled f \<Longrightarrow> \<not> preprocessed_then rc"
  shows "\<not> preprocessed_then rc \<and> retry_evidence (prover_failure rc) (driver_seen rc)"
proof (cases "rc_first rc")
  case (Inl result)
  obtain f where r: "result = Inl (Failed f)" using assms(1) Inl
    by (auto simp: settle_race_def split: sum.splits fault.splits)
  note facts = Inl r prover_failure_def driver_seen_def preprocessed_then_def
  show ?thesis
  proof (cases "is_stalled f")
    case True
    then show ?thesis using assms(3) [of f] by (simp add: facts retry_evidence_def)
  next
    case False
    then have pre: "\<not> rc_preprocessed rc" using assms(1,2) by (auto simp: settle_race_def facts split: if_splits)
    let ?seen = "if failure_of f = Lossy then rc_driver_in_grace rc else None"
    have "e = decide (Some (f, failure_of f)) ?seen"
      using assms(1) False pre by (simp add: settle_race_def facts Let_def split: failure.splits)
    with decide_some_stalled [of f ?seen] assms(2) False pre show ?thesis by (simp add: facts)
  qed
next
  case (Inr d)
  then have "after_driver_end d (rc_preprocessed rc) (rc_prover_in_grace rc) (rc_preprocessed_after rc) = Failed e"
    using assms(1) by (simp add: settle_race_def)
  from after_driver_end_stalled [OF this assms(2)] assms(3) Inr show ?thesis
    by (simp add: prover_failure_def driver_seen_def preprocessed_then_def)
qed

subsection \<open>The retry loop\<close>

definition attempt ::
    "(nat \<Rightarrow> 32 word \<Rightarrow> 's run) \<Rightarrow> (nat \<Rightarrow> 's \<Rightarrow> 'a run) \<Rightarrow> nat \<Rightarrow> 'a run" where
  "attempt connect notarize_one i = and_then (connect i (of_nat (Suc i))) (notarize_one i)"

text \<open>The stall of an attempt, which only the session can give.\<close>

definition stall_of ::
    "(nat \<Rightarrow> 32 word \<Rightarrow> 's run) \<Rightarrow> (nat \<Rightarrow> 's \<Rightarrow> 'a run) \<Rightarrow> nat \<Rightarrow> chain option" where
  "stall_of connect notarize_one i =
     (case connect i (of_nat (Suc i)) of
        Inr s \<Rightarrow> (case notarize_one i s of Inl (Failed e) \<Rightarrow> (if is_stalled e then Some e else None) | _ \<Rightarrow> None)
      | Inl _ \<Rightarrow> None)"

lemma stall_of_Some:
  "stall_of c n i = Some e \<longleftrightarrow> (\<exists>s. c i (of_nat (Suc i)) = Inr s \<and> n i s = Inl (Failed e) \<and> is_stalled e)"
  by (auto simp: stall_of_def simp del: of_nat_Suc split: sum.splits fault.splits if_splits)

definition stall_texts ::
    "(nat \<Rightarrow> 32 word \<Rightarrow> 's run) \<Rightarrow> (nat \<Rightarrow> 's \<Rightarrow> 'a run) \<Rightarrow> nat \<Rightarrow> bytes list" where
  "stall_texts connect notarize_one k = map (\<lambda>i. chain_text (the (stall_of connect notarize_one i))) [0..<k]"

definition stats_after ::
    "(nat \<Rightarrow> 32 word \<Rightarrow> 's run) \<Rightarrow> (nat \<Rightarrow> 's \<Rightarrow> 'a run) \<Rightarrow> nat \<Rightarrow> notarize_stats" where
  "stats_after connect notarize_one k = \<lparr>attempts = of_nat k, stalls = stall_texts connect notarize_one k\<rparr>"

text \<open>What the loop returns at an attempt that does not stall.\<close>

definition last_attempt ::
    "(nat \<Rightarrow> 32 word \<Rightarrow> 's run) \<Rightarrow> (nat \<Rightarrow> 's \<Rightarrow> 'a run) \<Rightarrow> nat \<Rightarrow> ('a \<times> notarize_stats) run" where
  "last_attempt connect notarize_one k =
     (case connect k (of_nat (Suc k)) of
        Inl f \<Rightarrow> Inl f
      | Inr s \<Rightarrow>
          (case notarize_one k s of
             Inr x \<Rightarrow> Inr (x, \<lparr>attempts = of_nat (Suc k), stalls = stall_texts connect notarize_one k\<rparr>)
           | Inl (Panicked m) \<Rightarrow> Inl (Panicked m)
           | Inl (Failed e) \<Rightarrow> Inl (Failed (in_context
               (''notarisation failed on attempt '' @ dec (unat (of_nat (Suc k) :: 32 word))) e))))"

lemma retries_step:
  "with_retries_from c n m i (stats_after c n i) =
     (if stall_of c n i = None then Some (last_attempt c n i)
      else if m < of_nat (Suc i) then Some (fails (''preprocessing stalled on all '' @
        dec (unat (of_nat (Suc i) :: 32 word)) @ '' attempts: '' @ join_with ''; '' (stall_texts c n (Suc i))))
      else with_retries_from c n m (Suc i) (stats_after c n (Suc i)))"
  by (subst with_retries_from.simps)
    (auto simp: Let_def stats_after_def stall_texts_def stall_of_def last_attempt_def add.commute
      split: sum.splits fault.splits)

definition all_stalled ::
    "(nat \<Rightarrow> 32 word \<Rightarrow> 's run) \<Rightarrow> (nat \<Rightarrow> 's \<Rightarrow> 'a run) \<Rightarrow> nat \<Rightarrow> 'b run" where
  "all_stalled connect notarize_one k =
     fails (''preprocessing stalled on all '' @ dec (Suc k) @ '' attempts: '' @
       join_with ''; '' (stall_texts connect notarize_one (Suc k)))"

lemma word32_not_top:
  assumes "(m :: 32 word) \<noteq> - 1"
  shows "unat m < 2 ^ 32 - 1"
proof -
  have "unat (- 1 :: 32 word) = 2 ^ 32 - 1"
    by (simp add: unsigned_minus_1_eq_mask mask_eq_exp_minus_1)
  then have "unat m \<noteq> 2 ^ 32 - 1" using assms by (metis word_unat_eq_iff)
  moreover have "unat m < 2 ^ 32" using unsigned_less [of m, where 'a = nat] by simp
  ultimately show ?thesis by simp
qed

lemma retries_end:
  assumes "m \<noteq> - 1" and "i \<le> unat m" and "\<forall>j < i. stall_of c n j \<noteq> None"
  shows "\<exists>k \<le> unat m. (\<forall>j < k. stall_of c n j \<noteq> None) \<and>
    (if stall_of c n k = None then with_retries_from c n m i (stats_after c n i) = Some (last_attempt c n k)
     else k = unat m \<and> with_retries_from c n m i (stats_after c n i) = Some (all_stalled c n k))"
  using assms(2,3)
proof (induction "unat m - i" arbitrary: i rule: less_induct)
  case less
  have suc: "unat (of_nat (Suc i) :: 32 word) = Suc i"
    using word32_not_top [OF assms(1)] less.prems(1) by (simp only: unat_of_nat) (simp add: take_bit_eq_mod)
  then have lt: "m < of_nat (Suc i) \<longleftrightarrow> i = unat m"
    using less.prems(1) unfolding word_less_nat_alt by linarith
  have step: "with_retries_from c n m i (stats_after c n i) =
      (if stall_of c n i = None then Some (last_attempt c n i)
       else if i = unat m then Some (all_stalled c n i)
       else with_retries_from c n m (Suc i) (stats_after c n (Suc i)))"
    using retries_step [of c n m i] unfolding lt suc all_stalled_def .
  show ?case
  proof (cases "stall_of c n i = None \<or> i = unat m")
    case True
    then show ?thesis using less.prems lt by (intro exI [of _ i]) (auto simp: step)
  next
    case False
    then have eq: "with_retries_from c n m i (stats_after c n i) = with_retries_from c n m (Suc i) (stats_after c n (Suc i))"
      by (auto simp: step)
    have "unat m - Suc i < unat m - i" "Suc i \<le> unat m" "\<forall>j < Suc i. stall_of c n j \<noteq> None"
      using False less.prems by (auto simp: less_Suc_eq)
    from less.hyps [OF this] show ?thesis unfolding eq .
  qed
qed

lemma retries_for_ever:
  assumes "\<forall>i. stall_of c n i \<noteq> None"
  shows "with_retries_from c n (- 1) i (stats_after c n i) = None"
proof -
  have "\<not> (c' = c \<and> n' = n \<and> m = - 1 \<and> (\<exists>k. s = stats_after c n k \<and> j = k))"
    if "with_retries_from c' n' m j s = Some y" for c' n' m j s y
  proof (induction c' n' m j s y rule: with_retries_from.raw_induct)
    case (1 f c' n' m j s y)
    show ?case
    proof
      assume eqs: "c' = c \<and> n' = n \<and> m = - 1 \<and> (\<exists>k. s = stats_after c n k \<and> j = k)"
      from assms obtain e where "stall_of c n j = Some e" by blast
      then obtain sock where e: "c j (of_nat (Suc j)) = Inr sock" "n j sock = Inl (Failed e)" "is_stalled e"
        unfolding stall_of_Some by blast
      have s: "s = \<lparr>attempts = of_nat j, stalls = stall_texts c n j\<rparr>" and eq: "c' = c" "n' = n" "m = - 1"
        using eqs by (auto simp: stats_after_def)
      have then_stats: "stats_after c n (Suc j) =
          \<lparr>attempts = of_nat j + 1, stalls = stall_texts c n j @ [chain_text e]\<rparr>"
        using e by (simp add: stats_after_def stall_texts_def stall_of_def)
      have "\<not> (- 1 :: 32 word) < of_nat j + 1" by (rule word_order.extremum_strict)
      then have "f c n (- 1) (Suc j) (stats_after c n (Suc j)) = Some y"
        using 1(2) e unfolding eq s then_stats by (simp add: Let_def add.commute)
      then show False using 1(1) by blast
    qed
  qed (rule that)
  then show ?thesis by (cases "with_retries_from c n (- 1) i (stats_after c n i)") blast+
qed

text \<open>C23: The retry loop against its specification: unless \<open>max_retries\<close> is the largest \<open>u32\<close>, it returns after
  at most \<open>max_retries + 1\<close> attempts; it goes past an attempt only if that attempt stalled, returns the
  result of the first attempt that did not with the texts of the stalls before it, and gives up exactly
  when all \<open>max_retries + 1\<close> attempts stalled. With the largest \<open>u32\<close> a prover that always stalls is
  retried for ever: the counter wraps.\<close>

theorem with_retries_returns:
  shows "(case max_retries = - 1 of
      False \<Rightarrow> \<exists>k \<le> unat max_retries. (\<forall>j < k. stall_of connect notarize_one j \<noteq> None) \<and>
        with_retries connect notarize_one max_retries =
          Some (if stall_of connect notarize_one k = None then last_attempt connect notarize_one k
            else all_stalled connect notarize_one k) \<and>
        (if stall_of connect notarize_one k = None then True else k = unat max_retries)
    | True \<Rightarrow> if \<forall>i. stall_of connect notarize_one i \<noteq> None
        then with_retries connect notarize_one max_retries = None else True)"
proof -
  have start: "with_retries connect notarize_one m = with_retries_from connect notarize_one m 0
      (stats_after connect notarize_one 0)" for m
    by (simp add: with_retries_def stats_after_def stall_texts_def)
  show ?thesis
  proof (cases "max_retries = - 1")
    case True
    then show ?thesis using retries_for_ever [of connect notarize_one 0] by (simp add: start)
  next
    case False
    from retries_end [OF this, of 0 connect notarize_one] obtain k where k: "k \<le> unat max_retries"
      "\<forall>j < k. stall_of connect notarize_one j \<noteq> None"
      "if stall_of connect notarize_one k = None
       then with_retries_from connect notarize_one max_retries 0 (stats_after connect notarize_one 0) =
         Some (last_attempt connect notarize_one k)
       else k = unat max_retries \<and>
         with_retries_from connect notarize_one max_retries 0 (stats_after connect notarize_one 0) =
           Some (all_stalled connect notarize_one k)"
      by auto
    then show ?thesis using False unfolding start by (auto split: if_splits)
  qed
qed

text \<open>Two stalls, then a session that succeeds.\<close>

definition flaky_session :: "nat \<Rightarrow> unit \<Rightarrow> nat run" where
  "flaky_session i _ = (if i < 2 then Inl (Failed (stall ''connection closed'')) else Inr 7)"

lemma with_retries_returns_witness:
  "with_retries (\<lambda>_ _. Inr ()) flaky_session 3 =
     Some (Inr (7, \<lparr>attempts = 3, stalls = replicate 2
       ''MPC-TLS preprocessing stalled: the notary closed the session: connection closed''\<rparr>))"
proof -
  let ?c = "\<lambda>_ _. Inr () :: unit run"
  have stalls: "stall_of ?c flaky_session j = (if j < 2 then Some (stall ''connection closed'') else None)" for j
    by (simp add: stall_of_def flaky_session_def)
  have "\<exists>k. (\<forall>j < k. j < 2) \<and> (k < 2 \<longrightarrow> k = 3) \<and>
      with_retries ?c flaky_session 3 =
        Some (if stall_of ?c flaky_session k = None then last_attempt ?c flaky_session k else all_stalled ?c flaky_session k)"
    using with_retries_returns [where max_retries = 3 and connect = ?c and notarize_one = flaky_session] by (auto simp: stalls split: if_splits)
  then obtain k where k: "\<forall>j < k. j < 2" "k < 2 \<longrightarrow> k = 3"
    "with_retries ?c flaky_session 3 =
      Some (if stall_of ?c flaky_session k = None then last_attempt ?c flaky_session k else all_stalled ?c flaky_session k)"
    by blast
  have "k \<le> 2" using k(1) by (metis not_less_iff_gr_or_eq not_le)
  with k(2) have "k = 2" by simp
  then show ?thesis using k(3) stalls
    by (simp add: last_attempt_def flaky_session_def stall_texts_def numeral_2_eq_2 chain_text_def links_def stall_def)
qed

end
