(* ===== verification/Prover_Session.thy ===== *)
theory Prover_Session
  imports Presentation Session_Errors "HOL-Library.Sublist"
begin

section \<open>The prover's half of a session\<close>

text \<open>
  Model of \<open>pprev-prover/src/session.rs\<close> without its failure handling: the set-up, the run of the MPC-TLS
  session with its checks and the ranges it commits to, the openings of the commitments, the whole
  notarisation around it, and what a presentation reveals. What the tlsn library, hyper and the sockets
  do is the record \<open>prover_ops\<close>; the response is read by hyper, the transcript by the code.
\<close>

subsection \<open>Set-up and results\<close>

definition PROVER_PREPROCESS_TIMEOUT :: nat where "PROVER_PREPROCESS_TIMEOUT = 30"

record prover_setup =
  ps_layout :: layout
  ps_registry_addr :: bytes
  ps_root_certs :: "bytes list"
  ps_token :: bytes
  ps_property_id :: bytes
  ps_max_sent :: nat
  ps_max_recv :: nat
  ps_preprocess_timeout :: nat

record shape_setup =
  su_shape :: response_shape
  su_registry_addr :: bytes
  su_root_certs :: "bytes list"
  su_token :: bytes
  su_max_sent :: nat
  su_max_recv :: nat
  su_preprocess_timeout :: nat
  su_eth_attestation :: bool

definition shape_setup_of :: "prover_setup \<Rightarrow> shape_setup res" where
  "shape_setup_of setup =
     and_then (shape (ps_layout setup) (ps_property_id setup)) (\<lambda>s.
     Inr \<lparr>su_shape = s, su_registry_addr = ps_registry_addr setup, su_root_certs = ps_root_certs setup,
          su_token = ps_token setup, su_max_sent = ps_max_sent setup, su_max_recv = ps_max_recv setup,
          su_preprocess_timeout = ps_preprocess_timeout setup, su_eth_attestation = False\<rparr>)"

record field_opening =
  fo_range :: range
  fo_plaintext :: bytes
  fo_blinder :: bytes

record hidden_openings =
  ho_account :: field_opening
  ho_owners :: field_opening
  ho_property_id :: field_opening

record committed_opening =
  co_plaintext :: bytes
  co_blinder :: bytes

record ('att, 'sec) notarized =
  nz_attestation :: 'att
  nz_secrets :: 'sec
  nz_openings :: hidden_openings
  nz_request_line_len :: nat
  nz_ranges :: response_ranges

record ('att, 'sec) notarized_shape =
  ns_attestation :: 'att
  ns_secrets :: 'sec
  ns_openings :: "field_opening list"
  ns_shape :: response_shape
  ns_request :: committed_opening
  ns_structure :: committed_opening

subsection \<open>What the libraries do\<close>

record 'rs hash_secret =
  hs_direction :: direction
  hs_idx :: 'rs
  hs_blinder :: bytes

datatype 'rs transcript_secret = Hash_secret "'rs hash_secret" | Other_secret

record prover_transcript =
  pt_sent :: bytes
  pt_received :: bytes

text \<open>The \<open>select!\<close> of the HTTP exchange and the prover's task: the response's status and the reading of
  its body, or the task's end.\<close>

datatype exchange =
    Answered "foreign + nat" "foreign + unit"
  | Prover_closed
  | Prover_failed link "link list"
  | Prover_lost link

text \<open>What a commitment configuration commits to, and what a presentation reveals.\<close>

type_synonym 'rs indexed = "direction \<times> 'rs"

record ('pv, 'http, 'rs, 'tc, 'areq, 'sec, 'att, 'tp, 'pres) prover_ops =
  po_new_prover :: "nat \<Rightarrow> nat \<Rightarrow> foreign + 'pv"
  po_preprocess :: "'pv \<Rightarrow> foreign + 'pv"
  po_preprocess_time :: "nat option"
  po_server_name :: "bytes \<Rightarrow> foreign + unit"
  po_tcp :: "bytes \<Rightarrow> foreign + unit"
  po_connect :: "'pv \<Rightarrow> bytes \<Rightarrow> bytes list \<Rightarrow> foreign + 'pv"
  po_http_request :: "bytes \<Rightarrow> bytes \<Rightarrow> (bytes \<times> bytes) list \<Rightarrow> foreign + 'http"
  po_exchange :: "'pv \<Rightarrow> 'http \<Rightarrow> exchange"
  po_finished :: "'pv \<Rightarrow> foreign + 'pv"
  po_transcript :: "'pv \<Rightarrow> prover_transcript"
  po_range_set :: "range list \<Rightarrow> 'rs"
  po_values :: "'rs \<Rightarrow> nat list"
  po_commit :: "direction \<Rightarrow> 'rs \<Rightarrow> foreign + unit"
  po_configs :: "'rs indexed list \<Rightarrow> bool \<Rightarrow> foreign + unit"
  po_prove :: "'pv \<Rightarrow> 'rs indexed list \<Rightarrow> foreign + 'tc \<times> 'rs transcript_secret list \<times> 'pv"
  po_close :: "'pv \<Rightarrow> foreign + unit"
  po_cert_chain :: "'pv \<Rightarrow> bytes list option"
  po_signature :: "'pv \<Rightarrow> bytes option"
  po_build_request :: "bytes \<Rightarrow> bytes list \<Rightarrow> bytes \<Rightarrow> prover_transcript \<Rightarrow> 'rs transcript_secret list \<Rightarrow> 'tc \<Rightarrow> bool
    \<Rightarrow> foreign + 'areq \<times> 'sec"
  po_driver_join :: "foreign + unit"
  po_send_request :: "'areq \<Rightarrow> foreign + unit"
  po_read_attestation :: "foreign + 'att"
  po_validate :: "'areq \<Rightarrow> 'att \<Rightarrow> foreign + unit"
  po_reveal :: "'sec \<Rightarrow> direction \<Rightarrow> 'rs \<Rightarrow> foreign + unit"
  po_transcript_proof :: "'sec \<Rightarrow> 'rs indexed list \<Rightarrow> foreign + 'tp"
  po_present :: "'att \<Rightarrow> 'sec \<Rightarrow> 'tp \<Rightarrow> foreign + 'pres"

subsection \<open>Openings\<close>

text \<open>The blinder of the first secret for these indices whose blinder has 16 bytes.\<close>

fun find_blinder :: "direction \<Rightarrow> 'rs \<Rightarrow> 'rs transcript_secret list \<Rightarrow> bytes option" where
  "find_blinder d idx [] = None"
| "find_blinder d idx (Hash_secret h # rest) =
     (if hs_direction h = d \<and> hs_idx h = idx \<and> length (hs_blinder h) = 16 then Some (hs_blinder h)
      else find_blinder d idx rest)"
| "find_blinder d idx (Other_secret # rest) = find_blinder d idx rest"

definition committed_opening_of ::
    "('pv, 'http, 'rs, 'tc, 'areq, 'sec, 'att, 'tp, 'pres) prover_ops \<Rightarrow> prover_transcript
      \<Rightarrow> 'rs transcript_secret list \<Rightarrow> direction \<Rightarrow> 'rs \<Rightarrow> committed_opening run" where
  "committed_opening_of ops transcript secrets d idx =
     and_then (some_or_fail ''no hash commitment secret'' (find_blinder d idx secrets)) (\<lambda>blinder.
     let dat = (case d of Sent \<Rightarrow> pt_sent transcript | Received \<Rightarrow> pt_received transcript) in
     and_then (lift_res (collect_res (index_at dat) (po_values ops idx))) (\<lambda>plaintext.
     Inr \<lparr>co_plaintext = plaintext, co_blinder = blinder\<rparr>))"

definition field_opening_of ::
    "('pv, 'http, 'rs, 'tc, 'areq, 'sec, 'att, 'tp, 'pres) prover_ops \<Rightarrow> prover_transcript
      \<Rightarrow> 'rs transcript_secret list \<Rightarrow> range \<Rightarrow> field_opening run" where
  "field_opening_of ops transcript secrets r =
     and_then (some_or_fail ''no hash commitment secret'' (find_blinder Received (po_range_set ops [r]) secrets)) (\<lambda>blinder.
     and_then (lift_res (index_range (pt_received transcript) r)) (\<lambda>plaintext.
     Inr \<lparr>fo_range = r, fo_plaintext = plaintext, fo_blinder = blinder\<rparr>))"

subsection \<open>The MPC-TLS session\<close>

definition exchange_result :: "exchange \<Rightarrow> unit run" where
  "exchange_result x =
     (case x of
        Answered response body \<Rightarrow>
          and_then (lift_lib response) (\<lambda>status.
          require (status = 200) (''registry answered '' @ dec status) (lift_lib body))
      | Prover_closed \<Rightarrow> fails ''MPC-TLS connection closed before the response''
      | Prover_failed l ls \<Rightarrow> Inl (Failed (in_context ''MPC-TLS session failed'' (Chain [] (Error l) ls)))
      | Prover_lost l \<Rightarrow> Inl (Failed (in_context ''prover task failed'' (Chain [] (Error l) []))))"

definition preprocess ::
    "('pv, 'http, 'rs, 'tc, 'areq, 'sec, 'att, 'tp, 'pres) prover_ops \<Rightarrow> shape_setup \<Rightarrow> 'pv run" where
  "preprocess ops setup =
     and_then (lift_lib (po_new_prover ops (su_max_sent setup) (su_max_recv setup))) (\<lambda>pv.
     case timeout (su_preprocess_timeout setup) (po_preprocess_time ops) (po_preprocess ops pv) of
       Elapsed \<Rightarrow> Inl (Failed (Chain [] (Stalled (''did not finish within '' @ dec (su_preprocess_timeout setup))) []))
     | In_time result \<Rightarrow> lift_lib result)"

text \<open>The ranges that the code commits to, in its order.\<close>

definition commits ::
    "('pv, 'http, 'rs, 'tc, 'areq, 'sec, 'att, 'tp, 'pres) prover_ops \<Rightarrow> response_shape \<Rightarrow> 'rs indexed list" where
  "commits ops sh =
     (Sent, po_range_set ops [Range 0 (length (shape_request_line sh))])
     # (Received, po_range_set ops (shape_revealed sh))
     # map (\<lambda>r. (Received, po_range_set ops [r])) (shape_hidden sh)"

definition check_exchange :: "prover_transcript \<Rightarrow> response_shape \<Rightarrow> unit run" where
  "check_exchange transcript sh =
     require (prefix (shape_request_line sh @ crlf) (pt_sent transcript)) ''request does not start with the request line'' (
     require (length (pt_received transcript) = shape_len sh) ''response length differs from the layout'' (
     Inr ()))"

definition after_preprocessing ::
    "('pv, 'http, 'rs, 'tc, 'areq, 'sec, 'att, 'tp, 'pres) prover_ops \<Rightarrow> shape_setup \<Rightarrow> 'pv
      \<Rightarrow> ('areq \<times> 'sec \<times> field_opening list \<times> committed_opening \<times> committed_opening) run" where
  "after_preprocessing ops setup pv =
     (let sh = su_shape setup; request_line = shape_request_line sh in
      and_then (lift_lib (po_server_name ops (shape_server_name sh))) (\<lambda>_.
      and_then (lift_lib (po_tcp ops (su_registry_addr setup))) (\<lambda>_.
      and_then (lift_lib (po_connect ops pv (shape_server_name sh) (su_root_certs setup))) (\<lambda>pv.
      and_then (lift_lib (po_http_request ops ''GET'' (shape_path sh)
        [(''Host'', shape_server_name sh), (''Authorization'', ''Bearer '' @ su_token setup), (''Connection'', ''close'')])) (\<lambda>request.
      and_then (exchange_result (po_exchange ops pv request)) (\<lambda>_.
      and_then (lift_lib (po_finished ops pv)) (\<lambda>pv.
      and_then (check_exchange (po_transcript ops pv) sh) (\<lambda>_.
      and_then (for_each_res (\<lambda>(d, idx). lift_lib (po_commit ops d idx)) (commits ops sh)) (\<lambda>_.
      and_then (lift_lib (po_configs ops (commits ops sh) (su_eth_attestation setup))) (\<lambda>_.
      and_then (lift_lib (po_prove ops pv (commits ops sh))) (\<lambda>(commitments, secrets, pv).
      let transcript = po_transcript ops pv in
      and_then (lift_lib (po_close ops pv)) (\<lambda>_.
      and_then (collect_res (field_opening_of ops transcript secrets) (shape_hidden sh)) (\<lambda>openings.
      and_then (committed_opening_of ops transcript secrets Sent (po_range_set ops [Range 0 (length request_line)])) (\<lambda>request_opening.
      and_then (committed_opening_of ops transcript secrets Received (po_range_set ops (shape_revealed sh))) (\<lambda>structure.
      and_then (some_or_fail ''no server certificate chain'' (po_cert_chain ops pv)) (\<lambda>certs.
      and_then (some_or_fail ''no server signature'' (po_signature ops pv)) (\<lambda>sig.
      and_then (lift_lib (po_build_request ops (shape_server_name sh) certs sig transcript secrets commitments
        (su_eth_attestation setup))) (\<lambda>(request, sec).
      Inr (request, sec, openings, request_opening, structure)))))))))))))))))))"

text \<open>The result, and the flag \<open>preprocessed\<close> at the end.\<close>

definition run_mpc ::
    "('pv, 'http, 'rs, 'tc, 'areq, 'sec, 'att, 'tp, 'pres) prover_ops \<Rightarrow> shape_setup
      \<Rightarrow> ('areq \<times> 'sec \<times> field_opening list \<times> committed_opening \<times> committed_opening) run \<times> bool" where
  "run_mpc ops setup =
     (case preprocess ops setup of
        Inl f \<Rightarrow> (Inl f, False)
      | Inr pv \<Rightarrow> (after_preprocessing ops setup pv, True))"

subsection \<open>The notarisation\<close>

text \<open>After the race: the driver is joined, and the attestation request is exchanged over its socket.\<close>

definition notarize_shape ::
    "('pv, 'http, 'rs, 'tc, 'areq, 'sec, 'att, 'tp, 'pres) prover_ops \<Rightarrow> shape_setup
      \<Rightarrow> ('areq \<times> 'sec \<times> field_opening list \<times> committed_opening \<times> committed_opening) race
      \<Rightarrow> ('att, 'sec) notarized_shape run" where
  "notarize_shape ops setup rc =
     and_then (settle_race rc) (\<lambda>(request, sec, openings, request_opening, structure_opening).
     and_then (lift_lib (po_driver_join ops)) (\<lambda>_.
     and_then (lift_lib (po_send_request ops request)) (\<lambda>_.
     and_then (lift_lib (po_read_attestation ops)) (\<lambda>attestation.
     and_then (lift_lib (po_validate ops request attestation)) (\<lambda>_.
     Inr \<lparr>ns_attestation = attestation, ns_secrets = sec, ns_openings = openings, ns_shape = su_shape setup,
          ns_request = request_opening, ns_structure = structure_opening\<rparr>)))))"

definition prover_notarize ::
    "('pv, 'http, 'rs, 'tc, 'areq, 'sec, 'att, 'tp, 'pres) prover_ops \<Rightarrow> prover_setup
      \<Rightarrow> ('areq \<times> 'sec \<times> field_opening list \<times> committed_opening \<times> committed_opening) race
      \<Rightarrow> ('att, 'sec) notarized run" where
  "prover_notarize ops setup rc =
     and_then (lift_res (layout_ranges (ps_layout setup))) (\<lambda>ranges.
     and_then (lift_res (shape_setup_of setup)) (\<lambda>su.
     and_then (notarize_shape ops su rc) (\<lambda>ns.
     case ns_openings ns of
       [a, b, c] \<Rightarrow>
         Inr \<lparr>nz_attestation = ns_attestation ns, nz_secrets = ns_secrets ns,
              nz_openings = \<lparr>ho_account = a, ho_owners = b, ho_property_id = c\<rparr>,
              nz_request_line_len = length (shape_request_line (ns_shape ns)), nz_ranges = ranges\<rparr>
     | _ \<Rightarrow> fails ''the title layout has three hidden fields'')))"

text \<open>Which races a run of the session can be: the prover's result and the flag are the run's own, and the
  flag is never reset.\<close>

definition race_of ::
    "('pv, 'http, 'rs, 'tc, 'areq, 'sec, 'att, 'tp, 'pres) prover_ops \<Rightarrow> shape_setup
      \<Rightarrow> ('areq \<times> 'sec \<times> field_opening list \<times> committed_opening \<times> committed_opening) race \<Rightarrow> bool" where
  "race_of ops setup rc \<longleftrightarrow>
     (case rc_first rc of
        Inl result \<Rightarrow> (result, rc_preprocessed rc) = run_mpc ops setup
      | Inr _ \<Rightarrow> (rc_preprocessed rc \<longrightarrow> rc_preprocessed_after rc) \<and>
          (case rc_prover_in_grace rc of
             Some result \<Rightarrow> (result, rc_preprocessed_after rc) = run_mpc ops setup
           | None \<Rightarrow> True))"

subsection \<open>Retries and presentations\<close>

definition notarize_with_retries ::
    "(nat \<Rightarrow> 32 word \<Rightarrow> ('pv, 'http, 'rs, 'tc, 'areq, 'sec, 'att, 'tp, 'pres) prover_ops run)
      \<Rightarrow> (nat \<Rightarrow> ('areq \<times> 'sec \<times> field_opening list \<times> committed_opening \<times> committed_opening) race)
      \<Rightarrow> prover_setup \<Rightarrow> 32 word \<Rightarrow> (('att, 'sec) notarized \<times> notarize_stats) run option" where
  "notarize_with_retries connect races setup max_retries =
     with_retries connect (\<lambda>i ops. prover_notarize ops setup (races i)) max_retries"

definition notarize_shape_with_retries ::
    "(nat \<Rightarrow> 32 word \<Rightarrow> ('pv, 'http, 'rs, 'tc, 'areq, 'sec, 'att, 'tp, 'pres) prover_ops run)
      \<Rightarrow> (nat \<Rightarrow> ('areq \<times> 'sec \<times> field_opening list \<times> committed_opening \<times> committed_opening) race)
      \<Rightarrow> shape_setup \<Rightarrow> 32 word \<Rightarrow> (('att, 'sec) notarized_shape \<times> notarize_stats) run option" where
  "notarize_shape_with_retries connect races setup max_retries =
     with_retries connect (\<lambda>i ops. notarize_shape ops setup (races i)) max_retries"

definition reveals ::
    "('pv, 'http, 'rs, 'tc, 'areq, 'sec, 'att, 'tp, 'pres) prover_ops \<Rightarrow> nat \<Rightarrow> range list \<Rightarrow> range list option
      \<Rightarrow> 'rs indexed list" where
  "reveals ops request_line_len revealed_ranges hidden_ranges =
     (Sent, po_range_set ops [Range 0 request_line_len])
     # (Received, po_range_set ops revealed_ranges)
     # map (\<lambda>r. (Received, po_range_set ops [r])) (case hidden_ranges of Some rs \<Rightarrow> rs | None \<Rightarrow> [])"

definition build_presentation ::
    "('pv, 'http, 'rs, 'tc, 'areq, 'sec, 'att, 'tp, 'pres) prover_ops \<Rightarrow> 'att \<Rightarrow> 'sec \<Rightarrow> nat \<Rightarrow> range list
      \<Rightarrow> range list option \<Rightarrow> 'pres run" where
  "build_presentation ops attestation sec request_line_len revealed_ranges hidden_ranges =
     (let idx = reveals ops request_line_len revealed_ranges hidden_ranges in
      and_then (for_each_res (\<lambda>(d, i). lift_lib (po_reveal ops sec d i)) idx) (\<lambda>_.
      and_then (lift_lib (po_transcript_proof ops sec idx)) (\<lambda>transcript_proof.
      lift_lib (po_present ops attestation sec transcript_proof))))"

definition present ::
    "('pv, 'http, 'rs, 'tc, 'areq, 'sec, 'att, 'tp, 'pres) prover_ops \<Rightarrow> ('att, 'sec) notarized \<Rightarrow> bool \<Rightarrow> 'pres run" where
  "present ops nz reveal_hidden =
     build_presentation ops (nz_attestation nz) (nz_secrets nz) (nz_request_line_len nz) (revealed (nz_ranges nz))
       (if reveal_hidden then Some (hidden (nz_ranges nz)) else None)"

definition present_shape ::
    "('pv, 'http, 'rs, 'tc, 'areq, 'sec, 'att, 'tp, 'pres) prover_ops \<Rightarrow> ('att, 'sec) notarized_shape \<Rightarrow> bool
      \<Rightarrow> 'pres run" where
  "present_shape ops ns reveal_hidden =
     build_presentation ops (ns_attestation ns) (ns_secrets ns) (length (shape_request_line (ns_shape ns)))
       (shape_revealed (ns_shape ns)) (if reveal_hidden then Some (shape_hidden (ns_shape ns)) else None)"

subsection \<open>Only this module's own stall is retried\<close>

lemma require_Inl [simp]: "require b m r = Inl f \<longleftrightarrow> (\<not> b \<and> f = Failed (msg m)) \<or> (b \<and> r = Inl f)"
  by (auto simp: require_def fails_def)

lemma require_Inr [simp]: "require b m r = Inr x \<longleftrightarrow> b \<and> r = Inr x"
  by (simp add: require_def fails_def)

definition unstalled :: "'a run \<Rightarrow> bool" where
  "unstalled r = (case r of Inl (Failed e) \<Rightarrow> \<not> is_stalled e | _ \<Rightarrow> True)"

lemma unstalled_failed: "unstalled r \<Longrightarrow> r = Inl (Failed e) \<Longrightarrow> \<not> is_stalled e"
  by (simp add: unstalled_def)

named_theorems unstalled_rules \<open>what cannot fail with a stall\<close>

lemma unstalled_Inr [unstalled_rules]: "unstalled (Inr x)"
  by (simp add: unstalled_def)

lemma unstalled_and_then [unstalled_rules]:
  "unstalled r \<Longrightarrow> (\<And>x. r = Inr x \<Longrightarrow> unstalled (f x)) \<Longrightarrow> unstalled (and_then r f)"
  by (cases r) (auto simp: unstalled_def)

lemma unstalled_lift_lib [unstalled_rules]: "unstalled (lift_lib r)"
  by (auto simp: unstalled_def lift_lib_def split: sum.splits foreign.splits)

lemma fault_of_unstalled: "fault_of e = Failed f \<Longrightarrow> \<not> is_stalled f"
  by (induction e arbitrary: f) (auto split: fault.splits)

lemma unstalled_lift_res [unstalled_rules]: "unstalled (lift_res r)"
  using fault_of_unstalled by (auto simp: unstalled_def lift_res_def split: sum.splits fault.splits)

lemma unstalled_fails [unstalled_rules]: "unstalled (fails m)"
  by (simp add: unstalled_def fails_def)

lemma unstalled_require [unstalled_rules]: "unstalled r \<Longrightarrow> unstalled (require b m r)"
  by (simp add: require_def unstalled_fails)

lemma unstalled_some_or [unstalled_rules]: "unstalled (some_or_fail m x)"
  by (simp add: some_or_fail_def unstalled_fails unstalled_Inr split: option.split)

lemma unstalled_for_each [unstalled_rules]: "(\<And>x. unstalled (f x)) \<Longrightarrow> unstalled (for_each_res f xs)"
  by (induction xs) (auto intro!: unstalled_rules)

lemma unstalled_collect [unstalled_rules]: "(\<And>x. unstalled (f x)) \<Longrightarrow> unstalled (collect_res f xs)"
  by (induction xs) (auto intro!: unstalled_rules)

lemma unstalled_error: "unstalled (Inl (Failed (Chain cs (Error l) ls)))"
  by (simp add: unstalled_def)

lemma unstalled_exchange [unstalled_rules]: "unstalled (exchange_result x)"
  by (cases x) (auto simp: exchange_result_def in_context_def intro!: unstalled_rules unstalled_error)

lemma unstalled_openings [unstalled_rules]:
  "unstalled (field_opening_of ops tr secrets r)" "unstalled (committed_opening_of ops tr secrets d idx)"
  by (auto simp: field_opening_of_def committed_opening_of_def Let_def intro!: unstalled_rules)

lemma unstalled_after_preprocessing: "unstalled (after_preprocessing ops setup pv)"
  by (auto simp: after_preprocessing_def check_exchange_def Let_def intro!: unstalled_rules split: prod.splits)

definition preprocessing_elapsed ::
    "('pv, 'http, 'rs, 'tc, 'areq, 'sec, 'att, 'tp, 'pres) prover_ops \<Rightarrow> shape_setup \<Rightarrow> bool" where
  "preprocessing_elapsed ops setup \<longleftrightarrow> timeout (su_preprocess_timeout setup) (po_preprocess_time ops) () = Elapsed"

lemma run_mpc_stalled:
  assumes "run_mpc ops setup = (Inl (Failed e), flag)" and "is_stalled e"
  shows "\<not> flag \<and> preprocessing_elapsed ops setup"
proof -
  have after: "after_preprocessing ops setup pv \<noteq> Inl (Failed e)" for pv
    using assms(2) unstalled_failed [OF unstalled_after_preprocessing, where e = e] by auto
  have lib: "lift_lib r \<noteq> Inl (Failed e)" for r :: "foreign + 'z"
    using assms(2) unstalled_failed [OF unstalled_lift_lib, where e = e] by auto
  have "preprocess ops setup = Inl (Failed e)" "\<not> flag"
    using assms(1) after by (auto simp: run_mpc_def split: sum.splits)
  then show ?thesis
    using lib by (auto simp: preprocess_def and_then_Inl_iff timeout_def preprocessing_elapsed_def split: timed.splits option.splits if_splits)
qed

text \<open>C20: What a retry may repeat: if a notarisation fails with a stall, preprocessing had not completed when
  the code decided, so that nothing had been sent to the registry; and there is evidence of a cut: the
  prover's own preprocessing timeout, or a closed connection in its failure or at the driver. A
  rejection, a configuration error and a driver that failed otherwise are never retried.\<close>

theorem retried_only_after_cut:
  assumes "race_of ops setup rc" and "notarize_shape ops setup rc = Inl (Failed e)" and "is_stalled e"
  shows "\<not> preprocessed_then rc \<and> retry_evidence (prover_failure rc) (driver_seen rc) \<and>
    (case prover_failure rc of None \<Rightarrow> True | Some f \<Rightarrow>
       if is_stalled f then preprocessing_elapsed ops setup else True)"
proof -
  have own: "\<not> preprocessed_then rc \<and> preprocessing_elapsed ops setup"
    if f: "prover_failure rc = Some f" "is_stalled f" for f
  proof (cases "rc_first rc")
    case (Inl result)
    then have "run_mpc ops setup = (Inl (Failed f), rc_preprocessed rc)"
      using f assms(1) by (auto simp: prover_failure_def race_of_def split: sum.splits fault.splits)
    from run_mpc_stalled [OF this f(2)] Inl show ?thesis by (simp add: preprocessed_then_def)
  next
    case (Inr d)
    then have "run_mpc ops setup = (Inl (Failed f), rc_preprocessed_after rc)" "rc_preprocessed rc \<longrightarrow> rc_preprocessed_after rc"
      using f assms(1) by (auto simp: prover_failure_def race_of_def split: option.splits sum.splits fault.splits)
    with run_mpc_stalled [OF this(1) f(2)] Inr show ?thesis by (auto simp: preprocessed_then_def)
  qed
  have "lift_lib r \<noteq> Inl (Failed e)" for r :: "foreign + 'z"
    using assms(3) unstalled_failed [OF unstalled_lift_lib, where e = e] by auto
  moreover have "lift_lib r \<noteq> Inl (Failed e)" for r :: "foreign + unit"
    using assms(3) unstalled_failed [OF unstalled_lift_lib, where e = e] by auto
  ultimately have "settle_race rc = Inl (Failed e)"
    using assms(2) by (auto simp: notarize_shape_def and_then_Inl_iff)
  from settle_race_stalled [OF this assms(3)] own show ?thesis by (auto split: option.splits)
qed

subsection \<open>What a notarisation commits to and reveals\<close>

text \<open>What the code relies on: \<open>iter_values\<close> gives the indices of the ranges in order, and proving leaves
  the transcript as it is.\<close>

definition sound_prover ::
    "('pv, 'http, 'rs, 'tc, 'areq, 'sec, 'att, 'tp, 'pres) prover_ops \<Rightarrow> bool" where
  "sound_prover ops \<longleftrightarrow>
     (\<forall>n. po_values ops (po_range_set ops [Range 0 n]) = [0..<n]) \<and>
     (\<forall>pv cs tc secrets pv'. po_prove ops pv cs = Inr (tc, secrets, pv') \<longrightarrow> po_transcript ops pv' = po_transcript ops pv)"

lemma some_or_fail_Inr [simp]: "some_or_fail m x = Inr y \<longleftrightarrow> x = Some y"
  by (auto simp: some_or_fail_def fails_def split: option.splits)

lemma lift_lib_Inr [simp]: "lift_lib r = Inr x \<longleftrightarrow> r = Inr x"
  by (auto simp: lift_lib_def split: sum.splits foreign.splits)

lemma lift_res_Inr [simp]: "lift_res r = Inr x \<longleftrightarrow> r = Inr x"
  by (auto simp: lift_res_def split: sum.splits)

lemma find_blinder_Some:
  "find_blinder d idx secrets = Some b \<Longrightarrow>
     length b = 16 \<and> (\<exists>h. Hash_secret h \<in> set secrets \<and> hs_direction h = d \<and> hs_idx h = idx \<and> hs_blinder h = b)"
  by (induction secrets rule: find_blinder.induct) (auto split: if_splits)

definition opens ::
    "('pv, 'http, 'rs, 'tc, 'areq, 'sec, 'att, 'tp, 'pres) prover_ops \<Rightarrow> prover_transcript
      \<Rightarrow> 'rs transcript_secret list \<Rightarrow> range \<Rightarrow> field_opening \<Rightarrow> bool" where
  "opens ops tr secrets r fo \<longleftrightarrow>
     fo_range fo = r \<and> holds (pt_received tr) r (fo_plaintext fo) \<and> length (fo_blinder fo) = 16 \<and>
     (\<exists>h. Hash_secret h \<in> set secrets \<and> hs_direction h = Received \<and> hs_idx h = po_range_set ops [r] \<and>
        hs_blinder h = fo_blinder fo)"

lemma field_opening_of_Inr:
  "field_opening_of ops tr secrets r = Inr fo \<Longrightarrow> opens ops tr secrets r fo"
  by (auto simp: field_opening_of_def opens_def and_then_Inr_iff dest: find_blinder_Some)

lemma index_all:
  assumes "n \<le> length xs" "collect_res (index_at xs) [0..<n] = Inr ys"
  shows "ys = take n xs"
proof (rule nth_equalityI)
  show len: "length ys = length (take n xs)" using collect_res_length [OF assms(2)] assms(1) by simp
  show "ys ! i = take n xs ! i" if "i < length ys" for i
    using collect_res_nth [OF assms(2), of i] that len assms(1) by simp
qed

lemma committed_request:
  assumes "sound_prover ops" and "prefix line (pt_sent tr)"
    and "committed_opening_of ops tr secrets Sent (po_range_set ops [Range 0 (length line)]) = Inr co"
  shows "co_plaintext co = line"
proof -
  from assms(3) have "collect_res (index_at (pt_sent tr)) (po_values ops (po_range_set ops [Range 0 (length line)])) =
      Inr (co_plaintext co)"
    by (auto simp: committed_opening_of_def and_then_Inr_iff)
  then have "collect_res (index_at (pt_sent tr)) [0..<length line] = Inr (co_plaintext co)"
    using assms(1) by (simp add: sound_prover_def)
  moreover obtain rest where "pt_sent tr = line @ rest" using assms(2) by (auto simp: prefix_def)
  ultimately show ?thesis using index_all [of "length line" "pt_sent tr"] by simp
qed

lemma after_preprocessing_Inr:
  assumes "after_preprocessing ops setup pv = Inr (request, sec, openings, req, struct)"
  obtains pv' tc secrets pv'' where
    "prefix (shape_request_line (su_shape setup) @ crlf) (pt_sent (po_transcript ops pv'))"
    "length (pt_received (po_transcript ops pv')) = shape_len (su_shape setup)"
    "po_prove ops pv' (commits ops (su_shape setup)) = Inr (tc, secrets, pv'')"
    "collect_res (field_opening_of ops (po_transcript ops pv'') secrets) (shape_hidden (su_shape setup)) = Inr openings"
    "committed_opening_of ops (po_transcript ops pv'') secrets Sent
       (po_range_set ops [Range 0 (length (shape_request_line (su_shape setup)))]) = Inr req"
  using assms
  by (auto simp: after_preprocessing_def check_exchange_def Let_def and_then_Inr_iff intro: that)

lemma after_preprocessing_builds:
  assumes "after_preprocessing ops setup pv = Inr (request, sec, openings, req, struct)" and "sound_prover ops"
  obtains pv' certs sig secrets tc where
    "prefix (shape_request_line (su_shape setup)) (pt_sent (po_transcript ops pv'))"
    "length (pt_received (po_transcript ops pv')) = shape_len (su_shape setup)"
    "po_build_request ops (shape_server_name (su_shape setup)) certs sig (po_transcript ops pv') secrets tc
       (su_eth_attestation setup) = Inr (request, sec)"
proof -
  obtain pv' pv'' certs sig secrets tc where run:
    "prefix (shape_request_line (su_shape setup) @ crlf) (pt_sent (po_transcript ops pv'))"
    "length (pt_received (po_transcript ops pv')) = shape_len (su_shape setup)"
    "po_prove ops pv' (commits ops (su_shape setup)) = Inr (tc, secrets, pv'')"
    "po_build_request ops (shape_server_name (su_shape setup)) certs sig (po_transcript ops pv'') secrets tc
       (su_eth_attestation setup) = Inr (request, sec)"
    using assms(1) by (auto simp: after_preprocessing_def check_exchange_def Let_def and_then_Inr_iff)
  moreover have "po_transcript ops pv'' = po_transcript ops pv'"
    using assms(2) run(3) unfolding sound_prover_def by blast
  ultimately show thesis using that by (metis append_prefixD)
qed

lemma notarize_shape_run:
  assumes "race_of ops setup rc" and "notarize_shape ops setup rc = Inr ns"
  obtains pv request where "ns_shape ns = su_shape setup"
    "after_preprocessing ops setup pv =
       Inr (request, ns_secrets ns, ns_openings ns, ns_request ns, ns_structure ns)"
proof -
  obtain request where shape: "ns_shape ns = su_shape setup"
    and race: "settle_race rc = Inr (request, ns_secrets ns, ns_openings ns, ns_request ns, ns_structure ns)"
    using assms(2) by (auto simp: notarize_shape_def and_then_Inr_iff)
  then have "rc_first rc = Inl (Inr (request, ns_secrets ns, ns_openings ns, ns_request ns, ns_structure ns))"
    by (auto simp: settle_race_def Let_def split: sum.splits fault.splits if_splits)
  then have "fst (run_mpc ops setup) = Inr (request, ns_secrets ns, ns_openings ns, ns_request ns, ns_structure ns)"
    using assms(1) by (simp add: race_of_def) (metis fst_conv)
  then show thesis using that shape by (auto simp: run_mpc_def split: sum.splits)
qed

text \<open>C31: What a prover holds after a notarisation: the session's request starts with the shape's request
  line and its response has the shape's length; exactly the verifier's expected commitments were
  proved, in its order; and each hidden range has an opening with the bytes of the response at that
  range and the 16-byte blinder of its commitment, in the shape's order, the request's opening being
  the request line.\<close>

theorem notarized_openings:
  assumes "sound_prover ops" and "race_of ops setup rc" and "notarize_shape ops setup rc = Inr ns"
    and "range_set t = po_range_set ops"
  shows "ns_shape ns = su_shape setup \<and>
    (\<exists>pv pv' tc secrets tr. po_transcript ops pv = tr \<and>
       po_prove ops pv (expected_commitments t (ns_shape ns)) = Inr (tc, secrets, pv') \<and>
       prefix (shape_request_line (ns_shape ns) @ crlf) (pt_sent tr) \<and>
       length (pt_received tr) = shape_len (ns_shape ns) \<and>
       list_all2 (opens ops tr secrets) (shape_hidden (ns_shape ns)) (ns_openings ns) \<and>
       co_plaintext (ns_request ns) = shape_request_line (ns_shape ns))"
proof -
  obtain pv request where shape: "ns_shape ns = su_shape setup"
    and "after_preprocessing ops setup pv =
      Inr (request, ns_secrets ns, ns_openings ns, ns_request ns, ns_structure ns)"
    by (rule notarize_shape_run [OF assms(2,3)])
  from this(2) obtain pv' tc secrets pv'' where run:
    "prefix (shape_request_line (su_shape setup) @ crlf) (pt_sent (po_transcript ops pv'))"
    "length (pt_received (po_transcript ops pv')) = shape_len (su_shape setup)"
    "po_prove ops pv' (commits ops (su_shape setup)) = Inr (tc, secrets, pv'')"
    "collect_res (field_opening_of ops (po_transcript ops pv'') secrets) (shape_hidden (su_shape setup)) = Inr (ns_openings ns)"
    "committed_opening_of ops (po_transcript ops pv'') secrets Sent
       (po_range_set ops [Range 0 (length (shape_request_line (su_shape setup)))]) = Inr (ns_request ns)"
    by (rule after_preprocessing_Inr)
  have same: "po_transcript ops pv'' = po_transcript ops pv'"
    using assms(1) run(3) unfolding sound_prover_def by blast
  have "list_all2 (opens ops (po_transcript ops pv') secrets) (shape_hidden (su_shape setup)) (ns_openings ns)"
    using run(4) unfolding same collect_res_Inr_iff by (rule list_all2_mono) (rule field_opening_of_Inr)
  moreover have "co_plaintext (ns_request ns) = shape_request_line (su_shape setup)"
    using committed_request [OF assms(1) _ run(5) [unfolded same]] run(1) by (meson append_prefixD)
  moreover have "commits ops (su_shape setup) = expected_commitments t (su_shape setup)"
    by (simp add: commits_def expected_commitments_def assms(4))
  ultimately show ?thesis using run(1-3) shape by auto
qed

text \<open>
  What a presentation \<open>p\<close> discloses of the session of \<open>su\<close>, whose secrets are \<open>sec\<close>: it is built from a
  proof over two indices of that session's transcript, the sent bytes of the request line and the received
  bytes of the revealed ranges. The request line is the shape's, so that no header is disclosed; no hidden
  range has a byte in common with a revealed one; and if the response is one of the layout's, every
  revealed byte is the template's, whatever the values of the response.
\<close>

definition discloses_only ::
    "('pv, 'http, 'rs, 'tc, 'areq, 'sec, 'att, 'tp, 'pres) prover_ops \<Rightarrow> (bytes \<Rightarrow> bool) \<Rightarrow> shape_setup
      \<Rightarrow> 'att \<Rightarrow> 'sec \<Rightarrow> 'pres \<Rightarrow> bool" where
  "discloses_only ops rendered su att sec p \<longleftrightarrow>
     (let sh = su_shape su; line = shape_request_line sh in
      \<exists>pv certs sig secrets tc request tp.
        po_build_request ops (shape_server_name sh) certs sig (po_transcript ops pv) secrets tc
          (su_eth_attestation su) = Inr (request, sec) \<and>
        po_transcript_proof ops sec
          [(Sent, po_range_set ops [Range 0 (length line)]), (Received, po_range_set ops (shape_revealed sh))] = Inr tp \<and>
        po_present ops att sec tp = Inr p \<and>
        take (length line) (pt_sent (po_transcript ops pv)) = line \<and>
        length (pt_received (po_transcript ops pv)) = shape_len sh \<and>
        (\<forall>r \<in> set (shape_hidden sh). covered [r] \<inter> covered (shape_revealed sh) = {}) \<and>
        (rendered (pt_received (po_transcript ops pv)) \<longrightarrow>
           (\<forall>r \<in> set (shape_revealed sh). holds (pt_received (po_transcript ops pv)) r (slice (shape_template sh) r))))"

lemma build_presentation_Inr:
  "build_presentation ops att sec n rs None = Inr p \<Longrightarrow>
     \<exists>tp. po_transcript_proof ops sec [(Sent, po_range_set ops [Range 0 n]), (Received, po_range_set ops rs)] = Inr tp \<and>
       po_present ops att sec tp = Inr p"
  by (auto simp: build_presentation_def reveals_def Let_def and_then_Inr_iff)

context response_source
begin

lemma presentation_discloses_only:
  assumes l: "valid l" and s: "shape_of l subject = Inr (su_shape su)"
    and run: "sound_prover ops" "race_of ops su rc" "notarize_shape ops su rc = Inr ns"
    and p: "build_presentation ops att (ns_secrets ns) (length (shape_request_line (su_shape su)))
      (shape_revealed (su_shape su)) None = Inr p"
  shows "discloses_only ops (\<lambda>b. \<exists>v. render l v = Inr b) su att (ns_secrets ns) p"
proof -
  obtain pv request where
    "after_preprocessing ops su pv = Inr (request, ns_secrets ns, ns_openings ns, ns_request ns, ns_structure ns)"
    by (rule notarize_shape_run [OF run(2,3)])
  then obtain pv' certs sig secrets tc where tr:
    "prefix (shape_request_line (su_shape su)) (pt_sent (po_transcript ops pv'))"
    "length (pt_received (po_transcript ops pv')) = shape_len (su_shape su)"
    "po_build_request ops (shape_server_name (su_shape su)) certs sig (po_transcript ops pv') secrets tc
       (su_eth_attestation su) = Inr (request, ns_secrets ns)"
    using run(1) by (rule after_preprocessing_builds)
  have "take (length (shape_request_line (su_shape su))) (pt_sent (po_transcript ops pv')) = shape_request_line (su_shape su)"
    using tr(1) by (auto simp: prefix_def)
  moreover have "covered [r] \<inter> covered (shape_revealed (su_shape su)) = {}" if "r \<in> set (shape_hidden (su_shape su))" for r
    using shape_disjoint [OF l s _ that] by (fastforce simp: covered_def disjoint_ranges_def before_def)
  ultimately show ?thesis
    using tr(2,3) build_presentation_Inr [OF p] shape_revealed_bytes [OF l s]
    unfolding discloses_only_def Let_def by blast
qed

end

lemma shape_revealed_ranges:
  "shape l pid = Inr s \<Longrightarrow> layout_ranges l = Inr r \<Longrightarrow> revealed r = shape_revealed s"
  by (auto simp: shape_def layout_ranges_def and_then_Inr_iff)

lemma three_openings:
  "(case xs of [a, b, c] \<Rightarrow> f a b c | _ \<Rightarrow> fails m) = Inr x \<longleftrightarrow> (\<exists>a b c. xs = [a, b, c] \<and> f a b c = Inr x)"
  by (auto simp: fails_def split: list.split)

text \<open>C32: What the presentations of the program disclose. Register presents a notarised title, Apply and
  Settle a notarised record of their layouts, and none of them asks for the hidden values: after a
  notarisation, each presentation is built from a proof over the request line and the revealed ranges of
  the layout's shape alone, for the transcript that was notarised. It discloses no other byte that was
  sent, so not the bearer token, and no byte of a hidden value; the bytes it discloses of a response of
  the layout are the same for every account and every record.\<close>

theorem presentation_hides_values:
  assumes "sound_prover ops" and "race_of ops su rc"
  shows "(validate_layout (ps_layout setup) = Inr () \<and> shape_setup_of setup = Inr su \<and>
      prover_notarize ops setup rc = Inr nz \<and> present ops nz False = Inr p \<longrightarrow>
      discloses_only ops (\<lambda>b. \<exists>v. title_response (ps_layout setup) v = Inr b) su (nz_attestation nz) (nz_secrets nz) p) \<and>
    (validate_record_layout l = Inr () \<and> record_shape l subject = Inr (su_shape su) \<and>
      notarize_shape ops su rc = Inr ns \<and> present_shape ops ns False = Inr p \<longrightarrow>
      discloses_only ops (\<lambda>b. \<exists>v. record_response l v = Inr b) su (ns_attestation ns) (ns_secrets ns) p)"
proof (intro conjI impI; elim conjE)
  assume l: "validate_layout (ps_layout setup) = Inr ()" and su: "shape_setup_of setup = Inr su"
    and nz: "prover_notarize ops setup rc = Inr nz" and p: "present ops nz False = Inr p"
  from l have l: "valid_layout (ps_layout setup)" by (simp add: validate_layout_iff)
  from su have s: "shape (ps_layout setup) (ps_property_id setup) = Inr (su_shape su)"
    by (auto simp: shape_setup_of_def and_then_Inr_iff)
  from nz su obtain ns where ns: "notarize_shape ops su rc = Inr ns" and att: "nz_attestation nz = ns_attestation ns"
    "nz_secrets nz = ns_secrets ns" "nz_request_line_len nz = length (shape_request_line (ns_shape ns))"
    "layout_ranges (ps_layout setup) = Inr (nz_ranges nz)"
    by (auto simp: prover_notarize_def and_then_Inr_iff three_openings)
  have "ns_shape ns = su_shape su" by (rule notarize_shape_run [OF assms(2) ns])
  moreover have "revealed (nz_ranges nz) = shape_revealed (su_shape su)"
    using shape_revealed_ranges [OF s att(4)] .
  ultimately show "discloses_only ops (\<lambda>b. \<exists>v. title_response (ps_layout setup) v = Inr b) su
      (nz_attestation nz) (nz_secrets nz) p"
    using title.presentation_discloses_only [OF l s assms ns] p by (simp add: present_def att(1-3))
next
  assume l: "validate_record_layout l = Inr ()" and s: "record_shape l subject = Inr (su_shape su)"
    and ns: "notarize_shape ops su rc = Inr ns" and p: "present_shape ops ns False = Inr p"
  from l have "valid_record_layout l" by (simp add: valid_record_layout_def)
  moreover have "ns_shape ns = su_shape su" by (rule notarize_shape_run [OF assms(2) ns])
  ultimately show "discloses_only ops (\<lambda>b. \<exists>v. record_response l v = Inr b) su (ns_attestation ns) (ns_secrets ns) p"
    using rec.presentation_discloses_only [OF _ s assms ns] p by (simp add: present_shape_def)
qed

subsection \<open>A sample session\<close>

definition sample_exchange :: response_shape where
  "sample_exchange =
     \<lparr>shape_server_name = ''r'', shape_path = ''/t'', shape_request_line = ''GET /t'', shape_template = ''ab'',
      shape_len = 2, shape_revealed = [Range 0 1], shape_hidden = [Range 1 2]\<rparr>"

definition sample_setup :: shape_setup where
  "sample_setup =
     \<lparr>su_shape = sample_exchange, su_registry_addr = ''a'', su_root_certs = [], su_token = ''t'', su_max_sent = 4096,
      su_max_recv = 16384, su_preprocess_timeout = PROVER_PREPROCESS_TIMEOUT, su_eth_attestation = False\<rparr>"

definition sample_ops :: "(unit, unit, range list, unit, unit, nat, nat, range list indexed list, range list indexed list) prover_ops" where
  "sample_ops =
     \<lparr>po_new_prover = (\<lambda>_ _. Inr ()), po_preprocess = Inr, po_preprocess_time = Some 4, po_server_name = (\<lambda>_. Inr ()),
      po_tcp = (\<lambda>_. Inr ()), po_connect = (\<lambda>_ _ _. Inr ()), po_http_request = (\<lambda>_ _ _. Inr ()),
      po_exchange = (\<lambda>_ _. Answered (Inr 200) (Inr ())), po_finished = (\<lambda>_. Inr ()),
      po_transcript = (\<lambda>_. \<lparr>pt_sent = ''GET /t'' @ crlf, pt_received = ''aX''\<rparr>),
      po_range_set = (\<lambda>rs. rs), po_values = (\<lambda>rs. concat (map (\<lambda>r. [rstart r..<rend r]) rs)),
      po_commit = (\<lambda>_ _. Inr ()), po_configs = (\<lambda>_ _. Inr ()),
      po_prove = (\<lambda>pv cs. Inr ((), map (\<lambda>(d, i). Hash_secret \<lparr>hs_direction = d, hs_idx = i,
        hs_blinder = replicate 16 (CHR ''b'')\<rparr>) cs, pv)),
      po_close = (\<lambda>_. Inr ()), po_cert_chain = (\<lambda>_. Some []), po_signature = (\<lambda>_. Some []),
      po_build_request = (\<lambda>_ _ _ _ _ _ _. Inr ((), 5)), po_driver_join = Inr (), po_send_request = (\<lambda>_. Inr ()),
      po_read_attestation = Inr 9, po_validate = (\<lambda>_ _. Inr ()), po_reveal = (\<lambda>_ _ _. Inr ()),
      po_transcript_proof = (\<lambda>_ idx. Inr idx), po_present = (\<lambda>_ _ tp. Inr tp)\<rparr>"

definition stuck_ops :: "(unit, unit, range list, unit, unit, nat, nat, range list indexed list, range list indexed list) prover_ops" where
  "stuck_ops = sample_ops\<lparr>po_preprocess_time := None\<rparr>"

definition finished_race ::
    "(unit, unit, range list, unit, unit, nat, nat, range list indexed list, range list indexed list) prover_ops
      \<Rightarrow> (unit \<times> nat \<times> field_opening list \<times> committed_opening \<times> committed_opening) race" where
  "finished_race ops =
     (let (result, flag) = run_mpc ops sample_setup in
      \<lparr>rc_first = Inl result, rc_preprocessed = flag, rc_driver_in_grace = None, rc_prover_in_grace = None,
       rc_preprocessed_after = flag\<rparr>)"

definition list_tlsn :: "(unit, nat, unit, range list) tlsn" where
  "list_tlsn =
     \<lparr>verifying_key_of = (\<lambda>_. 7), cert_verifier_new = (\<lambda>_. Inr ()),
      verify_presentation = (\<lambda>_ _. bail ''no presentation''),
      body_commitments = (\<lambda>_. bail ''no attestation''), range_set = (\<lambda>rs. rs)\<rparr>"

lemma finished_race_of: "race_of ops sample_setup (finished_race ops)"
  by (simp add: race_of_def finished_race_def split: prod.split)

lemma sample_sound: "sound_prover sample_ops"
  by (simp add: sound_prover_def sample_ops_def)

lemma sample_run:
  "run_mpc sample_ops sample_setup =
     (Inr ((), 5, [\<lparr>fo_range = Range 1 2, fo_plaintext = ''X'', fo_blinder = replicate 16 (CHR ''b'')\<rparr>],
        \<lparr>co_plaintext = ''GET /t'', co_blinder = replicate 16 (CHR ''b'')\<rparr>,
        \<lparr>co_plaintext = ''a'', co_blinder = replicate 16 (CHR ''b'')\<rparr>), True)"
  by (simp add: run_mpc_def preprocess_def timeout_def after_preprocessing_def check_exchange_def exchange_result_def
      commits_def field_opening_of_def committed_opening_of_def sample_ops_def sample_setup_def sample_exchange_def
      PROVER_PREPROCESS_TIMEOUT_def Let_def upt_rec index_at_def index_range_def in_bounds_def slice_def lift_lib_def
      lift_res_def require_def some_or_fail_def)

lemma sample_notarized:
  "\<exists>ns. notarize_shape sample_ops sample_setup (finished_race sample_ops) = Inr ns \<and> ns_shape ns = sample_exchange"
  by (simp add: notarize_shape_def settle_race_def finished_race_def sample_run)
    (simp add: sample_ops_def sample_setup_def lift_lib_def)

lemma notarized_openings_witness:
  "\<exists>ns. notarize_shape sample_ops sample_setup (finished_race sample_ops) = Inr ns \<and>
     co_plaintext (ns_request ns) = ''GET /t''"
proof -
  obtain ns where ns: "notarize_shape sample_ops sample_setup (finished_race sample_ops) = Inr ns" "ns_shape ns = sample_exchange"
    using sample_notarized by blast
  have "range_set list_tlsn = po_range_set sample_ops" by (simp add: list_tlsn_def sample_ops_def)
  from notarized_openings [OF sample_sound finished_race_of ns(1) this] ns show ?thesis
    by (auto simp: sample_exchange_def)
qed

lemma retried_only_after_cut_witness:
  "\<not> preprocessed_then (finished_race stuck_ops) \<and> preprocessing_elapsed stuck_ops sample_setup"
proof -
  let ?e = "Chain [] (Stalled (''did not finish within '' @ dec 30)) []"
  have run: "run_mpc stuck_ops sample_setup = (Inl (Failed ?e), False)"
    by (simp add: run_mpc_def preprocess_def timeout_def stuck_ops_def sample_ops_def lift_lib_def sample_setup_def
        PROVER_PREPROCESS_TIMEOUT_def)
  then have "notarize_shape stuck_ops sample_setup (finished_race stuck_ops) = Inl (Failed ?e)"
    by (simp add: notarize_shape_def settle_race_def finished_race_def)
  from retried_only_after_cut [OF finished_race_of this] run show ?thesis
    by (simp add: prover_failure_def finished_race_def)
qed

text \<open>Sessions over a whole title and a whole record: the registry's response is \<open>b\<close>.\<close>

definition serving_ops :: "response_shape \<Rightarrow> bytes \<Rightarrow>
    (unit, unit, range list, unit, unit, nat, nat, range list indexed list, range list indexed list) prover_ops" where
  "serving_ops sh b = sample_ops\<lparr>po_transcript := \<lambda>_. \<lparr>pt_sent = shape_request_line sh @ crlf, pt_received = b\<rparr>\<rparr>"

definition serving_setup :: "response_shape \<Rightarrow> shape_setup" where
  "serving_setup sh = sample_setup\<lparr>su_shape := sh\<rparr>"

lemma sample_blinder:
  "(d, idx) \<in> set cs \<Longrightarrow> find_blinder d idx (map (\<lambda>(d, i). Hash_secret \<lparr>hs_direction = d, hs_idx = i,
     hs_blinder = replicate 16 (CHR ''b'')\<rparr>) cs) = Some (replicate 16 (CHR ''b''))"
  by (induction cs) auto

definition title_setup :: prover_setup where
  "title_setup =
     \<lparr>ps_layout = title_v1, ps_registry_addr = ''a'', ps_root_certs = [], ps_token = ''t'',
      ps_property_id = property_id sample_record, ps_max_sent = 4096, ps_max_recv = 16384,
      ps_preprocess_timeout = PROVER_PREPROCESS_TIMEOUT\<rparr>"

lemma serving_simps:
  "po_new_prover (serving_ops sh b) = (\<lambda>_ _. Inr ())" "po_preprocess (serving_ops sh b) = Inr"
  "po_preprocess_time (serving_ops sh b) = Some 4" "po_server_name (serving_ops sh b) = (\<lambda>_. Inr ())"
  "po_tcp (serving_ops sh b) = (\<lambda>_. Inr ())" "po_connect (serving_ops sh b) = (\<lambda>_ _ _. Inr ())"
  "po_http_request (serving_ops sh b) = (\<lambda>_ _ _. Inr ())" "po_exchange (serving_ops sh b) = (\<lambda>_ _. Answered (Inr 200) (Inr ()))"
  "po_finished (serving_ops sh b) = (\<lambda>_. Inr ())" "po_commit (serving_ops sh b) = (\<lambda>_ _. Inr ())"
  "po_configs (serving_ops sh b) = (\<lambda>_ _. Inr ())" "po_close (serving_ops sh b) = (\<lambda>_. Inr ())"
  "po_transcript (serving_ops sh b) = (\<lambda>_. \<lparr>pt_sent = shape_request_line sh @ crlf, pt_received = b\<rparr>)"
  "po_prove (serving_ops sh b) = (\<lambda>pv cs. Inr ((), map (\<lambda>(d, i). Hash_secret \<lparr>hs_direction = d, hs_idx = i,
     hs_blinder = replicate 16 (CHR ''b'')\<rparr>) cs, pv))"
  "po_cert_chain (serving_ops sh b) = (\<lambda>_. Some [])" "po_signature (serving_ops sh b) = (\<lambda>_. Some [])"
  "po_build_request (serving_ops sh b) = (\<lambda>_ _ _ _ _ _ _. Inr ((), 5))" "po_driver_join (serving_ops sh b) = Inr ()"
  "po_send_request (serving_ops sh b) = (\<lambda>_. Inr ())" "po_read_attestation (serving_ops sh b) = Inr 9"
  "po_validate (serving_ops sh b) = (\<lambda>_ _. Inr ())" "po_reveal (serving_ops sh b) = (\<lambda>_ _ _. Inr ())"
  "po_transcript_proof (serving_ops sh b) = (\<lambda>_ idx. Inr idx)" "po_present (serving_ops sh b) = (\<lambda>_ _ tp. Inr tp)"
  "po_range_set (serving_ops sh b) = (\<lambda>rs. rs)" 
  "po_values (serving_ops sh b) = (\<lambda>rs. concat (map (\<lambda>r. [rstart r..<rend r]) rs))"
  by (simp_all add: serving_ops_def sample_ops_def)

lemma for_each_commit: "for_each_res (\<lambda>(d, idx). Inr ()) cs = Inr ()"
  by (induction cs) auto

lemma serving_sound: "sound_prover (serving_ops sh b)"
  by (auto simp: sound_prover_def serving_simps)

lemma collect_res_map: "(\<And>x. x \<in> set xs \<Longrightarrow> f x = Inr (g x)) \<Longrightarrow> collect_res f xs = Inr (map g xs)"
  by (simp add: collect_res_Inr_iff list_all2_conv_all_nth)

lemma committed_opening_total:
  assumes "find_blinder d idx secrets = Some bl"
    and "\<And>i. i \<in> set (po_values ops idx) \<Longrightarrow> i < length (case d of Sent \<Rightarrow> pt_sent tr | Received \<Rightarrow> pt_received tr)"
  shows "\<exists>co. committed_opening_of ops tr secrets d idx = Inr co"
proof -
  let ?dat = "case d of Sent \<Rightarrow> pt_sent tr | Received \<Rightarrow> pt_received tr"
  have "collect_res (index_at ?dat) (po_values ops idx) = Inr (map ((!) ?dat) (po_values ops idx))"
    using assms(2) by (intro collect_res_map) (simp add: index_at_def)
  then show ?thesis by (simp add: committed_opening_of_def assms(1) some_or_fail_def lift_res_def)
qed

lemma serving_run:
  assumes "length b = shape_len sh" and "\<forall>r \<in> set (shape_revealed sh @ shape_hidden sh). in_bounds b r"
  shows "\<exists>openings req struct. run_mpc (serving_ops sh b) (serving_setup sh) = (Inr ((), 5, openings, req, struct), True) \<and>
    length openings = length (shape_hidden sh)"
proof -
  let ?ops = "serving_ops sh b" and ?tr = "\<lparr>pt_sent = shape_request_line sh @ crlf, pt_received = b\<rparr>"
  let ?cs = "commits ?ops sh" and ?bl = "replicate 16 (CHR ''b'')"
  let ?secrets = "map (\<lambda>(d, i). Hash_secret \<lparr>hs_direction = d, hs_idx = i, hs_blinder = ?bl\<rparr>) ?cs"
  have ops: "po_range_set ?ops = (\<lambda>rs. rs)" "po_values ?ops = (\<lambda>rs. concat (map (\<lambda>r. [rstart r..<rend r]) rs))"
    by (simp_all add: serving_ops_def sample_ops_def)
  have keys: "(Sent, [Range 0 (length (shape_request_line sh))]) \<in> set ?cs" "(Received, shape_revealed sh) \<in> set ?cs"
    "r \<in> set (shape_hidden sh) \<Longrightarrow> (Received, [r]) \<in> set ?cs" for r
    by (auto simp: commits_def ops)
  have bounds: "i < length b" if "i \<in> set (po_values ?ops (shape_revealed sh))" for i
  proof -
    from that obtain r where "r \<in> set (shape_revealed sh)" "i < rend r" by (auto simp: ops)
    then show ?thesis using assms(2) by (auto simp: in_bounds_def dest: less_le_trans)
  qed
  have "collect_res (field_opening_of ?ops ?tr ?secrets) (shape_hidden sh) =
      Inr (map (\<lambda>r. \<lparr>fo_range = r, fo_plaintext = slice b r, fo_blinder = ?bl\<rparr>) (shape_hidden sh))"
    using assms(2) by (intro collect_res_map) (simp add: field_opening_of_def ops sample_blinder [OF keys(3)]
        some_or_fail_def index_range_def lift_res_def)
  moreover obtain req where "committed_opening_of ?ops ?tr ?secrets Sent [Range 0 (length (shape_request_line sh))] = Inr req"
    using committed_opening_total [OF sample_blinder [OF keys(1)], of ?ops ?tr] by (auto simp: ops)
  moreover obtain struct where "committed_opening_of ?ops ?tr ?secrets Received (shape_revealed sh) = Inr struct"
    using committed_opening_total [OF sample_blinder [OF keys(2)], of ?ops ?tr] bounds by auto
  ultimately show ?thesis
    using assms(1)
    by (simp add: run_mpc_def preprocess_def timeout_def after_preprocessing_def check_exchange_def exchange_result_def
        serving_setup_def serving_simps some_or_fail_def sample_setup_def lift_lib_def PROVER_PREPROCESS_TIMEOUT_def
        for_each_commit require_def Let_def)
qed

lemma serving_notarized:
  assumes "length b = shape_len sh" and "\<forall>r \<in> set (shape_revealed sh @ shape_hidden sh). in_bounds b r"
  shows "\<exists>rc ns. race_of (serving_ops sh b) (serving_setup sh) rc \<and>
    notarize_shape (serving_ops sh b) (serving_setup sh) rc = Inr ns \<and> length (ns_openings ns) = length (shape_hidden sh) \<and>
    ns_shape ns = sh"
proof -
  obtain openings req struct where run: "run_mpc (serving_ops sh b) (serving_setup sh) =
      (Inr ((), 5, openings, req, struct), True)" and len: "length openings = length (shape_hidden sh)"
    using serving_run [OF assms] by blast
  let ?rc = "\<lparr>rc_first = Inl (Inr ((), 5, openings, req, struct)), rc_preprocessed = True, rc_driver_in_grace = None,
    rc_prover_in_grace = None, rc_preprocessed_after = True\<rparr>"
  have "race_of (serving_ops sh b) (serving_setup sh) ?rc" by (simp add: race_of_def run)
  moreover have "\<exists>ns. notarize_shape (serving_ops sh b) (serving_setup sh) ?rc = Inr ns \<and> ns_openings ns = openings \<and>
      ns_shape ns = sh"
    by (simp add: notarize_shape_def settle_race_def serving_simps lift_lib_def serving_setup_def)
  ultimately show ?thesis using len by metis
qed

context response_source
begin

lemma serving_rendered:
  assumes "valid l" and "shape_of l subject = Inr s" and "render l v = Inr b"
  shows "\<exists>rc ns. race_of (serving_ops s b) (serving_setup s) rc \<and>
    notarize_shape (serving_ops s b) (serving_setup s) rc = Inr ns \<and> length (ns_openings ns) = length (shape_hidden s) \<and>
    ns_shape ns = s"
  using shape_length [OF assms] shape_revealed_bytes [OF assms] shape_hidden_bounds [OF assms]
  by (intro serving_notarized) (auto intro: holds_in_bounds)

end

lemma serving_presents: "\<exists>p. build_presentation (serving_ops sh b) att sec n rs None = Inr p"
  by (simp add: build_presentation_def reveals_def serving_simps lift_lib_def Let_def)

lemma presentation_hides_values_witness:
  "(\<exists>su ops b nz p. shape_setup_of title_setup = Inr su \<and> title_response title_v1 (''ACC-000000000001'', sample_record) = Inr b \<and>
     ops = serving_ops (su_shape su) b \<and> present ops nz False = Inr p \<and>
     discloses_only ops (\<lambda>b. \<exists>v. title_response title_v1 v = Inr b) su (nz_attestation nz) (nz_secrets nz) p) \<and>
   (\<exists>su ops b ns p. record_shape income_v1 [] = Inr (su_shape su) \<and>
     record_response income_v1 (''ACC-000000000003'', [''00000000000000003000'']) = Inr b \<and>
     ops = serving_ops (su_shape su) b \<and> present_shape ops ns False = Inr p \<and>
     discloses_only ops (\<lambda>b. \<exists>v. record_response income_v1 v = Inr b) su (ns_attestation ns) (ns_secrets ns) p)"
proof
  have l: "valid_layout title_v1" using valid_title_v1 by (simp add: validate_layout_iff)
  obtain x where "render_response title_v1 ''ACC-000000000001'' sample_record = Inr x" using sample_render_ok by blast
  then obtain b where b: "title_response title_v1 (''ACC-000000000001'', sample_record) = Inr b"
    by (auto simp: title_response_def)
  obtain s where s: "shape title_v1 (property_id sample_record) = Inr s" using title.shape_total [OF l] by blast
  let ?ops = "serving_ops s b" and ?su = "serving_setup s"
  obtain rc ns where rc: "race_of ?ops ?su rc" "notarize_shape ?ops ?su rc = Inr ns"
      "length (ns_openings ns) = length (shape_hidden s)" "ns_shape ns = s"
    using title.serving_rendered [OF l s b] by blast
  have su: "shape_setup_of title_setup = Inr ?su" "su_shape ?su = s"
    using s by (simp_all add: shape_setup_of_def title_setup_def serving_setup_def sample_setup_def)
  obtain t where t: "template title_v1 = Inr t" "shape_hidden s = hidden (rendered_ranges t)"
    using s by (auto simp: shape_def and_then_Inr_iff)
  then obtain o1 o2 o3 where "ns_openings ns = [o1, o2, o3]" using rc(3)
    by (auto simp: hidden_def length_Suc_conv)
  then obtain nz where nz: "prover_notarize ?ops title_setup rc = Inr nz"
    using su rc(2) t by (simp add: prover_notarize_def layout_ranges_def lift_res_def title_setup_def)
  have "\<exists>p. present ?ops nz False = Inr p" by (simp add: present_def serving_presents)
  then obtain p where p: "present ?ops nz False = Inr p" ..
  have "discloses_only ?ops (\<lambda>b. \<exists>v. title_response (ps_layout title_setup) v = Inr b) ?su (nz_attestation nz) (nz_secrets nz) p"
    using presentation_hides_values [OF serving_sound rc(1), of title_setup nz p] valid_title_v1 su nz p
    by (simp add: title_setup_def)
  then show "\<exists>su ops b nz p. shape_setup_of title_setup = Inr su \<and>
     title_response title_v1 (''ACC-000000000001'', sample_record) = Inr b \<and>
     ops = serving_ops (su_shape su) b \<and> present ops nz False = Inr p \<and>
     discloses_only ops (\<lambda>b. \<exists>v. title_response title_v1 v = Inr b) su (nz_attestation nz) (nz_secrets nz) p"
    using su b p by (intro exI [of _ ?su] exI [of _ ?ops] exI [of _ b] exI [of _ nz] exI [of _ p])
      (simp add: title_setup_def)
next
  have l: "valid_record_layout income_v1" using valid_income_v1 by (simp add: valid_record_layout_def)
  obtain b where b: "record_response income_v1 (''ACC-000000000003'', [''00000000000000003000'']) = Inr b"
    by (auto simp: record_response_def render_record_eq income_v1_def field_values_def pad_def pad_value_def
        first_char_def utf8_width_def byte_defs)
  obtain s where s: "record_shape income_v1 [] = Inr s" using rec.shape_total [OF l] by blast
  let ?ops = "serving_ops s b" and ?su = "serving_setup s"
  obtain rc ns where rc: "race_of ?ops ?su rc" "notarize_shape ?ops ?su rc = Inr ns"
    using rec.serving_rendered [OF l s b] by blast
  have "\<exists>p. present_shape ?ops ns False = Inr p" by (simp add: present_shape_def serving_presents)
  then obtain p where p: "present_shape ?ops ns False = Inr p" ..
  have su: "record_shape income_v1 [] = Inr (su_shape ?su)" "su_shape ?su = s"
    using s by (simp_all add: serving_setup_def)
  have "discloses_only ?ops (\<lambda>b. \<exists>v. record_response income_v1 v = Inr b) ?su (ns_attestation ns) (ns_secrets ns) p"
    using presentation_hides_values [OF serving_sound rc(1)] valid_income_v1 su(1) rc(2) p by blast
  then show "\<exists>su ops b ns p. record_shape income_v1 [] = Inr (su_shape su) \<and>
     record_response income_v1 (''ACC-000000000003'', [''00000000000000003000'']) = Inr b \<and>
     ops = serving_ops (su_shape su) b \<and> present_shape ops ns False = Inr p \<and>
     discloses_only ops (\<lambda>b. \<exists>v. record_response income_v1 v = Inr b) su (ns_attestation ns) (ns_secrets ns) p"
    using su b p by (intro exI [of _ ?su] exI [of _ ?ops] exI [of _ b] exI [of _ ns] exI [of _ p]) simp
qed

end
