(* ===== verification/Circom.thy ===== *)
theory Circom
  imports Circuit_Inputs
begin

section \<open>Circuit components\<close>

text \<open>
  Model of \<open>circuits/src/lib/bytes.circom\<close> and of the part of circomlib that the circuits instantiate. A
  signal is a natural number below the field order, and a template with constraints is a partial function:
  it has no value when its constraints do not hold. circomlib is the record \<open>circomlib\<close>; \<open>circomlib_ok\<close>
  states what its templates are documented to compute.
\<close>

abbreviation field_mod :: "nat \<Rightarrow> nat" where
  "field_mod n \<equiv> n mod BN254_R"

definition is_signal :: "nat \<Rightarrow> bool" where "is_signal n \<longleftrightarrow> n < BN254_R"

record circomlib =
  cl_num2bits :: "nat \<Rightarrow> nat \<Rightarrow> nat list option"
  cl_bits2num :: "nat list \<Rightarrow> nat"
  cl_is_equal :: "nat \<Rightarrow> nat \<Rightarrow> nat"
  cl_sha256 :: "nat list \<Rightarrow> nat list"

definition bits_lsb :: "nat \<Rightarrow> nat \<Rightarrow> nat list" where
  "bits_lsb n x = map (\<lambda>i. x div 2 ^ i mod 2) [0..<n]"

definition bits_of_bytes :: "bytes \<Rightarrow> nat list" where
  "bits_of_bytes bs = concat (map (\<lambda>c. rev (bits_lsb 8 (byte_val c))) bs)"

definition circomlib_ok :: "(bytes \<Rightarrow> bytes) \<Rightarrow> circomlib \<Rightarrow> bool" where
  "circomlib_ok sha256 lib \<longleftrightarrow>
     (\<forall>n x. n \<le> 253 \<longrightarrow> is_signal x \<longrightarrow> cl_num2bits lib n x = (if x < 2 ^ n then Some (bits_lsb n x) else None)) \<and>
     (\<forall>x. x < 2 ^ 128 \<longrightarrow> cl_bits2num lib (bits_lsb 128 x) = x) \<and>
     (\<forall>a b. is_signal a \<longrightarrow> is_signal b \<longrightarrow> cl_is_equal lib a b = (if a = b then 1 else 0)) \<and>
     (\<forall>bs. length (sha256 bs) = 32 \<and> cl_sha256 lib (bits_of_bytes bs) = bits_of_bytes (sha256 bs))"

subsection \<open>bytes.circom\<close>

fun all_some :: "'a option list \<Rightarrow> 'a list option" where
  "all_some [] = Some []"
| "all_some (None # xs) = None"
| "all_some (Some x # xs) = map_option (\<lambda>ys. x # ys) (all_some xs)"

definition bytes_to_bits_msb_first :: "circomlib \<Rightarrow> nat list \<Rightarrow> nat list option" where
  "bytes_to_bits_msb_first lib bs = map_option (\<lambda>bits. concat (map rev bits)) (all_some (map (cl_num2bits lib 8) bs))"

definition open_commitment :: "circomlib \<Rightarrow> nat list \<Rightarrow> nat list \<Rightarrow> (nat \<times> nat) option" where
  "open_commitment lib message blinder =
     map_option (\<lambda>bits.
       let out = cl_sha256 lib bits in
       (cl_bits2num lib (rev (take 128 out)), cl_bits2num lib (rev (take 128 (drop 128 out)))))
     (bytes_to_bits_msb_first lib (message @ blinder))"

definition pack_bytes :: "nat list \<Rightarrow> nat" where
  "pack_bytes bs = foldl (\<lambda>acc b. field_mod (acc * 256 + b)) 0 bs"

subsection \<open>What the components compute on bytes\<close>

definition as_bytes :: "nat list \<Rightarrow> bytes" where "as_bytes = map char_of"

definition byte_signals :: "nat list \<Rightarrow> bool" where "byte_signals ns \<longleftrightarrow> list_all (\<lambda>n. n < 256) ns"

lemma all_some_map: "all_some (map f xs) = Some ys \<longleftrightarrow> list_all2 (\<lambda>x y. f x = Some y) xs ys"
proof (induction xs arbitrary: ys)
  case (Cons x xs)
  then show ?case by (cases "f x"; cases ys) auto
qed auto

lemma all_some_None: "None \<in> set xs \<Longrightarrow> all_some xs = None"
  by (induction xs rule: all_some.induct) auto

lemma length_bits_lsb [simp]: "length (bits_lsb n x) = n"
  by (simp add: bits_lsb_def)

lemma bytes_to_bits:
  assumes "circomlib_ok sha lib" and "list_all is_signal ns"
  shows "bytes_to_bits_msb_first lib ns = (if byte_signals ns then Some (bits_of_bytes (as_bytes ns)) else None)"
proof -
  have byte: "cl_num2bits lib 8 n = (if n < 256 then Some (bits_lsb 8 n) else None)" if "n \<in> set ns" for n
    using assms that by (auto simp: circomlib_ok_def list_all_iff)
  show ?thesis
  proof (cases "byte_signals ns")
    case True
    then have "all_some (map (cl_num2bits lib 8) ns) = Some (map (bits_lsb 8) ns)"
      using byte by (auto simp: all_some_map list.rel_map byte_signals_def list_all_iff intro: list.rel_refl_strong)
    moreover have "map (\<lambda>c. rev (bits_lsb 8 (byte_val c))) (as_bytes ns) = map rev (map (bits_lsb 8) ns)"
      using True by (auto simp: as_bytes_def byte_signals_def list_all_iff)
    ultimately show ?thesis using True by (simp add: bytes_to_bits_msb_first_def bits_of_bytes_def)
  next
    case False
    then obtain n where "n \<in> set ns" "cl_num2bits lib 8 n = None"
      using byte by (auto simp: byte_signals_def list_all_iff)
    then have "all_some (map (cl_num2bits lib 8) ns) = None" by (intro all_some_None) (metis image_eqI set_map)
    then show ?thesis using False by (simp add: bytes_to_bits_msb_first_def)
  qed
qed

lemma bits_lsb_append: "bits_lsb (m + n) x = bits_lsb m x @ bits_lsb n (x div 2 ^ m)"
  by (rule nth_equalityI) (auto simp: bits_lsb_def nth_append div_mult2_eq [symmetric] power_add [symmetric])

lemma bits_lsb_mod: "bits_lsb n (x mod 2 ^ n) = bits_lsb n x"
proof (rule nth_equalityI)
  fix i
  assume "i < length (bits_lsb n (x mod 2 ^ n))"
  then show "bits_lsb n (x mod 2 ^ n) ! i = bits_lsb n x ! i"
    by (simp add: bits_lsb_def) (metis drop_bit_eq_div even_iff_mod_2_eq_zero take_bit_eq_mod bit_iff_odd bit_take_bit_iff mod2_eq_if)
qed simp

lemma bits_of_value: "rev (bits_of_bytes bs) = bits_lsb (8 * length bs) (be_value bs)"
proof (induction bs rule: rev_induct)
  case (snoc c bs)
  have "bits_lsb 8 (256 * be_value bs + byte_val c) = bits_lsb 8 (byte_val c)"
    using bits_lsb_mod [of 8 "256 * be_value bs + byte_val c"] bits_lsb_mod [of 8 "byte_val c"] by simp
  moreover have "(256 * be_value bs + byte_val c) div 2 ^ 8 = be_value bs" by simp
  ultimately show ?case
    using snoc.IH bits_lsb_append [of 8 "8 * length bs" "256 * be_value bs + byte_val c"]
    by (simp add: bits_of_bytes_def)
qed (simp add: bits_of_bytes_def bits_lsb_def)

lemma length_bits_of_bytes [simp]: "length (bits_of_bytes bs) = 8 * length bs"
  by (induction bs) (auto simp: bits_of_bytes_def)

lemma bits_of_bytes_append: "bits_of_bytes (xs @ ys) = bits_of_bytes xs @ bits_of_bytes ys"
  by (simp add: bits_of_bytes_def)

lemma bits2num_value:
  assumes "circomlib_ok sha lib" and "length bs = 16"
  shows "cl_bits2num lib (rev (bits_of_bytes bs)) = be_value bs"
proof -
  have "be_value bs < 2 ^ 128" using be_value_less [of bs] assms(2) by simp
  then show ?thesis using assms by (simp add: bits_of_value circomlib_ok_def)
qed

lemma open_commitment_eq:
  assumes lib: "circomlib_ok sha lib" and "list_all is_signal (message @ blinder)"
  shows "open_commitment lib message blinder =
    (if byte_signals (message @ blinder) then
       (let d = sha (as_bytes message @ as_bytes blinder) in Some (be_value (take 16 d), be_value (drop 16 d)))
     else None)"
proof -
  let ?d = "sha (as_bytes (message @ blinder))"
  have d: "length ?d = 32" "cl_sha256 lib (bits_of_bytes (as_bytes (message @ blinder))) = bits_of_bytes ?d"
    using lib by (simp_all add: circomlib_ok_def)
  have "bits_of_bytes ?d = bits_of_bytes (take 16 ?d) @ bits_of_bytes (drop 16 ?d)"
    by (metis append_take_drop_id bits_of_bytes_append)
  then have "take 128 (bits_of_bytes ?d) = bits_of_bytes (take 16 ?d)"
    "take 128 (drop 128 (bits_of_bytes ?d)) = bits_of_bytes (drop 16 ?d)"
    using d(1) by simp_all
  then show ?thesis
    using bytes_to_bits [OF assms] bits2num_value [OF lib, of "take 16 ?d"] bits2num_value [OF lib, of "drop 16 ?d"] d
    by (simp add: open_commitment_def Let_def as_bytes_def)
qed

lemma pack_bytes_eq:
  assumes "byte_signals ns" and "length ns \<le> 31"
  shows "pack_bytes ns = be_value (as_bytes ns)"
  using assms
proof (induction ns rule: rev_induct)
  case (snoc n ns)
  have "be_value (as_bytes (ns @ [n])) < 256 ^ 31"
    using be_value_less [of "as_bytes (ns @ [n])"] snoc.prems(2)
    by (metis as_bytes_def length_map less_le_trans one_le_numeral power_increasing)
  moreover have "(256::nat) ^ 31 < BN254_R" by (simp add: BN254_R_def)
  ultimately have "be_value (as_bytes (ns @ [n])) mod BN254_R = be_value (as_bytes (ns @ [n]))" by simp
  then show ?case
    using snoc by (simp add: pack_bytes_def as_bytes_def byte_signals_def mult.commute)
qed (simp add: pack_bytes_def as_bytes_def)

subsection \<open>A reference circomlib\<close>

text \<open>The documented behaviour is satisfiable for every hash of 32 bytes.\<close>

fun bits_value :: "nat list \<Rightarrow> nat" where
  "bits_value [] = 0"
| "bits_value (b # bs) = b + 2 * bits_value bs"

primrec bytes_of_bits :: "nat \<Rightarrow> nat list \<Rightarrow> bytes" where
  "bytes_of_bits 0 bits = []"
| "bytes_of_bits (Suc n) bits = char_of (bits_value (rev (take 8 bits))) # bytes_of_bits n (drop 8 bits)"

definition ref_circomlib :: "(bytes \<Rightarrow> bytes) \<Rightarrow> circomlib" where
  "ref_circomlib sha =
     \<lparr>cl_num2bits = (\<lambda>n x. if x < 2 ^ n then Some (bits_lsb n x) else None),
      cl_bits2num = bits_value, cl_is_equal = (\<lambda>a b. if a = b then 1 else 0),
      cl_sha256 = (\<lambda>bits. bits_of_bytes (sha (bytes_of_bits (length bits div 8) bits)))\<rparr>"

lemma bits_lsb_Suc: "bits_lsb (Suc n) x = x mod 2 # bits_lsb n (x div 2)"
  using bits_lsb_append [of 1 n x] by (simp add: bits_lsb_def)

lemma bits_value_lsb: "bits_value (bits_lsb n x) = x mod 2 ^ n"
proof (induction n arbitrary: x)
  case (Suc n)
  have "x mod 2 ^ Suc n = 2 * (x div 2 mod 2 ^ n) + x mod 2" by (simp add: mod_mult2_eq)
  then show ?case using Suc by (simp add: bits_lsb_Suc)
qed (simp add: bits_lsb_def)

lemma bytes_of_bits_bytes: "bytes_of_bits (length bs) (bits_of_bytes bs) = bs"
proof (induction bs)
  case (Cons c bs)
  have "bits_value (bits_lsb 8 (byte_val c)) = byte_val c" by (simp add: bits_value_lsb)
  moreover have "bits_of_bytes (c # bs) = rev (bits_lsb 8 (byte_val c)) @ bits_of_bytes bs"
    by (simp add: bits_of_bytes_def)
  ultimately show ?case using Cons by simp
qed simp

lemma ref_circomlib_ok: "(\<And>bs. length (sha bs) = 32) \<Longrightarrow> circomlib_ok sha (ref_circomlib sha)"
  by (auto simp: circomlib_ok_def ref_circomlib_def bits_value_lsb bytes_of_bits_bytes)

end
