(* ===== verification/Phi_R.thy ===== *)
theory Phi_R
  imports Circom
begin

section \<open>The circuit phi_R\<close>

text \<open>
  Model of \<open>circuits/src/phi_r.circom\<close> (the statement that a Register proof proves) over the components of
  \<open>Circom\<close>: the constraints as a predicate on the parameters, the nine public inputs and the private
  inputs. The main lemma reads it back as bytes: the constraints hold for the public inputs of an instance
  exactly when the private input opens the attested commitments, shows a non-empty account in an owner slot
  and the property of the transaction data.
\<close>

record phi_r_witness =
  w_account :: "nat list"
  w_owners :: "nat list"
  w_property :: "nat list"
  w_account_blinder :: "nat list"
  w_owners_blinder :: "nat list"
  w_property_blinder :: "nat list"

definition phi_r_asserts :: "phi_r_params \<Rightarrow> bool" where
  "phi_r_asserts P \<longleftrightarrow>
     p_owner_stride P = p_account_width P + 3 \<and>
     p_owners_len P = (p_owner_slots P - 1) * p_owner_stride P + p_account_width P \<and>
     p_account_width P \<le> 31 \<and> p_property_id_width P \<le> 32 \<and> 16 < p_property_id_width P"

text \<open>The declared lengths of the signal arrays.\<close>

definition phi_r_shape :: "phi_r_params \<Rightarrow> nat list \<Rightarrow> phi_r_witness \<Rightarrow> bool" where
  "phi_r_shape P xs w \<longleftrightarrow>
     length xs = 9 \<and> length (w_account w) = p_account_width P \<and> length (w_owners w) = p_owners_len P \<and>
     length (w_property w) = p_property_id_width P \<and> length (w_account_blinder w) = 16 \<and>
     length (w_owners_blinder w) = 16 \<and> length (w_property_blinder w) = 16 \<and>
     list_all is_signal (xs @ w_account w @ w_owners w @ w_property w @
       w_account_blinder w @ w_owners_blinder w @ w_property_blinder w)"

definition owner_slot :: "phi_r_params \<Rightarrow> 'a list \<Rightarrow> nat \<Rightarrow> 'a list" where
  "owner_slot P os k = take (p_account_width P) (drop (k * p_owner_stride P) os)"

definition separators_hold :: "phi_r_params \<Rightarrow> nat list \<Rightarrow> bool" where
  "separators_hold P os \<longleftrightarrow>
     list_all (\<lambda>k. take 3 (drop (k * p_owner_stride P + p_account_width P) os) = [34, 44, 34])
       [0..<p_owner_slots P - 1]"

definition field_sub :: "nat \<Rightarrow> nat \<Rightarrow> nat" where
  "field_sub a b = field_mod (a + (BN254_R - b))"

fun no_match_up_to :: "circomlib \<Rightarrow> phi_r_params \<Rightarrow> nat list \<Rightarrow> nat list \<Rightarrow> nat \<Rightarrow> nat" where
  "no_match_up_to lib P os acct 0 = 1"
| "no_match_up_to lib P os acct (Suc k) =
     field_mod (no_match_up_to lib P os acct k *
       field_sub 1 (cl_is_equal lib (pack_bytes (owner_slot P os k)) (pack_bytes acct)))"

definition phi_r :: "circomlib \<Rightarrow> phi_r_params \<Rightarrow> nat list \<Rightarrow> phi_r_witness \<Rightarrow> bool" where
  "phi_r lib P xs w \<longleftrightarrow>
     phi_r_asserts P \<and> phi_r_shape P xs w \<and>
     open_commitment lib (w_account w) (w_account_blinder w) = Some (xs ! 0, xs ! 1) \<and>
     open_commitment lib (w_owners w) (w_owners_blinder w) = Some (xs ! 2, xs ! 3) \<and>
     open_commitment lib (w_property w) (w_property_blinder w) = Some (xs ! 4, xs ! 5) \<and>
     w_account w \<noteq> [] \<and> cl_is_equal lib (hd (w_account w)) (byte_val (p_padding P)) = 0 \<and>
     separators_hold P (w_owners w) \<and>
     no_match_up_to lib P (w_owners w) (w_account w) (p_owner_slots P) = 0 \<and>
     pack_bytes (take 16 (w_property w)) = xs ! 6 \<and>
     field_mod (pack_bytes (drop 16 (w_property w)) * 256 ^ (32 - p_property_id_width P)) = xs ! 7"

subsection \<open>Reading the constraints\<close>

lemma no_match_zero:
  assumes "circomlib_ok sha lib" and "\<And>k. k < n \<Longrightarrow> is_signal (pack_bytes (owner_slot P os k))"
    and "is_signal (pack_bytes acct)"
  shows "no_match_up_to lib P os acct n =
    (if \<exists>k < n. pack_bytes (owner_slot P os k) = pack_bytes acct then 0 else 1)"
  using assms(2)
proof (induction n)
  case (Suc n)
  have "cl_is_equal lib (pack_bytes (owner_slot P os n)) (pack_bytes acct) =
      (if pack_bytes (owner_slot P os n) = pack_bytes acct then 1 else 0)"
    using assms(1,3) Suc.prems [of n] by (simp add: circomlib_ok_def)
  then show ?case using Suc by (auto simp: field_sub_def BN254_R_def less_Suc_eq)
qed simp

lemma pack_signal: "is_signal (pack_bytes ns)"
proof -
  have "0 < BN254_R" by (simp add: BN254_R_def)
  then show ?thesis
    by (cases ns rule: rev_cases) (simp_all add: pack_bytes_def is_signal_def)
qed

lemma owner_slot_length:
  assumes "phi_r_asserts P" and "length os = p_owners_len P" and "k < p_owner_slots P"
  shows "length (owner_slot P os k) = p_account_width P"
proof -
  have "k * p_owner_stride P \<le> (p_owner_slots P - 1) * p_owner_stride P"
    using assms(3) by (intro mult_le_mono1) simp
  moreover have "length os = (p_owner_slots P - 1) * p_owner_stride P + p_account_width P"
    using assms(1,2) by (simp only: phi_r_asserts_def)
  ultimately show ?thesis by (simp only: owner_slot_def length_take length_drop)
qed

lemma byte_vals_as_bytes: "byte_signals xs \<Longrightarrow> map byte_val (as_bytes xs) = xs"
  by (induction xs) (simp_all add: as_bytes_def byte_signals_def)

lemma as_bytes_inject: "byte_signals xs \<Longrightarrow> byte_signals ys \<Longrightarrow> as_bytes xs = as_bytes ys \<Longrightarrow> xs = ys"
  by (metis byte_vals_as_bytes)

lemma byte_signals_sub:
  "byte_signals ns \<Longrightarrow> byte_signals (take n ns)" "byte_signals ns \<Longrightarrow> byte_signals (drop n ns)"
  "byte_signals ns \<Longrightarrow> byte_signals (owner_slot P ns k)"
  by (auto simp: byte_signals_def owner_slot_def list_all_iff dest: in_set_takeD in_set_dropD)

lemma as_bytes_simps [simp]:
  "length (as_bytes ns) = length ns" "as_bytes (take n ns) = take n (as_bytes ns)"
  "as_bytes (drop n ns) = drop n (as_bytes ns)" "as_bytes (xs @ ys) = as_bytes xs @ as_bytes ys"
  by (simp_all add: as_bytes_def take_map drop_map)

lemma as_bytes_Nil [simp]: "as_bytes ns = [] \<longleftrightarrow> ns = []"
  by (simp add: as_bytes_def)

lemma pack_inject:
  assumes "byte_signals xs" "byte_signals ys" "length xs = length ys" "length xs \<le> 31"
  shows "pack_bytes xs = pack_bytes ys \<longleftrightarrow> xs = ys"
  using assms as_bytes_inject [of xs ys] be_value_inject [of "as_bytes xs" "as_bytes ys"]
  by (auto simp: pack_bytes_eq)

text \<open>The owner slots of a byte string, at the stride of the layout.\<close>

definition opens_word :: "(bytes \<Rightarrow> bytes) \<Rightarrow> bytes \<Rightarrow> bytes \<Rightarrow> bytes \<Rightarrow> bool" where
  "opens_word sha h message blinder \<longleftrightarrow> length blinder = 16 \<and> sha (message @ blinder) = h"

lemma open_word:
  assumes "circomlib_ok sha lib" and "list_all is_signal (message @ blinder)" and "length blinder = 16" and "is_word h"
  shows "open_commitment lib message blinder = Some (be_value (take 16 h), be_value (drop 16 h)) \<longleftrightarrow>
    byte_signals (message @ blinder) \<and> opens_word sha h (as_bytes message) (as_bytes blinder)"
proof -
  let ?d = "sha (as_bytes message @ as_bytes blinder)"
  have d: "length ?d = 32" using assms(1) by (simp add: circomlib_ok_def)
  have "be_value (take 16 ?d) = be_value (take 16 h) \<and> be_value (drop 16 ?d) = be_value (drop 16 h) \<longleftrightarrow> ?d = h"
    using d assms(4) by (simp add: be_value_inject is_word_def) (metis append_take_drop_id)
  then show ?thesis
    using open_commitment_eq [OF assms(1,2)] assms(3) by (auto simp: opens_word_def Let_def)
qed

text \<open>What a private input means for a public instance, as bytes.\<close>

definition names_owner :: "(bytes \<Rightarrow> bytes) \<Rightarrow> phi_r_params \<Rightarrow> phi_r_public \<Rightarrow> phi_r_witness \<Rightarrow> bool" where
  "names_owner sha P pub w \<longleftrightarrow>
     (let acct = as_bytes (w_account w); os = as_bytes (w_owners w); prp = as_bytes (w_property w) in
      opens_word sha (r_account_hash pub) acct (as_bytes (w_account_blinder w)) \<and>
      opens_word sha (r_owners_hash pub) os (as_bytes (w_owners_blinder w)) \<and>
      opens_word sha (r_property_hash pub) prp (as_bytes (w_property_blinder w)) \<and>
      length acct = p_account_width P \<and> length os = p_owners_len P \<and> length prp = p_property_id_width P \<and>
      acct \<noteq> [] \<and> hd acct \<noteq> p_padding P \<and>
      list_all (\<lambda>k. take 3 (drop (k * p_owner_stride P + p_account_width P) os) = [dquote, CHR '','', dquote])
        [0..<p_owner_slots P - 1] \<and>
      (\<exists>k < p_owner_slots P. owner_slot P os k = acct) \<and>
      r_property_id pub = prp @ replicate (32 - p_property_id_width P) (CHR 0x00))"

lemma be_value_zeros: "be_value (bs @ replicate n (CHR 0x00)) = be_value bs * 256 ^ n"
  by (induction n) (simp_all add: replicate_append_same [symmetric] flip: append_assoc)

lemma property_word:
  assumes w: "16 < n" "n \<le> 32" and bytes: "byte_signals ns" "length ns = n" and word: "is_word pid"
    and hi: "pack_bytes (take 16 ns) = be_value (take 16 pid)"
    and lo: "field_mod (pack_bytes (drop 16 ns) * 256 ^ (32 - n)) = be_value (drop 16 pid)"
  shows "pid = as_bytes ns @ replicate (32 - n) (CHR 0x00)"
proof -
  let ?lo = "drop 16 (as_bytes ns) @ replicate (32 - n) (CHR 0x00)"
  have "be_value (take 16 (as_bytes ns)) = be_value (take 16 pid)"
    using hi pack_bytes_eq [OF byte_signals_sub(1) [OF bytes(1)], of 16] by simp
  then have "take 16 (as_bytes ns) = take 16 pid"
    using w bytes(2) word by (subst (asm) be_value_inject) (simp_all add: is_word_def)
  moreover have "drop 16 pid = ?lo"
  proof -
    have len: "length ?lo = 16" "length (drop 16 pid) = 16" using w bytes(2) word by (simp_all add: is_word_def)
    have "be_value ?lo < BN254_R"
      using be_value_less [of ?lo] len(1) by (simp add: BN254_R_def)
    moreover have "pack_bytes (drop 16 ns) * 256 ^ (32 - n) = be_value ?lo"
      using pack_bytes_eq [OF byte_signals_sub(2) [OF bytes(1)], of 16] bytes(2) w by (simp add: be_value_zeros)
    ultimately have "be_value (drop 16 pid) = be_value ?lo" using lo by simp
    then show ?thesis using len be_value_inject by metis
  qed
  ultimately have "pid = take 16 (as_bytes ns) @ ?lo" by (metis append_take_drop_id)
  then show ?thesis by (metis append_assoc append_take_drop_id)
qed

definition public_signals :: "phi_r_public \<Rightarrow> nat list" where
  "public_signals pub = map dec_value (phi_r_inputs pub)"

lemma public_signals_nth:
  "public_signals pub = [be_value (take 16 (r_account_hash pub)), be_value (drop 16 (r_account_hash pub)),
     be_value (take 16 (r_owners_hash pub)), be_value (drop 16 (r_owners_hash pub)),
     be_value (take 16 (r_property_hash pub)), be_value (drop 16 (r_property_hash pub)),
     be_value (take 16 (r_property_id pub)), be_value (drop 16 (r_property_id pub)),
     be_value (r_digest pub) mod BN254_R]"
  by (simp add: public_signals_def phi_r_inputs_def limbs_def bind_value_def)

definition word_instance :: "phi_r_public \<Rightarrow> bool" where
  "word_instance pub \<longleftrightarrow>
     is_word (r_account_hash pub) \<and> is_word (r_owners_hash pub) \<and> is_word (r_property_hash pub) \<and> is_word (r_property_id pub)"

lemma char_34: "char_of (34::nat) = dquote"
proof -
  have "of_char dquote = (34::nat)" by simp
  then show ?thesis by (metis char_of_char)
qed

lemma char_44: "char_of (44::nat) = CHR '','' "
proof -
  have "of_char (CHR '','') = (44::nat)" by simp
  then show ?thesis by (metis char_of_char)
qed

text \<open>The private input consists of bytes.\<close>

definition byte_witness :: "phi_r_witness \<Rightarrow> bool" where
  "byte_witness w \<longleftrightarrow> byte_signals (w_account w @ w_owners w @ w_property w @
     w_account_blinder w @ w_owners_blinder w @ w_property_blinder w)"

lemma property_word_rev:
  assumes w: "16 < n" "n \<le> 32" and bytes: "byte_signals ns" "length ns = n"
    and pid: "pid = as_bytes ns @ replicate (32 - n) (CHR 0x00)"
  shows "pack_bytes (take 16 ns) = be_value (take 16 pid) \<and>
    field_mod (pack_bytes (drop 16 ns) * 256 ^ (32 - n)) = be_value (drop 16 pid)"
proof -
  let ?lo = "drop 16 (as_bytes ns) @ replicate (32 - n) (CHR 0x00)"
  have "pack_bytes (take 16 ns) = be_value (take 16 pid)"
    using pack_bytes_eq [OF byte_signals_sub(1) [OF bytes(1)], of 16] pid w bytes(2) by simp
  moreover have "drop 16 pid = ?lo" using pid w bytes(2) by simp
  moreover have "be_value ?lo < BN254_R"
    using be_value_less [of ?lo] w bytes(2) by (simp add: BN254_R_def)
  moreover have "pack_bytes (drop 16 ns) * 256 ^ (32 - n) = be_value ?lo"
    using pack_bytes_eq [OF byte_signals_sub(2) [OF bytes(1)], of 16] bytes(2) w by (simp add: be_value_zeros)
  ultimately show ?thesis by simp
qed

text \<open>The check that an identifier does not start with the padding byte.\<close>

lemma first_byte:
  assumes "circomlib_ok sha lib" and "byte_signals ns" and "ns \<noteq> []"
  shows "cl_is_equal lib (hd ns) (byte_val c) = 0 \<longleftrightarrow> hd (as_bytes ns) \<noteq> c"
proof -
  obtain n t where ns: "ns = n # t" using assms(3) by (cases ns) auto
  then have n: "n < 256" using assms(2) by (simp add: byte_signals_def)
  have "byte_val c < 256" by simp
  then have "is_signal n" "is_signal (byte_val c)" using n unfolding is_signal_def BN254_R_def by linarith+
  then have "cl_is_equal lib n (byte_val c) = (if n = byte_val c then 1 else 0)"
    using assms(1) by (simp add: circomlib_ok_def)
  moreover have "char_of n = c \<longleftrightarrow> n = byte_val c" using n by auto
  ultimately show ?thesis by (simp add: ns as_bytes_def)
qed

lemma separators_bytes:
  assumes "byte_signals os"
  shows "separators_hold P os \<longleftrightarrow>
    list_all (\<lambda>k. take 3 (drop (k * p_owner_stride P + p_account_width P) (as_bytes os)) =
      [dquote, CHR '','', dquote]) [0..<p_owner_slots P - 1]"
proof -
  have sep: "as_bytes [34, 44, 34] = [dquote, CHR '','', dquote]" by (simp add: as_bytes_def char_34 char_44)
  have "byte_signals [34, 44, 34]" by (simp add: byte_signals_def)
  then have "take 3 (drop n os) = [34, 44, 34] \<longleftrightarrow> take 3 (drop n (as_bytes os)) = [dquote, CHR '','', dquote]" for n
    using as_bytes_inject [OF byte_signals_sub(1) [OF byte_signals_sub(2) [OF assms]], where ys = "[34, 44, 34]"] sep
    by (metis as_bytes_simps(2,3))
  then show ?thesis by (simp add: separators_hold_def)
qed

lemma phi_r_sound:
  assumes lib: "circomlib_ok sha lib" and words: "word_instance pub" and sat: "phi_r lib P (public_signals pub) w"
  shows "names_owner sha P pub w \<and> byte_witness w"
proof -
  note sat' = sat [unfolded phi_r_def public_signals_nth]
  have P: "phi_r_asserts P" using sat by (simp add: phi_r_def)
  have lens: "length (w_account w) = p_account_width P" "length (w_owners w) = p_owners_len P"
    "length (w_property w) = p_property_id_width P" "length (w_account_blinder w) = 16"
    "length (w_owners_blinder w) = 16" "length (w_property_blinder w) = 16"
    and sigs: "list_all is_signal (w_account w @ w_account_blinder w)" "list_all is_signal (w_owners w @ w_owners_blinder w)"
    "list_all is_signal (w_property w @ w_property_blinder w)"
    using sat by (auto simp: phi_r_def phi_r_shape_def)
  have acct: "byte_signals (w_account w @ w_account_blinder w)"
      "opens_word sha (r_account_hash pub) (as_bytes (w_account w)) (as_bytes (w_account_blinder w))"
    and ownrs: "byte_signals (w_owners w @ w_owners_blinder w)"
      "opens_word sha (r_owners_hash pub) (as_bytes (w_owners w)) (as_bytes (w_owners_blinder w))"
    and prp: "byte_signals (w_property w @ w_property_blinder w)"
      "opens_word sha (r_property_hash pub) (as_bytes (w_property w)) (as_bytes (w_property_blinder w))"
    using sat' words open_word [OF lib sigs(1) lens(4)] open_word [OF lib sigs(2) lens(5)] open_word [OF lib sigs(3) lens(6)]
    by (auto simp: word_instance_def)
  have bytes: "byte_signals (w_account w)" "byte_signals (w_owners w)" "byte_signals (w_property w)"
    using acct(1) ownrs(1) prp(1) by (simp_all add: byte_signals_def)
  have wd: "16 < p_property_id_width P" "p_property_id_width P \<le> 32" using P by (simp_all add: phi_r_asserts_def)
  have pid: "r_property_id pub = as_bytes (w_property w) @ replicate (32 - p_property_id_width P) (CHR 0x00)"
    using property_word [OF wd bytes(3) lens(3)] words sat' by (simp add: word_instance_def)
  obtain k where k: "k < p_owner_slots P" "pack_bytes (owner_slot P (w_owners w) k) = pack_bytes (w_account w)"
    using no_match_zero [OF lib pack_signal pack_signal, where n = "p_owner_slots P" and P = P and os = "w_owners w" and acct = "w_account w"] sat'
    by (auto split: if_splits)
  have "owner_slot P (w_owners w) k = w_account w"
    using pack_inject [OF byte_signals_sub(3) [OF bytes(2)] bytes(1), of P k] k owner_slot_length [OF P lens(2) k(1)]
      lens(1) P by (simp add: phi_r_asserts_def)
  then have slot: "owner_slot P (as_bytes (w_owners w)) k = as_bytes (w_account w)"
    by (metis as_bytes_simps(2,3) owner_slot_def)
  have first: "w_account w \<noteq> []" "cl_is_equal lib (hd (w_account w)) (byte_val (p_padding P)) = 0" using sat' by simp_all
  have "hd (as_bytes (w_account w)) \<noteq> p_padding P" using first first_byte [OF lib bytes(1)] by simp
  moreover have "list_all (\<lambda>k. take 3 (drop (k * p_owner_stride P + p_account_width P) (as_bytes (w_owners w))) =
      [dquote, CHR '','', dquote]) [0..<p_owner_slots P - 1]"
    using sat' separators_bytes [OF bytes(2)] by simp
  ultimately show ?thesis
    unfolding names_owner_def Let_def using acct(2) ownrs(2) prp(2) lens first(1) k(1) slot pid acct(1) ownrs(1) prp(1)
    by (auto simp: byte_witness_def byte_signals_def)
qed

lemma phi_r_complete:
  assumes lib: "circomlib_ok sha lib" and words: "word_instance pub" and P: "phi_r_asserts P"
    and names: "names_owner sha P pub w" and bytes: "byte_witness w"
  shows "phi_r lib P (public_signals pub) w"
proof -
  note n = names [unfolded names_owner_def Let_def]
  have b: "byte_signals (w_account w)" "byte_signals (w_owners w)" "byte_signals (w_property w)"
    and bl: "byte_signals (w_account w @ w_account_blinder w)" "byte_signals (w_owners w @ w_owners_blinder w)"
      "byte_signals (w_property w @ w_property_blinder w)"
    using bytes by (auto simp: byte_witness_def byte_signals_def)
  have sig: "list_all is_signal ns" if "byte_signals ns" for ns
    using that by (auto simp: byte_signals_def list_all_iff is_signal_def BN254_R_def)
  have len: "length (w_account_blinder w) = 16" "length (w_owners_blinder w) = 16" "length (w_property_blinder w) = 16"
    using n by (auto simp: opens_word_def)
  have xs: "list_all is_signal (public_signals pub)"
    using words limbs_below bind_below
    by (auto simp: public_signals_def phi_r_inputs_def list_all_iff is_signal_def word_instance_def)
  have shape: "phi_r_shape P (public_signals pub) w"
    using xs sig [of "w_account w"] sig [of "w_owners w"] sig [of "w_property w"] bl b len n sig
    by (auto simp: phi_r_shape_def byte_signals_def public_signals_nth)
  have open_eqs: "open_commitment lib (w_account w) (w_account_blinder w)
        = Some (be_value (take 16 (r_account_hash pub)), be_value (drop 16 (r_account_hash pub)))"
      "open_commitment lib (w_owners w) (w_owners_blinder w)
        = Some (be_value (take 16 (r_owners_hash pub)), be_value (drop 16 (r_owners_hash pub)))"
      "open_commitment lib (w_property w) (w_property_blinder w)
        = Some (be_value (take 16 (r_property_hash pub)), be_value (drop 16 (r_property_hash pub)))"
    using open_word [OF lib sig [OF bl(1)] len(1)] open_word [OF lib sig [OF bl(2)] len(2)]
      open_word [OF lib sig [OF bl(3)] len(3)] words bl n
    by (auto simp: word_instance_def)
  have first: "w_account w \<noteq> []" "cl_is_equal lib (hd (w_account w)) (byte_val (p_padding P)) = 0"
    using n first_byte [OF lib b(1)] by auto
  have wd: "16 < p_property_id_width P" "p_property_id_width P \<le> 32" using P by (simp_all add: phi_r_asserts_def)
  obtain k where k: "k < p_owner_slots P" "owner_slot P (as_bytes (w_owners w)) k = as_bytes (w_account w)"
    using n by auto
  then have "owner_slot P (w_owners w) k = w_account w"
    using as_bytes_inject [OF byte_signals_sub(3) [OF b(2)] b(1), of P k] by (metis as_bytes_simps(2,3) owner_slot_def)
  then have match: "no_match_up_to lib P (w_owners w) (w_account w) (p_owner_slots P) = 0"
    using no_match_zero [OF lib pack_signal pack_signal, where n = "p_owner_slots P" and P = P and os = "w_owners w" and acct = "w_account w"]
      k(1) by auto
  have "separators_hold P (w_owners w)" using separators_bytes [OF b(2)] n by simp
  then show ?thesis
    using P shape open_eqs first match property_word_rev [OF wd b(3)] n
    unfolding phi_r_def public_signals_nth by simp
qed

end
