(* ===== verification/Groth16.thy ===== *)
theory Groth16
  imports Circuit_Inputs
begin

section \<open>Groth16 verification\<close>

text \<open>
  Model of \<open>pprev-notary/src/groth16.rs\<close>: the parsing of snarkjs' verification key, proof and public
  inputs, with the checks on field elements and points, and the verification under a key. The curve
  arithmetic and the pairing check are those of arkworks and \<open>serde_json\<close> reads the JSON: both are
  parameters, grouped in the record \<open>arkworks\<close>. A field element is a natural number below the modulus.
\<close>

record ('g1, 'g2) verifying_key =
  alpha_g1 :: 'g1
  beta_g2 :: 'g2
  gamma_g2 :: 'g2
  delta_g2 :: 'g2
  gamma_abc_g1 :: "'g1 list"

record ('g1, 'g2) groth16_proof =
  proof_a :: 'g1
  proof_b :: 'g2
  proof_c :: 'g1

record ('g1, 'g2, 'pvk) arkworks =
  fq_modulus :: nat
  fr_modulus :: nat
  g1_point :: "nat \<Rightarrow> nat \<Rightarrow> 'g1"
  g1_on_curve :: "'g1 \<Rightarrow> bool"
  g1_is_zero :: "'g1 \<Rightarrow> bool"
  g2_point :: "nat \<times> nat \<Rightarrow> nat \<times> nat \<Rightarrow> 'g2"
  g2_on_curve :: "'g2 \<Rightarrow> bool"
  g2_in_subgroup :: "'g2 \<Rightarrow> bool"
  g2_is_zero :: "'g2 \<Rightarrow> bool"
  prepare_key :: "('g1, 'g2) verifying_key \<Rightarrow> 'pvk"
  verify_proof :: "'pvk \<Rightarrow> ('g1, 'g2) groth16_proof \<Rightarrow> nat list \<Rightarrow> bool res"

definition parse_field :: "nat \<Rightarrow> bytes \<Rightarrow> nat res" where
  "parse_field modulus s =
     ensure (s \<noteq> [] \<and> all_digits s) ''not a decimal number'' (
     let n = dec_value s in
     ensure (n < 2 ^ 256) ''exceeds 256 bits'' (
     some_or ''not below the field modulus'' (if n < modulus then Some n else None)))"

definition parse_g1 :: "('g1, 'g2, 'pvk) arkworks \<Rightarrow> bytes list \<Rightarrow> 'g1 res" where
  "parse_g1 ark p =
     ensure (length p = 3 \<and> p ! 2 = ''1'') ''expected an affine G1 point'' (
     and_then (parse_field (fq_modulus ark) (p ! 0)) (\<lambda>x.
     and_then (parse_field (fq_modulus ark) (p ! 1)) (\<lambda>y.
     let point = g1_point ark x y in
     ensure (g1_on_curve ark point) ''G1 point is not on the curve'' (Inr point))))"

definition parse_fq2 :: "('g1, 'g2, 'pvk) arkworks \<Rightarrow> bytes list \<Rightarrow> (nat \<times> nat) res" where
  "parse_fq2 ark c =
     and_then (parse_field (fq_modulus ark) (c ! 0)) (\<lambda>a.
     and_then (parse_field (fq_modulus ark) (c ! 1)) (\<lambda>b. Inr (a, b)))"

definition parse_g2 :: "('g1, 'g2, 'pvk) arkworks \<Rightarrow> bytes list list \<Rightarrow> 'g2 res" where
  "parse_g2 ark p =
     ensure (length p = 3 \<and> list_all (\<lambda>c. length c = 2) p \<and> p ! 2 ! 0 = ''1'' \<and> p ! 2 ! 1 = ''0'')
       ''expected an affine G2 point'' (
     and_then (parse_fq2 ark (p ! 0)) (\<lambda>x.
     and_then (parse_fq2 ark (p ! 1)) (\<lambda>y.
     let point = g2_point ark x y in
     ensure (g2_on_curve ark point) ''G2 point is not on the curve'' (
     ensure (g2_in_subgroup ark point) ''G2 point is not in the prime-order subgroup''
       (Inr point)))))"

record vk_json =
  vk_protocol :: bytes
  vk_curve :: bytes
  vk_n_public :: nat
  vk_alpha_1 :: "bytes list"
  vk_beta_2 :: "bytes list list"
  vk_gamma_2 :: "bytes list list"
  vk_delta_2 :: "bytes list list"
  vk_ic :: "bytes list list"

record proof_json =
  pj_protocol :: bytes
  pj_curve :: bytes
  pj_a :: "bytes list"
  pj_b :: "bytes list list"
  pj_c :: "bytes list"

definition check_scheme :: "bytes \<Rightarrow> bytes \<Rightarrow> unit res" where
  "check_scheme protocol curve =
     ensure (protocol = ''groth16'') ''protocol is not groth16'' (
     ensure (curve = ''bn128'') ''curve is not bn128 (BN254)'' (Inr ()))"

record 'pvk groth16_verifier =
  verifier_pvk :: 'pvk
  verifier_n_public :: nat

definition verifier_from_json ::
    "('g1, 'g2, 'pvk) arkworks \<Rightarrow> (bytes \<Rightarrow> vk_json res) \<Rightarrow> bytes \<Rightarrow> 'pvk groth16_verifier res" where
  "verifier_from_json ark serde_json_from_str json =
     and_then (with_ctx ''parsing the verification key'' (serde_json_from_str json)) (\<lambda>vk.
     and_then (check_scheme (vk_protocol vk) (vk_curve vk)) (\<lambda>_.
     ensure (length (vk_ic vk) = vk_n_public vk + 1) ''IC has the wrong number of points'' (
     and_then (parse_g1 ark (vk_alpha_1 vk)) (\<lambda>alpha.
     and_then (parse_g2 ark (vk_beta_2 vk)) (\<lambda>beta.
     and_then (parse_g2 ark (vk_gamma_2 vk)) (\<lambda>gamma.
     and_then (parse_g2 ark (vk_delta_2 vk)) (\<lambda>delta.
     and_then (collect_res (parse_g1 ark) (vk_ic vk)) (\<lambda>ic.
     Inr \<lparr>verifier_pvk = prepare_key ark
            \<lparr>alpha_g1 = alpha, beta_g2 = beta, gamma_g2 = gamma, delta_g2 = delta,
             gamma_abc_g1 = ic\<rparr>,
          verifier_n_public = vk_n_public vk\<rparr>))))))))"

definition groth16_verify ::
    "('g1, 'g2, 'pvk) arkworks \<Rightarrow> 'pvk groth16_verifier \<Rightarrow> ('g1, 'g2) groth16_proof
      \<Rightarrow> bytes list \<Rightarrow> bool res" where
  "groth16_verify ark v prf public =
     (if length public \<noteq> verifier_n_public v then bail ''wrong number of public inputs''
      else and_then (collect_res (parse_field (fr_modulus ark)) public) (\<lambda>inputs.
           with_ctx ''Groth16 verification'' (verify_proof ark (verifier_pvk v) prf inputs)))"

definition proof_from_json ::
    "('g1, 'g2, 'pvk) arkworks \<Rightarrow> (bytes \<Rightarrow> proof_json res) \<Rightarrow> bytes \<Rightarrow> ('g1, 'g2) groth16_proof res"
    where
  "proof_from_json ark serde_json_from_str json =
     and_then (with_ctx ''parsing the proof'' (serde_json_from_str json)) (\<lambda>p.
     and_then (check_scheme (pj_protocol p) (pj_curve p)) (\<lambda>_.
     and_then (parse_g1 ark (pj_a p)) (\<lambda>a.
     and_then (parse_g2 ark (pj_b p)) (\<lambda>b.
     and_then (parse_g1 ark (pj_c p)) (\<lambda>c.
     ensure (\<not> g1_is_zero ark a \<and> \<not> g2_is_zero ark b \<and> \<not> g1_is_zero ark c)
       ''proof has a point at infinity''
       (Inr \<lparr>proof_a = a, proof_b = b, proof_c = c\<rparr>))))))"

definition public_from_json ::
    "('g1, 'g2, 'pvk) arkworks \<Rightarrow> (bytes \<Rightarrow> bytes list res) \<Rightarrow> bytes \<Rightarrow> bytes list res" where
  "public_from_json ark serde_json_from_str json =
     and_then (with_ctx ''parsing the public inputs'' (serde_json_from_str json)) (\<lambda>public.
     and_then (for_each_res (\<lambda>s. and_then (parse_field (fr_modulus ark) s) (\<lambda>_. Inr ())) public)
       (\<lambda>_. Inr public))"

subsection \<open>Field elements and points\<close>

lemma parse_field_Inr_iff:
  "parse_field modulus s = Inr n \<longleftrightarrow>
     s \<noteq> [] \<and> all_digits s \<and> n = dec_value s \<and> n < 2 ^ 256 \<and> n < modulus"
  by (auto simp: parse_field_def Let_def ensure_Inr_iff)

lemma parse_field_dec: "n < modulus \<Longrightarrow> modulus \<le> 2 ^ 256 \<Longrightarrow> parse_field modulus (dec n) = Inr n"
  by (simp add: parse_field_Inr_iff)

lemma parse_g1_Inr: "parse_g1 ark p = Inr x \<Longrightarrow> g1_on_curve ark x"
  by (auto simp: parse_g1_def ensure_Inr_iff and_then_Inr_iff Let_def)

lemma parse_g2_Inr: "parse_g2 ark p = Inr x \<Longrightarrow> g2_on_curve ark x \<and> g2_in_subgroup ark x"
  by (auto simp: parse_g2_def ensure_Inr_iff and_then_Inr_iff Let_def)

text \<open>Decimal strings of numbers below the scalar modulus are accepted as they are.\<close>

lemma collect_field_dec:
  "(\<And>s. s \<in> set public \<Longrightarrow> \<exists>n. s = dec n \<and> n < modulus) \<Longrightarrow> modulus \<le> 2 ^ 256 \<Longrightarrow>
   collect_res (parse_field modulus) public = Inr (map dec_value public)"
proof (induction public)
  case (Cons s public)
  from Cons.prems(1) [of s] obtain n where "s = dec n" "n < modulus" by auto
  with Cons parse_field_dec [of n modulus] show ?case by auto
qed simp

lemma limbs_dec: "is_word v \<Longrightarrow> s \<in> set (limbs v) \<Longrightarrow> \<exists>n. s = dec n \<and> n < BN254_R"
  using limbs_below [of v s] by (auto simp: limbs_def)

lemma bind_dec: "\<exists>n. bind_value d = dec n \<and> n < BN254_R"
  using bind_below [of d] by (auto simp: bind_value_def)

lemma BN254_R_256: "BN254_R \<le> 2 ^ 256"
  by (simp add: BN254_R_def)

lemma phi_r_inputs_dec:
  "list_all is_word [r_account_hash p, r_owners_hash p, r_property_hash p, r_property_id p] \<Longrightarrow>
   s \<in> set (phi_r_inputs p) \<Longrightarrow> \<exists>n. s = dec n \<and> n < BN254_R"
  using limbs_dec bind_dec by (auto simp: phi_r_inputs_def)

lemma groth16_verify_phi_r:
  assumes "fr_modulus ark = BN254_R" and "verifier_n_public v = PHI_R_PUBLIC_INPUTS"
    and "list_all is_word [r_account_hash p, r_owners_hash p, r_property_hash p, r_property_id p]"
  shows "groth16_verify ark v prf (phi_r_inputs p) =
    with_ctx ''Groth16 verification''
      (verify_proof ark (verifier_pvk v) prf (map dec_value (phi_r_inputs p)))"
proof -
  have "length (phi_r_inputs p) = PHI_R_PUBLIC_INPUTS"
    by (simp add: phi_r_inputs_def PHI_R_PUBLIC_INPUTS_def)
  moreover have "collect_res (parse_field BN254_R) (phi_r_inputs p) = Inr (map dec_value (phi_r_inputs p))"
    by (rule collect_field_dec [OF _ BN254_R_256]) (rule phi_r_inputs_dec [OF assms(3)])
  ultimately show ?thesis using assms(1,2) by (simp add: groth16_verify_def)
qed

text \<open>Under a key for nine inputs, verifying a phi_R proof never fails on the form of the inputs: the
  decision is the pairing check on exactly the numbers that the public instance encodes.\<close>

theorem verify_phi_r_inputs:
  assumes "fr_modulus ark = BN254_R" and "verifier_n_public v = PHI_R_PUBLIC_INPUTS"
    and "list_all is_word [r_account_hash p, r_owners_hash p, r_property_hash p, r_property_id p]"
  shows "groth16_verify ark v prf (phi_r_inputs p) =
    with_ctx ''Groth16 verification''
      (verify_proof ark (verifier_pvk v) prf (map dec_value (phi_r_inputs p)))"
  using assms by (rule groth16_verify_phi_r)

text \<open>A small instance of the parameters, for the concrete examples: points are their coordinates.\<close>

definition sample_ark :: "(nat \<times> nat, (nat \<times> nat) \<times> nat \<times> nat, nat) arkworks" where
  "sample_ark =
     \<lparr>fq_modulus = BN254_R, fr_modulus = BN254_R,
      g1_point = (\<lambda>x y. (x, y)), g1_on_curve = (\<lambda>(x, y). y = x + 1), g1_is_zero = (\<lambda>p. p = (0, 0)),
      g2_point = (\<lambda>x y. (x, y)), g2_on_curve = (\<lambda>_. True), g2_in_subgroup = (\<lambda>_. True),
      g2_is_zero = (\<lambda>p. p = ((0, 0), (0, 0))),
      prepare_key = (\<lambda>vk. length (gamma_abc_g1 vk)),
      verify_proof = (\<lambda>pvk prf inputs. Inr (fst (proof_a prf) = sum_list inputs))\<rparr>"

theorem verify_phi_r_inputs_witness:
  "\<exists>b. groth16_verify sample_ark \<lparr>verifier_pvk = 10, verifier_n_public = 9\<rparr>
     \<lparr>proof_a = (1, 2), proof_b = ((1, 1), (1, 1)), proof_c = (1, 2)\<rparr>
     (phi_r_inputs (sample_phi_r (CHR 0x01))) = Inr b"
proof -
  have "fr_modulus sample_ark = BN254_R" by (simp add: sample_ark_def)
  moreover have "verifier_n_public \<lparr>verifier_pvk = 10 :: nat, verifier_n_public = 9\<rparr> = PHI_R_PUBLIC_INPUTS"
    by (simp add: PHI_R_PUBLIC_INPUTS_def)
  moreover have "list_all is_word [r_account_hash (sample_phi_r (CHR 0x01)),
      r_owners_hash (sample_phi_r (CHR 0x01)), r_property_hash (sample_phi_r (CHR 0x01)),
      r_property_id (sample_phi_r (CHR 0x01))]" by (simp add: sample_phi_r_def is_word_def)
  ultimately show ?thesis
    using verify_phi_r_inputs [of sample_ark "\<lparr>verifier_pvk = 10 :: nat, verifier_n_public = 9\<rparr>"
      "sample_phi_r (CHR 0x01)"]
    by (simp add: sample_ark_def)
qed


end
