(* ===== verification/Nonces.thy ===== *)
theory Nonces
  imports Prelude "HOL-Library.Sublist"
begin

section \<open>The record of signed nonces\<close>

text \<open>
  Model of \<open>pprev-notary/src/nonces.rs\<close>: the append-only file with one nonce per line, the opening of
  the file at start and the recording of a nonce before a signature. The state is the content of the
  file and the set of nonces in memory. What the operating system does with one write is an outcome
  of the call: everything written and synced, a failure after a part of the line reached the file,
  or a failed sync. \<open>hex::encode\<close> and \<open>hex::decode\<close> are parameters; \<open>hex_codec\<close> states their documented
  behaviour. The locale \<open>nonce_log\<close> is the interface the signers rely on.
\<close>

subsection \<open>Reading lines\<close>

abbreviation LF :: char where "LF \<equiv> CHR 0x0A"
abbreviation CR :: char where "CR \<equiv> CHR 0x0D"

text \<open>\<open>String::from_utf8\<close>: the well-formed byte sequences of the Unicode standard.\<close>

definition in_range :: "nat \<Rightarrow> nat \<Rightarrow> char \<Rightarrow> bool" where
  "in_range lo hi c \<longleftrightarrow> lo \<le> byte_val c \<and> byte_val c \<le> hi"

fun utf8_valid :: "bytes \<Rightarrow> bool" where
  "utf8_valid [] = True"
| "utf8_valid (a # s) =
     (if byte_val a < 128 then utf8_valid s
      else case s of [] \<Rightarrow> False | b # t \<Rightarrow>
        if in_range 0xC2 0xDF a then in_range 0x80 0xBF b \<and> utf8_valid t
        else case t of [] \<Rightarrow> False | c # u \<Rightarrow>
          if in_range 0xE0 0xEF a then
            in_range (if byte_val a = 0xE0 then 0xA0 else 0x80)
              (if byte_val a = 0xED then 0x9F else 0xBF) b \<and> in_range 0x80 0xBF c \<and> utf8_valid u
          else case u of [] \<Rightarrow> False | d # v \<Rightarrow>
            in_range 0xF0 0xF4 a \<and>
            in_range (if byte_val a = 0xF0 then 0x90 else 0x80)
              (if byte_val a = 0xF4 then 0x8F else 0xBF) b \<and>
            in_range 0x80 0xBF c \<and> in_range 0x80 0xBF d \<and> utf8_valid v)"

text \<open>\<open>BufRead::lines\<close>: a line ends with a line feed, which is removed with a carriage return before
  it; what follows the last line feed is a line too, unless it is empty.\<close>

definition strip_cr :: "bytes \<Rightarrow> bytes" where
  "strip_cr l = (if l \<noteq> [] \<and> last l = CR then butlast l else l)"

function file_lines :: "bytes \<Rightarrow> bytes list" where
  "file_lines s =
     (if s = [] then []
      else case dropWhile (\<lambda>c. c \<noteq> LF) s of
        [] \<Rightarrow> [s]
      | _ # rest \<Rightarrow> strip_cr (takeWhile (\<lambda>c. c \<noteq> LF) s) # file_lines rest)"
  by pat_completeness auto
termination
proof (relation "measure length")
  fix s x and rest :: bytes
  assume "dropWhile (\<lambda>c. c \<noteq> LF) s = x # rest"
  then have "length (x # rest) \<le> length s" by (metis length_dropWhile_le)
  then show "(rest, s) \<in> measure length" by simp
qed simp

declare file_lines.simps [simp del]

text \<open>\<open>str::trim\<close>: the code points with the White_Space property, as UTF-8.\<close>

definition white_space :: "bytes list" where
  "white_space =
     map (\<lambda>n. [char_of n]) [9, 10, 11, 12, 13, 32 :: nat]
     @ [[CHR 0xC2, CHR 0x85], [CHR 0xC2, CHR 0xA0], [CHR 0xE1, CHR 0x9A, CHR 0x80]]
     @ map (\<lambda>n. [CHR 0xE2, CHR 0x80, char_of n])
         ([0x80, 0x81, 0x82, 0x83, 0x84, 0x85, 0x86, 0x87, 0x88, 0x89, 0x8A, 0xA8, 0xA9, 0xAF] :: nat list)
     @ [[CHR 0xE2, CHR 0x81, CHR 0x9F], [CHR 0xE3, CHR 0x80, CHR 0x80]]"

lemma white_space_nonempty: "w \<in> set white_space \<Longrightarrow> w \<noteq> []"
  by (auto simp: white_space_def)

function strip_prefixes :: "bytes list \<Rightarrow> bytes \<Rightarrow> bytes" where
  "strip_prefixes ws s =
     (case find (\<lambda>w. w \<noteq> [] \<and> prefix w s) ws of
        None \<Rightarrow> s
      | Some w \<Rightarrow> strip_prefixes ws (drop (length w) s))"
  by pat_completeness auto
termination
  by (relation "measure (\<lambda>(ws, s). length s)")
    (auto simp: find_Some_iff2 find_Some_iff prefix_def)

declare strip_prefixes.simps [simp del]

definition trim_start :: "bytes \<Rightarrow> bytes" where
  "trim_start s = strip_prefixes white_space s"

definition trim_end :: "bytes \<Rightarrow> bytes" where
  "trim_end s = rev (strip_prefixes (map rev white_space) (rev s))"

definition trim :: "bytes \<Rightarrow> bytes" where
  "trim s = trim_end (trim_start s)"

subsection \<open>The store\<close>

record nonce_store =
  ns_file :: bytes
  ns_seen :: "bytes set"

text \<open>One line: it must be UTF-8 and hold 32 bytes in hexadecimal.\<close>

definition parse_line :: "(bytes \<Rightarrow> bytes option) \<Rightarrow> bytes \<Rightarrow> bytes res" where
  "parse_line hex_decode line =
     and_then (if utf8_valid line then Inr line
               else Inl (Context ''reading'' (Msg ''stream did not contain valid UTF-8''))) (\<lambda>l.
     some_or ''not a 32-byte nonce''
       (case hex_decode (trim l) of
          None \<Rightarrow> None
        | Some b \<Rightarrow> if length b = 32 then Some b else None))"

definition open_nonces :: "(bytes \<Rightarrow> bytes option) \<Rightarrow> bytes \<Rightarrow> nonce_store res" where
  "open_nonces hex_decode file =
     and_then (collect_res (parse_line hex_decode) (file_lines file)) (\<lambda>nonces.
     Inr \<lparr>ns_file = file, ns_seen = set nonces\<rparr>)"

definition nonce_seen :: "nonce_store \<Rightarrow> bytes \<Rightarrow> bool" where
  "nonce_seen st eta \<longleftrightarrow> eta \<in> ns_seen st"

definition nonce_count :: "nonce_store \<Rightarrow> nat" where
  "nonce_count st = card (ns_seen st)"

datatype io_outcome = Written | Write_failed nat | Sync_failed

definition nonce_line :: "(bytes \<Rightarrow> bytes) \<Rightarrow> bytes \<Rightarrow> bytes" where
  "nonce_line hex_encode eta = hex_encode eta @ [LF]"

definition record_nonce ::
    "(bytes \<Rightarrow> bytes) \<Rightarrow> io_outcome \<Rightarrow> nonce_store \<Rightarrow> bytes \<Rightarrow> nonce_store \<times> unit res" where
  "record_nonce hex_encode io st eta =
     (if eta \<in> ns_seen st then (st, bail ''nonce has already been signed'')
      else
        let line = nonce_line hex_encode eta in
        case io of
          Write_failed n \<Rightarrow>
            (st\<lparr>ns_file := ns_file st @ take n line\<rparr>,
             Inl (Context ''appending'' (Msg ''write failed'')))
        | Sync_failed \<Rightarrow>
            (st\<lparr>ns_file := ns_file st @ line\<rparr>, Inl (Context ''appending'' (Msg ''sync failed'')))
        | Written \<Rightarrow>
            (st\<lparr>ns_file := ns_file st @ line, ns_seen := insert eta (ns_seen st)\<rparr>, Inr ()))"

subsection \<open>The interface of the signers\<close>

text \<open>
  What a signer relies on: a nonce is accepted only when it was not recorded, is recorded then, and
  nothing recorded is ever lost; a refusal records nothing.
\<close>

locale nonce_log =
  fixes contains :: "'s \<Rightarrow> 'n \<Rightarrow> bool"
    and log :: "'io \<Rightarrow> 's \<Rightarrow> 'n \<Rightarrow> 's \<times> unit res"
  assumes log_fresh: "log io s n = (s', Inr ()) \<Longrightarrow> \<not> contains s n"
    and log_recorded: "log io s n = (s', Inr ()) \<Longrightarrow> contains s' m \<longleftrightarrow> contains s m \<or> m = n"
    and log_refused: "log io s n = (s', Inl e) \<Longrightarrow> contains s' m \<longleftrightarrow> contains s m"
begin

text \<open>The nonces that a sequence of calls accepts, in order, and the final state.\<close>

fun accepted :: "('io \<times> 'n) list \<Rightarrow> 's \<Rightarrow> 'n list \<times> 's" where
  "accepted [] s = ([], s)"
| "accepted ((io, n) # calls) s =
     (case log io s n of
        (s', Inl _) \<Rightarrow> accepted calls s'
      | (s', Inr _) \<Rightarrow> (let (ns, t) = accepted calls s' in (n # ns, t)))"

lemma log_kept: "log io s n = (s', r) \<Longrightarrow> contains s m \<Longrightarrow> contains s' m"
  using log_recorded [of io s n s' m] log_refused [of io s n s' _ m] by (cases r) auto

lemma accepted_once:
  "accepted calls s = (ns, t) \<Longrightarrow>
     distinct ns \<and> (\<forall>n \<in> set ns. \<not> contains s n) \<and>
     (\<forall>m. contains t m \<longleftrightarrow> contains s m \<or> m \<in> set ns)"
proof (induction calls arbitrary: s ns)
  case Nil
  then show ?case by simp
next
  case (Cons c calls)
  obtain io n where c: "c = (io, n)" by (cases c)
  obtain s' r where log: "log io s n = (s', r)" by (cases "log io s n")
  show ?case
  proof (cases r)
    case (Inl e)
    then have "accepted calls s' = (ns, t)" using Cons.prems c log by simp
    from Cons.IH [OF this] log_refused [of io s n s' e] log Inl show ?thesis by auto
  next
    case (Inr u)
    then obtain ns' where "accepted calls s' = (ns', t)" and ns: "ns = n # ns'"
      using Cons.prems c log by (auto split: prod.splits)
    from Cons.IH [OF this(1)] log_recorded [of io s n s'] log_fresh [of io s n s'] log Inr ns
    show ?thesis by auto
  qed
qed

end

interpretation store: nonce_log nonce_seen "record_nonce hex_encode" for hex_encode
  by unfold_locales
    (auto simp: nonce_seen_def record_nonce_def Let_def bail_def split: io_outcome.splits if_splits)

subsection \<open>The documented behaviour of \<open>hex\<close>\<close>

definition hex_digit :: "char \<Rightarrow> bool" where
  "hex_digit c \<longleftrightarrow> (48 \<le> byte_val c \<and> byte_val c \<le> 57) \<or> (97 \<le> byte_val c \<and> byte_val c \<le> 102)"

text \<open>\<open>encode\<close> writes two lowercase digits per byte, and \<open>decode\<close> inverts it and needs two characters
  per byte.\<close>

definition hex_codec :: "(bytes \<Rightarrow> bytes) \<Rightarrow> (bytes \<Rightarrow> bytes option) \<Rightarrow> bool" where
  "hex_codec hex_encode hex_decode \<longleftrightarrow>
     (\<forall>b. list_all hex_digit (hex_encode b)) \<and>
     (\<forall>b. hex_decode (hex_encode b) = Some b) \<and>
     (\<forall>s b. hex_decode s = Some b \<longrightarrow> length s = 2 * length b)"

lemma hex_codecD:
  assumes "hex_codec enc dcd"
  shows "list_all hex_digit (enc b)" "dcd (enc b) = Some b" "length (enc b) = 2 * length b"
    and "dcd s = Some b \<Longrightarrow> length s = 2 * length b"
  using assms by (auto simp: hex_codec_def)

subsection \<open>A recorded line survives\<close>

lemma hex_digit_not_LF: "hex_digit c \<Longrightarrow> c \<noteq> LF" and hex_digit_not_CR: "hex_digit c \<Longrightarrow> c \<noteq> CR"
  by (auto simp: hex_digit_def)

lemma hex_not_in_white_space:
  "w \<in> set white_space \<Longrightarrow> hex_digit c \<Longrightarrow> c \<notin> set w"
  by (auto simp: white_space_def hex_digit_def)

lemma strip_cr_hex: "list_all hex_digit h \<Longrightarrow> strip_cr h = h"
  using hex_digit_not_CR [of "last h"] by (cases "h = []") (simp_all add: strip_cr_def list_all_iff)

text \<open>Stripping at the front never removes what starts at a hexadecimal digit.\<close>

lemma strip_prefixes_keep:
  assumes "\<And>w. w \<in> set ws \<Longrightarrow> c \<notin> set w"
  shows "\<exists>q. strip_prefixes ws (p @ c # s) = q @ c # s \<and> length q \<le> length p"
proof (induction "length p" arbitrary: p rule: less_induct)
  case less
  show ?case
  proof (cases "find (\<lambda>w. w \<noteq> [] \<and> prefix w (p @ c # s)) ws")
    case None
    then show ?thesis by (subst strip_prefixes.simps) auto
  next
    case (Some w)
    then have w: "w \<in> set ws" "w \<noteq> []" "prefix w (p @ c # s)"
      by (auto simp: find_Some_iff)
    have "prefix w p"
    proof (rule ccontr)
      assume "\<not> prefix w p"
      with w(3) obtain u where "w = p @ u" "prefix u (c # s)" by (auto simp: prefix_append)
      with \<open>\<not> prefix w p\<close> have "c \<in> set w" by (cases u) auto
      with assms w(1) show False by blast
    qed
    then obtain r where p: "p = w @ r" by (auto simp: prefix_def)
    with w(2) less [of r] have "\<exists>q. strip_prefixes ws (r @ c # s) = q @ c # s \<and> length q \<le> length r"
      by simp
    moreover have "strip_prefixes ws (p @ c # s) = strip_prefixes ws (r @ c # s)"
      using Some p by (subst strip_prefixes.simps) simp
    ultimately show ?thesis using p by auto
  qed
qed

lemma trim_hex:
  assumes "list_all hex_digit h" "h \<noteq> []"
  shows "\<exists>q. trim (p @ h) = q @ h \<and> length q \<le> length p"
proof -
  obtain c t where h: "h = c # t" "hex_digit c" using assms by (cases h) auto
  obtain u d where h': "h = u @ [d]" "hex_digit d" using assms by (cases h rule: rev_cases) auto
  from strip_prefixes_keep [of white_space c p t] hex_not_in_white_space h
  obtain q where q: "trim_start (p @ h) = q @ h" "length q \<le> length p"
    unfolding trim_start_def by blast
  have "d \<notin> set w" if "w \<in> set (map rev white_space)" for w
    using that hex_not_in_white_space [OF _ h'(2)] by auto
  from strip_prefixes_keep [of "map rev white_space" d "[]" "rev u @ rev q", OF this]
  have "strip_prefixes (map rev white_space) (d # rev u @ rev q) = d # rev u @ rev q" by simp
  then have "trim_end (q @ h) = q @ h" by (simp add: trim_end_def h')
  with q show ?thesis by (auto simp: trim_def)
qed

lemma parse_hex_suffix:
  assumes codec: "hex_codec enc dcd" and "length eta = 32"
    and ok: "parse_line dcd (p @ enc eta) = Inr b"
  shows "b = eta"
proof -
  have len: "length (enc eta) = 64" using hex_codecD(3) [OF codec] assms(2) by simp
  then have "enc eta \<noteq> []" by auto
  from trim_hex [OF hex_codecD(1) [OF codec] this] obtain q where
    q: "trim (p @ enc eta) = q @ enc eta" by blast
  from ok have "dcd (q @ enc eta) = Some b" "length b = 32"
    by (auto simp: parse_line_def and_then_Inr_iff q split: if_splits option.splits)
  then have "length (q @ enc eta) = 64" using hex_codecD(4) [OF codec] by fastforce
  then have "q = []" using len by simp
  with \<open>dcd (q @ enc eta) = Some b\<close> hex_codecD(2) [OF codec, of eta] show ?thesis by simp
qed

lemma file_lines_mid:
  assumes "LF \<notin> set l"
  shows "\<exists>p. strip_cr (p @ l) \<in> set (file_lines (f @ l @ LF # rest))"
proof (induction f rule: file_lines.induct)
  case (1 s)
  show ?case
  proof (cases "LF \<in> set s")
    case False
    have "takeWhile (\<lambda>c. c \<noteq> LF) (s @ l @ LF # rest) = s @ l"
      and "dropWhile (\<lambda>c. c \<noteq> LF) (s @ l @ LF # rest) = LF # rest"
      using False assms by (auto simp: takeWhile_append dropWhile_append)
    then have "strip_cr (s @ l) \<in> set (file_lines (s @ l @ LF # rest))"
      by (subst file_lines.simps) simp
    then show ?thesis by blast
  next
    case True
    then obtain a b where s: "s = a @ LF # b" "LF \<notin> set a" by (meson split_list_first)
    then have dw: "dropWhile (\<lambda>c. c \<noteq> LF) s = LF # b" by (auto simp: dropWhile_append)
    have "file_lines (s @ l @ LF # rest) = strip_cr a # file_lines (b @ l @ LF # rest)"
      using s by (subst file_lines.simps) (auto simp: takeWhile_append dropWhile_append)
    moreover have "s \<noteq> []" using True by auto
    ultimately show ?thesis using 1 [OF \<open>s \<noteq> []\<close> dw] by auto
  qed
qed

lemma open_after_line:
  assumes codec: "hex_codec enc dcd" and "length eta = 32"
    and op: "open_nonces dcd (f @ nonce_line enc eta @ rest) = Inr st"
  shows "eta \<in> ns_seen st"
proof -
  have hex: "list_all hex_digit (enc eta)" by (rule hex_codecD(1) [OF codec])
  then have "LF \<notin> set (enc eta)" using hex_digit_not_LF by (auto simp: list_all_iff)
  from file_lines_mid [OF this, of f rest] obtain p where
    p: "strip_cr (p @ enc eta) \<in> set (file_lines (f @ nonce_line enc eta @ rest))"
    by (auto simp: nonce_line_def)
  have "enc eta \<noteq> []" using hex_codecD(3) [OF codec, of eta] assms(2) by auto
  then have "strip_cr (p @ enc eta) = p @ enc eta"
    using hex hex_digit_not_CR by (auto simp: strip_cr_def list_all_iff dest: last_in_set)
  with p obtain i where i: "i < length (file_lines (f @ nonce_line enc eta @ rest))"
    "file_lines (f @ nonce_line enc eta @ rest) ! i = p @ enc eta" by (auto simp: in_set_conv_nth)
  from op obtain ns where ns: "collect_res (parse_line dcd) (file_lines (f @ nonce_line enc eta @ rest)) = Inr ns"
    and st: "ns_seen st = set ns" by (auto simp: open_nonces_def and_then_Inr_iff)
  from collect_res_nth [OF ns i(1)] i(2) have "parse_line dcd (p @ enc eta) = Inr (ns ! i)" by simp
  from parse_hex_suffix [OF codec assms(2) this] have "ns ! i = eta" .
  moreover have "i < length ns" using i(1) collect_res_length [OF ns] by simp
  ultimately show ?thesis unfolding st by (metis nth_mem)
qed

lemma file_lines_append:
  assumes "f = [] \<or> last f = LF" and "LF \<notin> set l"
  shows "file_lines (f @ l @ [LF]) = file_lines f @ [strip_cr l]"
  using assms(1)
proof (induction f rule: file_lines.induct)
  case (1 s)
  show ?case
  proof (cases "s = []")
    case True
    have "dropWhile (\<lambda>c. c \<noteq> LF) (l @ [LF]) = [LF]" "takeWhile (\<lambda>c. c \<noteq> LF) (l @ [LF]) = l"
      using assms(2) by (auto simp: takeWhile_append dropWhile_append)
    moreover have "file_lines [] = []" by (simp add: file_lines.simps)
    ultimately show ?thesis
      using True by (subst file_lines.simps [of "s @ l @ [LF]"]) (simp add: file_lines.simps)
  next
    case False
    with 1 have "LF \<in> set s" by (metis last_in_set)
    then obtain a b where s: "s = a @ LF # b" "LF \<notin> set a" by (meson split_list_first)
    then have dw: "dropWhile (\<lambda>c. c \<noteq> LF) s = LF # b" by (auto simp: dropWhile_append)
    have "file_lines (s @ l @ [LF]) = strip_cr a # file_lines (b @ l @ [LF])"
      using s by (subst file_lines.simps) (auto simp: takeWhile_append dropWhile_append)
    moreover have "file_lines s = strip_cr a # file_lines b"
      using s by (subst file_lines.simps) (auto simp: takeWhile_append dropWhile_append)
    moreover have "b = [] \<or> last b = LF" using 1(2) s False by (auto split: if_splits)
    ultimately show ?thesis using 1(1) [OF False dw] by simp
  qed
qed

lemma utf8_valid_ascii: "list_all is_ascii_byte s \<Longrightarrow> utf8_valid s"
  by (induction s) (simp_all add: byte_defs)

lemma parse_own_line:
  assumes "hex_codec enc dcd" and "length eta = 32"
  shows "parse_line dcd (enc eta) = Inr eta"
proof -
  have hex: "list_all hex_digit (enc eta)" by (rule hex_codecD(1) [OF assms(1)])
  then have "list_all is_ascii_byte (enc eta)"
    by (auto simp: list_all_iff hex_digit_def byte_defs)
  then have "utf8_valid (enc eta)" by (rule utf8_valid_ascii)
  moreover have "enc eta \<noteq> []" using hex_codecD(3) [OF assms(1), of eta] assms(2) by auto
  with trim_hex [OF hex, of "[]"] have "trim (enc eta) = enc eta" by simp
  ultimately show ?thesis using hex_codecD(2) [OF assms(1)] assms(2) by (simp add: parse_line_def)
qed

lemma collect_res_append:
  "collect_res f (xs @ ys) =
     and_then (collect_res f xs) (\<lambda>as. and_then (collect_res f ys) (\<lambda>bs. Inr (as @ bs)))"
proof (induction xs)
  case Nil
  show ?case by (cases "collect_res f ys") simp_all
next
  case (Cons x xs)
  show ?case
    by (cases "f x"; cases "collect_res f xs"; cases "collect_res f ys") (simp_all add: Cons.IH)
qed

subsection \<open>A codec\<close>

text \<open>A codec that behaves as documented, for the concrete instances.\<close>

definition hex_char :: "nat \<Rightarrow> char" where
  "hex_char n = char_of (if n < 10 then 48 + n else 87 + n)"

definition hex_val :: "char \<Rightarrow> nat option" where
  "hex_val c =
     (let n = byte_val c in
      if 48 \<le> n \<and> n \<le> 57 then Some (n - 48)
      else if 97 \<le> n \<and> n \<le> 102 then Some (n - 87)
      else if 65 \<le> n \<and> n \<le> 70 then Some (n - 55) else None)"

definition ref_hex_encode :: "bytes \<Rightarrow> bytes" where
  "ref_hex_encode b = concat (map (\<lambda>c. [hex_char (byte_val c div 16), hex_char (byte_val c mod 16)]) b)"

fun ref_hex_decode :: "bytes \<Rightarrow> bytes option" where
  "ref_hex_decode [] = Some []"
| "ref_hex_decode [_] = None"
| "ref_hex_decode (a # b # s) =
     (case (hex_val a, hex_val b, ref_hex_decode s) of
        (Some x, Some y, Some t) \<Rightarrow> Some (char_of (16 * x + y) # t)
      | _ \<Rightarrow> None)"

lemma hex_char_facts: "n < 16 \<Longrightarrow> hex_digit (hex_char n) \<and> hex_val (hex_char n) = Some n"
proof -
  assume "n < 16"
  then have "n \<in> set [0..<16]" by simp
  moreover have "list_all (\<lambda>n. hex_digit (hex_char n) \<and> hex_val (hex_char n) = Some n) [0..<16]"
    by code_simp
  ultimately show ?thesis by (simp only: list_all_iff)
qed

lemma ref_hex_codec: "hex_codec ref_hex_encode ref_hex_decode"
  unfolding hex_codec_def
proof (intro conjI allI impI)
  fix b :: bytes
  have n: "byte_val c div 16 < 16" "byte_val c mod 16 < 16" for c
    using nat_of_char_less_256 [of c] by (simp_all add: less_mult_imp_div_less)
  show "list_all hex_digit (ref_hex_encode b)"
    by (induction b) (simp_all add: ref_hex_encode_def hex_char_facts n)
  show "ref_hex_decode (ref_hex_encode b) = Some b"
    by (induction b) (simp_all add: ref_hex_encode_def hex_char_facts n)
next
  fix s b
  show "ref_hex_decode s = Some b \<Longrightarrow> length s = 2 * length b"
    by (induction s arbitrary: b rule: ref_hex_decode.induct) (auto split: option.splits)
qed

subsection \<open>Properties of the record\<close>

text \<open>The life of the record: the file is opened, nonces are recorded with any outcome, and the notary
  may restart at any time and open the file again. The list holds the nonces recorded so far.\<close>

inductive record_life ::
    "(bytes \<Rightarrow> bytes) \<Rightarrow> (bytes \<Rightarrow> bytes option) \<Rightarrow> bytes list \<Rightarrow> nonce_store \<Rightarrow> bool"
  for hex_encode hex_decode where
  life_open: "open_nonces hex_decode f = Inr st \<Longrightarrow> record_life hex_encode hex_decode [] st"
| life_recorded: "record_life hex_encode hex_decode ns st \<Longrightarrow> length eta = 32 \<Longrightarrow>
    record_nonce hex_encode io st eta = (st', Inr ()) \<Longrightarrow>
    record_life hex_encode hex_decode (eta # ns) st'"
| life_failed: "record_life hex_encode hex_decode ns st \<Longrightarrow> length eta = 32 \<Longrightarrow>
    record_nonce hex_encode io st eta = (st', Inl e) \<Longrightarrow> record_life hex_encode hex_decode ns st'"
| life_restart: "record_life hex_encode hex_decode ns st \<Longrightarrow>
    open_nonces hex_decode (ns_file st) = Inr st' \<Longrightarrow> record_life hex_encode hex_decode ns st'"

lemma record_file:
  "record_nonce enc io st eta = (st', r) \<Longrightarrow> \<exists>more. ns_file st' = ns_file st @ more"
  "record_nonce enc io st eta = (st', Inr ()) \<Longrightarrow> ns_file st' = ns_file st @ nonce_line enc eta"
  by (auto simp: record_nonce_def Let_def bail_def split: io_outcome.splits if_splits)

lemma open_file: "open_nonces dcd f = Inr st \<Longrightarrow> ns_file st = f"
  by (auto simp: open_nonces_def and_then_Inr_iff)

lemma record_life_invariant:
  assumes "hex_codec enc dcd" and "record_life enc dcd ns st"
  shows "distinct ns \<and> (\<forall>eta \<in> set ns. eta \<in> ns_seen st \<and> length eta = 32 \<and>
    (\<exists>f rest. ns_file st = f @ nonce_line enc eta @ rest))"
  using assms(2)
proof (induction rule: record_life.induct)
  case (life_open f st)
  then show ?case by simp
next
  case (life_recorded ns st eta io st')
  have new: "\<not> nonce_seen st eta" and seen: "nonce_seen st' m \<longleftrightarrow> nonce_seen st m \<or> m = eta" for m
    using store.log_fresh [OF life_recorded.hyps(3)] store.log_recorded [OF life_recorded.hyps(3)]
    by auto
  have cont: "ns_file st' = ns_file st @ nonce_line enc eta @ []"
    using record_file(2) [OF life_recorded.hyps(3)] by simp
  have "\<exists>f rest. ns_file st' = f @ nonce_line enc m @ rest"
    if "ns_file st = f @ nonce_line enc m @ rest" for f m rest
    using that cont by auto
  then show ?case
    using life_recorded new seen cont unfolding nonce_seen_def by (auto simp del: append_Nil2)
next
  case (life_failed ns st eta io st' e)
  obtain more where cont: "ns_file st' = ns_file st @ more"
    using record_file(1) [OF life_failed.hyps(3)] by blast
  have "\<exists>f rest. ns_file st' = f @ nonce_line enc m @ rest"
    if "ns_file st = f @ nonce_line enc m @ rest" for f m rest
    using that cont by auto
  then show ?case
    using life_failed store.log_refused [OF life_failed.hyps(3)] unfolding nonce_seen_def by blast
next
  case (life_restart ns st st')
  then show ?case using open_after_line [OF assms(1)] open_file by metis
qed

text \<open>C10: Whatever fails and however often the notary restarts, no nonce is recorded twice: the nonces
  recorded over the whole life of the file are distinct, and every one of them is known to the
  running notary. A torn line makes the next start fail, it never hides a recorded nonce.\<close>

theorem nonces_recorded_once:
  assumes "hex_codec hex_encode hex_decode" and "record_life hex_encode hex_decode ns st"
  shows "distinct ns \<and> (\<forall>eta \<in> set ns. nonce_seen st eta \<and>
    (\<forall>io. snd (record_nonce hex_encode io st eta) = bail ''nonce has already been signed''))"
  using record_life_invariant [OF assms] by (auto simp: nonce_seen_def record_nonce_def)

definition sample_nonce :: "char \<Rightarrow> bytes" where
  "sample_nonce c = replicate 32 c"

theorem nonces_recorded_once_witness:
  "\<exists>st. record_life ref_hex_encode ref_hex_decode [sample_nonce (CHR 0x07)] st \<and>
    nonce_seen st (sample_nonce (CHR 0x07))"
proof -
  have empty: "file_lines [] = []" by (simp add: file_lines.simps)
  then have "record_life ref_hex_encode ref_hex_decode [] \<lparr>ns_file = [], ns_seen = {}\<rparr>"
    by (intro life_open [of _ "[]"]) (simp add: open_nonces_def)
  from life_recorded [OF this, of "sample_nonce (CHR 0x07)" Written]
  have "\<exists>st. record_life ref_hex_encode ref_hex_decode [sample_nonce (CHR 0x07)] st"
    by (auto simp: record_nonce_def sample_nonce_def Let_def)
  with nonces_recorded_once [OF ref_hex_codec] show ?thesis by fastforce
qed

text \<open>The record survives a restart exactly: after a nonce was recorded in a file of complete lines,
  opening the file gives the same set of nonces, and its lines are again complete.\<close>

theorem record_survives_restart:
  assumes "hex_codec hex_encode hex_decode" and "open_nonces hex_decode f = Inr st"
    and "f = [] \<or> last f = LF" and "length eta = 32"
    and "record_nonce hex_encode io st eta = (st', Inr ())"
  shows "open_nonces hex_decode (ns_file st') = Inr st' \<and> last (ns_file st') = LF \<and>
    ns_seen st' = insert eta (ns_seen st)"
proof -
  from assms(5) have st': "st' = st\<lparr>ns_file := ns_file st @ nonce_line hex_encode eta,
      ns_seen := insert eta (ns_seen st)\<rparr>"
    by (auto simp: record_nonce_def Let_def bail_def split: io_outcome.splits if_splits)
  obtain ns where ns: "collect_res (parse_line hex_decode) (file_lines f) = Inr ns"
    and st: "st = \<lparr>ns_file = f, ns_seen = set ns\<rparr>"
    using assms(2) by (auto simp: open_nonces_def and_then_Inr_iff)
  have hex: "list_all hex_digit (hex_encode eta)" by (rule hex_codecD(1) [OF assms(1)])
  then have "LF \<notin> set (hex_encode eta)" using hex_digit_not_LF by (auto simp: list_all_iff)
  from file_lines_append [OF assms(3) this]
  have "file_lines (ns_file st') = file_lines f @ [hex_encode eta]"
    by (simp add: st' st nonce_line_def strip_cr_hex [OF hex])
  then have "open_nonces hex_decode (ns_file st') = Inr st'"
    using ns parse_own_line [OF assms(1,4)]
    by (simp add: open_nonces_def collect_res_append st' st)
  then show ?thesis by (simp add: st' nonce_line_def)
qed

theorem record_survives_restart_witness:
  "\<exists>st. record_nonce ref_hex_encode Written \<lparr>ns_file = [], ns_seen = {}\<rparr> (sample_nonce (CHR 0x07))
      = (st, Inr ()) \<and> open_nonces ref_hex_decode (ns_file st) = Inr st"
proof -
  have "open_nonces ref_hex_decode [] = Inr \<lparr>ns_file = [], ns_seen = {}\<rparr>"
    by (simp add: open_nonces_def file_lines.simps)
  from record_survives_restart [OF ref_hex_codec this, of "sample_nonce (CHR 0x07)" Written]
  show ?thesis by (simp add: record_nonce_def Let_def sample_nonce_def)
qed

end
