(* ===== verification/Calendar.thy ===== *)
theory Calendar
  imports Prelude
begin

section \<open>Calendar days\<close>

text \<open>
  Model of \<open>pprev-types/src/calendar.rs\<close>: the civil date of a day number, its encoding as
  \<open>Y * 10000 + M * 100 + D\<close> and the engagement day of phi_S. An \<open>i64\<close> is an integer in
  \<open>[-2^63, 2^63)\<close>; the release build wraps on overflow, which \<open>wrap64\<close> writes out; \<open>/\<close>
  truncates (\<^term>\<open>(sdiv)\<close>) and \<open>div_euclid\<close> by a positive number is \<^term>\<open>(div)\<close>. The reference is the
  proleptic Gregorian calendar: the day after a date, with leap years and month lengths. Dates are
  ordered by year, month and day, an instance of \<open>linorder\<close>.
\<close>

definition SECS_PER_DAY :: int where "SECS_PER_DAY = 86400"

definition wrap64 :: "int \<Rightarrow> int" where "wrap64 x = signed_take_bit 63 x"

datatype civil = Civil (year: int) (month: int) (day: int)

text \<open>Lines 10 to 18 of \<open>ymd_of_days\<close>: from the day of the era to the date.\<close>

definition year_of_era :: "int \<Rightarrow> int" where
  "year_of_era doe = (doe - doe sdiv 1460 + doe sdiv 36524 - doe sdiv 146096) sdiv 365"

definition day_of_year :: "int \<Rightarrow> int \<Rightarrow> int" where
  "day_of_year doe yoe = doe - (365 * yoe + yoe sdiv 4 - yoe sdiv 100)"

definition month_day :: "int \<Rightarrow> int \<times> int" where
  "month_day doy =
     (let mp = (5 * doy + 2) sdiv 153;
          d = doy - (153 * mp + 2) sdiv 5 + 1;
          m = (if mp < 10 then mp + 3 else mp - 9)
      in (m, d))"

definition civil_of_days :: "int \<Rightarrow> civil" where
  "civil_of_days days =
     (let z = wrap64 (days + 719468);
          era = z div 146097;
          doe = wrap64 (z - wrap64 (era * 146097));
          yoe = year_of_era doe;
          doy = day_of_year doe yoe;
          (m, d) = month_day doy;
          y = yoe + era * 400 + (if m \<le> 2 then 1 else 0)
      in Civil y m d)"

definition ymd :: "civil \<Rightarrow> int" where
  "ymd c = year c * 10000 + month c * 100 + day c"

definition ymd_of_days :: "int \<Rightarrow> int res" where
  "ymd_of_days days =
     (let c = civil_of_days days in
      ensure (0 \<le> year c \<and> year c \<le> 9999) ''year is outside 0000..9999'' (
      with_ctx ''date out of range'' (
      if 0 \<le> ymd c \<and> ymd c < 2 ^ 32 then Inr (ymd c) else Inl (Msg ''TryFromIntError''))))"

definition engagement_day :: "u64 \<Rightarrow> u64 \<Rightarrow> int \<Rightarrow> int res" where
  "engagement_day expires_at tau_lock utc_offset_secs =
     and_then (some_or ''expiresAt precedes tau_lock''
       (if tau_lock \<le> expires_at then Some (uint (expires_at - tau_lock)) else None)) (\<lambda>engaged.
     and_then (some_or ''engagement time out of range''
       (if engaged < 2 ^ 63 then
          (let t = engaged + utc_offset_secs in
           if - (2 ^ 63) \<le> t \<and> t < 2 ^ 63 then Some t else None)
        else None)) (\<lambda>local.
     ymd_of_days (local div SECS_PER_DAY)))"

subsection \<open>The Gregorian calendar\<close>

definition is_leap :: "int \<Rightarrow> bool" where
  "is_leap y \<longleftrightarrow> (y mod 4 = 0 \<and> y mod 100 \<noteq> 0) \<or> y mod 400 = 0"

definition month_length :: "int \<Rightarrow> int \<Rightarrow> int" where
  "month_length y m =
     (if m = 2 then (if is_leap y then 29 else 28)
      else if m \<in> {4, 6, 9, 11} then 30 else 31)"

definition valid_civil :: "civil \<Rightarrow> bool" where
  "valid_civil c \<longleftrightarrow> 1 \<le> month c \<and> month c \<le> 12 \<and> 1 \<le> day c \<and>
     day c \<le> month_length (year c) (month c)"

fun next_day :: "civil \<Rightarrow> civil" where
  "next_day (Civil y m d) =
     (if d < month_length y m then Civil y m (d + 1)
      else if m < 12 then Civil y (m + 1) 1
      else Civil (y + 1) 1 1)"

instantiation civil :: linorder
begin

definition less_eq_civil :: "civil \<Rightarrow> civil \<Rightarrow> bool" where
  "less_eq_civil a b \<longleftrightarrow> year a < year b \<or> (year a = year b \<and>
     (month a < month b \<or> (month a = month b \<and> day a \<le> day b)))"

definition less_civil :: "civil \<Rightarrow> civil \<Rightarrow> bool" where
  "less_civil a b \<longleftrightarrow> a \<le> b \<and> a \<noteq> (b :: civil)"

instance
  by standard (auto simp: less_eq_civil_def less_civil_def intro: civil.expand)

end

lemma less_civil_iff:
  "a < b \<longleftrightarrow> year a < year b \<or> (year a = year b \<and>
     (month a < month b \<or> (month a = month b \<and> day a < day b)))"
  by (auto simp: less_civil_def less_eq_civil_def intro: civil.expand)

text \<open>The number compared by the circuit orders valid dates like the calendar.\<close>

lemma ymd_mono: "valid_civil a \<Longrightarrow> valid_civil b \<Longrightarrow> ymd a < ymd b \<longleftrightarrow> a < b"
proof -
  assume a: "valid_civil a" and b: "valid_civil b"
  have "month_length y m \<le> 31" for y m by (simp add: month_length_def)
  then have "day a \<le> 31" "day b \<le> 31" using a b unfolding valid_civil_def by (meson order_trans)+
  with a b show ?thesis by (auto simp: less_civil_iff ymd_def valid_civil_def)
qed

subsection \<open>Years that start in March\<close>

text \<open>
  The algorithm counts days from the first of March of year 0. \<open>year_start y\<close> is the number of days
  before the year \<open>y\<close> that starts in March, and a year is a leap year when its last month is the
  February of a leap year.
\<close>

definition year_start :: "int \<Rightarrow> int" where
  "year_start y = 365 * y + y div 4 - y div 100 + y div 400"

definition year_length :: "int \<Rightarrow> int" where
  "year_length y = (if is_leap (y + 1) then 366 else 365)"

lemma div_step:
  assumes "0 < (k::int)"
  shows "(y + 1) div k = y div k + (if (y + 1) mod k = 0 then 1 else 0)"
proof (cases "y mod k = k - 1")
  case True
  then have "y + 1 = k * (y div k + 1)" using mult_div_mod_eq [of k y] by (simp only: distrib_left mult_1_right)
  with assms show ?thesis by (metis nonzero_mult_div_cancel_left mod_mult_self1_is_0 less_irrefl)
next
  case False
  then have r: "0 \<le> y mod k + 1" "y mod k + 1 < k"
    using assms False pos_mod_bound [of k y] pos_mod_sign [of k y] by linarith+
  have y: "y + 1 = k * (y div k) + (y mod k + 1)" using div_mult_mod_eq [of y k] by (simp add: algebra_simps)
  have gen: "(k * q + t) div k = q" "(k * q + t) mod k = t" if "0 \<le> t" "t < k" for q t
    using that assms by simp_all
  have "(y + 1) div k = y div k" 
    by (rule trans [OF arg_cong [OF y, of "\<lambda>x. x div k"] gen(1) [OF r]])
  moreover have "(y + 1) mod k = y mod k + 1" 
    by (rule trans [OF arg_cong [OF y, of "\<lambda>x. x mod k"] gen(2) [OF r]])
  moreover have "y mod k + 1 \<noteq> 0" using assms pos_mod_sign [of k y] by linarith
  ultimately show ?thesis by simp
qed

lemma year_start_Suc: "year_start (y + 1) = year_start y + year_length y"
proof -
  have "4 dvd (100::int)" "100 dvd (400::int)" by simp_all
  then have "(y + 1) mod 400 = 0 \<Longrightarrow> (y + 1) mod 100 = 0" "(y + 1) mod 100 = 0 \<Longrightarrow> (y + 1) mod 4 = 0"
    by (metis dvd_trans mod_eq_0_iff_dvd)+
  then show ?thesis
    by (auto simp: year_start_def year_length_def is_leap_def div_step)
qed

lemma year_length_pos: "365 \<le> year_length y" "year_length y \<le> 366"
  by (simp_all add: year_length_def)

lemma year_start_mono: "a < b \<Longrightarrow> year_start a + year_length a \<le> year_start b"
proof (induction b rule: int_gr_induct)
  case base
  then show ?case by (simp add: year_start_Suc)
next
  case (step i)
  then show ?case using year_length_pos(1) [of i] by (simp add: year_start_Suc)
qed

lemma year_start_era: "year_start (y + 400 * e) = year_start y + 146097 * e"
proof -
  have "(y + 4 * (100 * e)) div 4 = y div 4 + 100 * e"
    "(y + 100 * (4 * e)) div 100 = y div 100 + 4 * e" "(y + 400 * e) div 400 = y div 400 + e"
    by simp_all
  then show ?thesis by (simp add: year_start_def)
qed

text \<open>The year of the era: a monotone function of the day, checked at both ends of every year.\<close>

definition era_num :: "int \<Rightarrow> int" where
  "era_num doe = doe - doe div 1460 + doe div 36524 - doe div 146096"

lemma era_num_step:
  assumes "0 \<le> n" "n + 1 < 146097"
  shows "era_num n \<le> era_num (n + 1)"
proof (cases "n + 1 = 146096")
  case True
  then have "n = 146095" by simp
  then show ?thesis by (simp add: era_num_def)
next
  case False
  with assms have z: "(n + 1) div 146096 = 0" "n div 146096 = 0" by simp_all
  moreover have "(n + 1) div 1460 \<le> n div 1460 + 1" by (simp add: div_step)
  moreover have "n div 36524 \<le> (n + 1) div 36524" by (simp add: zdiv_mono1)
  moreover have "n - a + b - 0 \<le> n + 1 - a' + b' - 0" if "a' \<le> a + 1" "b \<le> b'" for a a' b b'
    using that by simp
  ultimately show ?thesis unfolding era_num_def z by blast
qed

lemma era_num_mono:
  assumes "0 \<le> a" "a \<le> b" "b < 146097"
  shows "era_num a \<le> era_num b"
  using assms(2,3)
proof (induction b rule: int_ge_induct)
  case (step i)
  then show ?case using era_num_step [of i] assms(1) by simp
qed simp

definition era_year_ok :: "int \<Rightarrow> bool" where
  "era_year_ok y \<longleftrightarrow> era_num (year_start y) div 365 = y \<and>
     era_num (year_start y + year_length y - 1) div 365 = y"

lemma era_years: "list_all era_year_ok [0..399]"
  by code_simp

text \<open>The month and the day of the month: one case per day of the year.\<close>

definition month_day_ok :: "int \<Rightarrow> bool" where
  "month_day_ok doy =
     (let (m, d) = month_day doy; (m', d') = month_day (doy + 1) in
      1 \<le> m \<and> m \<le> 12 \<and> 1 \<le> d \<and>
      (if m = 2 then d = doy - 336 \<and> m' = 2 \<and> d' = d + 1
       else if d < month_length 0 m then m' = m \<and> d' = d + 1
       else d = month_length 0 m \<and> m' = m mod 12 + 1 \<and> d' = 1 \<and> m \<noteq> 2) \<and>
      (m \<le> 2 \<longleftrightarrow> 306 \<le> doy))"

lemma month_days: "list_all month_day_ok [0..364]"
  by code_simp

subsection \<open>The algorithm follows the calendar\<close>

text \<open>The date of a day of a year that starts in March.\<close>

definition march_date :: "int \<Rightarrow> int \<Rightarrow> civil" where
  "march_date y doy = (let (m, d) = month_day doy in Civil (y + (if m \<le> 2 then 1 else 0)) m d)"

definition i64_range :: "int \<Rightarrow> bool" where
  "i64_range x \<longleftrightarrow> - (2 ^ 63) \<le> x \<and> x < 2 ^ 63"

lemma wrap64_id: "i64_range x \<Longrightarrow> wrap64 x = x"
  unfolding wrap64_def i64_range_def by (rule signed_take_bit_int_eq_self) simp_all

lemma wrap64_diff: "wrap64 (a - wrap64 b) = wrap64 (a - b)"
  unfolding wrap64_def by (metis signed_take_bit_diff signed_take_bit_signed_take_bit min.idem)

lemma sdiv_div: "0 \<le> a \<Longrightarrow> 0 < b \<Longrightarrow> a sdiv b = a div (b::int)"
  by (simp add: signed_divide_int_def sgn_if)

lemma year_of_era_year_start:
  assumes "0 \<le> y" "y < 400" "0 \<le> doy" "doy < year_length y"
  shows "year_of_era (year_start y + doy) = y"
    and "day_of_year (year_start y + doy) y = doy"
    and "0 \<le> year_start y + doy" "year_start y + doy < 146097"
proof -
  have ok: "era_year_ok y" using era_years assms(1,2) by (simp add: list_all_iff)
  have nonneg: "0 \<le> year_start y"
    using assms(1) year_start_mono [of 0 y] year_length_pos(1) [of 0]
    by (cases "y = 0") (auto simp: year_start_def)
  then show lo: "0 \<le> year_start y + doy" using assms by simp
  have top: "year_start y + year_length y \<le> 146097"
    using year_start_mono [of y 400] assms(2) year_start_era [of 0 1] by (simp add: year_start_def)
  with assms show hi: "year_start y + doy < 146097" by simp
  have "era_num (year_start y) \<le> era_num (year_start y + doy)"
    "era_num (year_start y + doy) \<le> era_num (year_start y + year_length y - 1)"
    using era_num_mono [of "year_start y" "year_start y + doy"] assms nonneg top
      era_num_mono [of "year_start y + doy" "year_start y + year_length y - 1"] by simp_all
  then have "era_num (year_start y) div 365 \<le> era_num (year_start y + doy) div 365"
    "era_num (year_start y + doy) div 365 \<le> era_num (year_start y + year_length y - 1) div 365"
    by (simp_all add: zdiv_mono1)
  then have num: "era_num (year_start y + doy) div 365 = y" using ok by (simp add: era_year_ok_def)
  have "0 \<le> era_num (year_start y + doy)"
    using era_num_mono [of 0 "year_start y + doy"] lo hi by (simp add: era_num_def)
  then show "year_of_era (year_start y + doy) = y"
    using num lo by (simp add: year_of_era_def era_num_def sdiv_div)
  show "day_of_year (year_start y + doy) y = doy"
    using assms(1,2) by (simp add: day_of_year_def year_start_def sdiv_div)
qed

lemma year_length_era: "year_length (y + 400 * e) = year_length y"
  using year_start_Suc [of "y + 400 * e"] year_start_Suc [of y] year_start_era [of y e]
    year_start_era [of "y + 1" e] by (simp add: algebra_simps)

lemma civil_of_days_eq:
  assumes z: "days + 719468 = year_start y + doy" "i64_range (days + 719468)"
    and doy: "0 \<le> doy" "doy < year_length y"
  shows "civil_of_days days = march_date y doy"
proof -
  define e yoe where e: "e = y div 400" and yoe: "yoe = y mod 400"
  have y: "y = yoe + 400 * e" by (simp add: e yoe)
  have r: "0 \<le> yoe" "yoe < 400" by (simp_all add: yoe)
  have d: "0 \<le> doy" "doy < year_length yoe" using doy by (simp_all add: y year_length_era)
  note Y = year_of_era_year_start [OF r d]
  have z': "days + 719468 = 146097 * e + (year_start yoe + doy)"
    using z(1) by (simp add: y year_start_era)
  have era: "(days + 719468) div 146097 = e" unfolding z' using Y(3,4) by simp
  have "i64_range (year_start yoe + doy)" using Y(3,4) by (simp add: i64_range_def)
  then have doe: "wrap64 (days + 719468 - wrap64 (e * 146097)) = year_start yoe + doy"
    using z' by (simp add: wrap64_diff wrap64_id)
  show ?thesis
    unfolding civil_of_days_def Let_def wrap64_id [OF z(2)] era doe Y(1) Y(2)
    by (simp add: march_date_def y add.commute split: prod.splits)
qed

lemma year_day_exists: "\<exists>y doy. z = year_start y + doy \<and> 0 \<le> doy \<and> doy < year_length y"
proof (induction z rule: int_induct [where k = 0])
  case base
  show ?case by (rule exI [of _ 0], rule exI [of _ 0]) (simp add: year_start_def year_length_def)
next
  case (step1 i)
  then obtain y doy where i: "i = year_start y + doy" "0 \<le> doy" "doy < year_length y" by blast
  show ?case
  proof (cases "doy + 1 < year_length y")
    case True
    with i show ?thesis by (intro exI [of _ y] exI [of _ "doy + 1"]) simp
  next
    case False
    with i year_start_Suc [of y] year_length_pos(1) [of "y + 1"] show ?thesis
      by (intro exI [of _ "y + 1"] exI [of _ 0]) simp
  qed
next
  case (step2 i)
  then obtain y doy where i: "i = year_start y + doy" "0 \<le> doy" "doy < year_length y" by blast
  show ?case
  proof (cases "doy = 0")
    case True
    with i year_start_Suc [of "y - 1"] year_length_pos(1) [of "y - 1"] show ?thesis
      by (intro exI [of _ "y - 1"] exI [of _ "year_length (y - 1) - 1"]) simp
  next
    case False
    with i show ?thesis by (intro exI [of _ y] exI [of _ "doy - 1"]) simp
  qed
qed

lemma month_day_doy:
  assumes "0 \<le> doy" "doy \<le> 364" "month_day doy = (m, d)" "month_day (doy + 1) = (m', d')"
  shows "1 \<le> m" "m \<le> 12" "1 \<le> d" "m \<le> 2 \<longleftrightarrow> 306 \<le> doy"
    and "m = 2 \<Longrightarrow> d = doy - 336 \<and> m' = 2 \<and> d' = d + 1"
    and "m \<noteq> 2 \<Longrightarrow> d < month_length y m \<Longrightarrow> m' = m \<and> d' = d + 1"
    and "m \<noteq> 2 \<Longrightarrow> \<not> d < month_length y m \<Longrightarrow> d = month_length y m \<and> m' = m mod 12 + 1 \<and> d' = 1"
proof -
  have ok: "month_day_ok doy" using month_days assms(1,2) by (simp add: list_all_iff)
  have len: "month_length y m = month_length 0 m" if "m \<noteq> 2" using that by (simp add: month_length_def)
  note ok' = ok [unfolded month_day_ok_def Let_def assms(3,4) prod.case]
  show "1 \<le> m" "m \<le> 12" "1 \<le> d" "m \<le> 2 \<longleftrightarrow> 306 \<le> doy"
    "m = 2 \<Longrightarrow> d = doy - 336 \<and> m' = 2 \<and> d' = d + 1"
    "m \<noteq> 2 \<Longrightarrow> d < month_length y m \<Longrightarrow> m' = m \<and> d' = d + 1"
    "m \<noteq> 2 \<Longrightarrow> \<not> d < month_length y m \<Longrightarrow> d = month_length y m \<and> m' = m mod 12 + 1 \<and> d' = 1"
    using ok' len by (auto split: if_splits)
qed

definition succ_day :: "int \<Rightarrow> int \<Rightarrow> int \<times> int" where
  "succ_day y doy = (if doy + 1 < year_length y then (y, doy + 1) else (y + 1, 0))"

lemma month_day_last: "month_day 365 = (2, 29)" and month_day_364: "month_day 364 = (2, 28)"
  and month_day_0: "month_day 0 = (3, 1)"
  by (simp_all add: month_day_def sdiv_div Let_def)

lemma feb_length: "month_length (y + 1) 2 = year_length y - 337"
  by (simp add: month_length_def year_length_def)

lemma march_date_next:
  assumes "0 \<le> doy" "doy < year_length y"
  shows "next_day (march_date y doy) = (case succ_day y doy of (y', doy') \<Rightarrow> march_date y' doy')
    \<and> valid_civil (march_date y doy)"
proof (cases "doy = 365")
  case True
  with assms have "year_length y = 366" by (auto simp: year_length_def split: if_splits)
  with True show ?thesis
    by (simp add: march_date_def succ_day_def month_day_last month_day_0 feb_length valid_civil_def)
next
  case False
  then have doy: "0 \<le> doy" "doy \<le> 364" using assms year_length_pos(2) [of y] by simp_all
  obtain m d where md: "month_day doy = (m, d)" by fastforce
  obtain m' d' where md': "month_day (doy + 1) = (m', d')" by fastforce
  let ?y = "y + (if m \<le> 2 then 1 else 0)"
  note n = month_day_doy(1-5) [OF doy md md']
  note n6 = month_day_doy(6) [OF doy md md', of ?y]
  note n7 = month_day_doy(7) [OF doy md md', of ?y]
  show ?thesis
  proof (cases "m = 2")
    case True
    then have "d = doy - 336" "m' = 2" "d' = d + 1" using n(5) by auto
    then show ?thesis
      using True n(3) assms year_length_pos(1) [of y] doy
      by (auto simp: march_date_def md md' succ_day_def feb_length valid_civil_def month_day_0)
  next
    case False
    then have "doy \<noteq> 364" using md month_day_364 by auto
    then have "doy + 1 < year_length y" using doy year_length_pos(1) [of y] by simp
    then have succ: "succ_day y doy = (y, doy + 1)" by (simp add: succ_day_def)
    show ?thesis
    proof (cases "d < month_length ?y m")
      case True
      then show ?thesis
        using n6 [OF False] n(1-3) by (auto simp: march_date_def md md' succ valid_civil_def)
    next
      case long: False
      then have "m mod 12 = (if m = 12 then 0 else m)" using n(1,2) by simp
      then show ?thesis
        using n7 [OF False long] n(1-3) False long
        by (auto simp: march_date_def md md' succ valid_civil_def)
    qed
  qed
qed

lemma succ_day_start:
  "0 \<le> doy \<Longrightarrow> doy < year_length y \<Longrightarrow> succ_day y doy = (y', doy') \<Longrightarrow>
   year_start y' + doy' = year_start y + doy + 1 \<and> 0 \<le> doy' \<and> doy' < year_length y'"
  using year_length_pos(1) [of "y + 1"] by (auto simp: succ_day_def year_start_Suc split: if_splits)

text \<open>The days whose shift to the era does not leave \<open>i64\<close>.\<close>

definition day_in_range :: "int \<Rightarrow> bool" where
  "day_in_range days \<longleftrightarrow> i64_range days \<and> i64_range (days + 719468)"

lemma civil_of_days_Suc:
  assumes "day_in_range days" "day_in_range (days + 1)"
  shows "civil_of_days (days + 1) = next_day (civil_of_days days)"
proof -
  obtain y doy where z: "days + 719468 = year_start y + doy" "0 \<le> doy" "doy < year_length y"
    using year_day_exists by blast
  obtain y' doy' where s: "succ_day y doy = (y', doy')" by fastforce
  have "civil_of_days days = march_date y doy"
    using assms z by (intro civil_of_days_eq) (auto simp: day_in_range_def)
  moreover have "civil_of_days (days + 1) = march_date y' doy'"
    using assms z succ_day_start [OF z(2,3) s] by (intro civil_of_days_eq) (auto simp: day_in_range_def)
  ultimately show ?thesis using march_date_next [OF z(2,3)] s by simp
qed

lemma valid_civil_of_days:
  assumes "day_in_range days"
  shows "valid_civil (civil_of_days days)"
proof -
  obtain y doy where z: "days + 719468 = year_start y + doy" "0 \<le> doy" "doy < year_length y"
    using year_day_exists by blast
  then have "civil_of_days days = march_date y doy"
    using assms by (intro civil_of_days_eq) (auto simp: day_in_range_def)
  then show ?thesis using march_date_next [OF z(2,3)] by simp
qed

lemma civil_epoch: "civil_of_days 0 = Civil 1970 1 1"
  by code_simp

lemma next_day_greater: "valid_civil c \<Longrightarrow> c < next_day c"
  by (cases c) (auto simp: less_civil_iff valid_civil_def)

lemma civil_of_days_less:
  assumes "a < b" "day_in_range a" "day_in_range b"
  shows "civil_of_days a < civil_of_days b"
  using assms(1,3)
proof (induction b rule: int_gr_induct)
  case base
  then show ?case
    using assms(2) civil_of_days_Suc [of a] next_day_greater [OF valid_civil_of_days [of a]] by simp
next
  case (step i)
  then have i: "day_in_range i" using assms(2) by (auto simp: day_in_range_def i64_range_def)
  then have "civil_of_days i < civil_of_days (i + 1)"
    using step civil_of_days_Suc [of i] next_day_greater [OF valid_civil_of_days [OF i]] by simp
  then show ?case using step i by (meson less_trans)
qed

lemma civil_of_days_less_iff:
  assumes "day_in_range a" "day_in_range b"
  shows "civil_of_days a < civil_of_days b \<longleftrightarrow> a < b"
  using assms civil_of_days_less [of a b] civil_of_days_less [of b a] by (metis less_asym linorder_neqE)

lemma valid_civil_ymd:
  "valid_civil c \<Longrightarrow> 0 \<le> year c \<Longrightarrow> year c \<le> 9999 \<Longrightarrow> 0 \<le> ymd c \<and> ymd c < 99991232"
proof -
  assume c: "valid_civil c" "0 \<le> year c" "year c \<le> 9999"
  have "month_length (year c) (month c) \<le> 31" by (simp add: month_length_def)
  then show ?thesis using c by (auto simp: valid_civil_def ymd_def)
qed

lemma ymd_of_days_eq:
  assumes "day_in_range days"
  shows "ymd_of_days days = (let c = civil_of_days days in
    if 0 \<le> year c \<and> year c \<le> 9999 then Inr (ymd c) else Inl (Msg ''year is outside 0000..9999''))"
  using valid_civil_ymd [OF valid_civil_of_days [OF assms]]
  by (auto simp: ymd_of_days_def Let_def ensure_def)

subsection \<open>Properties of the calendar\<close>

text \<open>C33: \<open>ymd_of_days\<close> follows the proleptic Gregorian calendar: the date of day \<open>n\<close> is what \<open>n\<close> steps
  to the next day reach from 1970-01-01, and the function returns its encoding up to the year 9999
  and an error afterwards.\<close>

theorem ymd_of_days_calendar:
  assumes "int n < 2 ^ 62"
  shows "ymd_of_days (int n) = (let c = (next_day ^^ n) (Civil 1970 1 1) in
    if year c \<le> 9999 then Inr (ymd c) else Inl (Msg ''year is outside 0000..9999''))"
proof -
  have range: "day_in_range (int k)" if "int k < 2 ^ 62 + 1" for k
    using that by (simp add: day_in_range_def i64_range_def)
  have c: "civil_of_days (int n) = (next_day ^^ n) (Civil 1970 1 1)"
    using assms
  proof (induction n)
    case (Suc n)
    then have "civil_of_days (int n + 1) = next_day (civil_of_days (int n))"
      using range [of n] range [of "Suc n"] by (intro civil_of_days_Suc) (simp_all add: add.commute)
    with Suc show ?case by (simp add: add.commute)
  qed (simp add: civil_epoch)
  have "Civil 1970 1 1 \<le> civil_of_days (int n)"
    using civil_of_days_less [of 0 "int n"] range [of n] range [of 0] assms
    by (cases "n = 0") (auto simp: civil_epoch)
  then have "0 \<le> year (civil_of_days (int n))" by (auto simp: less_eq_civil_def)
  with c range [of n] assms show ?thesis by (simp add: ymd_of_days_eq Let_def)
qed

theorem ymd_of_days_calendar_witness:
  "ymd_of_days 59 = Inr 19700301 \<and> (next_day ^^ 59) (Civil 1970 1 1) = Civil 1970 3 1"
proof -
  have c: "(next_day ^^ 59) (Civil 1970 1 1) = Civil 1970 3 1" by code_simp
  moreover have "ymd_of_days (int 59) = Inr 19700301"
    by (subst ymd_of_days_calendar) (simp_all add: c Let_def ymd_def)
  ultimately show ?thesis by simp
qed

text \<open>The engagement day grows with time: of two day numbers the later has the larger encoding, which
  is what makes the comparison of encodings inside phi_S a comparison of dates.\<close>

theorem ymd_of_days_order:
  assumes "day_in_range a" "day_in_range b" "ymd_of_days a = Inr x" "ymd_of_days b = Inr y"
  shows "x < y \<longleftrightarrow> a < b"
  using assms civil_of_days_less_iff [OF assms(1,2)] ymd_mono
    valid_civil_of_days [OF assms(1)] valid_civil_of_days [OF assms(2)]
  by (auto simp: ymd_of_days_eq Let_def split: if_splits)

theorem ymd_of_days_order_witness: "(19691231::int) < 19700301 \<longleftrightarrow> (-1::int) < 59"
proof -
  have "ymd_of_days (-1) = Inr 19691231" "ymd_of_days 59 = Inr 19700301" by code_simp+
  from ymd_of_days_order [OF _ _ this] show ?thesis by (simp add: day_in_range_def i64_range_def)
qed

end
