(* ===== verification/Policy_Verifier.thy ===== *)
theory Policy_Verifier
  imports Presentation Groth16 Nonces Calendar
begin

section \<open>The policy verifier\<close>

text \<open>
  Model of \<open>pprev-notary/src/register.rs\<close>, \<open>phases.rs\<close> and the signing of \<open>sigma.rs\<close>: the state of
  the policy verifier, the checks of a Register, Apply or Settle request, and the signature that is
  given at most once per nonce. The state is passed explicitly; the outcome of the write to the nonce
  file is an argument of each call. The libraries are the record \<open>notary_env\<close>. The timings the code
  reports next to a signature are not modelled.
\<close>

record ('p, 'vk, 'att, 'rs, 'g1, 'g2, 'pvk, 'sk) notary_env =
  env_tlsn :: "('p, 'vk, 'att, 'rs) tlsn"
  env_ark :: "('g1, 'g2, 'pvk) arkworks"
  env_hex_encode :: "bytes \<Rightarrow> bytes"
  env_hex_decode :: "bytes \<Rightarrow> bytes option"
  env_eip712_hash :: "statement \<Rightarrow> eip712_domain \<Rightarrow> bytes"
  env_signer_new :: "bytes \<Rightarrow> 'sk res"
  env_sign_hash :: "'sk \<Rightarrow> bytes \<Rightarrow> bytes res"
  env_signer_address :: "'sk \<Rightarrow> bytes"

subsection \<open>The statement key\<close>

definition statement_key_from_bytes ::
    "('p, 'vk, 'att, 'rs, 'g1, 'g2, 'pvk, 'sk) notary_env \<Rightarrow> bytes \<Rightarrow> 'sk res" where
  "statement_key_from_bytes env secret = with_ctx ''invalid statement key'' (env_signer_new env secret)"

definition vk_notary :: "('p, 'vk, 'att, 'rs, 'g1, 'g2, 'pvk, 'sk) notary_env \<Rightarrow> 'sk \<Rightarrow> bytes" where
  "vk_notary env sk = env_signer_address env sk"

definition key_sign ::
    "('p, 'vk, 'att, 'rs, 'g1, 'g2, 'pvk, 'sk) notary_env \<Rightarrow> 'sk \<Rightarrow> bytes \<Rightarrow> bytes res" where
  "key_sign env sk d = with_ctx ''signing the statement digest'' (env_sign_hash env sk d)"

subsection \<open>State and requests\<close>

record 'pvk register_policy =
  rp_layout :: layout
  rp_verifier :: "'pvk groth16_verifier"

record 'pvk apply_policy =
  ap_layout :: record_layout
  ap_verifier :: "'pvk groth16_verifier"

record 'pvk settle_policy =
  sp_layout :: record_layout
  sp_verifier :: "'pvk groth16_verifier"
  sp_utc_offset_secs :: int

record ('p, 'g1, 'g2) register_request =
  rq_presentation :: 'p
  rq_property_id :: bytes
  rq_statement :: register_stmt
  rq_proof :: "('g1, 'g2) groth16_proof"

record ('p, 'g1, 'g2) apply_request =
  aq_presentation :: 'p
  aq_statement :: apply_stmt
  aq_proof :: "('g1, 'g2) groth16_proof"

record ('p, 'g1, 'g2) settle_request =
  sq_presentation :: 'p
  sq_notation_id :: bytes
  sq_statement :: settle_stmt
  sq_proof :: "('g1, 'g2) groth16_proof"

record ('vk, 'pvk, 'sk) policy_verifier =
  pv_policies :: "bytes \<rightharpoonup> 'pvk register_policy"
  pv_apply_policies :: "bytes \<rightharpoonup> 'pvk apply_policy"
  pv_settle_policies :: "bytes \<rightharpoonup> 'pvk settle_policy"
  pv_tau_lock :: "u64 option"
  pv_attestation_key :: 'vk
  pv_root_certs :: "bytes list"
  pv_max_session_secs :: u64
  pv_key :: 'sk
  pv_domain :: eip712_domain
  pv_nonces :: nonce_store

definition policy_verifier_new ::
    "(bytes \<rightharpoonup> 'pvk register_policy) \<Rightarrow> 'vk \<Rightarrow> bytes list \<Rightarrow> u64 \<Rightarrow> 'sk \<Rightarrow> eip712_domain \<Rightarrow> nonce_store
      \<Rightarrow> ('vk, 'pvk, 'sk) policy_verifier" where
  "policy_verifier_new policies attestation_key root_certs max_session_secs sk d nonces =
     \<lparr>pv_policies = policies, pv_apply_policies = Map.empty, pv_settle_policies = Map.empty,
      pv_tau_lock = None, pv_attestation_key = attestation_key, pv_root_certs = root_certs,
      pv_max_session_secs = max_session_secs, pv_key = sk, pv_domain = d, pv_nonces = nonces\<rparr>"

definition verifier_with_phases ::
    "('vk, 'pvk, 'sk) policy_verifier \<Rightarrow> (bytes \<rightharpoonup> 'pvk apply_policy) \<Rightarrow> (bytes \<rightharpoonup> 'pvk settle_policy)
      \<Rightarrow> u64 option \<Rightarrow> ('vk, 'pvk, 'sk) policy_verifier" where
  "verifier_with_phases pv apply settle tau_lock =
     pv\<lparr>pv_apply_policies := apply, pv_settle_policies := settle, pv_tau_lock := tau_lock\<rparr>"

subsection \<open>Signing\<close>

definition record_and_sign ::
    "('p, 'vk, 'att, 'rs, 'g1, 'g2, 'pvk, 'sk) notary_env \<Rightarrow> io_outcome
      \<Rightarrow> ('vk, 'pvk, 'sk) policy_verifier \<Rightarrow> bytes \<Rightarrow> bytes
      \<Rightarrow> ('vk, 'pvk, 'sk) policy_verifier \<times> bytes res" where
  "record_and_sign env io pv eta d =
     (case record_nonce (env_hex_encode env) io (pv_nonces pv) eta of
        (nonces, Inl e) \<Rightarrow> (pv\<lparr>pv_nonces := nonces\<rparr>, Inl e)
      | (nonces, Inr _) \<Rightarrow> (pv\<lparr>pv_nonces := nonces\<rparr>, key_sign env (pv_key pv) d))"

definition ensure_unsigned :: "('vk, 'pvk, 'sk) policy_verifier \<Rightarrow> bytes \<Rightarrow> unit res" where
  "ensure_unsigned pv eta =
     ensure (\<not> nonce_seen (pv_nonces pv) eta) ''nonce has already been signed'' (Inr ())"

definition check_subject :: "bytes \<Rightarrow> unit res" where
  "check_subject subject =
     ensure (subject \<noteq> [] \<and> length subject \<le> 64 \<and>
         list_all (\<lambda>b. is_ascii_alphanumeric b \<or> b = CHR ''-'') subject)
       ''not a record identifier'' (Inr ())"

text \<open>\<open>expiresAt.try_into()\<close> from a \<open>U256\<close> to a \<open>u64\<close>.\<close>

definition u64_of :: "u256 \<Rightarrow> u64 option" where
  "u64_of x = (if unat x < 2 ^ 64 then Some (of_nat (unat x)) else None)"

text \<open>The checks of a Register request, which end with the digest to sign.\<close>

definition check_register ::
    "('p, 'vk, 'att, 'rs, 'g1, 'g2, 'pvk, 'sk) notary_env \<Rightarrow> ('vk, 'pvk, 'sk) policy_verifier
      \<Rightarrow> ('p, 'g1, 'g2) register_request \<Rightarrow> bytes res" where
  "check_register env pv request =
     (let x = rq_statement request in
      and_then (some_or ''not a Register policy of this notary'' (pv_policies pv (reg_policy_id x)))
        (\<lambda>policy.
      ensure (\<not> nonce_seen (pv_nonces pv) (reg_eta x)) ''nonce has already been signed'' (
      and_then (property_id_word (rp_layout policy) (rq_property_id request)) (\<lambda>word.
      ensure (word = tx_property_id (reg_tx_data x))
        ''txData.propertyId is not the property of the notarised request'' (
      and_then (check_presentation (env_tlsn env) (rq_presentation request)
        \<lparr>ex_layout = rp_layout policy, ex_attestation_key = pv_attestation_key pv,
         ex_root_certs = pv_root_certs pv, ex_property_id = rq_property_id request,
         ex_max_session_secs = pv_max_session_secs pv\<rparr>) (\<lambda>a.
      ensure (reg_t_att x = at_t_att a) ''tAtt is not the attested time'' (
      let d = digest (env_eip712_hash env) (Register_stmt x) (pv_domain pv) in
      and_then (phi_r_public_of a (tx_property_id (reg_tx_data x)) d) (\<lambda>public.
      and_then (groth16_verify (env_ark env) (rp_verifier policy) (rq_proof request)
        (phi_r_inputs public)) (\<lambda>ok.
      ensure ok ''the phi_R proof does not verify for this statement and attestation''
        (Inr d))))))))))"

definition sign_register ::
    "('p, 'vk, 'att, 'rs, 'g1, 'g2, 'pvk, 'sk) notary_env \<Rightarrow> io_outcome
      \<Rightarrow> ('vk, 'pvk, 'sk) policy_verifier \<Rightarrow> ('p, 'g1, 'g2) register_request
      \<Rightarrow> ('vk, 'pvk, 'sk) policy_verifier \<times> bytes res" where
  "sign_register env io pv request =
     (case check_register env pv request of
        Inl e \<Rightarrow> (pv, Inl e)
      | Inr d \<Rightarrow> record_and_sign env io pv (reg_eta (rq_statement request)) d)"

definition check_apply ::
    "('p, 'vk, 'att, 'rs, 'g1, 'g2, 'pvk, 'sk) notary_env \<Rightarrow> ('vk, 'pvk, 'sk) policy_verifier
      \<Rightarrow> ('p, 'g1, 'g2) apply_request \<Rightarrow> bytes res" where
  "check_apply env pv request =
     (let x = aq_statement request in
      and_then (some_or ''not an Apply policy of this notary'' (pv_apply_policies pv (app_policy_id x)))
        (\<lambda>policy.
      and_then (ensure_unsigned pv (app_eta x)) (\<lambda>_.
      and_then (record_shape (ap_layout policy) []) (\<lambda>sh.
      and_then (check_shape (env_tlsn env) (aq_presentation request)
        \<lparr>exp_shape = sh, exp_attestation_key = pv_attestation_key pv,
         exp_root_certs = pv_root_certs pv, exp_max_session_secs = pv_max_session_secs pv\<rparr>) (\<lambda>a.
      ensure (app_t_att x = as_t_att a) ''tAtt is not the attested time'' (
      case as_hidden_hashes a of
        [account_hash, income_hash] \<Rightarrow>
          (let d = digest (env_eip712_hash env) (Apply_stmt x) (pv_domain pv) in
           and_then (phi_a_new account_hash income_hash (app_c_b x) (tx_amount (app_tx_data x)) d)
             (\<lambda>public.
           and_then (groth16_verify (env_ark env) (ap_verifier policy) (aq_proof request)
             (phi_a_inputs public)) (\<lambda>ok.
           ensure ok ''the phi_A proof does not verify for this statement and attestation'' (Inr d))))
      | _ \<Rightarrow> bail ''the eligibility layout has two hidden fields''))))))"

definition sign_apply ::
    "('p, 'vk, 'att, 'rs, 'g1, 'g2, 'pvk, 'sk) notary_env \<Rightarrow> io_outcome
      \<Rightarrow> ('vk, 'pvk, 'sk) policy_verifier \<Rightarrow> ('p, 'g1, 'g2) apply_request
      \<Rightarrow> ('vk, 'pvk, 'sk) policy_verifier \<times> bytes res" where
  "sign_apply env io pv request =
     (case check_apply env pv request of
        Inl e \<Rightarrow> (pv, Inl e)
      | Inr d \<Rightarrow> record_and_sign env io pv (app_eta (aq_statement request)) d)"

definition check_settle ::
    "('p, 'vk, 'att, 'rs, 'g1, 'g2, 'pvk, 'sk) notary_env \<Rightarrow> ('vk, 'pvk, 'sk) policy_verifier
      \<Rightarrow> ('p, 'g1, 'g2) settle_request \<Rightarrow> bytes res" where
  "check_settle env pv request =
     (let x = sq_statement request in
      and_then (some_or ''not a Settle policy of this notary'' (pv_settle_policies pv (set_policy_id x)))
        (\<lambda>policy.
      and_then (some_or ''the notary has no tau_lock for Settle'' (pv_tau_lock pv)) (\<lambda>tau_lock.
      and_then (ensure_unsigned pv (set_eta x)) (\<lambda>_.
      and_then (check_subject (sq_notation_id request)) (\<lambda>_.
      and_then (some_or ''expiresAt exceeds 64 bits'' (u64_of (set_expires_at x))) (\<lambda>expires_at.
      and_then (engagement_day expires_at tau_lock (sp_utc_offset_secs policy)) (\<lambda>engaged.
      and_then (record_shape (sp_layout policy) (sq_notation_id request)) (\<lambda>sh.
      and_then (check_shape (env_tlsn env) (sq_presentation request)
        \<lparr>exp_shape = sh, exp_attestation_key = pv_attestation_key pv,
         exp_root_certs = pv_root_certs pv, exp_max_session_secs = pv_max_session_secs pv\<rparr>) (\<lambda>a.
      ensure (set_t_att x = as_t_att a) ''tAtt is not the attested time'' (
      case as_hidden_hashes a of
        [_, property_hash, tenant_hash, date_hash] \<Rightarrow>
          (let d = digest (env_eip712_hash env) (Settle_stmt x) (pv_domain pv) in
           and_then (phi_s_new (property_hash, tenant_hash, date_hash)
             (tx_property_id (set_tx_data x)) (set_c_b x) (nat engaged) d) (\<lambda>public.
           and_then (groth16_verify (env_ark env) (sp_verifier policy) (sq_proof request)
             (phi_s_inputs public)) (\<lambda>ok.
           ensure ok ''the phi_S proof does not verify for this statement and attestation'' (Inr d))))
      | _ \<Rightarrow> bail ''the tenancy layout has four hidden fields''))))))))))"

definition sign_settle ::
    "('p, 'vk, 'att, 'rs, 'g1, 'g2, 'pvk, 'sk) notary_env \<Rightarrow> io_outcome
      \<Rightarrow> ('vk, 'pvk, 'sk) policy_verifier \<Rightarrow> ('p, 'g1, 'g2) settle_request
      \<Rightarrow> ('vk, 'pvk, 'sk) policy_verifier \<times> bytes res" where
  "sign_settle env io pv request =
     (case check_settle env pv request of
        Inl e \<Rightarrow> (pv, Inl e)
      | Inr d \<Rightarrow> record_and_sign env io pv (set_eta (sq_statement request)) d)"

subsection \<open>What a signature and a refusal mean\<close>

text \<open>One request of any phase, as the notary's verifier connection dispatches it.\<close>

datatype ('p, 'g1, 'g2) phase_request =
    Sign_register "('p, 'g1, 'g2) register_request"
  | Sign_apply "('p, 'g1, 'g2) apply_request"
  | Sign_settle "('p, 'g1, 'g2) settle_request"

fun request_statement :: "('p, 'g1, 'g2) phase_request \<Rightarrow> statement" where
  "request_statement (Sign_register r) = Register_stmt (rq_statement r)"
| "request_statement (Sign_apply r) = Apply_stmt (aq_statement r)"
| "request_statement (Sign_settle r) = Settle_stmt (sq_statement r)"

fun check_request ::
    "('p, 'vk, 'att, 'rs, 'g1, 'g2, 'pvk, 'sk) notary_env \<Rightarrow> ('vk, 'pvk, 'sk) policy_verifier
      \<Rightarrow> ('p, 'g1, 'g2) phase_request \<Rightarrow> bytes res" where
  "check_request env pv (Sign_register r) = check_register env pv r"
| "check_request env pv (Sign_apply r) = check_apply env pv r"
| "check_request env pv (Sign_settle r) = check_settle env pv r"

fun sign_request ::
    "('p, 'vk, 'att, 'rs, 'g1, 'g2, 'pvk, 'sk) notary_env \<Rightarrow> io_outcome
      \<Rightarrow> ('vk, 'pvk, 'sk) policy_verifier \<Rightarrow> ('p, 'g1, 'g2) phase_request
      \<Rightarrow> ('vk, 'pvk, 'sk) policy_verifier \<times> bytes res" where
  "sign_request env io pv (Sign_register r) = sign_register env io pv r"
| "sign_request env io pv (Sign_apply r) = sign_apply env io pv r"
| "sign_request env io pv (Sign_settle r) = sign_settle env io pv r"

lemma sign_request_eq:
  "sign_request env io pv q =
     (case check_request env pv q of
        Inl e \<Rightarrow> (pv, Inl e)
      | Inr d \<Rightarrow> record_and_sign env io pv (statement_eta (request_statement q)) d)"
  by (induction q) (auto simp: sign_register_def sign_apply_def sign_settle_def split: sum.splits)

lemma two_hashes_Inr [simp]:
  "(case hs of [a, b] \<Rightarrow> f a b | _ \<Rightarrow> bail m) = Inr d \<longleftrightarrow> (\<exists>a b. hs = [a, b] \<and> f a b = Inr d)"
  by (auto split: list.splits)

lemma four_hashes_Inr [simp]:
  "(case hs of [a, b, c, e] \<Rightarrow> f a b c e | _ \<Rightarrow> bail m) = Inr d \<longleftrightarrow>
     (\<exists>a b c e. hs = [a, b, c, e] \<and> f a b c e = Inr d)"
  by (auto split: list.splits)

lemma check_request_digest:
  "check_request env pv q = Inr d \<Longrightarrow>
   d = digest (env_eip712_hash env) (request_statement q) (pv_domain pv) \<and>
   \<not> nonce_seen (pv_nonces pv) (statement_eta (request_statement q))"
  by (cases q)
    (auto simp: check_register_def check_apply_def check_settle_def Let_def ensure_unsigned_def
      and_then_Inr_iff ensure_Inr_iff)

lemma key_sign_Inr_iff [simp]: "key_sign env sk d = Inr s \<longleftrightarrow> env_sign_hash env sk d = Inr s"
  by (simp add: key_sign_def)

lemma record_and_sign_cases:
  assumes "record_and_sign env io pv eta d = (pv', r)"
  obtains (refused) nonces e where "record_nonce (env_hex_encode env) io (pv_nonces pv) eta = (nonces, Inl e)"
      "pv' = pv\<lparr>pv_nonces := nonces\<rparr>" "r = Inl e"
  | (recorded) nonces where "record_nonce (env_hex_encode env) io (pv_nonces pv) eta = (nonces, Inr ())"
      "pv' = pv\<lparr>pv_nonces := nonces\<rparr>" "r = key_sign env (pv_key pv) d"
  using assms by (auto simp: record_and_sign_def split: prod.splits sum.splits)

text \<open>C11: A signature is given only for a statement whose checks pass in the state before, over the digest
  of exactly that statement in the notary's domain and with the notary's key; its nonce was not
  recorded before, is recorded after, and nothing else of the state changes. When the checks refuse a
  request, or the nonce cannot be recorded, no nonce becomes known.\<close>

theorem signature_needs_checks:
  assumes "sign_request env io pv q = (pv', r)"
  shows "(case r of
      Inr sigma \<Rightarrow>
        check_request env pv q = Inr (digest (env_eip712_hash env) (request_statement q) (pv_domain pv)) \<and>
        env_sign_hash env (pv_key pv)
          (digest (env_eip712_hash env) (request_statement q) (pv_domain pv)) = Inr sigma \<and>
        \<not> nonce_seen (pv_nonces pv) (statement_eta (request_statement q)) \<and>
        (\<forall>n. nonce_seen (pv_nonces pv') n \<longleftrightarrow>
           nonce_seen (pv_nonces pv) n \<or> n = statement_eta (request_statement q))
    | Inl e \<Rightarrow> (\<forall>n. nonce_seen (pv_nonces pv') n = nonce_seen (pv_nonces pv) n) \<or>
        (\<exists>d. check_request env pv q = Inr d \<and> io = Written \<and> key_sign env (pv_key pv) d = Inl e)) \<and>
    pv' = pv\<lparr>pv_nonces := pv_nonces pv'\<rparr>"
proof (cases "check_request env pv q")
  case (Inl e)
  then have "pv' = pv" "r = Inl e" using assms by (simp_all add: sign_request_eq)
  then show ?thesis by simp
next
  case (Inr d)
  note digest = check_request_digest [OF Inr]
  let ?eta = "statement_eta (request_statement q)"
  have rs: "record_and_sign env io pv ?eta d = (pv', r)" using assms Inr by (simp add: sign_request_eq)
  then show ?thesis
  proof (cases rule: record_and_sign_cases)
    case (refused nonces e)
    then show ?thesis using store.log_refused [OF refused(1)] by simp
  next
    case (recorded nonces)
    have "io = Written"
      using recorded(1) by (auto simp: record_nonce_def Let_def bail_def split: if_splits io_outcome.splits)
    have d: "d = digest (env_eip712_hash env) (request_statement q) (pv_domain pv)"
      and fresh: "\<not> nonce_seen (pv_nonces pv) ?eta" using digest by simp_all
    show ?thesis
    proof (cases r)
      case (Inl e)
      then have "key_sign env (pv_key pv) d = Inl e" using recorded(3) by simp
      with Inr \<open>io = Written\<close> Inl recorded(2) show ?thesis by auto
    next
      case (Inr sigma)
      then have "env_sign_hash env (pv_key pv) d = Inr sigma" using recorded(3) by simp
      with Inr d fresh \<open>check_request env pv q = Inr d\<close> recorded(2) store.log_recorded [OF recorded(1)]
      show ?thesis by simp
    qed
  qed
qed

subsection \<open>One signature per nonce\<close>

text \<open>The life of a notary: it starts on a nonce file, answers requests of any phase with any outcome of
  the file system, and may restart with any configuration on the same file. The list holds the
  statements signed so far with their signatures.\<close>

inductive notary_life ::
    "('p, 'vk, 'att, 'rs, 'g1, 'g2, 'pvk, 'sk) notary_env \<Rightarrow> (statement \<times> bytes) list
      \<Rightarrow> ('vk, 'pvk, 'sk) policy_verifier \<Rightarrow> bool"
  for env :: "('p, 'vk, 'att, 'rs, 'g1, 'g2, 'pvk, 'sk) notary_env" where
  life_start: "open_nonces (env_hex_decode env) f = Inr nonces \<Longrightarrow>
    notary_life env [] (pv\<lparr>pv_nonces := nonces\<rparr>)"
| life_signed: "notary_life env sigs pv \<Longrightarrow> length (statement_eta (request_statement q)) = 32 \<Longrightarrow>
    sign_request env io pv q = (pv', Inr sigma) \<Longrightarrow>
    notary_life env ((request_statement q, sigma) # sigs) pv'"
| life_refused: "notary_life env sigs pv \<Longrightarrow> length (statement_eta (request_statement q)) = 32 \<Longrightarrow>
    sign_request env io pv q = (pv', Inl e) \<Longrightarrow> notary_life env sigs pv'"
| life_reopen: "notary_life env sigs pv \<Longrightarrow>
    open_nonces (env_hex_decode env) (ns_file (pv_nonces pv)) = Inr nonces \<Longrightarrow>
    notary_life env sigs (pv2\<lparr>pv_nonces := nonces\<rparr>)"

lemma sign_request_nonces:
  assumes "sign_request env io pv q = (pv', r)"
  shows "pv_nonces pv' = pv_nonces pv \<and> (\<forall>s. r \<noteq> Inr s) \<or>
    (\<exists>n. record_nonce (env_hex_encode env) io (pv_nonces pv) (statement_eta (request_statement q))
       = (pv_nonces pv', n) \<and> (n = Inr () \<or> (\<exists>e. n = Inl e) \<and> (\<forall>s. r \<noteq> Inr s)))"
proof (cases "check_request env pv q")
  case (Inl e)
  then show ?thesis using assms by (auto simp: sign_request_eq)
next
  case (Inr d)
  then have "record_and_sign env io pv (statement_eta (request_statement q)) d = (pv', r)"
    using assms by (simp add: sign_request_eq)
  then show ?thesis by (cases rule: record_and_sign_cases) auto
qed

lemma notary_life_invariant:
  assumes "hex_codec (env_hex_encode env) (env_hex_decode env)" and "notary_life env sigs pv"
  shows "\<exists>ns. record_life (env_hex_encode env) (env_hex_decode env) ns (pv_nonces pv) \<and>
    distinct (map (\<lambda>(x, _). statement_eta x) sigs) \<and>
    set (map (\<lambda>(x, _). statement_eta x) sigs) \<subseteq> set ns"
  using assms(2)
proof (induction rule: notary_life.induct)
  case (life_start f nonces pv)
  then show ?case by (auto intro: life_open)
next
  case (life_signed sigs pv q io pv' sigma)
  then obtain ns where ns: "record_life (env_hex_encode env) (env_hex_decode env) ns (pv_nonces pv)"
    "distinct (map (\<lambda>(x, _). statement_eta x) sigs)"
    "set (map (\<lambda>(x, _). statement_eta x) sigs) \<subseteq> set ns" by blast
  let ?eta = "statement_eta (request_statement q)"
  have "record_nonce (env_hex_encode env) io (pv_nonces pv) ?eta = (pv_nonces pv', Inr ())"
    using sign_request_nonces [OF life_signed.hyps(3)] by auto
  from life_recorded [OF ns(1) life_signed.hyps(2) this]
  have life: "record_life (env_hex_encode env) (env_hex_decode env) (?eta # ns) (pv_nonces pv')" .
  from record_life_invariant [OF assms(1) this] have "?eta \<notin> set ns" by simp
  with ns life show ?case by (intro exI [of _ "?eta # ns"]) auto
next
  case (life_refused sigs pv q io pv' e)
  then obtain ns where ns: "record_life (env_hex_encode env) (env_hex_decode env) ns (pv_nonces pv)"
    "distinct (map (\<lambda>(x, _). statement_eta x) sigs)"
    "set (map (\<lambda>(x, _). statement_eta x) sigs) \<subseteq> set ns" by blast
  let ?eta = "statement_eta (request_statement q)"
  consider "pv_nonces pv' = pv_nonces pv"
    | "record_nonce (env_hex_encode env) io (pv_nonces pv) ?eta = (pv_nonces pv', Inr ())"
    | e' where "record_nonce (env_hex_encode env) io (pv_nonces pv) ?eta = (pv_nonces pv', Inl e')"
    using sign_request_nonces [OF life_refused.hyps(3)] by auto
  then show ?case
  proof cases
    case 1
    then show ?thesis using ns by auto
  next
    case 2
    from life_recorded [OF ns(1) life_refused.hyps(2) this] ns show ?thesis
      by (intro exI [of _ "?eta # ns"]) auto
  next
    case 3
    from life_failed [OF ns(1) life_refused.hyps(2) this] ns show ?thesis by blast
  qed
next
  case (life_reopen sigs pv nonces pv2)
  then show ?case using life_restart by fastforce
qed

text \<open>C1: Over the whole life of a notary, across phases, failed writes and restarts, no two signed
  statements share a nonce, and a request with the nonce of a signed statement is refused.\<close>

theorem one_signature_per_nonce:
  assumes "hex_codec (env_hex_encode env) (env_hex_decode env)" and "notary_life env sigs pv"
  shows "distinct (map (\<lambda>(x, _). statement_eta x) sigs) \<and>
    (\<forall>q io sigma. statement_eta (request_statement q) \<in> set (map (\<lambda>(x, _). statement_eta x) sigs) \<longrightarrow>
       snd (sign_request env io pv q) \<noteq> Inr sigma)"
proof -
  obtain ns where ns: "record_life (env_hex_encode env) (env_hex_decode env) ns (pv_nonces pv)"
    "distinct (map (\<lambda>(x, _). statement_eta x) sigs)"
    "set (map (\<lambda>(x, _). statement_eta x) sigs) \<subseteq> set ns"
    using notary_life_invariant [OF assms] by blast
  have seen: "nonce_seen (pv_nonces pv) eta" if "eta \<in> set ns" for eta
    using record_life_invariant [OF assms(1) ns(1)] that by (auto simp: nonce_seen_def)
  have "snd (sign_request env io pv q) \<noteq> Inr sigma"
    if "nonce_seen (pv_nonces pv) (statement_eta (request_statement q))" for q io sigma
    using that check_request_digest [of env pv q]
    by (cases "check_request env pv q") (auto simp: sign_request_eq)
  with ns seen show ?thesis by blast
qed

subsection \<open>An honest owner obtains a signature\<close>

lemma check_register_honest:
  assumes "validate_layout (rp_layout policy) = Inr ()"
    and "pv_policies pv (reg_policy_id (rq_statement q)) = Some policy"
    and "\<not> nonce_seen (pv_nonces pv) (reg_eta (rq_statement q))"
    and "property_id_word (rp_layout policy) (rq_property_id q) =
        Inr (tx_property_id (reg_tx_data (rq_statement q)))"
    and "check_presentation (env_tlsn env) (rq_presentation q)
        \<lparr>ex_layout = rp_layout policy, ex_attestation_key = pv_attestation_key pv,
         ex_root_certs = pv_root_certs pv, ex_property_id = rq_property_id q,
         ex_max_session_secs = pv_max_session_secs pv\<rparr> =
        Inr \<lparr>at_t_att = reg_t_att (rq_statement q), at_connection_time = conn, at_account_hash = ha,
          at_owners_hash = ho, at_property_id_hash = hp\<rparr>"
    and "list_all is_word [ha, ho, hp]"
    and "fr_modulus (env_ark env) = BN254_R" and "verifier_n_public (rp_verifier policy) = PHI_R_PUBLIC_INPUTS"
    and "d = digest (env_eip712_hash env) (Register_stmt (rq_statement q)) (pv_domain pv)"
    and "public = \<lparr>r_account_hash = ha, r_owners_hash = ho, r_property_hash = hp,
          r_property_id = tx_property_id (reg_tx_data (rq_statement q)), r_digest = d\<rparr>"
    and "verify_proof (env_ark env) (verifier_pvk (rp_verifier policy)) (rq_proof q)
        (map dec_value (phi_r_inputs public)) = Inr True"
  shows "check_register env pv q = Inr d"
proof -
  have "valid_padding (rp_layout policy)"
    using assms(1) by (simp add: validate_layout_iff valid_layout_def)
  then have "is_word (tx_property_id (reg_tx_data (rq_statement q)))"
    using word_of_pad assms(4) by (fastforce simp: property_id_word_def ensure_Inr_iff is_word_def)
  then have words: "list_all is_word [r_account_hash public, r_owners_hash public, r_property_hash public,
      r_property_id public]" using assms(6,10) by simp
  from groth16_verify_phi_r [OF assms(7,8) this] assms(11)
  have "groth16_verify (env_ark env) (rp_verifier policy) (rq_proof q) (phi_r_inputs public) = Inr True"
    by simp
  then show ?thesis
    using assms by (simp add: check_register_def Let_def phi_r_public_of_def is_word_def word32_def)
qed


subsection \<open>A concrete notary\<close>

definition sample_env ::
    "response_shape \<Rightarrow> bytes
      \<Rightarrow> (unit, nat, unit, nat set, nat \<times> nat, (nat \<times> nat) \<times> nat \<times> nat, nat, nat) notary_env" where
  "sample_env s b =
     \<lparr>env_tlsn = sample_tlsn s b (sample_hashes 5),
      env_ark = sample_ark\<lparr>verify_proof := (\<lambda>_ _ inputs. Inr (length inputs = 9))\<rparr>,
      env_hex_encode = ref_hex_encode, env_hex_decode = ref_hex_decode,
      env_eip712_hash = (\<lambda>x _. statement_eta x), env_signer_new = (\<lambda>_. Inr 0),
      env_sign_hash = (\<lambda>_ d. Inr (d @ d)), env_signer_address = (\<lambda>_. [])\<rparr>"

definition sample_word :: bytes where
  "sample_word = ''TR-06-CANKAYA-000123'' @ replicate 12 (CHR 0x00)"

lemma sample_word_eq: "property_id_word title_v1 ''TR-06-CANKAYA-000123'' = Inr sample_word"
  by (simp add: property_id_word_def title_v1_def pad_def pad_value_def first_char_def
      utf8_width_def byte_defs sample_word_def)

definition sample_statement :: register_stmt where
  "sample_statement =
     \<lparr>reg_c_tx = replicate 32 (CHR 0x01),
      reg_tx_data = \<lparr>tx_property_id = sample_word, tx_amount = 1000, tx_settlement_share = 500\<rparr>,
      reg_policy_id = ''policy'', reg_submitter = replicate 20 (CHR 0x02),
      reg_eta = sample_nonce (CHR 0x07), reg_t_att = 1000\<rparr>"

definition sample_request :: "(unit, nat \<times> nat, (nat \<times> nat) \<times> nat \<times> nat) register_request" where
  "sample_request =
     \<lparr>rq_presentation = (), rq_property_id = ''TR-06-CANKAYA-000123'', rq_statement = sample_statement,
      rq_proof = \<lparr>proof_a = (1, 2), proof_b = ((1, 1), (1, 1)), proof_c = (1, 2)\<rparr>\<rparr>"

definition sample_policy :: "nat register_policy" where
  "sample_policy =
     \<lparr>rp_layout = title_v1, rp_verifier = \<lparr>verifier_pvk = 10, verifier_n_public = 9\<rparr>\<rparr>"

definition sample_verifier :: "(nat, nat, nat) policy_verifier" where
  "sample_verifier =
     policy_verifier_new [''policy'' \<mapsto> sample_policy] 7 [] 120 0 (domain_of 1 (replicate 20 (CHR 0x03)))
       \<lparr>ns_file = [], ns_seen = {}\<rparr>"

lemma sample_domain: "pv_domain sample_verifier = domain_of 1 (replicate 20 (CHR 0x03))"
  by (simp add: sample_verifier_def policy_verifier_new_def)

text \<open>What the sample notary knows and is given.\<close>

lemma sample_register_facts:
  assumes "shape title_v1 ''TR-06-CANKAYA-000123'' = Inr s"
    and "render_response title_v1 ''ACC-000000000001'' sample_record = Inr x"
  shows "validate_layout (rp_layout sample_policy) = Inr ()"
    and "pv_policies sample_verifier (reg_policy_id (rq_statement sample_request)) = Some sample_policy"
    and "\<not> nonce_seen (pv_nonces sample_verifier) (reg_eta (rq_statement sample_request))"
    and "property_id_word (rp_layout sample_policy) (rq_property_id sample_request) =
        Inr (tx_property_id (reg_tx_data (rq_statement sample_request)))"
    and "check_presentation (env_tlsn (sample_env s (rendered_bytes x))) (rq_presentation sample_request)
        \<lparr>ex_layout = rp_layout sample_policy, ex_attestation_key = pv_attestation_key sample_verifier,
         ex_root_certs = pv_root_certs sample_verifier, ex_property_id = rq_property_id sample_request,
         ex_max_session_secs = pv_max_session_secs sample_verifier\<rparr> =
        Inr \<lparr>at_t_att = reg_t_att (rq_statement sample_request), at_connection_time = 990,
          at_account_hash = replicate 32 (char_of (2::nat)),
          at_owners_hash = replicate 32 (char_of (3::nat)),
          at_property_id_hash = replicate 32 (char_of (4::nat))\<rparr>"
    and "list_all is_word [replicate 32 (char_of (2::nat)), replicate 32 (char_of (3::nat)),
        replicate 32 (char_of (4::nat))]"
    and "fr_modulus (env_ark (sample_env s (rendered_bytes x))) = BN254_R"
    and "verifier_n_public (rp_verifier sample_policy) = PHI_R_PUBLIC_INPUTS"
    and "verify_proof (env_ark (sample_env s (rendered_bytes x))) (verifier_pvk (rp_verifier sample_policy))
        (rq_proof sample_request) (map dec_value (phi_r_inputs public)) = Inr True"
    and "env_sign_hash (sample_env s (rendered_bytes x)) (pv_key sample_verifier) d = Inr (d @ d)"
  using sample_presentation_accepted [OF assms] valid_title_v1 sample_word_eq
  by (simp_all add: sample_policy_def sample_verifier_def policy_verifier_new_def sample_request_def
      sample_statement_def sample_env_def sample_ark_def title_expectation_def nonce_seen_def
      is_word_def PHI_R_PUBLIC_INPUTS_def phi_r_inputs_def)


lemma sample_register_signed:
  assumes "shape title_v1 ''TR-06-CANKAYA-000123'' = Inr s"
    and "render_response title_v1 ''ACC-000000000001'' sample_record = Inr x"
  shows "\<exists>pv' sigma. sign_request (sample_env s (rendered_bytes x)) Written sample_verifier
    (Sign_register sample_request) = (pv', Inr sigma)"
proof -
  note f = sample_register_facts [OF assms]
  from check_register_honest [OF f(1-8) refl refl f(9)] f(3,10) show ?thesis
    by (simp add: sign_register_def record_and_sign_def record_nonce_def Let_def nonce_seen_def key_sign_def)
qed

theorem signature_needs_checks_witness:
  "\<exists>s (x :: rendered) pv' sigma. sign_request (sample_env s (rendered_bytes x)) Written sample_verifier
      (Sign_register sample_request) = (pv', Inr sigma) \<and>
    check_request (sample_env s (rendered_bytes x)) sample_verifier (Sign_register sample_request) =
      Inr (sample_nonce (CHR 0x07)) \<and> nonce_seen (pv_nonces pv') (sample_nonce (CHR 0x07))"
proof -
  obtain s where s: "shape title_v1 ''TR-06-CANKAYA-000123'' = Inr s"
    using title.shape_total valid_title_v1 by (metis validate_layout_iff)
  obtain x where x: "render_response title_v1 ''ACC-000000000001'' sample_record = Inr x"
    using sample_render_ok by blast
  obtain pv' sigma where r: "sign_request (sample_env s (rendered_bytes x)) Written sample_verifier
      (Sign_register sample_request) = (pv', Inr sigma)" using sample_register_signed [OF s x] by blast
  have "digest (env_eip712_hash (sample_env s (rendered_bytes x)))
      (request_statement (Sign_register sample_request)) (pv_domain sample_verifier) = sample_nonce (CHR 0x07)"
    "statement_eta (request_statement (Sign_register sample_request)) = sample_nonce (CHR 0x07)"
    by (simp_all add: sample_env_def digest_def sample_request_def sample_statement_def)
  with signature_needs_checks [OF r]
  have "check_request (sample_env s (rendered_bytes x)) sample_verifier (Sign_register sample_request) =
      Inr (sample_nonce (CHR 0x07))" and "nonce_seen (pv_nonces pv') (sample_nonce (CHR 0x07))"
    by simp_all
  with r show ?thesis by blast
qed

theorem one_signature_per_nonce_witness:
  "\<exists>s (x :: rendered) sigma pv'. notary_life (sample_env s (rendered_bytes x))
      [(Register_stmt sample_statement, sigma)] pv' \<and>
    snd (sign_request (sample_env s (rendered_bytes x)) Written pv' (Sign_register sample_request)) \<noteq> Inr sigma"
proof -
  obtain s where s: "shape title_v1 ''TR-06-CANKAYA-000123'' = Inr s"
    using title.shape_total valid_title_v1 by (metis validate_layout_iff)
  obtain x where x: "render_response title_v1 ''ACC-000000000001'' sample_record = Inr x"
    using sample_render_ok by blast
  let ?env = "sample_env s (rendered_bytes x)"
  obtain pv' sigma where r: "sign_request ?env Written sample_verifier
      (Sign_register sample_request) = (pv', Inr sigma)" using sample_register_signed [OF s x] by blast
  have "open_nonces (env_hex_decode ?env) [] = Inr \<lparr>ns_file = [], ns_seen = {}\<rparr>"
    by (simp add: open_nonces_def file_lines.simps)
  from life_start [OF this, of sample_verifier] have "notary_life ?env [] sample_verifier"
    by (simp add: sample_verifier_def policy_verifier_new_def)
  from life_signed [OF this _ r] have life: "notary_life ?env [(Register_stmt sample_statement, sigma)] pv'"
    by (simp add: sample_request_def sample_statement_def sample_nonce_def)
  have "hex_codec (env_hex_encode ?env) (env_hex_decode ?env)"
    by (simp add: sample_env_def ref_hex_codec)
  note once = one_signature_per_nonce [OF this life]
  have "statement_eta (request_statement (Sign_register sample_request))
      \<in> set (map (\<lambda>(x, _). statement_eta x) [(Register_stmt sample_statement, sigma)])"
    by (simp add: sample_request_def)
  with once life show ?thesis by blast
qed

end
