(* ===== verification/Prover_Witness.thy ===== *)
theory Prover_Witness
  imports Prover_Session Phi_R Policy_Verifier
begin

section \<open>Circuit inputs and proving\<close>

text \<open>
  Model of \<open>pprev-prover/src/circuit.rs\<close>: the commitments that the owner recomputes, the openings of a
  rendered response, the inputs of the three circuits, the files of a compiled circuit, the reading of a
  failed assertion, and the runs of circom's witness generator and of snarkjs. SHA-256, hex, serde_json,
  the file system and the two programs are parameters. Times and memory measurements are not modelled.
  The main property: the input that the owner builds from a session satisfies phi_R exactly when the
  session's account is an owner of the property in the statement.
\<close>

subsection \<open>Commitments and openings\<close>

definition opening_commitment :: "(bytes \<Rightarrow> bytes) \<Rightarrow> field_opening \<Rightarrow> bytes" where
  "opening_commitment sha256 o1 = sha256 (fo_plaintext o1 @ fo_blinder o1)"

definition public_of :: "(bytes \<Rightarrow> bytes) \<Rightarrow> hidden_openings \<Rightarrow> bytes \<Rightarrow> bytes \<Rightarrow> phi_r_public" where
  "public_of sha256 openings pid d =
     \<lparr>r_account_hash = opening_commitment sha256 (ho_account openings),
      r_owners_hash = opening_commitment sha256 (ho_owners openings),
      r_property_hash = opening_commitment sha256 (ho_property_id openings),
      r_property_id = pid, r_digest = d\<rparr>"

definition read_borrowed_proof ::
    "(bytes \<Rightarrow> bytes) \<Rightarrow> (bytes \<Rightarrow> bytes) \<Rightarrow> ('path \<Rightarrow> bytes res) \<Rightarrow> (bytes \<Rightarrow> bool) \<Rightarrow> 'path \<Rightarrow> (bytes \<times> bytes) res" where
  "read_borrowed_proof sha256 hex_encode read_file is_utf8 file =
     and_then (with_ctx ''reading'' (read_file file)) (\<lambda>bs.
     let source = ''borrowed:sha256:'' @ hex_encode (sha256 bs) in
     ensure (is_utf8 bs) ''is not UTF-8'' (Inr (bs, source)))"

definition label_blinder :: "(bytes \<Rightarrow> bytes) \<Rightarrow> bytes \<Rightarrow> bytes" where
  "label_blinder sha256 label = take 16 (sha256 label)"

definition open_range :: "bytes \<Rightarrow> range \<Rightarrow> bytes \<Rightarrow> field_opening res" where
  "open_range bs r blinder =
     and_then (index_range bs r) (\<lambda>plaintext.
     Inr \<lparr>fo_range = r, fo_plaintext = plaintext, fo_blinder = blinder\<rparr>)"

definition rendered_openings ::
    "layout \<Rightarrow> bytes \<Rightarrow> title_record \<Rightarrow> bytes \<times> bytes \<times> bytes \<Rightarrow> hidden_openings res" where
  "rendered_openings l acct r blinders =
     and_then (render_response l acct r) (\<lambda>x.
     let (account_blinder, owners_blinder, property_blinder) = blinders; bs = rendered_bytes x; q = rendered_ranges x in
     and_then (open_range bs (account_range q) account_blinder) (\<lambda>a.
     and_then (open_range bs (owners_range q) owners_blinder) (\<lambda>os.
     and_then (open_range bs (property_id_range q) property_blinder) (\<lambda>p.
     Inr \<lparr>ho_account = a, ho_owners = os, ho_property_id = p\<rparr>))))"

definition record_openings ::
    "record_layout \<Rightarrow> bytes \<Rightarrow> bytes list \<Rightarrow> bytes list \<Rightarrow> field_opening list res" where
  "record_openings l acct values blinders =
     and_then (render_record l acct values) (\<lambda>x.
     let hid = record_hidden (record_byte_ranges x) in
     ensure (length blinders = length hid) ''blinders for hidden fields'' (
     collect_res (\<lambda>(r, b). open_range (record_bytes x) r b) (zip hid blinders)))"

subsection \<open>Inputs of the circuits\<close>

definition salt_input :: "bytes \<Rightarrow> bytes" where
  "salt_input salt = dec (be_value salt)"

record phi_a_input =
  ia_account_hash :: "bytes list"
  ia_income_hash :: "bytes list"
  ia_c_b :: bytes
  ia_amount :: bytes
  ia_bind :: bytes
  ia_account :: bytes
  ia_income :: bytes
  ia_account_blinder :: bytes
  ia_income_blinder :: bytes
  ia_salt :: bytes

definition phi_a_input_new :: "phi_a_public \<Rightarrow> field_opening list \<Rightarrow> bytes \<Rightarrow> phi_a_input res" where
  "phi_a_input_new public openings salt =
     (case openings of
        [acct, inc] \<Rightarrow>
          (let p = phi_a_inputs public in
           Inr \<lparr>ia_account_hash = [p ! 0, p ! 1], ia_income_hash = [p ! 2, p ! 3], ia_c_b = p ! 4,
                ia_amount = p ! 5, ia_bind = p ! 6, ia_account = fo_plaintext acct, ia_income = fo_plaintext inc,
                ia_account_blinder = fo_blinder acct, ia_income_blinder = fo_blinder inc, ia_salt = salt_input salt\<rparr>)
      | _ \<Rightarrow> bail ''phi_A opens two fields'')"

record phi_s_input =
  is_property_hash :: "bytes list"
  is_tenant_hash :: "bytes list"
  is_date_hash :: "bytes list"
  is_property_id :: "bytes list"
  is_c_b :: bytes
  is_engagement_day :: bytes
  is_bind :: bytes
  is_property :: bytes
  is_tenant :: bytes
  is_date :: bytes
  is_property_blinder :: bytes
  is_tenant_blinder :: bytes
  is_date_blinder :: bytes
  is_salt :: bytes

definition phi_s_input_new :: "phi_s_public \<Rightarrow> field_opening list \<Rightarrow> bytes \<Rightarrow> phi_s_input res" where
  "phi_s_input_new public openings salt =
     (case openings of
        [_, prp, ten, dat] \<Rightarrow>
          (let p = phi_s_inputs public in
           Inr \<lparr>is_property_hash = [p ! 0, p ! 1], is_tenant_hash = [p ! 2, p ! 3], is_date_hash = [p ! 4, p ! 5],
                is_property_id = [p ! 6, p ! 7], is_c_b = p ! 8, is_engagement_day = p ! 9, is_bind = p ! 10,
                is_property = fo_plaintext prp, is_tenant = fo_plaintext ten, is_date = fo_plaintext dat,
                is_property_blinder = fo_blinder prp, is_tenant_blinder = fo_blinder ten,
                is_date_blinder = fo_blinder dat, is_salt = salt_input salt\<rparr>)
      | _ \<Rightarrow> bail ''the tenancy layout has four hidden fields'')"

record phi_r_input =
  ir_account_hash :: "bytes list"
  ir_owners_hash :: "bytes list"
  ir_property_hash :: "bytes list"
  ir_property_id :: "bytes list"
  ir_bind :: bytes
  ir_account :: bytes
  ir_owners :: bytes
  ir_property :: bytes
  ir_account_blinder :: bytes
  ir_owners_blinder :: bytes
  ir_property_blinder :: bytes

definition phi_r_input_new :: "phi_r_public \<Rightarrow> hidden_openings \<Rightarrow> phi_r_input" where
  "phi_r_input_new public openings =
     (let p = phi_r_inputs public in
      \<lparr>ir_account_hash = [p ! 0, p ! 1], ir_owners_hash = [p ! 2, p ! 3], ir_property_hash = [p ! 4, p ! 5],
       ir_property_id = [p ! 6, p ! 7], ir_bind = p ! 8,
       ir_account = fo_plaintext (ho_account openings), ir_owners = fo_plaintext (ho_owners openings),
       ir_property = fo_plaintext (ho_property_id openings),
       ir_account_blinder = fo_blinder (ho_account openings), ir_owners_blinder = fo_blinder (ho_owners openings),
       ir_property_blinder = fo_blinder (ho_property_id openings)\<rparr>)"

subsection \<open>The files of a circuit\<close>

definition CIRCUIT_NAME :: bytes where "CIRCUIT_NAME = ''main_title_v1''"
definition PHI_A_CIRCUIT_NAME :: bytes where "PHI_A_CIRCUIT_NAME = ''main_income_v1''"
definition PHI_S_CIRCUIT_NAME :: bytes where "PHI_S_CIRCUIT_NAME = ''main_tenancy_v1''"

record circuit_files =
  cf_circuits_dir :: bytes
  cf_name :: bytes
  cf_zkey_file :: bytes
  cf_verification_key_file :: bytes
  cf_measure_rss :: bool

text \<open>\<open>Path::join\<close> on Unix.\<close>

definition path_join :: "bytes \<Rightarrow> bytes \<Rightarrow> bytes" where
  "path_join dir p =
     (if prefix ''/'' p then p else if dir = [] \<or> last dir = CHR ''/'' then dir @ p else dir @ ''/'' @ p)"

definition files_phi_r :: "bytes \<Rightarrow> circuit_files" where
  "files_phi_r dir = \<lparr>cf_circuits_dir = dir, cf_name = CIRCUIT_NAME, cf_zkey_file = ''phi_r.zkey'',
     cf_verification_key_file = ''setup/verification_key.json'', cf_measure_rss = False\<rparr>"

definition files_phi_a :: "bytes \<Rightarrow> circuit_files" where
  "files_phi_a dir = \<lparr>cf_circuits_dir = dir, cf_name = PHI_A_CIRCUIT_NAME, cf_zkey_file = ''phi_a.zkey'',
     cf_verification_key_file = ''setup/phi_a/verification_key.json'', cf_measure_rss = False\<rparr>"

definition files_phi_s :: "bytes \<Rightarrow> circuit_files" where
  "files_phi_s dir = \<lparr>cf_circuits_dir = dir, cf_name = PHI_S_CIRCUIT_NAME, cf_zkey_file = ''phi_s.zkey'',
     cf_verification_key_file = ''setup/phi_s/verification_key.json'', cf_measure_rss = False\<rparr>"

definition with_rss_measurement :: "circuit_files \<Rightarrow> circuit_files" where
  "with_rss_measurement f = f\<lparr>cf_measure_rss := True\<rparr>"

definition command :: "circuit_files \<Rightarrow> bytes \<Rightarrow> bytes list" where
  "command f program = (if cf_measure_rss f then [''/usr/bin/time'', ''-l'', program] else [program])"

definition build_dir :: "circuit_files \<Rightarrow> bytes" where
  "build_dir f = path_join (cf_circuits_dir f) ''build''"

definition wasm :: "circuit_files \<Rightarrow> bytes" where
  "wasm f = path_join (build_dir f) (cf_name f @ ''_js/'' @ cf_name f @ ''.wasm'')"

definition witness_generator :: "circuit_files \<Rightarrow> bytes" where
  "witness_generator f = path_join (build_dir f) (cf_name f @ ''_js/generate_witness.js'')"

definition snarkjs :: "circuit_files \<Rightarrow> bytes" where
  "snarkjs f = path_join (cf_circuits_dir f) ''node_modules/.bin/snarkjs''"

definition zkey :: "circuit_files \<Rightarrow> bytes" where
  "zkey f = path_join (build_dir f) (cf_zkey_file f)"

definition verification_key :: "circuit_files \<Rightarrow> bytes" where
  "verification_key f = path_join (cf_circuits_dir f) (cf_verification_key_file f)"

subsection \<open>Witness generation and proving\<close>

record unsatisfied =
  us_template :: bytes
  us_line :: "32 word"

definition split_once_str :: "bytes \<Rightarrow> bytes \<Rightarrow> (bytes \<times> bytes) option" where
  "split_once_str pat s = map_option (\<lambda>i. (take i s, drop (i + length pat) s)) (window_position pat s)"

definition rsplit_once :: "char \<Rightarrow> bytes \<Rightarrow> (bytes \<times> bytes) option" where
  "rsplit_once c s = map_option (\<lambda>(k, v). (rev v, rev k)) (split_once c (rev s))"

definition parse_u32_digits :: "bytes \<Rightarrow> 32 word option" where
  "parse_u32_digits ds = (if ds \<noteq> [] \<and> dec_value ds < 2 ^ 32 then Some (of_nat (dec_value ds)) else None)"

definition parse_unsatisfied :: "bytes \<Rightarrow> unsatisfied option" where
  "parse_unsatisfied stderr =
     (if window_position ''Assert Failed'' stderr = None then None
      else Option.bind (window_position ''Error in template '' stderr) (\<lambda>i.
      let rest = drop (i + length ''Error in template '') stderr in
      Option.bind (split_once_str '' line: '' rest) (\<lambda>(name, rest).
      let tpl = (case rsplit_once (CHR ''_'') name of
                   Some (base, suf) \<Rightarrow> if all_digits suf then base else name
                 | None \<Rightarrow> name);
          digits = takeWhile is_ascii_digit rest in
      map_option (\<lambda>n. \<lparr>us_template = tpl, us_line = n\<rparr>) (parse_u32_digits digits))))"

datatype prove_error = Unsatisfied unsatisfied | Prove_error error

type_synonym 'a proving = "prove_error + 'a"

definition lift_prove :: "'a res \<Rightarrow> 'a proving" where
  "lift_prove r = (case r of Inl e \<Rightarrow> Inl (Prove_error e) | Inr x \<Rightarrow> Inr x)"

definition unless :: "bool \<Rightarrow> bytes \<Rightarrow> 'a proving \<Rightarrow> 'a proving" where
  "unless b m r = (if b then r else Inl (Prove_error (Msg m)))"

text \<open>The contents of the files, and the programs and library calls of a run: a program gets its command
  line and the files and leaves files, an exit status and its standard error.\<close>

type_synonym disk = "bytes \<rightharpoonup> bytes"

record 'i tools =
  to_json :: "'i \<Rightarrow> bytes res"
  to_write :: "disk \<Rightarrow> bytes \<Rightarrow> bytes \<Rightarrow> disk res"
  to_run :: "bytes list \<Rightarrow> disk \<Rightarrow> (disk \<times> bool \<times> bytes) res"
  to_read :: "disk \<Rightarrow> bytes \<Rightarrow> bytes res"
  to_strings :: "bytes \<Rightarrow> bytes list res"

definition generate_witness :: "'i tools \<Rightarrow> circuit_files \<Rightarrow> 'i \<Rightarrow> bytes \<Rightarrow> disk \<Rightarrow> (disk \<times> bytes) proving" where
  "generate_witness t files input dir disk =
     unless (list_all (\<lambda>p. p \<in> dom disk) [wasm files, witness_generator files]) ''is missing; build the circuit'' (
     let input_path = path_join dir ''input.json''; witness = path_join dir ''witness.wtns'' in
     and_then (lift_prove (to_json t input)) (\<lambda>json.
     and_then (lift_prove (with_ctx ''writing'' (to_write t disk input_path json))) (\<lambda>disk.
     and_then (lift_prove (with_ctx ''running node (is Node.js installed?)''
       (to_run t (command files ''node'' @ [witness_generator files, wasm files, input_path, witness]) disk)))
       (\<lambda>(disk, success, stderr).
     if success then Inr (disk, witness)
     else case parse_unsatisfied stderr of
       Some u \<Rightarrow> Inl (Unsatisfied u)
     | None \<Rightarrow> Inl (Prove_error (Msg (''witness generation failed: '' @ stderr)))))))"

record phi_r_proof =
  pp_proof_json :: bytes
  pp_public :: "bytes list"

definition prove_with :: "'i tools \<Rightarrow> circuit_files \<Rightarrow> 'i \<Rightarrow> bytes \<Rightarrow> disk \<Rightarrow> (disk \<times> phi_r_proof) proving" where
  "prove_with t files input dir disk =
     unless (zkey files \<in> dom disk) ''is missing; run script/circuits_setup.sh'' (
     and_then (generate_witness t files input dir disk) (\<lambda>(disk, witness).
     let proof_path = path_join dir ''proof.json''; public_path = path_join dir ''public.json'' in
     and_then (lift_prove (with_ctx ''running snarkjs''
       (to_run t (command files (snarkjs files) @ [''groth16'', ''prove'', zkey files, witness, proof_path, public_path]) disk)))
       (\<lambda>(disk, success, stderr).
     unless success (''snarkjs groth16 prove failed: '' @ stderr) (
     and_then (lift_prove (with_ctx ''reading public.json'' (to_read t disk public_path))) (\<lambda>text.
     and_then (lift_prove (with_ctx ''parsing public.json'' (to_strings t text))) (\<lambda>public.
     and_then (lift_prove (with_ctx ''reading proof.json'' (to_read t disk proof_path))) (\<lambda>prf.
     Inr (disk, \<lparr>pp_proof_json = prf, pp_public = public\<rparr>))))))))"

subsection \<open>What the circuit sees of an input\<close>

text \<open>circom's witness generator assigns the fields of the input to the signals of the same names: decimal
  strings by their value and bytes by theirs.\<close>

definition phi_r_signals :: "phi_r_input \<Rightarrow> nat list \<times> phi_r_witness" where
  "phi_r_signals i =
     (map dec_value (ir_account_hash i @ ir_owners_hash i @ ir_property_hash i @ ir_property_id i @ [ir_bind i]),
      \<lparr>w_account = map byte_val (ir_account i), w_owners = map byte_val (ir_owners i),
       w_property = map byte_val (ir_property i), w_account_blinder = map byte_val (ir_account_blinder i),
       w_owners_blinder = map byte_val (ir_owners_blinder i),
       w_property_blinder = map byte_val (ir_property_blinder i)\<rparr>)"

definition opening_witness :: "hidden_openings \<Rightarrow> phi_r_witness" where
  "opening_witness openings =
     \<lparr>w_account = map byte_val (fo_plaintext (ho_account openings)),
      w_owners = map byte_val (fo_plaintext (ho_owners openings)),
      w_property = map byte_val (fo_plaintext (ho_property_id openings)),
      w_account_blinder = map byte_val (fo_blinder (ho_account openings)),
      w_owners_blinder = map byte_val (fo_blinder (ho_owners openings)),
      w_property_blinder = map byte_val (fo_blinder (ho_property_id openings))\<rparr>"

lemma phi_r_signals_new:
  "phi_r_signals (phi_r_input_new public openings) = (public_signals public, opening_witness openings)"
  by (simp add: phi_r_signals_def phi_r_input_new_def opening_witness_def Let_def public_signals_def
      phi_r_inputs_def limbs_def)

lemma as_bytes_vals [simp]: "as_bytes (map byte_val bs) = bs"
  by (simp add: as_bytes_def comp_def)

lemma byte_witness_opening [simp]: "byte_witness (opening_witness openings)"
proof -
  have "byte_signals (map byte_val bs)" for bs by (simp add: byte_signals_def list_all_iff)
  then show ?thesis by (simp add: byte_witness_def opening_witness_def flip: map_append)
qed

subsection \<open>The owner slots of a rendered response\<close>

lemma join_slots_separator:
  "Suc i < length vs \<Longrightarrow> (\<And>v. v \<in> set vs \<Longrightarrow> length v = w) \<Longrightarrow>
   take 3 (drop (i * (w + 3) + w) (join_slots vs)) = [dquote, CHR '','', dquote]"
proof (induction vs arbitrary: i rule: join_slots.induct)
  case (3 v u vs)
  have v: "length v = w" using "3.prems"(2) by simp
  show ?case
  proof (cases i)
    case 0
    then show ?thesis using v by simp
  next
    case (Suc j)
    have "take 3 (drop (j * (w + 3) + w) (join_slots (u # vs))) = [dquote, CHR '','', dquote]"
      using 3 Suc by simp
    moreover have "i * (w + 3) + w = length (v @ [dquote, CHR '','', dquote]) + (j * (w + 3) + w)"
      using Suc v by simp
    moreover have "drop (length p + n) (p @ q) = drop n q" for p q :: bytes and n by simp
    moreover have "join_slots (v # u # vs) = (v @ [dquote, CHR '','', dquote]) @ join_slots (u # vs)" by simp
    ultimately show ?thesis by metis
  qed
qed auto

lemma owner_slot_join:
  assumes "k < length vs" and "\<And>v. v \<in> set vs \<Longrightarrow> length v = p_account_width P"
    and "p_owner_stride P = p_account_width P + 3"
  shows "owner_slot P (join_slots vs) k = vs ! k"
  using join_slots_holds [OF assms(1,2)] assms(3)
  by (simp add: owner_slot_def holds_def slice_def)

subsection \<open>The openings of a rendered response\<close>

lemma open_range_Inr:
  "holds bs r v \<Longrightarrow> open_range bs r b = Inr \<lparr>fo_range = r, fo_plaintext = v, fo_blinder = b\<rparr>"
  by (simp add: open_range_def index_range_of_holds)

lemma rendered_openings_Inr:
  assumes l: "valid_layout l" and "rendered_openings l acct r (b1, b2, b3) = Inr op"
  obtains a p vs e v d where "pad l acct (account_width l) = Inr a"
    "pad l (property_id r) (property_id_width l) = Inr p" "slot_values l (owners r) = Inr vs"
    "padded_values l a p vs e v d"
    "length (owners r) \<le> owner_slots l"
    "fo_plaintext (ho_account op) = a" "fo_plaintext (ho_owners op) = join_slots vs"
    "fo_plaintext (ho_property_id op) = p" "fo_blinder (ho_account op) = b1"
    "fo_blinder (ho_owners op) = b2" "fo_blinder (ho_property_id op) = b3"
proof -
  from assms(2) obtain x where x: "render_response l acct r = Inr x"
    by (auto simp: rendered_openings_def and_then_Inr_iff)
  obtain a p vs e v d where h: "pad l acct (account_width l) = Inr a"
    "pad l (property_id r) (property_id_width l) = Inr p" "slot_values l (owners r) = Inr vs"
    "padded_values l a p vs e v d" and xr: "x = rendering l a p vs e v d"
    using render_response_Inr [OF l x] by metis
  have "length (owners r) \<le> owner_slots l"
    using x render_response_ok_iff_raw [OF l, of acct r] by simp
  with that [OF h] assms(2) x rendering_hidden_values [OF xr] show ?thesis
    by (auto simp: rendered_openings_def open_range_Inr Let_def)
qed

text \<open>The account, which is not blank, is padded to one of the record's owners.\<close>

definition is_owner :: "layout \<Rightarrow> bytes \<Rightarrow> title_record \<Rightarrow> bool" where
  "is_owner l acct r \<longleftrightarrow> (case pad l acct (account_width l) of Inl _ \<Rightarrow> False | Inr a \<Rightarrow>
     hd a \<noteq> hd (padding l) \<and> list_ex (\<lambda>v. pad l v (account_width l) = Inr a) (owners r))"

lemma slots_owner:
  assumes l: "valid_layout l" and a: "pad l acct (account_width l) = Inr a"
    and vs: "slot_values l (owners r) = Inr vs" and n: "length (owners r) \<le> owner_slots l"
  shows "hd a \<noteq> hd (padding l) \<and> (\<exists>k < owner_slots l. vs ! k = a) \<longleftrightarrow> is_owner l acct r"
proof -
  have slot: "pad l (owner_at (owners r) k) (account_width l) = Inr (vs ! k)" if "k < owner_slots l" for k
    using slot_values_nth [OF vs that] .
  have vp: "valid_padding l" and w: "0 < account_width l" using l by (auto simp: valid_layout_def)
  have blank: "vs ! k \<noteq> a" if "hd a \<noteq> hd (padding l)" "k < owner_slots l" "length (owners r) \<le> k" for k
  proof -
    obtain c where "padding l = [c]" "pad l [] (account_width l) = Inr (replicate (account_width l) c)"
      using pad_blank [OF vp] by blast
    moreover from this have "vs ! k = replicate (account_width l) c"
      using slot [OF that(2)] that(3) by (simp add: owner_at_def)
    ultimately have "hd (vs ! k) = hd (padding l)" using w by (cases "account_width l") simp_all
    then show ?thesis using that(1) by auto
  qed
  have "(\<exists>k < owner_slots l. vs ! k = a) \<longleftrightarrow> (\<exists>v \<in> set (owners r). pad l v (account_width l) = Inr a)"
    if ne: "hd a \<noteq> hd (padding l)"
  proof
    assume "\<exists>k < owner_slots l. vs ! k = a"
    then obtain k where k: "k < owner_slots l" "vs ! k = a" by blast
    then have "k < length (owners r)" using blank [OF ne k(1)] by (metis not_le)
    then show "\<exists>v \<in> set (owners r). pad l v (account_width l) = Inr a"
      using slot [OF k(1)] k(2) by (intro bexI [of _ "owners r ! k"]) (simp_all add: owner_at_def)
  next
    assume "\<exists>v \<in> set (owners r). pad l v (account_width l) = Inr a"
    then obtain k where k: "k < length (owners r)" "pad l (owners r ! k) (account_width l) = Inr a"
      by (auto simp: in_set_conv_nth)
    then show "\<exists>k < owner_slots l. vs ! k = a"
      using slot [of k] n by (intro exI [of _ k]) (simp add: owner_at_def)
  qed
  then show ?thesis using a by (auto simp: is_owner_def list_ex_iff)
qed

lemma names_owner_rendered:
  assumes l: "validate_layout l = Inr ()" and P: "phi_r_params_from_layout l = Inr P"
    and width: "property_id_width l \<le> 32"
    and opn: "rendered_openings l acct r (b1, b2, b3) = Inr op"
    and blinders: "length b1 = 16" "length b2 = 16" "length b3 = 16"
  shows "names_owner sha P (public_of sha op pid d) (opening_witness op) \<longleftrightarrow>
    is_owner l acct r \<and> property_id_word l (property_id r) = Inr pid"
proof -
  from l have vl: "valid_layout l" by (simp add: validate_layout_iff)
  obtain a p vs e v dt where h: "pad l acct (account_width l) = Inr a"
    "pad l (property_id r) (property_id_width l) = Inr p" "slot_values l (owners r) = Inr vs"
    and pad: "padded_values l a p vs e v dt" and n: "length (owners r) \<le> owner_slots l"
    and f: "fo_plaintext (ho_account op) = a" "fo_plaintext (ho_owners op) = join_slots vs"
    "fo_plaintext (ho_property_id op) = p" "fo_blinder (ho_account op) = b1"
    "fo_blinder (ho_owners op) = b2" "fo_blinder (ho_property_id op) = b3"
    using rendered_openings_Inr [OF vl opn] by metis
  have P': "p_account_width P = account_width l" "p_owner_slots P = owner_slots l"
    "p_owner_stride P = account_width l + 3" "p_property_id_width P = property_id_width l"
    "p_padding P = hd (padding l)"
    "p_owners_len P = (owner_slots l - 1) * (account_width l + 3) + account_width l"
    using P phi_r_params_of_layout [OF l] by auto
  have len: "length a = account_width l" "length p = property_id_width l" "length vs = owner_slots l"
    "\<And>v. v \<in> set vs \<Longrightarrow> length v = account_width l"
    using pad by (auto simp: padded_values_def list_all_iff)
  have js: "length (join_slots vs) = (owner_slots l - 1) * (account_width l + 3) + account_width l"
    using padded_join_slots [OF vl pad] by (simp add: stride_def)
  have slots: "owner_slot P (join_slots vs) k = vs ! k" if "k < owner_slots l" for k
    using that owner_slot_join [of k vs P] len P' by simp
  have seps: "list_all (\<lambda>k. take 3 (drop (k * p_owner_stride P + p_account_width P) (join_slots vs)) =
      [dquote, CHR '','', dquote]) [0..<p_owner_slots P - 1]"
    using join_slots_separator [of _ vs "account_width l"] len(3,4) by (auto simp: list_all_iff P')
  have "a \<noteq> []" using len(1) vl by (auto simp: valid_layout_def)
  have word: "property_id_word l (property_id r) = Inr pid \<longleftrightarrow>
      pid = p @ replicate (32 - property_id_width l) (CHR 0x00)"
    using h(2) width len(2) by (auto simp: property_id_word_def ensure_def)
  have "names_owner sha P (public_of sha op pid d) (opening_witness op) \<longleftrightarrow>
      hd a \<noteq> hd (padding l) \<and> (\<exists>k < owner_slots l. vs ! k = a) \<and>
      pid = p @ replicate (32 - property_id_width l) (CHR 0x00)"
    unfolding names_owner_def Let_def
    using f blinders len(1,2) js seps \<open>a \<noteq> []\<close> slots
    by (auto simp: public_of_def opening_witness_def opens_word_def opening_commitment_def P')
  then show ?thesis using slots_owner [OF vl h(1,3) n] word by argo
qed

subsection \<open>Properties\<close>

lemma owner_input_satisfies:
  assumes lib: "circomlib_ok sha lib" and l: "validate_layout l = Inr ()"
    and widths: "account_width l \<le> 31" "16 < property_id_width l" "property_id_width l \<le> 32"
    and P: "phi_r_params_from_layout l = Inr P"
    and opn: "rendered_openings l acct r (b1, b2, b3) = Inr op"
    and blinders: "length b1 = 16" "length b2 = 16" "length b3 = 16" and pid: "is_word pid"
  shows "(case phi_r_signals (phi_r_input_new (public_of sha op pid d) op) of (xs, w) \<Rightarrow> phi_r lib P xs w) \<longleftrightarrow>
    is_owner l acct r \<and> property_id_word l (property_id r) = Inr pid"
proof -
  have "length (sha bs) = 32" for bs using lib by (simp add: circomlib_ok_def)
  then have words: "word_instance (public_of sha op pid d)"
    using pid by (simp add: word_instance_def public_of_def opening_commitment_def is_word_def)
  have "phi_r_asserts P"
    using P phi_r_params_of_layout [OF l] widths by (auto simp: phi_r_asserts_def)
  then have "phi_r lib P (public_signals (public_of sha op pid d)) (opening_witness op) \<longleftrightarrow>
      names_owner sha P (public_of sha op pid d) (opening_witness op)"
    using phi_r_sound [OF lib words] phi_r_complete [OF lib words] by auto
  then show ?thesis
    using names_owner_rendered [OF l P widths(3) opn blinders] by (simp add: phi_r_signals_new)
qed

text \<open>C6: The input that the owner builds from the openings of a rendered response satisfies phi_R exactly
  when the account of the session is an owner in the record and the property of the statement is the
  record's: honest owners always have a witness, and nobody else has one from their own session.\<close>

theorem owner_has_witness:
  assumes lib: "circomlib_ok sha lib" and l: "validate_layout l = Inr ()"
    and widths: "account_width l \<le> 31" "16 < property_id_width l" "property_id_width l \<le> 32"
    and P: "phi_r_params_from_layout l = Inr P"
    and opn: "rendered_openings l acct r (b1, b2, b3) = Inr op"
    and blinders: "length b1 = 16" "length b2 = 16" "length b3 = 16" and pid: "is_word pid"
  shows "(case phi_r_signals (phi_r_input_new (public_of sha op pid d) op) of (xs, w) \<Rightarrow> phi_r lib P xs w) \<longleftrightarrow>
    is_owner l acct r \<and> property_id_word l (property_id r) = Inr pid"
  using assms by (rule owner_input_satisfies)

definition sample_sha :: "bytes \<Rightarrow> bytes" where
  "sample_sha bs = take 32 (bs @ replicate 32 (CHR 0x00))"

lemma sample_sha_ok: "circomlib_ok sample_sha (ref_circomlib sample_sha)"
  by (rule ref_circomlib_ok) (simp add: sample_sha_def)

definition sample_blinder :: bytes where "sample_blinder = replicate 16 (CHR 0x07)"

definition sample_params :: phi_r_params where
  "sample_params = \<lparr>p_account_width = 16, p_owner_slots = 4, p_owner_stride = 19, p_owners_len = 73,
     p_property_id_width = 20, p_padding = CHR '' ''\<rparr>"

lemma sample_params_eq: "phi_r_params_from_layout title_v1 = Inr sample_params"
  using phi_r_params_of_layout [OF valid_title_v1] by (simp add: sample_params_def title_v1_def)

lemma sample_owner:
  "is_owner title_v1 ''ACC-000000000001'' sample_record" "\<not> is_owner title_v1 ''ACC-000000000003'' sample_record"
  by (simp_all add: is_owner_def title_v1_def sample_record_def pad_def pad_value_def first_char_def
      utf8_width_def byte_defs)

lemma sample_openings:
  assumes "fits_field acct (account_width title_v1)"
  shows "\<exists>op. rendered_openings title_v1 acct sample_record (sample_blinder, sample_blinder, sample_blinder) = Inr op"
proof -
  have "valid_layout title_v1" using valid_title_v1 by (simp add: validate_layout_iff)
  moreover have "is_ok (render_response title_v1 acct sample_record)"
    using assms unfolding render_response_ok_iff_raw [OF calculation]
    by (simp add: title_v1_def sample_record_def fits_field_def plain_value_def byte_defs)
  then obtain x where "render_response title_v1 acct sample_record = Inr x" by (auto simp: is_ok_iff)
  moreover from this obtain a p vs e v d where xr: "x = rendering title_v1 a p vs e v d"
    using render_response_Inr [OF calculation(1)] by metis
  ultimately show ?thesis using rendering_hidden_values [OF xr]
    by (simp add: rendered_openings_def open_range_Inr Let_def)
qed

theorem owner_has_witness_witness:
  "\<exists>op op'. rendered_openings title_v1 ''ACC-000000000001'' sample_record
      (sample_blinder, sample_blinder, sample_blinder) = Inr op \<and>
    rendered_openings title_v1 ''ACC-000000000003'' sample_record
      (sample_blinder, sample_blinder, sample_blinder) = Inr op' \<and>
    (case phi_r_signals (phi_r_input_new (public_of sample_sha op sample_word []) op) of (xs, w) \<Rightarrow>
       phi_r (ref_circomlib sample_sha) sample_params xs w) \<and>
    \<not> (case phi_r_signals (phi_r_input_new (public_of sample_sha op' sample_word []) op') of (xs, w) \<Rightarrow>
       phi_r (ref_circomlib sample_sha) sample_params xs w)"
proof -
  have "fits_field ''ACC-000000000001'' (account_width title_v1)" "fits_field ''ACC-000000000003'' (account_width title_v1)"
    by (simp_all add: fits_field_def plain_value_def title_v1_def byte_defs)
  then obtain op op' where op: "rendered_openings title_v1 ''ACC-000000000001'' sample_record
      (sample_blinder, sample_blinder, sample_blinder) = Inr op"
    "rendered_openings title_v1 ''ACC-000000000003'' sample_record
      (sample_blinder, sample_blinder, sample_blinder) = Inr op'" using sample_openings by metis
  have b: "length sample_blinder = 16" by (simp add: sample_blinder_def)
  have w: "account_width title_v1 \<le> 31" "16 < property_id_width title_v1" "property_id_width title_v1 \<le> 32"
    by (simp_all add: title_v1_def)
  have "is_word sample_word" by (simp add: is_word_def sample_word_def)
  note wit = owner_has_witness [OF sample_sha_ok valid_title_v1 w sample_params_eq _ b b b this]
  have "property_id sample_record = ''TR-06-CANKAYA-000123''" by (simp add: sample_record_def)
  then show ?thesis using op wit [OF op(1)] wit [OF op(2)] sample_owner sample_word_eq by auto
qed

text \<open>Reading circom's report of a failed assertion.\<close>

lemma window_position_first:
  "pat \<noteq> [] \<Longrightarrow> hd pat \<notin> set xs \<Longrightarrow> window_position pat (xs @ pat @ ys) = Some (length xs)"
proof (induction xs)
  case Nil
  then show ?case by (cases pat) (auto simp: prefix_def)
next
  case (Cons x xs)
  then have "\<not> prefix pat ((x # xs) @ pat @ ys)" by (cases pat) auto
  then show ?case using Cons by simp
qed

lemma split_once_str_first:
  "pat \<noteq> [] \<Longrightarrow> hd pat \<notin> set xs \<Longrightarrow> split_once_str pat (xs @ pat @ ys) = Some (xs, ys)"
  by (simp add: split_once_str_def window_position_first)

lemma split_once_append: "c \<notin> set k \<Longrightarrow> split_once c (k @ c # v) = Some (k, v)"
  by (induction k) auto

lemma dec_chars: "c \<in> set (dec n) \<Longrightarrow> is_ascii_digit c"
  using dec_digits [of n] by (auto simp: all_digits_def list_all_iff)

text \<open>The report of a failed assertion is read back as the template, without the number that the compiler
  appends to its name, and the line.\<close>

theorem failed_assertion_is_read:
  assumes s: "s = pre @ ''Error in template '' @ tpl @ ''_'' @ dec n @ '' line: '' @ dec m @ post"
    and first: "window_position ''Error in template '' s = Some (length pre)"
    and failed: "window_position ''Assert Failed'' s \<noteq> None" and name: "CHR '' '' \<notin> set tpl"
    and ends: "post = [] \<or> \<not> is_ascii_digit (hd post)" and m: "m < 2 ^ 32"
  shows "parse_unsatisfied s = Some \<lparr>us_template = tpl, us_line = of_nat m\<rparr>"
proof -
  let ?name = "tpl @ ''_'' @ dec n"
  have digit: "\<not> is_ascii_digit (CHR ''_'')" "\<not> is_ascii_digit (CHR '' '')" by (simp_all add: byte_defs)
  have rest: "drop (length pre + length ''Error in template '') s = ?name @ '' line: '' @ dec m @ post"
    by (simp add: s)
  have "CHR '' '' \<notin> set ?name" using name digit dec_chars by auto
  then have split: "split_once_str '' line: '' (?name @ '' line: '' @ dec m @ post) = Some (?name, dec m @ post)"
    by (intro split_once_str_first) simp_all
  have "CHR ''_'' \<notin> set (rev (dec n))" using digit dec_chars by auto
  then have base: "rsplit_once (CHR ''_'') ?name = Some (tpl, dec n)"
    using split_once_append [of "CHR ''_''" "rev (dec n)" "rev tpl"] by (simp add: rsplit_once_def)
  have digits: "takeWhile is_ascii_digit (dec m @ post) = dec m"
    using ends dec_chars by (cases post) (auto simp: takeWhile_append)
  have "(window_position ''Assert Failed'' s = None) = False" using failed by simp
  then show ?thesis
    unfolding parse_unsatisfied_def first Let_def Option.bind_lunit rest split prod.case base option.case digits
    using m by (simp add: parse_u32_digits_def)
qed

theorem failed_assertion_is_read_witness:
  "parse_unsatisfied (''Error: Error: Assert Failed.'' @ [LF] @ ''Error in template PhiR_113 line: 94'' @ [LF]) =
   Some \<lparr>us_template = ''PhiR'', us_line = 94\<rparr>"
proof -
  let ?pre = "''Error: Error: Assert Failed.'' @ [LF]"
  let ?s = "?pre @ ''Error in template '' @ ''PhiR'' @ ''_'' @ dec 113 @ '' line: '' @ dec 94 @ [LF]"
  have num: "dec 113 = ''113''" "dec 94 = ''94''" by code_simp+
  have "window_position ''Error in template '' ?s = Some (length ?pre)" "window_position ''Assert Failed'' ?s \<noteq> None"
    by (simp_all add: num)
  from failed_assertion_is_read [OF refl this] show ?thesis by (simp add: num byte_defs)
qed

end
