(* ===== verification/Ownership.thy ===== *)
theory Ownership
  imports Prover_Witness
begin

section \<open>What a Register signature proves\<close>

text \<open>
  The composition of the policy verifier, the presentation checks, the layout and the circuit phi_R. The
  proof system is a parameter: \<open>groth16_extracts\<close> states knowledge soundness for a key of the circuit, with
  the witness named by an extractor, so that the theorem can say which two messages would be a collision
  of the hash if the conclusion failed.
\<close>

definition groth16_extracts ::
    "(('g1, 'g2) groth16_proof \<Rightarrow> nat list \<Rightarrow> phi_r_witness) \<Rightarrow> circomlib \<Rightarrow> phi_r_params
      \<Rightarrow> ('g1, 'g2, 'pvk) arkworks \<Rightarrow> 'pvk \<Rightarrow> bool" where
  "groth16_extracts extract lib P ark pvk \<longleftrightarrow>
     (\<forall>prf xs. verify_proof ark pvk prf xs = Inr True \<longrightarrow> phi_r lib P xs (extract prf xs))"

text \<open>The attested hashes commit to the hidden values of a rendered response, as the notary's session
  fixes them: each is the hash of a value followed by its blinder.\<close>

definition attests_openings :: "(bytes \<Rightarrow> bytes) \<Rightarrow> attested \<Rightarrow> hidden_openings \<Rightarrow> bool" where
  "attests_openings sha a op \<longleftrightarrow>
     at_account_hash a = opening_commitment sha (ho_account op) \<and>
     at_owners_hash a = opening_commitment sha (ho_owners op) \<and>
     at_property_id_hash a = opening_commitment sha (ho_property_id op)"

definition message_of :: "field_opening \<Rightarrow> bytes" where
  "message_of o1 = fo_plaintext o1 @ fo_blinder o1"

text \<open>The messages that a private input opens, and whether one of them collides with the session's.\<close>

definition collides :: "(bytes \<Rightarrow> bytes) \<Rightarrow> phi_r_witness \<Rightarrow> hidden_openings \<Rightarrow> bool" where
  "collides sha w op \<longleftrightarrow>
     list_ex (\<lambda>(m, m'). m \<noteq> m' \<and> sha m = sha m')
       [(as_bytes (w_account w) @ as_bytes (w_account_blinder w), message_of (ho_account op)),
        (as_bytes (w_owners w) @ as_bytes (w_owners_blinder w), message_of (ho_owners op)),
        (as_bytes (w_property w) @ as_bytes (w_property_blinder w), message_of (ho_property_id op))]"

definition proved_public :: "('p, 'g1, 'g2) register_request \<Rightarrow> attested \<Rightarrow> bytes \<Rightarrow> phi_r_public" where
  "proved_public q a d =
     \<lparr>r_account_hash = at_account_hash a, r_owners_hash = at_owners_hash a,
      r_property_hash = at_property_id_hash a,
      r_property_id = tx_property_id (reg_tx_data (rq_statement q)), r_digest = d\<rparr>"

lemma groth16_verify_values:
  assumes "groth16_verify ark v prf public = Inr b"
  shows "verify_proof ark (verifier_pvk v) prf (map dec_value public) = Inr b"
proof -
  obtain ns where ns: "collect_res (parse_field (fr_modulus ark)) public = Inr ns"
    and v: "verify_proof ark (verifier_pvk v) prf ns = Inr b"
    using assms by (auto simp: groth16_verify_def and_then_Inr_iff bail_def split: if_splits)
  have "ns = map dec_value public"
    using collect_res_nth [OF ns] collect_res_length [OF ns]
    by (intro nth_equalityI) (auto simp: parse_field_Inr_iff)
  with v show ?thesis by simp
qed

lemma property_word_is_word:
  "validate_layout l = Inr () \<Longrightarrow> property_id_word l v = Inr w \<Longrightarrow> is_word w"
  using word_of_pad [of l v "property_id_width l"]
  by (auto simp: property_id_word_def is_word_def ensure_Inr_iff validate_layout_iff valid_layout_def)

text \<open>Every request that passes the checks comes with a private input for the attested hashes.\<close>

lemma checked_names_owner:
  assumes lib: "circomlib_ok sha lib" and policy: "pv_policies pv (reg_policy_id (rq_statement q)) = Some policy"
    and l: "validate_layout (rp_layout policy) = Inr ()"
    and g: "groth16_extracts extract lib P (env_ark env) (verifier_pvk (rp_verifier policy))"
    and ok: "check_register env pv q = Inr d"
  obtains a where "check_presentation (env_tlsn env) (rq_presentation q)
        \<lparr>ex_layout = rp_layout policy, ex_attestation_key = pv_attestation_key pv,
         ex_root_certs = pv_root_certs pv, ex_property_id = rq_property_id q,
         ex_max_session_secs = pv_max_session_secs pv\<rparr> = Inr a"
    "property_id_word (rp_layout policy) (rq_property_id q) = Inr (tx_property_id (reg_tx_data (rq_statement q)))"
    "names_owner sha P (proved_public q a d) (extract (rq_proof q) (public_signals (proved_public q a d))) \<and>
      byte_witness (extract (rq_proof q) (public_signals (proved_public q a d)))"
proof -
  obtain policy' a where p: "pv_policies pv (reg_policy_id (rq_statement q)) = Some policy'"
    and w: "property_id_word (rp_layout policy') (rq_property_id q) = Inr (tx_property_id (reg_tx_data (rq_statement q)))"
    and pr: "check_presentation (env_tlsn env) (rq_presentation q)
        \<lparr>ex_layout = rp_layout policy', ex_attestation_key = pv_attestation_key pv,
         ex_root_certs = pv_root_certs pv, ex_property_id = rq_property_id q,
         ex_max_session_secs = pv_max_session_secs pv\<rparr> = Inr a"
    and words: "list_all is_word [at_account_hash a, at_owners_hash a, at_property_id_hash a]"
    and v: "groth16_verify (env_ark env) (rp_verifier policy') (rq_proof q) (phi_r_inputs (proved_public q a d)) = Inr True"
    using ok by (auto simp: check_register_def Let_def and_then_Inr_iff ensure_Inr_iff phi_r_public_of_def
        is_word_def proved_public_def)
  have [simp]: "policy' = policy" using p policy by simp
  have "phi_r lib P (public_signals (proved_public q a d)) (extract (rq_proof q) (public_signals (proved_public q a d)))"
    using g groth16_verify_values [OF v] by (simp add: groth16_extracts_def public_signals_def)
  moreover have "word_instance (proved_public q a d)"
    using words property_word_is_word [OF l] w by (simp add: word_instance_def proved_public_def)
  ultimately show ?thesis using that pr w phi_r_sound [OF lib] by auto
qed

lemma opened_same:
  assumes "opens_word sha h m b" and "h = opening_commitment sha o1" and "length (fo_blinder o1) = 16"
    and "\<not> (m @ b \<noteq> message_of o1 \<and> sha (m @ b) = sha (message_of o1))"
  shows "m = fo_plaintext o1 \<and> b = fo_blinder o1"
  using assms by (auto simp: opens_word_def opening_commitment_def message_of_def)

lemma names_owner_opening:
  assumes "names_owner sha P pub w" and "byte_witness w"
    and "r_account_hash pub = opening_commitment sha (ho_account op)"
    and "r_owners_hash pub = opening_commitment sha (ho_owners op)"
    and "r_property_hash pub = opening_commitment sha (ho_property_id op)"
    and "length (fo_blinder (ho_account op)) = 16" "length (fo_blinder (ho_owners op)) = 16"
    and "length (fo_blinder (ho_property_id op)) = 16"
    and "\<not> collides sha w op"
  shows "w = opening_witness op"
proof -
  note n = assms(1) [unfolded names_owner_def Let_def]
  have eqs: "as_bytes (w_account w) = fo_plaintext (ho_account op) \<and> as_bytes (w_account_blinder w) = fo_blinder (ho_account op)"
    "as_bytes (w_owners w) = fo_plaintext (ho_owners op) \<and> as_bytes (w_owners_blinder w) = fo_blinder (ho_owners op)"
    "as_bytes (w_property w) = fo_plaintext (ho_property_id op) \<and>
      as_bytes (w_property_blinder w) = fo_blinder (ho_property_id op)"
    using n opened_same [OF _ assms(3,6)] opened_same [OF _ assms(4,7)] opened_same [OF _ assms(5,8)] assms(9)
    by (auto simp: collides_def)
  have vals: "ns = map byte_val (as_bytes ns)" if "byte_signals ns" for ns
    using byte_vals_as_bytes [OF that] by simp
  have "byte_signals (w_account w)" "byte_signals (w_owners w)" "byte_signals (w_property w)"
    "byte_signals (w_account_blinder w)" "byte_signals (w_owners_blinder w)" "byte_signals (w_property_blinder w)"
    using assms(2) by (simp_all add: byte_witness_def byte_signals_def)
  from this [THEN vals] show ?thesis
    unfolding eqs [THEN conjunct1] eqs [THEN conjunct2] by (cases w) (simp add: opening_witness_def)
qed

text \<open>C2: What a Register signature proves. If the notary signs a request whose attested commitments are those
  of a session in which the registry rendered a record for an account, then that account is one of the
  record's owners and the record is the one of the property in \<open>txData\<close>, or the witness extracted from the
  proof exhibits a collision of the hash with one of the three committed messages.\<close>

theorem register_signature_means_ownership:
  assumes lib: "circomlib_ok sha lib" and policy: "pv_policies pv (reg_policy_id (rq_statement q)) = Some policy"
    and l: "validate_layout (rp_layout policy) = Inr ()" and width: "property_id_width (rp_layout policy) \<le> 32"
    and P: "phi_r_params_from_layout (rp_layout policy) = Inr P"
    and g: "groth16_extracts extract lib P (env_ark env) (verifier_pvk (rp_verifier policy))"
    and session: "rendered_openings (rp_layout policy) acct r (b1, b2, b3) = Inr op"
    and blinders: "length b1 = 16" "length b2 = 16" "length b3 = 16"
    and attested: "check_presentation (env_tlsn env) (rq_presentation q)
        \<lparr>ex_layout = rp_layout policy, ex_attestation_key = pv_attestation_key pv,
         ex_root_certs = pv_root_certs pv, ex_property_id = rq_property_id q,
         ex_max_session_secs = pv_max_session_secs pv\<rparr> = Inr a" "attests_openings sha a op"
    and signed: "sign_register env io pv q = (pv', Inr sigma)"
  shows "(let d = digest (env_eip712_hash env) (Register_stmt (rq_statement q)) (pv_domain pv) in
      collides sha (extract (rq_proof q) (public_signals (proved_public q a d))) op) \<or>
    is_owner (rp_layout policy) acct r \<and>
    property_id_word (rp_layout policy) (property_id r) = Inr (tx_property_id (reg_tx_data (rq_statement q)))"
proof -
  from signed obtain d where ok: "check_register env pv q = Inr d"
    by (auto simp: sign_register_def split: sum.splits)
  then have d: "d = digest (env_eip712_hash env) (Register_stmt (rq_statement q)) (pv_domain pv)"
    using check_request_digest [of env pv "Sign_register q" d] by simp
  let ?w = "extract (rq_proof q) (public_signals (proved_public q a d))"
  have names: "names_owner sha P (proved_public q a d) ?w \<and> byte_witness ?w"
    using checked_names_owner [OF lib policy l g ok] attested(1) by auto
  have pub: "proved_public q a d = public_of sha op (tx_property_id (reg_tx_data (rq_statement q))) d"
    using attested(2) by (simp add: proved_public_def public_of_def attests_openings_def)
  have vl: "valid_layout (rp_layout policy)" using l by (simp add: validate_layout_iff)
  have bl: "length (fo_blinder (ho_account op)) = 16" "length (fo_blinder (ho_owners op)) = 16"
    "length (fo_blinder (ho_property_id op)) = 16"
    using rendered_openings_Inr [OF vl session] blinders by metis+
  show ?thesis
  proof (cases "collides sha ?w op")
    case False
    have "?w = opening_witness op"
      by (rule names_owner_opening [OF conjunct1 [OF names] conjunct2 [OF names] _ _ _ bl False])
        (simp_all add: pub public_of_def)
    with names pub names_owner_rendered [OF l P width session blinders] show ?thesis by metis
  qed (simp add: d)
qed

subsection \<open>A concrete session\<close>

text \<open>A notary whose library attests the commitments of an opening and whose pairing check accepts exactly
  what phi_R accepts for that opening.\<close>

definition session_hashes :: "hidden_openings \<Rightarrow> bytes list" where
  "session_hashes op =
     [replicate 32 (CHR 0x00), replicate 32 (CHR 0x01), opening_commitment sample_sha (ho_account op),
      opening_commitment sample_sha (ho_owners op), opening_commitment sample_sha (ho_property_id op)]"

definition session_env ::
    "response_shape \<Rightarrow> bytes \<Rightarrow> hidden_openings
      \<Rightarrow> (unit, nat, unit, nat set, nat \<times> nat, (nat \<times> nat) \<times> nat \<times> nat, nat, nat) notary_env" where
  "session_env s b op = (sample_env s b)
     \<lparr>env_tlsn := sample_tlsn s b (session_hashes op),
      env_ark := sample_ark\<lparr>verify_proof := (\<lambda>_ _ xs.
        Inr (phi_r (ref_circomlib sample_sha) sample_params xs (opening_witness op)))\<rparr>\<rparr>"

lemma length_sample_sha [simp]: "length (sample_sha bs) = 32"
  by (simp add: sample_sha_def)

lemma session_presentation:
  assumes "shape title_v1 ''TR-06-CANKAYA-000123'' = Inr s"
    and "render_response title_v1 ''ACC-000000000001'' sample_record = Inr x"
  shows "check_presentation (sample_tlsn s (rendered_bytes x) (session_hashes op)) () title_expectation = Inr
    \<lparr>at_t_att = 1000, at_connection_time = 990, at_account_hash = opening_commitment sample_sha (ho_account op),
     at_owners_hash = opening_commitment sample_sha (ho_owners op),
     at_property_id_hash = opening_commitment sample_sha (ho_property_id op)\<rparr>"
  by (rule honest_title_raw [where s = s and x = x and r = sample_record
        and account = "''ACC-000000000001''" and tail = "'' ''" and att = "()"
        and g = "replicate 32 (CHR 0x00)" and h = "replicate 32 (CHR 0x01)"])
    (simp_all add: title_expectation_def valid_title_v1 assms sample_tlsn_simps session_hashes_def sample_times
      opening_commitment_def)

lemma session_signed:
  assumes s: "shape title_v1 ''TR-06-CANKAYA-000123'' = Inr s"
    and x: "render_response title_v1 ''ACC-000000000001'' sample_record = Inr x"
    and opn: "rendered_openings title_v1 ''ACC-000000000001'' sample_record
      (sample_blinder, sample_blinder, sample_blinder) = Inr op"
  shows "\<exists>pv' sigma. sign_register (session_env s (rendered_bytes x) op) Written sample_verifier sample_request = (pv', Inr sigma)"
proof -
  let ?env = "session_env s (rendered_bytes x) op"
  note f = sample_register_facts [OF s x]
  have b: "length sample_blinder = 16" by (simp add: sample_blinder_def)
  have w: "account_width title_v1 \<le> 31" "16 < property_id_width title_v1" "property_id_width title_v1 \<le> 32"
    by (simp_all add: title_v1_def)
  have word: "is_word sample_word" by (simp add: is_word_def sample_word_def)
  have prop_id: "property_id sample_record = ''TR-06-CANKAYA-000123''" by (simp add: sample_record_def)
  let ?d = "digest (env_eip712_hash ?env) (Register_stmt (rq_statement sample_request)) (pv_domain sample_verifier)"
  let ?pub = "public_of sample_sha op sample_word ?d"
  have "phi_r (ref_circomlib sample_sha) sample_params (public_signals ?pub) (opening_witness op)"
    using owner_input_satisfies [OF sample_sha_ok valid_title_v1 w sample_params_eq opn b b b word] sample_owner(1)
      sample_word_eq prop_id by (simp add: phi_r_signals_new)
  then have proof_ok: "verify_proof (env_ark ?env) (verifier_pvk (rp_verifier sample_policy)) (rq_proof sample_request)
      (map dec_value (phi_r_inputs ?pub)) = Inr True"
    by (simp add: session_env_def public_signals_def)
  have tx: "tx_property_id (reg_tx_data (rq_statement sample_request)) = sample_word"
    by (simp add: sample_request_def sample_statement_def)
  have pr: "check_presentation (env_tlsn ?env) (rq_presentation sample_request)
      \<lparr>ex_layout = rp_layout sample_policy, ex_attestation_key = pv_attestation_key sample_verifier,
       ex_root_certs = pv_root_certs sample_verifier, ex_property_id = rq_property_id sample_request,
       ex_max_session_secs = pv_max_session_secs sample_verifier\<rparr> =
      Inr \<lparr>at_t_att = reg_t_att (rq_statement sample_request), at_connection_time = 990,
        at_account_hash = opening_commitment sample_sha (ho_account op),
        at_owners_hash = opening_commitment sample_sha (ho_owners op),
        at_property_id_hash = opening_commitment sample_sha (ho_property_id op)\<rparr>"
    using session_presentation [OF s x, of op]
    by (simp add: session_env_def sample_policy_def sample_verifier_def policy_verifier_new_def sample_request_def
        sample_statement_def title_expectation_def)
  note proof_ok' = proof_ok [unfolded public_of_def, folded tx]
  have "check_register ?env sample_verifier sample_request = Inr ?d"
    by (rule check_register_honest [OF f(1-4) pr _ _ f(8) refl refl proof_ok'])
      (simp_all add: is_word_def opening_commitment_def session_env_def sample_ark_def)
  then show ?thesis using f(3)
    by (simp add: sign_register_def record_and_sign_def record_nonce_def Let_def nonce_seen_def key_sign_def
        session_env_def sample_env_def)
qed

lemma sample_extracts:
  "groth16_extracts (\<lambda>_ _. opening_witness op) (ref_circomlib sample_sha) sample_params
     (env_ark (session_env s b op)) pvk"
  by (simp add: groth16_extracts_def session_env_def)

theorem register_signature_means_ownership_witness:
  "\<exists>s x op pv' sigma. shape title_v1 ''TR-06-CANKAYA-000123'' = Inr s \<and>
    render_response title_v1 ''ACC-000000000001'' sample_record = Inr x \<and>
    rendered_openings title_v1 ''ACC-000000000001'' sample_record
      (sample_blinder, sample_blinder, sample_blinder) = Inr op \<and>
    sign_register (session_env s (rendered_bytes x) op) Written sample_verifier sample_request = (pv', Inr sigma) \<and>
    is_owner (rp_layout sample_policy) ''ACC-000000000001'' sample_record"
proof -
  obtain s where s: "shape title_v1 ''TR-06-CANKAYA-000123'' = Inr s"
    using title.shape_total valid_title_v1 by (metis validate_layout_iff)
  obtain x where x: "render_response title_v1 ''ACC-000000000001'' sample_record = Inr x"
    using sample_render_ok by blast
  have "fits_field ''ACC-000000000001'' (account_width title_v1)"
    by (simp add: fits_field_def plain_value_def title_v1_def byte_defs)
  then obtain op where op: "rendered_openings title_v1 ''ACC-000000000001'' sample_record
      (sample_blinder, sample_blinder, sample_blinder) = Inr op" using sample_openings by metis
  let ?env = "session_env s (rendered_bytes x) op"
  obtain pv' sigma where signed: "sign_register ?env Written sample_verifier sample_request = (pv', Inr sigma)"
    using session_signed [OF s x op] by blast
  have pol: "rp_layout sample_policy = title_v1" by (simp add: sample_policy_def)
  have b: "length sample_blinder = 16" by (simp add: sample_blinder_def)
  have w: "property_id_width (rp_layout sample_policy) \<le> 32" by (simp add: pol title_v1_def)
  note f = sample_register_facts [OF s x]
  let ?a = "\<lparr>at_t_att = 1000, at_connection_time = 990, at_account_hash = opening_commitment sample_sha (ho_account op),
     at_owners_hash = opening_commitment sample_sha (ho_owners op),
     at_property_id_hash = opening_commitment sample_sha (ho_property_id op)\<rparr>"
  have pr: "check_presentation (env_tlsn ?env) (rq_presentation sample_request)
      \<lparr>ex_layout = rp_layout sample_policy, ex_attestation_key = pv_attestation_key sample_verifier,
       ex_root_certs = pv_root_certs sample_verifier, ex_property_id = rq_property_id sample_request,
       ex_max_session_secs = pv_max_session_secs sample_verifier\<rparr> = Inr ?a"
    using session_presentation [OF s x, of op]
    by (simp add: session_env_def sample_policy_def sample_verifier_def policy_verifier_new_def sample_request_def
        title_expectation_def)
  have att: "attests_openings sample_sha ?a op" by (simp add: attests_openings_def)
  from register_signature_means_ownership [OF sample_sha_ok f(2) f(1) w _ sample_extracts _ b b b pr att signed]
  have "collides sample_sha (opening_witness op) op \<or> is_owner (rp_layout sample_policy) ''ACC-000000000001'' sample_record"
    using sample_params_eq op by (auto simp: pol Let_def)
  moreover have "\<not> collides sample_sha (opening_witness op) op"
    by (simp add: collides_def opening_witness_def message_of_def)
  ultimately show ?thesis using s x op signed by blast
qed

end
