(* ===== verification/Mock_Notary.thy ===== *)
theory Mock_Notary
  imports Policy_Verifier
begin

section \<open>The mock notary\<close>

text \<open>
  Model of \<open>pprev-notary/src/mock.rs\<close>: the notary that evaluates phi_A and phi_S natively on records in
  the clear, and signs with the same nonce record. Poseidon is a parameter, as are the field's modulus
  and the clock's value; an element of \<open>Fr\<close> is a number below the modulus. The record date is parsed
  as the code does, and its day number is compared with the engagement day in \<open>i64\<close>, where the
  release build wraps. The calendar theory relates both to dates.
\<close>

subsection \<open>The commitment to the counterparty\<close>

definition be_limbs :: "bytes \<Rightarrow> u64 list" where
  "be_limbs bs = map (\<lambda>i. of_nat (be_value (slice bs (Range (32 - 8 * (i + 1)) (32 - 8 * (i + 1) + 8))))) [0..<4]"

text \<open>\<open>BigInt::new\<close>: the limbs, least significant first.\<close>

definition big_int :: "u64 list \<Rightarrow> nat" where
  "big_int ls = foldr (\<lambda>l n. unat l + 2 ^ 64 * n) ls 0"

definition counterparty_commitment ::
    "nat \<Rightarrow> (nat \<Rightarrow> nat \<Rightarrow> nat res) \<Rightarrow> bytes \<Rightarrow> bytes \<Rightarrow> bytes res" where
  "counterparty_commitment modulus poseidon identifier salt =
     ensure (length identifier \<le> 31) ''an identifier must fit one field element'' (
     let ident = be_value identifier mod modulus;
         n = big_int (be_limbs salt) in
     and_then (some_or ''the salt is not below the field order'' (if n < modulus then Some n else None))
       (\<lambda>salt_el.
     and_then (poseidon ident salt_el) (\<lambda>out. Inr (be_bytes 32 out))))"

subsection \<open>Records, policies and requests\<close>

record commitment_opening =
  co_identifier :: bytes
  co_salt :: bytes

record eligibility_record =
  el_account :: bytes
  el_monthly_income :: u256

record settlement_record =
  sr_property_id :: bytes
  sr_tenant :: bytes
  sr_record_date :: bytes

datatype mock_policy =
    Mock_apply (mock_income_multiple: u64)
  | Mock_settle (mock_tau_lock: u64) (mock_utc_offset_secs: int)

record mock_apply_request =
  ma_tx_id :: u256
  ma_c_tx :: bytes
  ma_tx_data :: tx_data
  ma_c_b :: bytes
  ma_policy_id :: bytes
  ma_submitter :: bytes
  ma_eta :: bytes

record mock_settle_request =
  ms_eng_id :: u256
  ms_tx_id :: u256
  ms_c_tx :: bytes
  ms_tx_data :: tx_data
  ms_c_b :: bytes
  ms_expires_at :: u256
  ms_policy_id :: bytes
  ms_submitter :: bytes
  ms_eta :: bytes

record 'sk mock_notary =
  mn_policies :: "bytes \<rightharpoonup> mock_policy"
  mn_key :: 'sk
  mn_domain :: eip712_domain
  mn_nonces :: nonce_store

definition mock_notary_new ::
    "(bytes \<rightharpoonup> mock_policy) \<Rightarrow> 'sk \<Rightarrow> eip712_domain \<Rightarrow> nonce_store \<Rightarrow> 'sk mock_notary" where
  "mock_notary_new policies sk d nonces =
     \<lparr>mn_policies = policies, mn_key = sk, mn_domain = d, mn_nonces = nonces\<rparr>"

subsection \<open>Property words and day numbers\<close>

definition property_word :: "bytes \<Rightarrow> bytes res" where
  "property_word pid =
     ensure (pid \<noteq> [] \<and> length pid \<le> 32) ''a property identifier must be 1 to 32 bytes''
       (Inr (pid @ replicate (32 - length pid) (CHR 0x00)))"

definition days_in_month :: "int \<Rightarrow> int \<Rightarrow> int" where
  "days_in_month y m =
     (let leap = (y smod 4 = 0 \<and> y smod 100 \<noteq> 0) \<or> y smod 400 = 0 in
      [31, if leap then 29 else 28, 31, 30, 31, 30, 31, 31, 30, 31, 30, 31] ! nat (m - 1))"

definition days_from_civil :: "int \<Rightarrow> int \<Rightarrow> int \<Rightarrow> int" where
  "days_from_civil y m d =
     (let y = (if m \<le> 2 then y - 1 else y);
          era = y div 400;
          yoe = y - era * 400;
          mp = (m + 9) smod 12;
          doy = (153 * mp + 2) sdiv 5 + d - 1;
          doe = yoe * 365 + yoe sdiv 4 - yoe sdiv 100 + doy
      in era * 146097 + doe - 719468)"

definition day_number :: "bytes \<Rightarrow> int res" where
  "day_number date =
     (case split_at_char (CHR ''-'') date of
        [ys, ms, ds] \<Rightarrow>
          ensure (length ys = 4 \<and> length ms = 2 \<and> length ds = 2 \<and> list_all all_digits [ys, ms, ds])
            ''not YYYY-MM-DD'' (
          let y = int (dec_value ys); m = int (dec_value ms); d = int (dec_value ds) in
          ensure (1 \<le> m \<and> m \<le> 12 \<and> d \<ge> 1 \<and> d \<le> days_in_month y m) ''not a calendar date''
            (Inr (days_from_civil y m d)))
      | _ \<Rightarrow> bail ''not YYYY-MM-DD'')"

subsection \<open>Signing\<close>

definition mock_sign ::
    "('p, 'vk, 'att, 'rs, 'g1, 'g2, 'pvk, 'sk) notary_env \<Rightarrow> io_outcome \<Rightarrow> 'sk mock_notary
      \<Rightarrow> bytes \<Rightarrow> bytes \<Rightarrow> 'sk mock_notary \<times> bytes res" where
  "mock_sign env io mn eta d =
     (case record_nonce (env_hex_encode env) io (mn_nonces mn) eta of
        (nonces, Inl e) \<Rightarrow> (mn\<lparr>mn_nonces := nonces\<rparr>, Inl e)
      | (nonces, Inr _) \<Rightarrow> (mn\<lparr>mn_nonces := nonces\<rparr>, key_sign env (mn_key mn) d))"

text \<open>\<open>U256::checked_mul\<close>\<close>

definition checked_mul :: "u256 \<Rightarrow> u256 \<Rightarrow> u256 option" where
  "checked_mul a b = (if unat a * unat b < 2 ^ 256 then Some (a * b) else None)"

definition mock_check_apply ::
    "('p, 'vk, 'att, 'rs, 'g1, 'g2, 'pvk, 'sk) notary_env \<Rightarrow> (nat \<Rightarrow> nat \<Rightarrow> nat res) \<Rightarrow> u64
      \<Rightarrow> 'sk mock_notary \<Rightarrow> mock_apply_request \<Rightarrow> eligibility_record \<Rightarrow> commitment_opening
      \<Rightarrow> apply_stmt res" where
  "mock_check_apply env poseidon now mn request rec opening =
     (case mn_policies mn (ma_policy_id request) of
        Some (Mock_apply multiple) \<Rightarrow>
          and_then (counterparty_commitment (fr_modulus (env_ark env)) poseidon
            (co_identifier opening) (co_salt opening)) (\<lambda>c.
          ensure (c = ma_c_b request) ''c_B does not open to the given identifier and salt'' (
          ensure (el_account rec = co_identifier opening)
            ''c_B does not name the account holder of the session'' (
          and_then (some_or ''income threshold overflows''
            (checked_mul (tx_amount (ma_tx_data request)) (ucast multiple))) (\<lambda>threshold.
          ensure (el_monthly_income rec \<ge> threshold) ''income is below the multiple of the rent'' (
          Inr \<lparr>app_tx_id = ma_tx_id request, app_c_tx = ma_c_tx request,
               app_tx_data = ma_tx_data request, app_c_b = ma_c_b request,
               app_policy_id = ma_policy_id request, app_submitter = ma_submitter request,
               app_eta = ma_eta request, app_t_att = now\<rparr>)))))
      | _ \<Rightarrow> bail ''not an Apply policy of this notary'')"

definition mock_sign_apply ::
    "('p, 'vk, 'att, 'rs, 'g1, 'g2, 'pvk, 'sk) notary_env \<Rightarrow> (nat \<Rightarrow> nat \<Rightarrow> nat res) \<Rightarrow> io_outcome \<Rightarrow> u64
      \<Rightarrow> 'sk mock_notary \<Rightarrow> mock_apply_request \<Rightarrow> eligibility_record \<Rightarrow> commitment_opening
      \<Rightarrow> 'sk mock_notary \<times> (apply_stmt \<times> bytes) res" where
  "mock_sign_apply env poseidon io now mn request rec opening =
     (case mock_check_apply env poseidon now mn request rec opening of
        Inl e \<Rightarrow> (mn, Inl e)
      | Inr x \<Rightarrow>
          (let (mn', r) = mock_sign env io mn (ma_eta request)
             (digest (env_eip712_hash env) (Apply_stmt x) (mn_domain mn)) in
           (mn', and_then r (\<lambda>sigma. Inr (x, sigma)))))"

definition mock_engagement_day :: "u64 \<Rightarrow> int \<Rightarrow> int" where
  "mock_engagement_day engaged offset = wrap64 (sint engaged + offset) div 86400"

definition mock_check_settle ::
    "('p, 'vk, 'att, 'rs, 'g1, 'g2, 'pvk, 'sk) notary_env \<Rightarrow> (nat \<Rightarrow> nat \<Rightarrow> nat res) \<Rightarrow> u64
      \<Rightarrow> 'sk mock_notary \<Rightarrow> mock_settle_request \<Rightarrow> settlement_record \<Rightarrow> commitment_opening
      \<Rightarrow> settle_stmt res" where
  "mock_check_settle env poseidon now mn request rec opening =
     (case mn_policies mn (ms_policy_id request) of
        Some (Mock_settle tau_lock offset) \<Rightarrow>
          and_then (counterparty_commitment (fr_modulus (env_ark env)) poseidon
            (co_identifier opening) (co_salt opening)) (\<lambda>c.
          ensure (c = ms_c_b request) ''c_B does not open to the given identifier and salt'' (
          and_then (property_word (sr_property_id rec)) (\<lambda>word.
          ensure (word = tx_property_id (ms_tx_data request))
            ''the settlement record is not on the property of txData'' (
          ensure (sr_tenant rec = co_identifier opening)
            ''the settlement record does not name the identity in c_B'' (
          and_then (some_or ''expiresAt exceeds 64 bits'' (u64_of (ms_expires_at request)))
            (\<lambda>expires_at.
          and_then (some_or ''expiresAt precedes tau_lock''
            (if tau_lock \<le> expires_at then Some (expires_at - tau_lock) else None)) (\<lambda>engaged.
          and_then (day_number (sr_record_date rec)) (\<lambda>n.
          ensure (n \<ge> mock_engagement_day engaged offset) ''the record date precedes the engagement day'' (
          Inr \<lparr>set_eng_id = ms_eng_id request, set_tx_id = ms_tx_id request,
               set_c_tx = ms_c_tx request, set_tx_data = ms_tx_data request,
               set_c_b = ms_c_b request, set_expires_at = ms_expires_at request,
               set_policy_id = ms_policy_id request, set_submitter = ms_submitter request,
               set_eta = ms_eta request, set_t_att = now\<rparr>)))))))))
      | _ \<Rightarrow> bail ''not a Settle policy of this notary'')"

definition mock_sign_settle ::
    "('p, 'vk, 'att, 'rs, 'g1, 'g2, 'pvk, 'sk) notary_env \<Rightarrow> (nat \<Rightarrow> nat \<Rightarrow> nat res) \<Rightarrow> io_outcome \<Rightarrow> u64
      \<Rightarrow> 'sk mock_notary \<Rightarrow> mock_settle_request \<Rightarrow> settlement_record \<Rightarrow> commitment_opening
      \<Rightarrow> 'sk mock_notary \<times> (settle_stmt \<times> bytes) res" where
  "mock_sign_settle env poseidon io now mn request rec opening =
     (case mock_check_settle env poseidon now mn request rec opening of
        Inl e \<Rightarrow> (mn, Inl e)
      | Inr x \<Rightarrow>
          (let (mn', r) = mock_sign env io mn (ms_eta request)
             (digest (env_eip712_hash env) (Settle_stmt x) (mn_domain mn)) in
           (mn', and_then r (\<lambda>sigma. Inr (x, sigma)))))"

subsection \<open>Limbs\<close>

lemma split_length:
  "n \<le> length xs \<Longrightarrow> \<exists>a r. xs = a @ r \<and> length a = n \<and> length r = length xs - n"
  by (rule exI [of _ "take n xs"], rule exI [of _ "drop n xs"]) simp

lemma be_limbs_value: "length bs = 32 \<Longrightarrow> big_int (be_limbs bs) = be_value bs"
proof -
  assume "length bs = 32"
  then obtain a r where "bs = a @ r" "length a = 8" "length r = 24"
    using split_length [of 8 bs] by auto
  moreover obtain b r' where "r = b @ r'" "length b = 8" "length r' = 16"
    using split_length [of 8 r] calculation by auto
  moreover obtain c d where "r' = c @ d" "length c = 8" "length d = 8"
    using split_length [of 8 r'] calculation by auto
  ultimately have bs: "bs = a @ b @ c @ d" and parts: "length a = 8" "length b = 8" "length c = 8" "length d = 8"
    by simp_all
  have u: "unat (of_nat (be_value x) :: u64) = be_value x" if "length x = 8" for x
    using be_value_less [of x] that by (simp add: unat_of_nat take_bit_eq_mod)
  have "be_limbs bs = map (\<lambda>x. of_nat (be_value x)) [d, c, b, a]"
    using parts by (simp add: be_limbs_def upt_rec slice_def bs)
  then have "big_int (be_limbs bs) = be_value d + 2 ^ 64 * (be_value c + 2 ^ 64 * (be_value b + 2 ^ 64 * be_value a))"
    using u parts by (simp add: big_int_def)
  then show ?thesis using parts by (simp add: bs be_value_append algebra_simps)
qed

subsection \<open>Day numbers\<close>

definition doy_of :: "int \<Rightarrow> int \<Rightarrow> int" where
  "doy_of m d = (153 * ((m + 9) smod 12) + 2) sdiv 5 + d - 1"

definition doy_ok :: "int \<Rightarrow> int \<Rightarrow> bool" where
  "doy_ok m d \<longleftrightarrow> month_day (doy_of m d) = (m, d) \<and> 0 \<le> doy_of m d \<and>
     doy_of m d < (if m = 2 \<and> d = 29 then 366 else 365)"

lemma doys: "list_all (\<lambda>m. list_all (doy_ok m) [1..month_length 0 m]) [1..12]"
  by code_simp

lemma days_in_month_eq: "0 \<le> y \<Longrightarrow> 1 \<le> m \<Longrightarrow> m \<le> 12 \<Longrightarrow> days_in_month y m = month_length y m"
proof -
  assume y: "0 \<le> y" and m: "1 \<le> m" "m \<le> 12"
  have smod: "y smod k = y mod k" if "0 < k" for k
    using y that by (cases "y = 0") (simp_all add: signed_modulo_int_def sdiv_div sgn_if minus_div_mult_eq_mod)
  from m have "m \<in> set [1..12]" by simp
  then have "m \<in> {1, 2, 3, 4, 5, 6, 7, 8, 9, 10, 11, 12}" by (simp add: upto_rec1)
  then show ?thesis
    by (auto simp: days_in_month_def month_length_def is_leap_def smod Let_def)
qed

lemma days_from_civil_march:
  assumes "valid_civil (Civil y m d)"
  shows "civil_of_days (days_from_civil y m d) = Civil y m d \<or>
    \<not> i64_range (days_from_civil y m d + 719468)"
proof (cases "i64_range (days_from_civil y m d + 719468)")
  case True
  define y' where "y' = (if m \<le> 2 then y - 1 else y)"
  have m: "1 \<le> m" "m \<le> 12" and d: "1 \<le> d" "d \<le> month_length y m"
    using assms by (auto simp: valid_civil_def)
  have "month_length y m \<le> month_length 0 m" by (simp add: month_length_def is_leap_def)
  then have ok: "doy_ok m d" using doys m d by (simp add: list_all_iff)
  have len: "doy_of m d < year_length y'"
  proof (cases "m = 2 \<and> d = 29")
    case True
    then have "is_leap y" using d by (simp add: month_length_def split: if_splits)
    then show ?thesis using ok True by (simp add: doy_ok_def y'_def year_length_def)
  next
    case False
    then have "doy_of m d < 365" using ok unfolding doy_ok_def by presburger
    then show ?thesis using year_length_pos(1) [of y'] by simp
  qed
  have yoe: "0 \<le> y' mod 400" "y' mod 400 < 400" "y' - y' div 400 * 400 = y' mod 400"
    by (simp_all add: minus_div_mult_eq_mod)
  have start: "days_from_civil y m d + 719468 = year_start y' + doy_of m d"
  proof -
    have "year_start y' = year_start (y' mod 400) + 146097 * (y' div 400)"
      using year_start_era [of "y' mod 400" "y' div 400"] by simp
    moreover have "year_start (y' mod 400) = 365 * (y' mod 400) + (y' mod 400) div 4 - (y' mod 400) div 100"
      using yoe by (simp add: year_start_def)
    ultimately show ?thesis
      using yoe by (simp add: days_from_civil_def y'_def [symmetric] Let_def doy_of_def sdiv_div)
  qed
  have "civil_of_days (days_from_civil y m d) = march_date y' (doy_of m d)"
    using ok len True by (intro civil_of_days_eq [OF start]) (auto simp: doy_ok_def)
  also have "\<dots> = Civil y m d"
    using ok by (simp add: march_date_def doy_ok_def y'_def)
  finally show ?thesis ..
qed simp

lemma day_number_Inr_iff:
  "day_number date = Inr n \<longleftrightarrow>
     (\<exists>ys ms ds. split_at_char (CHR ''-'') date = [ys, ms, ds] \<and> length ys = 4 \<and> length ms = 2 \<and>
        length ds = 2 \<and> list_all all_digits [ys, ms, ds] \<and>
        (let y = int (dec_value ys); m = int (dec_value ms); d = int (dec_value ds) in
         1 \<le> m \<and> m \<le> 12 \<and> 1 \<le> d \<and> d \<le> days_in_month y m \<and> n = days_from_civil y m d))"
proof -
  have "(case xs of [a, b, c] \<Rightarrow> f a b c | _ \<Rightarrow> bail m) = Inr n \<longleftrightarrow>
      (\<exists>a b c. xs = [a, b, c] \<and> f a b c = Inr n)" for xs :: "bytes list" and f m
    by (auto split: list.splits)
  then show ?thesis by (simp add: day_number_def ensure_Inr_iff Let_def) blast
qed

lemma dec_value_bound: "all_digits s \<Longrightarrow> dec_value s < 10 ^ length s"
proof (induction s rule: rev_induct)
  case (snoc c s)
  then have "dec_value s < 10 ^ length s" "byte_val c \<le> 57" by (simp_all add: byte_defs)
  then show ?case by (simp add: dec_value_def)
qed (simp add: dec_value_def)

text \<open>The number written \<open>YYYY-MM-DD\<close> without the separators, as phi_S reads the record date.\<close>

definition date_digits :: "bytes \<Rightarrow> int" where
  "date_digits date = int (dec_value (filter (\<lambda>c. c \<noteq> CHR ''-'') date))"

lemma dec_value_append: "dec_value (s @ t) = dec_value s * 10 ^ length t + dec_value t"
proof (induction t rule: rev_induct)
  case (snoc c t)
  have "dec_value ((s @ t) @ [c]) = 10 * dec_value (s @ t) + (byte_val c - 48)"
    and "dec_value (t @ [c]) = 10 * dec_value t + (byte_val c - 48)"
    by (simp_all add: dec_value_def)
  with snoc show ?case by (simp add: algebra_simps)
qed (simp add: dec_value_def)

lemma day_number_civil:
  assumes "day_number date = Inr n"
  obtains y m d where "civil_of_days n = Civil y m d" "date_digits date = ymd (Civil y m d)"
    "valid_civil (Civil y m d)" "0 \<le> y" "y \<le> 9999" "day_in_range n" "- 1000000 \<le> n" "n \<le> 4000000"
proof -
  obtain ys ms ds where sp: "split_at_char (CHR ''-'') date = [ys, ms, ds]"
    and len: "length ys = 4" "length ms = 2" "length ds = 2"
    and dig: "all_digits ys" "all_digits ms" "all_digits ds"
    and md: "1 \<le> int (dec_value ms)" "int (dec_value ms) \<le> 12" "1 \<le> int (dec_value ds)"
      "int (dec_value ds) \<le> days_in_month (int (dec_value ys)) (int (dec_value ms))"
    and n: "n = days_from_civil (int (dec_value ys)) (int (dec_value ms)) (int (dec_value ds))"
    using assms by (auto simp: day_number_Inr_iff Let_def)
  define y m d where ymd_defs: "y = int (dec_value ys)" "m = int (dec_value ms)" "d = int (dec_value ds)"
  have y: "0 \<le> y" "y \<le> 9999" using dec_value_bound [OF dig(1)] len by (simp_all add: ymd_defs)
  have valid: "valid_civil (Civil y m d)"
    using md y days_in_month_eq [of y m] by (simp add: valid_civil_def ymd_defs)
  have "concat [ys, ms, ds] = filter (\<lambda>x. x \<noteq> CHR ''-'') date"
    using split_at_char_concat [of "CHR ''-''" date] sp by simp
  then have digits: "date_digits date = ymd (Civil y m d)"
    using len by (simp add: date_digits_def dec_value_append ymd_def ymd_defs flip: \<open>concat _ = _\<close>)
  have "month_length y m \<le> 31" by (simp add: month_length_def)
  then have d31: "1 \<le> d" "d \<le> 31" "1 \<le> m" "m \<le> 12" using valid by (auto simp: valid_civil_def)
  then have "m \<in> set [1..12]" by simp
  then have "m \<in> {1, 2, 3, 4, 5, 6, 7, 8, 9, 10, 11, 12}" by (simp add: upto_rec1)
  then have doy: "0 \<le> doy_of m d" "doy_of m d \<le> 400"
    using d31 by (auto simp: doy_of_def)
  define Y where "Y = (if m \<le> 2 then y - 1 else y)"
  have "Y * 365 = 146000 * (Y div 400) + Y mod 400 * 365" using mult_div_mod_eq [of 400 Y] by linarith
  then have "n + 719468 = (Y div 400) * 146097 + ((Y mod 400) * 365 + (Y mod 400) div 4 - (Y mod 400) div 100 + doy_of m d)"
    by (simp add: n days_from_civil_def Let_def doy_of_def sdiv_div minus_div_mult_eq_mod flip: ymd_defs Y_def)
  moreover have "- 1 \<le> Y div 400" "Y div 400 \<le> 24" using y by (auto simp: Y_def)
  moreover have "0 \<le> Y mod 400" "Y mod 400 < 400" "0 \<le> (Y mod 400) div 4" "(Y mod 400) div 4 \<le> 100"
    "0 \<le> (Y mod 400) div 100" "(Y mod 400) div 100 \<le> 4" by auto
  ultimately have bound: "- 1000000 \<le> n" "n \<le> 4000000" using doy by linarith+
  then have "day_in_range n" by (simp add: day_in_range_def i64_range_def)
  moreover from this have "civil_of_days n = Civil y m d"
    using days_from_civil_march [OF valid] by (simp add: n day_in_range_def ymd_defs)
  ultimately show ?thesis using that digits valid y bound by blast
qed

text \<open>The mock notary's day number and the engagement day's encoding are inverse: a record date that
  \<open>day_number\<close> accepts is a Gregorian date, and \<open>ymd_of_days\<close> of its day number is the number its
  eight digits write.\<close>

theorem day_number_roundtrip:
  assumes "day_number date = Inr n"
  shows "ymd_of_days n = Inr (date_digits date) \<and>
    valid_civil (Civil (date_digits date div 10000) (date_digits date div 100 mod 100) (date_digits date mod 100))"
proof -
  obtain y m d where c: "civil_of_days n = Civil y m d" "date_digits date = ymd (Civil y m d)"
    "valid_civil (Civil y m d)" "0 \<le> y" "y \<le> 9999" and range: "day_in_range n"
    using day_number_civil [OF assms] by blast
  have "month_length y m \<le> 31" by (simp add: month_length_def)
  then have md: "1 \<le> m" "m \<le> 12" "1 \<le> d" "d \<le> 31" using c(3) by (auto simp: valid_civil_def)
  have pair: "(a * 100 + b) div 100 = a \<and> (a * 100 + b) mod 100 = b" if "0 \<le> b" "b < 100" for a b :: int
    using that by simp
  have digits: "date_digits date = (y * 100 + m) * 100 + d" using c(2) by (simp add: ymd_def)
  then have hi: "date_digits date div 100 = y * 100 + m" and lo: "date_digits date mod 100 = d"
    using pair [of d "y * 100 + m"] md by simp_all
  have "date_digits date div (100 * 100) = date_digits date div 100 div 100" by (rule zdiv_zmult2_eq) simp
  then have "date_digits date div 10000 = y" "date_digits date div 100 mod 100 = m" "date_digits date mod 100 = d"
    using hi lo pair [of m y] md by simp_all
  then show ?thesis using c ymd_of_days_eq [OF range] by (simp add: Let_def)
qed

lemma sample_date: "day_number ''2026-09-25'' = Inr 20721" "date_digits ''2026-09-25'' = 20260925"
  by (simp_all add: day_number_def date_digits_def dec_value_def byte_defs days_in_month_def days_from_civil_def
      Let_def signed_modulo_int_def signed_divide_int_def)

theorem day_number_roundtrip_witness:
  "ymd_of_days 20721 = Inr 20260925 \<and> valid_civil (Civil 2026 9 25)"
proof -
  from day_number_roundtrip [OF sample_date(1)] show ?thesis unfolding sample_date(2) by simp
qed

lemma engagement_day_Inr_iff:
  "engagement_day expires_at tau_lock offset = Inr e \<longleftrightarrow>
     tau_lock \<le> expires_at \<and> uint (expires_at - tau_lock) < 2 ^ 63 \<and>
     i64_range (uint (expires_at - tau_lock) + offset) \<and>
     ymd_of_days ((uint (expires_at - tau_lock) + offset) div SECS_PER_DAY) = Inr e"
  by (auto simp: engagement_day_def and_then_Inr_iff some_or_Inr_iff i64_range_def Let_def split: if_splits)

lemma i64_day_in_range: "i64_range t \<Longrightarrow> day_in_range (t div SECS_PER_DAY)"
  unfolding day_in_range_def i64_range_def SECS_PER_DAY_def by auto

text \<open>Where phi_S's engagement day exists, the mock notary's date check decides the same: the record
  date's day number reaches the engagement day exactly when the eight digits of the date are at least
  the engagement day that \<open>phi_S\<close>'s public inputs carry.\<close>

theorem mock_date_check_agrees:
  assumes "engagement_day expires_at tau_lock offset = Inr e" and "day_number date = Inr n"
  shows "mock_engagement_day (expires_at - tau_lock) offset \<le> n \<longleftrightarrow> e \<le> date_digits date"
proof -
  let ?engaged = "expires_at - tau_lock"
  have small: "uint ?engaged < 2 ^ 63" and range: "i64_range (uint ?engaged + offset)"
    and e: "ymd_of_days ((uint ?engaged + offset) div SECS_PER_DAY) = Inr e"
    using assms(1) by (simp_all add: engagement_day_Inr_iff)
  have "sint ?engaged = uint ?engaged"
    unfolding sint_uint by (rule signed_take_bit_int_eq_self)
      (use small uint_ge_0 [of ?engaged] in \<open>simp_all, linarith\<close>)
  then have day: "mock_engagement_day ?engaged offset = (uint ?engaged + offset) div SECS_PER_DAY"
    using range by (simp add: mock_engagement_day_def wrap64_id SECS_PER_DAY_def)
  have "day_in_range n" using day_number_civil [OF assms(2)] by blast
  from ymd_of_days_order [OF this i64_day_in_range [OF range] conjunct1 [OF day_number_roundtrip [OF assms(2)]] e]
  show ?thesis by (auto simp: day)
qed

theorem mock_date_check_agrees_witness:
  "mock_engagement_day (1790304400 - 2592000) 10800 \<le> 20721 \<longleftrightarrow> (20260826::int) \<le> 20260925"
proof -
  have "ymd_of_days 20691 = Inr 20260826" by code_simp
  then have "engagement_day 1790304400 2592000 10800 = Inr 20260826"
    by (simp add: engagement_day_Inr_iff i64_range_def SECS_PER_DAY_def)
  from mock_date_check_agrees [OF this sample_date(1)] show ?thesis unfolding sample_date(2) .
qed

subsection \<open>One signature per nonce\<close>

text \<open>A call of the mock notary, with the outcome of the append and the value of the clock.\<close>

datatype mock_call =
    Call_apply io_outcome u64 mock_apply_request eligibility_record commitment_opening
  | Call_settle io_outcome u64 mock_settle_request settlement_record commitment_opening

definition mock_answer ::
    "('p, 'vk, 'att, 'rs, 'g1, 'g2, 'pvk, 'sk) notary_env \<Rightarrow> (nat \<Rightarrow> nat \<Rightarrow> nat res)
      \<Rightarrow> 'sk mock_notary \<Rightarrow> mock_call \<Rightarrow> 'sk mock_notary \<times> (statement \<times> bytes) res" where
  "mock_answer env poseidon mn c =
     (case c of
        Call_apply io now q r op \<Rightarrow>
          (let (mn', res) = mock_sign_apply env poseidon io now mn q r op in
           (mn', and_then res (\<lambda>(x, sigma). Inr (Apply_stmt x, sigma))))
      | Call_settle io now q r op \<Rightarrow>
          (let (mn', res) = mock_sign_settle env poseidon io now mn q r op in
           (mn', and_then res (\<lambda>(x, sigma). Inr (Settle_stmt x, sigma)))))"

fun mock_serve ::
    "('p, 'vk, 'att, 'rs, 'g1, 'g2, 'pvk, 'sk) notary_env \<Rightarrow> (nat \<Rightarrow> nat \<Rightarrow> nat res)
      \<Rightarrow> 'sk mock_notary \<Rightarrow> mock_call list \<Rightarrow> 'sk mock_notary \<times> (statement \<times> bytes) list" where
  "mock_serve env poseidon mn [] = (mn, [])"
| "mock_serve env poseidon mn (c # calls) =
     (let (mn', r) = mock_answer env poseidon mn c; (mn'', out) = mock_serve env poseidon mn' calls in
      (mn'', case r of Inl _ \<Rightarrow> out | Inr s \<Rightarrow> s # out))"

lemma mock_sign_nonces:
  "mock_sign env io mn eta d = (mn', r) \<Longrightarrow>
     \<exists>r'. record_nonce (env_hex_encode env) io (mn_nonces mn) eta = (mn_nonces mn', r') \<and>
       (is_ok r \<longrightarrow> is_ok r')"
  by (auto simp: mock_sign_def split: prod.splits sum.splits)

lemma mock_check_apply_eta:
  "mock_check_apply env poseidon now mn q rec op = Inr x \<Longrightarrow> app_eta x = ma_eta q"
  by (auto simp: mock_check_apply_def and_then_Inr_iff ensure_Inr_iff split: option.splits mock_policy.splits)

lemma mock_check_settle_eta:
  "mock_check_settle env poseidon now mn q rec op = Inr x \<Longrightarrow> set_eta x = ms_eta q"
  by (auto simp: mock_check_settle_def and_then_Inr_iff ensure_Inr_iff split: option.splits mock_policy.splits)

lemma mock_answer_nonces:
  assumes "mock_answer env poseidon mn c = (mn', r)"
  shows "(mn' = mn \<and> (\<exists>e. r = Inl e)) \<or>
    (\<exists>io eta r'. record_nonce (env_hex_encode env) io (mn_nonces mn) eta = (mn_nonces mn', r') \<and>
      (case r of Inl _ \<Rightarrow> True | Inr (x, _) \<Rightarrow> r' = Inr () \<and> eta = statement_eta x))"
proof (cases c)
  case (Call_apply io now q rec op)
  show ?thesis
  proof (cases "mock_check_apply env poseidon now mn q rec op")
    case (Inr x)
    obtain mn1 r1 where sign: "mock_sign env io mn (ma_eta q)
        (digest (env_eip712_hash env) (Apply_stmt x) (mn_domain mn)) = (mn1, r1)" by fastforce
    from mock_sign_nonces [OF sign] mock_check_apply_eta [OF Inr] show ?thesis
      using assms Call_apply Inr sign
      by (cases r1) (auto simp: mock_answer_def mock_sign_apply_def is_ok_iff)
  qed (use assms Call_apply in \<open>auto simp: mock_answer_def mock_sign_apply_def\<close>)
next
  case (Call_settle io now q rec op)
  show ?thesis
  proof (cases "mock_check_settle env poseidon now mn q rec op")
    case (Inr x)
    obtain mn1 r1 where sign: "mock_sign env io mn (ms_eta q)
        (digest (env_eip712_hash env) (Settle_stmt x) (mn_domain mn)) = (mn1, r1)" by fastforce
    from mock_sign_nonces [OF sign] mock_check_settle_eta [OF Inr] show ?thesis
      using assms Call_settle Inr sign
      by (cases r1) (auto simp: mock_answer_def mock_sign_settle_def is_ok_iff)
  qed (use assms Call_settle in \<open>auto simp: mock_answer_def mock_sign_settle_def\<close>)
qed

text \<open>However the calls of the two phases interleave and whichever appends fail, the mock notary signs
  each nonce at most once, never one of its record, and every signed nonce is on its record.\<close>

theorem mock_signs_each_nonce_once:
  assumes "mock_serve env poseidon mn calls = (mn', out)"
  shows "distinct (map (\<lambda>(x, _). statement_eta x) out) \<and>
    (\<forall>n \<in> set (map (\<lambda>(x, _). statement_eta x) out). \<not> nonce_seen (mn_nonces mn) n \<and> nonce_seen (mn_nonces mn') n)"
proof -
  have "distinct (map (\<lambda>(x, _). statement_eta x) out) \<and>
    (\<forall>n \<in> set (map (\<lambda>(x, _). statement_eta x) out). \<not> nonce_seen (mn_nonces mn) n \<and> nonce_seen (mn_nonces mn') n) \<and>
    (\<forall>n. nonce_seen (mn_nonces mn) n \<longrightarrow> nonce_seen (mn_nonces mn') n)" using assms
  proof (induction calls arbitrary: mn out)
    case (Cons c calls)
    obtain mn1 r where c: "mock_answer env poseidon mn c = (mn1, r)" by fastforce
    obtain out1 where rest: "mock_serve env poseidon mn1 calls = (mn', out1)"
      and out: "out = (case r of Inl _ \<Rightarrow> out1 | Inr s \<Rightarrow> s # out1)"
      using Cons.prems c by (auto split: prod.splits)
    note IH = Cons.IH [OF rest]
    have kept: "nonce_seen (mn_nonces mn) n \<Longrightarrow> nonce_seen (mn_nonces mn1) n" for n
      using mock_answer_nonces [OF c] store.log_kept by blast
    show ?case
    proof (cases r)
      case (Inl e)
      then show ?thesis using IH kept out by auto
    next
      case (Inr s)
      obtain x sigma where s: "s = (x, sigma)" by fastforce
      obtain io where io: "record_nonce (env_hex_encode env) io (mn_nonces mn) (statement_eta x) =
          (mn_nonces mn1, Inr ())"
        using mock_answer_nonces [OF c] Inr s by auto
      from store.log_fresh [OF io] store.log_recorded [OF io] show ?thesis
        using IH kept out Inr s by auto
    qed
  qed simp
  then show ?thesis by blast
qed

definition sample_income :: mock_apply_request where
  "sample_income =
     \<lparr>ma_tx_id = 1, ma_c_tx = replicate 32 (CHR 0x01),
      ma_tx_data = \<lparr>tx_property_id = replicate 32 (CHR 0x54), tx_amount = 1000, tx_settlement_share = 500\<rparr>,
      ma_c_b = be_bytes 32 12, ma_policy_id = ''apply'', ma_submitter = replicate 20 (CHR 0x02),
      ma_eta = sample_nonce (CHR 0x07)\<rparr>"

definition sample_mock :: "nat mock_notary" where
  "sample_mock = mock_notary_new [''apply'' \<mapsto> Mock_apply 3] 0
     \<lparr>domain_name = ''PPREV'', domain_version = ''1'', domain_chain_id = 1, domain_contract = replicate 20 (CHR 0x03)\<rparr>
     \<lparr>ns_file = [], ns_seen = {}\<rparr>"

text \<open>A call that the mock notary signs, and the same call again, which it refuses.\<close>

theorem mock_signs_each_nonce_once_witness:
  "\<exists>s mn' out. mock_serve (sample_env s []) (\<lambda>a b. Inr (a + b)) sample_mock
     (replicate 2 (Call_apply Written 1000 sample_income \<lparr>el_account = [CHR 0x05], el_monthly_income = 3000\<rparr>
       \<lparr>co_identifier = [CHR 0x05], co_salt = be_bytes 32 7\<rparr>)) = (mn', out) \<and> length out = 1 \<and>
     distinct (map (\<lambda>(x, _). statement_eta x) out)"
proof -
  obtain s :: response_shape where "s = s" by simp
  have c: "counterparty_commitment (fr_modulus (env_ark (sample_env s []))) (\<lambda>a b. Inr (a + b)) [CHR 0x05]
      (be_bytes 32 7) = Inr (be_bytes 32 12)"
  proof -
    have "be_value [CHR 0x05] = 5" by (simp add: be_value_def)
    moreover have "be_value (be_bytes 32 7) = 7" by simp
    ultimately show ?thesis
      by (simp add: counterparty_commitment_def sample_env_def sample_ark_def BN254_R_def be_limbs_value Let_def)
  qed
  let ?call = "Call_apply Written 1000 sample_income \<lparr>el_account = [CHR 0x05], el_monthly_income = 3000\<rparr>
       \<lparr>co_identifier = [CHR 0x05], co_salt = be_bytes 32 7\<rparr>"
  have check: "mock_check_apply (sample_env s []) (\<lambda>a b. Inr (a + b)) 1000 mn sample_income
      \<lparr>el_account = [CHR 0x05], el_monthly_income = 3000\<rparr>
      \<lparr>co_identifier = [CHR 0x05], co_salt = be_bytes 32 7\<rparr> =
      Inr \<lparr>app_tx_id = 1, app_c_tx = replicate 32 (CHR 0x01), app_tx_data = ma_tx_data sample_income,
        app_c_b = be_bytes 32 12, app_policy_id = ''apply'', app_submitter = replicate 20 (CHR 0x02),
        app_eta = sample_nonce (CHR 0x07), app_t_att = 1000\<rparr>"
    if "mn_policies mn = [''apply'' \<mapsto> Mock_apply 3]" for mn :: "nat mock_notary"
    using c that by (simp add: mock_check_apply_def sample_income_def checked_mul_def)
  have sign: "key_sign (sample_env s []) k d = Inr (d @ d)" for k d
    by (simp add: key_sign_def sample_env_def)
  have eta: "ma_eta sample_income = sample_nonce (CHR 0x07)" by (simp add: sample_income_def)
  have "length (snd (mock_serve (sample_env s []) (\<lambda>a b. Inr (a + b)) sample_mock (replicate 2 ?call))) = 1"
    by (simp add: numeral_2_eq_2 mock_answer_def mock_sign_apply_def check mock_sign_def sample_mock_def
        mock_notary_new_def record_nonce_def Let_def sign bail_def eta)
  then obtain mn' out where run: "mock_serve (sample_env s []) (\<lambda>a b. Inr (a + b)) sample_mock (replicate 2 ?call) = (mn', out)"
    and "length out = 1" by (metis prod.collapse)
  then show ?thesis using mock_signs_each_nonce_once [OF run] by blast
qed

end
