(* ===== verification/Circom_Numbers.thy ===== *)
theory Circom_Numbers
  imports Phi_R Mock_Notary
begin

section \<open>Numbers and dates in circuits\<close>

text \<open>
  Model of \<open>circuits/src/lib/decimal.circom\<close> and \<open>date.circom\<close>: decimal digits, decimal numbers and calendar
  dates as constraints over signals, with circomlib's comparators and Poseidon as the record \<open>comparators\<close>.
  The circuit's date is related to the native parser of the mock notary: it has a witness exactly for the dates
  that \<open>day_number\<close> accepts, and its value is the number that the eight digits write.
\<close>

record comparators =
  cm_is_zero :: "nat \<Rightarrow> nat"
  cm_less_than :: "nat \<Rightarrow> nat \<Rightarrow> nat \<Rightarrow> nat option"
  cm_greater_eq_than :: "nat \<Rightarrow> nat \<Rightarrow> nat \<Rightarrow> nat option"
  cm_poseidon :: "nat \<Rightarrow> nat \<Rightarrow> nat"

definition comparators_ok :: "comparators \<Rightarrow> bool" where
  "comparators_ok cm \<longleftrightarrow>
     (\<forall>x. is_signal x \<longrightarrow> cm_is_zero cm x = (if x = 0 then 1 else 0)) \<and>
     (\<forall>n a b. n \<le> 252 \<longrightarrow> a < 2 ^ n \<longrightarrow> b < 2 ^ n \<longrightarrow> cm_less_than cm n a b = Some (if a < b then 1 else 0)) \<and>
     (\<forall>n a b. n \<le> 252 \<longrightarrow> a < 2 ^ n \<longrightarrow> b < 2 ^ n \<longrightarrow> cm_greater_eq_than cm n a b = Some (if b \<le> a then 1 else 0))"

text \<open>A constraint in front of what follows.\<close>

definition when_holds :: "bool \<Rightarrow> 'a option \<Rightarrow> 'a option" where
  "when_holds b r = (if b then r else None)"

lemma when_holds_Some [simp]: "when_holds b r = Some x \<longleftrightarrow> b \<and> r = Some x"
  by (simp add: when_holds_def)

lemma bind_Some [simp]: "Option.bind r f = Some y \<longleftrightarrow> (\<exists>x. r = Some x \<and> f x = Some y)"
  by (cases r) auto

subsection \<open>decimal.circom\<close>

definition digit :: "circomlib \<Rightarrow> comparators \<Rightarrow> nat \<Rightarrow> nat option" where
  "digit lib cm byte =
     (let v = field_sub byte 48 in
      when_holds (cl_num2bits lib 4 v \<noteq> None \<and> cm_less_than cm 4 v 10 = Some 1) (Some v))"

definition decimal_value :: "circomlib \<Rightarrow> comparators \<Rightarrow> nat list \<Rightarrow> nat option" where
  "decimal_value lib cm digits =
     when_holds (length digits \<le> 75)
       (map_option (foldl (\<lambda>acc v. field_mod (acc * 10 + v)) 0) (all_some (map (digit lib cm) digits)))"

subsection \<open>date.circom\<close>

definition divisible_by_4 :: "circomlib \<Rightarrow> comparators \<Rightarrow> nat \<Rightarrow> nat option" where
  "divisible_by_4 lib cm x =
     map_option (\<lambda>bits. cm_is_zero cm (field_mod (bits ! 0 + 2 * bits ! 1))) (cl_num2bits lib 7 x)"

definition leap_signal :: "circomlib \<Rightarrow> comparators \<Rightarrow> nat \<Rightarrow> nat \<Rightarrow> nat option" where
  "leap_signal lib cm c y =
     Option.bind (divisible_by_4 lib cm y) (\<lambda>y_div4.
     Option.bind (divisible_by_4 lib cm c) (\<lambda>c_div4.
     let y_zero = cm_is_zero cm y;
         leap_in_century = field_mod (y_div4 * field_sub 1 y_zero);
         leap_century = field_mod (c_div4 * y_zero) in
     Some (field_mod (leap_in_century + leap_century))))"

definition month_length_signal :: "circomlib \<Rightarrow> nat \<Rightarrow> nat \<Rightarrow> nat" where
  "month_length_signal lib m leap =
     (let short_month = foldl (\<lambda>acc s. field_mod (acc + cl_is_equal lib m s)) 0 [4, 6, 9, 11];
          february_cut = field_mod (cl_is_equal lib m 2 * field_sub 3 leap) in
      field_sub (field_sub 31 short_month) february_cut)"

definition calendar_date :: "circomlib \<Rightarrow> comparators \<Rightarrow> nat list \<Rightarrow> nat option" where
  "calendar_date lib cm date =
     when_holds (length date = 10 \<and> date ! 4 = 45 \<and> date ! 7 = 45) (
     Option.bind (decimal_value lib cm [date ! 0, date ! 1]) (\<lambda>c.
     Option.bind (decimal_value lib cm [date ! 2, date ! 3]) (\<lambda>y.
     Option.bind (decimal_value lib cm [date ! 5, date ! 6]) (\<lambda>m.
     Option.bind (decimal_value lib cm [date ! 8, date ! 9]) (\<lambda>d.
     when_holds (cm_is_zero cm m = 0 \<and> cm_less_than cm 7 m 13 = Some 1) (
     Option.bind (leap_signal lib cm c y) (\<lambda>leap.
     let month_len = month_length_signal lib m leap in
     when_holds (cm_is_zero cm d = 0 \<and> cm_less_than cm 7 d (field_mod (month_len + 1)) = Some 1)
       (Some (field_mod (field_mod (field_mod (c * 100 + y) * 10000) + m * 100 + d))))))))))"

subsection \<open>Digits and numbers\<close>

definition digit_signal :: "nat \<Rightarrow> bool" where "digit_signal b \<longleftrightarrow> 48 \<le> b \<and> b \<le> 57"

lemma field_sub_small: "b \<le> a \<Longrightarrow> a < BN254_R \<Longrightarrow> field_sub a b = a - b"
  by (simp add: field_sub_def mod_if)

lemma digit_eq:
  assumes "circomlib_ok sha lib" and "comparators_ok cm" and "is_signal b"
  shows "digit lib cm b = (if digit_signal b then Some (b - 48) else None)"
proof (cases "48 \<le> b")
  case True
  then have v: "field_sub b 48 = b - 48" using assms(3) by (simp add: field_sub_small is_signal_def)
  have "is_signal (b - 48)" using assms(3) by (simp add: is_signal_def)
  then have "cl_num2bits lib 4 (b - 48) = (if b - 48 < 16 then Some (bits_lsb 4 (b - 48)) else None)"
    using assms(1) by (simp add: circomlib_ok_def)
  moreover have "b - 48 < 16 \<Longrightarrow> cm_less_than cm 4 (b - 48) 10 = Some (if b - 48 < 10 then 1 else 0)"
    using assms(2) by (simp add: comparators_ok_def)
  ultimately show ?thesis using True by (cases "b - 48 < 16") (auto simp: digit_def v when_holds_def digit_signal_def Let_def)
next
  case False
  then have b: "field_sub b 48 = b + (BN254_R - 48)" by (simp add: field_sub_def BN254_R_def)
  then have "is_signal (field_sub b 48)" "\<not> field_sub b 48 < 2 ^ 4" using False by (simp_all add: is_signal_def BN254_R_def)
  then have "cl_num2bits lib 4 (field_sub b 48) = None" using assms(1) by (simp add: circomlib_ok_def)
  then show ?thesis using False by (simp add: digit_def when_holds_def digit_signal_def Let_def)
qed

lemma digit_signals_bytes: "list_all digit_signal ds \<Longrightarrow> byte_signals ds"
  by (auto simp: list_all_iff byte_signals_def digit_signal_def)

lemma digit_signals_digits: "byte_signals ds \<Longrightarrow> all_digits (as_bytes ds) \<longleftrightarrow> list_all digit_signal ds"
  by (auto simp: all_digits_def as_bytes_def list_all_iff byte_signals_def digit_signal_def is_ascii_digit_def)

lemma foldl_digits:
  assumes "list_all digit_signal ds" and "length ds \<le> 75"
  shows "foldl (\<lambda>acc v. field_mod (acc * 10 + v)) 0 (map (\<lambda>b. b - 48) ds) = dec_value (as_bytes ds)"
  using assms
proof (induction ds rule: rev_induct)
  case (snoc b ds)
  let ?v = "dec_value (as_bytes (ds @ [b]))"
  have "byte_signals (ds @ [b])" using snoc.prems(1) by (rule digit_signals_bytes)
  then have "all_digits (as_bytes (ds @ [b]))" using digit_signals_digits snoc.prems(1) by blast
  then have "?v < 10 ^ length (as_bytes (ds @ [b]))" by (rule dec_value_bound)
  moreover have "(10::nat) ^ length (as_bytes (ds @ [b])) \<le> 10 ^ 75"
    using snoc.prems(2) by (intro power_increasing) (simp_all add: as_bytes_def)
  moreover have "(10::nat) ^ 75 < BN254_R" by (simp add: BN254_R_def)
  ultimately have "?v < BN254_R" by linarith
  moreover have "?v = dec_value (as_bytes ds) * 10 + (b - 48)"
    using snoc.prems(1) by (simp add: dec_value_append as_bytes_def dec_value_def digit_signal_def)
  ultimately show ?case using snoc by simp
qed (simp add: dec_value_def as_bytes_def)

lemma decimal_value_eq:
  assumes "circomlib_ok sha lib" and "comparators_ok cm" and "list_all is_signal ds"
  shows "decimal_value lib cm ds = Some v \<longleftrightarrow>
    length ds \<le> 75 \<and> list_all digit_signal ds \<and> v = dec_value (as_bytes ds)"
proof -
  have dig: "digit lib cm b = (if digit_signal b then Some (b - 48) else None)" if "b \<in> set ds" for b
    using digit_eq [OF assms(1,2)] assms(3) that by (simp add: list_all_iff)
  show ?thesis
  proof (cases "list_all digit_signal ds")
    case True
    then have "all_some (map (digit lib cm) ds) = Some (map (\<lambda>b. b - 48) ds)"
      using dig by (auto simp: all_some_map list.rel_map list_all_iff intro: list.rel_refl_strong)
    then show ?thesis using foldl_digits [OF True] True by (auto simp: decimal_value_def)
  next
    case False
    then obtain b where "b \<in> set ds" "digit lib cm b = None" using dig by (auto simp: list_all_iff)
    then have "all_some (map (digit lib cm) ds) = None" by (intro all_some_None) (metis image_eqI set_map)
    then show ?thesis using False by (simp add: decimal_value_def)
  qed
qed

subsection \<open>Dates\<close>

lemma small_signal: "x < 1000000 \<Longrightarrow> is_signal x"
  by (simp add: is_signal_def BN254_R_def)

lemma small_below: "x < 1000000 \<Longrightarrow> x < BN254_R"
  by (simp add: BN254_R_def)

lemma small_mod: "x < 1000000 \<Longrightarrow> x mod BN254_R = x"
  by (simp add: BN254_R_def)

lemma divisible_by_4_eq:
  assumes "circomlib_ok sha lib" and "comparators_ok cm" and "x < 128"
  shows "divisible_by_4 lib cm x = Some (if x mod 4 = 0 then 1 else 0)"
proof -
  have "cl_num2bits lib 7 x = Some (bits_lsb 7 x)"
    using assms(1,3) small_signal [of x] by (simp add: circomlib_ok_def)
  moreover have "bits_lsb 7 x ! 0 + 2 * bits_lsb 7 x ! 1 = x mod 4"
  proof -
    have "x mod 4 = 2 * (x div 2 mod 2) + x mod 2" using mod_mult2_eq [of x 2 2] by simp
    then show ?thesis by (simp add: bits_lsb_def)
  qed
  moreover have "x mod 4 mod BN254_R = x mod 4" by (simp add: BN254_R_def)
  moreover have "is_signal (x mod 4)" by (rule small_signal) simp
  ultimately show ?thesis using assms(2) by (simp add: divisible_by_4_def comparators_ok_def)
qed

lemma is_leap_nat: "is_leap (int n) \<longleftrightarrow> (n mod 4 = 0 \<and> n mod 100 \<noteq> 0) \<or> n mod 400 = 0"
proof -
  have "int n mod numeral k = 0 \<longleftrightarrow> n mod numeral k = 0" for k by (metis of_nat_eq_0_iff of_nat_mod of_nat_numeral)
  then show ?thesis by (simp add: is_leap_def)
qed

lemma leap_signal_eq:
  assumes "circomlib_ok sha lib" and "comparators_ok cm" and "c < 100" and "y < 100"
  shows "leap_signal lib cm c y = Some (if is_leap (int (c * 100 + y)) then 1 else 0)"
proof -
  have div4: "divisible_by_4 lib cm c = Some (if c mod 4 = 0 then 1 else 0)"
    "divisible_by_4 lib cm y = Some (if y mod 4 = 0 then 1 else 0)"
    using divisible_by_4_eq [OF assms(1,2)] assms(3,4) by simp_all
  have zero: "cm_is_zero cm y = (if y = 0 then 1 else 0)"
    using assms(2,4) small_signal [of y] by (simp add: comparators_ok_def)
  have "is_leap (int (c * 100 + y)) \<longleftrightarrow> (if y = 0 then c mod 4 = 0 else y mod 4 = 0)"
  proof -
    have "c * 100 + y = y + 4 * (25 * c)" by simp
    then have "(c * 100 + y) mod 4 = y mod 4" by (metis mod_mult_self2)
    moreover have div: "(c * 100 + y) div 100 = c" "(c * 100 + y) mod 100 = y" using assms(4) by simp_all
    moreover have "(c * 100 + y) mod 400 = 100 * (c mod 4) + y"
      using mod_mult2_eq [of "c * 100 + y" 100 4] div by simp
    ultimately show ?thesis unfolding is_leap_nat by auto
  qed
  then show ?thesis
    by (simp add: leap_signal_def div4 zero Let_def field_sub_small) (simp add: BN254_R_def field_sub_def)
qed

lemma month_length_signal_eq:
  assumes "circomlib_ok sha lib" and "1 \<le> m" and "m \<le> 12"
  shows "int (month_length_signal lib m (if is_leap y then 1 else 0)) = month_length y (int m)"
proof -
  have eq: "cl_is_equal lib m s = (if m = s then 1 else 0)" if "s \<in> {2, 4, 6, 9, 11}" for s
    using assms that small_signal [of m] small_signal [of s] by (auto simp: circomlib_ok_def)
  have short: "foldl (\<lambda>acc s. field_mod (acc + cl_is_equal lib m s)) 0 [4, 6, 9, 11] = (if m \<in> {4, 6, 9, 11} then 1 else 0)"
    by (simp add: eq small_mod)
  have sub: "field_sub 31 0 = 31" "field_sub 31 1 = 30" "field_sub 3 0 = 3" "field_sub 3 1 = 2"
    "field_sub 31 3 = 28" "field_sub 31 2 = 29" "field_sub 30 0 = 30"
    by (simp_all add: field_sub_small small_below)
  show ?thesis unfolding month_length_signal_def short Let_def
    by (simp add: eq sub small_mod month_length_def del: One_nat_def)
qed

text \<open>The constraints of a date, read as numbers.\<close>

definition date_numbers :: "nat list \<Rightarrow> nat list \<Rightarrow> nat list \<Rightarrow> nat \<Rightarrow> bool" where
  "date_numbers ys ms ds v \<longleftrightarrow>
     list_all digit_signal (ys @ ms @ ds) \<and>
     (let y = dec_value (as_bytes ys); m = dec_value (as_bytes ms); d = dec_value (as_bytes ds) in
      1 \<le> m \<and> m \<le> 12 \<and> 1 \<le> d \<and> int d \<le> month_length (int y) (int m) \<and> v = y * 10000 + m * 100 + d)"

lemma digits_below:
  assumes "list_all digit_signal ds"
  shows "dec_value (as_bytes ds) < 10 ^ length ds"
  using dec_value_bound [of "as_bytes ds"] digit_signals_digits [OF digit_signals_bytes [OF assms]] assms
  by (simp add: as_bytes_def)

lemma month_day_constraints:
  assumes lib: "circomlib_ok sha lib" and cm: "comparators_ok cm" and "c < 100" "y < 100" "m < 100" "d < 100"
  shows "when_holds (cm_is_zero cm m = 0 \<and> cm_less_than cm 7 m 13 = Some 1) (
     Option.bind (leap_signal lib cm c y) (\<lambda>leap.
     let month_len = month_length_signal lib m leap in
     when_holds (cm_is_zero cm d = 0 \<and> cm_less_than cm 7 d (field_mod (month_len + 1)) = Some 1) (Some (f leap)))) = Some v \<longleftrightarrow>
    1 \<le> m \<and> m \<le> 12 \<and> 1 \<le> d \<and> int d \<le> month_length (int (c * 100 + y)) (int m) \<and>
    v = f (if is_leap (int (c * 100 + y)) then 1 else 0)"
proof -
  have zero: "cm_is_zero cm m = 0 \<longleftrightarrow> 1 \<le> m" "cm_is_zero cm d = 0 \<longleftrightarrow> 1 \<le> d"
    using cm assms(5,6) small_signal [of m] small_signal [of d] by (auto simp: comparators_ok_def)
  have less: "cm_less_than cm 7 a b = Some 1 \<longleftrightarrow> a < b" if "a < 128" "b < 128" for a b
    using cm that by (simp add: comparators_ok_def)
  show ?thesis
  proof (cases "1 \<le> m \<and> m \<le> 12")
    case True
    let ?leap = "if is_leap (int (c * 100 + y)) then 1 else 0"
    have len: "int (month_length_signal lib m ?leap) = month_length (int (c * 100 + y)) (int m)"
      using month_length_signal_eq [OF lib] True by blast
    moreover have "month_length (int (c * 100 + y)) (int m) \<le> 31" by (simp add: month_length_def)
    ultimately have small: "month_length_signal lib m ?leap \<le> 31" by linarith
    then have "field_mod (month_length_signal lib m ?leap + 1) = month_length_signal lib m ?leap + 1"
      by (intro small_mod) simp
    then have "cm_less_than cm 7 d (field_mod (month_length_signal lib m ?leap + 1)) = Some 1 \<longleftrightarrow>
        int d \<le> month_length (int (c * 100 + y)) (int m)"
      using less [of d "month_length_signal lib m ?leap + 1"] small assms(6) len by auto
    then show ?thesis
      using True zero less [of m 13] assms(5) leap_signal_eq [OF lib cm assms(3,4)] by (auto simp: Let_def)
  next
    case False
    then show ?thesis using zero(1) less [of m 13] assms(5) by auto
  qed
qed

lemma calendar_date_ten:
  assumes lib: "circomlib_ok sha lib" and cm: "comparators_ok cm" and sig: "list_all is_signal [a0, a1, a2, a3, a4, a5, a6, a7, a8, a9]"
  shows "calendar_date lib cm [a0, a1, a2, a3, a4, a5, a6, a7, a8, a9] = Some v \<longleftrightarrow>
    a4 = 45 \<and> a7 = 45 \<and> date_numbers [a0, a1, a2, a3] [a5, a6] [a8, a9] v"
proof -
  note dv = decimal_value_eq [OF lib cm]
  have dec: "decimal_value lib cm [a, b] = Some n \<longleftrightarrow> list_all digit_signal [a, b] \<and> n = dec_value (as_bytes [a, b])"
    if "is_signal a" "is_signal b" for a b n
    using dv [of "[a, b]" n] that by simp
  have below: "dec_value (as_bytes [a, b]) < 100" if "list_all digit_signal [a, b]" for a b
    using digits_below [OF that] by simp
  have year: "dec_value (as_bytes [a0, a1, a2, a3]) = dec_value (as_bytes [a0, a1]) * 100 + dec_value (as_bytes [a2, a3])"
    using dec_value_append [of "as_bytes [a0, a1]" "as_bytes [a2, a3]"] by (simp add: as_bytes_def)
  let ?c = "dec_value (as_bytes [a0, a1])" and ?y = "dec_value (as_bytes [a2, a3])"
    and ?m = "dec_value (as_bytes [a5, a6])" and ?d = "dec_value (as_bytes [a8, a9])"
  have small: "field_mod (field_mod (field_mod (?c * 100 + ?y) * 10000) + ?m * 100 + ?d) = (?c * 100 + ?y) * 10000 + ?m * 100 + ?d"
    if "?c < 100" "?y < 100" "?m < 100" "?d < 100"
    using that by (simp add: BN254_R_def)
  show ?thesis
  proof (cases "list_all digit_signal [a0, a1, a2, a3, a5, a6, a8, a9]")
    case True
    then have b: "?c < 100" "?y < 100" "?m < 100" "?d < 100" using below by simp_all
    have "calendar_date lib cm [a0, a1, a2, a3, a4, a5, a6, a7, a8, a9] = Some v \<longleftrightarrow> a4 = 45 \<and> a7 = 45 \<and>
      when_holds (cm_is_zero cm ?m = 0 \<and> cm_less_than cm 7 ?m 13 = Some 1) (
       Option.bind (leap_signal lib cm ?c ?y) (\<lambda>leap.
       let month_len = month_length_signal lib ?m leap in
       when_holds (cm_is_zero cm ?d = 0 \<and> cm_less_than cm 7 ?d (field_mod (month_len + 1)) = Some 1)
         (Some (field_mod (field_mod (field_mod (?c * 100 + ?y) * 10000) + ?m * 100 + ?d))))) = Some v"
      using sig True by (simp add: calendar_date_def dec del: when_holds_Some) (simp add: dec)
    then show ?thesis
      using True unfolding month_day_constraints [OF lib cm b] small [OF b] by (auto simp: date_numbers_def Let_def year)
  next
    case False
    then show ?thesis using sig by (auto simp: calendar_date_def dec date_numbers_def)
  qed
qed

subsection \<open>The circuit's dates are the mock notary's\<close>

lemma split_at_char_not_Nil: "split_at_char c s \<noteq> []"
  by (induction s) (auto split: list.splits)

lemma split_at_char_Cons:
  "split_at_char c s = p # ps \<Longrightarrow> c \<notin> set p \<and> (if ps = [] then s = p else \<exists>t. s = p @ c # t \<and> split_at_char c t = ps)"
proof (induction s arbitrary: p ps)
  case (Cons x s)
  show ?case
  proof (cases "x = c")
    case False
    obtain q qs where q: "split_at_char c s = q # qs" using split_at_char_not_Nil by (cases "split_at_char c s") auto
    with Cons.prems False have "p = x # q" "ps = qs" by simp_all
    then show ?thesis using Cons.IH [OF q] False by auto
  qed (use Cons.prems split_at_char_not_Nil in auto)
qed simp

lemma split_at_char_plain: "c \<notin> set p \<Longrightarrow> split_at_char c p = [p]"
  by (induction p) auto

lemma split_at_char_append: "c \<notin> set p \<Longrightarrow> split_at_char c (p @ c # t) = p # split_at_char c t"
  by (induction p) auto

lemma split_three_iff:
  "split_at_char c s = [xs, ys, zs] \<longleftrightarrow> s = xs @ c # ys @ c # zs \<and> c \<notin> set xs \<and> c \<notin> set ys \<and> c \<notin> set zs"
proof
  assume s: "split_at_char c s = [xs, ys, zs]"
  from split_at_char_Cons [OF this] obtain t where t: "s = xs @ c # t" "split_at_char c t = [ys, zs]" "c \<notin> set xs" by auto
  from split_at_char_Cons [OF t(2)] obtain u where u: "t = ys @ c # u" "split_at_char c u = [zs]" "c \<notin> set ys" by auto
  from split_at_char_Cons [OF u(2)] t u show "s = xs @ c # ys @ c # zs \<and> c \<notin> set xs \<and> c \<notin> set ys \<and> c \<notin> set zs" by auto
qed (simp add: split_at_char_append split_at_char_plain)

lemma dash_not_digit: "all_digits s \<Longrightarrow> CHR ''-'' \<notin> set s"
  by (auto simp: all_digits_def list_all_iff is_ascii_digit_def)

lemma day_number_parts:
  "day_number s = Inr n \<longleftrightarrow>
     (\<exists>ys ms ds. s = ys @ CHR ''-'' # ms @ CHR ''-'' # ds \<and> length ys = 4 \<and> length ms = 2 \<and> length ds = 2 \<and>
        list_all all_digits [ys, ms, ds] \<and>
        (let y = int (dec_value ys); m = int (dec_value ms); d = int (dec_value ds) in
         1 \<le> m \<and> m \<le> 12 \<and> 1 \<le> d \<and> d \<le> month_length y m \<and> n = days_from_civil y m d))"
  (is "?l \<longleftrightarrow> ?r")
proof
  assume ?l
  then obtain ys ms ds where parts: "split_at_char (CHR ''-'') s = [ys, ms, ds]"
    and rest: "length ys = 4" "length ms = 2" "length ds = 2" "list_all all_digits [ys, ms, ds]"
      "1 \<le> int (dec_value ms)" "int (dec_value ms) \<le> 12" "1 \<le> int (dec_value ds)"
      "int (dec_value ds) \<le> days_in_month (int (dec_value ys)) (int (dec_value ms))"
      "n = days_from_civil (int (dec_value ys)) (int (dec_value ms)) (int (dec_value ds))"
    unfolding day_number_Inr_iff by (auto simp: Let_def)
  moreover have "s = ys @ CHR ''-'' # ms @ CHR ''-'' # ds" using parts unfolding split_three_iff by blast
  ultimately show ?r
    using days_in_month_eq [of "int (dec_value ys)" "int (dec_value ms)"]
    by (intro exI [of _ ys] exI [of _ ms] exI [of _ ds]) (simp add: Let_def)
next
  assume ?r
  then obtain ys ms ds where s: "s = ys @ CHR ''-'' # ms @ CHR ''-'' # ds"
    and rest: "length ys = 4" "length ms = 2" "length ds = 2" "list_all all_digits [ys, ms, ds]"
      "1 \<le> int (dec_value ms)" "int (dec_value ms) \<le> 12" "1 \<le> int (dec_value ds)"
      "int (dec_value ds) \<le> month_length (int (dec_value ys)) (int (dec_value ms))"
      "n = days_from_civil (int (dec_value ys)) (int (dec_value ms)) (int (dec_value ds))"
    by (auto simp: Let_def)
  moreover have "split_at_char (CHR ''-'') s = [ys, ms, ds]"
    unfolding split_three_iff s using rest(4) dash_not_digit by simp
  ultimately show ?l
    using days_in_month_eq [of "int (dec_value ys)" "int (dec_value ms)"]
    unfolding day_number_Inr_iff by (intro exI [of _ ys] exI [of _ ms] exI [of _ ds]) (simp add: Let_def)
qed

lemma char_45: "char_of (45::nat) = CHR ''-''"
proof -
  have "of_char (CHR ''-'') = (45::nat)" by simp
  then show ?thesis by (metis char_of_char)
qed

lemma dash_signal: "(n::nat) < 256 \<Longrightarrow> char_of n = CHR ''-'' \<longleftrightarrow> n = 45"
proof
  assume "n < 256" "char_of n = CHR ''-''"
  then have "of_char (char_of n) = (of_char (CHR ''-'') :: nat)" by (simp only:)
  with \<open>n < 256\<close> show "n = 45" by simp
qed (simp add: char_45)

lemma date_digits_parts:
  assumes "list_all all_digits [ys, ms, ds]" "length ms = 2" "length ds = 2"
  shows "date_digits (ys @ CHR ''-'' # ms @ CHR ''-'' # ds) = int (dec_value ys * 10000 + dec_value ms * 100 + dec_value ds)"
proof -
  have "filter (\<lambda>c. c \<noteq> CHR ''-'') s = s" if "all_digits s" for s
    using dash_not_digit [OF that] by (auto simp: filter_id_conv)
  then show ?thesis using assms by (simp add: date_digits_def dec_value_append)
qed

lemma as_bytes_append: "as_bytes (xs @ ys) = as_bytes xs @ as_bytes ys"
  by (simp add: as_bytes_def)

lemma two_separators:
  "xs @ a # ys @ b # zs = xs' @ a' # ys' @ b' # zs' \<Longrightarrow> length xs = length xs' \<Longrightarrow> length ys = length ys' \<Longrightarrow>
   xs = xs' \<and> a = a' \<and> ys = ys' \<and> b = b' \<and> zs = zs'"
  by simp

text \<open>The circuit's date component against the native parser: a list of signals satisfies it exactly when it is a
  byte string that the mock notary reads as a date, and its output is the number that the digits write.\<close>

lemma calendar_date_eq:
  assumes lib: "circomlib_ok sha lib" and cm: "comparators_ok cm" and sig: "list_all is_signal date"
  shows "calendar_date lib cm date = Some v \<longleftrightarrow>
    byte_signals date \<and> (\<exists>n. day_number (as_bytes date) = Inr n) \<and> date_digits (as_bytes date) = int v"
proof (cases "length date = 10")
  case False
  then have "calendar_date lib cm date = None" by (simp add: calendar_date_def when_holds_def)
  moreover have "length s = 10" if "day_number s = Inr n" for s n using that by (auto simp: day_number_parts)
  ultimately show ?thesis using False by (metis as_bytes_def length_map option.distinct(1))
next
  case True
  then obtain a0 a1 a2 a3 a4 a5 a6 a7 a8 a9 where date: "date = [a0, a1, a2, a3, a4, a5, a6, a7, a8, a9]"
    by (auto simp: eval_nat_numeral length_Suc_conv)
  let ?ys = "[a0, a1, a2, a3]" and ?ms = "[a5, a6]" and ?ds = "[a8, a9]"
  have s: "as_bytes date = as_bytes ?ys @ char_of a4 # as_bytes ?ms @ char_of a7 # as_bytes ?ds"
    by (simp add: date as_bytes_def)
  note circuit = calendar_date_ten [OF lib cm sig [unfolded date], of v, folded date]
  show ?thesis
  proof
    assume "calendar_date lib cm date = Some v"
    then have a: "a4 = 45" "a7 = 45" and n: "date_numbers ?ys ?ms ?ds v" by (simp_all add: circuit)
    then have dig: "list_all digit_signal (?ys @ ?ms @ ?ds)" by (simp add: date_numbers_def)
    then have bytes: "byte_signals date" using a by (auto simp: date byte_signals_def digit_signal_def)
    then have digs: "list_all all_digits [as_bytes ?ys, as_bytes ?ms, as_bytes ?ds]"
      using dig digit_signals_digits by (simp add: date byte_signals_def)
    have eq: "as_bytes date = as_bytes ?ys @ CHR ''-'' # as_bytes ?ms @ CHR ''-'' # as_bytes ?ds" using s a char_45 by simp
    have "date_digits (as_bytes date) = int v"
      unfolding eq using date_digits_parts [OF digs] n by (simp add: as_bytes_def date_numbers_def Let_def)
    moreover have "day_number (as_bytes date) =
        Inr (days_from_civil (int (dec_value (as_bytes ?ys))) (int (dec_value (as_bytes ?ms))) (int (dec_value (as_bytes ?ds))))"
      unfolding day_number_parts eq using digs n
      by (intro exI [of _ "as_bytes ?ys"] exI [of _ "as_bytes ?ms"] exI [of _ "as_bytes ?ds"])
        (simp add: date_numbers_def Let_def as_bytes_def)
    ultimately show "byte_signals date \<and> (\<exists>n. day_number (as_bytes date) = Inr n) \<and> date_digits (as_bytes date) = int v"
      using bytes by blast
  next
    assume "byte_signals date \<and> (\<exists>n. day_number (as_bytes date) = Inr n) \<and> date_digits (as_bytes date) = int v"
    then obtain n where bytes: "byte_signals date" and n: "day_number (as_bytes date) = Inr n"
      and v: "date_digits (as_bytes date) = int v" by blast
    from n obtain ys ms ds where eq: "as_bytes date = ys @ CHR ''-'' # ms @ CHR ''-'' # ds"
      and len: "length ys = 4" "length ms = 2" "length ds = 2" and digs: "list_all all_digits [ys, ms, ds]"
      and ok: "1 \<le> int (dec_value ms)" "int (dec_value ms) \<le> 12" "1 \<le> int (dec_value ds)"
        "int (dec_value ds) \<le> month_length (int (dec_value ys)) (int (dec_value ms))"
      by (auto simp: day_number_parts Let_def)
    have parts: "ys = as_bytes ?ys" "char_of a4 = CHR ''-''" "ms = as_bytes ?ms" "char_of a7 = CHR ''-''" "ds = as_bytes ?ds"
    proof -
      have "length ys = length (as_bytes ?ys)" "length ms = length (as_bytes ?ms)" using len by simp_all
      from two_separators [OF trans [OF eq [symmetric] s] this]
      show "ys = as_bytes ?ys" "char_of a4 = CHR ''-''" "ms = as_bytes ?ms" "char_of a7 = CHR ''-''" "ds = as_bytes ?ds"
        by metis+
    qed
    then have a: "a4 = 45" "a7 = 45" using bytes dash_signal by (simp_all add: date byte_signals_def)
    have "list_all digit_signal (?ys @ ?ms @ ?ds)"
      using digs digit_signals_digits [of ?ys] digit_signals_digits [of ?ms] digit_signals_digits [of ?ds] bytes
      by (simp add: parts(1,3,5) date byte_signals_def)
    moreover have "v = dec_value ys * 10000 + dec_value ms * 100 + dec_value ds"
      using v eq date_digits_parts [OF digs len(2,3)] by simp
    ultimately have "date_numbers ?ys ?ms ?ds v" using ok by (simp add: date_numbers_def Let_def parts(1,3,5))
    with a circuit show "calendar_date lib cm date = Some v" by simp
  qed
qed

subsection \<open>A reference set of comparators\<close>

definition ref_comparators :: comparators where
  "ref_comparators =
     \<lparr>cm_is_zero = (\<lambda>x. if x = 0 then 1 else 0), cm_less_than = (\<lambda>n a b. Some (if a < b then 1 else 0)),
      cm_greater_eq_than = (\<lambda>n a b. Some (if b \<le> a then 1 else 0)), cm_poseidon = (\<lambda>a b. field_mod (a + b))\<rparr>"

lemma ref_comparators_ok: "comparators_ok ref_comparators"
  by (simp add: comparators_ok_def ref_comparators_def)

lemma byte_vals_signals: "list_all is_signal (map byte_val s)" "byte_signals (map byte_val s)" "as_bytes (map byte_val s) = s"
proof -
  show b: "byte_signals (map byte_val s)" by (auto simp: byte_signals_def list_all_iff)
  have "n < BN254_R" if "n < 256" for n :: nat using that by (simp add: BN254_R_def)
  then show "list_all is_signal (map byte_val s)" using b by (auto simp: byte_signals_def list_all_iff is_signal_def)
  show "as_bytes (map byte_val s) = s" by (simp add: as_bytes_def map_idI)
qed

text \<open>C24: The circuit's calendar agrees with the native one. The date component of phi_S has a witness exactly
  for the byte strings that the mock notary's parser reads as dates, its output is the number of the
  Gregorian day that the parser returns, and comparing two outputs compares the days.\<close>

theorem circuit_dates_are_days:
  assumes "circomlib_ok sha lib" and "comparators_ok cm" and "list_all is_signal d1" and "list_all is_signal d2"
  shows "(calendar_date lib cm d1 \<noteq> None \<longleftrightarrow> byte_signals d1 \<and> is_ok (day_number (as_bytes d1))) \<and>
    (\<forall>v1 v2. calendar_date lib cm d1 = Some v1 \<and> calendar_date lib cm d2 = Some v2 \<longrightarrow>
      (\<exists>n1 n2. day_number (as_bytes d1) = Inr n1 \<and> day_number (as_bytes d2) = Inr n2 \<and>
        ymd_of_days n1 = Inr (int v1) \<and> (v1 \<le> v2 \<longleftrightarrow> n1 \<le> n2)))"
proof (intro conjI allI impI)
  have "\<exists>v. date_digits s = int v" for s by (simp add: date_digits_def)
  then show "calendar_date lib cm d1 \<noteq> None \<longleftrightarrow> byte_signals d1 \<and> is_ok (day_number (as_bytes d1))"
    using calendar_date_eq [OF assms(1-3)] by (auto simp: is_ok_iff)
next
  fix v1 v2
  assume "calendar_date lib cm d1 = Some v1 \<and> calendar_date lib cm d2 = Some v2"
  then obtain n1 n2 where n: "day_number (as_bytes d1) = Inr n1" "day_number (as_bytes d2) = Inr n2"
    and v: "date_digits (as_bytes d1) = int v1" "date_digits (as_bytes d2) = int v2"
    using calendar_date_eq [OF assms(1-3)] calendar_date_eq [OF assms(1,2,4)] by auto
  have r: "day_in_range n1" "day_in_range n2" using day_number_civil [OF n(1)] day_number_civil [OF n(2)] by metis+
  have e: "ymd_of_days n1 = Inr (int v1)" "ymd_of_days n2 = Inr (int v2)"
    using day_number_roundtrip [OF n(1)] day_number_roundtrip [OF n(2)] v by simp_all
  have "n1 \<le> n2 \<longleftrightarrow> int v1 \<le> int v2" using ymd_of_days_order [OF r(2,1) e(2,1)] by (simp add: not_less [symmetric])
  then show "\<exists>n1 n2. day_number (as_bytes d1) = Inr n1 \<and> day_number (as_bytes d2) = Inr n2 \<and>
      ymd_of_days n1 = Inr (int v1) \<and> (v1 \<le> v2 \<longleftrightarrow> n1 \<le> n2)"
    using n e by simp
qed

theorem circuit_dates_are_days_witness:
  "calendar_date (ref_circomlib (\<lambda>_. replicate 32 (CHR 0x00))) ref_comparators (map byte_val ''2026-09-25'') \<noteq> None"
proof -
  have lib: "circomlib_ok (\<lambda>_. replicate 32 (CHR 0x00)) (ref_circomlib (\<lambda>_. replicate 32 (CHR 0x00)))"
    by (rule ref_circomlib_ok) simp
  show ?thesis
    using circuit_dates_are_days [OF lib ref_comparators_ok byte_vals_signals(1) byte_vals_signals(1),
        of "''2026-09-25''" "''2026-09-25''"] byte_vals_signals(2,3) sample_date(1)
    by (metis is_ok_simps(1))
qed

end
