(* ===== verification/Phi_A.thy ===== *)
theory Phi_A
  imports Circom_Numbers
begin

section \<open>The circuit phi_A\<close>

text \<open>
  Model of \<open>circuits/src/phi_a.circom\<close> (the statement that an Apply proof proves) over the components of
  \<open>Circom\<close> and \<open>Circom_Numbers\<close>: the constraints as a predicate on the parameters, the seven public inputs
  and the private inputs. The main lemma reads it back as bytes: the constraints hold exactly when the private
  input opens the two attested commitments, its account opens c_B and its income is a decimal number of at
  least the required multiple of the amount.
\<close>

record phi_a_params =
  phia_account_w :: nat
  phia_income_w :: nat
  phia_padding :: char
  phia_multiple :: nat
  phia_amount_bits :: nat

record phi_a_witness =
  wa_account :: "nat list"
  wa_income :: "nat list"
  wa_account_blinder :: "nat list"
  wa_income_blinder :: "nat list"
  wa_salt :: nat

text \<open>Template parameters are field elements: the asserts compute modulo the field order, and circom compares
  the representatives that lie around zero.\<close>

definition circom_val :: "nat \<Rightarrow> int" where
  "circom_val x = (if x \<le> BN254_R div 2 then int x else int x - int BN254_R)"

definition phi_a_asserts :: "phi_a_params \<Rightarrow> bool" where
  "phi_a_asserts P \<longleftrightarrow>
     phia_account_w P \<le> 31 \<and>
     circom_val (field_mod (10 ^ phia_income_w P)) < circom_val (field_mod (2 ^ 100)) \<and>
     circom_val (phia_multiple P) > 0 \<and>
     circom_val (field_mod (phia_multiple P * field_mod (2 ^ phia_amount_bits P))) < circom_val (field_mod (2 ^ 100))"

definition phi_a_shape :: "phi_a_params \<Rightarrow> nat list \<Rightarrow> phi_a_witness \<Rightarrow> bool" where
  "phi_a_shape P xs w \<longleftrightarrow>
     length xs = 7 \<and> length (wa_account w) = phia_account_w P \<and> length (wa_income w) = phia_income_w P \<and>
     length (wa_account_blinder w) = 16 \<and> length (wa_income_blinder w) = 16 \<and>
     list_all is_signal (xs @ wa_account w @ wa_income w @ wa_account_blinder w @ wa_income_blinder w @ [wa_salt w])"

definition phi_a :: "circomlib \<Rightarrow> comparators \<Rightarrow> phi_a_params \<Rightarrow> nat list \<Rightarrow> phi_a_witness \<Rightarrow> bool" where
  "phi_a lib cm P xs w \<longleftrightarrow>
     phi_a_asserts P \<and> phi_a_shape P xs w \<and>
     open_commitment lib (wa_account w) (wa_account_blinder w) = Some (xs ! 0, xs ! 1) \<and>
     open_commitment lib (wa_income w) (wa_income_blinder w) = Some (xs ! 2, xs ! 3) \<and>
     wa_account w \<noteq> [] \<and> cl_is_equal lib (hd (wa_account w)) (byte_val (phia_padding P)) = 0 \<and>
     cm_poseidon cm (pack_bytes (wa_account w)) (wa_salt w) = xs ! 4 \<and>
     (case decimal_value lib cm (wa_income w) of
        None \<Rightarrow> False
      | Some v \<Rightarrow> cl_num2bits lib (phia_amount_bits P) (xs ! 5) \<noteq> None \<and>
          cm_greater_eq_than cm 100 v (field_mod (phia_multiple P * xs ! 5)) = Some 1)"

subsection \<open>Reading the constraints\<close>

text \<open>The parameters that the circuit generator writes, with a multiple that fits in 64 bits.\<close>

definition phi_a_generated :: "phi_a_params \<Rightarrow> bool" where
  "phi_a_generated P \<longleftrightarrow>
     phia_account_w P \<le> 31 \<and> phia_income_w P \<le> 30 \<and> 0 < phia_multiple P \<and> phia_multiple P < 16 \<and>
     phia_amount_bits P = PHI_A_AMOUNT_BITS"

lemma circom_val_small: "x \<le> BN254_R div 2 \<Longrightarrow> circom_val x = int x"
  by (simp add: circom_val_def)

lemma asserts_generated:
  assumes "phia_amount_bits P = PHI_A_AMOUNT_BITS" and "phia_multiple P < 2 ^ 64" and "phia_income_w P \<le> 75"
  shows "phi_a_asserts P \<longleftrightarrow> phi_a_generated P"
proof -
  let ?m = "phia_multiple P" and ?w = "phia_income_w P"
  have "(10::nat) ^ ?w \<le> 10 ^ 75" using assms(3) by (intro power_increasing) simp_all
  moreover have "(10::nat) ^ 75 \<le> BN254_R div 2" by (simp add: BN254_R_def)
  ultimately have w: "(10::nat) ^ ?w \<le> BN254_R div 2" by linarith
  then have ten: "circom_val (field_mod (10 ^ ?w)) = int (10 ^ ?w)"
    by (subst mod_less) (simp_all add: circom_val_small, simp add: BN254_R_def)
  have digits: "(10::nat) ^ ?w < 2 ^ 100 \<longleftrightarrow> ?w \<le> 30"
  proof
    assume "(10::nat) ^ ?w < 2 ^ 100"
    also have "(2::nat) ^ 100 < 10 ^ 31" by simp
    finally show "?w \<le> 30" using power_less_imp_less_exp [of "10::nat" ?w 31] by simp
  next
    assume "?w \<le> 30"
    then have "(10::nat) ^ ?w \<le> 10 ^ 30" by (intro power_increasing) simp_all
    also have "(10::nat) ^ 30 < 2 ^ 100" by simp
    finally show "(10::nat) ^ ?w < 2 ^ 100" .
  qed
  have m: "?m * 2 ^ 96 \<le> BN254_R div 2" "?m \<le> BN254_R div 2" using assms(2) by (simp_all add: BN254_R_def)
  have two: "field_mod (2 ^ 96) = 2 ^ 96" "circom_val (field_mod (2 ^ 100)) = 2 ^ 100"
    by (simp_all add: circom_val_def BN254_R_def)
  have mul: "circom_val (field_mod (?m * 2 ^ 96)) = int (?m * 2 ^ 96)"
    using m(1) by (subst mod_less) (simp_all add: circom_val_small, simp add: BN254_R_def)
  have "int (?m * 2 ^ 96) < 2 ^ 100 \<longleftrightarrow> ?m < 16" by simp
  moreover have "int (10 ^ ?w) < 2 ^ 100 \<longleftrightarrow> ?w \<le> 30" using digits by (metis of_nat_less_iff of_nat_numeral of_nat_power)
  ultimately show ?thesis
    unfolding phi_a_asserts_def phi_a_generated_def assms(1) PHI_A_AMOUNT_BITS_def two ten mul circom_val_small [OF m(2)]
    by auto
qed

definition phi_a_signals :: "phi_a_public \<Rightarrow> nat list" where
  "phi_a_signals pub = map dec_value (phi_a_inputs pub)"

lemma phi_a_signals_nth:
  "phi_a_signals pub = [be_value (take 16 (a_account_hash pub)), be_value (drop 16 (a_account_hash pub)),
     be_value (take 16 (a_income_hash pub)), be_value (drop 16 (a_income_hash pub)),
     dec_value (a_c_b pub), dec_value (a_amount pub), be_value (a_digest pub) mod BN254_R]"
  by (simp add: phi_a_signals_def phi_a_inputs_def limbs_def bind_value_def)

definition phi_a_bytes :: "phi_a_witness \<Rightarrow> bool" where
  "phi_a_bytes w \<longleftrightarrow> byte_signals (wa_account w @ wa_income w @ wa_account_blinder w @ wa_income_blinder w) \<and>
     is_signal (wa_salt w)"

text \<open>What a private input means for a public instance, as bytes.\<close>

definition shows_income :: "(bytes \<Rightarrow> bytes) \<Rightarrow> comparators \<Rightarrow> phi_a_params \<Rightarrow> phi_a_public \<Rightarrow> phi_a_witness \<Rightarrow> bool" where
  "shows_income sha cm P pub w \<longleftrightarrow>
     (let acct = as_bytes (wa_account w); inc = as_bytes (wa_income w) in
      opens_word sha (a_account_hash pub) acct (as_bytes (wa_account_blinder w)) \<and>
      opens_word sha (a_income_hash pub) inc (as_bytes (wa_income_blinder w)) \<and>
      length acct = phia_account_w P \<and> length inc = phia_income_w P \<and>
      acct \<noteq> [] \<and> hd acct \<noteq> phia_padding P \<and>
      cm_poseidon cm (be_value acct) (wa_salt w) = dec_value (a_c_b pub) \<and>
      all_digits inc \<and> phia_multiple P * dec_value (a_amount pub) \<le> dec_value inc)"

definition phi_a_instance :: "phi_a_public \<Rightarrow> bool" where
  "phi_a_instance pub \<longleftrightarrow> is_word (a_account_hash pub) \<and> is_word (a_income_hash pub) \<and>
     is_signal (dec_value (a_c_b pub)) \<and> dec_value (a_amount pub) < 2 ^ 96"

lemma enough_income:
  assumes "comparators_ok cm" and P: "phi_a_generated P" and "amount < 2 ^ 96" and "v < 10 ^ phia_income_w P"
  shows "cm_greater_eq_than cm 100 v (field_mod (phia_multiple P * amount)) = Some 1 \<longleftrightarrow> phia_multiple P * amount \<le> v"
proof -
  have "(10::nat) ^ phia_income_w P \<le> 10 ^ 30" using P by (intro power_increasing) (simp_all add: phi_a_generated_def)
  also have "(10::nat) ^ 30 < 2 ^ 100" by simp
  finally have v: "v < 2 ^ 100" using assms(4) by linarith
  have "phia_multiple P * amount \<le> 15 * amount" using P by (intro mult_le_mono1) (simp add: phi_a_generated_def)
  also have "\<dots> < 2 ^ 100" using assms(3) by simp
  finally have m: "phia_multiple P * amount < 2 ^ 100" .
  moreover have "(2::nat) ^ 100 < BN254_R" by (simp add: BN254_R_def)
  ultimately have "field_mod (phia_multiple P * amount) = phia_multiple P * amount" by simp
  then show ?thesis using assms(1) v m by (simp add: comparators_ok_def)
qed

lemma byte_signals_append [simp]: "byte_signals (xs @ ys) \<longleftrightarrow> byte_signals xs \<and> byte_signals ys"
  by (simp add: byte_signals_def)

lemma byte_signal: "byte_signals ns \<Longrightarrow> list_all is_signal ns"
  by (auto simp: byte_signals_def list_all_iff is_signal_def BN254_R_def)

lemma word_limb_signals: "is_word h \<Longrightarrow> is_signal (be_value (take 16 h)) \<and> is_signal (be_value (drop 16 h))"
  using limbs_below [of h "dec (be_value (take 16 h))"] limbs_below [of h "dec (be_value (drop 16 h))"]
  by (simp add: limbs_def is_signal_def)

lemma phi_a_iff:
  assumes lib: "circomlib_ok sha lib" and cm: "comparators_ok cm" and P: "phi_a_generated P" and pub: "phi_a_instance pub"
  shows "phi_a lib cm P (phi_a_signals pub) w \<longleftrightarrow> shows_income sha cm P pub w \<and> phi_a_bytes w"
proof -
  have a: "phi_a_asserts P"
    using P asserts_generated [of P] by (simp add: phi_a_generated_def)
  have words: "is_word (a_account_hash pub)" "is_word (a_income_hash pub)" and amount: "dec_value (a_amount pub) < 2 ^ 96"
    using pub by (simp_all add: phi_a_instance_def)
  have sig: "list_all is_signal (phi_a_signals pub)"
  proof -
    have "is_signal (dec_value (a_amount pub))" using amount by (simp add: is_signal_def BN254_R_def)
    moreover have "is_signal (be_value (a_digest pub) mod BN254_R)" by (simp add: is_signal_def BN254_R_def)
    ultimately show ?thesis
      using words [THEN word_limb_signals] pub by (simp add: phi_a_signals_nth phi_a_instance_def)
  qed
  show ?thesis
  proof (cases "phi_a_shape P (phi_a_signals pub) w")
    case False
    then have "\<not> (shows_income sha cm P pub w \<and> phi_a_bytes w)"
      using sig byte_signal
      by (auto simp: phi_a_shape_def shows_income_def Let_def opens_word_def phi_a_bytes_def phi_a_signals_nth)
    then show ?thesis using False by (simp add: phi_a_def)
  next
    case True
    then have len: "length (wa_account w) = phia_account_w P" "length (wa_income w) = phia_income_w P"
        "length (wa_account_blinder w) = 16" "length (wa_income_blinder w) = 16"
      and s: "list_all is_signal (wa_account w @ wa_account_blinder w)"
        "list_all is_signal (wa_income w @ wa_income_blinder w)" "is_signal (wa_salt w)" "list_all is_signal (wa_income w)"
      by (auto simp: phi_a_shape_def)
    note opn = open_word [OF lib s(1) len(3) words(1)] open_word [OF lib s(2) len(4) words(2)]
    have thirty: "phia_account_w P \<le> 31" "phia_income_w P \<le> 30" "phia_amount_bits P = 96"
      using P by (simp_all add: phi_a_generated_def PHI_A_AMOUNT_BITS_def)
    have idx: "phi_a_signals pub ! 0 = be_value (take 16 (a_account_hash pub))"
      "phi_a_signals pub ! 1 = be_value (drop 16 (a_account_hash pub))"
      "phi_a_signals pub ! 2 = be_value (take 16 (a_income_hash pub))"
      "phi_a_signals pub ! 3 = be_value (drop 16 (a_income_hash pub))"
      "phi_a_signals pub ! 4 = dec_value (a_c_b pub)" "phi_a_signals pub ! 5 = dec_value (a_amount pub)"
      by (simp_all add: phi_a_signals_nth)
    have bits: "cl_num2bits lib 96 (dec_value (a_amount pub)) \<noteq> None"
      using lib amount by (simp add: circomlib_ok_def is_signal_def BN254_R_def)
    show ?thesis
    proof (cases "phi_a_bytes w")
      case bytes: True
      then have b: "byte_signals (wa_account w)" "byte_signals (wa_income w)" by (simp_all add: phi_a_bytes_def)
      have num: "(case decimal_value lib cm (wa_income w) of None \<Rightarrow> False
          | Some v \<Rightarrow> cl_num2bits lib (phia_amount_bits P) (phi_a_signals pub ! 5) \<noteq> None \<and>
              cm_greater_eq_than cm 100 v (field_mod (phia_multiple P * phi_a_signals pub ! 5)) = Some 1) \<longleftrightarrow>
        all_digits (as_bytes (wa_income w)) \<and> phia_multiple P * dec_value (a_amount pub) \<le> dec_value (as_bytes (wa_income w))"
      proof (cases "all_digits (as_bytes (wa_income w))")
        case True
        then have d: "list_all digit_signal (wa_income w)" using digit_signals_digits [OF b(2)] by simp
        then have "decimal_value lib cm (wa_income w) = Some (dec_value (as_bytes (wa_income w)))"
          using decimal_value_eq [OF lib cm s(4)] len(2) thirty(2) by simp
        moreover have "dec_value (as_bytes (wa_income w)) < 10 ^ phia_income_w P" using digits_below [OF d] len(2) by simp
        ultimately show ?thesis using bits True enough_income [OF cm P amount] thirty(3) by (simp add: idx)
      next
        case False
        then have "decimal_value lib cm (wa_income w) \<noteq> Some v" for v
          using decimal_value_eq [OF lib cm s(4)] digit_signals_digits [OF b(2)] by simp
        then have "decimal_value lib cm (wa_income w) = None" by auto
        then show ?thesis using False by simp
      qed
      have "pack_bytes (wa_account w) = be_value (as_bytes (wa_account w))"
        using pack_bytes_eq [OF b(1)] len(1) thirty(1) by simp
      then show ?thesis
        using a True bytes opn len first_byte [OF lib b(1), of "phia_padding P"]
        unfolding phi_a_def shows_income_def num Let_def
        by (auto simp: phi_a_bytes_def idx simp del: One_nat_def)
    next
      case False
      then have "\<not> byte_signals (wa_account w @ wa_account_blinder w) \<or> \<not> byte_signals (wa_income w @ wa_income_blinder w)"
        using s(3) by (auto simp: phi_a_bytes_def)
      then show ?thesis using False opn by (auto simp: phi_a_def idx simp del: One_nat_def)
    qed
  qed
qed

text \<open>The parameters in a generated \<open>main\<close> component.\<close>

definition phi_a_params_from_layout :: "record_layout \<Rightarrow> u64 \<Rightarrow> phi_a_params res" where
  "phi_a_params_from_layout l income_multiple =
     ensure (length (record_fields l) = 1) ''phi_A reads a layout with the one field'' (
     ensure (income_multiple > 0) ''the income multiple must be positive'' (
     and_then (width_of l KEY_MONTHLY_INCOME) (\<lambda>w.
     and_then (padding_byte l) (\<lambda>c.
     Inr \<lparr>phia_account_w = account_width l, phia_income_w = w, phia_padding = c,
          phia_multiple = unat income_multiple, phia_amount_bits = PHI_A_AMOUNT_BITS\<rparr>))))"

definition phi_a_args :: "phi_a_params \<Rightarrow> nat list" where
  "phi_a_args P = [phia_account_w P, phia_income_w P, byte_val (phia_padding P), phia_multiple P, phia_amount_bits P]"

lemma main_circom_phi_a_params:
  "main_circom_phi_a l m =
     and_then (phi_a_params_from_layout l m) (\<lambda>P.
     Inr (generated_header (layout_id l) ''gen-phase-circuit-main'' ''phi_a.circom''
       @ ''component main {public [accountHash, incomeHash, cB, amount, bind]} ='' @ nl
       @ ''    PhiA('' @ args_text (phi_a_args P) @ '');'' @ nl))"
  by (auto simp: main_circom_phi_a_def phi_a_params_from_layout_def phi_a_args_def and_then_def ensure_def
      split: sum.splits)

end
