(* ===== verification/Phi_S.thy ===== *)
theory Phi_S
  imports Phi_A
begin

section \<open>The circuit phi_S\<close>

text \<open>
  Model of \<open>circuits/src/phi_s.circom\<close> (the statement that a Settle proof proves): the constraints as a
  predicate on the parameters, the eleven public inputs and the private inputs. The main lemma reads it back as
  bytes: the constraints hold exactly when the private input opens the three attested commitments, the property
  is the one of the transaction data, the tenant opens c_B and the date is a calendar date whose number is at
  least the engagement day.
\<close>

record phi_s_params =
  phis_property_w :: nat
  phis_tenant_w :: nat
  phis_padding :: char

record phi_s_witness =
  ws_property :: "nat list"
  ws_tenant :: "nat list"
  ws_date :: "nat list"
  ws_property_blinder :: "nat list"
  ws_tenant_blinder :: "nat list"
  ws_date_blinder :: "nat list"
  ws_salt :: nat

definition phi_s_asserts :: "phi_s_params \<Rightarrow> bool" where
  "phi_s_asserts P \<longleftrightarrow> phis_property_w P \<le> 32 \<and> 16 < phis_property_w P \<and> phis_tenant_w P \<le> 31"

definition phi_s_shape :: "phi_s_params \<Rightarrow> nat list \<Rightarrow> phi_s_witness \<Rightarrow> bool" where
  "phi_s_shape P xs w \<longleftrightarrow>
     length xs = 11 \<and> length (ws_property w) = phis_property_w P \<and> length (ws_tenant w) = phis_tenant_w P \<and>
     length (ws_date w) = 10 \<and> length (ws_property_blinder w) = 16 \<and> length (ws_tenant_blinder w) = 16 \<and>
     length (ws_date_blinder w) = 16 \<and>
     list_all is_signal (xs @ ws_property w @ ws_tenant w @ ws_date w @ ws_property_blinder w @
       ws_tenant_blinder w @ ws_date_blinder w @ [ws_salt w])"

definition phi_s :: "circomlib \<Rightarrow> comparators \<Rightarrow> phi_s_params \<Rightarrow> nat list \<Rightarrow> phi_s_witness \<Rightarrow> bool" where
  "phi_s lib cm P xs w \<longleftrightarrow>
     phi_s_asserts P \<and> phi_s_shape P xs w \<and>
     open_commitment lib (ws_property w) (ws_property_blinder w) = Some (xs ! 0, xs ! 1) \<and>
     open_commitment lib (ws_tenant w) (ws_tenant_blinder w) = Some (xs ! 2, xs ! 3) \<and>
     open_commitment lib (ws_date w) (ws_date_blinder w) = Some (xs ! 4, xs ! 5) \<and>
     pack_bytes (take 16 (ws_property w)) = xs ! 6 \<and>
     field_mod (pack_bytes (drop 16 (ws_property w)) * 256 ^ (32 - phis_property_w P)) = xs ! 7 \<and>
     ws_tenant w \<noteq> [] \<and> cl_is_equal lib (hd (ws_tenant w)) (byte_val (phis_padding P)) = 0 \<and>
     cm_poseidon cm (pack_bytes (ws_tenant w)) (ws_salt w) = xs ! 8 \<and>
     (case calendar_date lib cm (ws_date w) of
        None \<Rightarrow> False
      | Some dated \<Rightarrow> cl_num2bits lib 27 (xs ! 9) \<noteq> None \<and> cm_greater_eq_than cm 27 dated (xs ! 9) = Some 1)"

subsection \<open>Reading the constraints\<close>

definition phi_s_signals :: "phi_s_public \<Rightarrow> nat list" where
  "phi_s_signals pub = map dec_value (phi_s_inputs pub)"

lemma phi_s_signals_nth:
  "phi_s_signals pub = [be_value (take 16 (s_property_hash pub)), be_value (drop 16 (s_property_hash pub)),
     be_value (take 16 (s_tenant_hash pub)), be_value (drop 16 (s_tenant_hash pub)),
     be_value (take 16 (s_date_hash pub)), be_value (drop 16 (s_date_hash pub)),
     be_value (take 16 (s_property_id pub)), be_value (drop 16 (s_property_id pub)),
     dec_value (s_c_b pub), s_engagement_day pub, be_value (s_digest pub) mod BN254_R]"
  by (simp add: phi_s_signals_def phi_s_inputs_def limbs_def bind_value_def)

definition phi_s_bytes :: "phi_s_witness \<Rightarrow> bool" where
  "phi_s_bytes w \<longleftrightarrow> byte_signals (ws_property w @ ws_tenant w @ ws_date w @ ws_property_blinder w @
     ws_tenant_blinder w @ ws_date_blinder w) \<and> is_signal (ws_salt w)"

definition shows_tenancy :: "(bytes \<Rightarrow> bytes) \<Rightarrow> comparators \<Rightarrow> phi_s_params \<Rightarrow> phi_s_public \<Rightarrow> phi_s_witness \<Rightarrow> bool" where
  "shows_tenancy sha cm P pub w \<longleftrightarrow>
     (let prp = as_bytes (ws_property w); ten = as_bytes (ws_tenant w); dat = as_bytes (ws_date w) in
      opens_word sha (s_property_hash pub) prp (as_bytes (ws_property_blinder w)) \<and>
      opens_word sha (s_tenant_hash pub) ten (as_bytes (ws_tenant_blinder w)) \<and>
      opens_word sha (s_date_hash pub) dat (as_bytes (ws_date_blinder w)) \<and>
      length prp = phis_property_w P \<and> length ten = phis_tenant_w P \<and>
      s_property_id pub = prp @ replicate (32 - phis_property_w P) (CHR 0x00) \<and>
      ten \<noteq> [] \<and> hd ten \<noteq> phis_padding P \<and>
      cm_poseidon cm (be_value ten) (ws_salt w) = dec_value (s_c_b pub) \<and>
      (\<exists>n. day_number dat = Inr n) \<and> int (s_engagement_day pub) \<le> date_digits dat)"

definition phi_s_instance :: "phi_s_public \<Rightarrow> bool" where
  "phi_s_instance pub \<longleftrightarrow>
     list_all is_word [s_property_hash pub, s_tenant_hash pub, s_date_hash pub, s_property_id pub] \<and>
     is_signal (dec_value (s_c_b pub)) \<and> s_engagement_day pub < 2 ^ 27"

lemma date_digits_range:
  assumes "day_number s = Inr n"
  shows "0 \<le> date_digits s \<and> date_digits s < 2 ^ 27"
proof -
  obtain ys ms ds where s: "s = ys @ CHR ''-'' # ms @ CHR ''-'' # ds"
    and len: "length ys = 4" "length ms = 2" "length ds = 2" and digs: "list_all all_digits [ys, ms, ds]"
    using assms by (auto simp: day_number_parts Let_def)
  have "dec_value ys < 10 ^ 4" "dec_value ms < 10 ^ 2" "dec_value ds < 10 ^ 2"
    using digs len dec_value_bound [of ys] dec_value_bound [of ms] dec_value_bound [of ds] by simp_all
  then have "dec_value ys * 10000 + dec_value ms * 100 + dec_value ds < 2 ^ 27" by simp
  then show ?thesis unfolding s date_digits_parts [OF digs len(2,3)] by simp
qed

lemma date_constraint:
  assumes lib: "circomlib_ok sha lib" and cm: "comparators_ok cm" and "list_all is_signal date" and day: "e < 2 ^ 27"
    and bytes: "byte_signals date"
  shows "(case calendar_date lib cm date of
        None \<Rightarrow> False
      | Some d \<Rightarrow> cl_num2bits lib 27 e \<noteq> None \<and> cm_greater_eq_than cm 27 d e = Some 1) \<longleftrightarrow>
    (\<exists>n. day_number (as_bytes date) = Inr n) \<and> int e \<le> date_digits (as_bytes date)"
proof (cases "calendar_date lib cm date")
  case None
  then have none: "\<not> (byte_signals date \<and> (\<exists>n. day_number (as_bytes date) = Inr n) \<and> date_digits (as_bytes date) = int v)" for v
    using calendar_date_eq [OF assms(1-3)] by simp
  have "\<exists>v. date_digits (as_bytes date) = int v" if "day_number (as_bytes date) = Inr n" for n
    using date_digits_range [OF that] by (metis nonneg_int_cases)
  with none bytes show ?thesis by (auto simp: None)
next
  case (Some v)
  then have v: "\<exists>n. day_number (as_bytes date) = Inr n" "date_digits (as_bytes date) = int v"
    using calendar_date_eq [OF assms(1-3)] by simp_all
  then have "v < 2 ^ 27" using date_digits_range by (metis of_nat_less_iff of_nat_numeral of_nat_power)
  then have "cm_greater_eq_than cm 27 v e = Some (if e \<le> v then 1 else 0)" using cm day by (simp add: comparators_ok_def)
  moreover have "cl_num2bits lib 27 e \<noteq> None" using lib day by (simp add: circomlib_ok_def is_signal_def BN254_R_def)
  ultimately show ?thesis using Some v by simp
qed

lemma phi_s_iff:
  assumes lib: "circomlib_ok sha lib" and cm: "comparators_ok cm" and P: "phi_s_asserts P" and pub: "phi_s_instance pub"
  shows "phi_s lib cm P (phi_s_signals pub) w \<longleftrightarrow> shows_tenancy sha cm P pub w \<and> phi_s_bytes w"
proof -
  have words: "is_word (s_property_hash pub)" "is_word (s_tenant_hash pub)" "is_word (s_date_hash pub)"
      "is_word (s_property_id pub)" and day: "s_engagement_day pub < 2 ^ 27"
    using pub by (simp_all add: phi_s_instance_def)
  have sig: "list_all is_signal (phi_s_signals pub)"
  proof -
    have "is_signal (s_engagement_day pub)" using day by (simp add: is_signal_def BN254_R_def)
    moreover have "is_signal (be_value (s_digest pub) mod BN254_R)" by (simp add: is_signal_def BN254_R_def)
    ultimately show ?thesis
      using words [THEN word_limb_signals] pub by (simp add: phi_s_signals_nth phi_s_instance_def)
  qed
  show ?thesis
  proof (cases "phi_s_shape P (phi_s_signals pub) w")
    case False
    have ten: "length s = 10" if "day_number s = Inr n" for s n using that by (auto simp: day_number_parts)
    have "length (ws_date w) = 10" if "day_number (as_bytes (ws_date w)) = Inr n" for n using ten [OF that] by simp
    then have "\<not> (shows_tenancy sha cm P pub w \<and> phi_s_bytes w)"
      using sig byte_signal False
      by (auto simp: phi_s_shape_def shows_tenancy_def Let_def opens_word_def phi_s_bytes_def phi_s_signals_nth)
    then show ?thesis using False by (simp add: phi_s_def)
  next
    case True
    then have len: "length (ws_property w) = phis_property_w P" "length (ws_tenant w) = phis_tenant_w P"
        "length (ws_property_blinder w) = 16" "length (ws_tenant_blinder w) = 16" "length (ws_date_blinder w) = 16"
      and s: "list_all is_signal (ws_property w @ ws_property_blinder w)"
        "list_all is_signal (ws_tenant w @ ws_tenant_blinder w)" "list_all is_signal (ws_date w @ ws_date_blinder w)"
        "is_signal (ws_salt w)" "list_all is_signal (ws_date w)"
      by (auto simp: phi_s_shape_def)
    note opn = open_word [OF lib s(1) len(3) words(1)] open_word [OF lib s(2) len(4) words(2)]
      open_word [OF lib s(3) len(5) words(3)]
    have wd: "16 < phis_property_w P" "phis_property_w P \<le> 32" "phis_tenant_w P \<le> 31"
      using P by (simp_all add: phi_s_asserts_def)
    have idx: "phi_s_signals pub ! 0 = be_value (take 16 (s_property_hash pub))"
      "phi_s_signals pub ! 1 = be_value (drop 16 (s_property_hash pub))"
      "phi_s_signals pub ! 2 = be_value (take 16 (s_tenant_hash pub))"
      "phi_s_signals pub ! 3 = be_value (drop 16 (s_tenant_hash pub))"
      "phi_s_signals pub ! 4 = be_value (take 16 (s_date_hash pub))"
      "phi_s_signals pub ! 5 = be_value (drop 16 (s_date_hash pub))"
      "phi_s_signals pub ! 6 = be_value (take 16 (s_property_id pub))"
      "phi_s_signals pub ! 7 = be_value (drop 16 (s_property_id pub))"
      "phi_s_signals pub ! 8 = dec_value (s_c_b pub)" "phi_s_signals pub ! 9 = s_engagement_day pub"
      by (simp_all add: phi_s_signals_nth)
    show ?thesis
    proof (cases "phi_s_bytes w")
      case bytes: True
      then have b: "byte_signals (ws_property w)" "byte_signals (ws_tenant w)" "byte_signals (ws_date w)"
        by (simp_all add: phi_s_bytes_def)
      have pid: "pack_bytes (take 16 (ws_property w)) = be_value (take 16 (s_property_id pub)) \<and>
          field_mod (pack_bytes (drop 16 (ws_property w)) * 256 ^ (32 - phis_property_w P)) =
            be_value (drop 16 (s_property_id pub)) \<longleftrightarrow>
        s_property_id pub = as_bytes (ws_property w) @ replicate (32 - phis_property_w P) (CHR 0x00)"
        using property_word [OF wd(1,2) b(1) len(1) words(4)] property_word_rev [OF wd(1,2) b(1) len(1)] by blast
      note dat = date_constraint [OF lib cm s(5) day b(3)]
      have "pack_bytes (ws_tenant w) = be_value (as_bytes (ws_tenant w))"
        using pack_bytes_eq [OF b(2)] len(2) wd(3) by simp
      then show ?thesis
        using P True bytes opn len first_byte [OF lib b(2), of "phis_padding P"] pid
        unfolding phi_s_def shows_tenancy_def Let_def idx dat
        by (auto simp: phi_s_bytes_def simp del: One_nat_def)
    next
      case False
      then have "\<not> byte_signals (ws_property w @ ws_property_blinder w) \<or> \<not> byte_signals (ws_tenant w @ ws_tenant_blinder w)
          \<or> \<not> byte_signals (ws_date w @ ws_date_blinder w)"
        using s(4) by (auto simp: phi_s_bytes_def)
      then show ?thesis using False opn by (auto simp: phi_s_def idx simp del: One_nat_def)
    qed
  qed
qed

text \<open>The parameters in a generated \<open>main\<close> component.\<close>

definition phi_s_params_from_layout :: "record_layout \<Rightarrow> phi_s_params res" where
  "phi_s_params_from_layout l =
     (let keys = map key (record_fields l) in
      ensure (keys = [KEY_PROPERTY_ID, KEY_TENANT, KEY_RECORD_DATE])
        ''phi_S reads a layout with the fields propertyId, tenant, recordDate in that order'' (
      and_then (width_of l KEY_RECORD_DATE) (\<lambda>w.
      ensure (w = 10) ''recordDate is YYYY-MM-DD'' (
      and_then (width_of l KEY_TENANT) (\<lambda>w.
      ensure (w = account_width l) ''a tenant identifier is an account identifier'' (
      and_then (width_of l KEY_PROPERTY_ID) (\<lambda>property_width.
      and_then (width_of l KEY_TENANT) (\<lambda>tenant_width.
      and_then (padding_byte l) (\<lambda>c.
      Inr \<lparr>phis_property_w = property_width, phis_tenant_w = tenant_width, phis_padding = c\<rparr>)))))))))"

definition phi_s_args :: "phi_s_params \<Rightarrow> nat list" where
  "phi_s_args P = [phis_property_w P, phis_tenant_w P, byte_val (phis_padding P)]"

lemma main_circom_phi_s_params:
  "main_circom_phi_s l =
     and_then (phi_s_params_from_layout l) (\<lambda>P.
     Inr (generated_header (layout_id l) ''gen-phase-circuit-main'' ''phi_s.circom''
        @ ''component main {public [propertyHash, tenantHash, dateHash, propertyId, cB, ''
        @ ''engagementDay, bind]} ='' @ nl
        @ ''    PhiS('' @ args_text (phi_s_args P) @ '');'' @ nl))"
  by (auto simp: main_circom_phi_s_def phi_s_params_from_layout_def phi_s_args_def and_then_def ensure_def Let_def
      split: sum.splits)

end
