(* ===== verification/Phase_Signatures.thy ===== *)
theory Phase_Signatures
  imports Ownership Phi_S
begin

section \<open>What an Apply and a Settle signature prove\<close>

text \<open>
  The composition of the policy verifier, the presentation checks, the record layouts and the circuits phi_A
  and phi_S, as \<open>Ownership\<close> does for Register: what the notary's signature on an Apply or a Settle statement
  says of the session it was given for, and that the tenant of a settled tenancy is the applicant when the two
  statements carry the same c_B. Soundness of the proof system is \<open>phase_extracts\<close>, with the private input named
  by an extractor; the conclusions name the messages that would collide under the hash, and the pair of inputs
  that would collide under Poseidon.
\<close>

definition phase_extracts ::
    "(('g1, 'g2) groth16_proof \<Rightarrow> nat list \<Rightarrow> 'w) \<Rightarrow> (nat list \<Rightarrow> 'w \<Rightarrow> bool)
      \<Rightarrow> ('g1, 'g2, 'pvk) arkworks \<Rightarrow> 'pvk \<Rightarrow> bool" where
  "phase_extracts extract circuit ark pvk \<longleftrightarrow>
     (\<forall>prf xs. verify_proof ark pvk prf xs = Inr True \<longrightarrow> circuit xs (extract prf xs))"

definition hash_collision :: "(bytes \<Rightarrow> bytes) \<Rightarrow> bytes list \<Rightarrow> bytes list \<Rightarrow> bool" where
  "hash_collision sha ms ns \<longleftrightarrow> list_ex (\<lambda>(m, n). m \<noteq> n \<and> sha m = sha n) (zip ms ns)"

definition poseidon_collision :: "comparators \<Rightarrow> nat \<times> nat \<Rightarrow> nat \<times> nat \<Rightarrow> bool" where
  "poseidon_collision cm p q \<longleftrightarrow> p \<noteq> q \<and> cm_poseidon cm (fst p) (snd p) = cm_poseidon cm (fst q) (snd q)"

definition phi_a_messages :: "phi_a_witness \<Rightarrow> bytes list" where
  "phi_a_messages w =
     [as_bytes (wa_account w) @ as_bytes (wa_account_blinder w), as_bytes (wa_income w) @ as_bytes (wa_income_blinder w)]"

definition phi_s_messages :: "phi_s_witness \<Rightarrow> bytes list" where
  "phi_s_messages w =
     [as_bytes (ws_property w) @ as_bytes (ws_property_blinder w), as_bytes (ws_tenant w) @ as_bytes (ws_tenant_blinder w),
      as_bytes (ws_date w) @ as_bytes (ws_date_blinder w)]"

subsection \<open>The session of a single record\<close>

lemma opened_range: "open_range bs r b = Inr x \<Longrightarrow> slice bs r = fo_plaintext x \<and> fo_blinder x = b"
  by (auto simp: open_range_def index_range_def and_then_Inr_iff split: if_splits)

lemma record_openings_Inr:
  assumes "validate_record_layout l = Inr ()" and "record_openings l acct values blinders = Inr ops"
  shows "length ops = 1 + length (record_fields l)" and "length values = length (record_fields l)"
    and "pad l acct (account_width l) = Inr (fo_plaintext (ops ! 0))"
    and "\<And>j. j < length (record_fields l) \<Longrightarrow>
      pad l (values ! j) (width (record_fields l ! j)) = Inr (fo_plaintext (ops ! Suc j))"
    and "map fo_blinder ops = blinders"
proof -
  have l: "valid_record_layout l" using assms(1) by (simp add: valid_record_layout_def)
  obtain x where x: "render_record l acct values = Inr x"
    and n: "length blinders = length (record_hidden (record_byte_ranges x))"
    and ops: "collect_res (\<lambda>(r, b). open_range (record_bytes x) r b)
      (zip (record_hidden (record_byte_ranges x)) blinders) = Inr ops"
    using assms(2) by (auto simp: record_openings_def and_then_Inr_iff ensure_Inr_iff Let_def)
  obtain a vs where "x = record_rendering l a vs" using render_record_Inr [OF l x] by metis
  then have h: "length (record_hidden (record_byte_ranges x)) = 1 + length (record_fields l)"
    by (simp add: record_rendering_simps record_hidden_segments_def)
  then show len: "length ops = 1 + length (record_fields l)" using collect_res_length [OF ops] n by simp
  have at: "slice (record_bytes x) (record_hidden (record_byte_ranges x) ! i) = fo_plaintext (ops ! i) \<and>
      fo_blinder (ops ! i) = blinders ! i"
    if "i < 1 + length (record_fields l)" for i
  proof -
    have "open_range (record_bytes x) (record_hidden (record_byte_ranges x) ! i) (blinders ! i) = Inr (ops ! i)"
      using collect_res_nth [OF ops, of i] that h n by simp
    then show ?thesis using opened_range by metis
  qed
  note vals = render_record_values [OF assms(1) x]
  then show "length values = length (record_fields l)" by simp
  show "pad l acct (account_width l) = Inr (fo_plaintext (ops ! 0))"
    using at [of 0] vals by (auto simp: record_hidden_def holds_def)
  show "pad l (values ! j) (width (record_fields l ! j)) = Inr (fo_plaintext (ops ! Suc j))"
    if "j < length (record_fields l)" for j
    using at [of "Suc j"] vals that by (auto simp: record_hidden_def holds_def)
  have "fo_blinder (ops ! i) = blinders ! i" if "i < 1 + length (record_fields l)" for i
    using at [OF that] by simp
  then show "map fo_blinder ops = blinders" using len n h by (intro nth_equalityI) simp_all
qed

lemma openings_same:
  assumes "hash_collision sha ms (map message_of ops) = False" and "i < length ops" and "length ms = length ops"
    and "ms ! i = m @ b" and "opens_word sha h m b" and "h = opening_commitment sha (ops ! i)"
    and "length (fo_blinder (ops ! i)) = 16"
  shows "m = fo_plaintext (ops ! i)" and "b = fo_blinder (ops ! i)"
proof -
  have "\<not> (m @ b \<noteq> message_of (ops ! i) \<and> sha (m @ b) = sha (message_of (ops ! i)))"
    using assms(1-4) by (auto simp: hash_collision_def list_ex_length)
  from opened_same [OF assms(5,6,7) this] show "m = fo_plaintext (ops ! i)" "b = fo_blinder (ops ! i)" by simp_all
qed

lemma not_blank:
  assumes "validate_record_layout l = Inr ()" and "pad l v w = Inr u" and "u \<noteq> []" and "hd u \<noteq> hd (padding l)"
  shows "v \<noteq> []"
proof
  assume "v = []"
  have "valid_padding l" using valid_record_padding assms(1) by (simp add: valid_record_layout_def)
  then obtain c where "padding l = [c]" "pad l [] w = Inr (replicate w c)" using pad_blank by blast
  with assms(2-4) \<open>v = []\<close> show False by (cases w) auto
qed

lemma padding_byte_hd: "padding_byte l = Inr c \<Longrightarrow> c = hd (padding l)"
  by (cases "padding l") (auto simp: padding_byte_def index_at_def)

lemma width_of_position: "width_of l k = Inr w \<Longrightarrow> position (\<lambda>f. key f = k) (record_fields l) = Some j \<Longrightarrow>
    w = width (record_fields l ! j)"
  by (auto simp: width_of_def index_of_def and_then_Inr_iff index_at_def split: if_splits)

subsection \<open>Apply\<close>

definition apply_public :: "('p, 'g1, 'g2) apply_request \<Rightarrow> attested_shape \<Rightarrow> bytes \<Rightarrow> phi_a_public" where
  "apply_public q a d =
     \<lparr>a_account_hash = as_hidden_hashes a ! 0, a_income_hash = as_hidden_hashes a ! 1,
      a_c_b = dec (be_value (app_c_b (aq_statement q))),
      a_amount = dec (unat (tx_amount (app_tx_data (aq_statement q)))), a_digest = d\<rparr>"

text \<open>A session in which the source rendered an income record for an account, whose hidden values the
  presentation of the request attests.\<close>

definition apply_session ::
    "(bytes \<Rightarrow> bytes) \<Rightarrow> ('p, 'vk, 'att, 'rs, 'g1, 'g2, 'pvk, 'sk) notary_env \<Rightarrow> ('vk, 'pvk, 'sk) policy_verifier
      \<Rightarrow> ('p, 'g1, 'g2) apply_request \<Rightarrow> 'pvk apply_policy \<Rightarrow> attested_shape \<Rightarrow> bytes \<Rightarrow> bytes \<Rightarrow> field_opening list \<Rightarrow> bool"
    where
  "apply_session sha env pv q policy a acct income ops \<longleftrightarrow>
     pv_apply_policies pv (app_policy_id (aq_statement q)) = Some policy \<and>
     validate_record_layout (ap_layout policy) = Inr () \<and>
     (\<exists>sh. record_shape (ap_layout policy) [] = Inr sh \<and>
       check_shape (env_tlsn env) (aq_presentation q)
         \<lparr>exp_shape = sh, exp_attestation_key = pv_attestation_key pv,
          exp_root_certs = pv_root_certs pv, exp_max_session_secs = pv_max_session_secs pv\<rparr> = Inr a) \<and>
     as_hidden_hashes a = map (opening_commitment sha) ops \<and>
     (\<exists>blinders. record_openings (ap_layout policy) acct [income] blinders = Inr ops \<and>
       list_all (\<lambda>b. length b = 16) blinders)"

lemma phi_a_new_Inr:
  "phi_a_new ah ih cb amount d = Inr pub \<longleftrightarrow>
     unat amount < 2 ^ 96 \<and> be_value cb < BN254_R \<and>
     pub = \<lparr>a_account_hash = ah, a_income_hash = ih, a_c_b = dec (be_value cb), a_amount = dec (unat amount), a_digest = d\<rparr>"
  by (auto simp: phi_a_new_def ensure_Inr_iff and_then_Inr_iff field_element_def PHI_A_AMOUNT_BITS_def word_less_nat_alt)

lemma checked_shows_income:
  assumes lib: "circomlib_ok sha lib" and cm: "comparators_ok cm"
    and ses: "apply_session sha env pv q policy a acct income ops"
    and P: "phi_a_params_from_layout (ap_layout policy) m = Inr P"
    and g: "phase_extracts extract (phi_a lib cm P) (env_ark env) (verifier_pvk (ap_verifier policy))"
    and ok: "check_apply env pv q = Inr d" and w: "w = extract (aq_proof q) (phi_a_signals (apply_public q a d))"
  shows "shows_income sha cm P (apply_public q a d) w"
proof -
  obtain ah ih public where hs: "as_hidden_hashes a = [ah, ih]"
    and pub: "phi_a_new ah ih (app_c_b (aq_statement q)) (tx_amount (app_tx_data (aq_statement q))) d = Inr public"
    and v: "groth16_verify (env_ark env) (ap_verifier policy) (aq_proof q) (phi_a_inputs public) = Inr True"
    using ok ses by (auto simp: check_apply_def apply_session_def Let_def and_then_Inr_iff ensure_Inr_iff ensure_unsigned_def)
  have eq: "public = apply_public q a d" using pub by (simp add: phi_a_new_Inr apply_public_def hs)
  have sat: "phi_a lib cm P (phi_a_signals (apply_public q a d)) w"
    using g groth16_verify_values [OF v] by (simp add: phase_extracts_def w eq phi_a_signals_def)
  have "length ah = 32" "length ih = 32"
    using hs ses lib by (auto simp: apply_session_def opening_commitment_def circomlib_ok_def Cons_eq_map_conv)
  then have inst: "phi_a_instance (apply_public q a d)"
    using pub hs by (simp add: phi_a_instance_def apply_public_def phi_a_new_Inr is_word_def is_signal_def)
  have gen: "phi_a_generated P"
  proof -
    have "phia_amount_bits P = PHI_A_AMOUNT_BITS" "phia_multiple P < 2 ^ 64"
      using P unsigned_less [of m, where 'a = nat]
      by (auto simp: phi_a_params_from_layout_def ensure_Inr_iff and_then_Inr_iff)
    moreover have "phia_income_w P \<le> 75"
      using sat by (auto simp: phi_a_def phi_a_shape_def decimal_value_def split: option.splits)
    ultimately show ?thesis using asserts_generated sat by (auto simp: phi_a_def)
  qed
  show ?thesis using phi_a_iff [OF lib cm gen inst] sat by simp
qed

definition apply_witness ::
    "(('g1, 'g2) groth16_proof \<Rightarrow> nat list \<Rightarrow> phi_a_witness) \<Rightarrow> ('p, 'vk, 'att, 'rs, 'g1, 'g2, 'pvk, 'sk) notary_env
      \<Rightarrow> ('vk, 'pvk, 'sk) policy_verifier \<Rightarrow> ('p, 'g1, 'g2) apply_request \<Rightarrow> attested_shape \<Rightarrow> phi_a_witness" where
  "apply_witness extract env pv q a =
     extract (aq_proof q) (phi_a_signals (apply_public q a
       (digest (env_eip712_hash env) (Apply_stmt (aq_statement q)) (pv_domain pv))))"

lemma apply_signed_facts:
  assumes lib: "circomlib_ok sha lib" and cm: "comparators_ok cm"
    and ses: "apply_session sha env pv q policy a acct income ops"
    and P: "phi_a_params_from_layout (ap_layout policy) m = Inr P"
    and g: "phase_extracts extract (phi_a lib cm P) (env_ark env) (verifier_pvk (ap_verifier policy))"
    and signed: "sign_apply env io pv q = (pv', Inr sigma)"
    and w: "w = apply_witness extract env pv q a"
    and free: "\<not> hash_collision sha (phi_a_messages w) (map message_of ops)"
  shows "\<exists>pa pi. acct \<noteq> [] \<and> pad (ap_layout policy) acct (account_width (ap_layout policy)) = Inr pa \<and>
    pad (ap_layout policy) income (phia_income_w P) = Inr pi \<and>
    cm_poseidon cm (be_value pa) (wa_salt w) = be_value (app_c_b (aq_statement q)) \<and>
    all_digits pi \<and> unat m * unat (tx_amount (app_tx_data (aq_statement q))) \<le> dec_value pi"
proof -
  obtain d where ok: "check_apply env pv q = Inr d" using signed by (auto simp: sign_apply_def split: sum.splits)
  then have d: "d = digest (env_eip712_hash env) (Apply_stmt (aq_statement q)) (pv_domain pv)"
    using check_request_digest [of env pv "Sign_apply q" d] by simp
  note s = checked_shows_income [OF lib cm ses P g ok w [unfolded apply_witness_def, folded d], unfolded shows_income_def Let_def]
  let ?l = "ap_layout policy"
  obtain blinders where opn: "record_openings ?l acct [income] blinders = Inr ops" and bl: "list_all (\<lambda>b. length b = 16) blinders"
    and l: "validate_record_layout ?l = Inr ()" and hs: "as_hidden_hashes a = map (opening_commitment sha) ops"
    using ses by (auto simp: apply_session_def)
  note o1 = record_openings_Inr [OF l opn]
  have n: "length (record_fields ?l) = 1" "length ops = 2" using o1(1,2) by simp_all
  have b16: "length (fo_blinder (ops ! i)) = 16" if "i < 2" for i
    using bl n(2) that unfolding o1(5) [symmetric] by (simp add: list_all_length)
  have acct: "as_bytes (wa_account w) = fo_plaintext (ops ! 0)"
    using openings_same(1) [of sha "phi_a_messages w" ops 0, OF _ _ _ _ conjunct1 [OF s]] free n b16 hs
    by (simp add: phi_a_messages_def apply_public_def)
  have inc: "as_bytes (wa_income w) = fo_plaintext (ops ! 1)"
    using openings_same(1) [of sha "phi_a_messages w" ops 1, OF _ _ _ _ conjunct1 [OF conjunct2 [OF s]]] free n b16 hs
    by (simp add: phi_a_messages_def apply_public_def)
  have pa: "pad ?l acct (account_width ?l) = Inr (as_bytes (wa_account w))" using o1(3) acct by simp
  have wid: "phia_income_w P = width (record_fields ?l ! 0)" and padc: "phia_padding P = hd (padding ?l)"
    and m: "phia_multiple P = unat m"
    using P n(1) padding_byte_hd [of ?l]
    by (auto simp: phi_a_params_from_layout_def ensure_Inr_iff and_then_Inr_iff width_of_def index_of_def index_at_def
        length_Suc_conv split: if_splits)
  have pi: "pad ?l income (phia_income_w P) = Inr (as_bytes (wa_income w))" using o1(4) [of 0] inc n(1) wid by simp
  have "acct \<noteq> []" using not_blank [OF l pa] s padc by auto
  then show ?thesis using pa pi s m by (auto simp: apply_public_def)
qed

subsection \<open>Settle\<close>

definition settle_public :: "('p, 'g1, 'g2) settle_request \<Rightarrow> attested_shape \<Rightarrow> nat \<Rightarrow> bytes \<Rightarrow> phi_s_public" where
  "settle_public q a e d =
     \<lparr>s_property_hash = as_hidden_hashes a ! 1, s_tenant_hash = as_hidden_hashes a ! 2, s_date_hash = as_hidden_hashes a ! 3,
      s_property_id = tx_property_id (set_tx_data (sq_statement q)), s_c_b = dec (be_value (set_c_b (sq_statement q))),
      s_engagement_day = e, s_digest = d\<rparr>"

definition settle_session ::
    "(bytes \<Rightarrow> bytes) \<Rightarrow> ('p, 'vk, 'att, 'rs, 'g1, 'g2, 'pvk, 'sk) notary_env \<Rightarrow> ('vk, 'pvk, 'sk) policy_verifier
      \<Rightarrow> ('p, 'g1, 'g2) settle_request \<Rightarrow> 'pvk settle_policy \<Rightarrow> attested_shape \<Rightarrow> bytes \<Rightarrow> bytes list \<Rightarrow> field_opening list \<Rightarrow> bool"
    where
  "settle_session sha env pv q policy a acct values ops \<longleftrightarrow>
     pv_settle_policies pv (set_policy_id (sq_statement q)) = Some policy \<and>
     validate_record_layout (sp_layout policy) = Inr () \<and>
     (\<exists>sh. record_shape (sp_layout policy) (sq_notation_id q) = Inr sh \<and>
       check_shape (env_tlsn env) (sq_presentation q)
         \<lparr>exp_shape = sh, exp_attestation_key = pv_attestation_key pv,
          exp_root_certs = pv_root_certs pv, exp_max_session_secs = pv_max_session_secs pv\<rparr> = Inr a) \<and>
     as_hidden_hashes a = map (opening_commitment sha) ops \<and>
     (\<exists>blinders. record_openings (sp_layout policy) acct values blinders = Inr ops \<and>
       list_all (\<lambda>b. length b = 16) blinders)"

lemma phi_s_new_Inr:
  "phi_s_new (ph, th, dh) pid cb e d = Inr pub \<longleftrightarrow>
     e < 2 ^ 27 \<and> be_value cb < BN254_R \<and>
     pub = \<lparr>s_property_hash = ph, s_tenant_hash = th, s_date_hash = dh, s_property_id = pid,
       s_c_b = dec (be_value cb), s_engagement_day = e, s_digest = d\<rparr>"
  by (auto simp: phi_s_new_def ensure_Inr_iff and_then_Inr_iff field_element_def)

lemma checked_shows_tenancy:
  assumes lib: "circomlib_ok sha lib" and cm: "comparators_ok cm"
    and ses: "settle_session sha env pv q policy a acct values ops"
    and P: "phi_s_params_from_layout (sp_layout policy) = Inr P"
    and g: "phase_extracts extract (phi_s lib cm P) (env_ark env) (verifier_pvk (sp_verifier policy))"
    and word: "is_word (tx_property_id (set_tx_data (sq_statement q)))"
    and ok: "check_settle env pv q = Inr d"
  obtains expires tau e where "u64_of (set_expires_at (sq_statement q)) = Some expires" "pv_tau_lock pv = Some tau"
    "engagement_day expires tau (sp_utc_offset_secs policy) = Inr e"
    "shows_tenancy sha cm P (settle_public q a (nat e) d) (extract (sq_proof q) (phi_s_signals (settle_public q a (nat e) d)))"
proof -
  obtain expires tau e ah ph th dh public where day: "u64_of (set_expires_at (sq_statement q)) = Some expires"
      "pv_tau_lock pv = Some tau" "engagement_day expires tau (sp_utc_offset_secs policy) = Inr e"
    and hs: "as_hidden_hashes a = [ah, ph, th, dh]"
    and pub: "phi_s_new (ph, th, dh) (tx_property_id (set_tx_data (sq_statement q))) (set_c_b (sq_statement q)) (nat e) d
      = Inr public"
    and v: "groth16_verify (env_ark env) (sp_verifier policy) (sq_proof q) (phi_s_inputs public) = Inr True"
    using ok ses by (auto simp: check_settle_def settle_session_def Let_def and_then_Inr_iff ensure_Inr_iff ensure_unsigned_def)
  have eq: "public = settle_public q a (nat e) d" using pub by (simp add: phi_s_new_Inr settle_public_def hs)
  have sat: "phi_s lib cm P (phi_s_signals (settle_public q a (nat e) d))
      (extract (sq_proof q) (phi_s_signals (settle_public q a (nat e) d)))"
    using g groth16_verify_values [OF v] by (simp add: phase_extracts_def eq phi_s_signals_def)
  have "length ph = 32" "length th = 32" "length dh = 32"
    using hs ses lib by (auto simp: settle_session_def opening_commitment_def circomlib_ok_def Cons_eq_map_conv)
  then have inst: "phi_s_instance (settle_public q a (nat e) d)"
    using pub hs word by (simp add: phi_s_instance_def settle_public_def phi_s_new_Inr is_word_def is_signal_def)
  have "phi_s_asserts P" using sat by (simp add: phi_s_def)
  from that [OF day] phi_s_iff [OF lib cm this inst] sat show ?thesis by blast
qed

lemma settle_params:
  assumes "phi_s_params_from_layout l = Inr P"
  shows "map key (record_fields l) = [KEY_PROPERTY_ID, KEY_TENANT, KEY_RECORD_DATE]"
    and "phis_property_w P = width (record_fields l ! 0)" and "width_of l KEY_PROPERTY_ID = Inr (phis_property_w P)"
    and "phis_tenant_w P = width (record_fields l ! 1)" and "phis_tenant_w P = account_width l"
    and "width (record_fields l ! 2) = 10" and "phis_padding P = hd (padding l)"
proof -
  show keys: "map key (record_fields l) = [KEY_PROPERTY_ID, KEY_TENANT, KEY_RECORD_DATE]"
    using assms by (auto simp: phi_s_params_from_layout_def ensure_Inr_iff and_then_Inr_iff Let_def)
  then obtain f0 f1 f2 where f: "record_fields l = [f0, f1, f2]" "key f0 = KEY_PROPERTY_ID" "key f1 = KEY_TENANT"
      "key f2 = KEY_RECORD_DATE" by (auto simp: map_eq_Cons_conv)
  have "KEY_PROPERTY_ID \<noteq> KEY_TENANT" "KEY_PROPERTY_ID \<noteq> KEY_RECORD_DATE" "KEY_TENANT \<noteq> KEY_RECORD_DATE"
    by (simp_all add: key_defs KEY_TENANT_def)
  then have w: "width_of l KEY_PROPERTY_ID = Inr (width f0)" "width_of l KEY_TENANT = Inr (width f1)"
      "width_of l KEY_RECORD_DATE = Inr (width f2)"
    using f by (simp_all add: width_of_def index_of_def index_at_def)
  show "phis_property_w P = width (record_fields l ! 0)" "width_of l KEY_PROPERTY_ID = Inr (phis_property_w P)"
    "phis_tenant_w P = width (record_fields l ! 1)" "phis_tenant_w P = account_width l"
    "width (record_fields l ! 2) = 10" "phis_padding P = hd (padding l)"
    using assms padding_byte_hd [of l] f(1)
    by (auto simp: phi_s_params_from_layout_def ensure_Inr_iff and_then_Inr_iff Let_def w)
qed

definition settle_witness ::
    "(('g1, 'g2) groth16_proof \<Rightarrow> nat list \<Rightarrow> phi_s_witness) \<Rightarrow> ('p, 'vk, 'att, 'rs, 'g1, 'g2, 'pvk, 'sk) notary_env
      \<Rightarrow> ('vk, 'pvk, 'sk) policy_verifier \<Rightarrow> ('p, 'g1, 'g2) settle_request \<Rightarrow> attested_shape \<Rightarrow> int \<Rightarrow> phi_s_witness" where
  "settle_witness extract env pv q a e =
     extract (sq_proof q) (phi_s_signals (settle_public q a (nat e)
       (digest (env_eip712_hash env) (Settle_stmt (sq_statement q)) (pv_domain pv))))"

lemma settle_signed_facts:
  assumes lib: "circomlib_ok sha lib" and cm: "comparators_ok cm"
    and ses: "settle_session sha env pv q policy a acct [prop_id, tenant, date] ops"
    and P: "phi_s_params_from_layout (sp_layout policy) = Inr P"
    and g: "phase_extracts extract (phi_s lib cm P) (env_ark env) (verifier_pvk (sp_verifier policy))"
    and word: "is_word (tx_property_id (set_tx_data (sq_statement q)))"
    and signed: "sign_settle env io pv q = (pv', Inr sigma)"
  shows "\<exists>expires tau e. u64_of (set_expires_at (sq_statement q)) = Some expires \<and> pv_tau_lock pv = Some tau \<and>
    engagement_day expires tau (sp_utc_offset_secs policy) = Inr e \<and>
    (hash_collision sha (phi_s_messages (settle_witness extract env pv q a e)) (map message_of (tl ops)) \<or>
     (\<exists>pt pd n. field_word (sp_layout policy) KEY_PROPERTY_ID prop_id = Inr (tx_property_id (set_tx_data (sq_statement q))) \<and>
       tenant \<noteq> [] \<and> pad (sp_layout policy) tenant (account_width (sp_layout policy)) = Inr pt \<and>
       cm_poseidon cm (be_value pt) (ws_salt (settle_witness extract env pv q a e)) = be_value (set_c_b (sq_statement q)) \<and>
       pad (sp_layout policy) date 10 = Inr pd \<and> day_number pd = Inr n \<and>
       mock_engagement_day (expires - tau) (sp_utc_offset_secs policy) \<le> n))"
proof -
  obtain d where ok: "check_settle env pv q = Inr d" using signed by (auto simp: sign_settle_def split: sum.splits)
  then have d: "d = digest (env_eip712_hash env) (Settle_stmt (sq_statement q)) (pv_domain pv)"
    using check_request_digest [of env pv "Sign_settle q" d] by simp
  obtain expires tau e where day: "u64_of (set_expires_at (sq_statement q)) = Some expires" "pv_tau_lock pv = Some tau"
      "engagement_day expires tau (sp_utc_offset_secs policy) = Inr e"
    and sh: "shows_tenancy sha cm P (settle_public q a (nat e) d)
      (extract (sq_proof q) (phi_s_signals (settle_public q a (nat e) d)))"
    by (rule checked_shows_tenancy [OF lib cm ses P g word ok])
  define w where "w = settle_witness extract env pv q a e"
  have s: "shows_tenancy sha cm P (settle_public q a (nat e) d) w" using sh by (simp add: w_def settle_witness_def flip: d)
  note s' = s [unfolded shows_tenancy_def Let_def]
  let ?l = "sp_layout policy"
  obtain blinders where opn: "record_openings ?l acct [prop_id, tenant, date] blinders = Inr ops"
    and bl: "list_all (\<lambda>b. length b = 16) blinders"
    and l: "validate_record_layout ?l = Inr ()" and hs: "as_hidden_hashes a = map (opening_commitment sha) ops"
    using ses by (auto simp: settle_session_def)
  note o1 = record_openings_Inr [OF l opn] and p = settle_params [OF P]
  have n: "length (record_fields ?l) = 3" "length ops = 4" "length (tl ops) = 3" using o1(1,2) by simp_all
  have b16: "length (fo_blinder (tl ops ! i)) = 16" if "i < 3" for i
    using bl n that unfolding o1(5) [symmetric] by (simp add: list_all_length nth_tl)
  have at: "tl ops ! i = ops ! Suc i" if "i < 3" for i using that n by (simp add: nth_tl)
  have "(\<exists>pt pd n. field_word ?l KEY_PROPERTY_ID prop_id = Inr (tx_property_id (set_tx_data (sq_statement q))) \<and>
       tenant \<noteq> [] \<and> pad ?l tenant (account_width ?l) = Inr pt \<and>
       cm_poseidon cm (be_value pt) (ws_salt w) = be_value (set_c_b (sq_statement q)) \<and>
       pad ?l date 10 = Inr pd \<and> day_number pd = Inr n \<and>
       mock_engagement_day (expires - tau) (sp_utc_offset_secs policy) \<le> n)"
    if free: "\<not> hash_collision sha (phi_s_messages w) (map message_of (tl ops))"
  proof -
    note same = openings_same(1) [of sha "phi_s_messages w" "tl ops"]
    have prp: "as_bytes (ws_property w) = fo_plaintext (ops ! 1)"
      using same [of 0, OF _ _ _ _ conjunct1 [OF s']] free n b16 hs at
      by (simp add: phi_s_messages_def settle_public_def)
    have ten: "as_bytes (ws_tenant w) = fo_plaintext (ops ! 2)"
      using same [of 1, OF _ _ _ _ conjunct1 [OF conjunct2 [OF s']]] free n b16 hs at
      by (simp add: phi_s_messages_def settle_public_def numeral_2_eq_2)
    have dat: "as_bytes (ws_date w) = fo_plaintext (ops ! 3)"
      using same [of 2, OF _ _ _ _ conjunct1 [OF conjunct2 [OF conjunct2 [OF s']]]] free n b16 hs at
      by (simp add: phi_s_messages_def settle_public_def numeral_3_eq_3)
    have f: "pad ?l prop_id (phis_property_w P) = Inr (as_bytes (ws_property w))"
      "pad ?l tenant (account_width ?l) = Inr (as_bytes (ws_tenant w))"
      "pad ?l date 10 = Inr (as_bytes (ws_date w))"
      using o1(4) [of 0] o1(4) [of 1] o1(4) [of 2] n(1) p prp ten dat by (simp_all add: numeral_2_eq_2 numeral_3_eq_3)
    have "length (tx_property_id (set_tx_data (sq_statement q))) = phis_property_w P + (32 - phis_property_w P)"
      using s' by (simp add: settle_public_def)
    then have "phis_property_w P \<le> 32" using word by (simp add: is_word_def)
    then have "field_word ?l KEY_PROPERTY_ID prop_id = Inr (tx_property_id (set_tx_data (sq_statement q)))"
      using p(3) f(1) s' by (simp add: field_word_def settle_public_def)
    moreover have "tenant \<noteq> []" using not_blank [OF l f(2)] s' p(7) by auto
    moreover obtain n where n: "day_number (as_bytes (ws_date w)) = Inr n"
      and late: "int (nat e) \<le> date_digits (as_bytes (ws_date w))" using s' by (auto simp: settle_public_def)
    then have "mock_engagement_day (expires - tau) (sp_utc_offset_secs policy) \<le> n"
      using mock_date_check_agrees [OF day(3) n] by linarith
    ultimately show ?thesis using f(2,3) n s' by (auto simp: settle_public_def)
  qed
  then show ?thesis using day unfolding w_def by blast
qed

subsection \<open>The three signatures\<close>

text \<open>C5: What an Apply signature proves. If the notary signs a request whose attested commitments are those of a
  session in which the registry rendered an income record for an account, then the income is a decimal number
  of at least the policy's multiple of the amount in \<open>txData\<close> and c_B is the Poseidon hash of that account
  under a salt, and the account is not empty; or the private input extracted from the proof exhibits a collision of the
  hash with one of the two committed messages.\<close>

theorem apply_signature_means_eligibility:
  assumes lib: "circomlib_ok sha lib" and cm: "comparators_ok cm"
    and ses: "apply_session sha env pv q policy a acct income ops"
    and P: "phi_a_params_from_layout (ap_layout policy) m = Inr P"
    and g: "phase_extracts extract (phi_a lib cm P) (env_ark env) (verifier_pvk (ap_verifier policy))"
    and signed: "sign_apply env io pv q = (pv', Inr sigma)"
  shows "hash_collision sha (phi_a_messages (apply_witness extract env pv q a)) (map message_of ops) \<or>
    (\<exists>pa pi. acct \<noteq> [] \<and> pad (ap_layout policy) acct (account_width (ap_layout policy)) = Inr pa \<and>
      pad (ap_layout policy) income (phia_income_w P) = Inr pi \<and>
      cm_poseidon cm (be_value pa) (wa_salt (apply_witness extract env pv q a)) = be_value (app_c_b (aq_statement q)) \<and>
      all_digits pi \<and> unat m * unat (tx_amount (app_tx_data (aq_statement q))) \<le> dec_value pi)"
  using apply_signed_facts [OF lib cm ses P g signed refl] by blast

text \<open>C4: What a Settle signature proves. If the notary signs a request whose attested commitments are those of a
  session in which the registry rendered a tenancy notation, then the notation is on the property in \<open>txData\<close>,
  its tenant is not empty and c_B is the Poseidon hash of that tenant under a salt, and its date is a calendar
  date no earlier than the day, in the registry's time zone, of \<open>expiresAt\<close> less \<open>tau_lock\<close>; or the extracted
  private input exhibits a collision of the hash with one of the three committed messages.\<close>

theorem settle_signature_means_tenancy:
  assumes lib: "circomlib_ok sha lib" and cm: "comparators_ok cm"
    and ses: "settle_session sha env pv q policy a acct [prop_id, tenant, date] ops"
    and P: "phi_s_params_from_layout (sp_layout policy) = Inr P"
    and g: "phase_extracts extract (phi_s lib cm P) (env_ark env) (verifier_pvk (sp_verifier policy))"
    and word: "is_word (tx_property_id (set_tx_data (sq_statement q)))"
    and signed: "sign_settle env io pv q = (pv', Inr sigma)"
  shows "\<exists>expires tau e. u64_of (set_expires_at (sq_statement q)) = Some expires \<and> pv_tau_lock pv = Some tau \<and>
    engagement_day expires tau (sp_utc_offset_secs policy) = Inr e \<and>
    (hash_collision sha (phi_s_messages (settle_witness extract env pv q a e)) (map message_of (tl ops)) \<or>
     (\<exists>pt pd n. field_word (sp_layout policy) KEY_PROPERTY_ID prop_id = Inr (tx_property_id (set_tx_data (sq_statement q))) \<and>
       tenant \<noteq> [] \<and> pad (sp_layout policy) tenant (account_width (sp_layout policy)) = Inr pt \<and>
       cm_poseidon cm (be_value pt) (ws_salt (settle_witness extract env pv q a e)) = be_value (set_c_b (sq_statement q)) \<and>
       pad (sp_layout policy) date 10 = Inr pd \<and> day_number pd = Inr n \<and>
       mock_engagement_day (expires - tau) (sp_utc_offset_secs policy) \<le> n))"
  by (rule settle_signed_facts [OF assms])

text \<open>C3: The tenant is the applicant. When an Apply and a Settle statement with the same c_B are both signed, by
  notaries whose circuits use the same Poseidon, the account of the income record and the tenant of the
  notation are written the same, or one of the two extracted inputs exhibits a collision of SHA-256, or the two together a
  collision of Poseidon.\<close>

theorem settled_tenant_is_applicant:
  assumes lib: "circomlib_ok sha lib" and cm: "comparators_ok cm"
    and ses1: "apply_session sha env1 pv1 q1 policy1 a1 acct income ops1"
    and P1: "phi_a_params_from_layout (ap_layout policy1) m = Inr P1"
    and g1: "phase_extracts extract1 (phi_a lib cm P1) (env_ark env1) (verifier_pvk (ap_verifier policy1))"
    and signed1: "sign_apply env1 io1 pv1 q1 = (pv1', Inr sigma1)"
    and ses2: "settle_session sha env2 pv2 q2 policy2 a2 landlord [prop_id, tenant, date] ops2"
    and P2: "phi_s_params_from_layout (sp_layout policy2) = Inr P2"
    and g2: "phase_extracts extract2 (phi_s lib cm P2) (env_ark env2) (verifier_pvk (sp_verifier policy2))"
    and word: "is_word (tx_property_id (set_tx_data (sq_statement q2)))"
    and signed2: "sign_settle env2 io2 pv2 q2 = (pv2', Inr sigma2)"
    and same_c_b: "app_c_b (aq_statement q1) = set_c_b (sq_statement q2)"
    and widths: "account_width (ap_layout policy1) = account_width (sp_layout policy2)"
  shows "\<exists>e. hash_collision sha (phi_a_messages (apply_witness extract1 env1 pv1 q1 a1)) (map message_of ops1) \<or>
    hash_collision sha (phi_s_messages (settle_witness extract2 env2 pv2 q2 a2 e)) (map message_of (tl ops2)) \<or>
    (\<exists>pa pt. pad (ap_layout policy1) acct (account_width (ap_layout policy1)) = Inr pa \<and>
      pad (sp_layout policy2) tenant (account_width (sp_layout policy2)) = Inr pt \<and>
      (pa = pt \<or> poseidon_collision cm (be_value pa, wa_salt (apply_witness extract1 env1 pv1 q1 a1))
        (be_value pt, ws_salt (settle_witness extract2 env2 pv2 q2 a2 e))))"
proof -
  obtain e where e: "hash_collision sha (phi_s_messages (settle_witness extract2 env2 pv2 q2 a2 e)) (map message_of (tl ops2)) \<or>
    (\<exists>pt. pad (sp_layout policy2) tenant (account_width (sp_layout policy2)) = Inr pt \<and>
       cm_poseidon cm (be_value pt) (ws_salt (settle_witness extract2 env2 pv2 q2 a2 e)) = be_value (set_c_b (sq_statement q2)))"
    using settle_signed_facts [OF lib cm ses2 P2 g2 word signed2] by blast
  let ?w1 = "apply_witness extract1 env1 pv1 q1 a1" and ?w2 = "settle_witness extract2 env2 pv2 q2 a2 e"
  show ?thesis
  proof (cases "hash_collision sha (phi_a_messages ?w1) (map message_of ops1) \<or>
      hash_collision sha (phi_s_messages ?w2) (map message_of (tl ops2))")
    case False
    obtain pa where pa: "pad (ap_layout policy1) acct (account_width (ap_layout policy1)) = Inr pa"
      "cm_poseidon cm (be_value pa) (wa_salt ?w1) = be_value (app_c_b (aq_statement q1))"
      using apply_signed_facts [OF lib cm ses1 P1 g1 signed1 refl] False by blast
    obtain pt where pt: "pad (sp_layout policy2) tenant (account_width (sp_layout policy2)) = Inr pt"
      "cm_poseidon cm (be_value pt) (ws_salt ?w2) = be_value (set_c_b (sq_statement q2))" using e False by blast
    have "valid_padding (ap_layout policy1)" "valid_padding (sp_layout policy2)"
      using ses1 ses2 valid_record_padding
      by (auto simp: apply_session_def settle_session_def valid_record_layout_def)
    then have "length pa = length pt" using pad_length pa(1) pt(1) widths by metis
    then have "be_value pa = be_value pt \<Longrightarrow> pa = pt" by (simp add: be_value_inject)
    then have "pa = pt \<or> poseidon_collision cm (be_value pa, wa_salt ?w1) (be_value pt, ws_salt ?w2)"
      using pa(2) pt(2) same_c_b by (auto simp: poseidon_collision_def)
    with pa(1) pt(1) show ?thesis by blast
  qed blast
qed

subsection \<open>An honest applicant and an honest landlord\<close>

definition apply_input :: "field_opening list \<Rightarrow> nat \<Rightarrow> phi_a_witness" where
  "apply_input ops salt =
     \<lparr>wa_account = map byte_val (fo_plaintext (ops ! 0)), wa_income = map byte_val (fo_plaintext (ops ! 1)),
      wa_account_blinder = map byte_val (fo_blinder (ops ! 0)), wa_income_blinder = map byte_val (fo_blinder (ops ! 1)),
      wa_salt = salt\<rparr>"

definition settle_input :: "field_opening list \<Rightarrow> nat \<Rightarrow> phi_s_witness" where
  "settle_input ops salt =
     \<lparr>ws_property = map byte_val (fo_plaintext (ops ! 1)), ws_tenant = map byte_val (fo_plaintext (ops ! 2)),
      ws_date = map byte_val (fo_plaintext (ops ! 3)), ws_property_blinder = map byte_val (fo_blinder (ops ! 1)),
      ws_tenant_blinder = map byte_val (fo_blinder (ops ! 2)), ws_date_blinder = map byte_val (fo_blinder (ops ! 3)),
      ws_salt = salt\<rparr>"

lemma bytes_of_vals: "byte_signals (map byte_val bs)"
  by (rule byte_vals_signals)

lemma apply_input_satisfies:
  assumes "circomlib_ok sha lib" and "comparators_ok cm" and "phi_a_generated P" and "phi_a_instance pub"
    and "a_account_hash pub = opening_commitment sha (ops ! 0)" "a_income_hash pub = opening_commitment sha (ops ! 1)"
    and "length (fo_blinder (ops ! 0)) = 16" "length (fo_blinder (ops ! 1)) = 16"
    and "length (fo_plaintext (ops ! 0)) = phia_account_w P" "length (fo_plaintext (ops ! 1)) = phia_income_w P"
    and "fo_plaintext (ops ! 0) \<noteq> []" "hd (fo_plaintext (ops ! 0)) \<noteq> phia_padding P"
    and "cm_poseidon cm (be_value (fo_plaintext (ops ! 0))) salt = dec_value (a_c_b pub)" "is_signal salt"
    and "all_digits (fo_plaintext (ops ! 1))" "phia_multiple P * dec_value (a_amount pub) \<le> dec_value (fo_plaintext (ops ! 1))"
  shows "phi_a lib cm P (phi_a_signals pub) (apply_input ops salt)"
  unfolding phi_a_iff [OF assms(1-4)] using assms(5-)
  by (simp add: shows_income_def apply_input_def phi_a_bytes_def bytes_of_vals opens_word_def opening_commitment_def)

lemma settle_input_satisfies:
  assumes "circomlib_ok sha lib" and "comparators_ok cm" and "phi_s_asserts P" and "phi_s_instance pub"
    and "s_property_hash pub = opening_commitment sha (ops ! 1)" "s_tenant_hash pub = opening_commitment sha (ops ! 2)"
      "s_date_hash pub = opening_commitment sha (ops ! 3)"
    and "length (fo_blinder (ops ! 1)) = 16" "length (fo_blinder (ops ! 2)) = 16" "length (fo_blinder (ops ! 3)) = 16"
    and "length (fo_plaintext (ops ! 1)) = phis_property_w P" "length (fo_plaintext (ops ! 2)) = phis_tenant_w P"
    and "s_property_id pub = fo_plaintext (ops ! 1) @ replicate (32 - phis_property_w P) (CHR 0x00)"
    and "fo_plaintext (ops ! 2) \<noteq> []" "hd (fo_plaintext (ops ! 2)) \<noteq> phis_padding P"
    and "cm_poseidon cm (be_value (fo_plaintext (ops ! 2))) salt = dec_value (s_c_b pub)" "is_signal salt"
    and "day_number (fo_plaintext (ops ! 3)) = Inr n" "int (s_engagement_day pub) \<le> date_digits (fo_plaintext (ops ! 3))"
  shows "phi_s lib cm P (phi_s_signals pub) (settle_input ops salt)"
  unfolding phi_s_iff [OF assms(1-4)] using assms(5-)
  by (simp add: shows_tenancy_def settle_input_def phi_s_bytes_def bytes_of_vals opens_word_def opening_commitment_def)

end
