(* ===== verification/Phase_Samples.thy ===== *)
theory Phase_Samples
  imports Phase_Signatures
begin

section \<open>A concrete applicant and a concrete tenancy\<close>

text \<open>
  A notary whose library attests the commitments of an opening and whose pairing check accepts what phi_A or
  phi_S accepts for that opening: it signs the Apply statement of an applicant and the Settle statement of
  the tenancy that names the applicant. The examples show that the hypotheses of \<open>Phase_Signatures\<close> hold together.
\<close>

definition phase_env ::
    "response_shape \<Rightarrow> bytes \<Rightarrow> field_opening list \<Rightarrow> (nat list \<Rightarrow> bool)
      \<Rightarrow> (unit, nat, unit, nat set, nat \<times> nat, (nat \<times> nat) \<times> nat \<times> nat, nat, nat) notary_env" where
  "phase_env s b ops circuit = (sample_env s b)
     \<lparr>env_tlsn := sample_tlsn s b
        ([replicate 32 (CHR 0x00), replicate 32 (CHR 0x01)] @ map (opening_commitment sample_sha) ops),
      env_ark := sample_ark\<lparr>verify_proof := (\<lambda>_ _ xs. Inr (circuit xs))\<rparr>\<rparr>"

definition sample_tenant :: bytes where "sample_tenant = ''ACC-000000000003''"
definition sample_income_value :: bytes where "sample_income_value = ''00000000000000003000''"
definition sample_c_b :: bytes where "sample_c_b = be_bytes 32 (be_value sample_tenant)"

definition sample_phi_a :: phi_a_params where
  "sample_phi_a = \<lparr>phia_account_w = 16, phia_income_w = 20, phia_padding = CHR '' '', phia_multiple = 3, phia_amount_bits = 96\<rparr>"

definition sample_phi_s :: phi_s_params where
  "sample_phi_s = \<lparr>phis_property_w = 20, phis_tenant_w = 16, phis_padding = CHR '' ''\<rparr>"

definition sample_apply_policy :: "nat apply_policy" where
  "sample_apply_policy = \<lparr>ap_layout = income_v1, ap_verifier = \<lparr>verifier_pvk = 10, verifier_n_public = 7\<rparr>\<rparr>"

definition sample_settle_policy :: "nat settle_policy" where
  "sample_settle_policy = \<lparr>sp_layout = tenancy_v1, sp_verifier = \<lparr>verifier_pvk = 10, verifier_n_public = 11\<rparr>,
     sp_utc_offset_secs = 10800\<rparr>"

definition phase_verifier :: "(nat, nat, nat) policy_verifier" where
  "phase_verifier = verifier_with_phases sample_verifier [''income'' \<mapsto> sample_apply_policy]
     [''tenancy'' \<mapsto> sample_settle_policy] (Some 2592000)"

definition sample_tx :: tx_data where
  "sample_tx = \<lparr>tx_property_id = sample_word, tx_amount = 1000, tx_settlement_share = 500\<rparr>"

definition apply_sample :: "(unit, nat \<times> nat, (nat \<times> nat) \<times> nat \<times> nat) apply_request" where
  "apply_sample =
     \<lparr>aq_presentation = (),
      aq_statement = \<lparr>app_tx_id = 1, app_c_tx = replicate 32 (CHR 0x01), app_tx_data = sample_tx, app_c_b = sample_c_b,
        app_policy_id = ''income'', app_submitter = replicate 20 (CHR 0x02), app_eta = sample_nonce (CHR 0x08), app_t_att = 1000\<rparr>,
      aq_proof = rq_proof sample_request\<rparr>"

definition settle_sample :: "(unit, nat \<times> nat, (nat \<times> nat) \<times> nat \<times> nat) settle_request" where
  "settle_sample =
     \<lparr>sq_presentation = (), sq_notation_id = ''N-000001'',
      sq_statement = \<lparr>set_eng_id = 1, set_tx_id = 1, set_c_tx = replicate 32 (CHR 0x01), set_tx_data = sample_tx,
        set_c_b = sample_c_b, set_expires_at = 1790304400, set_policy_id = ''tenancy'',
        set_submitter = replicate 20 (CHR 0x02), set_eta = sample_nonce (CHR 0x09), set_t_att = 1000\<rparr>,
      sq_proof = rq_proof sample_request\<rparr>"

lemma record_openings_ok:
  assumes "validate_record_layout l = Inr ()" and "render_record l acct values = Inr x"
    and "length blinders = 1 + length (record_fields l)"
  shows "\<exists>ops. record_openings l acct values blinders = Inr ops"
proof -
  have l: "valid_record_layout l" using assms(1) by (simp add: valid_record_layout_def)
  obtain a vs where "x = record_rendering l a vs" using render_record_Inr [OF l assms(2)] by metis
  then have h: "length (record_hidden (record_byte_ranges x)) = 1 + length (record_fields l)"
    by (simp add: record_rendering_simps record_hidden_segments_def)
  have "in_bounds (record_bytes x) (record_hidden (record_byte_ranges x) ! i)" if "i < 1 + length (record_fields l)" for i
    using render_record_values [OF assms(1,2)] that
    by (cases i) (auto simp: record_hidden_def holds_def)
  then have bounds: "in_bounds (record_bytes x) r" if "r \<in> set (record_hidden (record_byte_ranges x))" for r
    using that h by (metis in_set_conv_nth)
  have "collect_res (\<lambda>(r, b). open_range (record_bytes x) r b) (zip (record_hidden (record_byte_ranges x)) blinders) =
      Inr (map (\<lambda>(r, b). \<lparr>fo_range = r, fo_plaintext = slice (record_bytes x) r, fo_blinder = b\<rparr>)
        (zip (record_hidden (record_byte_ranges x)) blinders))"
    by (rule collect_res_total) (auto simp: open_range_def index_range_def bounds dest: set_zip_leftD)
  then show ?thesis using assms(2,3) h by (simp add: record_openings_def Let_def)
qed

lemma sample_blinders: "list_all (\<lambda>b. length b = 16) (replicate n sample_blinder)"
  by (simp add: list_all_iff sample_blinder_def)

lemma pad_full: "plain_value v \<Longrightarrow> length v = n \<Longrightarrow> valid_padding l \<Longrightarrow> pad l v n = Inr u \<longleftrightarrow> u = v"
  by (auto dest!: valid_padding_char simp: pad_Inr_iff)

text \<open>The session of the presentation check, for any record of a layout.\<close>

lemma phase_sample_session:
  assumes "validate_record_layout l = Inr ()" and "record_shape l subject = Inr s" and "render_record l acct values = Inr x"
    and "length ops = 1 + length (record_fields l)"
  shows "check_shape (env_tlsn (phase_env s (record_bytes x) ops circuit)) ()
      \<lparr>exp_shape = s, exp_attestation_key = 7, exp_root_certs = [], exp_max_session_secs = 120\<rparr> =
    Inr \<lparr>as_t_att = 1000, as_connection_time = 990, as_hidden_hashes = map (opening_commitment sample_sha) ops\<rparr>"
proof -
  let ?hs = "[replicate 32 (CHR 0x00), replicate 32 (CHR 0x01)] @ map (opening_commitment sample_sha) ops"
  have hs: "length ?hs = 3 + length (record_fields l)" "\<forall>h \<in> set ?hs. length h = 32"
    using assms(4) by (auto simp: opening_commitment_def)
  have "check_shape (sample_tlsn s (record_bytes x) ?hs) ()
      \<lparr>exp_shape = s, exp_attestation_key = 7, exp_root_certs = [], exp_max_session_secs = 120\<rparr> =
    Inr \<lparr>as_t_att = 1000, as_connection_time = 990, as_hidden_hashes = drop 2 ?hs\<rparr>"
    by (rule honest_record_accepted [OF assms(1-3), where tail = "'' ''" and att = "()"])
      (use hs in \<open>simp_all only: sample_tlsn_simps sample_times\<close>)
  then show ?thesis by (simp add: phase_env_def)
qed

lemma phase_groth16:
  assumes "\<And>s. s \<in> set inputs \<Longrightarrow> \<exists>n. s = dec n \<and> n < BN254_R" and "length inputs = n"
  shows "groth16_verify (env_ark (phase_env s b ops circuit)) \<lparr>verifier_pvk = k, verifier_n_public = n\<rparr> prf inputs =
    Inr (circuit (map dec_value inputs))"
proof -
  have "collect_res (parse_field BN254_R) inputs = Inr (map dec_value inputs)"
    by (rule collect_field_dec [OF assms(1) BN254_R_256])
  then show ?thesis using assms(2) by (simp add: groth16_verify_def phase_env_def sample_ark_def)
qed

lemma sample_c_b_value: "be_value sample_c_b = be_value sample_tenant" "be_value sample_tenant < BN254_R"
proof -
  have b: "be_value sample_tenant < 256 ^ 16" using be_value_less [of sample_tenant] by (simp add: sample_tenant_def)
  also have "(256::nat) ^ 16 < BN254_R" by (simp add: BN254_R_def)
  finally show "be_value sample_tenant < BN254_R" .
  have "(256::nat) ^ 16 < 256 ^ 32" by simp
  with b have "be_value sample_tenant < 256 ^ 32" by linarith
  then show "be_value sample_c_b = be_value sample_tenant" by (simp add: sample_c_b_def)
qed

lemma phase_verifier_simps:
  "pv_apply_policies phase_verifier ''income'' = Some sample_apply_policy"
  "pv_settle_policies phase_verifier ''tenancy'' = Some sample_settle_policy"
  "pv_tau_lock phase_verifier = Some 2592000" "pv_attestation_key phase_verifier = 7" "pv_root_certs phase_verifier = []"
  "pv_max_session_secs phase_verifier = 120" "nonce_seen (pv_nonces phase_verifier) n = False"
  by (simp_all add: phase_verifier_def verifier_with_phases_def sample_verifier_def policy_verifier_new_def nonce_seen_def)

lemma sample_record_and_sign: "\<exists>pv' sigma. record_and_sign (phase_env s b ops circuit) Written phase_verifier eta d = (pv', Inr sigma)"
  by (simp add: record_and_sign_def record_nonce_def Let_def phase_verifier_simps [unfolded nonce_seen_def] nonce_seen_def
      key_sign_def phase_env_def sample_env_def)

subsection \<open>The applicant\<close>

lemma sample_phi_a_eq: "phi_a_params_from_layout income_v1 3 = Inr sample_phi_a"
  by (simp add: phi_a_params_from_layout_def income_v1_def width_of_def index_of_def index_at_def padding_byte_def
      KEY_MONTHLY_INCOME_def sample_phi_a_def PHI_A_AMOUNT_BITS_def)

definition applicant_env ::
    "response_shape \<Rightarrow> rendered_record \<Rightarrow> field_opening list
      \<Rightarrow> (unit, nat, unit, nat set, nat \<times> nat, (nat \<times> nat) \<times> nat \<times> nat, nat, nat) notary_env" where
  "applicant_env s x ops = phase_env s (record_bytes x) ops
     (\<lambda>xs. phi_a (ref_circomlib sample_sha) ref_comparators sample_phi_a xs (apply_input ops 0))"

lemma applicant_openings:
  assumes "record_openings income_v1 sample_tenant [sample_income_value] blinders = Inr ops"
  shows "length ops = 2" "fo_plaintext (ops ! 0) = sample_tenant" "fo_plaintext (ops ! 1) = sample_income_value"
proof -
  note o1 = record_openings_Inr [OF valid_income_v1 assms]
  have l: "record_fields income_v1 = [\<lparr>key = ''monthlyIncome'', width = 20\<rparr>]" "account_width income_v1 = 16"
    by (simp_all add: income_v1_def)
  have v: "valid_padding income_v1"
    using valid_record_padding valid_income_v1 by (simp add: valid_record_layout_def)
  have plain: "plain_value sample_tenant" "plain_value sample_income_value" "length sample_tenant = 16"
    "length sample_income_value = 20"
    by (simp_all add: sample_tenant_def sample_income_value_def plain_value_def byte_defs)
  show "length ops = 2" using o1(1) l by simp
  show "fo_plaintext (ops ! 0) = sample_tenant" using o1(3) pad_full [OF plain(1,3) v] l by simp
  show "fo_plaintext (ops ! 1) = sample_income_value" using o1(4) [of 0] pad_full [OF plain(2,4) v] l by simp
qed

lemma applicant_sample:
  obtains s x ops where "apply_session sample_sha (applicant_env s x ops) phase_verifier apply_sample sample_apply_policy
      \<lparr>as_t_att = 1000, as_connection_time = 990, as_hidden_hashes = map (opening_commitment sample_sha) ops\<rparr>
      sample_tenant sample_income_value ops"
    "\<exists>pv' sigma. sign_apply (applicant_env s x ops) Written phase_verifier apply_sample = (pv', Inr sigma)"
    "length ops = 2"
proof -
  have l: "valid_record_layout income_v1" using valid_income_v1 by (simp add: valid_record_layout_def)
  obtain s where s: "record_shape income_v1 [] = Inr s" using rec.shape_total [OF l] by blast
  have "is_ok (render_record income_v1 sample_tenant [sample_income_value])"
    by (simp add: render_record_eq income_v1_def field_values_def pad_def pad_value_def
        first_char_def utf8_width_def byte_defs sample_tenant_def sample_income_value_def)
  then obtain x where x: "render_record income_v1 sample_tenant [sample_income_value] = Inr x" by (auto simp: is_ok_iff)
  have fields: "length (record_fields income_v1) = 1" by (simp add: income_v1_def)
  obtain ops where ops: "record_openings income_v1 sample_tenant [sample_income_value] (replicate 2 sample_blinder) = Inr ops"
    using record_openings_ok [OF valid_income_v1 x, of "replicate 2 sample_blinder"] fields by auto
  note o1 = applicant_openings [OF ops]
  have bl: "length (fo_blinder (ops ! i)) = 16" if "i < 2" for i
    using record_openings_Inr(5) [OF valid_income_v1 ops] that o1(1)
    by (metis length_map nth_map nth_replicate sample_blinder_def length_replicate)
  let ?a = "\<lparr>as_t_att = 1000, as_connection_time = 990, as_hidden_hashes = map (opening_commitment sample_sha) ops\<rparr>"
  let ?env = "applicant_env s x ops"
  have check: "check_shape (env_tlsn ?env) () \<lparr>exp_shape = s, exp_attestation_key = 7, exp_root_certs = [],
      exp_max_session_secs = 120\<rparr> = Inr ?a"
    unfolding applicant_env_def by (rule phase_sample_session [OF valid_income_v1 s x]) (simp add: o1 fields)
  have session: "apply_session sample_sha ?env phase_verifier apply_sample sample_apply_policy ?a
      sample_tenant sample_income_value ops"
    using s check ops sample_blinders [of 2] valid_income_v1
    by (auto simp: apply_session_def apply_sample_def phase_verifier_simps sample_apply_policy_def)
  let ?d = "digest (env_eip712_hash ?env) (Apply_stmt (aq_statement apply_sample)) (pv_domain phase_verifier)"
  let ?pub = "apply_public apply_sample ?a ?d"
  have hashes: "as_hidden_hashes ?a = [opening_commitment sample_sha (ops ! 0), opening_commitment sample_sha (ops ! 1)]"
    using o1(1) by (auto simp: length_Suc_conv numeral_2_eq_2)
  have stmt: "app_c_b (aq_statement apply_sample) = sample_c_b" "tx_amount (app_tx_data (aq_statement apply_sample)) = 1000"
    by (simp_all add: apply_sample_def sample_tx_def)
  have pub: "?pub = \<lparr>a_account_hash = opening_commitment sample_sha (ops ! 0),
      a_income_hash = opening_commitment sample_sha (ops ! 1), a_c_b = dec (be_value sample_tenant), a_amount = dec 1000, a_digest = ?d\<rparr>"
    unfolding apply_public_def hashes stmt sample_c_b_value by simp
  have inst: "phi_a_instance ?pub"
    unfolding pub using sample_c_b_value(2) by (simp add: phi_a_instance_def is_word_def is_signal_def opening_commitment_def)
  have gen: "phi_a_generated sample_phi_a" by (simp add: phi_a_generated_def sample_phi_a_def PHI_A_AMOUNT_BITS_def)
  have "phi_a (ref_circomlib sample_sha) ref_comparators sample_phi_a (phi_a_signals ?pub) (apply_input ops 0)"
    by (rule apply_input_satisfies [OF sample_sha_ok ref_comparators_ok gen inst])
      (use bl sample_c_b_value(2) in \<open>simp_all add: pub o1 del: One_nat_def\<close>,
       simp_all add: sample_tenant_def sample_income_value_def sample_phi_a_def ref_comparators_def all_digits_def
         is_ascii_digit_def dec_value_def is_signal_def BN254_R_def)
  moreover have "\<exists>n. i = dec n \<and> n < BN254_R" if "i \<in> set (phi_a_inputs ?pub)" for i
  proof -
    have "\<exists>n. dec (be_value sample_tenant) = dec n \<and> n < BN254_R" "\<exists>n. dec 1000 = dec n \<and> n < BN254_R"
      using sample_c_b_value(2) by (metis, intro exI [of _ 1000], simp add: BN254_R_def)
    then show ?thesis
      using that inst limbs_dec bind_dec unfolding pub by (auto simp: phi_a_inputs_def phi_a_instance_def)
  qed
  ultimately have v: "groth16_verify (env_ark ?env) (ap_verifier sample_apply_policy) (aq_proof apply_sample)
      (phi_a_inputs ?pub) = Inr True"
    using phase_groth16 [of "phi_a_inputs ?pub" 7]
    by (simp add: applicant_env_def sample_apply_policy_def phi_a_inputs_def limbs_def phi_a_signals_def)
  have new: "phi_a_new (opening_commitment sample_sha (ops ! 0)) (opening_commitment sample_sha (ops ! 1)) sample_c_b 1000 ?d = Inr ?pub"
    unfolding phi_a_new_Inr pub using sample_c_b_value by simp
  have "check_apply ?env phase_verifier apply_sample = Inr ?d"
    unfolding check_apply_def Let_def
    using check hashes new v s stmt
    by (simp add: apply_sample_def phase_verifier_simps sample_apply_policy_def ensure_unsigned_def)
  then have "\<exists>pv' sigma. sign_apply ?env Written phase_verifier apply_sample = (pv', Inr sigma)"
    using sample_record_and_sign unfolding sign_apply_def applicant_env_def by simp
  with that session o1(1) show ?thesis by blast
qed

lemma applicant_extracts:
  "phase_extracts (\<lambda>_ _. apply_input ops 0) (phi_a (ref_circomlib sample_sha) ref_comparators sample_phi_a)
     (env_ark (applicant_env s x ops)) pvk"
  by (simp add: phase_extracts_def applicant_env_def phase_env_def)

lemma applicant_no_collision:
  "length ops = 2 \<Longrightarrow> \<not> hash_collision sha (phi_a_messages (apply_input ops n)) (map message_of ops)"
  by (auto simp: length_Suc_conv numeral_2_eq_2 hash_collision_def phi_a_messages_def apply_input_def message_of_def)

theorem apply_signature_means_eligibility_witness:
  "\<exists>s x ops pv' sigma. sign_apply (applicant_env s x ops) Written phase_verifier apply_sample = (pv', Inr sigma) \<and>
    (\<exists>pi. pad income_v1 sample_income_value 20 = Inr pi \<and> 3 * 1000 \<le> dec_value pi)"
proof -
  obtain s x ops where ses: "apply_session sample_sha (applicant_env s x ops) phase_verifier apply_sample sample_apply_policy
      \<lparr>as_t_att = 1000, as_connection_time = 990, as_hidden_hashes = map (opening_commitment sample_sha) ops\<rparr>
      sample_tenant sample_income_value ops"
    and "\<exists>pv' sigma. sign_apply (applicant_env s x ops) Written phase_verifier apply_sample = (pv', Inr sigma)"
    and n: "length ops = 2" by (rule applicant_sample)
  then obtain pv' sigma where signed: "sign_apply (applicant_env s x ops) Written phase_verifier apply_sample = (pv', Inr sigma)"
    by blast
  have P: "phi_a_params_from_layout (ap_layout sample_apply_policy) 3 = Inr sample_phi_a"
    by (simp add: sample_apply_policy_def sample_phi_a_eq)
  from apply_signature_means_eligibility [OF sample_sha_ok ref_comparators_ok ses P applicant_extracts signed]
  have "\<exists>pi. pad income_v1 sample_income_value 20 = Inr pi \<and> 3 * 1000 \<le> dec_value pi"
    using applicant_no_collision [OF n]
    by (auto simp: apply_witness_def sample_apply_policy_def sample_phi_a_def apply_sample_def sample_tx_def)
  with signed show ?thesis by blast
qed

subsection \<open>The tenancy\<close>

lemma sample_phi_s_eq: "phi_s_params_from_layout tenancy_v1 = Inr sample_phi_s"
  by (simp add: phi_s_params_from_layout_def tenancy_v1_def width_of_def index_of_def index_at_def padding_byte_def
      key_defs KEY_TENANT_def sample_phi_s_def)

definition tenancy_env ::
    "response_shape \<Rightarrow> rendered_record \<Rightarrow> field_opening list
      \<Rightarrow> (unit, nat, unit, nat set, nat \<times> nat, (nat \<times> nat) \<times> nat \<times> nat, nat, nat) notary_env" where
  "tenancy_env s x ops = phase_env s (record_bytes x) ops
     (\<lambda>xs. phi_s (ref_circomlib sample_sha) ref_comparators sample_phi_s xs (settle_input ops 0))"

abbreviation sample_values :: "bytes list" where
  "sample_values \<equiv> [''TR-06-CANKAYA-000123'', sample_tenant, ''2026-09-25'']"

lemma tenancy_openings:
  assumes "record_openings tenancy_v1 ''ACC-000000000001'' sample_values blinders = Inr ops"
  shows "length ops = 4" "fo_plaintext (ops ! 1) = ''TR-06-CANKAYA-000123''"
    "fo_plaintext (ops ! 2) = sample_tenant" "fo_plaintext (ops ! 3) = ''2026-09-25''"
proof -
  note o1 = record_openings_Inr [OF valid_tenancy_v1 assms]
  have l: "length (record_fields tenancy_v1) = 3" "map width (record_fields tenancy_v1) = [20, 16, 10]"
    by (simp_all add: tenancy_v1_def)
  then have w: "width (record_fields tenancy_v1 ! 0) = 20" "width (record_fields tenancy_v1 ! 1) = 16"
    "width (record_fields tenancy_v1 ! 2) = 10" by (simp_all add: tenancy_v1_def)
  have v: "valid_padding tenancy_v1"
    using valid_record_padding valid_tenancy_v1 by (simp add: valid_record_layout_def)
  have plain: "plain_value sample_tenant" "length sample_tenant = 16" "plain_value ''TR-06-CANKAYA-000123''"
    "plain_value ''2026-09-25''"
    by (simp_all add: sample_tenant_def plain_value_def byte_defs)
  show "length ops = 4" using o1(1) l by simp
  show "fo_plaintext (ops ! 1) = ''TR-06-CANKAYA-000123''" using o1(4) [of 0] pad_full [OF plain(3) _ v, of 20] l w by simp
  show "fo_plaintext (ops ! 2) = sample_tenant" using o1(4) [of 1] pad_full [OF plain(1,2) v] l w by (simp add: numeral_2_eq_2)
  show "fo_plaintext (ops ! 3) = ''2026-09-25''"
    using o1(4) [of 2] pad_full [OF plain(4) _ v, of 10] l w by (simp add: numeral_3_eq_3)
qed

lemma sample_engagement: "engagement_day 1790304400 2592000 10800 = Inr 20260826"
proof -
  have "ymd_of_days 20691 = Inr 20260826" by code_simp
  then show ?thesis by (simp add: engagement_day_Inr_iff i64_range_def SECS_PER_DAY_def)
qed

lemma tenancy_sample:
  obtains s x ops where "settle_session sample_sha (tenancy_env s x ops) phase_verifier settle_sample sample_settle_policy
      \<lparr>as_t_att = 1000, as_connection_time = 990, as_hidden_hashes = map (opening_commitment sample_sha) ops\<rparr>
      ''ACC-000000000001'' sample_values ops"
    "\<exists>pv' sigma. sign_settle (tenancy_env s x ops) Written phase_verifier settle_sample = (pv', Inr sigma)"
    "length ops = 4"
proof -
  have l: "valid_record_layout tenancy_v1" using valid_tenancy_v1 by (simp add: valid_record_layout_def)
  obtain s where s: "record_shape tenancy_v1 ''N-000001'' = Inr s" using rec.shape_total [OF l] by blast
  have "is_ok (render_record tenancy_v1 ''ACC-000000000001'' sample_values)"
    by (simp add: render_record_eq tenancy_v1_def field_values_def pad_def pad_value_def
        first_char_def utf8_width_def byte_defs sample_tenant_def)
  then obtain x where x: "render_record tenancy_v1 ''ACC-000000000001'' sample_values = Inr x" by (auto simp: is_ok_iff)
  have fields: "length (record_fields tenancy_v1) = 3" by (simp add: tenancy_v1_def)
  obtain ops where ops: "record_openings tenancy_v1 ''ACC-000000000001'' sample_values (replicate 4 sample_blinder) = Inr ops"
    using record_openings_ok [OF valid_tenancy_v1 x, of "replicate 4 sample_blinder"] fields by auto
  note o1 = tenancy_openings [OF ops]
  have bl: "length (fo_blinder (ops ! i)) = 16" if "i < 4" for i
    using record_openings_Inr(5) [OF valid_tenancy_v1 ops] that o1(1)
    by (metis length_map nth_map nth_replicate sample_blinder_def length_replicate)
  let ?a = "\<lparr>as_t_att = 1000, as_connection_time = 990, as_hidden_hashes = map (opening_commitment sample_sha) ops\<rparr>"
  let ?env = "tenancy_env s x ops"
  have check: "check_shape (env_tlsn ?env) () \<lparr>exp_shape = s, exp_attestation_key = 7, exp_root_certs = [],
      exp_max_session_secs = 120\<rparr> = Inr ?a"
    unfolding tenancy_env_def by (rule phase_sample_session [OF valid_tenancy_v1 s x]) (simp add: o1 fields)
  have session: "settle_session sample_sha ?env phase_verifier settle_sample sample_settle_policy ?a
      ''ACC-000000000001'' sample_values ops"
    using s check ops sample_blinders [of 4] valid_tenancy_v1
    by (auto simp: settle_session_def settle_sample_def phase_verifier_simps sample_settle_policy_def)
  let ?d = "digest (env_eip712_hash ?env) (Settle_stmt (sq_statement settle_sample)) (pv_domain phase_verifier)"
  let ?pub = "settle_public settle_sample ?a 20260826 ?d"
  have hashes: "as_hidden_hashes ?a = [opening_commitment sample_sha (ops ! 0), opening_commitment sample_sha (ops ! 1),
      opening_commitment sample_sha (ops ! 2), opening_commitment sample_sha (ops ! 3)]"
    using o1(1) by (auto simp: length_Suc_conv eval_nat_numeral)
  have stmt: "set_c_b (sq_statement settle_sample) = sample_c_b"
    "tx_property_id (set_tx_data (sq_statement settle_sample)) = sample_word"
    by (simp_all add: settle_sample_def sample_tx_def)
  have pub: "?pub = \<lparr>s_property_hash = opening_commitment sample_sha (ops ! 1),
      s_tenant_hash = opening_commitment sample_sha (ops ! 2), s_date_hash = opening_commitment sample_sha (ops ! 3),
      s_property_id = sample_word, s_c_b = dec (be_value sample_tenant), s_engagement_day = 20260826, s_digest = ?d\<rparr>"
    unfolding settle_public_def hashes stmt sample_c_b_value by (simp add: numeral_2_eq_2 numeral_3_eq_3)
  have word: "is_word sample_word" by (simp add: is_word_def sample_word_def)
  have inst: "phi_s_instance ?pub"
    unfolding pub using sample_c_b_value(2) word by (simp add: phi_s_instance_def is_word_def is_signal_def opening_commitment_def)
  have gen: "phi_s_asserts sample_phi_s" by (simp add: phi_s_asserts_def sample_phi_s_def)
  have "phi_s (ref_circomlib sample_sha) ref_comparators sample_phi_s (phi_s_signals ?pub) (settle_input ops 0)"
    by (rule settle_input_satisfies [OF sample_sha_ok ref_comparators_ok gen inst, where n = 20721])
      (use bl sample_c_b_value(2) sample_date in \<open>simp_all add: pub o1 del: One_nat_def\<close>,
       simp_all add: sample_tenant_def sample_phi_s_def ref_comparators_def is_signal_def BN254_R_def sample_word_def)
  moreover have "\<exists>n. i = dec n \<and> n < BN254_R" if "i \<in> set (phi_s_inputs ?pub)" for i
  proof -
    have "\<exists>n. dec (be_value sample_tenant) = dec n \<and> n < BN254_R" "\<exists>n. dec 20260826 = dec n \<and> n < BN254_R"
      using sample_c_b_value(2) by (metis, intro exI [of _ 20260826], simp add: BN254_R_def)
    then show ?thesis
      using that inst limbs_dec bind_dec unfolding pub by (auto simp: phi_s_inputs_def phi_s_instance_def)
  qed
  ultimately have v: "groth16_verify (env_ark ?env) (sp_verifier sample_settle_policy) (sq_proof settle_sample)
      (phi_s_inputs ?pub) = Inr True"
    using phase_groth16 [of "phi_s_inputs ?pub" 11]
    by (simp add: tenancy_env_def sample_settle_policy_def phi_s_inputs_def limbs_def phi_s_signals_def)
  have new: "phi_s_new (opening_commitment sample_sha (ops ! 1), opening_commitment sample_sha (ops ! 2),
      opening_commitment sample_sha (ops ! 3)) sample_word sample_c_b 20260826 ?d = Inr ?pub"
    unfolding phi_s_new_Inr pub using sample_c_b_value by simp
  have subj: "check_subject ''N-000001'' = Inr ()"
    by (simp add: check_subject_def is_ascii_alphanumeric_def is_ascii_digit_def byte_defs)
  have "u64_of (set_expires_at (sq_statement settle_sample)) = Some 1790304400"
    by (simp add: u64_of_def settle_sample_def)
  then have "check_settle ?env phase_verifier settle_sample = Inr ?d"
    unfolding check_settle_def Let_def
    using check hashes new v s stmt subj sample_engagement
    by (simp add: settle_sample_def phase_verifier_simps sample_settle_policy_def ensure_unsigned_def sample_tx_def)
  then have "\<exists>pv' sigma. sign_settle ?env Written phase_verifier settle_sample = (pv', Inr sigma)"
    using sample_record_and_sign unfolding sign_settle_def tenancy_env_def by simp
  with that session o1(1) show ?thesis by blast
qed

lemma tenancy_extracts:
  "phase_extracts (\<lambda>_ _. settle_input ops 0) (phi_s (ref_circomlib sample_sha) ref_comparators sample_phi_s)
     (env_ark (tenancy_env s x ops)) pvk"
  by (simp add: phase_extracts_def tenancy_env_def phase_env_def)

lemma tenancy_no_collision:
  "length ops = 4 \<Longrightarrow> \<not> hash_collision sha (phi_s_messages (settle_input ops n)) (map message_of (tl ops))"
  by (auto simp: length_Suc_conv eval_nat_numeral hash_collision_def phi_s_messages_def settle_input_def message_of_def)

lemma settle_sample_facts:
  "phi_s_params_from_layout (sp_layout sample_settle_policy) = Inr sample_phi_s"
  "is_word (tx_property_id (set_tx_data (sq_statement settle_sample)))"
  by (simp_all add: sample_settle_policy_def sample_phi_s_eq settle_sample_def sample_tx_def is_word_def sample_word_def)

theorem settle_signature_means_tenancy_witness:
  "\<exists>s x ops pv' sigma. sign_settle (tenancy_env s x ops) Written phase_verifier settle_sample = (pv', Inr sigma) \<and>
    field_word tenancy_v1 KEY_PROPERTY_ID ''TR-06-CANKAYA-000123'' = Inr sample_word"
proof -
  obtain s x ops where ses: "settle_session sample_sha (tenancy_env s x ops) phase_verifier settle_sample sample_settle_policy
      \<lparr>as_t_att = 1000, as_connection_time = 990, as_hidden_hashes = map (opening_commitment sample_sha) ops\<rparr>
      ''ACC-000000000001'' sample_values ops"
    and "\<exists>pv' sigma. sign_settle (tenancy_env s x ops) Written phase_verifier settle_sample = (pv', Inr sigma)"
    and n: "length ops = 4" by (rule tenancy_sample)
  then obtain pv' sigma where signed: "sign_settle (tenancy_env s x ops) Written phase_verifier settle_sample = (pv', Inr sigma)"
    by blast
  from settle_signature_means_tenancy [OF sample_sha_ok ref_comparators_ok ses settle_sample_facts(1) tenancy_extracts
      settle_sample_facts(2) signed]
  have "field_word tenancy_v1 KEY_PROPERTY_ID ''TR-06-CANKAYA-000123'' = Inr sample_word"
    using tenancy_no_collision [OF n]
    by (auto simp: settle_witness_def sample_settle_policy_def settle_sample_def sample_tx_def)
  with signed show ?thesis by blast
qed

theorem settled_tenant_is_applicant_witness:
  "\<exists>s x ops s' x' ops' pv1 sigma1 pv2 sigma2.
    sign_apply (applicant_env s x ops) Written phase_verifier apply_sample = (pv1, Inr sigma1) \<and>
    sign_settle (tenancy_env s' x' ops') Written phase_verifier settle_sample = (pv2, Inr sigma2) \<and>
    (\<exists>pa pt. pad income_v1 sample_tenant 16 = Inr pa \<and> pad tenancy_v1 sample_tenant 16 = Inr pt \<and>
      (pa = pt \<or> poseidon_collision ref_comparators (be_value pa, 0) (be_value pt, 0)))"
proof -
  obtain s x ops where ses1: "apply_session sample_sha (applicant_env s x ops) phase_verifier apply_sample sample_apply_policy
      \<lparr>as_t_att = 1000, as_connection_time = 990, as_hidden_hashes = map (opening_commitment sample_sha) ops\<rparr>
      sample_tenant sample_income_value ops"
    and "\<exists>pv' sigma. sign_apply (applicant_env s x ops) Written phase_verifier apply_sample = (pv', Inr sigma)"
    and n1: "length ops = 2" by (rule applicant_sample)
  then obtain pv1 sigma1 where signed1: "sign_apply (applicant_env s x ops) Written phase_verifier apply_sample = (pv1, Inr sigma1)"
    by blast
  obtain s' x' ops' where ses2: "settle_session sample_sha (tenancy_env s' x' ops') phase_verifier settle_sample sample_settle_policy
      \<lparr>as_t_att = 1000, as_connection_time = 990, as_hidden_hashes = map (opening_commitment sample_sha) ops'\<rparr>
      ''ACC-000000000001'' sample_values ops'"
    and "\<exists>pv' sigma. sign_settle (tenancy_env s' x' ops') Written phase_verifier settle_sample = (pv', Inr sigma)"
    and n2: "length ops' = 4" by (rule tenancy_sample)
  then obtain pv2 sigma2 where signed2: "sign_settle (tenancy_env s' x' ops') Written phase_verifier settle_sample = (pv2, Inr sigma2)"
    by blast
  have P: "phi_a_params_from_layout (ap_layout sample_apply_policy) 3 = Inr sample_phi_a"
    by (simp add: sample_apply_policy_def sample_phi_a_eq)
  have same: "app_c_b (aq_statement apply_sample) = set_c_b (sq_statement settle_sample)"
    "account_width (ap_layout sample_apply_policy) = account_width (sp_layout sample_settle_policy)"
    by (simp_all add: apply_sample_def settle_sample_def sample_apply_policy_def sample_settle_policy_def income_v1_def tenancy_v1_def)
  from settled_tenant_is_applicant [OF sample_sha_ok ref_comparators_ok ses1 P applicant_extracts signed1
      ses2 settle_sample_facts(1) tenancy_extracts settle_sample_facts(2) signed2 same]
  have "\<exists>pa pt. pad income_v1 sample_tenant 16 = Inr pa \<and> pad tenancy_v1 sample_tenant 16 = Inr pt \<and>
      (pa = pt \<or> poseidon_collision ref_comparators (be_value pa, 0) (be_value pt, 0))"
    using applicant_no_collision [OF n1] tenancy_no_collision [OF n2]
    by (auto simp: settle_witness_def apply_witness_def sample_settle_policy_def sample_apply_policy_def
        apply_input_def settle_input_def income_v1_def tenancy_v1_def)
  with signed1 signed2 show ?thesis by blast
qed

end
