(* ===== verification/Phase_Inputs.thy ===== *)
theory Phase_Inputs
  imports Phase_Samples
begin

section \<open>The inputs of phi_A and phi_S\<close>

text \<open>
  The inputs that a run of Apply and a run of Settle build (\<open>PhiAInput::new\<close>, \<open>PhiSInput::new\<close> of
  \<open>pprev-prover/src/circuit.rs\<close>) against the circuits: what circom's witness generator reads from an input
  satisfies the constraints exactly when the session's record shows what the statement says.
\<close>

definition phi_a_seen :: "phi_a_input \<Rightarrow> nat list \<times> phi_a_witness" where
  "phi_a_seen i =
     (map dec_value (ia_account_hash i @ ia_income_hash i @ [ia_c_b i, ia_amount i, ia_bind i]),
      \<lparr>wa_account = map byte_val (ia_account i), wa_income = map byte_val (ia_income i),
       wa_account_blinder = map byte_val (ia_account_blinder i), wa_income_blinder = map byte_val (ia_income_blinder i),
       wa_salt = dec_value (ia_salt i)\<rparr>)"

definition phi_s_seen :: "phi_s_input \<Rightarrow> nat list \<times> phi_s_witness" where
  "phi_s_seen i =
     (map dec_value (is_property_hash i @ is_tenant_hash i @ is_date_hash i @ is_property_id i @
        [is_c_b i, is_engagement_day i, is_bind i]),
      \<lparr>ws_property = map byte_val (is_property i), ws_tenant = map byte_val (is_tenant i), ws_date = map byte_val (is_date i),
       ws_property_blinder = map byte_val (is_property_blinder i), ws_tenant_blinder = map byte_val (is_tenant_blinder i),
       ws_date_blinder = map byte_val (is_date_blinder i), ws_salt = dec_value (is_salt i)\<rparr>)"

lemma phi_a_input_new_Inr:
  "phi_a_input_new pub ops salt = Inr i \<Longrightarrow>
   length ops = 2 \<and> phi_a_seen i = (phi_a_signals pub, apply_input ops (be_value salt))"
  by (auto simp: phi_a_input_new_def phi_a_seen_def apply_input_def phi_a_signals_def phi_a_inputs_def limbs_def
      salt_input_def Let_def split: list.splits)

lemma phi_s_input_new_Inr:
  "phi_s_input_new pub ops salt = Inr i \<Longrightarrow>
   length ops = 4 \<and> phi_s_seen i = (phi_s_signals pub, settle_input ops (be_value salt))"
  by (auto simp: phi_s_input_new_def phi_s_seen_def settle_input_def phi_s_signals_def phi_s_inputs_def limbs_def
      salt_input_def Let_def eval_nat_numeral split: list.splits)

text \<open>Whether an income record shows what an Apply statement says, and a tenancy notation what a Settle statement says.\<close>

definition income_shows ::
    "comparators \<Rightarrow> record_layout \<Rightarrow> nat \<Rightarrow> bytes \<Rightarrow> bytes \<Rightarrow> bytes \<Rightarrow> nat \<Rightarrow> bytes \<Rightarrow> bool" where
  "income_shows cm l multiple acct income c_b amount salt \<longleftrightarrow>
     (case (pad l acct (account_width l), pad l income (width (record_fields l ! 0))) of
        (Inr pa, Inr pi) \<Rightarrow> hd pa \<noteq> hd (padding l) \<and> cm_poseidon cm (be_value pa) (be_value salt) = be_value c_b \<and>
          all_digits pi \<and> multiple * amount \<le> dec_value pi
      | _ \<Rightarrow> False)"

definition notation_shows ::
    "comparators \<Rightarrow> record_layout \<Rightarrow> bytes \<Rightarrow> bytes \<Rightarrow> bytes \<Rightarrow> bytes \<Rightarrow> bytes \<Rightarrow> nat \<Rightarrow> bytes \<Rightarrow> bool" where
  "notation_shows cm l prop_id tenant date word c_b engaged salt \<longleftrightarrow>
     field_word l KEY_PROPERTY_ID prop_id = Inr word \<and>
     (case (pad l tenant (account_width l), pad l date 10) of
        (Inr pt, Inr pd) \<Rightarrow> hd pt \<noteq> hd (padding l) \<and> cm_poseidon cm (be_value pt) (be_value salt) = be_value c_b \<and>
          is_ok (day_number pd) \<and> int engaged \<le> date_digits pd
      | _ \<Rightarrow> False)"

lemma positive_account: "validate_record_layout l = Inr () \<Longrightarrow> 0 < account_width l"
  by (simp add: validate_record_layout_def ensure_Inr_iff)

lemma applicant_input_iff:
  assumes lib: "circomlib_ok sha lib" and cm: "comparators_ok cm" and l: "validate_record_layout l = Inr ()"
    and P: "phi_a_params_from_layout l m = Inr P" and gen: "phi_a_generated P"
    and opn: "record_openings l acct [income] blinders = Inr ops" and bl: "list_all (\<lambda>b. length b = 16) blinders"
    and pub: "phi_a_new (opening_commitment sha (ops ! 0)) (opening_commitment sha (ops ! 1)) c_b amount d = Inr pub"
    and inp: "phi_a_input_new pub ops salt = Inr i" and salt: "be_value salt < BN254_R"
  shows "phi_a lib cm P (fst (phi_a_seen i)) (snd (phi_a_seen i)) \<longleftrightarrow>
    income_shows cm l (unat m) acct income c_b (unat amount) salt"
proof -
  note o1 = record_openings_Inr [OF l opn] and i = phi_a_input_new_Inr [OF inp]
  have n: "length (record_fields l) = 1" using o1(1) i by simp
  have b16: "length (fo_blinder (ops ! k)) = 16" if "k < 2" for k
    using bl i that unfolding o1(5) [symmetric] by (simp add: list_all_length)
  have vp: "valid_padding l" using valid_record_padding l by (simp add: valid_record_layout_def)
  have par: "phia_account_w P = account_width l" "phia_income_w P = width (record_fields l ! 0)"
    "phia_padding P = hd (padding l)" "phia_multiple P = unat m"
    using P n padding_byte_hd [of l]
    by (auto simp: phi_a_params_from_layout_def ensure_Inr_iff and_then_Inr_iff width_of_def index_of_def index_at_def
        length_Suc_conv split: if_splits)
  have pa: "pad l acct (account_width l) = Inr (fo_plaintext (ops ! 0))"
    and pi: "pad l income (width (record_fields l ! 0)) = Inr (fo_plaintext (ops ! 1))" using o1(3) o1(4) [of 0] n by simp_all
  have len: "length (fo_plaintext (ops ! 0)) = account_width l"
    "length (fo_plaintext (ops ! 1)) = width (record_fields l ! 0)" using pad_length [OF vp] pa pi by metis+
  then have ne: "fo_plaintext (ops ! 0) \<noteq> []" using positive_account [OF l] by auto
  note pub' = pub [unfolded phi_a_new_Inr]
  have inst: "phi_a_instance pub"
    using pub' lib by (simp add: phi_a_instance_def is_word_def is_signal_def opening_commitment_def circomlib_ok_def)
  have "shows_income sha cm P pub (apply_input ops (be_value salt)) \<and> phi_a_bytes (apply_input ops (be_value salt)) \<longleftrightarrow>
      income_shows cm l (unat m) acct income c_b (unat amount) salt"
    using pub' par len ne b16 salt
    by (simp add: shows_income_def apply_input_def phi_a_bytes_def bytes_of_vals opens_word_def opening_commitment_def
        income_shows_def pa pi is_signal_def Let_def)
  then show ?thesis using i phi_a_iff [OF lib cm gen inst] by simp
qed

lemma tenancy_input_iff:
  assumes lib: "circomlib_ok sha lib" and cm: "comparators_ok cm" and l: "validate_record_layout l = Inr ()"
    and P: "phi_s_params_from_layout l = Inr P" and gen: "phi_s_asserts P"
    and opn: "record_openings l acct [prop_id, tenant, date] blinders = Inr ops" and bl: "list_all (\<lambda>b. length b = 16) blinders"
    and word: "is_word word"
    and pub: "phi_s_new (opening_commitment sha (ops ! 1), opening_commitment sha (ops ! 2), opening_commitment sha (ops ! 3))
      word c_b e d = Inr pub"
    and inp: "phi_s_input_new pub ops salt = Inr i" and salt: "be_value salt < BN254_R"
  shows "phi_s lib cm P (fst (phi_s_seen i)) (snd (phi_s_seen i)) \<longleftrightarrow>
    notation_shows cm l prop_id tenant date word c_b e salt"
proof -
  note o1 = record_openings_Inr [OF l opn] and i = phi_s_input_new_Inr [OF inp] and p = settle_params [OF P]
  have n: "length (record_fields l) = 3" using o1(1) i by simp
  have b16: "length (fo_blinder (ops ! k)) = 16" if "k < 4" for k
    using bl i that unfolding o1(5) [symmetric] by (simp add: list_all_length)
  have vp: "valid_padding l" using valid_record_padding l by (simp add: valid_record_layout_def)
  have f: "pad l prop_id (phis_property_w P) = Inr (fo_plaintext (ops ! 1))"
      "pad l tenant (account_width l) = Inr (fo_plaintext (ops ! 2))" "pad l date 10 = Inr (fo_plaintext (ops ! 3))"
    using o1(4) [of 0] o1(4) [of 1] o1(4) [of 2] n p by (simp_all add: numeral_2_eq_2 numeral_3_eq_3)
  have len: "length (fo_plaintext (ops ! 1)) = phis_property_w P" "length (fo_plaintext (ops ! 2)) = account_width l"
    using pad_length [OF vp] f by metis+
  then have ne: "fo_plaintext (ops ! 2) \<noteq> []" using positive_account [OF l] by auto
  have w: "phis_property_w P \<le> 32" using gen by (simp add: phi_s_asserts_def)
  have fw: "field_word l KEY_PROPERTY_ID prop_id = Inr word \<longleftrightarrow>
      word = fo_plaintext (ops ! 1) @ replicate (32 - phis_property_w P) (CHR 0x00)"
    using f(1) len(1) w by (auto simp: field_word_def p(3))
  have ns: "notation_shows cm l prop_id tenant date word c_b e salt \<longleftrightarrow>
      word = fo_plaintext (ops ! 1) @ replicate (32 - phis_property_w P) (CHR 0x00) \<and>
      hd (fo_plaintext (ops ! 2)) \<noteq> hd (padding l) \<and>
      cm_poseidon cm (be_value (fo_plaintext (ops ! 2))) (be_value salt) = be_value c_b \<and>
      is_ok (day_number (fo_plaintext (ops ! 3))) \<and> int e \<le> date_digits (fo_plaintext (ops ! 3))"
    by (simp add: notation_shows_def f(2,3) fw)
  note pub' = pub [unfolded phi_s_new_Inr]
  have inst: "phi_s_instance pub"
    using pub' lib word by (simp add: phi_s_instance_def is_word_def is_signal_def opening_commitment_def circomlib_ok_def)
  have "shows_tenancy sha cm P pub (settle_input ops (be_value salt)) \<and> phi_s_bytes (settle_input ops (be_value salt)) \<longleftrightarrow>
      notation_shows cm l prop_id tenant date word c_b e salt"
    unfolding ns using pub' p len ne b16 salt
    by (simp add: shows_tenancy_def settle_input_def phi_s_bytes_def bytes_of_vals opens_word_def opening_commitment_def
        is_signal_def is_ok_iff Let_def)
  then show ?thesis using i phi_s_iff [OF lib cm gen inst] by simp
qed

text \<open>C7: The inputs of Apply and Settle. The input that the applicant builds from a session satisfies phi_A exactly
  when the session's account is not blank and opens c_B under the salt and its income is a decimal number of at least the
  policy's multiple of the amount; the input that the landlord builds satisfies phi_S exactly when the notation is on the
  statement's property, its tenant is not blank and opens c_B, and its date is a calendar date whose number is at
  least the engagement day.\<close>

theorem phase_inputs_satisfy_circuits:
  assumes "circomlib_ok sha lib" and "comparators_ok cm"
    and "validate_record_layout la = Inr ()" "phi_a_params_from_layout la m = Inr Pa" "phi_a_generated Pa"
    and "record_openings la acct [income] blinders_a = Inr oa" "list_all (\<lambda>b. length b = 16) blinders_a"
    and "phi_a_new (opening_commitment sha (oa ! 0)) (opening_commitment sha (oa ! 1)) c_b amount d = Inr pub_a"
    and "phi_a_input_new pub_a oa salt = Inr ia"
    and "validate_record_layout ls = Inr ()" "phi_s_params_from_layout ls = Inr Ps" "phi_s_asserts Ps"
    and "record_openings ls landlord [prop_id, tenant, date] blinders_s = Inr os" "list_all (\<lambda>b. length b = 16) blinders_s"
    and "is_word word"
    and "phi_s_new (opening_commitment sha (os ! 1), opening_commitment sha (os ! 2), opening_commitment sha (os ! 3))
      word c_b e d' = Inr pub_s"
    and "phi_s_input_new pub_s os salt = Inr si"
    and "be_value salt < BN254_R"
  shows "(phi_a lib cm Pa (fst (phi_a_seen ia)) (snd (phi_a_seen ia)) \<longleftrightarrow>
      income_shows cm la (unat m) acct income c_b (unat amount) salt) \<and>
    (phi_s lib cm Ps (fst (phi_s_seen si)) (snd (phi_s_seen si)) \<longleftrightarrow>
      notation_shows cm ls prop_id tenant date word c_b e salt)"
  using applicant_input_iff [OF assms(1-9,18)] tenancy_input_iff [OF assms(1,2,10-18)] by blast

text \<open>The sample applicant and the sample tenancy, and an applicant whose income is too low.\<close>

lemma sample_openings_ok:
  "\<exists>ops. record_openings income_v1 sample_tenant [sample_income_value] (replicate 2 sample_blinder) = Inr ops"
  "\<exists>ops. record_openings tenancy_v1 ''ACC-000000000001'' sample_values (replicate 4 sample_blinder) = Inr ops"
proof -
  have "is_ok (render_record income_v1 sample_tenant [sample_income_value])"
    "is_ok (render_record tenancy_v1 ''ACC-000000000001'' sample_values)"
    by (simp_all add: render_record_eq income_v1_def tenancy_v1_def field_values_def pad_def pad_value_def
        first_char_def utf8_width_def byte_defs sample_tenant_def sample_income_value_def)
  then obtain x y where "render_record income_v1 sample_tenant [sample_income_value] = Inr x"
    "render_record tenancy_v1 ''ACC-000000000001'' sample_values = Inr y" by (auto simp: is_ok_iff)
  moreover have "length (record_fields income_v1) = 1" "length (record_fields tenancy_v1) = 3"
    by (simp_all add: income_v1_def tenancy_v1_def)
  ultimately show "\<exists>ops. record_openings income_v1 sample_tenant [sample_income_value] (replicate 2 sample_blinder) = Inr ops"
    "\<exists>ops. record_openings tenancy_v1 ''ACC-000000000001'' sample_values (replicate 4 sample_blinder) = Inr ops"
    using record_openings_ok [OF valid_income_v1] record_openings_ok [OF valid_tenancy_v1] by simp_all
qed

lemma sample_pads:
  "pad income_v1 sample_tenant 16 = Inr sample_tenant" "pad income_v1 sample_income_value 20 = Inr sample_income_value"
  "pad tenancy_v1 sample_tenant 16 = Inr sample_tenant" "pad tenancy_v1 ''2026-09-25'' 10 = Inr ''2026-09-25''"
  by (simp_all add: pad_def pad_value_def sample_tenant_def sample_income_value_def income_v1_def tenancy_v1_def
      first_char_def utf8_width_def byte_defs)

lemma sample_shows:
  "income_shows ref_comparators income_v1 3 sample_tenant sample_income_value sample_c_b 1000 (replicate 32 (CHR 0x00))"
  "\<not> income_shows ref_comparators income_v1 3 sample_tenant sample_income_value sample_c_b 1001 (replicate 32 (CHR 0x00))"
proof -
  have l: "account_width income_v1 = 16" "width (record_fields income_v1 ! 0) = 20" "padding income_v1 = '' ''"
    by (simp_all add: income_v1_def)
  have z: "be_value (replicate 32 (CHR 0x00)) = 0" using be_value_zeros [of "[]" 32] by simp
  have d: "all_digits sample_income_value" "dec_value sample_income_value = 3000"
    by (simp_all add: sample_income_value_def all_digits_def is_ascii_digit_def dec_value_def)
  have h: "hd sample_tenant \<noteq> CHR '' ''" by (simp add: sample_tenant_def)
  show "income_shows ref_comparators income_v1 3 sample_tenant sample_income_value sample_c_b 1000 (replicate 32 (CHR 0x00))"
    "\<not> income_shows ref_comparators income_v1 3 sample_tenant sample_income_value sample_c_b 1001 (replicate 32 (CHR 0x00))"
    unfolding income_shows_def l sample_pads using z d h sample_c_b_value by (simp_all add: ref_comparators_def)
qed

lemma sample_notation_shows:
  "notation_shows ref_comparators tenancy_v1 ''TR-06-CANKAYA-000123'' sample_tenant ''2026-09-25'' sample_word sample_c_b
     20260826 (replicate 32 (CHR 0x00))"
proof -
  have l: "account_width tenancy_v1 = 16" "padding tenancy_v1 = '' ''" by (simp_all add: tenancy_v1_def)
  have z: "be_value (replicate 32 (CHR 0x00)) = 0" using be_value_zeros [of "[]" 32] by simp
  have h: "hd sample_tenant \<noteq> CHR '' ''" by (simp add: sample_tenant_def)
  have "field_word tenancy_v1 KEY_PROPERTY_ID ''TR-06-CANKAYA-000123'' = Inr sample_word"
    by (simp add: field_word_def width_of_def index_of_def index_at_def tenancy_v1_def KEY_PROPERTY_ID_def pad_def pad_value_def
        first_char_def utf8_width_def byte_defs sample_word_def)
  then show ?thesis
    unfolding notation_shows_def l sample_pads using z h sample_c_b_value sample_date by (simp add: ref_comparators_def)
qed

lemma sample_phase_inputs:
  "\<exists>oa os pub_a pub_s ia si.
     record_openings income_v1 sample_tenant [sample_income_value] (replicate 2 sample_blinder) = Inr oa \<and>
     record_openings tenancy_v1 ''ACC-000000000001'' sample_values (replicate 4 sample_blinder) = Inr os \<and>
     phi_a_new (opening_commitment sample_sha (oa ! 0)) (opening_commitment sample_sha (oa ! 1)) sample_c_b 1000
       (replicate 32 (CHR 0x00)) = Inr pub_a \<and>
     phi_s_new (opening_commitment sample_sha (os ! 1), opening_commitment sample_sha (os ! 2),
       opening_commitment sample_sha (os ! 3)) sample_word sample_c_b 20260826 (replicate 32 (CHR 0x00)) = Inr pub_s \<and>
     phi_a_input_new pub_a oa (replicate 32 (CHR 0x00)) = Inr ia \<and> phi_s_input_new pub_s os (replicate 32 (CHR 0x00)) = Inr si"
proof -
  obtain oa os where oa: "record_openings income_v1 sample_tenant [sample_income_value] (replicate 2 sample_blinder) = Inr oa"
    and os: "record_openings tenancy_v1 ''ACC-000000000001'' sample_values (replicate 4 sample_blinder) = Inr os"
    using sample_openings_ok by blast
  let ?salt = "replicate 32 (CHR 0x00)"
  have n: "length oa = 2" "length os = 4" using applicant_openings [OF oa] tenancy_openings [OF os] by simp_all
  obtain pub_a where pa: "phi_a_new (opening_commitment sample_sha (oa ! 0)) (opening_commitment sample_sha (oa ! 1))
      sample_c_b 1000 ?salt = Inr pub_a" using sample_c_b_value by (auto simp: phi_a_new_Inr)
  obtain pub_s where ps: "phi_s_new (opening_commitment sample_sha (os ! 1), opening_commitment sample_sha (os ! 2),
      opening_commitment sample_sha (os ! 3)) sample_word sample_c_b 20260826 ?salt = Inr pub_s"
    using sample_c_b_value by (auto simp: phi_s_new_Inr)
  obtain ia si where "phi_a_input_new pub_a oa ?salt = Inr ia" "phi_s_input_new pub_s os ?salt = Inr si"
    using n by (auto simp: phi_a_input_new_def phi_s_input_new_def length_Suc_conv eval_nat_numeral Let_def)
  then show ?thesis using oa os pa ps by blast
qed

lemma sample_phase_facts:
  "phi_a_generated sample_phi_a" "phi_s_asserts sample_phi_s" "is_word sample_word"
  "be_value (replicate 32 (CHR 0x00)) < BN254_R"
  using be_value_zeros [of "[]" 32]
  by (simp_all add: phi_a_generated_def sample_phi_a_def PHI_A_AMOUNT_BITS_def phi_s_asserts_def sample_phi_s_def
      is_word_def sample_word_def BN254_R_def)

theorem phase_inputs_satisfy_circuits_witness:
  "\<exists>ia si. phi_a (ref_circomlib sample_sha) ref_comparators sample_phi_a (fst (phi_a_seen ia)) (snd (phi_a_seen ia)) \<and>
    phi_s (ref_circomlib sample_sha) ref_comparators sample_phi_s (fst (phi_s_seen si)) (snd (phi_s_seen si))"
proof -
  obtain oa os pub_a pub_s ia si where
    "record_openings income_v1 sample_tenant [sample_income_value] (replicate 2 sample_blinder) = Inr oa"
    "record_openings tenancy_v1 ''ACC-000000000001'' sample_values (replicate 4 sample_blinder) = Inr os"
    "phi_a_new (opening_commitment sample_sha (oa ! 0)) (opening_commitment sample_sha (oa ! 1)) sample_c_b 1000
       (replicate 32 (CHR 0x00)) = Inr pub_a"
    "phi_s_new (opening_commitment sample_sha (os ! 1), opening_commitment sample_sha (os ! 2),
       opening_commitment sample_sha (os ! 3)) sample_word sample_c_b 20260826 (replicate 32 (CHR 0x00)) = Inr pub_s"
    "phi_a_input_new pub_a oa (replicate 32 (CHR 0x00)) = Inr ia" "phi_s_input_new pub_s os (replicate 32 (CHR 0x00)) = Inr si"
    using sample_phase_inputs by blast
  from phase_inputs_satisfy_circuits [OF sample_sha_ok ref_comparators_ok valid_income_v1 sample_phi_a_eq
      sample_phase_facts(1) this(1) sample_blinders this(3,5) valid_tenancy_v1 sample_phi_s_eq sample_phase_facts(2)
      this(2) sample_blinders sample_phase_facts(3) this(4,6) sample_phase_facts(4)]
  show ?thesis using sample_shows(1) sample_notation_shows by auto
qed

end
