(* ===== verification/Wire.thy ===== *)
theory Wire
  imports Policy_Verifier
begin

section \<open>Messages between a submitter and the policy verifier\<close>

text \<open>
  Model of \<open>pprev-notary/src/wire.rs\<close>: the three submissions, their decoding into requests, and the
  reading and writing of one message per connection with the bound on its size. The ABI codec and the
  JSON reader are the record \<open>request_codec\<close>; bincode's \<open>serialize\<close> and \<open>deserialize\<close> are
  arguments. A stream is the bytes the peer sends before it closes its half, or before the connection
  breaks. The durations of a reply are not modelled.
\<close>

definition MAX_MESSAGE_BYTES :: nat where "MAX_MESSAGE_BYTES = 16 * 2 ^ 20"

subsection \<open>Submissions\<close>

record 'p register_submission =
  rsub_presentation :: 'p
  rsub_property_id :: bytes
  rsub_statement :: bytes
  rsub_proof_json :: bytes

record 'p apply_submission =
  asub_presentation :: 'p
  asub_statement :: bytes
  asub_proof_json :: bytes

record 'p settle_submission =
  ssub_presentation :: 'p
  ssub_notation_id :: bytes
  ssub_statement :: bytes
  ssub_proof_json :: bytes

datatype 'p submission =
    Sub_register "'p register_submission"
  | Sub_apply "'p apply_submission"
  | Sub_settle "'p settle_submission"

record request_codec =
  abi_encode_stmt :: "statement \<Rightarrow> bytes"
  abi_decode_register :: "bytes \<Rightarrow> register_stmt res"
  abi_decode_apply :: "bytes \<Rightarrow> apply_stmt res"
  abi_decode_settle :: "bytes \<Rightarrow> settle_stmt res"
  read_proof_json :: "bytes \<Rightarrow> proof_json res"

definition register_submission_new ::
    "request_codec \<Rightarrow> 'p \<Rightarrow> bytes \<Rightarrow> register_stmt \<Rightarrow> bytes \<Rightarrow> 'p register_submission" where
  "register_submission_new codec presentation pid x json =
     \<lparr>rsub_presentation = presentation, rsub_property_id = pid,
      rsub_statement = abi_encode_stmt codec (Register_stmt x), rsub_proof_json = json\<rparr>"

definition apply_submission_new ::
    "request_codec \<Rightarrow> 'p \<Rightarrow> apply_stmt \<Rightarrow> bytes \<Rightarrow> 'p apply_submission" where
  "apply_submission_new codec presentation x json =
     \<lparr>asub_presentation = presentation, asub_statement = abi_encode_stmt codec (Apply_stmt x),
      asub_proof_json = json\<rparr>"

definition settle_submission_new ::
    "request_codec \<Rightarrow> 'p \<Rightarrow> bytes \<Rightarrow> settle_stmt \<Rightarrow> bytes \<Rightarrow> 'p settle_submission" where
  "settle_submission_new codec presentation nid x json =
     \<lparr>ssub_presentation = presentation, ssub_notation_id = nid,
      ssub_statement = abi_encode_stmt codec (Settle_stmt x), ssub_proof_json = json\<rparr>"

definition register_into_request ::
    "('g1, 'g2, 'pvk) arkworks \<Rightarrow> request_codec \<Rightarrow> 'p register_submission
      \<Rightarrow> ('p, 'g1, 'g2) register_request res" where
  "register_into_request ark codec s =
     and_then (with_ctx ''decoding x_R'' (abi_decode_register codec (rsub_statement s))) (\<lambda>x.
     and_then (proof_from_json ark (read_proof_json codec) (rsub_proof_json s)) (\<lambda>prf.
     Inr \<lparr>rq_presentation = rsub_presentation s, rq_property_id = rsub_property_id s,
          rq_statement = x, rq_proof = prf\<rparr>))"

definition apply_into_request ::
    "('g1, 'g2, 'pvk) arkworks \<Rightarrow> request_codec \<Rightarrow> 'p apply_submission
      \<Rightarrow> ('p, 'g1, 'g2) apply_request res" where
  "apply_into_request ark codec s =
     and_then (with_ctx ''decoding x_A'' (abi_decode_apply codec (asub_statement s))) (\<lambda>x.
     and_then (proof_from_json ark (read_proof_json codec) (asub_proof_json s)) (\<lambda>prf.
     Inr \<lparr>aq_presentation = asub_presentation s, aq_statement = x, aq_proof = prf\<rparr>))"

definition settle_into_request ::
    "('g1, 'g2, 'pvk) arkworks \<Rightarrow> request_codec \<Rightarrow> 'p settle_submission
      \<Rightarrow> ('p, 'g1, 'g2) settle_request res" where
  "settle_into_request ark codec s =
     and_then (with_ctx ''decoding x_S'' (abi_decode_settle codec (ssub_statement s))) (\<lambda>x.
     and_then (proof_from_json ark (read_proof_json codec) (ssub_proof_json s)) (\<lambda>prf.
     Inr \<lparr>sq_presentation = ssub_presentation s, sq_notation_id = ssub_notation_id s,
          sq_statement = x, sq_proof = prf\<rparr>))"

fun submission_phase :: "'p submission \<Rightarrow> bytes" where
  "submission_phase (Sub_register _) = ''register''"
| "submission_phase (Sub_apply _) = ''apply''"
| "submission_phase (Sub_settle _) = ''settle''"

datatype reply = Signed bytes | Refused bytes

subsection \<open>One message per connection\<close>

record incoming =
  in_bytes :: bytes
  in_closed :: bool

text \<open>\<open>take(limit).read_to_end\<close>: reading stops at the limit, at the end of the stream or at an error.\<close>

definition read_to_end :: "nat \<Rightarrow> incoming \<Rightarrow> bytes res" where
  "read_to_end limit s =
     (if limit \<le> length (in_bytes s) then Inr (take limit (in_bytes s))
      else if in_closed s then Inr (in_bytes s) else Inl (Msg ''connection reset''))"

definition read_message :: "(bytes \<Rightarrow> 'm res) \<Rightarrow> incoming \<Rightarrow> 'm res" where
  "read_message deserialize s =
     and_then (read_to_end (MAX_MESSAGE_BYTES + 1) s) (\<lambda>bs.
     ensure (length bs \<le> MAX_MESSAGE_BYTES) ''message exceeds 16777216 bytes''
       (with_ctx ''decoding message'' (deserialize bs)))"

text \<open>What the peer's side of a connection does with what is written to it.\<close>

datatype sink = Accepts | Fails_after nat | Shutdown_fails

definition write_message :: "('m \<Rightarrow> bytes res) \<Rightarrow> sink \<Rightarrow> 'm \<Rightarrow> bytes \<times> unit res" where
  "write_message serialize s m =
     (case serialize m of
        Inl e \<Rightarrow> ([], Inl e)
      | Inr bs \<Rightarrow>
          (case s of
             Accepts \<Rightarrow> (bs, Inr ())
           | Fails_after n \<Rightarrow> (take n bs, Inl (Msg ''write failed''))
           | Shutdown_fails \<Rightarrow> (bs, Inl (Msg ''shutdown failed''))))"

text \<open>\<open>connect\<close> yields the sink of a connection and \<open>peer\<close> what comes back for what was sent.\<close>

definition submit ::
    "('addr \<Rightarrow> sink res) \<Rightarrow> ('addr \<Rightarrow> bytes \<Rightarrow> incoming) \<Rightarrow> ('p submission \<Rightarrow> bytes res) \<Rightarrow> (bytes \<Rightarrow> reply res)
      \<Rightarrow> 'addr \<Rightarrow> 'p submission \<Rightarrow> reply res" where
  "submit connect peer serialize deserialize addr sub =
     and_then (with_ctx ''connecting to the policy verifier'' (connect addr)) (\<lambda>snk.
     (case write_message serialize snk sub of
        (_, Inl e) \<Rightarrow> Inl e
      | (sent, Inr _) \<Rightarrow> read_message deserialize (peer addr sent)))"

definition submit_register ::
    "('addr \<Rightarrow> sink res) \<Rightarrow> ('addr \<Rightarrow> bytes \<Rightarrow> incoming) \<Rightarrow> ('p submission \<Rightarrow> bytes res) \<Rightarrow> (bytes \<Rightarrow> reply res)
      \<Rightarrow> 'addr \<Rightarrow> 'p register_submission \<Rightarrow> reply res" where
  "submit_register connect peer serialize deserialize addr s =
     submit connect peer serialize deserialize addr (Sub_register s)"

subsection \<open>Requests of submissions\<close>

definition submission_into_request ::
    "('g1, 'g2, 'pvk) arkworks \<Rightarrow> request_codec \<Rightarrow> 'p submission \<Rightarrow> ('p, 'g1, 'g2) phase_request res" where
  "submission_into_request ark codec s =
     (case s of
        Sub_register r \<Rightarrow> and_then (register_into_request ark codec r) (\<lambda>q. Inr (Sign_register q))
      | Sub_apply a \<Rightarrow> and_then (apply_into_request ark codec a) (\<lambda>q. Inr (Sign_apply q))
      | Sub_settle t \<Rightarrow> and_then (settle_into_request ark codec t) (\<lambda>q. Inr (Sign_settle q)))"

text \<open>The nonce of a statement is a \<open>bytes32\<close>, so a decoded one has 32 bytes.\<close>

definition abi_words :: "request_codec \<Rightarrow> bool" where
  "abi_words codec \<longleftrightarrow>
     (\<forall>bs x. abi_decode_register codec bs = Inr x \<longrightarrow> length (reg_eta x) = 32) \<and>
     (\<forall>bs x. abi_decode_apply codec bs = Inr x \<longrightarrow> length (app_eta x) = 32) \<and>
     (\<forall>bs x. abi_decode_settle codec bs = Inr x \<longrightarrow> length (set_eta x) = 32)"

lemma into_request_eta:
  "abi_words codec \<Longrightarrow> submission_into_request ark codec s = Inr q \<Longrightarrow>
   length (statement_eta (request_statement q)) = 32"
  by (auto simp: submission_into_request_def register_into_request_def apply_into_request_def
      settle_into_request_def and_then_Inr_iff abi_words_def split: submission.splits)

text \<open>A message is decoded exactly when the peer closed its half after at most \<open>MAX_MESSAGE_BYTES\<close>
  bytes and these are one encoded message: nothing is decoded from a connection that broke or from a
  longer message, and what is held of one is bounded.\<close>

theorem read_message_iff:
  "(read_message deserialize s = Inr m \<longleftrightarrow>
      in_closed s \<and> length (in_bytes s) \<le> 16777216 \<and> deserialize (in_bytes s) = Inr m) \<and>
   (case read_to_end (MAX_MESSAGE_BYTES + 1) s of Inl _ \<Rightarrow> True | Inr bs \<Rightarrow> length bs \<le> 16777217)"
  by (auto simp: read_message_def read_to_end_def MAX_MESSAGE_BYTES_def and_then_Inr_iff ensure_Inr_iff)

text \<open>C39: What a submitter sends is what the policy verifier decides on: when bincode and the ABI codec
  decode what they encoded, a submission written within the bound is read back as the request with
  the presentation, the subject and the statement it was made of, and with the proof that its JSON
  holds.\<close>

theorem submissions_round_trip:
  assumes "serialize sub = Inr bs" "deserialize bs = Inr sub" "length bs \<le> MAX_MESSAGE_BYTES"
  shows "fst (write_message serialize Accepts sub) = bs \<and>
    read_message deserialize \<lparr>in_bytes = bs, in_closed = True\<rparr> = Inr sub \<and>
    (sub = Sub_register (register_submission_new codec p pid x json) \<longrightarrow>
       abi_decode_register codec (abi_encode_stmt codec (Register_stmt x)) = Inr x \<longrightarrow>
       submission_into_request ark codec sub = and_then (proof_from_json ark (read_proof_json codec) json)
         (\<lambda>prf. Inr (Sign_register \<lparr>rq_presentation = p, rq_property_id = pid, rq_statement = x, rq_proof = prf\<rparr>))) \<and>
    (sub = Sub_apply (apply_submission_new codec p y json) \<longrightarrow>
       abi_decode_apply codec (abi_encode_stmt codec (Apply_stmt y)) = Inr y \<longrightarrow>
       submission_into_request ark codec sub = and_then (proof_from_json ark (read_proof_json codec) json)
         (\<lambda>prf. Inr (Sign_apply \<lparr>aq_presentation = p, aq_statement = y, aq_proof = prf\<rparr>))) \<and>
    (sub = Sub_settle (settle_submission_new codec p pid z json) \<longrightarrow>
       abi_decode_settle codec (abi_encode_stmt codec (Settle_stmt z)) = Inr z \<longrightarrow>
       submission_into_request ark codec sub = and_then (proof_from_json ark (read_proof_json codec) json)
         (\<lambda>prf. Inr (Sign_settle \<lparr>sq_presentation = p, sq_notation_id = pid, sq_statement = z, sq_proof = prf\<rparr>)))"
  using assms
  by (simp add: write_message_def read_message_def read_to_end_def submission_into_request_def
      register_submission_new_def apply_submission_new_def settle_submission_new_def
      register_into_request_def apply_into_request_def settle_into_request_def and_then_assoc)

text \<open>Codecs for the witness: every statement is encoded as its nonce, and the message as its proof.\<close>

definition sample_codec :: "register_stmt \<Rightarrow> request_codec" where
  "sample_codec x =
     \<lparr>abi_encode_stmt = statement_eta,
      abi_decode_register = (\<lambda>bs. Inr (x\<lparr>reg_eta := take 32 (bs @ replicate 32 (CHR 0x00))\<rparr>)),
      abi_decode_apply = (\<lambda>_. bail ''x_A''), abi_decode_settle = (\<lambda>_. bail ''x_S''),
      read_proof_json = (\<lambda>_. Inr \<lparr>pj_protocol = ''groth16'', pj_curve = ''bn128'', pj_a = [''1'', ''2'', ''1''],
        pj_b = [[''1'', ''1''], [''1'', ''1''], [''1'', ''0'']], pj_c = [''1'', ''2'', ''1'']\<rparr>)\<rparr>"

lemma sample_codec_words: "abi_words (sample_codec x)"
  by (auto simp: abi_words_def sample_codec_def bail_def)

lemma sample_codec_decodes:
  "abi_decode_register (sample_codec sample_statement) (abi_encode_stmt (sample_codec sample_statement)
     (Register_stmt sample_statement)) = Inr sample_statement"
  by (simp add: sample_codec_def sample_statement_def sample_nonce_def)

lemma sample_proof_parsed:
  "proof_from_json sample_ark (read_proof_json (sample_codec x)) json =
     Inr \<lparr>proof_a = (1, 2), proof_b = ((1, 1), (1, 1)), proof_c = (1, 2)\<rparr>"
  by (simp add: proof_from_json_def sample_codec_def sample_ark_def check_scheme_def parse_g1_def parse_g2_def
      parse_fq2_def parse_field_def dec_value_def byte_defs BN254_R_def Let_def)

theorem submissions_round_trip_witness:
  "submission_into_request sample_ark (sample_codec sample_statement)
     (Sub_register (register_submission_new (sample_codec sample_statement) () ''TR-06-CANKAYA-000123''
        sample_statement ''proof'')) =
     Inr (Sign_register \<lparr>rq_presentation = (), rq_property_id = ''TR-06-CANKAYA-000123'',
       rq_statement = sample_statement, rq_proof = \<lparr>proof_a = (1, 2), proof_b = ((1, 1), (1, 1)), proof_c = (1, 2)\<rparr>\<rparr>)"
proof -
  let ?sub = "Sub_register (register_submission_new (sample_codec sample_statement) () ''TR-06-CANKAYA-000123''
        sample_statement ''proof'')"
  have "length ''m'' \<le> MAX_MESSAGE_BYTES" by (simp add: MAX_MESSAGE_BYTES_def)
  note trip = submissions_round_trip [of "\<lambda>_. Inr ''m''" ?sub "''m''" "\<lambda>_. Inr ?sub", OF refl refl this,
      where codec = "sample_codec sample_statement" and p = "()" and json = "''proof''"
      and pid = "''TR-06-CANKAYA-000123''" and x = sample_statement and ark = sample_ark,
      THEN conjunct2, THEN conjunct2, THEN conjunct1, rule_format, OF refl sample_codec_decodes]
  show ?thesis unfolding trip sample_proof_parsed by simp
qed

end
