(* ===== verification/Policy.thy ===== *)
theory Policy
  imports Statement
begin

section \<open>Policy bundles\<close>

text \<open>
  Model of \<open>pprev-types/src/policy.rs\<close>: the policy bundle file, its checks and the identifiers and
  escrow bounds it gives. Reading the file, \<open>serde_json\<close>, keccak256 and the parsing of a decimal
  string as a \<open>U256\<close> are parameters.
\<close>

record policy_labels =
  label_register :: bytes
  label_apply :: bytes
  label_settle :: bytes

record register_source =
  register_layout_path :: bytes
  register_vk_path :: bytes

record apply_source =
  apply_layout_path :: bytes
  apply_vk_path :: bytes
  income_multiple :: u64
  amount_unit :: bytes

record settle_source =
  settle_layout_path :: bytes
  settle_vk_path :: bytes
  utc_offset_secs :: int

record policy_bundle =
  bundle_id :: bytes
  bundle_labels :: policy_labels
  bundle_register :: register_source
  bundle_apply :: "apply_source option"
  bundle_settle :: "settle_source option"
  req_escrow_wei :: bytes
  min_collateral_wei :: bytes
  max_collateral_wei :: bytes

definition wei :: "(bytes \<Rightarrow> u256 res) \<Rightarrow> bytes \<Rightarrow> bytes \<Rightarrow> u256 res" where
  "wei parse_u256 s name =
     ensure (s \<noteq> [] \<and> all_digits s) (name @ '' is not a decimal number'') (
     with_ctx (name @ '' is not a uint256'') (parse_u256 s))"

definition req_escrow :: "(bytes \<Rightarrow> u256 res) \<Rightarrow> policy_bundle \<Rightarrow> u256 res" where
  "req_escrow parse_u256 b = wei parse_u256 (req_escrow_wei b) ''reqEscrowWei''"

definition min_collateral :: "(bytes \<Rightarrow> u256 res) \<Rightarrow> policy_bundle \<Rightarrow> u256 res" where
  "min_collateral parse_u256 b = wei parse_u256 (min_collateral_wei b) ''minCollateralWei''"

definition max_collateral :: "(bytes \<Rightarrow> u256 res) \<Rightarrow> policy_bundle \<Rightarrow> u256 res" where
  "max_collateral parse_u256 b = wei parse_u256 (max_collateral_wei b) ''maxCollateralWei''"

definition check_bundle :: "(bytes \<Rightarrow> u256 res) \<Rightarrow> policy_bundle \<Rightarrow> policy_bundle res" where
  "check_bundle parse_u256 b =
     and_then (min_collateral parse_u256 b) (\<lambda>lo.
     and_then (max_collateral parse_u256 b) (\<lambda>hi.
     ensure (lo \<le> hi) ''minCollateralWei exceeds maxCollateralWei'' (
     and_then (req_escrow parse_u256 b) (\<lambda>_.
     and_then (case bundle_apply b of
         None \<Rightarrow> Inr ()
       | Some a \<Rightarrow> ensure (income_multiple a > 0) ''incomeMultiple must be positive'' (
                   ensure (amount_unit a \<noteq> []) ''amountUnit must name a unit'' (Inr ()))) (\<lambda>_.
     and_then (case bundle_settle b of
         None \<Rightarrow> Inr ()
       | Some s \<Rightarrow> ensure (- (14 * 3600) \<le> utc_offset_secs s \<and> utc_offset_secs s \<le> 14 * 3600)
                     ''utcOffsetSecs is not a time-zone offset'' (Inr ())) (\<lambda>_.
     Inr b))))))"

definition load_bundle ::
    "('path \<Rightarrow> bytes res) \<Rightarrow> (bytes \<Rightarrow> policy_bundle res) \<Rightarrow> (bytes \<Rightarrow> u256 res) \<Rightarrow> 'path
      \<Rightarrow> policy_bundle res" where
  "load_bundle read_to_string serde_json_from_str parse_u256 file =
     and_then (with_ctx ''reading'' (read_to_string file)) (\<lambda>text.
     and_then (with_ctx ''parsing'' (serde_json_from_str text)) (\<lambda>bundle.
     check_bundle parse_u256 bundle))"

definition policy_id_r :: "(bytes \<Rightarrow> bytes) \<Rightarrow> policy_bundle \<Rightarrow> bytes" where
  "policy_id_r keccak256 b = keccak256 (label_register (bundle_labels b))"

definition policy_id_a :: "(bytes \<Rightarrow> bytes) \<Rightarrow> policy_bundle \<Rightarrow> bytes" where
  "policy_id_a keccak256 b = keccak256 (label_apply (bundle_labels b))"

definition policy_id_s :: "(bytes \<Rightarrow> bytes) \<Rightarrow> policy_bundle \<Rightarrow> bytes" where
  "policy_id_s keccak256 b = keccak256 (label_settle (bundle_labels b))"

text \<open>What a loaded bundle satisfies.\<close>

lemma check_bundle_Inr_iff:
  "check_bundle parse_u256 b = Inr c \<longleftrightarrow> c = b \<and>
     (\<exists>lo hi esc. min_collateral parse_u256 b = Inr lo \<and> max_collateral parse_u256 b = Inr hi \<and>
        req_escrow parse_u256 b = Inr esc \<and> lo \<le> hi) \<and>
     (\<forall>a. bundle_apply b = Some a \<longrightarrow> 0 < income_multiple a \<and> amount_unit a \<noteq> []) \<and>
     (\<forall>s. bundle_settle b = Some s \<longrightarrow>
        - 50400 \<le> utc_offset_secs s \<and> utc_offset_secs s \<le> 50400)"
  by (auto simp: check_bundle_def and_then_Inr_iff ensure_Inr_iff split: option.splits)

end
