(* ===== verification/Notary_Service.thy ===== *)
theory Notary_Service
  imports Wire Policy
begin

section \<open>The policy verifier as a service\<close>

text \<open>
  Model of \<open>pprev-notary/src/bin/pprev-notary.rs\<close>: reading the keys and the policies at start, and the
  policy-verifier listener. Each connection is a task of its own: it reads a submission, decides on it
  while it holds the mutex of the verifier, logs the outcome and writes the reply. The step relation
  interleaves these three steps of any number of connections. A panic while the mutex is held poisons
  it. The file system, JSON, keccak256 and the parsing of a \<open>uint256\<close> are the record \<open>loader\<close>; the
  durations in an event and the arguments' defaults are not modelled.
\<close>

subsection \<open>Start\<close>

record ('path) loader =
  ld_read :: "'path \<Rightarrow> bytes res"
  ld_join :: "'path \<Rightarrow> bytes \<Rightarrow> 'path"
  ld_bundle :: "bytes \<Rightarrow> policy_bundle res"
  ld_layout :: "bytes \<Rightarrow> layout res"
  ld_record_layout :: "bytes \<Rightarrow> record_layout res"
  ld_vk :: "bytes \<Rightarrow> vk_json res"
  ld_keccak256 :: "bytes \<Rightarrow> bytes"
  ld_u256 :: "bytes \<Rightarrow> u256 res"

record 'path notary_args =
  arg_registry_ca :: 'path
  arg_policy :: "'path list"
  arg_root :: 'path
  arg_attestation_key :: 'path
  arg_statement_key :: 'path
  arg_chain_id :: u64
  arg_contract :: bytes
  arg_tau_lock :: "u64 option"
  arg_nonces :: 'path
  arg_max_session_secs :: u64

definition strip_0x :: "bytes \<Rightarrow> bytes" where
  "strip_0x s = (if prefix ''0x'' s then drop 2 s else s)"

definition read_key :: "(bytes \<Rightarrow> bytes option) \<Rightarrow> ('path \<Rightarrow> bytes res) \<Rightarrow> 'path \<Rightarrow> bytes res" where
  "read_key hex_decode read_to_string file =
     and_then (with_ctx ''reading'' (read_to_string file)) (\<lambda>text.
     and_then (some_or ''not hex'' (hex_decode (strip_0x (trim text)))) (\<lambda>bs.
     some_or ''not 32 bytes'' (if length bs = 32 then Some bs else None)))"

definition load_verifier ::
    "('g1, 'g2, 'pvk) arkworks \<Rightarrow> 'path loader \<Rightarrow> 'path notary_args \<Rightarrow> bytes \<Rightarrow> 'pvk groth16_verifier res" where
  "load_verifier ark ld args file =
     and_then (with_ctx ''reading'' (ld_read ld (ld_join ld (arg_root args) file)))
       (verifier_from_json ark (ld_vk ld))"

record 'pvk policy_tables =
  pt_register :: "bytes \<rightharpoonup> 'pvk register_policy"
  pt_apply :: "bytes \<rightharpoonup> 'pvk apply_policy"
  pt_settle :: "bytes \<rightharpoonup> 'pvk settle_policy"

text \<open>\<open>HashMap::insert(..).is_none()\<close>\<close>

definition insert_new :: "bytes \<Rightarrow> ('k \<rightharpoonup> 'v) \<Rightarrow> 'k \<Rightarrow> 'v \<Rightarrow> ('k \<rightharpoonup> 'v) res" where
  "insert_new msg m k v = ensure (m k = None) msg (Inr (m(k \<mapsto> v)))"

definition load_apply_policy ::
    "('g1, 'g2, 'pvk) arkworks \<Rightarrow> 'path loader \<Rightarrow> 'path notary_args \<Rightarrow> policy_bundle
      \<Rightarrow> (bytes \<rightharpoonup> 'pvk apply_policy) \<Rightarrow> (bytes \<rightharpoonup> 'pvk apply_policy) res" where
  "load_apply_policy ark ld args bundle apply =
     (case bundle_apply bundle of
        None \<Rightarrow> Inr apply
      | Some source \<Rightarrow>
          and_then (load_record_layout (ld_read ld) (ld_record_layout ld)
            (ld_join ld (arg_root args) (apply_layout_path source))) (\<lambda>layout.
          and_then (load_verifier ark ld args (apply_vk_path source)) (\<lambda>v.
          insert_new ''Apply policy is listed twice'' apply (policy_id_a (ld_keccak256 ld) bundle)
            \<lparr>ap_layout = layout, ap_verifier = v\<rparr>)))"

definition load_settle_policy ::
    "('g1, 'g2, 'pvk) arkworks \<Rightarrow> 'path loader \<Rightarrow> 'path notary_args \<Rightarrow> policy_bundle
      \<Rightarrow> (bytes \<rightharpoonup> 'pvk settle_policy) \<Rightarrow> (bytes \<rightharpoonup> 'pvk settle_policy) res" where
  "load_settle_policy ark ld args bundle settle =
     (case bundle_settle bundle of
        None \<Rightarrow> Inr settle
      | Some source \<Rightarrow>
          ensure (arg_tau_lock args \<noteq> None) ''policy has a Settle source; --tau-lock is required'' (
          and_then (load_record_layout (ld_read ld) (ld_record_layout ld)
            (ld_join ld (arg_root args) (settle_layout_path source))) (\<lambda>layout.
          and_then (load_verifier ark ld args (settle_vk_path source)) (\<lambda>v.
          insert_new ''Settle policy is listed twice'' settle (policy_id_s (ld_keccak256 ld) bundle)
            \<lparr>sp_layout = layout, sp_verifier = v, sp_utc_offset_secs = utc_offset_secs source\<rparr>))))"

definition load_register_policy ::
    "('g1, 'g2, 'pvk) arkworks \<Rightarrow> 'path loader \<Rightarrow> 'path notary_args \<Rightarrow> policy_bundle
      \<Rightarrow> (bytes \<rightharpoonup> 'pvk register_policy) \<Rightarrow> (bytes \<rightharpoonup> 'pvk register_policy) res" where
  "load_register_policy ark ld args bundle policies =
     (let source = bundle_register bundle in
      and_then (load_layout (ld_read ld) (ld_layout ld)
        (ld_join ld (arg_root args) (register_layout_path source))) (\<lambda>layout.
      and_then (load_verifier ark ld args (register_vk_path source)) (\<lambda>v.
      insert_new ''policy is listed twice'' policies (policy_id_r (ld_keccak256 ld) bundle)
        \<lparr>rp_layout = layout, rp_verifier = v\<rparr>)))"

fun load_policies_from ::
    "('g1, 'g2, 'pvk) arkworks \<Rightarrow> 'path loader \<Rightarrow> 'path notary_args \<Rightarrow> 'path list
      \<Rightarrow> 'pvk policy_tables \<Rightarrow> 'pvk policy_tables res" where
  "load_policies_from ark ld args [] t = Inr t"
| "load_policies_from ark ld args (file # files) t =
     and_then (load_bundle (ld_read ld) (ld_bundle ld) (ld_u256 ld) file) (\<lambda>bundle.
     and_then (load_apply_policy ark ld args bundle (pt_apply t)) (\<lambda>apply.
     and_then (load_settle_policy ark ld args bundle (pt_settle t)) (\<lambda>settle.
     and_then (load_register_policy ark ld args bundle (pt_register t)) (\<lambda>register.
     load_policies_from ark ld args files
       \<lparr>pt_register = register, pt_apply = apply, pt_settle = settle\<rparr>))))"

definition load_policies ::
    "('g1, 'g2, 'pvk) arkworks \<Rightarrow> 'path loader \<Rightarrow> 'path notary_args \<Rightarrow> 'pvk policy_tables res" where
  "load_policies ark ld args =
     load_policies_from ark ld args (arg_policy args)
       \<lparr>pt_register = Map.empty, pt_apply = Map.empty, pt_settle = Map.empty\<rparr>"

text \<open>\<open>main\<close>, up to the listeners: the verifier the service starts with.\<close>

definition start_verifier ::
    "('p, 'vk, 'att, 'rs, 'g1, 'g2, 'pvk, 'sk) notary_env \<Rightarrow> (bytes \<Rightarrow> 'vk res) \<Rightarrow> 'path loader
      \<Rightarrow> ('path \<Rightarrow> bytes res) \<Rightarrow> 'path notary_args \<Rightarrow> ('vk, 'pvk, 'sk) policy_verifier res" where
  "start_verifier env attestation_key_of ld read args =
     and_then (with_ctx ''reading'' (read (arg_registry_ca args))) (\<lambda>ca.
     and_then (read_key (env_hex_decode env) (ld_read ld) (arg_attestation_key args)) (\<lambda>att_key.
     and_then (read_key (env_hex_decode env) (ld_read ld) (arg_statement_key args)) (\<lambda>secret.
     and_then (statement_key_from_bytes env secret) (\<lambda>sk.
     ensure (vk_notary env sk \<noteq> replicate 20 (CHR 0x00)) ''invalid statement key'' (
     and_then (load_policies (env_ark env) ld args) (\<lambda>t.
     and_then (attestation_key_of att_key) (\<lambda>vk.
     and_then (read (arg_nonces args)) (\<lambda>file.
     and_then (open_nonces (env_hex_decode env) file) (\<lambda>nonces.
     Inr (verifier_with_phases
       (policy_verifier_new (pt_register t) vk [ca] (arg_max_session_secs args) sk
         (domain_of (arg_chain_id args) (arg_contract args)) nonces)
       (pt_apply t) (pt_settle t) (arg_tau_lock args)))))))))))"

subsection \<open>One submission under the mutex\<close>

datatype 'a mutex = Unlocked (guarded: 'a) | Poisoned (guarded: 'a)

definition release :: "'s \<Rightarrow> 'a res \<Rightarrow> 's mutex" where
  "release s r = (if panicked r then Poisoned s else Unlocked s)"

definition decide_submission ::
    "('p, 'vk, 'att, 'rs, 'g1, 'g2, 'pvk, 'sk) notary_env \<Rightarrow> request_codec \<Rightarrow> io_outcome
      \<Rightarrow> ('vk, 'pvk, 'sk) policy_verifier mutex \<Rightarrow> 'p submission
      \<Rightarrow> ('vk, 'pvk, 'sk) policy_verifier mutex \<times> bytes res" where
  "decide_submission env codec io m s =
     (case m of
        Poisoned pv \<Rightarrow> (Poisoned pv, Inl (Panic ''policy verifier lock''))
      | Unlocked pv \<Rightarrow>
          (case submission_into_request (env_ark env) codec s of
             Inl e \<Rightarrow> (release pv (Inl e :: bytes res), Inl e)
           | Inr q \<Rightarrow> (case sign_request env io pv q of (pv', r) \<Rightarrow> (release pv' r, r))))"

text \<open>\<open>{e:#}\<close>: the chain of contexts.\<close>

fun error_text :: "error \<Rightarrow> bytes" where
  "error_text (Msg m) = m"
| "error_text (Context c e) = c @ '': '' @ error_text e"
| "error_text (Panic m) = ''task panicked: '' @ m"

definition reply_of :: "bytes res \<Rightarrow> reply" where
  "reply_of r = (case r of Inr sigma \<Rightarrow> Signed sigma | Inl e \<Rightarrow> Refused (error_text e))"

definition answer ::
    "('p, 'vk, 'att, 'rs, 'g1, 'g2, 'pvk, 'sk) notary_env \<Rightarrow> request_codec \<Rightarrow> (bytes \<Rightarrow> 'p submission res)
      \<Rightarrow> io_outcome \<Rightarrow> ('vk, 'pvk, 'sk) policy_verifier mutex \<Rightarrow> incoming
      \<Rightarrow> ('vk, 'pvk, 'sk) policy_verifier mutex \<times> bytes \<times> reply" where
  "answer env codec deserialize io m stream =
     (case read_message deserialize stream of
        Inl e \<Rightarrow> (m, ''unknown'', Refused (error_text e))
      | Inr s \<Rightarrow> (case decide_submission env codec io m s of
                   (m', r) \<Rightarrow> (m', submission_phase s, reply_of r)))"

subsection \<open>The listener\<close>

datatype outcome = Event_signed | Event_refused bytes

record event =
  ev_phase :: bytes
  ev_outcome :: outcome

definition event_of :: "bytes \<Rightarrow> reply \<Rightarrow> event" where
  "event_of phase r =
     \<lparr>ev_phase = phase, ev_outcome = (case r of Signed _ \<Rightarrow> Event_signed | Refused m \<Rightarrow> Event_refused m)\<rparr>"

text \<open>\<open>EventLog::write\<close>: a failed write is only reported.\<close>

definition log_write :: "bool \<Rightarrow> event list \<Rightarrow> event \<Rightarrow> event list" where
  "log_write ok log e = (if ok then log @ [e] else log)"

datatype conn =
    Accepted incoming
  | Answered bytes reply
  | Logged reply
  | Finished reply bytes

record ('vk, 'pvk, 'sk) service =
  sv_verifier :: "('vk, 'pvk, 'sk) policy_verifier mutex"
  sv_log :: "event list"
  sv_conns :: "nat \<rightharpoonup> conn"

inductive service_step ::
    "('p, 'vk, 'att, 'rs, 'g1, 'g2, 'pvk, 'sk) notary_env \<Rightarrow> request_codec \<Rightarrow> (bytes \<Rightarrow> 'p submission res)
      \<Rightarrow> (reply \<Rightarrow> bytes res) \<Rightarrow> ('vk, 'pvk, 'sk) service \<Rightarrow> ('vk, 'pvk, 'sk) service \<Rightarrow> bool"
  for env :: "('p, 'vk, 'att, 'rs, 'g1, 'g2, 'pvk, 'sk) notary_env" and codec deserialize serialize where
  step_accept: "sv_conns s c = None \<Longrightarrow>
    service_step env codec deserialize serialize s (s\<lparr>sv_conns := (sv_conns s)(c \<mapsto> Accepted stream)\<rparr>)"
| step_answer: "sv_conns s c = Some (Accepted stream) \<Longrightarrow>
    answer env codec deserialize io (sv_verifier s) stream = (m, phase, r) \<Longrightarrow>
    service_step env codec deserialize serialize s
      (s\<lparr>sv_verifier := m, sv_conns := (sv_conns s)(c \<mapsto> Answered phase r)\<rparr>)"
| step_log: "sv_conns s c = Some (Answered phase r) \<Longrightarrow>
    service_step env codec deserialize serialize s
      (s\<lparr>sv_log := log_write ok (sv_log s) (event_of phase r), sv_conns := (sv_conns s)(c \<mapsto> Logged r)\<rparr>)"
| step_reply: "sv_conns s c = Some (Logged r) \<Longrightarrow> write_message serialize snk r = (sent, w) \<Longrightarrow>
    service_step env codec deserialize serialize s
      (s\<lparr>sv_conns := (sv_conns s)(c \<mapsto> Finished r sent)\<rparr>)"

inductive service_run ::
    "('p, 'vk, 'att, 'rs, 'g1, 'g2, 'pvk, 'sk) notary_env \<Rightarrow> request_codec \<Rightarrow> (bytes \<Rightarrow> 'p submission res)
      \<Rightarrow> (reply \<Rightarrow> bytes res) \<Rightarrow> ('vk, 'pvk, 'sk) policy_verifier \<Rightarrow> ('vk, 'pvk, 'sk) service \<Rightarrow> bool"
  for env :: "('p, 'vk, 'att, 'rs, 'g1, 'g2, 'pvk, 'sk) notary_env" and codec deserialize serialize
    and pv :: "('vk, 'pvk, 'sk) policy_verifier" where
  run_start: "service_run env codec deserialize serialize pv
    \<lparr>sv_verifier = Unlocked pv, sv_log = [], sv_conns = Map.empty\<rparr>"
| run_step: "service_run env codec deserialize serialize pv s \<Longrightarrow>
    service_step env codec deserialize serialize s t \<Longrightarrow> service_run env codec deserialize serialize pv t"

inductive_cases service_stepE: "service_step env codec deserialize serialize s t"

subsection \<open>What the service starts with\<close>

text \<open>Every layout of the tables has passed its validation, and Settle is served with a \<open>tau_lock\<close> only.\<close>

definition tables_ok :: "('vk, 'pvk, 'sk) policy_verifier \<Rightarrow> bool" where
  "tables_ok pv \<longleftrightarrow>
     (\<forall>k p. pv_policies pv k = Some p \<longrightarrow> validate_layout (rp_layout p) = Inr ()) \<and>
     (\<forall>k p. pv_apply_policies pv k = Some p \<longrightarrow> validate_record_layout (ap_layout p) = Inr ()) \<and>
     (\<forall>k p. pv_settle_policies pv k = Some p \<longrightarrow>
        validate_record_layout (sp_layout p) = Inr () \<and> pv_tau_lock pv \<noteq> None \<and>
        - 50400 \<le> sp_utc_offset_secs p \<and> sp_utc_offset_secs p \<le> 50400)"

definition loaded_ok :: "'path notary_args \<Rightarrow> 'pvk policy_tables \<Rightarrow> bool" where
  "loaded_ok args t \<longleftrightarrow>
     (\<forall>k p. pt_register t k = Some p \<longrightarrow> validate_layout (rp_layout p) = Inr ()) \<and>
     (\<forall>k p. pt_apply t k = Some p \<longrightarrow> validate_record_layout (ap_layout p) = Inr ()) \<and>
     (\<forall>k p. pt_settle t k = Some p \<longrightarrow>
        validate_record_layout (sp_layout p) = Inr () \<and> arg_tau_lock args \<noteq> None \<and>
        - 50400 \<le> sp_utc_offset_secs p \<and> sp_utc_offset_secs p \<le> 50400)"

lemma load_layout_valid: "load_layout rd js f = Inr l \<Longrightarrow> validate_layout l = Inr ()"
  by (auto simp: load_layout_def layout_from_json_def and_then_Inr_iff)

lemma load_record_layout_valid: "load_record_layout rd js f = Inr l \<Longrightarrow> validate_record_layout l = Inr ()"
  by (auto simp: load_record_layout_def record_layout_from_json_def and_then_Inr_iff)

lemma load_bundle_checked: "load_bundle rd js u f = Inr b \<Longrightarrow> check_bundle u b = Inr b"
  by (auto simp: load_bundle_def and_then_Inr_iff check_bundle_Inr_iff)

lemma load_policies_from_ok:
  "load_policies_from ark ld args files t = Inr t' \<Longrightarrow> loaded_ok args t \<Longrightarrow> loaded_ok args t'"
proof (induction files arbitrary: t)
  case (Cons f files)
  then obtain bd aps sets regs where
    b: "check_bundle (ld_u256 ld) bd = Inr bd"
    and ap: "load_apply_policy ark ld args bd (pt_apply t) = Inr aps"
    and st: "load_settle_policy ark ld args bd (pt_settle t) = Inr sets"
    and rg: "load_register_policy ark ld args bd (pt_register t) = Inr regs"
    and rest: "load_policies_from ark ld args files
      \<lparr>pt_register = regs, pt_apply = aps, pt_settle = sets\<rparr> = Inr t'"
    using load_bundle_checked [of "ld_read ld" "ld_bundle ld" "ld_u256 ld" f] by (auto simp: and_then_Inr_iff)
  have "validate_record_layout (ap_layout p) = Inr ()" if "aps k = Some p" for k p
    using ap that Cons.prems(2) load_record_layout_valid
    by (auto simp: load_apply_policy_def insert_new_def and_then_Inr_iff ensure_Inr_iff loaded_ok_def
        split: option.splits if_splits)
  moreover have "validate_record_layout (sp_layout p) = Inr () \<and> arg_tau_lock args \<noteq> None \<and>
      - 50400 \<le> sp_utc_offset_secs p \<and> sp_utc_offset_secs p \<le> 50400" if "sets k = Some p" for k p
    using st that Cons.prems(2) b load_record_layout_valid
    by (auto simp: load_settle_policy_def insert_new_def and_then_Inr_iff ensure_Inr_iff loaded_ok_def
        check_bundle_Inr_iff split: option.splits if_splits)
  moreover have "validate_layout (rp_layout p) = Inr ()" if "regs k = Some p" for k p
    using rg that Cons.prems(2) load_layout_valid
    by (auto simp: load_register_policy_def Let_def insert_new_def and_then_Inr_iff ensure_Inr_iff loaded_ok_def
        split: option.splits if_splits)
  ultimately have "loaded_ok args \<lparr>pt_register = regs, pt_apply = aps, pt_settle = sets\<rparr>"
    by (simp add: loaded_ok_def)
  then show ?case using Cons.IH rest by blast
qed simp

lemma start_verifier_tables: "start_verifier env key_of ld rd args = Inr pv \<Longrightarrow> tables_ok pv"
proof -
  assume start: "start_verifier env key_of ld rd args = Inr pv"
  then obtain t where t: "load_policies (env_ark env) ld args = Inr t"
    and pv: "pv_policies pv = pt_register t" "pv_apply_policies pv = pt_apply t"
      "pv_settle_policies pv = pt_settle t" "pv_tau_lock pv = arg_tau_lock args"
    unfolding start_verifier_def and_then_Inr_iff ensure_Inr_iff sum.inject
    by (elim exE conjE) (rule that, assumption, auto simp: policy_verifier_new_def verifier_with_phases_def)
  have "loaded_ok args \<lparr>pt_register = Map.empty, pt_apply = Map.empty, pt_settle = Map.empty\<rparr>"
    by (simp add: loaded_ok_def)
  then have "loaded_ok args t"
    using t load_policies_from_ok unfolding load_policies_def by blast
  then show ?thesis by (simp add: tables_ok_def loaded_ok_def pv)
qed

subsection \<open>Panics\<close>

text \<open>
  What the service relies on: the libraries return their errors, and a verified transcript has the
  received length of its connection and holds the request bytes it authenticates.
\<close>

definition libraries_return ::
    "('p, 'vk, 'att, 'rs, 'g1, 'g2, 'pvk, 'sk) notary_env \<Rightarrow> request_codec \<Rightarrow> bool" where
  "libraries_return env codec \<longleftrightarrow>
     (\<forall>roots. \<not> panicked (cert_verifier_new (env_tlsn env) roots)) \<and>
     (\<forall>roots p. \<not> panicked (verify_presentation (env_tlsn env) roots p)) \<and>
     (\<forall>att. \<not> panicked (body_commitments (env_tlsn env) att)) \<and>
     (\<forall>pvk prf xs. \<not> panicked (verify_proof (env_ark env) pvk prf xs)) \<and>
     (\<forall>sk d. \<not> panicked (env_sign_hash env sk d)) \<and>
     (\<forall>bs. \<not> panicked (abi_decode_register codec bs)) \<and> (\<forall>bs. \<not> panicked (abi_decode_apply codec bs)) \<and>
     (\<forall>bs. \<not> panicked (abi_decode_settle codec bs)) \<and> (\<forall>bs. \<not> panicked (read_proof_json codec bs))"

definition transcripts_sized :: "('p, 'vk, 'att, 'rs) tlsn \<Rightarrow> bool" where
  "transcripts_sized t \<longleftrightarrow>
     (\<forall>roots p outp tr. verify_presentation t roots p = Inr outp \<longrightarrow> out_transcript outp = Some tr \<longrightarrow>
        length (received_unsafe tr) = out_received_len outp \<and>
        (\<forall>n. sent_authed tr = range_set t [Range 0 n] \<longrightarrow> n \<le> length (sent_unsafe tr)))"

context segmented_source begin

lemma shape_in_template:
  assumes "valid l" and "shape_of l subject = Inr s"
  shows "length (shape_template s) = shape_len s \<and> (\<forall>r \<in> set (shape_revealed s). in_bounds (shape_template s) r)"
proof -
  obtain ss where ss: "fits l ss" "shape_template s = concat ss" "shape_len s = length (concat ss)"
    "shape_revealed s = map (\<lambda>i. offsets 0 ss ! i) (rev_segs l)"
    using shape_obtain [OF assms] by blast
  then show ?thesis
    using holds_concat [OF fits_index [OF assms(1) ss(1)]] holds_in_bounds by auto
qed

end

lemma check_shape_no_panic:
  assumes libs: "libraries_return env codec" and sized: "transcripts_sized (env_tlsn env)"
    and sh: "length (shape_template (exp_shape exp)) = shape_len (exp_shape exp)"
      "\<forall>r \<in> set (shape_revealed (exp_shape exp)). in_bounds (shape_template (exp_shape exp)) r"
  shows "\<not> panicked (check_shape (env_tlsn env) p exp)"
proof
  let ?t = "env_tlsn env"
  assume panic: "panicked (check_shape ?t p exp)"
  have server: "\<not> panicked (check_server o' s')" for o' :: "('c, 'd) presentation_output" and s'
    by (auto simp: check_server_def split: option.splits server_name.splits)
  have t_att: "\<not> panicked (t_att_of o')" for o' :: "('c, 'd) presentation_output"
    by (simp add: t_att_of_def Let_def)
  have times: "\<not> panicked (check_times a b c)" for a b c by (simp add: check_times_def Let_def)
  have atts: "\<not> panicked (attested_commitments ?t att)" for att
    using libs by (auto simp: attested_commitments_def libraries_return_def dest!: panicked_collect split: option.splits)
  have comms: "\<not> panicked (check_commitments ?t cs s')" for cs s'
    by (auto simp: check_commitments_def Let_def dest!: panicked_for_each)
  have hashes: "\<not> panicked (collect_res (hash_of ?t cs) (shape_hidden s'))"
    if ok: "check_commitments ?t cs s' = Inr ()" for cs s'
  proof
    assume "panicked (collect_res (hash_of ?t cs) (shape_hidden s'))"
    then obtain r where r: "r \<in> set (shape_hidden s')" and p: "panicked (hash_of ?t cs r)"
      using panicked_collect by blast
    from r have "(Received, range_set ?t [r]) \<in> set (expected_commitments ?t s')"
      by (auto simp: expected_commitments_def)
    then have "length (filter (matches (Received, range_set ?t [r])) cs) = 1"
      using ok by (auto simp: check_commitments_Inr_iff)
    then have "\<exists>c \<in> set cs. matches (Received, range_set ?t [r]) c"
      by (metis filter_False length_0_conv zero_neq_one list.size(3))
    then have "find (matches (Received, range_set ?t [r])) cs \<noteq> None" by (auto simp: find_None_iff)
    then show False using p by (auto simp: hash_of_def word32_def)
  qed
  have script: "\<not> panicked (check_transcript ?t tr (exp_shape exp))"
    if v: "verify_presentation ?t (exp_root_certs exp) p = Inr o'" and tr: "out_transcript o' = Some tr"
      and len: "out_received_len o' = shape_len (exp_shape exp)" for o' tr
  proof -
    have size: "length (received_unsafe tr) = length (shape_template (exp_shape exp))"
      and sent: "\<And>n. sent_authed tr = range_set ?t [Range 0 n] \<Longrightarrow> n \<le> length (sent_unsafe tr)"
      using sized v tr len sh(1) by (auto simp: transcripts_sized_def)
    then show ?thesis
      using sh(2) by (auto simp: check_transcript_def Let_def index_range_def in_bounds_def dest!: panicked_for_each)
  qed
  from panic libs server t_att times atts comms hashes script show False
    by (auto simp: check_shape_def Let_def libraries_return_def)
qed

lemma groth16_no_panic: "libraries_return env codec \<Longrightarrow> \<not> panicked (groth16_verify (env_ark env) v prf xs)"
  by (auto simp: groth16_verify_def libraries_return_def parse_field_def Let_def dest!: panicked_collect)

lemma phi_public_no_panic:
  "\<not> panicked (phi_a_new a b c am d)" "\<not> panicked (phi_s_new h w c' e d')"
  "\<not> panicked (phi_r_public_of at pid d'')"
  by (simp_all add: phi_a_new_def phi_s_new_def field_element_def phi_r_public_of_def word32_def Let_def
      split: prod.splits)

lemma engagement_no_panic: "\<not> panicked (engagement_day x t offset)"
  by (simp add: engagement_day_def ymd_of_days_def Let_def)

lemma property_word_no_panic: "valid_layout l \<Longrightarrow> \<not> panicked (property_id_word l s)"
proof -
  assume l: "valid_layout l"
  have "\<not> panicked (pad l s w)" for w by (simp add: pad_def pad_value_def)
  moreover have "length v = property_id_width l" if "pad l s (property_id_width l) = Inr v" for v
    using pad_length [OF _ that] l by (simp add: valid_layout_def)
  ultimately show ?thesis by (simp add: property_id_word_def)
qed

lemma parse_no_panic:
  "\<not> panicked (parse_field n s)" "\<not> panicked (parse_g1 ark p)" "\<not> panicked (parse_g2 ark p')"
  by (simp_all add: parse_field_def parse_g1_def parse_g2_def parse_fq2_def Let_def)

lemma into_request_no_panic:
  assumes "libraries_return env codec"
  shows "\<not> panicked (submission_into_request (env_ark env) codec s)"
proof -
  have "\<not> panicked (proof_from_json (env_ark env) (read_proof_json codec) json)" for json
    using assms by (simp add: proof_from_json_def libraries_return_def parse_no_panic check_scheme_def)
  then show ?thesis
    using assms
    by (simp add: submission_into_request_def register_into_request_def apply_into_request_def
        settle_into_request_def libraries_return_def split: submission.splits)
qed

lemma record_shape_no_panic:
  assumes "libraries_return env codec" "transcripts_sized (env_tlsn env)" "validate_record_layout l = Inr ()"
  obtains sh where "record_shape l n = Inr sh"
    "\<And>p exp. exp_shape exp = sh \<Longrightarrow> \<not> panicked (check_shape (env_tlsn env) p exp)"
proof -
  have l: "valid_record_layout l" using assms(3) by (simp add: valid_record_layout_def)
  obtain sh where sh: "record_shape l n = Inr sh" using rec.shape_total [OF l] by blast
  show ?thesis
    by (rule that [OF sh]) (use check_shape_no_panic [OF assms(1,2)] rec.shape_in_template [OF l sh] in blast)
qed

lemma check_request_no_panic:
  assumes libs: "libraries_return env codec" and sized: "transcripts_sized (env_tlsn env)" and tables: "tables_ok pv"
  shows "\<not> panicked (check_request env pv q)"
proof (cases q)
  case (Sign_register r)
  have "\<not> panicked (check_presentation (env_tlsn env) p exp)" if l: "valid_layout (ex_layout exp)" for p exp
  proof -
    obtain sh where sh: "shape (ex_layout exp) (ex_property_id exp) = Inr sh" using title.shape_total [OF l] by blast
    from check_shape_no_panic [OF libs sized] title.shape_in_template [OF l sh] sh show ?thesis
      by (auto simp: check_presentation_def split: list.splits)
  qed
  then show ?thesis
    using Sign_register tables groth16_no_panic [OF libs] phi_public_no_panic property_word_no_panic
    by (auto simp: check_register_def Let_def tables_ok_def validate_layout_iff)
next
  case (Sign_apply a)
  show ?thesis
  proof (cases "pv_apply_policies pv (app_policy_id (aq_statement a))")
    case None
    then show ?thesis using Sign_apply by (simp add: check_apply_def Let_def)
  next
    case (Some policy)
    then have "validate_record_layout (ap_layout policy) = Inr ()" using tables by (simp add: tables_ok_def)
    from record_shape_no_panic [OF libs sized this, of "[]"] obtain sh where
      "record_shape (ap_layout policy) [] = Inr sh"
      "\<And>p exp. exp_shape exp = sh \<Longrightarrow> \<not> panicked (check_shape (env_tlsn env) p exp)" by blast
    then show ?thesis
      using Sign_apply Some groth16_no_panic [OF libs] phi_public_no_panic
      by (simp add: check_apply_def Let_def ensure_unsigned_def split: list.split)
  qed
next
  case (Sign_settle t)
  show ?thesis
  proof (cases "pv_settle_policies pv (set_policy_id (sq_statement t))")
    case None
    then show ?thesis using Sign_settle by (simp add: check_settle_def Let_def)
  next
    case (Some policy)
    then have "validate_record_layout (sp_layout policy) = Inr ()" using tables by (simp add: tables_ok_def)
    from record_shape_no_panic [OF libs sized this, of "sq_notation_id t"] obtain sh where
      "record_shape (sp_layout policy) (sq_notation_id t) = Inr sh"
      "\<And>p exp. exp_shape exp = sh \<Longrightarrow> \<not> panicked (check_shape (env_tlsn env) p exp)" by blast
    then show ?thesis
      using Sign_settle Some groth16_no_panic [OF libs] phi_public_no_panic engagement_no_panic
      by (simp add: check_settle_def Let_def ensure_unsigned_def check_subject_def split: list.split)
  qed
qed

lemma record_nonce_no_panic: "record_nonce enc io st eta = (st', r) \<Longrightarrow> \<not> panicked r"
  by (auto simp: record_nonce_def Let_def split: if_splits io_outcome.splits)

lemma sign_request_kept:
  assumes "sign_request env io pv q = (pv', r)"
  shows "\<exists>nonces. pv' = pv\<lparr>pv_nonces := nonces\<rparr>"
proof (cases "check_request env pv q")
  case (Inl e)
  then have "pv' = pv\<lparr>pv_nonces := pv_nonces pv\<rparr>" using assms by (simp add: sign_request_eq)
  then show ?thesis ..
next
  case (Inr d)
  then have "record_and_sign env io pv (statement_eta (request_statement q)) d = (pv', r)"
    using assms by (simp add: sign_request_eq)
  then show ?thesis by (cases rule: record_and_sign_cases) auto
qed

lemma sign_request_no_panic:
  assumes libs: "libraries_return env codec" and "transcripts_sized (env_tlsn env)" and "tables_ok pv"
    and sign: "sign_request env io pv q = (pv', r)"
  shows "\<not> panicked r \<and> tables_ok pv'"
proof
  have check: "\<not> panicked (check_request env pv q)" using check_request_no_panic assms(1-3) by blast
  show "\<not> panicked r"
  proof (cases "check_request env pv q")
    case (Inl e)
    then show ?thesis using sign check by (auto simp: sign_request_eq panicked_def split: error.splits)
  next
    case (Inr d)
    then have "record_and_sign env io pv (statement_eta (request_statement q)) d = (pv', r)"
      using sign by (simp add: sign_request_eq)
    then show ?thesis
      using libs by (cases rule: record_and_sign_cases)
        (auto simp: key_sign_def libraries_return_def dest!: record_nonce_no_panic)
  qed
  show "tables_ok pv'" using sign_request_kept [OF sign] assms(3) by (auto simp: tables_ok_def)
qed

text \<open>The verifier behind the mutex moves only by the requests that are decided.\<close>

lemma answer_cases:
  fixes deserialize :: "bytes \<Rightarrow> 'p submission res"
  assumes "answer env codec deserialize io m stream = (m', phase, r)"
  obtains (unchanged) reason where "m' = m" "r = Refused reason"
  | (parse_panic) pv reason where "m = Unlocked pv" "m' = Poisoned pv" "r = Refused reason"
      "\<exists>s :: 'p submission. panicked (submission_into_request (env_ark env) codec s)"
  | (decided) pv s q pv' res where "m = Unlocked pv" "submission_into_request (env_ark env) codec s = Inr q"
      "sign_request env io pv q = (pv', res)" "m' = release pv' res" "r = reply_of res"
      "read_message deserialize stream = Inr s"
proof (cases "read_message deserialize stream")
  case (Inl e)
  show ?thesis by (rule unchanged) (use assms Inl in \<open>auto simp: answer_def\<close>)
next
  case (Inr s)
  note message = this
  then obtain res where d: "decide_submission env codec io m s = (m', res)" and r: "r = reply_of res"
    using assms by (auto simp: answer_def split: prod.splits)
  show ?thesis
  proof (cases m)
    case (Poisoned pv)
    then show ?thesis using d r unchanged by (auto simp: decide_submission_def reply_of_def)
  next
    case (Unlocked pv)
    show ?thesis
    proof (cases "submission_into_request (env_ark env) codec s")
      case (Inl e)
      have "m' = release pv (Inl e :: bytes res)" "res = Inl e"
        using d Unlocked Inl by (auto simp: decide_submission_def)
      moreover have "panicked (submission_into_request (env_ark env) codec s) = panicked (Inl e :: bytes res)"
        using Inl by (simp add: panicked_def)
      ultimately have eqs: "m' = (if panicked (Inl e :: bytes res) then Poisoned pv else m)"
        "r = Refused (error_text e)"
        "panicked (Inl e :: bytes res) \<Longrightarrow> \<exists>s :: 'p submission. panicked (submission_into_request (env_ark env) codec s)"
        using Unlocked r by (auto simp only: release_def reply_of_def sum.case if_False if_True split: if_splits)
      show ?thesis
      proof (cases "panicked (Inl e :: bytes res)")
        case True
        show ?thesis by (rule parse_panic [OF Unlocked _ eqs(2) eqs(3) [OF True]]) (simp only: eqs(1) True if_True)
      next
        case False
        show ?thesis by (rule unchanged [OF _ eqs(2)]) (simp only: eqs(1) False if_False)
      qed
    next
      case (Inr q)
      then show ?thesis using d r Unlocked message decided
        by (auto simp: decide_submission_def split: prod.splits)
    qed
  qed
qed

text \<open>C29: The policy verifier stays in service: started from checked policies, and with libraries that return
  their errors, no sequence of submissions, however malformed and however interleaved, makes it panic
  while it holds its mutex, so the mutex is never poisoned and later submissions are still decided.\<close>

theorem service_never_poisoned:
  assumes "start_verifier env attestation_key_of ld rd args = Inr pv"
    and "libraries_return env codec" and "transcripts_sized (env_tlsn env)"
    and "service_run env codec deserialize serialize pv s"
  shows "\<exists>pv'. sv_verifier s = Unlocked pv' \<and> tables_ok pv'"
  using assms(4)
proof (induction rule: service_run.induct)
  case run_start
  then show ?case using start_verifier_tables [OF assms(1)] by simp
next
  case (run_step s t)
  then obtain pv' where pv': "sv_verifier s = Unlocked pv'" "tables_ok pv'" by blast
  from run_step.hyps(2) show ?case
  proof (cases rule: service_step.cases)
    case (step_answer c stream io m phase r)
    from step_answer(3) show ?thesis
    proof (cases rule: answer_cases)
      case (decided pv1 sub q pv2 res)
      then have "sign_request env io pv' q = (pv2, res)" using pv' by simp
      from sign_request_no_panic [OF assms(2,3) pv'(2) this] decided step_answer(1) show ?thesis
        by (simp add: release_def)
    qed (use pv' step_answer(1) into_request_no_panic [OF assms(2)] in auto)
  qed (use pv' in auto)
qed

subsection \<open>Signatures across connections\<close>

fun conn_signature :: "conn \<Rightarrow> bytes option" where
  "conn_signature (Answered _ (Signed sigma)) = Some sigma"
| "conn_signature (Logged (Signed sigma)) = Some sigma"
| "conn_signature (Finished (Signed sigma) _) = Some sigma"
| "conn_signature _ = None"

definition signature_at :: "('vk, 'pvk, 'sk) service \<Rightarrow> nat \<Rightarrow> bytes option" where
  "signature_at s c = Option.bind (sv_conns s c) conn_signature"

lemma conn_signature_simps [simp]:
  "conn_signature (Answered phase r) = (case r of Signed sigma \<Rightarrow> Some sigma | Refused _ \<Rightarrow> None)"
  "conn_signature (Logged r) = (case r of Signed sigma \<Rightarrow> Some sigma | Refused _ \<Rightarrow> None)"
  "conn_signature (Finished r sent) = (case r of Signed sigma \<Rightarrow> Some sigma | Refused _ \<Rightarrow> None)"
  by (cases r; simp)+

text \<open>Connections with a signature stand for statements that the notary signed, each for another nonce.\<close>

definition answered_for ::
    "(nat \<Rightarrow> statement) \<Rightarrow> (statement \<times> bytes) list \<Rightarrow> ('vk, 'pvk, 'sk) service \<Rightarrow> bool" where
  "answered_for stmt sigs s \<longleftrightarrow>
     (\<forall>c sigma. signature_at s c = Some sigma \<longrightarrow> (stmt c, sigma) \<in> set sigs) \<and>
     inj_on (\<lambda>c. statement_eta (stmt c)) {c. signature_at s c \<noteq> None}"

lemma answered_for_same:
  "answered_for stmt sigs s \<Longrightarrow> signature_at t = signature_at s \<Longrightarrow> answered_for stmt sigs t"
  by (simp add: answered_for_def)

lemma answered_for_new:
  assumes "answered_for stmt sigs s" "signature_at s c = None" "signature_at t = (signature_at s)(c := Some sigma)"
    and fresh: "statement_eta x \<notin> (\<lambda>(y, _). statement_eta y) ` set sigs"
  shows "answered_for (stmt(c := x)) ((x, sigma) # sigs) t"
proof -
  have old: "signature_at s d = Some b \<Longrightarrow> (stmt d, b) \<in> set sigs" for d b
    using assms(1) by (auto simp: answered_for_def)
  then have "statement_eta (stmt d) \<noteq> statement_eta x \<and> statement_eta x \<noteq> statement_eta (stmt d)"
    if "signature_at s d \<noteq> None" for d
    using fresh that by force
  moreover have "{d. signature_at t d \<noteq> None} = insert c {d. signature_at s d \<noteq> None}"
    using assms(3) by auto
  moreover have "inj_on (\<lambda>d. statement_eta (stmt d)) {d. signature_at s d \<noteq> None}"
    using assms(1) by (simp add: answered_for_def)
  ultimately show ?thesis
    using old assms(2,3) by (auto simp: answered_for_def inj_on_def split: if_splits)
qed

lemma service_step_answered:
  assumes "abi_words codec" and hex: "hex_codec (env_hex_encode env) (env_hex_decode env)"
    and life: "notary_life env sigs (guarded (sv_verifier s))" and ans: "answered_for stmt sigs s"
    and step: "service_step env codec deserialize serialize s t"
  shows "\<exists>sigs' stmt'. notary_life env sigs' (guarded (sv_verifier t)) \<and> answered_for stmt' sigs' t"
  using step
proof (cases rule: service_step.cases)
  case (step_accept c stream)
  then have "signature_at t = signature_at s" by (auto simp: signature_at_def fun_eq_iff)
  then show ?thesis using answered_for_same [OF ans] life step_accept by auto
next
  case (step_answer c stream io m phase r)
  have sig: "signature_at t = (signature_at s)(c := (case r of Signed sigma \<Rightarrow> Some sigma | Refused _ \<Rightarrow> None))"
    and none: "signature_at s c = None" using step_answer by (auto simp: signature_at_def fun_eq_iff)
  from step_answer(3) show ?thesis
  proof (cases rule: answer_cases)
    case (decided pv sub q pv' res)
    have pv: "guarded (sv_verifier s) = pv" "guarded (sv_verifier t) = pv'"
      using decided step_answer(1) by (auto simp: release_def)
    note eta = into_request_eta [OF assms(1) decided(2)]
    show ?thesis
    proof (cases res)
      case (Inl e)
      have "notary_life env sigs pv'" using life_refused life decided(3) eta Inl pv by blast
      moreover have "signature_at t = signature_at s" using sig none decided Inl by (auto simp: reply_of_def)
      ultimately show ?thesis using answered_for_same [OF ans] pv by auto
    next
      case (Inr sigma)
      have new: "notary_life env ((request_statement q, sigma) # sigs) pv'"
        using life_signed life decided(3) eta Inr pv by blast
      then have "statement_eta (request_statement q) \<notin> (\<lambda>(y, _). statement_eta y) ` set sigs"
        using notary_life_invariant [OF hex new] by auto
      then have "answered_for (stmt(c := request_statement q)) ((request_statement q, sigma) # sigs) t"
        using answered_for_new [OF ans none] sig decided Inr by (simp add: reply_of_def)
      then show ?thesis using new pv by auto
    qed
  qed (use sig none step_answer(1) answered_for_same [OF ans] life in \<open>auto simp: fun_upd_idem\<close>)
next
  case (step_log c phase r ok)
  then have "signature_at t = signature_at s" by (auto simp: signature_at_def fun_eq_iff)
  then show ?thesis using answered_for_same [OF ans] life step_log by auto
next
  case (step_reply c r snk sent w)
  then have "signature_at t = signature_at s" by (auto simp: signature_at_def fun_eq_iff)
  then show ?thesis using answered_for_same [OF ans] life step_reply by auto
qed

text \<open>C12: However the tasks of the connections interleave, a signature that a connection is answered with
  is one the notary gave, for a statement whose nonce no other connection was answered for: across all
  phases and connections the service gives one signature per nonce.\<close>

theorem service_signs_once:
  assumes "abi_words codec" and "hex_codec (env_hex_encode env) (env_hex_decode env)"
    and "open_nonces (env_hex_decode env) f = Inr (pv_nonces pv)"
    and "service_run env codec deserialize serialize pv s"
  shows "\<exists>sigs stmt. notary_life env sigs (guarded (sv_verifier s)) \<and>
    (\<forall>c sigma. signature_at s c = Some sigma \<longrightarrow> (stmt c, sigma) \<in> set sigs) \<and>
    inj_on (\<lambda>c. statement_eta (stmt c)) {c. signature_at s c \<noteq> None}"
proof -
  from assms(4) have "\<exists>sigs stmt. notary_life env sigs (guarded (sv_verifier s)) \<and> answered_for stmt sigs s"
  proof (induction rule: service_run.induct)
    case run_start
    have "notary_life env [] pv" using life_start [OF assms(3), of pv] by simp
    then show ?case by (auto simp: answered_for_def signature_at_def)
  next
    case (run_step s t)
    then show ?case using service_step_answered [OF assms(1,2)] by blast
  qed
  then show ?thesis by (auto simp: answered_for_def)
qed

subsection \<open>Each connection is answered for its own submission\<close>

lemma sign_request_signed:
  assumes "sign_request env io pv q = (pv', Inr sigma)"
  shows "check_request env pv q = Inr (digest (env_eip712_hash env) (request_statement q) (pv_domain pv))"
    and "env_sign_hash env (pv_key pv) (digest (env_eip712_hash env) (request_statement q) (pv_domain pv)) = Inr sigma"
    and "\<not> nonce_seen (pv_nonces pv) (statement_eta (request_statement q))"
    and "nonce_seen (pv_nonces pv') (statement_eta (request_statement q))"
proof -
  obtain d where d: "check_request env pv q = Inr d"
    and rs: "record_and_sign env io pv (statement_eta (request_statement q)) d = (pv', Inr sigma)"
    using assms by (auto simp: sign_request_eq split: sum.splits)
  from rs obtain nonces where
    rec: "record_nonce (env_hex_encode env) io (pv_nonces pv) (statement_eta (request_statement q)) = (nonces, Inr ())"
    and sig: "pv' = pv\<lparr>pv_nonces := nonces\<rparr>" "Inr sigma = key_sign env (pv_key pv) d"
    by (cases rule: record_and_sign_cases) auto
  note dig = check_request_digest [OF d]
  show "check_request env pv q = Inr (digest (env_eip712_hash env) (request_statement q) (pv_domain pv))"
    using d dig by simp
  show "env_sign_hash env (pv_key pv) (digest (env_eip712_hash env) (request_statement q) (pv_domain pv)) = Inr sigma"
    using dig sig(2) [symmetric] by simp
  show "\<not> nonce_seen (pv_nonces pv) (statement_eta (request_statement q))" using dig by simp
  show "nonce_seen (pv_nonces pv') (statement_eta (request_statement q))"
    using sig(1) store.log_recorded [OF rec] by simp
qed

lemma sign_request_kept_seen:
  assumes "sign_request env io pv q = (pv', r)" and "nonce_seen (pv_nonces pv) n"
  shows "nonce_seen (pv_nonces pv') n"
  using sign_request_nonces [OF assms(1)] assms(2) store.log_kept by metis

text \<open>A step changes nothing of the verifier but its nonces, and forgets none of them.\<close>

lemma service_step_verifier:
  assumes "service_step env codec deserialize serialize s t"
  shows "\<exists>nonces. guarded (sv_verifier t) = (guarded (sv_verifier s))\<lparr>pv_nonces := nonces\<rparr> \<and>
    (\<forall>n. nonce_seen (pv_nonces (guarded (sv_verifier s))) n \<longrightarrow> nonce_seen nonces n)"
  using assms
proof (cases rule: service_step.cases)
  case (step_answer c stream io m phase r)
  from step_answer(3) show ?thesis
  proof (cases rule: answer_cases)
    case (decided pv sub q pv' res)
    have pv: "guarded (sv_verifier s) = pv" "guarded (sv_verifier t) = pv'"
      using decided step_answer(1) by (auto simp: release_def)
    obtain nonces where "pv' = pv\<lparr>pv_nonces := nonces\<rparr>" using sign_request_kept [OF decided(3)] by blast
    then show ?thesis using sign_request_kept_seen [OF decided(3)] by (intro exI [of _ nonces]) (simp add: pv)
  qed (use step_answer(1) in \<open>auto intro: exI [of _ "pv_nonces (guarded (sv_verifier s))"]\<close>)
qed (auto intro: exI [of _ "pv_nonces (guarded (sv_verifier s))"])

lemma service_run_verifier:
  "service_run env codec deserialize serialize pv s \<Longrightarrow> \<exists>nonces. guarded (sv_verifier s) = pv\<lparr>pv_nonces := nonces\<rparr>"
proof (induction rule: service_run.induct)
  case run_start
  show ?case by (rule exI [of _ "pv_nonces pv"]) simp
next
  case (run_step s t)
  from service_step_verifier [OF run_step.hyps(2)] run_step.IH show ?case by auto
qed

text \<open>\<open>signed_for env codec deserialize pv stream nonces q sigma\<close>: the message in the stream is the
  submission of \<open>q\<close>, which passes the checks of \<open>pv\<close> on these nonces, and \<open>sigma\<close> is the
  signature of its statement.\<close>

definition signed_for ::
    "('p, 'vk, 'att, 'rs, 'g1, 'g2, 'pvk, 'sk) notary_env \<Rightarrow> request_codec \<Rightarrow> (bytes \<Rightarrow> 'p submission res)
      \<Rightarrow> ('vk, 'pvk, 'sk) policy_verifier \<Rightarrow> incoming \<Rightarrow> nonce_store \<Rightarrow> ('p, 'g1, 'g2) phase_request \<Rightarrow> bytes \<Rightarrow> bool" where
  "signed_for env codec deserialize pv stream nonces q sigma \<longleftrightarrow>
     (let d = digest (env_eip712_hash env) (request_statement q) (pv_domain pv) in
      (\<exists>sub. read_message deserialize stream = Inr sub \<and> submission_into_request (env_ark env) codec sub = Inr q) \<and>
      check_request env (pv\<lparr>pv_nonces := nonces\<rparr>) q = Inr d \<and> env_sign_hash env (pv_key pv) d = Inr sigma \<and>
      \<not> nonce_seen nonces (statement_eta (request_statement q)))"

lemma answer_signed:
  assumes "answer env codec deserialize io m stream = (m', phase, Signed sigma)"
    and "guarded m = pv\<lparr>pv_nonces := nonces\<rparr>"
  shows "\<exists>q. signed_for env codec deserialize pv stream nonces q sigma \<and>
    nonce_seen (pv_nonces (guarded m')) (statement_eta (request_statement q))"
  using assms(1)
proof (cases rule: answer_cases)
  case (decided pv1 sub q pv2 res)
  then have res: "res = Inr sigma" and pv1: "pv1 = pv\<lparr>pv_nonces := nonces\<rparr>"
    using assms(2) by (auto simp: reply_of_def split: sum.splits)
  note signed = sign_request_signed [OF decided(3) [unfolded res]]
  from signed decided(2,4,6) show ?thesis
    by (intro exI [of _ q]) (auto simp: signed_for_def Let_def release_def res pv1)
qed auto

lemma seen_later:
  assumes "rtranclp (service_step env codec deserialize serialize) s t"
    and "nonce_seen (pv_nonces (guarded (sv_verifier s))) n"
  shows "nonce_seen (pv_nonces (guarded (sv_verifier t))) n"
  using assms
proof (induction rule: rtranclp_induct)
  case (step t u)
  from service_step_verifier [OF step.hyps(2)] step.IH step.prems show ?case by auto
qed

text \<open>The signature of a connection that was accepted with \<open>stream\<close> appears in the step that decides on it,
  and stays.\<close>

lemma signature_appears:
  assumes "rtranclp (service_step env codec deserialize serialize) s t"
    and "sv_conns s c = Some (Accepted stream)"
  shows "sv_conns t c = Some (Accepted stream) \<or>
    (\<exists>m io v phase r. rtranclp (service_step env codec deserialize serialize) s m \<and>
       answer env codec deserialize io (sv_verifier m) stream = (v, phase, r) \<and>
       rtranclp (service_step env codec deserialize serialize)
         (m\<lparr>sv_verifier := v, sv_conns := (sv_conns m)(c \<mapsto> Answered phase r)\<rparr>) t \<and>
       signature_at t c = (case r of Signed sigma \<Rightarrow> Some sigma | Refused _ \<Rightarrow> None) \<and>
       sv_conns m c = Some (Accepted stream) \<and> sv_conns t c \<noteq> None \<and> (\<forall>st. sv_conns t c \<noteq> Some (Accepted st)))"
  using assms(1)
proof (induction rule: rtranclp_induct)
  case base
  then show ?case using assms(2) by simp
next
  case (step t u)
  from step.IH show ?case
  proof
    assume acc: "sv_conns t c = Some (Accepted stream)"
    from step.hyps(2) show ?thesis
    proof (cases rule: service_step.cases)
      case (step_answer d st io m phase r)
      show ?thesis
      proof (cases "d = c")
        case True
        then have "answer env codec deserialize io (sv_verifier t) stream = (m, phase, r)"
          using step_answer acc by simp
        moreover have "signature_at u c = (case r of Signed sigma \<Rightarrow> Some sigma | Refused _ \<Rightarrow> None)"
          "sv_conns u c \<noteq> None \<and> (\<forall>st. sv_conns u c \<noteq> Some (Accepted st))"
          "u = t\<lparr>sv_verifier := m, sv_conns := (sv_conns t)(c \<mapsto> Answered phase r)\<rparr>"
          using step_answer True by (auto simp: signature_at_def)
        ultimately show ?thesis using step.hyps(1) acc by blast
      next
        case False
        then show ?thesis using step_answer acc by simp
      qed
    qed (use acc in auto)
  next
    assume "\<exists>m io v phase r. rtranclp (service_step env codec deserialize serialize) s m \<and>
       answer env codec deserialize io (sv_verifier m) stream = (v, phase, r) \<and>
       rtranclp (service_step env codec deserialize serialize)
         (m\<lparr>sv_verifier := v, sv_conns := (sv_conns m)(c \<mapsto> Answered phase r)\<rparr>) t \<and>
       signature_at t c = (case r of Signed sigma \<Rightarrow> Some sigma | Refused _ \<Rightarrow> None) \<and>
       sv_conns m c = Some (Accepted stream) \<and> sv_conns t c \<noteq> None \<and> (\<forall>st. sv_conns t c \<noteq> Some (Accepted st))"
    moreover have "signature_at u c = signature_at t c \<and> sv_conns u c \<noteq> None \<and> (\<forall>st. sv_conns u c \<noteq> Some (Accepted st))"
      if "sv_conns t c \<noteq> None" "\<forall>st. sv_conns t c \<noteq> Some (Accepted st)"
      using step.hyps(2) that by (cases rule: service_step.cases) (auto simp: signature_at_def)
    ultimately show ?thesis using step.hyps(2) by (metis rtranclp.rtrancl_into_rtrancl)
  qed
qed

text \<open>C13: Whatever else the service does meanwhile, a connection is answered for what it sent: if a connection
  holds a signature, then at some moment after it was accepted the message it sent was read as a
  submission, its request passed every check of the running verifier on the nonces recorded at that
  moment, with its own nonce not among them, and the signature is the notary's over the digest of that
  request's statement; from then on the nonce stays recorded. The keys, the policies and the domain are
  those that the service started with.\<close>

theorem answered_for_own_submission:
  assumes "service_run env codec deserialize serialize pv s" and "sv_conns s c = Some (Accepted stream)"
    and "rtranclp (service_step env codec deserialize serialize) s t" and "signature_at t c = Some sigma"
  shows "\<exists>m nonces q. rtranclp (service_step env codec deserialize serialize) s m \<and>
    rtranclp (service_step env codec deserialize serialize) m t \<and>
    guarded (sv_verifier m) = pv\<lparr>pv_nonces := nonces\<rparr> \<and>
    signed_for env codec deserialize pv stream nonces q sigma \<and>
    nonce_seen (pv_nonces (guarded (sv_verifier t))) (statement_eta (request_statement q))"
proof -
  have "sv_conns t c \<noteq> Some (Accepted stream)" using assms(4) by (auto simp: signature_at_def)
  then obtain m io v phase r where m: "rtranclp (service_step env codec deserialize serialize) s m"
      "answer env codec deserialize io (sv_verifier m) stream = (v, phase, r)"
    and t: "rtranclp (service_step env codec deserialize serialize)
         (m\<lparr>sv_verifier := v, sv_conns := (sv_conns m)(c \<mapsto> Answered phase r)\<rparr>) t"
      "signature_at t c = (case r of Signed sigma \<Rightarrow> Some sigma | Refused _ \<Rightarrow> None)"
    and c: "sv_conns m c = Some (Accepted stream)"
    using signature_appears [OF assms(3,2)] by blast
  have r: "r = Signed sigma" using t(2) assms(4) by (auto split: reply.splits)
  have "service_run env codec deserialize serialize pv m"
    using m(1) assms(1) by (induction rule: rtranclp_induct) (auto intro: run_step)
  then obtain nonces where nonces: "guarded (sv_verifier m) = pv\<lparr>pv_nonces := nonces\<rparr>"
    using service_run_verifier by blast
  obtain q where "signed_for env codec deserialize pv stream nonces q sigma"
    "nonce_seen (pv_nonces (guarded v)) (statement_eta (request_statement q))"
    using answer_signed [OF m(2) [unfolded r] nonces] by blast
  moreover have "service_step env codec deserialize serialize m
      (m\<lparr>sv_verifier := v, sv_conns := (sv_conns m)(c \<mapsto> Answered phase r)\<rparr>)"
    by (rule step_answer [OF c m(2)])
  moreover from converse_rtranclp_into_rtranclp [OF this t(1)]
  have "rtranclp (service_step env codec deserialize serialize) m t" .
  moreover have "nonce_seen (pv_nonces (guarded v)) n \<Longrightarrow> nonce_seen (pv_nonces (guarded (sv_verifier t))) n" for n
    using seen_later [OF t(1), of n] by simp
  ultimately show ?thesis using m(1) nonces by blast
qed

subsection \<open>A sample service\<close>

definition sample_submission :: "unit submission" where
  "sample_submission = Sub_register (register_submission_new (sample_codec sample_statement) ()
     ''TR-06-CANKAYA-000123'' sample_statement ''proof'')"

definition sample_stream :: incoming where
  "sample_stream = \<lparr>in_bytes = ''m'', in_closed = True\<rparr>"

lemma sample_stream_read: "read_message (\<lambda>_. Inr sample_submission) sample_stream = Inr sample_submission"
  by (simp add: read_message_def read_to_end_def sample_stream_def MAX_MESSAGE_BYTES_def)

lemma sample_proof_env:
  "proof_from_json (env_ark (sample_env s b)) (read_proof_json (sample_codec x)) json =
     Inr \<lparr>proof_a = (1, 2), proof_b = ((1, 1), (1, 1)), proof_c = (1, 2)\<rparr>"
  using sample_proof_parsed [of x json]
  by (simp add: proof_from_json_def sample_env_def parse_g1_def parse_g2_def parse_fq2_def)

lemma sample_into_request:
  "submission_into_request (env_ark (sample_env s b)) (sample_codec sample_statement) sample_submission =
     Inr (Sign_register sample_request)"
  by (simp add: submission_into_request_def sample_submission_def register_into_request_def
      register_submission_new_def sample_codec_decodes sample_proof_env sample_request_def)

lemma sample_libraries: "libraries_return (sample_env s b) (sample_codec x)"
  by (simp add: libraries_return_def sample_env_def sample_tlsn_def base_tlsn_def sample_ark_def sample_codec_def)

lemma covered_initial: "covered [Range 0 n] = {..<n}"
  by (auto simp: covered_def)

lemma sample_transcripts: "transcripts_sized (env_tlsn (sample_env s b))"
  unfolding transcripts_sized_def sample_env_def sample_tlsn_def base_tlsn_def honest_output_def
  by (simp add: covered_initial)

lemma sample_phase: "submission_phase sample_submission = ''register''"
  by (simp add: sample_submission_def)

text \<open>One connection, accepted and then answered with a signature.\<close>

lemma sample_service_run:
  "\<exists>s (x :: rendered) sv1 sv2 sigma.
     service_run (sample_env s (rendered_bytes x)) (sample_codec sample_statement) (\<lambda>_. Inr sample_submission)
       (\<lambda>_. Inr ''r'') sample_verifier sv1 \<and> sv_conns sv1 0 = Some (Accepted sample_stream) \<and>
     service_step (sample_env s (rendered_bytes x)) (sample_codec sample_statement) (\<lambda>_. Inr sample_submission)
       (\<lambda>_. Inr ''r'') sv1 sv2 \<and> signature_at sv2 0 = Some sigma"
proof -
  obtain s where s: "shape title_v1 ''TR-06-CANKAYA-000123'' = Inr s"
    using title.shape_total valid_title_v1 by (metis validate_layout_iff)
  obtain x where x: "render_response title_v1 ''ACC-000000000001'' sample_record = Inr x"
    using sample_render_ok by blast
  let ?env = "sample_env s (rendered_bytes x)" and ?codec = "sample_codec sample_statement"
  let ?de = "\<lambda>_. Inr sample_submission" and ?se = "\<lambda>_. Inr ''r''"
  obtain pv' sigma where r: "sign_request ?env Written sample_verifier (Sign_register sample_request) = (pv', Inr sigma)"
    using sample_register_signed [OF s x] by blast
  let ?s0 = "\<lparr>sv_verifier = Unlocked sample_verifier, sv_log = [], sv_conns = Map.empty\<rparr>"
  let ?s1 = "?s0\<lparr>sv_conns := (sv_conns ?s0)(0 \<mapsto> Accepted sample_stream)\<rparr>"
  let ?s2 = "?s1\<lparr>sv_verifier := Unlocked pv', sv_conns := (sv_conns ?s1)(0 \<mapsto> Answered ''register'' (Signed sigma))\<rparr>"
  have "service_step ?env ?codec ?de ?se ?s0 ?s1" by (rule step_accept) simp
  then have run1: "service_run ?env ?codec ?de ?se sample_verifier ?s1" by (rule run_step [OF run_start])
  have "answer ?env ?codec ?de Written (Unlocked sample_verifier) sample_stream =
      (Unlocked pv', ''register'', Signed sigma)"
    by (simp add: answer_def sample_stream_read decide_submission_def sample_into_request r release_def reply_of_def
        sample_phase del: sign_request.simps)
  then have "service_step ?env ?codec ?de ?se ?s1 ?s2" by (intro step_answer) simp_all
  moreover have "sv_conns ?s1 0 = Some (Accepted sample_stream)" "signature_at ?s2 0 = Some sigma"
    by (simp_all add: signature_at_def)
  ultimately show ?thesis using run1 by blast
qed

theorem service_signs_once_witness:
  "\<exists>s (x :: rendered) sv sigma sigs stmt.
     service_run (sample_env s (rendered_bytes x)) (sample_codec sample_statement) (\<lambda>_. Inr sample_submission)
       (\<lambda>_. Inr ''r'') sample_verifier sv \<and> signature_at sv 0 = Some sigma \<and>
     notary_life (sample_env s (rendered_bytes x)) sigs (guarded (sv_verifier sv)) \<and> (stmt 0, sigma) \<in> set sigs \<and>
     inj_on (\<lambda>c. statement_eta (stmt c)) {c. signature_at sv c \<noteq> None}"
proof -
  let ?codec = "sample_codec sample_statement" and ?de = "\<lambda>_. Inr sample_submission" and ?se = "\<lambda>_. Inr ''r''"
  obtain s and x :: rendered and sv1 sv2 sigma where run1: "service_run (sample_env s (rendered_bytes x)) ?codec ?de ?se sample_verifier sv1"
    and "service_step (sample_env s (rendered_bytes x)) ?codec ?de ?se sv1 sv2" and sig: "signature_at sv2 0 = Some sigma"
    using sample_service_run by blast
  let ?env = "sample_env s (rendered_bytes x)"
  have run2: "service_run ?env ?codec ?de ?se sample_verifier sv2" by (rule run_step) fact+
  have "hex_codec (env_hex_encode ?env) (env_hex_decode ?env)" by (simp add: sample_env_def ref_hex_codec)
  moreover have "open_nonces (env_hex_decode ?env) [] = Inr (pv_nonces sample_verifier)"
    by (simp add: open_nonces_def file_lines.simps sample_verifier_def policy_verifier_new_def)
  ultimately obtain sigs stmt where "notary_life ?env sigs (guarded (sv_verifier sv2))"
    "\<forall>c sigma. signature_at sv2 c = Some sigma \<longrightarrow> (stmt c, sigma) \<in> set sigs"
    "inj_on (\<lambda>c. statement_eta (stmt c)) {c. signature_at sv2 c \<noteq> None}"
    using service_signs_once [OF sample_codec_words _ _ run2] by blast
  then show ?thesis using run2 sig by blast
qed

theorem answered_for_own_submission_witness:
  "\<exists>s (x :: rendered) sv sigma nonces q.
     service_run (sample_env s (rendered_bytes x)) (sample_codec sample_statement) (\<lambda>_. Inr sample_submission)
       (\<lambda>_. Inr ''r'') sample_verifier sv \<and> signature_at sv 0 = Some sigma \<and>
     read_message (\<lambda>_. Inr sample_submission) sample_stream = Inr sample_submission \<and>
     signed_for (sample_env s (rendered_bytes x)) (sample_codec sample_statement) (\<lambda>_. Inr sample_submission)
       sample_verifier sample_stream nonces q sigma \<and>
     nonce_seen (pv_nonces (guarded (sv_verifier sv))) (statement_eta (request_statement q))"
proof -
  obtain s and x :: rendered and sv1 sv2 sigma where run:
    "service_run (sample_env s (rendered_bytes x)) (sample_codec sample_statement) (\<lambda>_. Inr sample_submission)
       (\<lambda>_. Inr ''r'') sample_verifier sv1" "sv_conns sv1 0 = Some (Accepted sample_stream)"
    "service_step (sample_env s (rendered_bytes x)) (sample_codec sample_statement) (\<lambda>_. Inr sample_submission)
       (\<lambda>_. Inr ''r'') sv1 sv2" "signature_at sv2 0 = Some sigma"
    using sample_service_run by blast
  have "rtranclp (service_step (sample_env s (rendered_bytes x)) (sample_codec sample_statement)
      (\<lambda>_. Inr sample_submission) (\<lambda>_. Inr ''r'')) sv1 sv2" using run(3) by blast
  from answered_for_own_submission [OF run(1,2) this run(4)]
    run_step [OF run(1,3)] run(4) sample_stream_read show ?thesis by blast
qed

definition sample_bundle :: policy_bundle where
  "sample_bundle =
     \<lparr>bundle_id = ''rental'', bundle_labels = \<lparr>label_register = ''R'', label_apply = ''A'', label_settle = ''S''\<rparr>,
      bundle_register = \<lparr>register_layout_path = ''title.json'', register_vk_path = ''vk.json''\<rparr>,
      bundle_apply = Some \<lparr>apply_layout_path = ''income.json'', apply_vk_path = ''vk.json'', income_multiple = 3,
        amount_unit = ''wei''\<rparr>,
      bundle_settle = None, req_escrow_wei = ''0'', min_collateral_wei = ''0'', max_collateral_wei = ''0''\<rparr>"

definition sample_vk_json :: vk_json where
  "sample_vk_json =
     \<lparr>vk_protocol = ''groth16'', vk_curve = ''bn128'', vk_n_public = 1, vk_alpha_1 = [''1'', ''2'', ''1''],
      vk_beta_2 = [[''1'', ''1''], [''1'', ''1''], [''1'', ''0'']], vk_gamma_2 = [[''1'', ''1''], [''1'', ''1''], [''1'', ''0'']],
      vk_delta_2 = [[''1'', ''1''], [''1'', ''1''], [''1'', ''0'']], vk_ic = [[''1'', ''2'', ''1''], [''1'', ''2'', ''1'']]\<rparr>"

definition sample_loader :: "bytes loader" where
  "sample_loader =
     \<lparr>ld_read = (\<lambda>_. Inr ''text''), ld_join = (\<lambda>r p. p), ld_bundle = (\<lambda>_. Inr sample_bundle),
      ld_layout = (\<lambda>_. Inr title_v1), ld_record_layout = (\<lambda>_. Inr income_v1), ld_vk = (\<lambda>_. Inr sample_vk_json),
      ld_keccak256 = (\<lambda>b. b), ld_u256 = (\<lambda>_. Inr 0)\<rparr>"

definition sample_args :: "bytes notary_args" where
  "sample_args =
     \<lparr>arg_registry_ca = ''ca'', arg_policy = [''rental.json''], arg_root = ''.'', arg_attestation_key = ''att'',
      arg_statement_key = ''sk'', arg_chain_id = 1, arg_contract = replicate 20 (CHR 0x03), arg_tau_lock = None,
      arg_nonces = ''nonces'', arg_max_session_secs = 120\<rparr>"

abbreviation start_env :: "(unit, nat, unit, nat set, nat \<times> nat, (nat \<times> nat) \<times> nat \<times> nat, nat, nat) notary_env" where
  "start_env \<equiv> (sample_env \<lparr>shape_server_name = [], shape_path = [], shape_request_line = [], shape_template = [],
     shape_len = 0, shape_revealed = [], shape_hidden = []\<rparr> [])\<lparr>env_hex_decode := (\<lambda>_. Some (replicate 32 (CHR 0x01)))\<rparr>"

lemma sample_verifier_loaded: "is_ok (load_verifier (env_ark start_env) sample_loader sample_args f)"
  by (simp add: load_verifier_def sample_loader_def verifier_from_json_def sample_vk_json_def check_scheme_def
      sample_env_def sample_ark_def parse_g1_def parse_g2_def parse_fq2_def parse_field_def dec_value_def byte_defs
      BN254_R_def Let_def)

lemma sample_policies_loaded: "is_ok (load_policies (env_ark start_env) sample_loader sample_args)"
proof -
  obtain v where v: "load_verifier (env_ark start_env) sample_loader sample_args ''vk.json'' = Inr v"
    using sample_verifier_loaded by (auto simp: is_ok_iff)
  have "load_bundle (ld_read sample_loader) (ld_bundle sample_loader) (ld_u256 sample_loader) f = Inr sample_bundle" for f
    by (simp add: load_bundle_def sample_loader_def sample_bundle_def check_bundle_def min_collateral_def
        max_collateral_def req_escrow_def wei_def byte_defs)
  then show ?thesis
    using v valid_title_v1 valid_income_v1
    by (simp add: load_policies_def sample_args_def load_apply_policy_def load_settle_policy_def
        load_register_policy_def insert_new_def sample_bundle_def load_layout_def layout_from_json_def
        load_record_layout_def record_layout_from_json_def sample_loader_def Let_def valid_record_layout_def)
qed

lemma sample_read_key:
  "read_key (\<lambda>_. Some (replicate 32 (CHR 0x01))) (ld_read sample_loader) f = Inr (replicate 32 (CHR 0x01))"
  by (simp add: read_key_def sample_loader_def)

lemma sample_start_verifier:
  "\<exists>pv. start_verifier start_env (\<lambda>_. Inr 7) sample_loader (\<lambda>_. Inr []) sample_args = Inr pv"
proof -
  obtain t where t: "load_policies (env_ark start_env) sample_loader sample_args = Inr t"
    using sample_policies_loaded by (auto simp: is_ok_iff)
  moreover have "statement_key_from_bytes start_env b = Inr 0" "vk_notary start_env k = []" for b k
    by (simp_all add: statement_key_from_bytes_def vk_notary_def sample_env_def)
  moreover have "open_nonces (env_hex_decode start_env) [] = Inr \<lparr>ns_file = [], ns_seen = {}\<rparr>"
    by (simp add: open_nonces_def file_lines.simps)
  ultimately show ?thesis by (simp add: start_verifier_def sample_read_key)
qed

theorem service_never_poisoned_witness:
  "\<exists>pv sv pv'. start_verifier start_env (\<lambda>_. Inr 7) sample_loader (\<lambda>_. Inr []) sample_args = Inr pv \<and>
     service_run start_env (sample_codec sample_statement) (\<lambda>_. Inr sample_submission) (\<lambda>_. Inr ''r'') pv sv \<and>
     sv_conns sv 0 \<noteq> Some (Accepted sample_stream) \<and> sv_conns sv 0 \<noteq> None \<and>
     sv_verifier sv = Unlocked pv' \<and> tables_ok pv'"
proof -
  let ?codec = "sample_codec sample_statement" and ?de = "\<lambda>_. Inr sample_submission" and ?se = "\<lambda>_. Inr ''r''"
  obtain pv where pv: "start_verifier start_env (\<lambda>_. Inr 7) sample_loader (\<lambda>_. Inr []) sample_args = Inr pv"
    using sample_start_verifier by blast
  let ?s0 = "\<lparr>sv_verifier = Unlocked pv, sv_log = [], sv_conns = Map.empty\<rparr>"
  let ?s1 = "?s0\<lparr>sv_conns := (sv_conns ?s0)(0 \<mapsto> Accepted sample_stream)\<rparr>"
  obtain m phase r where ans: "answer start_env ?codec ?de Written (sv_verifier ?s1) sample_stream = (m, phase, r)"
    by (cases "answer start_env ?codec ?de Written (sv_verifier ?s1) sample_stream") auto
  let ?s2 = "?s1\<lparr>sv_verifier := m, sv_conns := (sv_conns ?s1)(0 \<mapsto> Answered phase r)\<rparr>"
  have "service_step start_env ?codec ?de ?se ?s0 ?s1" by (rule step_accept) simp
  then have run1: "service_run start_env ?codec ?de ?se pv ?s1" by (rule run_step [OF run_start])
  have "service_step start_env ?codec ?de ?se ?s1 ?s2" by (rule step_answer [OF _ ans]) simp
  then have run2: "service_run start_env ?codec ?de ?se pv ?s2" by (rule run_step [OF run1])
  have "libraries_return start_env ?codec" "transcripts_sized (env_tlsn start_env)"
    using sample_libraries sample_transcripts by (simp_all add: libraries_return_def)
  from service_never_poisoned [OF pv this run2] obtain pv' where "sv_verifier ?s2 = Unlocked pv'" "tables_ok pv'" by blast
  moreover have "sv_conns ?s2 0 = Some (Answered phase r)" by simp
  ultimately show ?thesis using pv run2 by (metis conn.distinct(1) option.distinct(1) option.inject)
qed

end
