(* ===== verification/Mock_Circuits.thy ===== *)
theory Mock_Circuits
  imports Phase_Inputs Mock_Notary Notary_Service
begin

section \<open>The mock notary against the circuits\<close>

text \<open>
  \<open>pprev-notary/src/mock.rs\<close> evaluates phi_A and phi_S natively on records in the clear, in place of the proofs
  that the policy verifier asks for. Here its checks are compared with the constraints of
  \<open>circuits/src/phi_a.circom\<close> and \<open>phi_s.circom\<close> on the same session: the record in the clear holds the values
  that the session's openings open, and the mock notary's Poseidon is the circuits'.
\<close>

definition same_poseidon :: "(nat \<Rightarrow> nat \<Rightarrow> nat res) \<Rightarrow> comparators \<Rightarrow> bool" where
  "same_poseidon poseidon cm \<longleftrightarrow>
     (\<forall>a b. is_signal a \<longrightarrow> is_signal b \<longrightarrow> poseidon a b = Inr (cm_poseidon cm a b) \<and> is_signal (cm_poseidon cm a b))"

text \<open>The records in the clear: the account and the income of an income session; the property, the tenant and
  the date of a tenancy session, whose first opening is the landlord's account.\<close>

definition clear_income :: "field_opening list \<Rightarrow> eligibility_record" where
  "clear_income ops =
     \<lparr>el_account = fo_plaintext (ops ! 0), el_monthly_income = of_nat (dec_value (fo_plaintext (ops ! 1)))\<rparr>"

definition clear_tenancy :: "field_opening list \<Rightarrow> settlement_record" where
  "clear_tenancy ops =
     \<lparr>sr_property_id = fo_plaintext (ops ! 1), sr_tenant = fo_plaintext (ops ! 2), sr_record_date = fo_plaintext (ops ! 3)\<rparr>"

text \<open>\<open>counterparty_commitment\<close> computes c_B as the circuits do.\<close>

lemma counterparty_commitment_opens:
  assumes "same_poseidon poseidon cm" and "length ident \<le> 31" and "length salt = 32" "be_value salt < BN254_R"
    and "length c_b = 32"
  shows "\<exists>c. counterparty_commitment BN254_R poseidon ident salt = Inr c \<and>
    (c = c_b \<longleftrightarrow> cm_poseidon cm (be_value ident) (be_value salt) = be_value c_b)"
proof -
  have "be_value ident < 256 ^ length ident" by (rule be_value_less)
  also have "(256::nat) ^ length ident \<le> 256 ^ 31" using assms(2) by (intro power_increasing) simp_all
  also have "(256::nat) ^ 31 < BN254_R" by (simp add: BN254_R_def)
  finally have ident: "be_value ident < BN254_R" .
  let ?out = "cm_poseidon cm (be_value ident) (be_value salt)"
  have p: "poseidon (be_value ident) (be_value salt) = Inr ?out" "?out < BN254_R"
    using assms(1,4) ident by (simp_all add: same_poseidon_def is_signal_def)
  then have "?out < 256 ^ 32" using BN254_R_256 by simp
  then have "be_bytes 32 ?out = c_b \<longleftrightarrow> ?out = be_value c_b"
    using be_bytes_be_value [OF assms(5)] by (metis be_value_be_bytes mod_less)
  moreover have "counterparty_commitment BN254_R poseidon ident salt = Inr (be_bytes 32 ?out)"
    using assms ident p by (simp add: counterparty_commitment_def be_limbs_value Let_def)
  ultimately show ?thesis by blast
qed

lemma mock_apply_iff:
  assumes "mn_policies mn (ma_policy_id q) = Some (Mock_apply m)" and "fr_modulus (env_ark env) = BN254_R"
    and "same_poseidon poseidon cm" and "length ident \<le> 31" and "length salt = 32" "be_value salt < BN254_R"
    and "length (ma_c_b q) = 32" and "unat (tx_amount (ma_tx_data q)) < 2 ^ 96" "unat m < 16"
    and income: "income < 2 ^ 256"
  shows "is_ok (mock_check_apply env poseidon now mn q \<lparr>el_account = ident, el_monthly_income = of_nat income\<rparr>
      \<lparr>co_identifier = ident, co_salt = salt\<rparr>) \<longleftrightarrow>
    cm_poseidon cm (be_value ident) (be_value salt) = be_value (ma_c_b q) \<and> unat m * unat (tx_amount (ma_tx_data q)) \<le> income"
proof -
  obtain c where c: "counterparty_commitment BN254_R poseidon ident salt = Inr c"
    "c = ma_c_b q \<longleftrightarrow> cm_poseidon cm (be_value ident) (be_value salt) = be_value (ma_c_b q)"
    using counterparty_commitment_opens [OF assms(3-7)] by blast
  let ?am = "tx_amount (ma_tx_data q)"
  have um: "unat (ucast m :: u256) = unat m" 
    using unsigned_less [of m, where 'a = nat] by (simp add: unsigned_ucast_eq take_bit_nat_eq_self)
  have "unat ?am * unat m \<le> 2 ^ 96 * 16" using assms(8,9) by (intro mult_le_mono) simp_all
  then have small: "unat ?am * unat m < 2 ^ 256" by simp
  then have "unat (?am * ucast m) = unat ?am * unat m" by (simp add: unat_mult_lem [symmetric] um unat_word_ariths)
  moreover have "unat (of_nat income :: u256) = income" using income by (simp add: unat_of_nat take_bit_eq_mod)
  ultimately have "?am * ucast m \<le> of_nat income \<longleftrightarrow> unat m * unat ?am \<le> income"
    by (simp add: word_le_nat_alt mult.commute)
  then show ?thesis
    using assms(1,2) c small by (simp add: mock_check_apply_def checked_mul_def um is_ok_iff ensure_Inr_iff)
qed

lemma mock_settle_iff:
  assumes "mn_policies mn (ms_policy_id p) = Some (Mock_settle tau offset)" and "fr_modulus (env_ark env) = BN254_R"
    and "same_poseidon poseidon cm" and "length ident \<le> 31" and "length salt = 32" "be_value salt < BN254_R"
    and "length (ms_c_b p) = 32" and "u64_of (ms_expires_at p) = Some expires"
    and day: "engagement_day expires tau offset = Inr e"
  shows "is_ok (mock_check_settle env poseidon now mn p \<lparr>sr_property_id = pid, sr_tenant = ident, sr_record_date = date\<rparr>
      \<lparr>co_identifier = ident, co_salt = salt\<rparr>) \<longleftrightarrow>
    cm_poseidon cm (be_value ident) (be_value salt) = be_value (ms_c_b p) \<and>
    property_word pid = Inr (tx_property_id (ms_tx_data p)) \<and> is_ok (day_number date) \<and> e \<le> date_digits date"
proof -
  obtain c where c: "counterparty_commitment BN254_R poseidon ident salt = Inr c"
    "c = ms_c_b p \<longleftrightarrow> cm_poseidon cm (be_value ident) (be_value salt) = be_value (ms_c_b p)"
    using counterparty_commitment_opens [OF assms(3-7)] by blast
  have "tau \<le> expires" using day by (simp add: engagement_day_Inr_iff)
  moreover have "mock_engagement_day (expires - tau) offset \<le> n \<longleftrightarrow> e \<le> date_digits date" if "day_number date = Inr n" for n
    using mock_date_check_agrees [OF day that] .
  ultimately show ?thesis
    using assms(1,2,8) c
    by (auto simp: mock_check_settle_def is_ok_iff ensure_Inr_iff and_then_Inr_iff some_or_Inr_iff)
qed

lemma openings_pad:
  assumes "validate_record_layout l = Inr ()" and "record_openings l acct values blinders = Inr ops"
  shows "pad l acct (account_width l) = Inr (fo_plaintext (ops ! 0))"
    and "length (fo_plaintext (ops ! 0)) = account_width l"
    and "j < length (record_fields l) \<Longrightarrow> pad l (values ! j) (width (record_fields l ! j)) = Inr (fo_plaintext (ops ! Suc j))"
    and "j < length (record_fields l) \<Longrightarrow> length (fo_plaintext (ops ! Suc j)) = width (record_fields l ! j)"
proof -
  have vp: "valid_padding l" using valid_record_padding assms(1) by (simp add: valid_record_layout_def)
  note o = record_openings_Inr [OF assms]
  show "pad l acct (account_width l) = Inr (fo_plaintext (ops ! 0))" by (rule o(3))
  from pad_length [OF vp this] show "length (fo_plaintext (ops ! 0)) = account_width l" .
  assume j: "j < length (record_fields l)"
  show "pad l (values ! j) (width (record_fields l ! j)) = Inr (fo_plaintext (ops ! Suc j))" by (rule o(4) [OF j])
  from pad_length [OF vp this] show "length (fo_plaintext (ops ! Suc j)) = width (record_fields l ! j)" .
qed

text \<open>On an income session, phi_A asks for what the mock notary checks, for a decimal income and for an account
  that is not blank.\<close>

lemma mock_apply_agrees:
  assumes "circomlib_ok sha lib" and "comparators_ok cm" and l: "validate_record_layout l = Inr ()"
    and P: "phi_a_params_from_layout l m = Inr P" and gen: "phi_a_generated P"
    and opn: "record_openings l acct [income] blinders = Inr ops" and "list_all (\<lambda>b. length b = 16) blinders"
    and pub: "phi_a_new (opening_commitment sha (ops ! 0)) (opening_commitment sha (ops ! 1)) (ma_c_b q)
      (tx_amount (ma_tx_data q)) d = Inr pub"
    and "phi_a_input_new pub ops salt = Inr i" and "be_value salt < BN254_R"
    and mock: "mn_policies mn (ma_policy_id q) = Some (Mock_apply m)" "fr_modulus (env_ark env) = BN254_R"
      "same_poseidon poseidon cm" "length salt = 32" "length (ma_c_b q) = 32"
  shows "phi_a lib cm P (fst (phi_a_seen i)) (snd (phi_a_seen i)) \<longleftrightarrow>
    is_ok (mock_check_apply env poseidon now mn q (clear_income ops)
      \<lparr>co_identifier = fo_plaintext (ops ! 0), co_salt = salt\<rparr>) \<and>
    hd (fo_plaintext (ops ! 0)) \<noteq> hd (padding l) \<and> all_digits (fo_plaintext (ops ! 1))"
proof -
  let ?acct = "fo_plaintext (ops ! 0)" and ?inc = "fo_plaintext (ops ! 1)"
  have n: "length (record_fields l) = 1" using record_openings_Inr(2) [OF l opn] by simp
  note pads = openings_pad [OF l opn]
  have par: "phia_account_w P = account_width l" "phia_income_w P = width (record_fields l ! 0)" "phia_multiple P = unat m"
    using P n by (auto simp: phi_a_params_from_layout_def ensure_Inr_iff and_then_Inr_iff width_of_def index_of_def
        index_at_def length_Suc_conv split: if_splits)
  have w: "length ?acct \<le> 31" "length ?inc \<le> 30" "unat m < 16"
    using gen par pads(2) pads(4) [of 0] n by (simp_all add: phi_a_generated_def)
  have am: "unat (tx_amount (ma_tx_data q)) < 2 ^ 96" using pub by (simp add: phi_a_new_Inr)
  have inc: "dec_value ?inc < 2 ^ 256" if "all_digits ?inc"
  proof -
    have "dec_value ?inc < 10 ^ length ?inc" by (rule dec_value_bound [OF that])
    also have "(10::nat) ^ length ?inc \<le> 10 ^ 30" using w(2) by (intro power_increasing) simp_all
    also have "(10::nat) ^ 30 < 2 ^ 256" by simp
    finally show ?thesis .
  qed
  have "phi_a lib cm P (fst (phi_a_seen i)) (snd (phi_a_seen i)) \<longleftrightarrow>
      hd ?acct \<noteq> hd (padding l) \<and> cm_poseidon cm (be_value ?acct) (be_value salt) = be_value (ma_c_b q) \<and>
      all_digits ?inc \<and> unat m * unat (tx_amount (ma_tx_data q)) \<le> dec_value ?inc"
    unfolding applicant_input_iff [OF assms(1-10)]
    using pads(1) pads(3) [of 0] n by (simp add: income_shows_def)
  also have "\<dots> \<longleftrightarrow> is_ok (mock_check_apply env poseidon now mn q (clear_income ops)
      \<lparr>co_identifier = ?acct, co_salt = salt\<rparr>) \<and> hd ?acct \<noteq> hd (padding l) \<and> all_digits ?inc"
    unfolding clear_income_def
    using mock_apply_iff [OF mock(1-3) w(1) mock(4) assms(10) mock(5) am w(3) inc] by auto
  finally show ?thesis .
qed

text \<open>On a tenancy session, phi_S asks for what the mock notary checks, and for a tenant that is not blank.\<close>

lemma mock_settle_agrees:
  assumes "circomlib_ok sha lib" and "comparators_ok cm" and l: "validate_record_layout l = Inr ()"
    and P: "phi_s_params_from_layout l = Inr P" and gen: "phi_s_asserts P"
    and opn: "record_openings l acct [prop_id, tenant, date] blinders = Inr ops" and "list_all (\<lambda>b. length b = 16) blinders"
    and word: "is_word (tx_property_id (ms_tx_data p))"
    and pub: "phi_s_new (opening_commitment sha (ops ! 1), opening_commitment sha (ops ! 2), opening_commitment sha (ops ! 3))
      (tx_property_id (ms_tx_data p)) (ms_c_b p) (nat e) d = Inr pub"
    and "phi_s_input_new pub ops salt = Inr i" and "be_value salt < BN254_R"
    and mock: "mn_policies mn (ms_policy_id p) = Some (Mock_settle tau offset)" "fr_modulus (env_ark env) = BN254_R"
      "same_poseidon poseidon cm" "length salt = 32" "length (ms_c_b p) = 32"
    and day: "u64_of (ms_expires_at p) = Some expires" "engagement_day expires tau offset = Inr e"
  shows "phi_s lib cm P (fst (phi_s_seen i)) (snd (phi_s_seen i)) \<longleftrightarrow>
    is_ok (mock_check_settle env poseidon now mn p (clear_tenancy ops)
      \<lparr>co_identifier = fo_plaintext (ops ! 2), co_salt = salt\<rparr>) \<and>
    hd (fo_plaintext (ops ! 2)) \<noteq> hd (padding l)"
proof -
  let ?pid = "fo_plaintext (ops ! 1)" and ?ten = "fo_plaintext (ops ! 2)" and ?date = "fo_plaintext (ops ! 3)"
  have n: "length (record_fields l) = 3" using record_openings_Inr(2) [OF l opn] by simp
  note pads = openings_pad [OF l opn] and par = settle_params [OF P]
  have f: "pad l prop_id (phis_property_w P) = Inr ?pid" "pad l tenant (account_width l) = Inr ?ten"
      "pad l date 10 = Inr ?date"
    using pads(3) [of 0] pads(3) [of 1] pads(3) [of 2] n par by (simp_all add: numeral_2_eq_2 numeral_3_eq_3)
  have len: "length ?pid = phis_property_w P" "length ?ten \<le> 31" "?pid \<noteq> []" "phis_property_w P \<le> 32"
    using pads(4) [of 0] pads(4) [of 1] n par gen by (auto simp: phi_s_asserts_def numeral_2_eq_2)
  have "field_word l KEY_PROPERTY_ID prop_id = Inr (tx_property_id (ms_tx_data p)) \<longleftrightarrow>
      property_word ?pid = Inr (tx_property_id (ms_tx_data p))"
    using f(1) len by (auto simp: field_word_def par(3) property_word_def)
  moreover have "0 \<le> e" using day(2) by (auto simp: engagement_day_Inr_iff ymd_of_days_def ensure_Inr_iff Let_def split: if_splits)
  ultimately have "phi_s lib cm P (fst (phi_s_seen i)) (snd (phi_s_seen i)) \<longleftrightarrow>
      property_word ?pid = Inr (tx_property_id (ms_tx_data p)) \<and> hd ?ten \<noteq> hd (padding l) \<and>
      cm_poseidon cm (be_value ?ten) (be_value salt) = be_value (ms_c_b p) \<and>
      is_ok (day_number ?date) \<and> e \<le> date_digits ?date"
    unfolding tenancy_input_iff [OF assms(1-11)] by (simp add: notation_shows_def f(2,3))
  also have "\<dots> \<longleftrightarrow> is_ok (mock_check_settle env poseidon now mn p (clear_tenancy ops)
      \<lparr>co_identifier = ?ten, co_salt = salt\<rparr>) \<and> hd ?ten \<noteq> hd (padding l)"
    unfolding clear_tenancy_def
    using mock_settle_iff [OF mock(1-3) len(2) mock(4) assms(11) mock(5) day] by auto
  finally show ?thesis .
qed

text \<open>C9: The mock notary decides as the circuits do. For an applicant's session, phi_A holds of the input that the
  applicant builds exactly when the mock notary's check accepts the Apply request with the record in the clear,
  the account is not blank and the income is a decimal number; for a landlord's session, phi_S holds of the input that the
  landlord builds exactly when the mock notary's check accepts the Settle request and the tenant is not blank. The three
  conditions are what the mock notary leaves out.\<close>

theorem mock_agrees_with_circuits:
  assumes "circomlib_ok sha lib" and "comparators_ok cm" and "same_poseidon poseidon cm"
    and "fr_modulus (env_ark env) = BN254_R" and "length salt = 32" "be_value salt < BN254_R"
    and "mn_policies mn (ma_policy_id q) = Some (Mock_apply m)" "length (ma_c_b q) = 32"
    and "validate_record_layout la = Inr ()" "phi_a_params_from_layout la m = Inr Pa" "phi_a_generated Pa"
    and "record_openings la acct [income] blinders_a = Inr oa" "list_all (\<lambda>b. length b = 16) blinders_a"
    and "phi_a_new (opening_commitment sha (oa ! 0)) (opening_commitment sha (oa ! 1)) (ma_c_b q)
      (tx_amount (ma_tx_data q)) d = Inr pub_a"
    and "phi_a_input_new pub_a oa salt = Inr ia"
    and "mn_policies mn (ms_policy_id p) = Some (Mock_settle tau offset)" "length (ms_c_b p) = 32"
    and "u64_of (ms_expires_at p) = Some expires" "engagement_day expires tau offset = Inr e"
    and "validate_record_layout ls = Inr ()" "phi_s_params_from_layout ls = Inr Ps" "phi_s_asserts Ps"
    and "record_openings ls landlord [prop_id, tenant, date] blinders_s = Inr os" "list_all (\<lambda>b. length b = 16) blinders_s"
    and "is_word (tx_property_id (ms_tx_data p))"
    and "phi_s_new (opening_commitment sha (os ! 1), opening_commitment sha (os ! 2), opening_commitment sha (os ! 3))
      (tx_property_id (ms_tx_data p)) (ms_c_b p) (nat e) d' = Inr pub_s"
    and "phi_s_input_new pub_s os salt = Inr si"
  shows "(phi_a lib cm Pa (fst (phi_a_seen ia)) (snd (phi_a_seen ia)) \<longleftrightarrow>
      is_ok (mock_check_apply env poseidon now mn q (clear_income oa)
        \<lparr>co_identifier = fo_plaintext (oa ! 0), co_salt = salt\<rparr>) \<and>
      hd (fo_plaintext (oa ! 0)) \<noteq> hd (padding la) \<and> all_digits (fo_plaintext (oa ! 1))) \<and>
    (phi_s lib cm Ps (fst (phi_s_seen si)) (snd (phi_s_seen si)) \<longleftrightarrow>
      is_ok (mock_check_settle env poseidon now mn p (clear_tenancy os)
        \<lparr>co_identifier = fo_plaintext (os ! 2), co_salt = salt\<rparr>) \<and>
      hd (fo_plaintext (os ! 2)) \<noteq> hd (padding ls))"
  using mock_apply_agrees [OF assms(1,2,9-15,6,7,4,3,5,8)]
    mock_settle_agrees [OF assms(1,2,20-27,6,16,4,3,5,17-19)] by blast

text \<open>A mock notary with an Apply and a Settle policy, and the requests of the sample sessions.\<close>

definition two_phase_mock :: "nat mock_notary" where
  "two_phase_mock = mock_notary_new [''apply'' \<mapsto> Mock_apply 3, ''settle'' \<mapsto> Mock_settle 2592000 10800] 0
     (mn_domain sample_mock) \<lparr>ns_file = [], ns_seen = {}\<rparr>"

definition applicant_request :: mock_apply_request where
  "applicant_request = sample_income\<lparr>ma_tx_data := sample_tx, ma_c_b := sample_c_b\<rparr>"

definition landlord_request :: mock_settle_request where
  "landlord_request =
     \<lparr>ms_eng_id = 1, ms_tx_id = 1, ms_c_tx = replicate 32 (CHR 0x01), ms_tx_data = sample_tx, ms_c_b = sample_c_b,
      ms_expires_at = 1790304400, ms_policy_id = ''settle'', ms_submitter = replicate 20 (CHR 0x02),
      ms_eta = sample_nonce (CHR 0x09)\<rparr>"

definition field_sum :: "nat \<Rightarrow> nat \<Rightarrow> nat res" where "field_sum a b = Inr (field_mod (a + b))"

lemma field_sum_poseidon: "same_poseidon field_sum ref_comparators"
  by (simp add: same_poseidon_def field_sum_def ref_comparators_def is_signal_def BN254_R_def)

lemma two_phase_requests:
  "mn_policies two_phase_mock (ma_policy_id applicant_request) = Some (Mock_apply 3)" "length (ma_c_b applicant_request) = 32"
  "ma_c_b applicant_request = sample_c_b" "tx_amount (ma_tx_data applicant_request) = 1000"
  "mn_policies two_phase_mock (ms_policy_id landlord_request) = Some (Mock_settle 2592000 10800)"
  "length (ms_c_b landlord_request) = 32" "ms_c_b landlord_request = sample_c_b"
  "tx_property_id (ms_tx_data landlord_request) = sample_word" "u64_of (ms_expires_at landlord_request) = Some 1790304400"
  by (simp_all add: two_phase_mock_def mock_notary_new_def applicant_request_def landlord_request_def sample_income_def
      sample_c_b_def sample_tx_def u64_of_def)

lemma sample_engaged: "engagement_day 1790304400 2592000 10800 = Inr 20260826"
proof -
  have "ymd_of_days 20691 = Inr 20260826" by code_simp
  then show ?thesis by (simp add: engagement_day_Inr_iff i64_range_def SECS_PER_DAY_def)
qed

text \<open>The applicant whose input satisfies phi_A and the landlord whose input satisfies phi_S are accepted.\<close>

theorem mock_agrees_with_circuits_witness:
  "\<exists>oa os. record_openings income_v1 sample_tenant [sample_income_value] (replicate 2 sample_blinder) = Inr oa \<and>
     record_openings tenancy_v1 ''ACC-000000000001'' sample_values (replicate 4 sample_blinder) = Inr os \<and>
     is_ok (mock_check_apply start_env field_sum 1000 two_phase_mock applicant_request (clear_income oa)
       \<lparr>co_identifier = fo_plaintext (oa ! 0), co_salt = replicate 32 (CHR 0x00)\<rparr>) \<and>
     is_ok (mock_check_settle start_env field_sum 1000 two_phase_mock landlord_request (clear_tenancy os)
       \<lparr>co_identifier = fo_plaintext (os ! 2), co_salt = replicate 32 (CHR 0x00)\<rparr>)"
proof -
  let ?salt = "replicate 32 (CHR 0x00)"
  obtain oa os pub_a pub_s ia si where run:
    "record_openings income_v1 sample_tenant [sample_income_value] (replicate 2 sample_blinder) = Inr oa"
    "record_openings tenancy_v1 ''ACC-000000000001'' sample_values (replicate 4 sample_blinder) = Inr os"
    "phi_a_new (opening_commitment sample_sha (oa ! 0)) (opening_commitment sample_sha (oa ! 1)) sample_c_b 1000 ?salt = Inr pub_a"
    "phi_s_new (opening_commitment sample_sha (os ! 1), opening_commitment sample_sha (os ! 2),
       opening_commitment sample_sha (os ! 3)) sample_word sample_c_b 20260826 ?salt = Inr pub_s"
    "phi_a_input_new pub_a oa ?salt = Inr ia" "phi_s_input_new pub_s os ?salt = Inr si"
    using sample_phase_inputs by blast
  have fr: "fr_modulus (env_ark start_env) = BN254_R" by (simp add: sample_env_def sample_ark_def)
  have e: "nat (20260826 :: int) = 20260826" by simp
  have "length ?salt = 32" by simp
  note agree = mock_agrees_with_circuits [OF sample_sha_ok ref_comparators_ok field_sum_poseidon fr this
      sample_phase_facts(4) two_phase_requests(1,2) valid_income_v1 sample_phi_a_eq sample_phase_facts(1) run(1) sample_blinders _
      run(5) two_phase_requests(5,6,9) sample_engaged valid_tenancy_v1 sample_phi_s_eq sample_phase_facts(2)
      run(2) sample_blinders _ _ run(6), unfolded two_phase_requests(3,4,7,8) e, OF run(3) sample_phase_facts(3) run(4)]
  have "phi_a (ref_circomlib sample_sha) ref_comparators sample_phi_a (fst (phi_a_seen ia)) (snd (phi_a_seen ia))"
    using applicant_input_iff [OF sample_sha_ok ref_comparators_ok valid_income_v1 sample_phi_a_eq sample_phase_facts(1) run(1)
        sample_blinders run(3,5) sample_phase_facts(4)] sample_shows(1) by simp
  moreover have "phi_s (ref_circomlib sample_sha) ref_comparators sample_phi_s (fst (phi_s_seen si)) (snd (phi_s_seen si))"
    using tenancy_input_iff [OF sample_sha_ok ref_comparators_ok valid_tenancy_v1 sample_phi_s_eq sample_phase_facts(2) run(2)
        sample_blinders sample_phase_facts(3) run(4,6) sample_phase_facts(4)] sample_notation_shows by simp
  ultimately show ?thesis using agree run(1,2) by blast
qed

end
