(* ===== verification/Notarization.thy ===== *)
theory Notarization
  imports Notary_Service
begin

section \<open>The notary's half of a session\<close>

text \<open>
  Model of \<open>pprev-notary/src/session.rs\<close> and of the MPC-TLS listener of
  \<open>pprev-notary/src/bin/pprev-notary.rs\<close>: the sequence of steps of a session with the two bounds on
  its duration, the attestation that is built at its end with the notary's clock as an extension, the
  report and the event of the log. What the tlsn library and the sockets do in a session is the record
  \<open>mpc_session\<close>, which also holds how long preprocessing and the rest take (\<open>None\<close>: for ever). The
  task that drives the connection is not modelled beyond the outcome of joining it.
\<close>

definition DEFAULT_PREPROCESS_TIMEOUT :: nat where "DEFAULT_PREPROCESS_TIMEOUT = 30"

definition DEFAULT_SESSION_TIMEOUT :: nat where "DEFAULT_SESSION_TIMEOUT = 120"

definition DEFAULT_MAX_SESSION_SECS :: u64 where "DEFAULT_MAX_SESSION_SECS = 120"

record notary_config =
  nc_attestation_key :: bytes
  nc_root_certs :: "bytes list"
  nc_preprocess_timeout :: nat
  nc_session_timeout :: nat
  nc_eth_attestation :: bool

definition notary_config_new :: "bytes \<Rightarrow> bytes list \<Rightarrow> notary_config" where
  "notary_config_new attestation_key root_certs =
     \<lparr>nc_attestation_key = attestation_key, nc_root_certs = root_certs,
      nc_preprocess_timeout = DEFAULT_PREPROCESS_TIMEOUT, nc_session_timeout = DEFAULT_SESSION_TIMEOUT,
      nc_eth_attestation = False\<rparr>"

record notarization_report =
  nr_t_att :: u64
  nr_connection_time :: u64

text \<open>A session ends in a cut or in another error.\<close>

datatype session_error = Session_cut bytes | Session_failed error

subsection \<open>What happens on the connection\<close>

datatype 'v commit_start = Start_mpc 'v | Start_proxy 'v

record tls_record =
  rec_application_data :: bool
  rec_ciphertext_len :: nat

datatype 'k certificate_binding = V1_2 'k | Other_binding

record 'k tls_transcript =
  tt_sent :: "tls_record list"
  tt_recv :: "tls_record list"
  tt_binding :: "'k certificate_binding"
  tt_time :: u64
  tt_version :: nat

record ('k, 'tc) attestation_body =
  ab_time :: u64
  ab_version :: nat
  ab_sent_len :: "32 word"
  ab_received_len :: "32 word"
  ab_ephemeral_key :: 'k
  ab_commitments :: 'tc
  ab_extensions :: "(bytes \<times> bytes) list"

record ('cfg, 'v, 'k, 'tc, 'req, 'prov, 'acfg, 'bld, 'att) mpc_session =
  ms_config :: "bytes list \<Rightarrow> 'cfg res"
  ms_commit :: "'cfg \<Rightarrow> 'v commit_start res"
  ms_accept :: "'v \<Rightarrow> 'v res"
  ms_reject :: "'v \<Rightarrow> unit res"
  ms_preprocess_time :: "nat option"
  ms_rest_time :: "nat option"
  ms_run :: "'v \<Rightarrow> 'v res"
  ms_verify :: "'v \<Rightarrow> ('tc \<times> 'v) res"
  ms_transcript :: "'v \<Rightarrow> 'k tls_transcript"
  ms_close :: "'v \<Rightarrow> unit res"
  ms_driver_join :: "unit res"
  ms_request_bytes :: "bytes res"
  ms_decode_request :: "bytes \<Rightarrow> 'req res"
  ms_provider :: "bytes \<Rightarrow> bool \<Rightarrow> 'prov res"
  ms_att_config :: "'prov \<Rightarrow> 'acfg res"
  ms_accept_request :: "'acfg \<Rightarrow> 'req \<Rightarrow> 'bld res"
  ms_build :: "'bld \<Rightarrow> 'prov \<Rightarrow> ('k, 'tc) attestation_body \<Rightarrow> 'att res"
  ms_encode :: "'att \<Rightarrow> bytes res"
  ms_send :: "bytes \<Rightarrow> unit res"

definition app_data_len :: "tls_record list \<Rightarrow> nat" where
  "app_data_len records = sum_list (map rec_ciphertext_len (filter rec_application_data records))"

definition preprocessing ::
    "('cfg, 'v, 'k, 'tc, 'req, 'prov, 'acfg, 'bld, 'att) mpc_session \<Rightarrow> 'cfg \<Rightarrow> 'v res" where
  "preprocessing ms cfg =
     and_then (ms_commit ms cfg) (\<lambda>start.
     case start of
       Start_mpc v \<Rightarrow> ms_accept ms v
     | Start_proxy v \<Rightarrow> and_then (ms_reject ms v) (\<lambda>_. bail ''prover requested proxy mode''))"

definition attest_session ::
    "('cfg, 'v, 'k, 'tc, 'req, 'prov, 'acfg, 'bld, 'att) mpc_session \<Rightarrow> notary_config \<Rightarrow> u64 \<Rightarrow> 'v
      \<Rightarrow> notarization_report res" where
  "attest_session ms config now v =
     and_then (ms_run ms v) (\<lambda>v.
     and_then (ms_verify ms v) (\<lambda>(commitments, v).
     let tr = ms_transcript ms v in
     and_then (ms_close ms v) (\<lambda>_.
     let sent_len = app_data_len (tt_sent tr); recv_len = app_data_len (tt_recv tr) in
     and_then (ms_driver_join ms) (\<lambda>_.
     and_then (ms_request_bytes ms) (\<lambda>bs.
     and_then (ms_decode_request ms bs) (\<lambda>request.
     and_then (ms_provider ms (nc_attestation_key config) (nc_eth_attestation config)) (\<lambda>provider.
     and_then (ms_att_config ms provider) (\<lambda>att_config.
     case tt_binding tr of
       Other_binding \<Rightarrow> bail ''unsupported certificate binding (TLS 1.2 only)''
     | V1_2 k \<Rightarrow>
         let t_att = now in
         and_then (ms_accept_request ms att_config request) (\<lambda>builder.
         and_then (ms_build ms builder provider
           \<lparr>ab_time = tt_time tr, ab_version = tt_version tr, ab_sent_len = of_nat sent_len,
            ab_received_len = of_nat recv_len, ab_ephemeral_key = k, ab_commitments = commitments,
            ab_extensions = [(T_ATT_EXTENSION_ID, be_bytes 8 (unat t_att))]\<rparr>) (\<lambda>attestation.
         and_then (ms_encode ms attestation) (\<lambda>bs.
         and_then (ms_send ms bs) (\<lambda>_.
         Inr \<lparr>nr_t_att = t_att, nr_connection_time = tt_time tr\<rparr>))))))))))))"

definition failed :: "'a res \<Rightarrow> session_error + 'a" where
  "failed r = (case r of Inl e \<Rightarrow> Inl (Session_failed e) | Inr x \<Rightarrow> Inr x)"

definition notarize_session ::
    "('cfg, 'v, 'k, 'tc, 'req, 'prov, 'acfg, 'bld, 'att) mpc_session \<Rightarrow> notary_config \<Rightarrow> u64
      \<Rightarrow> session_error + notarization_report" where
  "notarize_session ms config now =
     (case ms_config ms (nc_root_certs config) of
        Inl e \<Rightarrow> Inl (Session_failed e)
      | Inr cfg \<Rightarrow>
          (case timeout (nc_preprocess_timeout config) (ms_preprocess_time ms) (preprocessing ms cfg) of
             Elapsed \<Rightarrow> Inl (Session_cut ''preprocessing did not finish'')
           | In_time (Inl e) \<Rightarrow> Inl (Session_failed e)
           | In_time (Inr v) \<Rightarrow> failed (attest_session ms config now v)))"

text \<open>How long the notary's future runs: it ends with the first error, and preprocessing is cut at its own bound.\<close>

definition session_time ::
    "('cfg, 'v, 'k, 'tc, 'req, 'prov, 'acfg, 'bld, 'att) mpc_session \<Rightarrow> notary_config \<Rightarrow> nat option" where
  "session_time ms config =
     (case ms_config ms (nc_root_certs config) of
        Inl e \<Rightarrow> Some 0
      | Inr cfg \<Rightarrow>
          (case timeout (nc_preprocess_timeout config) (ms_preprocess_time ms) (preprocessing ms cfg) of
             Elapsed \<Rightarrow> Some (nc_preprocess_timeout config)
           | In_time (Inl e) \<Rightarrow> ms_preprocess_time ms
           | In_time (Inr v) \<Rightarrow>
               Option.bind (ms_preprocess_time ms) (\<lambda>t. map_option (\<lambda>u. t + u) (ms_rest_time ms))))"

definition notarize ::
    "('cfg, 'v, 'k, 'tc, 'req, 'prov, 'acfg, 'bld, 'att) mpc_session \<Rightarrow> notary_config \<Rightarrow> u64
      \<Rightarrow> session_error + notarization_report" where
  "notarize ms config now =
     (case timeout (nc_session_timeout config) (session_time ms config) (notarize_session ms config now) of
        In_time result \<Rightarrow> result
      | Elapsed \<Rightarrow> Inl (Session_cut ''did not finish''))"

subsection \<open>The listener's event\<close>

datatype session_event =
    Ev_attested u64 u64
  | Ev_cut bytes
  | Ev_failed bytes

definition session_event_of :: "session_error + notarization_report \<Rightarrow> session_event" where
  "session_event_of r =
     (case r of
        Inr report \<Rightarrow> Ev_attested (nr_t_att report) (nr_connection_time report)
      | Inl (Session_cut reason) \<Rightarrow> Ev_cut (''session cut: '' @ reason)
      | Inl (Session_failed e) \<Rightarrow> Ev_failed (error_text e))"

subsection \<open>Time\<close>

lemma binding_Inr_iff:
  "(case b of V1_2 k \<Rightarrow> f k | Other_binding \<Rightarrow> bail m) = Inr x \<longleftrightarrow> (\<exists>k. b = V1_2 k \<and> f k = Inr x)"
  by (cases b) simp_all

lemma attest_session_Inr:
  assumes "attest_session ms config now v = Inr report"
  obtains v' commitments w builder provider attestation k bs where
    "ms_verify ms v' = Inr (commitments, w)" "tt_binding (ms_transcript ms w) = V1_2 k"
    "ms_build ms builder provider
      \<lparr>ab_time = tt_time (ms_transcript ms w), ab_version = tt_version (ms_transcript ms w),
       ab_sent_len = of_nat (app_data_len (tt_sent (ms_transcript ms w))),
       ab_received_len = of_nat (app_data_len (tt_recv (ms_transcript ms w))),
       ab_ephemeral_key = k, ab_commitments = commitments,
       ab_extensions = [(T_ATT_EXTENSION_ID, be_bytes 8 (unat now))]\<rparr> = Inr attestation"
    "ms_encode ms attestation = Inr bs" "ms_send ms bs = Inr ()"
    "report = \<lparr>nr_t_att = now, nr_connection_time = tt_time (ms_transcript ms w)\<rparr>"
  using assms
  by (auto simp: attest_session_def Let_def and_then_Inr_iff binding_Inr_iff split: prod.splits)

text \<open>A report is that of a session that ended within both bounds.\<close>

lemma notarize_in_time:
  assumes "notarize ms config now = Inr report"
  shows "(\<exists>v. attest_session ms config now v = Inr report) \<and>
    (\<exists>t u. ms_preprocess_time ms = Some t \<and> ms_rest_time ms = Some u \<and>
       t \<le> nc_preprocess_timeout config \<and> t + u \<le> nc_session_timeout config)"
proof -
  have some: "session_time ms config \<noteq> None" and session: "notarize_session ms config now = Inr report"
    and time: "\<And>n. session_time ms config = Some n \<Longrightarrow> n \<le> nc_session_timeout config"
    using assms by (auto simp: notarize_def timeout_def split: option.splits if_splits)
  from session obtain cfg v where v: "ms_config ms (nc_root_certs config) = Inr cfg"
    "timeout (nc_preprocess_timeout config) (ms_preprocess_time ms) (preprocessing ms cfg) = In_time (Inr v)"
    and attest: "attest_session ms config now v = Inr report"
    by (auto simp: notarize_session_def failed_def split: sum.splits timed.splits)
  then obtain t where t: "ms_preprocess_time ms = Some t" "t \<le> nc_preprocess_timeout config"
    by (auto simp: timeout_def split: option.splits if_splits)
  with v some time obtain u where "ms_rest_time ms = Some u" "t + u \<le> nc_session_timeout config"
    by (auto simp: session_time_def)
  then show ?thesis using t attest by blast
qed

text \<open>C40: What the notary reports is what it signed and what the policy verifier later reads: an attested
  session ended within both bounds, its attestation was sent, carries the handshake time of the
  transcript and, as its only \<open>pprev.t_att\<close> extension, the notary's clock; \<open>t_att_of\<close> reads that
  clock's value back from a presentation with these extensions.\<close>

theorem attested_time_is_read_back:
  assumes "notarize ms config now = Inr report"
  shows "nr_t_att report = now \<and>
    (\<exists>t u. ms_preprocess_time ms = Some t \<and> ms_rest_time ms = Some u \<and>
       t \<le> nc_preprocess_timeout config \<and> t + u \<le> nc_session_timeout config) \<and>
    (\<exists>builder provider body attestation bs.
       ms_build ms builder provider body = Inr attestation \<and> ms_encode ms attestation = Inr bs \<and>
       ms_send ms bs = Inr () \<and> ab_time body = nr_connection_time report \<and>
       (\<forall>outp. out_extensions outp = ab_extensions body \<longrightarrow> t_att_of outp = Inr now))"
proof -
  obtain v t u where attest: "attest_session ms config now v = Inr report" and t: "ms_preprocess_time ms = Some t"
    "t \<le> nc_preprocess_timeout config" and u: "ms_rest_time ms = Some u" "t + u \<le> nc_session_timeout config"
    using notarize_in_time [OF assms] by blast
  have "t_att_of outp = Inr now"
    if "out_extensions outp = [(T_ATT_EXTENSION_ID, be_bytes 8 (unat now))]" for outp :: "('x, 'y) presentation_output"
    using that by (simp add: t_att_of_Inr_iff del: be_value_be_bytes)
  then show ?thesis
    using attest_session_Inr [OF attest] t u
    by (smt (verit, best) attestation_body.select_convs(1,7) notarization_report.select_convs(1,2))
qed

text \<open>A session that does not progress is cut, not waited for: when preprocessing never ends, or the
  session exceeds its bound, the outcome is a cut, which the log records as such; a cut is never
  reported for a session that ended within both bounds.\<close>

theorem stuck_sessions_are_cut:
  "(case notarize ms config now of
      Inl (Session_cut reason) \<Rightarrow>
        \<not> (\<exists>t u. ms_preprocess_time ms = Some t \<and> ms_rest_time ms = Some u \<and>
             t \<le> nc_preprocess_timeout config \<and> t + u \<le> nc_session_timeout config) \<and>
        session_event_of (notarize ms config now) = Ev_cut (''session cut: '' @ reason)
    | Inl (Session_failed e) \<Rightarrow> ms_config ms (nc_root_certs config) = Inl e \<or>
        (\<exists>t. ms_preprocess_time ms = Some t \<and> t \<le> nc_preprocess_timeout config)
    | Inr report \<Rightarrow> ms_preprocess_time ms \<noteq> None \<and> ms_rest_time ms \<noteq> None)"
  by (auto simp: notarize_def notarize_session_def timeout_def session_time_def session_event_of_def failed_def
      split: option.splits if_splits sum.splits session_error.splits timed.splits)

definition sample_session :: "(unit, nat, nat, nat, bytes, unit, unit, unit, (nat, nat) attestation_body) mpc_session" where
  "sample_session =
     \<lparr>ms_config = (\<lambda>_. Inr ()), ms_commit = (\<lambda>_. Inr (Start_mpc 0)), ms_accept = (\<lambda>v. Inr (v + 1)),
      ms_reject = (\<lambda>_. Inr ()), ms_preprocess_time = Some 4, ms_rest_time = Some 9,
      ms_run = (\<lambda>v. Inr (v + 1)), ms_verify = (\<lambda>v. Inr (v, v + 1)),
      ms_transcript = (\<lambda>_. \<lparr>tt_sent = [\<lparr>rec_application_data = True, rec_ciphertext_len = 70\<rparr>],
        tt_recv = [\<lparr>rec_application_data = False, rec_ciphertext_len = 40\<rparr>,
          \<lparr>rec_application_data = True, rec_ciphertext_len = 900\<rparr>],
        tt_binding = V1_2 5, tt_time = 990, tt_version = 12\<rparr>),
      ms_close = (\<lambda>_. Inr ()), ms_driver_join = Inr (), ms_request_bytes = Inr ''q'',
      ms_decode_request = Inr, ms_provider = (\<lambda>_ _. Inr ()), ms_att_config = (\<lambda>_. Inr ()),
      ms_accept_request = (\<lambda>_ _. Inr ()), ms_build = (\<lambda>_ _ body. Inr body), ms_encode = (\<lambda>_. Inr ''att''),
      ms_send = (\<lambda>_. Inr ())\<rparr>"

theorem attested_time_is_read_back_witness:
  "notarize sample_session (notary_config_new [] []) 1000 = Inr \<lparr>nr_t_att = 1000, nr_connection_time = 990\<rparr> \<and>
   (\<exists>body :: (nat, nat) attestation_body. ab_time body = 990 \<and>
      t_att_of \<lparr>out_attestation = (), out_server_name = None, out_connection_time = 990, out_received_len = 900,
        out_transcript = (None :: unit transcript_view option), out_extensions = ab_extensions body\<rparr> = Inr 1000)"
proof -
  have run: "notarize sample_session (notary_config_new [] []) 1000 = Inr \<lparr>nr_t_att = 1000, nr_connection_time = 990\<rparr>"
    by (simp add: notarize_def notarize_session_def timeout_def session_time_def preprocessing_def attest_session_def
        failed_def notary_config_new_def DEFAULT_PREPROCESS_TIMEOUT_def DEFAULT_SESSION_TIMEOUT_def sample_session_def Let_def)
  from attested_time_is_read_back [OF run, THEN conjunct2, THEN conjunct2]
  obtain body :: "(nat, nat) attestation_body" where "ab_time body = 990"
    "\<forall>outp :: (unit, unit) presentation_output. out_extensions outp = ab_extensions body \<longrightarrow> t_att_of outp = Inr 1000"
    by auto
  then show ?thesis using run by (intro conjI exI [of _ body]) simp_all
qed

end
