(* ===== verification/Notary_Process.thy ===== *)
theory Notary_Process
  imports Notarization
begin

section \<open>The notary's process\<close>

text \<open>
  Model of \<open>main\<close> and of \<open>serve_mpc\<close> in \<open>pprev-notary/src/bin/pprev-notary.rs\<close>: the start of the process and its two
  listeners, the one of the MPC-TLS sessions and the one of the policy verifier, which share the event log. The
  sessions and the connections of the verifier run in any interleaving. The i-th connection of the MPC-TLS
  listener is the i-th \<open>mpc_session\<close>. Reading a file twice gives the same, a bind
  is with the reading of its address, and a session that panics leaves no event.
\<close>

datatype log_line = Session_line session_event | Verifier_line event

record ('vk, 'pvk, 'sk) notary_process =
  np_service :: "('vk, 'pvk, 'sk) service"
  np_config :: notary_config
  np_accepted :: nat
  np_sessions :: "nat set"
  np_log :: "log_line list"
  np_end :: "unit res option"

definition start_process ::
    "('p, 'vk, 'att, 'rs, 'g1, 'g2, 'pvk, 'sk) notary_env \<Rightarrow> (bytes \<Rightarrow> 'vk res) \<Rightarrow> 'path loader
      \<Rightarrow> ('path \<Rightarrow> bytes res) \<Rightarrow> 'path notary_args \<Rightarrow> nat \<Rightarrow> nat \<Rightarrow> unit res \<Rightarrow> unit res \<Rightarrow> unit res
      \<Rightarrow> ('vk, 'pvk, 'sk) notary_process res" where
  "start_process env attestation_key_of ld read args preprocess_timeout_secs session_timeout_secs open_log bind_mpc bind_verifier =
     and_then (start_verifier env attestation_key_of ld read args) (\<lambda>pv.
     and_then (read (arg_registry_ca args)) (\<lambda>ca.
     and_then (read_key (env_hex_decode env) (ld_read ld) (arg_attestation_key args)) (\<lambda>att_key.
     let config = (notary_config_new att_key [ca])\<lparr>nc_preprocess_timeout := preprocess_timeout_secs,
           nc_session_timeout := session_timeout_secs\<rparr> in
     and_then open_log (\<lambda>_.
     and_then bind_mpc (\<lambda>_.
     and_then bind_verifier (\<lambda>_.
     Inr \<lparr>np_service = \<lparr>sv_verifier = Unlocked pv, sv_log = [], sv_conns = Map.empty\<rparr>, np_config = config,
          np_accepted = 0, np_sessions = {}, np_log = [], np_end = None\<rparr>))))))"

text \<open>The process ends with the first of the two listeners, or when it is interrupted.\<close>

inductive process_step ::
    "('p, 'vk, 'att, 'rs, 'g1, 'g2, 'pvk, 'sk) notary_env \<Rightarrow> request_codec \<Rightarrow> (bytes \<Rightarrow> 'p submission res)
      \<Rightarrow> (reply \<Rightarrow> bytes res) \<Rightarrow> (nat \<Rightarrow> ('cfg, 'v, 'k, 'tc, 'req, 'prov, 'acfg, 'bld, 'a) mpc_session)
      \<Rightarrow> ('vk, 'pvk, 'sk) notary_process \<Rightarrow> ('vk, 'pvk, 'sk) notary_process \<Rightarrow> bool"
  for env :: "('p, 'vk, 'att, 'rs, 'g1, 'g2, 'pvk, 'sk) notary_env" and codec deserialize serialize
    and ms :: "nat \<Rightarrow> ('cfg, 'v, 'k, 'tc, 'req, 'prov, 'acfg, 'bld, 'a) mpc_session" where
  process_verifies: "np_end p = None \<Longrightarrow> service_step env codec deserialize serialize (np_service p) sv \<Longrightarrow>
    process_step env codec deserialize serialize ms p
      (p\<lparr>np_service := sv, np_log := np_log p @ map Verifier_line (drop (length (sv_log (np_service p))) (sv_log sv))\<rparr>)"
| process_accepts: "np_end p = None \<Longrightarrow>
    process_step env codec deserialize serialize ms p
      (p\<lparr>np_accepted := Suc (np_accepted p), np_sessions := insert (np_accepted p) (np_sessions p)\<rparr>)"
| process_notarizes: "np_end p = None \<Longrightarrow> i \<in> np_sessions p \<Longrightarrow>
    process_step env codec deserialize serialize ms p
      (p\<lparr>np_sessions := np_sessions p - {i},
         np_log := (if written then np_log p @ [Session_line (session_event_of (notarize (ms i) (np_config p) now))]
                    else np_log p)\<rparr>)"
| process_panics: "np_end p = None \<Longrightarrow> i \<in> np_sessions p \<Longrightarrow>
    process_step env codec deserialize serialize ms p (p\<lparr>np_sessions := np_sessions p - {i}\<rparr>)"
| process_ends: "np_end p = None \<Longrightarrow>
    process_step env codec deserialize serialize ms p (p\<lparr>np_sessions := {}, np_end := Some r\<rparr>)"

inductive process_run ::
    "('p, 'vk, 'att, 'rs, 'g1, 'g2, 'pvk, 'sk) notary_env \<Rightarrow> request_codec \<Rightarrow> (bytes \<Rightarrow> 'p submission res)
      \<Rightarrow> (reply \<Rightarrow> bytes res) \<Rightarrow> (nat \<Rightarrow> ('cfg, 'v, 'k, 'tc, 'req, 'prov, 'acfg, 'bld, 'a) mpc_session)
      \<Rightarrow> ('vk, 'pvk, 'sk) notary_process \<Rightarrow> ('vk, 'pvk, 'sk) notary_process \<Rightarrow> bool"
  for env :: "('p, 'vk, 'att, 'rs, 'g1, 'g2, 'pvk, 'sk) notary_env" and codec deserialize serialize
    and ms :: "nat \<Rightarrow> ('cfg, 'v, 'k, 'tc, 'req, 'prov, 'acfg, 'bld, 'a) mpc_session"
    and p0 :: "('vk, 'pvk, 'sk) notary_process" where
  process_first: "process_run env codec deserialize serialize ms p0 p0"
| process_next: "process_run env codec deserialize serialize ms p0 p \<Longrightarrow>
    process_step env codec deserialize serialize ms p q \<Longrightarrow> process_run env codec deserialize serialize ms p0 q"

subsection \<open>The lines of the log\<close>

fun verifier_events :: "log_line list \<Rightarrow> event list" where
  "verifier_events [] = []"
| "verifier_events (Verifier_line e # ls) = e # verifier_events ls"
| "verifier_events (Session_line e # ls) = verifier_events ls"

fun session_events :: "log_line list \<Rightarrow> session_event list" where
  "session_events [] = []"
| "session_events (Verifier_line e # ls) = session_events ls"
| "session_events (Session_line e # ls) = e # session_events ls"

lemma verifier_events_append [simp]: "verifier_events (xs @ ys) = verifier_events xs @ verifier_events ys"
  by (induction xs rule: verifier_events.induct) simp_all

lemma session_events_append [simp]: "session_events (xs @ ys) = session_events xs @ session_events ys"
  by (induction xs rule: session_events.induct) simp_all

lemma verifier_lines [simp]: "verifier_events (map Verifier_line es) = es" "session_events (map Verifier_line es) = []"
  by (induction es) simp_all

lemma service_log_grows: "service_step env codec deserialize serialize s t \<Longrightarrow> \<exists>more. sv_log t = sv_log s @ more"
  by (auto elim!: service_stepE simp: log_write_def)

text \<open>The process embeds a run of the verifier's service; its log holds that service's events in order, and for every
  session at most one event.\<close>

definition process_ok ::
    "('p, 'vk, 'att, 'rs, 'g1, 'g2, 'pvk, 'sk) notary_env \<Rightarrow> request_codec \<Rightarrow> (bytes \<Rightarrow> 'p submission res)
      \<Rightarrow> (reply \<Rightarrow> bytes res) \<Rightarrow> (nat \<Rightarrow> ('cfg, 'v, 'k, 'tc, 'req, 'prov, 'acfg, 'bld, 'a) mpc_session)
      \<Rightarrow> ('vk, 'pvk, 'sk) policy_verifier \<Rightarrow> notary_config \<Rightarrow> ('vk, 'pvk, 'sk) notary_process \<Rightarrow> bool" where
  "process_ok env codec deserialize serialize ms pv config p \<longleftrightarrow>
     service_run env codec deserialize serialize pv (np_service p) \<and> np_config p = config \<and>
     verifier_events (np_log p) = sv_log (np_service p) \<and>
     np_sessions p \<subseteq> {..<np_accepted p} \<and>
     length (session_events (np_log p)) + card (np_sessions p) \<le> np_accepted p \<and>
     (\<forall>e \<in> set (session_events (np_log p)). \<exists>i now. i < np_accepted p \<and> e = session_event_of (notarize (ms i) config now))"

lemma process_step_ok:
  assumes "process_step env codec deserialize serialize ms p q" and ok: "process_ok env codec deserialize serialize ms pv config p"
  shows "process_ok env codec deserialize serialize ms pv config q"
  using assms(1)
proof (cases rule: process_step.cases)
  case (process_verifies sv)
  obtain more where "sv_log sv = sv_log (np_service p) @ more" using service_log_grows [OF process_verifies(3)] by blast
  then show ?thesis using ok process_verifies(1,3) by (auto simp: process_ok_def intro: run_step)
next
  case process_accepts
  have "finite (np_sessions p)" "np_accepted p \<notin> np_sessions p" using ok by (auto simp: process_ok_def finite_subset)
  then show ?thesis using ok process_accepts(1) by (auto simp: process_ok_def less_Suc_eq) blast
next
  case (process_notarizes i written now)
  have "finite (np_sessions p)" "i < np_accepted p" "0 < card (np_sessions p)"
    using ok process_notarizes(3) by (auto simp: process_ok_def finite_subset card_gt_0_iff)
  then show ?thesis using ok process_notarizes(1,3) by (auto simp: process_ok_def)
next
  case (process_panics i)
  have "card (np_sessions p - {i}) \<le> card (np_sessions p)" by (rule card_Diff1_le)
  then show ?thesis using ok process_panics(1) by (auto simp: process_ok_def)
qed (use ok in \<open>auto simp: process_ok_def\<close>)

lemma start_process_ok:
  assumes "start_process env key_of ld read args pt st open_log bind_mpc bind_verifier = Inr p0"
  obtains pv where "start_verifier env key_of ld read args = Inr pv"
    "process_ok env codec deserialize serialize ms pv (np_config p0) p0"
    "nc_preprocess_timeout (np_config p0) = pt" "nc_session_timeout (np_config p0) = st"
proof -
  obtain pv where "start_verifier env key_of ld read args = Inr pv"
    "np_service p0 = \<lparr>sv_verifier = Unlocked pv, sv_log = [], sv_conns = Map.empty\<rparr>" "np_log p0 = []"
    "np_sessions p0 = {}" "nc_preprocess_timeout (np_config p0) = pt" "nc_session_timeout (np_config p0) = st"
    using assms by (auto simp: start_process_def Let_def and_then_Inr_iff)
  then show ?thesis by (intro that) (auto simp: process_ok_def intro: run_start)
qed

lemma process_run_ok:
  "process_run env codec deserialize serialize ms p0 p \<Longrightarrow> process_ok env codec deserialize serialize ms pv config p0 \<Longrightarrow>
   process_ok env codec deserialize serialize ms pv config p"
  by (induction rule: process_run.induct) (auto intro: process_step_ok)

text \<open>An attested event is of a session that kept both bounds of the arguments, at the time of the notary's clock.\<close>

lemma attested_event:
  assumes "session_event_of (notarize ms config now) = Ev_attested t c"
  shows "t = now \<and> (\<exists>a b. ms_preprocess_time ms = Some a \<and> ms_rest_time ms = Some b \<and>
    a \<le> nc_preprocess_timeout config \<and> a + b \<le> nc_session_timeout config)"
proof -
  obtain report where r: "notarize ms config now = Inr report" "nr_t_att report = t"
    using assms by (auto simp: session_event_of_def split: sum.splits session_error.splits)
  then show ?thesis using notarize_in_time [OF r(1)] attest_session_Inr by (metis notarization_report.select_convs(1))
qed

text \<open>The process that \<open>main\<close> starts, with its two listeners interleaved in any way, is the service of the policy verifier
  beside the sessions: what holds of a run of that service holds of it; the log has the verifier's events in their
  order, at most one event for each session that was accepted, and an \<open>attested\<close> event only of a session that kept
  the bounds of the arguments.\<close>

theorem process_runs_the_service:
  assumes "start_process env key_of ld read args pt st open_log bind_mpc bind_verifier = Inr p0"
    and "process_run env codec deserialize serialize ms p0 p"
  shows "(\<exists>pv. start_verifier env key_of ld read args = Inr pv \<and>
      service_run env codec deserialize serialize pv (np_service p)) \<and>
    verifier_events (np_log p) = sv_log (np_service p) \<and>
    length (session_events (np_log p)) \<le> np_accepted p \<and>
    (\<forall>t c. Ev_attested t c \<in> set (session_events (np_log p)) \<longrightarrow>
       (\<exists>i a b. i < np_accepted p \<and> ms_preprocess_time (ms i) = Some a \<and> ms_rest_time (ms i) = Some b \<and>
          a \<le> pt \<and> a + b \<le> st))"
proof -
  obtain pv where pv: "start_verifier env key_of ld read args = Inr pv"
    and ok0: "process_ok env codec deserialize serialize ms pv (np_config p0) p0"
    and bounds: "nc_preprocess_timeout (np_config p0) = pt" "nc_session_timeout (np_config p0) = st"
    by (rule start_process_ok [OF assms(1)])
  have ok: "process_ok env codec deserialize serialize ms pv (np_config p0) p" by (rule process_run_ok [OF assms(2) ok0])
  have "\<exists>i a b. i < np_accepted p \<and> ms_preprocess_time (ms i) = Some a \<and> ms_rest_time (ms i) = Some b \<and> a \<le> pt \<and> a + b \<le> st"
    if attested: "Ev_attested t c \<in> set (session_events (np_log p))" for t c
  proof -
    obtain i now where i: "i < np_accepted p" "session_event_of (notarize (ms i) (np_config p0) now) = Ev_attested t c"
      using ok attested unfolding process_ok_def by metis
    from attested_event [OF i(2)] i(1) show ?thesis unfolding bounds by blast
  qed
  then show ?thesis using ok pv by (auto simp: process_ok_def)
qed

subsection \<open>A sample process\<close>

lemma process_runs_the_service_witness:
  "\<exists>p0 p. start_process start_env (\<lambda>_. Inr 7) sample_loader (\<lambda>_. Inr []) sample_args 30 120 (Inr ()) (Inr ()) (Inr ()) = Inr p0 \<and>
     process_run start_env (sample_codec sample_statement) (\<lambda>_. Inr sample_submission) (\<lambda>_. Inr ''r'') (\<lambda>_. sample_session) p0 p \<and>
     length (session_events (np_log p)) = 1 \<and> 1 \<le> np_accepted p"
proof -
  let ?step = "process_step start_env (sample_codec sample_statement) (\<lambda>_. Inr sample_submission) (\<lambda>_. Inr ''r'') (\<lambda>_. sample_session)"
  let ?run = "process_run start_env (sample_codec sample_statement) (\<lambda>_. Inr sample_submission) (\<lambda>_. Inr ''r'') (\<lambda>_. sample_session)"
  obtain p0 where p0: "start_process start_env (\<lambda>_. Inr 7) sample_loader (\<lambda>_. Inr []) sample_args 30 120 (Inr ()) (Inr ()) (Inr ()) = Inr p0"
    using sample_start_verifier by (auto simp: start_process_def sample_read_key)
  then have new: "np_end p0 = None" "np_accepted p0 = 0" "np_log p0 = []" "np_sessions p0 = {}"
    by (auto simp: start_process_def Let_def and_then_Inr_iff)
  define p1 where "p1 = p0\<lparr>np_accepted := Suc (np_accepted p0), np_sessions := insert (np_accepted p0) (np_sessions p0)\<rparr>"
  have "?step p0 p1" unfolding p1_def by (rule process_accepts) (rule new(1))
  then have run1: "?run p0 p1" by (rule process_next [OF process_first])
  let ?p2 = "p1\<lparr>np_sessions := np_sessions p1 - {0}, np_log := (if True
    then np_log p1 @ [Session_line (session_event_of (notarize ((\<lambda>_. sample_session) 0) (np_config p1) 1000))] else np_log p1)\<rparr>"
  have "?step p1 ?p2" by (rule process_notarizes) (simp_all add: p1_def new)
  with run1 have run: "?run p0 ?p2" by (rule process_next)
  from process_runs_the_service [OF p0 run] p0 run show ?thesis
    by (intro exI [of _ p0] exI [of _ ?p2]) (simp add: p1_def new)
qed

end
