(* ===== verification/Registry.thy ===== *)
theory Registry
  imports Layout Record_Layout Nonces
begin

section \<open>The mock registry\<close>

text \<open>
  Model of \<open>mock-registry/src/lib.rs\<close> and the loading of \<open>src/main.rs\<close>: the fixtures, the parsing of
  one HTTP request from the bytes read so far, login and the three record routes, and the reading loop
  of a connection. The state is the issued tokens and the log of record responses. The JSON of the
  credentials, the random bytes of a token and \<open>hex::encode\<close> are arguments; TLS and the certificates
  are the libraries' own. \<open>usize\<close> has 64 bits: the sum of the head's length and \<open>Content-Length\<close> wraps,
  as in a release build.
\<close>

definition MAX_REQUEST :: nat where "MAX_REQUEST = 8 * 1024"

subsection \<open>Fixtures\<close>

record account =
  acc_id :: bytes
  acc_password :: bytes

record income_record =
  inc_account :: bytes
  inc_monthly_income :: bytes

record tenancy_notation =
  ten_id :: bytes
  ten_property_id :: bytes
  ten_tenant :: bytes
  ten_record_date :: bytes

definition tenancy_values :: "tenancy_notation \<Rightarrow> bytes list" where
  "tenancy_values n = [ten_property_id n, ten_tenant n, ten_record_date n]"

record fixtures =
  fx_accounts :: "account list"
  fx_records :: "title_record list"
  fx_incomes :: "income_record list"
  fx_tenancies :: "tenancy_notation list"

definition load_fixtures :: "('path \<Rightarrow> bytes res) \<Rightarrow> (bytes \<Rightarrow> fixtures res) \<Rightarrow> 'path \<Rightarrow> fixtures res" where
  "load_fixtures read_to_string serde_json_from_str file =
     and_then (with_ctx ''reading'' (read_to_string file)) (\<lambda>text.
     with_ctx ''parsing fixtures'' (serde_json_from_str text))"

record phase_layouts =
  ph_income :: "record_layout option"
  ph_tenancy :: "record_layout option"

record registry =
  rg_layout :: layout
  rg_phases :: phase_layouts
  rg_fixtures :: fixtures
  rg_tokens :: "bytes \<rightharpoonup> bytes"
  rg_sent :: "bytes list"

definition with_phases :: "layout \<Rightarrow> phase_layouts \<Rightarrow> fixtures \<Rightarrow> registry res" where
  "with_phases layout phases fx =
     and_then (for_each_res (\<lambda>r. for_each_res (\<lambda>a.
       and_then (render_response layout (acc_id a) r) (\<lambda>_. Inr ())) (fx_accounts fx)) (fx_records fx)) (\<lambda>_.
     and_then (case ph_income phases of
         None \<Rightarrow> Inr ()
       | Some income \<Rightarrow> for_each_res (\<lambda>r.
           and_then (render_record income (inc_account r) [inc_monthly_income r]) (\<lambda>_. Inr ())) (fx_incomes fx)) (\<lambda>_.
     and_then (case ph_tenancy phases of
         None \<Rightarrow> Inr ()
       | Some tenancy \<Rightarrow> for_each_res (\<lambda>n. for_each_res (\<lambda>a.
           and_then (render_record tenancy (acc_id a) (tenancy_values n)) (\<lambda>_. Inr ())) (fx_accounts fx))
           (fx_tenancies fx)) (\<lambda>_.
     Inr \<lparr>rg_layout = layout, rg_phases = phases, rg_fixtures = fx, rg_tokens = Map.empty, rg_sent = []\<rparr>)))"

definition registry_new :: "layout \<Rightarrow> fixtures \<Rightarrow> registry res" where
  "registry_new layout fx = with_phases layout \<lparr>ph_income = None, ph_tenancy = None\<rparr> fx"

subsection \<open>Responses\<close>

definition json_response :: "nat \<Rightarrow> bytes \<Rightarrow> bytes \<Rightarrow> bytes" where
  "json_response code reason body =
     ''HTTP/1.1 '' @ dec code @ '' '' @ reason @ crlf @ ''Content-Type: application/json'' @ crlf @
     ''Content-Length: '' @ dec (length body) @ crlf @ ''Connection: close'' @ crlf @ crlf @ body"

definition status_response :: "nat \<Rightarrow> bytes \<Rightarrow> bytes" where
  "status_response code reason = json_response code reason ''{}''"

subsection \<open>Requests\<close>

record http_request =
  hr_method :: bytes
  hr_target :: bytes
  hr_headers :: "(bytes \<times> bytes) list"
  hr_body :: bytes

definition ascii_lower :: "char \<Rightarrow> char" where
  "ascii_lower c = (if 65 \<le> byte_val c \<and> byte_val c \<le> 90 then char_of (byte_val c + 32) else c)"

definition eq_ignore_ascii_case :: "bytes \<Rightarrow> bytes \<Rightarrow> bool" where
  "eq_ignore_ascii_case a b \<longleftrightarrow> map ascii_lower a = map ascii_lower b"

definition find_header :: "bytes \<Rightarrow> (bytes \<times> bytes) list \<Rightarrow> bytes option" where
  "find_header name headers = map_option snd (find (\<lambda>(k, _). eq_ignore_ascii_case k name) headers)"

definition header :: "http_request \<Rightarrow> bytes \<Rightarrow> bytes option" where
  "header request name = find_header name (hr_headers request)"

fun split_crlf :: "bytes \<Rightarrow> bytes list" where
  "split_crlf [] = [[]]"
| "split_crlf (x # s) =
     (if x = CR \<and> prefix [LF] s then [] # split_crlf (tl s)
      else case split_crlf s of [] \<Rightarrow> [[x]] | p # ps \<Rightarrow> (x # p) # ps)"

text \<open>\<open>parse::<usize>\<close>: decimal digits after an optional plus sign, within 64 bits.\<close>

definition parse_usize :: "bytes \<Rightarrow> u64 option" where
  "parse_usize s =
     (let ds = (case s of c # t \<Rightarrow> if c = CHR ''+'' then t else s | [] \<Rightarrow> []) in
      if ds \<noteq> [] \<and> all_digits ds \<and> dec_value ds < 2 ^ 64 then Some (of_nat (dec_value ds)) else None)"

definition parse_header :: "bytes \<Rightarrow> (bytes \<times> bytes) res" where
  "parse_header l =
     and_then (some_or ''malformed header'' (split_once (CHR '':'') l)) (\<lambda>(k, v). Inr (trim k, trim v))"

record request_head =
  hd_method :: bytes
  hd_target :: bytes
  hd_headers :: "(bytes \<times> bytes) list"
  hd_content_length :: u64

definition parse_head :: "bytes \<Rightarrow> request_head res" where
  "parse_head head =
     and_then (if utf8_valid head then Inr head
               else Inl (Context ''request head is not UTF-8'' (Msg ''invalid utf-8''))) (\<lambda>head.
     let lines = split_crlf head in
     (case split_at_char (CHR '' '') (hd lines) of
        method # target # version # _ \<Rightarrow>
          ensure (version = ''HTTP/1.1'') ''unsupported HTTP version'' (
          and_then (collect_res parse_header (filter (\<lambda>l. l \<noteq> []) (tl lines))) (\<lambda>headers.
          and_then (case find_header ''content-length'' headers of
              None \<Rightarrow> Inr 0
            | Some v \<Rightarrow> with_ctx ''invalid Content-Length'' (some_or ''invalid digit'' (parse_usize v))) (\<lambda>n.
          Inr \<lparr>hd_method = method, hd_target = target, hd_headers = headers, hd_content_length = n\<rparr>)))
      | _ \<Rightarrow> bail ''malformed request line''))"

definition head_end :: "bytes \<Rightarrow> nat option" where
  "head_end buf = window_position (crlf @ crlf) buf"

definition body_range :: "nat \<Rightarrow> u64 \<Rightarrow> range" where
  "body_range n content_length = Range (n + 4) (unat ((of_nat (n + 4) :: u64) + content_length))"

definition parse_body :: "bytes \<Rightarrow> nat \<Rightarrow> request_head \<Rightarrow> http_request option res" where
  "parse_body buf n h =
     (let r = body_range n (hd_content_length h) in
      if length buf < rend r then Inr None
      else and_then (index_range buf r) (\<lambda>body.
        Inr (Some \<lparr>hr_method = hd_method h, hr_target = hd_target h, hr_headers = hd_headers h, hr_body = body\<rparr>)))"

definition parse_request :: "bytes \<Rightarrow> http_request option res" where
  "parse_request buf =
     (case head_end buf of
        None \<Rightarrow> Inr None
      | Some n \<Rightarrow> and_then (parse_head (take n buf)) (parse_body buf n))"

subsection \<open>Routes\<close>

definition strip_prefix :: "bytes \<Rightarrow> bytes \<Rightarrow> bytes option" where
  "strip_prefix p s = (if prefix p s then Some (drop (length p) s) else None)"

definition account_of :: "registry \<Rightarrow> bytes option \<Rightarrow> bytes option" where
  "account_of rg authorization =
     Option.bind authorization (\<lambda>v. Option.bind (strip_prefix ''Bearer '' v) (rg_tokens rg))"

text \<open>The response of a record route: the rendered record, which is also logged, or an error status.\<close>

definition send_record :: "registry \<Rightarrow> bytes res \<Rightarrow> registry \<times> bytes" where
  "send_record rg rendered =
     (case rendered of
        Inr bs \<Rightarrow> (rg\<lparr>rg_sent := rg_sent rg @ [bs]\<rparr>, bs)
      | Inl _ \<Rightarrow> (rg, status_response 500 ''Internal Server Error''))"

record login_env =
  le_credentials :: "bytes \<Rightarrow> (bytes \<times> bytes) option"
  le_hex_encode :: "bytes \<Rightarrow> bytes"

definition login :: "login_env \<Rightarrow> bytes \<Rightarrow> registry \<Rightarrow> bytes \<Rightarrow> registry \<times> bytes" where
  "login le raw rg body =
     (case le_credentials le body of
        None \<Rightarrow> (rg, status_response 400 ''Bad Request'')
      | Some (account, password) \<Rightarrow>
          if list_ex (\<lambda>a. acc_id a = account \<and> acc_password a = password) (fx_accounts (rg_fixtures rg))
          then let token = le_hex_encode le raw in
            (rg\<lparr>rg_tokens := (rg_tokens rg)(token \<mapsto> account)\<rparr>,
             json_response 200 ''OK'' (CHR ''{'' # dquote # ''token'' @ [dquote, CHR '':'', dquote] @ token @ [dquote, CHR ''}'']))
          else (rg, status_response 401 ''Unauthorized''))"

definition income :: "registry \<Rightarrow> record_layout \<Rightarrow> bytes option \<Rightarrow> registry \<times> bytes" where
  "income rg layout authorization =
     (case account_of rg authorization of
        None \<Rightarrow> (rg, status_response 401 ''Unauthorized'')
      | Some account \<Rightarrow>
          (case find (\<lambda>r. inc_account r = account) (fx_incomes (rg_fixtures rg)) of
             None \<Rightarrow> (rg, status_response 404 ''Not Found'')
           | Some r \<Rightarrow> send_record rg (record_response layout (account, [inc_monthly_income r]))))"

definition tenancy :: "registry \<Rightarrow> record_layout \<Rightarrow> bytes \<Rightarrow> bytes option \<Rightarrow> registry \<times> bytes" where
  "tenancy rg layout tid authorization =
     (case account_of rg authorization of
        None \<Rightarrow> (rg, status_response 401 ''Unauthorized'')
      | Some account \<Rightarrow>
          (case find (\<lambda>n. ten_id n = tid) (fx_tenancies (rg_fixtures rg)) of
             None \<Rightarrow> (rg, status_response 404 ''Not Found'')
           | Some n \<Rightarrow> send_record rg (record_response layout (account, tenancy_values n))))"

definition title_route :: "registry \<Rightarrow> bytes \<Rightarrow> bytes option \<Rightarrow> registry \<times> bytes" where
  "title_route rg pid authorization =
     (case account_of rg authorization of
        None \<Rightarrow> (rg, status_response 401 ''Unauthorized'')
      | Some account \<Rightarrow>
          (case find (\<lambda>r. property_id r = pid) (fx_records (rg_fixtures rg)) of
             None \<Rightarrow> (rg, status_response 404 ''Not Found'')
           | Some r \<Rightarrow> send_record rg (title_response (rg_layout rg) (account, r))))"

definition get_route :: "registry \<Rightarrow> bytes \<Rightarrow> bytes option \<Rightarrow> registry \<times> bytes" where
  "get_route rg target authorization =
     (let others = (case Option.bind (ph_tenancy (rg_phases rg))
                      (\<lambda>t. map_option (\<lambda>tid. (t, tid)) (strip_prefix (path_prefix t) target)) of
            Some (t, tid) \<Rightarrow> tenancy rg t tid authorization
          | None \<Rightarrow> (case strip_prefix (path_prefix (rg_layout rg)) target of
               Some pid \<Rightarrow> title_route rg pid authorization
             | None \<Rightarrow> (rg, status_response 404 ''Not Found''))) in
      case ph_income (rg_phases rg) of
        Some l \<Rightarrow> if target = path l [] then income rg l authorization else others
      | None \<Rightarrow> others)"

definition route :: "login_env \<Rightarrow> bytes \<Rightarrow> registry \<Rightarrow> http_request \<Rightarrow> registry \<times> bytes" where
  "route le raw rg request =
     (let authorization = header request ''authorization'' in
      if hr_method request = ''POST'' \<and> hr_target request = ''/login'' then login le raw rg (hr_body request)
      else if hr_method request = ''GET'' then get_route rg (hr_target request) authorization
      else (rg, status_response 405 ''Method Not Allowed''))"

subsection \<open>A connection\<close>

text \<open>The chunks that the reads return; the empty chunk is the end of the stream.\<close>

fun read_request :: "bytes \<Rightarrow> bytes list \<Rightarrow> http_request res" where
  "read_request buf [] = bail ''connection closed before a complete request''"
| "read_request buf (chunk # chunks) =
     (if chunk = [] then bail ''connection closed before a complete request''
      else let buf = buf @ chunk in
        ensure (length buf \<le> MAX_REQUEST) ''request too large'' (
        and_then (parse_request buf) (\<lambda>r.
        case r of Some request \<Rightarrow> Inr request | None \<Rightarrow> read_request buf chunks)))"

definition handle :: "login_env \<Rightarrow> bytes \<Rightarrow> registry \<Rightarrow> bytes list \<Rightarrow> registry \<times> bytes res" where
  "handle le raw rg chunks =
     (case read_request [] chunks of
        Inl e \<Rightarrow> (rg, Inl e)
      | Inr request \<Rightarrow> (let (rg', bs) = route le raw rg request in (rg', Inr bs)))"

subsection \<open>Start\<close>

definition check_server_names :: "layout \<Rightarrow> phase_layouts \<Rightarrow> unit res" where
  "check_server_names l phases =
     for_each_res (\<lambda>other. ensure (server_name other = server_name l) ''layout names another server'' (Inr ()))
       ((case ph_income phases of Some i \<Rightarrow> [i] | None \<Rightarrow> []) @ (case ph_tenancy phases of Some t \<Rightarrow> [t] | None \<Rightarrow> []))"

definition start_with_phases :: "layout \<Rightarrow> phase_layouts \<Rightarrow> fixtures \<Rightarrow> registry res" where
  "start_with_phases l phases fx =
     and_then (check_server_names l phases) (\<lambda>_. with_phases l phases fx)"

definition load_optional :: "('path \<Rightarrow> 'l res) \<Rightarrow> 'path option \<Rightarrow> 'l option res" where
  "load_optional load f = (case f of None \<Rightarrow> Inr None | Some p \<Rightarrow> and_then (load p) (\<lambda>l. Inr (Some l)))"

definition registry_main ::
    "('path \<Rightarrow> layout res) \<Rightarrow> ('path \<Rightarrow> record_layout res) \<Rightarrow> ('path \<Rightarrow> fixtures res)
      \<Rightarrow> 'path \<Rightarrow> 'path option \<Rightarrow> 'path option \<Rightarrow> 'path \<Rightarrow> registry res" where
  "registry_main load_title load_record load_fx title_path income_path tenancy_path fixtures_path =
     and_then (load_optional load_record income_path) (\<lambda>inc.
     and_then (load_optional load_record tenancy_path) (\<lambda>ten.
     and_then (load_title title_path) (\<lambda>l.
     and_then (load_fx fixtures_path) (\<lambda>fx.
     start_with_phases l \<lparr>ph_income = inc, ph_tenancy = ten\<rparr> fx))))"

subsection \<open>Requests do not depend on how they arrive\<close>

lemma head_end_append: "head_end s = Some i \<Longrightarrow> head_end (s @ t) = Some i \<and> i \<le> length s"
  using window_position_append [of "crlf @ crlf" s i t] window_position_Some [of "crlf @ crlf" s i]
  by (simp add: head_end_def)

lemma parse_body_append: "parse_body buf n h = Inr (Some r) \<Longrightarrow> parse_body (buf @ rest) n h = Inr (Some r)"
  by (auto simp: parse_body_def Let_def and_then_Inr_iff split: if_splits intro: holds_append)

lemma parse_body_prefix:
  assumes "parse_body (buf @ rest) n h = Inr (Some r)"
  shows "parse_body buf n h = Inr None \<or> parse_body buf n h = Inr (Some r)"
proof -
  have "holds buf q bs" if "holds (buf @ rest) q bs" "rend q \<le> length buf" for q bs
    using that by (auto simp: holds_def in_bounds_def slice_def)
  then show ?thesis
    using assms by (cases "length buf < rend (body_range n (hd_content_length h))")
      (auto simp: parse_body_def Let_def and_then_Inr_iff split: if_splits)
qed

text \<open>Once a request is complete, further bytes change nothing.\<close>

lemma parse_request_append:
  assumes "parse_request buf = Inr (Some r)"
  shows "parse_request (buf @ rest) = Inr (Some r)"
  using assms parse_body_append head_end_append [of buf _ rest]
  by (cases "head_end buf") (auto simp: parse_request_def and_then_Inr_iff)

lemma parse_request_prefix:
  assumes "parse_request (buf @ rest) = Inr (Some r)"
  shows "parse_request buf = Inr None \<or> parse_request buf = Inr (Some r)"
proof (cases "head_end buf")
  case None
  then show ?thesis by (simp add: parse_request_def)
next
  case (Some n)
  then show ?thesis
    using assms head_end_append [OF Some, of rest]
    by (auto simp: parse_request_def and_then_Inr_iff dest!: parse_body_prefix)
qed

text \<open>How TLS cuts the bytes of a request into reads does not matter: whatever the chunks, as long as all
  bytes together are within the bound and hold a complete request, the connection reads exactly the
  request that parsing them at once gives.\<close>

theorem chunking_is_irrelevant:
  assumes "parse_request (concat chunks) = Inr (Some r)" and "length (concat chunks) \<le> MAX_REQUEST"
    and "[] \<notin> set chunks"
  shows "read_request [] chunks = Inr r"
proof -
  have "read_request buf cs = Inr r"
    if "parse_request (buf @ concat cs) = Inr (Some r)" "length (buf @ concat cs) \<le> MAX_REQUEST" "[] \<notin> set cs"
      "parse_request buf = Inr None" for buf cs
    using that
  proof (induction cs arbitrary: buf)
    case Nil
    then show ?case by simp
  next
    case (Cons c cs)
    have "parse_request (buf @ c) = Inr None \<or> parse_request (buf @ c) = Inr (Some r)"
      using parse_request_prefix [of "buf @ c" "concat cs"] Cons.prems(1) by simp
    then show ?case using Cons.IH [of "buf @ c"] Cons.prems by auto
  qed
  moreover have "parse_request [] = Inr None" by (simp add: parse_request_def head_end_def)
  ultimately show ?thesis using assms by simp
qed

subsection \<open>Content-Length at the end of the machine range\<close>

lemma parse_head_no_panic: "\<not> panicked (parse_head s)"
proof -
  have "\<not> panicked (parse_header l)" for l by (auto simp: parse_header_def split: prod.splits)
  then show ?thesis
    by (auto simp: parse_head_def Let_def dest!: panicked_collect split: list.splits option.splits)
qed

lemma head_end_length: "head_end s = Some n \<Longrightarrow> n + 4 \<le> length s"
  using window_position_Some [of "crlf @ crlf" s n] by (simp add: head_end_def)

lemma body_range_wraps:
  assumes "n + 4 < 2 ^ 64"
  shows "rend (body_range n c) =
    (if n + 4 + unat c < 2 ^ 64 then n + 4 + unat c else n + 4 + unat c - 2 ^ 64)"
proof -
  have "unat (of_nat (n + 4) :: u64) = n + 4"
    using assms by (simp only: unat_of_nat) (simp add: take_bit_eq_mod)
  then show ?thesis
    using unsigned_less [of c, where 'a = nat] assms
    by (auto simp: body_range_def unat_word_ariths mod_if not_less)
qed

text \<open>On the bytes that a connection may hold, parsing panics exactly when the request's head is complete and
  well formed and its \<open>Content-Length\<close> is so large that the end of the body wraps around the machine word;
  every other input gives a request, an error, or waits for more bytes.\<close>

theorem parse_request_panic_iff:
  assumes "length buf \<le> MAX_REQUEST"
  shows "panicked (parse_request buf) \<longleftrightarrow>
    (\<exists>n h. head_end buf = Some n \<and> parse_head (take n buf) = Inr h \<and> 2 ^ 64 \<le> n + 4 + unat (hd_content_length h))"
proof (cases "head_end buf")
  case None
  then show ?thesis by (simp add: parse_request_def)
next
  case (Some n)
  have n: "n + 4 \<le> length buf" using head_end_length [OF Some] .
  then have small: "n + 4 < 2 ^ 64" using assms by (simp add: MAX_REQUEST_def)
  have start: "rstart (body_range n c) = n + 4" for c by (simp add: body_range_def)
  have "panicked (parse_body buf n h) \<longleftrightarrow> 2 ^ 64 \<le> n + 4 + unat (hd_content_length h)" for h
    using body_range_wraps [OF small, of "hd_content_length h"] n unsigned_less [of "hd_content_length h", where 'a = nat]
    by (auto simp: parse_body_def Let_def index_range_def in_bounds_def start)
  then show ?thesis using Some parse_head_no_panic by (auto simp: parse_request_def)
qed

subsection \<open>What the registry serves\<close>

definition fixture_account :: "registry \<Rightarrow> bytes \<Rightarrow> bool" where
  "fixture_account rg a \<longleftrightarrow> a \<in> acc_id ` set (fx_accounts (rg_fixtures rg))"

text \<open>A response with a record of the fixtures, as the account sees it.\<close>

definition record_for :: "registry \<Rightarrow> bytes \<Rightarrow> bytes \<Rightarrow> bool" where
  "record_for rg a bs \<longleftrightarrow>
     (\<exists>r \<in> set (fx_records (rg_fixtures rg)). title_response (rg_layout rg) (a, r) = Inr bs) \<or>
     (\<exists>l. \<exists>r \<in> set (fx_incomes (rg_fixtures rg)). ph_income (rg_phases rg) = Some l \<and> inc_account r = a \<and>
        record_response l (a, [inc_monthly_income r]) = Inr bs) \<or>
     (\<exists>l. \<exists>n \<in> set (fx_tenancies (rg_fixtures rg)). ph_tenancy (rg_phases rg) = Some l \<and>
        record_response l (a, tenancy_values n) = Inr bs)"

text \<open>The registry from its start, over any connections.\<close>

inductive registry_life :: "login_env \<Rightarrow> layout \<Rightarrow> phase_layouts \<Rightarrow> fixtures \<Rightarrow> registry \<Rightarrow> bool"
  for le l ph fx where
  registry_started: "with_phases l ph fx = Inr rg \<Longrightarrow> registry_life le l ph fx rg"
| registry_handled: "registry_life le l ph fx rg \<Longrightarrow> handle le raw rg chunks = (rg', r) \<Longrightarrow>
    registry_life le l ph fx rg'"

definition same_registry :: "registry \<Rightarrow> registry \<Rightarrow> bool" where
  "same_registry a b \<longleftrightarrow>
     rg_layout a = rg_layout b \<and> rg_phases a = rg_phases b \<and> rg_fixtures a = rg_fixtures b"

text \<open>One step of the state: nothing, one token, or one record for the holder of a token.\<close>

definition token_step :: "login_env \<Rightarrow> bytes \<Rightarrow> registry \<Rightarrow> http_request \<Rightarrow> registry \<Rightarrow> bool" where
  "token_step le raw rg q rg' \<longleftrightarrow>
     (\<exists>a \<in> set (fx_accounts (rg_fixtures rg)). hr_method q = ''POST'' \<and>
        le_credentials le (hr_body q) = Some (acc_id a, acc_password a) \<and>
        rg' = rg\<lparr>rg_tokens := (rg_tokens rg)(le_hex_encode le raw \<mapsto> acc_id a)\<rparr>)"

definition record_step :: "registry \<Rightarrow> http_request \<Rightarrow> registry \<Rightarrow> bytes \<Rightarrow> bool" where
  "record_step rg q rg' bs \<longleftrightarrow>
     (\<exists>tok a. hr_method q = ''GET'' \<and> header q ''authorization'' = Some (''Bearer '' @ tok) \<and>
        rg_tokens rg tok = Some a \<and> record_for rg a bs \<and> rg' = rg\<lparr>rg_sent := rg_sent rg @ [bs]\<rparr>)"

lemma account_of_Some:
  "account_of rg auth = Some a \<longleftrightarrow> (\<exists>tok. auth = Some (''Bearer '' @ tok) \<and> rg_tokens rg tok = Some a)"
proof -
  have "strip_prefix ''Bearer '' v = Some tok \<longleftrightarrow> v = ''Bearer '' @ tok" for v tok
    by (auto simp: strip_prefix_def prefix_def)
  then show ?thesis by (auto simp: account_of_def bind_eq_Some_conv)
qed

text \<open>The responses that carry nothing: an error status with an empty object as its body.\<close>

definition refusal :: "bytes \<Rightarrow> bool" where
  "refusal bs \<longleftrightarrow> bs \<in> {status_response 400 ''Bad Request'', status_response 401 ''Unauthorized'',
     status_response 404 ''Not Found'', status_response 405 ''Method Not Allowed'',
     status_response 500 ''Internal Server Error''}"

definition token_response :: "bytes \<Rightarrow> bytes" where
  "token_response token = json_response 200 ''OK''
     (CHR ''{'' # dquote # ''token'' @ [dquote, CHR '':'', dquote] @ token @ [dquote, CHR ''}''])"

lemma refusal_status [simp]:
  "refusal (status_response 400 ''Bad Request'')" "refusal (status_response 401 ''Unauthorized'')"
  "refusal (status_response 404 ''Not Found'')" "refusal (status_response 405 ''Method Not Allowed'')"
  "refusal (status_response 500 ''Internal Server Error'')"
  by (simp_all add: refusal_def)

lemma send_record_cases:
  "send_record rg r = (rg', bs) \<Longrightarrow>
     rg' = rg \<and> refusal bs \<or> r = Inr bs \<and> rg' = rg\<lparr>rg_sent := rg_sent rg @ [bs]\<rparr>"
  by (auto simp: send_record_def split: sum.splits)

lemma get_route_cases:
  assumes "get_route rg target auth = (rg', bs)"
  shows "rg' = rg \<and> refusal bs \<or>
    (\<exists>a. account_of rg auth = Some a \<and> record_for rg a bs \<and> rg' = rg\<lparr>rg_sent := rg_sent rg @ [bs]\<rparr>)"
  using assms
  by (auto simp: get_route_def Let_def income_def tenancy_def title_route_def record_for_def bind_eq_Some_conv
      find_Some_iff split: option.splits if_splits prod.splits dest!: send_record_cases)

lemma login_cases:
  "login le raw rg body = (rg', bs) \<Longrightarrow> rg' = rg \<and> refusal bs \<or>
     (\<exists>a \<in> set (fx_accounts (rg_fixtures rg)). le_credentials le body = Some (acc_id a, acc_password a) \<and>
        bs = token_response (le_hex_encode le raw) \<and>
        rg' = rg\<lparr>rg_tokens := (rg_tokens rg)(le_hex_encode le raw \<mapsto> acc_id a)\<rparr>)"
  by (auto simp: login_def token_response_def Let_def list_ex_iff split: option.splits if_splits)

lemma route_step:
  assumes "route le raw rg q = (rg', bs)"
  shows "rg' = rg \<and> refusal bs \<or>
    token_step le raw rg q rg' \<and> bs = token_response (le_hex_encode le raw) \<or> record_step rg q rg' bs"
  using assms login_cases get_route_cases
  by (auto simp: route_def Let_def token_step_def record_step_def account_of_Some split: if_splits) blast+

lemma handle_cases:
  assumes "handle le raw rg chunks = (rg', r)"
  shows "rg' = rg \<or> (\<exists>q bs. r = Inr bs \<and> (token_step le raw rg q rg' \<or> record_step rg q rg' bs))"
  using assms route_step
  by (auto simp: handle_def Let_def split: sum.splits prod.splits) blast

lemma with_phases_Inr:
  assumes "with_phases l ph fx = Inr rg"
  shows "rg = \<lparr>rg_layout = l, rg_phases = ph, rg_fixtures = fx, rg_tokens = Map.empty, rg_sent = []\<rparr>"
    and "\<forall>r \<in> set (fx_records fx). \<forall>a \<in> set (fx_accounts fx). is_ok (title_response l (acc_id a, r))"
    and "\<forall>i. \<forall>r \<in> set (fx_incomes fx). ph_income ph = Some i \<longrightarrow>
      is_ok (record_response i (inc_account r, [inc_monthly_income r]))"
    and "\<forall>t. \<forall>n \<in> set (fx_tenancies fx). \<forall>a \<in> set (fx_accounts fx). ph_tenancy ph = Some t \<longrightarrow>
      is_ok (record_response t (acc_id a, tenancy_values n))"
proof -
  note checks = assms [unfolded with_phases_def and_then_Inr_iff sum.inject]
  then show "rg = \<lparr>rg_layout = l, rg_phases = ph, rg_fixtures = fx, rg_tokens = Map.empty, rg_sent = []\<rparr>" by auto
  show "\<forall>r \<in> set (fx_records fx). \<forall>a \<in> set (fx_accounts fx). is_ok (title_response l (acc_id a, r))"
    using checks by (auto simp: title_response_def is_ok_iff and_then_Inr_iff)
  show "\<forall>i. \<forall>r \<in> set (fx_incomes fx). ph_income ph = Some i \<longrightarrow>
      is_ok (record_response i (inc_account r, [inc_monthly_income r]))"
    using checks by (auto simp: record_response_def is_ok_iff and_then_Inr_iff)
  show "\<forall>t. \<forall>n \<in> set (fx_tenancies fx). \<forall>a \<in> set (fx_accounts fx). ph_tenancy ph = Some t \<longrightarrow>
      is_ok (record_response t (acc_id a, tenancy_values n))"
    using checks by (auto simp: record_response_def is_ok_iff and_then_Inr_iff)
qed

lemma record_for_updates [simp]:
  "record_for (rg\<lparr>rg_sent := x\<rparr>) a b = record_for rg a b"
  "record_for (rg\<lparr>rg_tokens := y\<rparr>) a b = record_for rg a b"
  by (simp_all add: record_for_def)

lemma registry_life_invariant:
  assumes "registry_life le l ph fx rg"
  shows "rg_layout rg = l \<and> rg_phases rg = ph \<and> rg_fixtures rg = fx \<and>
    (\<forall>tok a. rg_tokens rg tok = Some a \<longrightarrow> a \<in> acc_id ` set (fx_accounts fx)) \<and>
    (\<forall>bs \<in> set (rg_sent rg). \<exists>a \<in> acc_id ` set (fx_accounts fx). record_for rg a bs) \<and>
    is_ok (with_phases l ph fx)"
  using assms
proof (induction rule: registry_life.induct)
  case (registry_started rg)
  then show ?case using with_phases_Inr(1) [OF registry_started] by (simp add: is_ok_iff)
next
  case (registry_handled rg raw chunks rg' r)
  note IH = registry_handled.IH
  from handle_cases [OF registry_handled.hyps(2)] consider "rg' = rg"
    | q where "token_step le raw rg q rg'" | q bs where "record_step rg q rg' bs" by blast
  then show ?case
  proof cases
    case 2
    then obtain a where a: "a \<in> set (fx_accounts (rg_fixtures rg))"
      "rg' = rg\<lparr>rg_tokens := (rg_tokens rg)(le_hex_encode le raw \<mapsto> acc_id a)\<rparr>"
      unfolding token_step_def by blast
    show ?thesis using IH a by (simp add: a(2))
  next
    case 3
    then obtain tok a where a: "rg_tokens rg tok = Some a" "record_for rg a bs"
      "rg' = rg\<lparr>rg_sent := rg_sent rg @ [bs]\<rparr>"
      unfolding record_step_def by blast
    have "a \<in> acc_id ` set (fx_accounts fx)" using IH a(1) by blast
    then show ?thesis using IH a(2) by (simp add: a(3)) blast
  qed (use IH in simp)
qed

text \<open>C26: Whatever is sent to the registry, in any order and from any number of connections: every logged
  response was rendered from the fixtures for an account of the fixtures; and the answer to a request is
  one of three. It is an error status with an empty body, and the state is unchanged; it is the new
  token, which is then bound to the account whose password the request gave; or it is a record, which
  is logged, in answer to a GET request whose bearer token is bound to the account the record is
  rendered for. So a request without a token of its own sees no record, logged or not.\<close>

theorem records_need_a_login:
  assumes "registry_life le l ph fx rg" and "route le raw rg q = (rg', bs)"
  shows "(\<forall>b \<in> set (rg_sent rg). \<exists>a \<in> acc_id ` set (fx_accounts fx). record_for rg a b) \<and>
    (rg' = rg \<and> refusal bs \<or>
     token_step le raw rg q rg' \<and> bs = token_response (le_hex_encode le raw) \<or>
     record_step rg q rg' bs \<and> (\<exists>a \<in> acc_id ` set (fx_accounts fx). record_for rg a bs))"
proof -
  note inv = registry_life_invariant [OF assms(1)]
  have "\<exists>a \<in> acc_id ` set (fx_accounts fx). record_for rg a bs" if "record_step rg q rg' bs"
    using that inv unfolding record_step_def by blast
  then show ?thesis using inv route_step [OF assms(2)] by blast
qed

text \<open>A registry that started serves what it checked at its start: to the holder of a token every title,
  income and tenancy of the fixtures renders, and no record route ends in an internal error.\<close>

theorem started_registry_renders:
  assumes "registry_life le l ph fx rg" and "account_of rg auth = Some a"
  shows "(case find (\<lambda>r. property_id r = pid) (fx_records fx) of
      None \<Rightarrow> title_route rg pid auth = (rg, status_response 404 ''Not Found'')
    | Some r \<Rightarrow> \<exists>bs. title_response l (a, r) = Inr bs \<and> title_route rg pid auth = (rg\<lparr>rg_sent := rg_sent rg @ [bs]\<rparr>, bs)) \<and>
    (case ph_income ph of None \<Rightarrow> True | Some i \<Rightarrow>
      case find (\<lambda>r. inc_account r = a) (fx_incomes fx) of
        None \<Rightarrow> income rg i auth = (rg, status_response 404 ''Not Found'')
      | Some r \<Rightarrow> \<exists>bs. record_response i (a, [inc_monthly_income r]) = Inr bs \<and>
          income rg i auth = (rg\<lparr>rg_sent := rg_sent rg @ [bs]\<rparr>, bs)) \<and>
    (case ph_tenancy ph of None \<Rightarrow> True | Some t \<Rightarrow>
      case find (\<lambda>n. ten_id n = tid) (fx_tenancies fx) of
        None \<Rightarrow> tenancy rg t tid auth = (rg, status_response 404 ''Not Found'')
      | Some n \<Rightarrow> \<exists>bs. record_response t (a, tenancy_values n) = Inr bs \<and>
          tenancy rg t tid auth = (rg\<lparr>rg_sent := rg_sent rg @ [bs]\<rparr>, bs))"
proof -
  note inv = registry_life_invariant [OF assms(1)]
  then obtain rg0 where start: "with_phases l ph fx = Inr rg0" by (auto simp: is_ok_iff)
  obtain b where b: "b \<in> set (fx_accounts fx)" "acc_id b = a"
    using assms(2) inv by (force simp: account_of_Some)
  note ok = with_phases_Inr(2-4) [OF start]
  have "is_ok (title_response l (a, r))" if "r \<in> set (fx_records fx)" for r using ok(1) b that by auto
  moreover have "is_ok (record_response i (a, [inc_monthly_income r]))"
    if "ph_income ph = Some i" "r \<in> set (fx_incomes fx)" "inc_account r = a" for i r using ok(2) that by auto
  moreover have "is_ok (record_response t (a, tenancy_values n))"
    if "ph_tenancy ph = Some t" "n \<in> set (fx_tenancies fx)" for t n using ok(3) b that by auto
  ultimately have renders: "r \<in> set (fx_records fx) \<Longrightarrow> \<exists>bs. title_response l (a, r) = Inr bs"
    "ph_income ph = Some i \<Longrightarrow> s \<in> set (fx_incomes fx) \<Longrightarrow> inc_account s = a \<Longrightarrow>
      \<exists>bs. record_response i (a, [inc_monthly_income s]) = Inr bs"
    "ph_tenancy ph = Some t \<Longrightarrow> n \<in> set (fx_tenancies fx) \<Longrightarrow>
      \<exists>bs. record_response t (a, tenancy_values n) = Inr bs" for r i s t n
    unfolding is_ok_iff by blast+
  have found: "x \<in> set xs" "P x" if "find P xs = Some x" for P x and xs :: "'z list"
    using that by (auto simp: find_Some_iff)
  have eqs: "rg_layout rg = l" "rg_phases rg = ph" "rg_fixtures rg = fx" using inv by simp_all
  show ?thesis
  proof (intro conjI)
    show "case find (\<lambda>r. property_id r = pid) (fx_records fx) of
        None \<Rightarrow> title_route rg pid auth = (rg, status_response 404 ''Not Found'')
      | Some r \<Rightarrow> \<exists>bs. title_response l (a, r) = Inr bs \<and> title_route rg pid auth = (rg\<lparr>rg_sent := rg_sent rg @ [bs]\<rparr>, bs)"
    proof (cases "find (\<lambda>r. property_id r = pid) (fx_records fx)")
      case (Some r)
      then obtain bs where "title_response l (a, r) = Inr bs" using renders(1) [OF found(1) [OF Some]] by blast
      with Some assms(2) show ?thesis by (simp add: title_route_def send_record_def eqs)
    qed (simp add: title_route_def eqs assms(2))
  next
    show "case ph_income ph of None \<Rightarrow> True | Some i \<Rightarrow>
        case find (\<lambda>r. inc_account r = a) (fx_incomes fx) of
          None \<Rightarrow> income rg i auth = (rg, status_response 404 ''Not Found'')
        | Some r \<Rightarrow> \<exists>bs. record_response i (a, [inc_monthly_income r]) = Inr bs \<and>
            income rg i auth = (rg\<lparr>rg_sent := rg_sent rg @ [bs]\<rparr>, bs)"
    proof (cases "ph_income ph")
      case i: (Some i)
      show ?thesis
      proof (cases "find (\<lambda>r. inc_account r = a) (fx_incomes fx)")
        case (Some r)
        then obtain bs where "record_response i (a, [inc_monthly_income r]) = Inr bs"
          using renders(2) [OF i found(1) [OF Some] found(2) [OF Some]] by blast
        with Some i assms(2) show ?thesis by (simp add: income_def send_record_def eqs)
      qed (simp add: income_def eqs assms(2) i)
    qed simp
  next
    show "case ph_tenancy ph of None \<Rightarrow> True | Some t \<Rightarrow>
        case find (\<lambda>n. ten_id n = tid) (fx_tenancies fx) of
          None \<Rightarrow> tenancy rg t tid auth = (rg, status_response 404 ''Not Found'')
        | Some n \<Rightarrow> \<exists>bs. record_response t (a, tenancy_values n) = Inr bs \<and>
            tenancy rg t tid auth = (rg\<lparr>rg_sent := rg_sent rg @ [bs]\<rparr>, bs)"
    proof (cases "ph_tenancy ph")
      case t: (Some t)
      show ?thesis
      proof (cases "find (\<lambda>n. ten_id n = tid) (fx_tenancies fx)")
        case (Some n)
        then obtain bs where "record_response t (a, tenancy_values n) = Inr bs"
          using renders(3) [OF t found(1) [OF Some]] by blast
        with Some t assms(2) show ?thesis by (simp add: tenancy_def send_record_def eqs)
      qed (simp add: tenancy_def eqs assms(2) t)
    qed simp
  qed
qed

subsection \<open>A sample run\<close>

definition sample_fixtures :: fixtures where
  "sample_fixtures =
     \<lparr>fx_accounts = [\<lparr>acc_id = ''ACC-000000000001'', acc_password = ''pw''\<rparr>], fx_records = [sample_record],
      fx_incomes = [], fx_tenancies = []\<rparr>"

definition sample_login :: login_env where
  "sample_login = \<lparr>le_credentials = (\<lambda>b. if b = [] then Some (''ACC-000000000001'', ''pw'') else None), le_hex_encode = (\<lambda>b. b)\<rparr>"

definition login_request :: bytes where
  "login_request = ''POST /login HTTP/1.1'' @ crlf @ crlf"

definition sample_registry :: registry where
  "sample_registry = \<lparr>rg_layout = title_v1, rg_phases = \<lparr>ph_income = None, ph_tenancy = None\<rparr>,
     rg_fixtures = sample_fixtures, rg_tokens = Map.empty, rg_sent = []\<rparr>"

lemma login_request_parsed:
  "parse_request login_request = Inr (Some \<lparr>hr_method = ''POST'', hr_target = ''/login'', hr_headers = [], hr_body = []\<rparr>)"
proof -
  have "head_end login_request = Some 20"
    by (simp add: head_end_def login_request_def)
  moreover have "parse_head (take 20 login_request) = Inr \<lparr>hd_method = ''POST'', hd_target = ''/login'',
      hd_headers = [], hd_content_length = 0\<rparr>"
    by (simp add: parse_head_def login_request_def utf8_valid.simps in_range_def find_header_def byte_defs Let_def)
  ultimately show ?thesis
    by (simp add: parse_request_def parse_body_def body_range_def login_request_def and_then_Inr_iff holds_def in_bounds_def slice_def Let_def)
qed

lemma chunking_is_irrelevant_witness:
  "read_request [] [take 3 login_request, drop 3 login_request] =
     Inr \<lparr>hr_method = ''POST'', hr_target = ''/login'', hr_headers = [], hr_body = []\<rparr>"
  by (rule chunking_is_irrelevant) (simp_all add: login_request_parsed, simp_all add: login_request_def MAX_REQUEST_def)

lemma sample_started: "with_phases title_v1 \<lparr>ph_income = None, ph_tenancy = None\<rparr> sample_fixtures = Inr sample_registry"
  using sample_render_ok by (auto simp: with_phases_def sample_fixtures_def sample_registry_def)

definition logged_in :: registry where
  "logged_in = sample_registry\<lparr>rg_tokens := [''t'' \<mapsto> ''ACC-000000000001'']\<rparr>"

lemma sample_life: "registry_life sample_login title_v1 \<lparr>ph_income = None, ph_tenancy = None\<rparr> sample_fixtures logged_in"
proof (rule registry_handled [OF registry_started [OF sample_started]])
  have "read_request [] [login_request] = Inr \<lparr>hr_method = ''POST'', hr_target = ''/login'', hr_headers = [], hr_body = []\<rparr>"
    by (simp add: login_request_parsed, simp add: login_request_def MAX_REQUEST_def)
  then show "handle sample_login ''t'' sample_registry [login_request] =
      (logged_in, Inr (snd (login sample_login ''t'' sample_registry [])))"
    by (simp add: handle_def route_def login_def sample_login_def sample_registry_def sample_fixtures_def logged_in_def Let_def)
qed

definition title_request :: "bytes \<Rightarrow> http_request" where
  "title_request token = \<lparr>hr_method = ''GET'', hr_target = path_prefix title_v1 @ property_id sample_record,
     hr_headers = [(''Authorization'', ''Bearer '' @ token)], hr_body = []\<rparr>"

lemma title_request_routed:
  "route sample_login raw logged_in (title_request token) =
       title_route logged_in (property_id sample_record) (Some (''Bearer '' @ token))"
proof -
  have "eq_ignore_ascii_case ''Authorization'' ''authorization''" by code_simp
  then show ?thesis
    by (simp add: route_def get_route_def title_request_def header_def find_header_def strip_prefix_def
        logged_in_def sample_registry_def title_v1_def)
qed

text \<open>The record is served to the token of the login and, with the same request, not to another token.\<close>

lemma records_need_a_login_witness:
  "(\<exists>bs. route sample_login [] logged_in (title_request ''t'') = (logged_in\<lparr>rg_sent := [bs]\<rparr>, bs) \<and>
     title_response title_v1 (''ACC-000000000001'', sample_record) = Inr bs \<and>
     record_step logged_in (title_request ''t'') (logged_in\<lparr>rg_sent := [bs]\<rparr>) bs) \<and>
   (\<exists>bs. route sample_login [] logged_in (title_request ''u'') = (logged_in, bs) \<and> refusal bs)"
proof
  obtain x where "render_response title_v1 ''ACC-000000000001'' sample_record = Inr x"
    using sample_render_ok by blast
  then obtain bs where bs: "title_response title_v1 (''ACC-000000000001'', sample_record) = Inr bs"
    by (auto simp: title_response_def)
  have "route sample_login [] logged_in (title_request ''t'') = (logged_in\<lparr>rg_sent := [bs]\<rparr>, bs)"
    using bs unfolding title_request_routed title_route_def
    by (simp add: account_of_def strip_prefix_def send_record_def)
      (simp add: logged_in_def sample_registry_def sample_fixtures_def send_record_def)
  moreover from records_need_a_login [OF sample_life this]
  have "record_step logged_in (title_request ''t'') (logged_in\<lparr>rg_sent := [bs]\<rparr>) bs"
    by (auto simp: token_step_def title_request_def logged_in_def sample_registry_def)
  ultimately show "\<exists>bs. route sample_login [] logged_in (title_request ''t'') = (logged_in\<lparr>rg_sent := [bs]\<rparr>, bs) \<and>
     title_response title_v1 (''ACC-000000000001'', sample_record) = Inr bs \<and>
     record_step logged_in (title_request ''t'') (logged_in\<lparr>rg_sent := [bs]\<rparr>) bs" using bs by blast
next
  have "route sample_login [] logged_in (title_request ''u'') = (logged_in, status_response 401 ''Unauthorized'')"
    unfolding title_request_routed title_route_def
    by (simp add: account_of_def strip_prefix_def) (simp add: logged_in_def)
  from records_need_a_login [OF sample_life this] this
  show "\<exists>bs. route sample_login [] logged_in (title_request ''u'') = (logged_in, bs) \<and> refusal bs"
    by auto
qed

lemma started_registry_renders_witness:
  "\<exists>bs. title_response title_v1 (''ACC-000000000001'', sample_record) = Inr bs \<and>
     title_route logged_in (property_id sample_record) (Some ''Bearer t'') = (logged_in\<lparr>rg_sent := [bs]\<rparr>, bs)"
proof -
  have "account_of logged_in (Some ''Bearer t'') = Some ''ACC-000000000001''"
    by (simp add: account_of_Some logged_in_def)
  from started_registry_renders [OF sample_life this, of "property_id sample_record"]
  show ?thesis by (simp add: sample_fixtures_def logged_in_def sample_registry_def)
qed

text \<open>A login whose \<open>Content-Length\<close> is the largest machine word: its head parses, its body cannot be indexed.\<close>

definition wrapping_request :: bytes where
  "wrapping_request = ''POST /login HTTP/1.1'' @ crlf @ ''content-length:18446744073709551615'' @ crlf @ crlf"

lemma printable_not_in_white_space:
  "w \<in> set white_space \<Longrightarrow> 33 \<le> byte_val c \<Longrightarrow> byte_val c \<le> 126 \<Longrightarrow> c \<notin> set w"
  by (auto simp: white_space_def)

lemma trim_printable:
  assumes "s \<noteq> []" "list_all (\<lambda>c. 33 \<le> byte_val c \<and> byte_val c \<le> 126) s"
  shows "trim s = s"
proof -
  obtain a t where s: "s = a # t" "33 \<le> byte_val a" "byte_val a \<le> 126" using assms by (cases s) auto
  obtain u d where s': "s = u @ [d]" "33 \<le> byte_val d" "byte_val d \<le> 126"
    using assms by (cases s rule: rev_cases) auto
  have "strip_prefixes white_space s = s"
    using strip_prefixes_keep [of white_space a "[]" t] printable_not_in_white_space [OF _ s(2,3)]
    by (simp add: s(1))
  moreover have "strip_prefixes (map rev white_space) (rev s) = rev s"
  proof -
    have "d \<notin> set w" if "w \<in> set (map rev white_space)" for w
      using that printable_not_in_white_space [OF _ s'(2,3)] by auto
    from strip_prefixes_keep [of "map rev white_space" d "[]" "rev u", OF this] show ?thesis by (simp add: s'(1))
  qed
  ultimately show ?thesis by (simp add: trim_def trim_start_def trim_end_def)
qed

lemma wrapping_request_head:
  "head_end wrapping_request = Some 57"
  "parse_head (take 57 wrapping_request) = Inr \<lparr>hd_method = ''POST'', hd_target = ''/login'',
     hd_headers = [(''content-length'', ''18446744073709551615'')], hd_content_length = - 1\<rparr>"
proof -
  show "head_end wrapping_request = Some 57" by (simp add: head_end_def wrapping_request_def)
  have "trim ''content-length'' = ''content-length''" "trim ''18446744073709551615'' = ''18446744073709551615''"
    by (simp_all add: trim_printable)
  then show "parse_head (take 57 wrapping_request) = Inr \<lparr>hd_method = ''POST'', hd_target = ''/login'',
      hd_headers = [(''content-length'', ''18446744073709551615'')], hd_content_length = - 1\<rparr>"
    by (simp add: parse_head_def wrapping_request_def utf8_valid.simps in_range_def parse_header_def
        find_header_def eq_ignore_ascii_case_def ascii_lower_def parse_usize_def byte_defs dec_value_def Let_def)
qed

lemma parse_request_panic_iff_witness:
  "panicked (parse_request wrapping_request) \<and> \<not> panicked (parse_request login_request)"
proof
  show "panicked (parse_request wrapping_request)"
  proof (subst parse_request_panic_iff)
    show "length wrapping_request \<le> MAX_REQUEST" by (simp add: wrapping_request_def MAX_REQUEST_def)
    have "2 ^ 64 \<le> 57 + 4 + unat (- 1 :: u64)" by (simp add: unsigned_minus_1_eq_mask mask_eq_exp_minus_1)
    then show "\<exists>n h. head_end wrapping_request = Some n \<and> parse_head (take n wrapping_request) = Inr h \<and>
        2 ^ 64 \<le> n + 4 + unat (hd_content_length h)"
      using wrapping_request_head by (metis request_head.select_convs(4))
  qed
  show "\<not> panicked (parse_request login_request)"
    using parse_request_panic_iff [of login_request] login_request_parsed
    by (simp add: login_request_def MAX_REQUEST_def)
qed

end
