(* ===== verification/Registry_Server.thy ===== *)
theory Registry_Server
  imports Registry
begin

section \<open>The registry's server\<close>

text \<open>
  Model of the server of \<open>mock-registry/src/lib.rs\<close>, \<open>serve\<close> with one task per connection, as a step relation.
  The tasks run in any interleaving, down to the locks: a request on a record first reads the account of
  its token under one lock and later logs its response under another, and a login of another connection
  can come between. The answers are kept as a log, and so is whether a login ever drew a token that was
  already in use; the code has neither. TLS is not modelled, its errors end the connection.
\<close>

text \<open>What a record route does once the account of the token is known.\<close>

definition answer_income :: "registry \<Rightarrow> record_layout \<Rightarrow> bytes option \<Rightarrow> registry \<times> bytes" where
  "answer_income rg layout authorised =
     (case authorised of
        None \<Rightarrow> (rg, status_response 401 ''Unauthorized'')
      | Some account \<Rightarrow>
          (case find (\<lambda>r. inc_account r = account) (fx_incomes (rg_fixtures rg)) of
             None \<Rightarrow> (rg, status_response 404 ''Not Found'')
           | Some r \<Rightarrow> send_record rg (record_response layout (account, [inc_monthly_income r]))))"

definition answer_tenancy :: "registry \<Rightarrow> record_layout \<Rightarrow> bytes \<Rightarrow> bytes option \<Rightarrow> registry \<times> bytes" where
  "answer_tenancy rg layout tid authorised =
     (case authorised of
        None \<Rightarrow> (rg, status_response 401 ''Unauthorized'')
      | Some account \<Rightarrow>
          (case find (\<lambda>n. ten_id n = tid) (fx_tenancies (rg_fixtures rg)) of
             None \<Rightarrow> (rg, status_response 404 ''Not Found'')
           | Some n \<Rightarrow> send_record rg (record_response layout (account, tenancy_values n))))"

definition answer_title :: "registry \<Rightarrow> bytes \<Rightarrow> bytes option \<Rightarrow> registry \<times> bytes" where
  "answer_title rg pid authorised =
     (case authorised of
        None \<Rightarrow> (rg, status_response 401 ''Unauthorized'')
      | Some account \<Rightarrow>
          (case find (\<lambda>r. property_id r = pid) (fx_records (rg_fixtures rg)) of
             None \<Rightarrow> (rg, status_response 404 ''Not Found'')
           | Some r \<Rightarrow> send_record rg (title_response (rg_layout rg) (account, r))))"

definition answer_get :: "registry \<Rightarrow> bytes \<Rightarrow> bytes option \<Rightarrow> registry \<times> bytes" where
  "answer_get rg target authorised =
     (let others = (case Option.bind (ph_tenancy (rg_phases rg))
                      (\<lambda>t. map_option (\<lambda>tid. (t, tid)) (strip_prefix (path_prefix t) target)) of
            Some (t, tid) \<Rightarrow> answer_tenancy rg t tid authorised
          | None \<Rightarrow> (case strip_prefix (path_prefix (rg_layout rg)) target of
               Some pid \<Rightarrow> answer_title rg pid authorised
             | None \<Rightarrow> (rg, status_response 404 ''Not Found''))) in
      case ph_income (rg_phases rg) of
        Some l \<Rightarrow> if target = path l [] then answer_income rg l authorised else others
      | None \<Rightarrow> others)"

subsection \<open>Connections\<close>

datatype connection =
    Receiving bytes
  | Routing http_request
  | Authorised http_request "bytes option"
  | Answering http_request bytes

record registry_server =
  rs_registry :: registry
  rs_accepted :: nat
  rs_open :: "nat \<rightharpoonup> connection"
  rs_answers :: "(http_request \<times> bytes) list"
  rs_fresh :: bool

definition registry_server_new :: "registry \<Rightarrow> registry_server" where
  "registry_server_new rg =
     \<lparr>rs_registry = rg, rs_accepted = 0, rs_open = Map.empty, rs_answers = [], rs_fresh = True\<rparr>"

definition READ_CHUNK :: nat where "READ_CHUNK = 1024"

abbreviation is_login :: "http_request \<Rightarrow> bool" where
  "is_login q \<equiv> hr_method q = ''POST'' \<and> hr_target q = ''/login''"

inductive serve_step :: "login_env \<Rightarrow> registry_server \<Rightarrow> registry_server \<Rightarrow> bool" for le where
  serve_accepts: "serve_step le s
    (s\<lparr>rs_accepted := Suc (rs_accepted s), rs_open := (rs_open s)(rs_accepted s \<mapsto> Receiving [])\<rparr>)"
| serve_reads: "rs_open s i = Some (Receiving buf) \<Longrightarrow> chunk \<noteq> [] \<Longrightarrow> length chunk \<le> READ_CHUNK \<Longrightarrow>
    length (buf @ chunk) \<le> MAX_REQUEST \<Longrightarrow> parse_request (buf @ chunk) = Inr r \<Longrightarrow>
    serve_step le s (s\<lparr>rs_open := (rs_open s)(i \<mapsto>
      (case r of None \<Rightarrow> Receiving (buf @ chunk) | Some q \<Rightarrow> Routing q))\<rparr>)"
| serve_drops: "rs_open s i = Some (Receiving buf) \<Longrightarrow>
    serve_step le s (s\<lparr>rs_open := (rs_open s)(i := None)\<rparr>)"
| serve_logs_in: "rs_open s i = Some (Routing q) \<Longrightarrow> is_login q \<Longrightarrow>
    login le raw (rs_registry s) (hr_body q) = (rg, bs) \<Longrightarrow>
    serve_step le s (s\<lparr>rs_registry := rg, rs_open := (rs_open s)(i \<mapsto> Answering q bs),
      rs_fresh := rs_fresh s \<and> le_hex_encode le raw \<notin> dom (rg_tokens (rs_registry s))\<rparr>)"
| serve_refuses: "rs_open s i = Some (Routing q) \<Longrightarrow> \<not> is_login q \<Longrightarrow> hr_method q \<noteq> ''GET'' \<Longrightarrow>
    serve_step le s (s\<lparr>rs_open := (rs_open s)(i \<mapsto> Answering q (status_response 405 ''Method Not Allowed''))\<rparr>)"
| serve_authorises: "rs_open s i = Some (Routing q) \<Longrightarrow> hr_method q = ''GET'' \<Longrightarrow>
    serve_step le s (s\<lparr>rs_open := (rs_open s)(i \<mapsto>
      Authorised q (account_of (rs_registry s) (header q ''authorization'')))\<rparr>)"
| serve_records: "rs_open s i = Some (Authorised q authorised) \<Longrightarrow>
    answer_get (rs_registry s) (hr_target q) authorised = (rg, bs) \<Longrightarrow>
    serve_step le s (s\<lparr>rs_registry := rg, rs_open := (rs_open s)(i \<mapsto> Answering q bs)\<rparr>)"
| serve_answers: "rs_open s i = Some (Answering q bs) \<Longrightarrow>
    serve_step le s (s\<lparr>rs_open := (rs_open s)(i := None),
      rs_answers := (if written then rs_answers s @ [(q, bs)] else rs_answers s)\<rparr>)"

inductive serve_run :: "login_env \<Rightarrow> layout \<Rightarrow> phase_layouts \<Rightarrow> fixtures \<Rightarrow> registry_server \<Rightarrow> bool"
  for le l ph fx where
  serve_started: "start_with_phases l ph fx = Inr rg \<Longrightarrow> serve_run le l ph fx (registry_server_new rg)"
| serve_next: "serve_run le l ph fx s \<Longrightarrow> serve_step le s t \<Longrightarrow> serve_run le l ph fx t"

subsection \<open>The server is the registry, one request after the other\<close>

lemma get_route_answers: "get_route rg target auth = answer_get rg target (account_of rg auth)"
proof -
  have as: "income rg l auth = answer_income rg l (account_of rg auth)"
    "tenancy rg l tid auth = answer_tenancy rg l tid (account_of rg auth)"
    "title_route rg pid auth = answer_title rg pid (account_of rg auth)" for l tid pid
    by (simp_all add: income_def answer_income_def tenancy_def answer_tenancy_def title_route_def answer_title_def)
  show ?thesis unfolding get_route_def answer_get_def as by (rule refl)
qed

lemma route_get: "hr_method q = ''GET'' \<Longrightarrow>
  route le raw rg q = answer_get rg (hr_target q) (account_of rg (header q ''authorization''))"
  by (simp add: route_def Let_def get_route_answers)

lemma route_login: "is_login q \<Longrightarrow> route le raw rg q = login le raw rg (hr_body q)"
  by (simp add: route_def Let_def)

lemma route_refused: "\<not> is_login q \<Longrightarrow> hr_method q \<noteq> ''GET'' \<Longrightarrow>
  route le raw rg q = (rg, status_response 405 ''Method Not Allowed'')"
  by (auto simp: route_def Let_def)

text \<open>Without an account nothing is sent, and the answer does not depend on what the registry has done.\<close>

lemma answer_get_unauthorised:
  assumes "same_registry rg rg'"
  shows "answer_get rg target None = (rg, snd (answer_get rg' target None))"
  using assms
  by (auto simp: same_registry_def answer_get_def answer_income_def answer_tenancy_def answer_title_def Let_def
      split: option.splits)

lemma answer_get_registry:
  assumes "answer_get rg target authorised = (rg', bs)"
  shows "rg_tokens rg' = rg_tokens rg \<and> same_registry rg rg'"
  using assms
  by (auto simp: answer_get_def answer_income_def answer_tenancy_def answer_title_def Let_def same_registry_def
      split: option.splits if_splits prod.splits dest!: send_record_cases)

text \<open>A request that was parsed can be replayed as a connection of its own.\<close>

definition received :: "http_request \<Rightarrow> bool" where
  "received q \<longleftrightarrow> (\<exists>buf. buf \<noteq> [] \<and> length buf \<le> MAX_REQUEST \<and> parse_request buf = Inr (Some q))"

lemma life_routes:
  assumes "registry_life le l ph fx rg" and "received q"
  shows "registry_life le l ph fx (fst (route le raw rg q))"
proof -
  obtain buf where buf: "buf \<noteq> []" "length buf \<le> MAX_REQUEST" "parse_request buf = Inr (Some q)"
    using assms(2) by (auto simp: received_def)
  obtain rg' bs where r: "route le raw rg q = (rg', bs)" by fastforce
  have "handle le raw rg [buf] = (rg', Inr bs)" using buf r by (simp add: handle_def)
  then show ?thesis using registry_handled [OF assms(1)] r by simp
qed

text \<open>What an open connection, and an answer, owe to the registry.\<close>

definition answered_by :: "login_env \<Rightarrow> layout \<Rightarrow> phase_layouts \<Rightarrow> fixtures \<Rightarrow> http_request \<Rightarrow> bytes \<Rightarrow> bool" where
  "answered_by le l ph fx q bs \<longleftrightarrow>
     received q \<and> (\<exists>rg raw. registry_life le l ph fx rg \<and> snd (route le raw rg q) = bs)"

fun connection_ok :: "login_env \<Rightarrow> layout \<Rightarrow> phase_layouts \<Rightarrow> fixtures \<Rightarrow> registry \<Rightarrow> connection \<Rightarrow> bool" where
  "connection_ok le l ph fx rg (Receiving buf) \<longleftrightarrow> True"
| "connection_ok le l ph fx rg (Routing q) \<longleftrightarrow> received q"
| "connection_ok le l ph fx rg (Authorised q authorised) \<longleftrightarrow>
     received q \<and> hr_method q = ''GET'' \<and>
     (case authorised of
        Some a \<Rightarrow> account_of rg (header q ''authorization'') = Some a
      | None \<Rightarrow> \<exists>rg0. registry_life le l ph fx rg0 \<and> account_of rg0 (header q ''authorization'') = None)"
| "connection_ok le l ph fx rg (Answering q bs) \<longleftrightarrow> answered_by le l ph fx q bs"

definition serve_ok :: "login_env \<Rightarrow> layout \<Rightarrow> phase_layouts \<Rightarrow> fixtures \<Rightarrow> registry_server \<Rightarrow> bool" where
  "serve_ok le l ph fx s \<longleftrightarrow>
     registry_life le l ph fx (rs_registry s) \<and>
     (\<forall>i c. rs_open s i = Some c \<longrightarrow> connection_ok le l ph fx (rs_registry s) c) \<and>
     (\<forall>(q, bs) \<in> set (rs_answers s). answered_by le l ph fx q bs)"

lemma connection_ok_grows:
  assumes "connection_ok le l ph fx rg c" and "rg_tokens rg \<subseteq>\<^sub>m rg_tokens rg'"
  shows "connection_ok le l ph fx rg' c"
proof -
  have "account_of rg' v = Some a" if "account_of rg v = Some a" for v a
    using that assms(2) by (auto simp: account_of_Some map_le_def) (metis domI)
  then show ?thesis using assms(1) by (cases c) (auto split: option.splits)
qed

lemma serve_ok_update:
  assumes "serve_ok le l ph fx s" and "registry_life le l ph fx rg" and "rg_tokens (rs_registry s) \<subseteq>\<^sub>m rg_tokens rg"
    and "connection_ok le l ph fx rg c"
  shows "serve_ok le l ph fx (s\<lparr>rs_registry := rg, rs_open := (rs_open s)(i \<mapsto> c), rs_fresh := b\<rparr>)"
  using assms connection_ok_grows [OF _ assms(3)] by (auto simp: serve_ok_def)

lemma serve_step_ok:
  assumes "serve_step le s t" and ok: "serve_ok le l ph fx s" and "rs_fresh t"
  shows "serve_ok le l ph fx t"
  using assms(1)
proof (cases rule: serve_step.cases)
  case (serve_reads i buf chunk r)
  have "received q" if "r = Some q" for q
    using serve_reads that by (auto simp: received_def intro!: exI [of _ "buf @ chunk"])
  then show ?thesis using serve_reads ok by (auto simp: serve_ok_def split: option.splits)
next
  case (serve_logs_in i q raw rg bs)
  let ?rg = "rs_registry s"
  have q: "received q" using ok serve_logs_in(2) by (fastforce simp: serve_ok_def)
  have r: "route le raw ?rg q = (rg, bs)" using serve_logs_in by (simp add: route_login)
  have life: "registry_life le l ph fx ?rg" using ok by (simp add: serve_ok_def)
  have "le_hex_encode le raw \<notin> dom (rg_tokens ?rg)" using serve_logs_in(1) assms(3) by simp
  then have grows: "rg_tokens ?rg \<subseteq>\<^sub>m rg_tokens rg"
    using login_cases [OF serve_logs_in(4)] by (auto simp: map_le_def)
  have "answered_by le l ph fx q bs" using q life r by (auto simp: answered_by_def intro!: exI [of _ ?rg] exI [of _ raw])
  moreover have "registry_life le l ph fx rg" using life_routes [OF life q, of raw] r by simp
  ultimately show ?thesis using serve_ok_update [OF ok _ grows] serve_logs_in(1) by simp
next
  case (serve_refuses i q)
  have q: "received q" using ok serve_refuses(2) by (fastforce simp: serve_ok_def)
  have "answered_by le l ph fx q (status_response 405 ''Method Not Allowed'')"
    using q ok route_refused [OF serve_refuses(3,4)]
    by (auto simp: answered_by_def serve_ok_def intro!: exI [of _ "rs_registry s"])
  then show ?thesis using serve_refuses(1) ok by (auto simp: serve_ok_def)
next
  case (serve_authorises i q)
  have q: "received q" using ok serve_authorises(2) by (fastforce simp: serve_ok_def)
  then show ?thesis using serve_authorises ok by (auto simp: serve_ok_def split: option.splits)
next
  case (serve_records i q authorised rg bs)
  let ?rg = "rs_registry s"
  have c: "connection_ok le l ph fx ?rg (Authorised q authorised)" and life: "registry_life le l ph fx ?rg"
    using ok serve_records(2) unfolding serve_ok_def by blast+
  then have q: "received q" "hr_method q = ''GET''" by simp_all
  note same = answer_get_registry [OF serve_records(3)]
  have "registry_life le l ph fx rg \<and> answered_by le l ph fx q bs"
  proof (cases authorised)
    case None
    then obtain rg0 where rg0: "registry_life le l ph fx rg0" "account_of rg0 (header q ''authorization'') = None"
      using c by auto
    have "same_registry ?rg rg0"
      using registry_life_invariant [OF life] registry_life_invariant [OF rg0(1)] by (simp add: same_registry_def)
    from answer_get_unauthorised [OF this, of "hr_target q"] None serve_records(3)
    have "rg = ?rg" "bs = snd (route le raw rg0 q)" for raw by (auto simp: route_get [OF q(2)] rg0(2))
    then show ?thesis using life q(1) rg0(1) by (auto simp: answered_by_def)
  next
    case (Some a)
    then have "route le raw ?rg q = (rg, bs)" for raw using c serve_records(3) by (simp add: route_get [OF q(2)])
    then show ?thesis using life life_routes [OF life q(1)] q(1)
      by (auto simp: answered_by_def)
  qed
  moreover have "t = s\<lparr>rs_registry := rg, rs_open := (rs_open s)(i \<mapsto> Answering q bs), rs_fresh := rs_fresh s\<rparr>"
    unfolding serve_records(1) by simp
  ultimately show ?thesis using serve_ok_update [OF ok, where rg = rg and c = "Answering q bs" and i = i and b = "rs_fresh s"] same
    by simp
next
  case (serve_answers i q bs written)
  have "answered_by le l ph fx q bs" using ok serve_answers(2) by (fastforce simp: serve_ok_def)
  then show ?thesis using serve_answers(1) ok by (auto simp: serve_ok_def)
qed (use ok in \<open>auto simp: serve_ok_def\<close>)

lemma serve_step_fresh: "serve_step le s t \<Longrightarrow> rs_fresh t \<Longrightarrow> rs_fresh s"
  by (auto elim: serve_step.cases)

lemma serve_run_ok: "serve_run le l ph fx s \<Longrightarrow> rs_fresh s \<Longrightarrow> serve_ok le l ph fx s"
proof (induction rule: serve_run.induct)
  case (serve_started rg)
  then have "with_phases l ph fx = Inr rg" by (auto simp: start_with_phases_def and_then_Inr_iff)
  then show ?case by (simp add: serve_ok_def registry_server_new_def registry_started)
next
  case (serve_next s t)
  then show ?case using serve_step_fresh serve_step_ok by blast
qed

text \<open>C27: As long as no login draws a token that is already in use, the server with its interleaved connections is the
  registry that handles one request after the other: its state is one that such a registry reaches, and every answer
  is the one that such a registry gives to that request at some point of its life.\<close>

theorem server_is_the_registry:
  assumes "serve_run le l ph fx s" and "rs_fresh s"
  shows "registry_life le l ph fx (rs_registry s) \<and>
    (\<forall>(q, bs) \<in> set (rs_answers s). \<exists>rg raw. registry_life le l ph fx rg \<and> snd (route le raw rg q) = bs)"
  using serve_run_ok [OF assms] by (auto simp: serve_ok_def answered_by_def)

subsection \<open>A sample\<close>

lemma sample_serve_start: "start_with_phases title_v1 \<lparr>ph_income = None, ph_tenancy = None\<rparr> sample_fixtures = Inr sample_registry"
  using sample_started by (simp add: start_with_phases_def check_server_names_def)

lemma server_is_the_registry_witness:
  "\<exists>s q bs. serve_run sample_login title_v1 \<lparr>ph_income = None, ph_tenancy = None\<rparr> sample_fixtures s \<and> rs_answers s = [(q, bs)] \<and>
     registry_life sample_login title_v1 \<lparr>ph_income = None, ph_tenancy = None\<rparr> sample_fixtures (rs_registry s) \<and>
     (\<exists>rg raw. registry_life sample_login title_v1 \<lparr>ph_income = None, ph_tenancy = None\<rparr> sample_fixtures rg \<and>
        snd (route sample_login raw rg q) = bs)"
proof -
  let ?run = "serve_run sample_login title_v1 \<lparr>ph_income = None, ph_tenancy = None\<rparr> sample_fixtures"
  let ?q = "\<lparr>hr_method = ''POST'', hr_target = ''/login'', hr_headers = [], hr_body = []\<rparr>"
  obtain rg bs where l: "login sample_login ''t'' sample_registry [] = (rg, bs)" by fastforce
  define s where "s c rg = \<lparr>rs_registry = rg, rs_accepted = 1, rs_open = [0 \<mapsto> c], rs_answers = [], rs_fresh = True\<rparr>" for c rg
  have "?run (registry_server_new sample_registry)" by (rule serve_started [OF sample_serve_start])
  moreover have "serve_step sample_login (registry_server_new sample_registry) (s (Receiving []) sample_registry)"
    using serve_accepts [of sample_login "registry_server_new sample_registry"] by (simp add: registry_server_new_def s_def)
  moreover have "serve_step sample_login (s (Receiving []) sample_registry) (s (Routing ?q) sample_registry)"
    using serve_reads [of "s (Receiving []) sample_registry" 0 "[]" login_request "Some ?q" sample_login] login_request_parsed
    by (simp add: s_def) (simp add: login_request_def READ_CHUNK_def MAX_REQUEST_def)
  moreover have "serve_step sample_login (s (Routing ?q) sample_registry) (s (Answering ?q bs) rg)"
    using serve_logs_in [of "s (Routing ?q) sample_registry" 0 ?q sample_login "''t''" rg bs] l
    by (simp add: s_def) (simp add: sample_registry_def)
  ultimately have "?run (s (Answering ?q bs) rg)" by (blast intro: serve_next)
  moreover have "serve_step sample_login (s (Answering ?q bs) rg)
      ((s (Answering ?q bs) rg)\<lparr>rs_open := Map.empty, rs_answers := [(?q, bs)]\<rparr>)" (is "serve_step _ _ ?t")
    using serve_answers [of "s (Answering ?q bs) rg" 0 ?q bs sample_login True] by (simp add: s_def)
  ultimately have run: "?run ?t" by (rule serve_next)
  from server_is_the_registry [OF run] run show ?thesis
    by (intro exI [of _ ?t] exI [of _ ?q] exI [of _ bs]) (simp add: s_def)
qed

end
