(* ===== verification/Chain.thy ===== *)
theory Chain
  imports Statement Session_Errors
begin

section \<open>Transactions\<close>

text \<open>
  Model of \<open>pprev-prover/src/chain.rs\<close>: the payloads of the three attested phases and of Engage, their
  calls, and the submission of a call to a JSON-RPC node with the reading of its receipt. The ABI codec and
  the node are the records \<open>abi_codec\<close> and \<open>chain_node\<close>. Sending is an effect: \<open>send_tx\<close> also returns the
  transactions that it handed to the node. Inclusion times are not modelled.
\<close>

subsection \<open>Calls and events of the contract\<close>

datatype pprev_call =
    Register_call bytes tx_data bytes bytes bytes bytes u64
  | Apply_for_call u256 tx_data bytes bytes bytes bytes u64
  | Engage_call u256 u256
  | Settle_call u256 tx_data bytes bytes bytes u64
  | Tau_lock_call

text \<open>The decoded logs, with the fields in the order of the Solidity events.\<close>

datatype pprev_log =
    Registered_log u256 bytes bytes bytes tx_data bytes u256
  | Applied_log u256 u256 bytes bytes u256
  | Engaged_log u256 u256 u256 u256
  | Settled_log u256 u256 u256 u256

record 'log abi_codec =
  ac_encode :: "pprev_call \<Rightarrow> bytes"
  ac_decode_log :: "'log \<Rightarrow> pprev_log option"
  ac_decode_error :: "bytes \<Rightarrow> bytes option"
  ac_decode_u256 :: "bytes \<Rightarrow> foreign + u256"
  ac_hex :: "bytes \<Rightarrow> bytes"

subsection \<open>The node\<close>

record tx_request =
  tr_to :: bytes
  tr_value :: u256
  tr_input :: bytes

record 'log receipt =
  rc_status :: bool
  rc_block_number :: "u64 option"
  rc_tx_hash :: bytes
  rc_gas_used :: u64
  rc_logs :: "'log list"

text \<open>A rejected call: the revert data, when the response carries any, or the transport's error.\<close>

datatype send_error = Revert_data bytes | Transport link "link list"

record ('key, 'pending, 'log) chain_node =
  cn_url :: "bytes \<Rightarrow> foreign + unit"
  cn_chain_id :: "foreign + u64"
  cn_send :: "'key \<Rightarrow> tx_request \<Rightarrow> send_error + 'pending"
  cn_receipt :: "'pending \<Rightarrow> foreign + 'log receipt"
  cn_block_timestamp :: "u64 \<Rightarrow> foreign + u64 option"
  cn_call :: "bytes \<Rightarrow> bytes \<Rightarrow> foreign + bytes"

definition lib_ctx :: "bytes \<Rightarrow> 'a run \<Rightarrow> 'a run" where
  "lib_ctx c r = (case r of Inl (Failed e) \<Rightarrow> Inl (Failed (in_context c e)) | _ \<Rightarrow> r)"

subsection \<open>Payloads\<close>

record register_payload =
  rpl_chain_id :: u64
  rpl_contract :: bytes
  rpl_submitter :: bytes
  rpl_c_tx :: bytes
  rpl_property_id :: bytes
  rpl_amount :: u256
  rpl_settlement_share :: u256
  rpl_policy_id :: bytes
  rpl_r :: bytes
  rpl_sigma :: bytes
  rpl_eta :: bytes
  rpl_t_att :: u64
  rpl_collateral :: u256

definition register_tx_data :: "register_payload \<Rightarrow> tx_data" where
  "register_tx_data p =
     \<lparr>tx_property_id = rpl_property_id p, tx_amount = rpl_amount p, tx_settlement_share = rpl_settlement_share p\<rparr>"

definition register_calldata :: "'log abi_codec \<Rightarrow> register_payload \<Rightarrow> bytes" where
  "register_calldata abi p =
     ac_encode abi (Register_call (rpl_c_tx p)
       \<lparr>tx_property_id = rpl_property_id p, tx_amount = rpl_amount p, tx_settlement_share = rpl_settlement_share p\<rparr>
       (rpl_policy_id p) (rpl_r p) (rpl_sigma p) (rpl_eta p) (rpl_t_att p))"

record registered_event =
  re_tx_id :: u256
  re_owner :: bytes
  re_c_tx :: bytes
  re_policy_id :: bytes
  re_property_id :: bytes
  re_amount :: u256
  re_settlement_share :: u256
  re_r :: bytes
  re_collateral :: u256

record apply_payload =
  apl_chain_id :: u64
  apl_contract :: bytes
  apl_submitter :: bytes
  apl_tx_id :: u256
  apl_property_id :: bytes
  apl_amount :: u256
  apl_settlement_share :: u256
  apl_r :: bytes
  apl_c_b :: bytes
  apl_sigma :: bytes
  apl_eta :: bytes
  apl_t_att :: u64
  apl_deposit :: u256
  apl_identifier :: bytes
  apl_salt :: bytes

definition apply_tx_data :: "apply_payload \<Rightarrow> tx_data" where
  "apply_tx_data p =
     \<lparr>tx_property_id = apl_property_id p, tx_amount = apl_amount p, tx_settlement_share = apl_settlement_share p\<rparr>"

definition apply_calldata :: "'log abi_codec \<Rightarrow> apply_payload \<Rightarrow> bytes" where
  "apply_calldata abi p =
     ac_encode abi (Apply_for_call (apl_tx_id p) (apply_tx_data p) (apl_r p) (apl_c_b p) (apl_sigma p) (apl_eta p)
       (apl_t_att p))"

record applied_event =
  ae_app_id :: u256
  ae_tx_id :: u256
  ae_applicant :: bytes
  ae_c_b :: bytes
  ae_deposit :: u256

record engaged_event =
  ee_eng_id :: u256
  ee_tx_id :: u256
  ee_app_id :: u256
  ee_expires_at :: u256

record settle_payload =
  spl_chain_id :: u64
  spl_contract :: bytes
  spl_submitter :: bytes
  spl_eng_id :: u256
  spl_property_id :: bytes
  spl_amount :: u256
  spl_settlement_share :: u256
  spl_r :: bytes
  spl_sigma :: bytes
  spl_eta :: bytes
  spl_t_att :: u64

definition settle_tx_data :: "settle_payload \<Rightarrow> tx_data" where
  "settle_tx_data p =
     \<lparr>tx_property_id = spl_property_id p, tx_amount = spl_amount p, tx_settlement_share = spl_settlement_share p\<rparr>"

definition settle_calldata :: "'log abi_codec \<Rightarrow> settle_payload \<Rightarrow> bytes" where
  "settle_calldata abi p =
     ac_encode abi (Settle_call (spl_eng_id p) (settle_tx_data p) (spl_r p) (spl_sigma p) (spl_eta p) (spl_t_att p))"

record settled_event =
  se_eng_id :: u256
  se_tx_id :: u256
  se_to_owner :: u256
  se_to_counterparty :: u256

subsection \<open>Sending a transaction\<close>

record 'log inclusion =
  ic_receipt :: "'log receipt"
  ic_block_number :: u64
  ic_block_timestamp :: u64

definition revert_reason :: "'log abi_codec \<Rightarrow> send_error \<Rightarrow> bytes run" where
  "revert_reason abi e =
     (case e of
        Transport l ls \<Rightarrow> Inl (Failed (in_context ''sending the transaction'' (Chain [] (Error l) ls)))
      | Revert_data d \<Rightarrow> Inr (case ac_decode_error abi d of
            Some decoded \<Rightarrow> decoded
          | None \<Rightarrow> ''unknown revert data 0x'' @ ac_hex abi d))"

text \<open>After the transaction was accepted: the receipt and its block.\<close>

definition await_inclusion ::
    "('key, 'pending, 'log) chain_node \<Rightarrow> 'pending \<Rightarrow> (bytes + 'log inclusion) run" where
  "await_inclusion node pending =
     and_then (lift_lib (cn_receipt node pending)) (\<lambda>r.
     if \<not> rc_status r then Inr (Inl ''reverted on-chain without revert data'')
     else and_then (some_or_fail ''receipt has no block number'' (rc_block_number r)) (\<lambda>n.
     and_then (lift_lib (cn_block_timestamp node n)) (\<lambda>block.
     and_then (some_or_fail ''inclusion block not found'' block) (\<lambda>time.
     Inr (Inr \<lparr>ic_receipt = r, ic_block_number = n, ic_block_timestamp = time\<rparr>)))))"

definition send_tx ::
    "'log abi_codec \<Rightarrow> ('key, 'pending, 'log) chain_node \<Rightarrow> bytes \<Rightarrow> 'key \<Rightarrow> u64 \<Rightarrow> bytes \<Rightarrow> u256 \<Rightarrow> bytes
      \<Rightarrow> tx_request list \<times> (bytes + 'log inclusion) run" where
  "send_tx abi node url sk expected_chain_id contract amount calldata =
     (case and_then (lib_ctx ''RPC URL'' (lift_lib (cn_url node url))) (\<lambda>_. lift_lib (cn_chain_id node)) of
        Inl f \<Rightarrow> ([], Inl f)
      | Inr chain_id \<Rightarrow>
          if chain_id \<noteq> expected_chain_id
          then ([], fails (''the node is on chain '' @ dec (unat chain_id) @ '', the payload on '' @ dec (unat expected_chain_id)))
          else let tx = \<lparr>tr_to = contract, tr_value = amount, tr_input = calldata\<rparr> in
            ([tx], case cn_send node sk tx of
                Inl e \<Rightarrow> and_then (revert_reason abi e) (\<lambda>reason. Inr (Inl reason))
              | Inr pending \<Rightarrow> await_inclusion node pending))"

fun find_map :: "('a \<Rightarrow> 'b option) \<Rightarrow> 'a list \<Rightarrow> 'b option" where
  "find_map f [] = None"
| "find_map f (x # xs) = (case f x of Some y \<Rightarrow> Some y | None \<Rightarrow> find_map f xs)"

datatype 'e submit_outcome = Included bytes u64 u64 u64 'e | Reverted bytes

text \<open>The common part of the four submissions: send, and find and convert the event.\<close>

definition submit_phase ::
    "'log abi_codec \<Rightarrow> ('key, 'pending, 'log) chain_node \<Rightarrow> bytes \<Rightarrow> 'key \<Rightarrow> u64 \<Rightarrow> bytes \<Rightarrow> u256 \<Rightarrow> bytes
      \<Rightarrow> (pprev_log \<Rightarrow> 'e option) \<Rightarrow> bytes \<Rightarrow> tx_request list \<times> 'e submit_outcome run" where
  "submit_phase abi node url sk chain_id contract amount calldata into_event name =
     (let (sent, r) = send_tx abi node url sk chain_id contract amount calldata in
      (sent, and_then r (\<lambda>inclusion.
        case inclusion of
          Inl error \<Rightarrow> Inr (Reverted error)
        | Inr ic \<Rightarrow>
            and_then (some_or_fail (''receipt has no '' @ name @ '' event'')
              (find_map (\<lambda>log. Option.bind (ac_decode_log abi log) into_event) (rc_logs (ic_receipt ic)))) (\<lambda>e.
            Inr (Included (rc_tx_hash (ic_receipt ic)) (ic_block_number ic) (ic_block_timestamp ic)
              (rc_gas_used (ic_receipt ic)) e)))))"

fun registered_of :: "pprev_log \<Rightarrow> registered_event option" where
  "registered_of (Registered_log tx_id owner c_tx policy tx r collateral) = Some
     \<lparr>re_tx_id = tx_id, re_owner = owner, re_c_tx = c_tx, re_policy_id = policy, re_property_id = tx_property_id tx,
      re_amount = tx_amount tx, re_settlement_share = tx_settlement_share tx, re_r = r, re_collateral = collateral\<rparr>"
| "registered_of _ = None"

definition submit_register_tx ::
    "'log abi_codec \<Rightarrow> ('key, 'pending, 'log) chain_node \<Rightarrow> bytes \<Rightarrow> 'key \<Rightarrow> register_payload
      \<Rightarrow> tx_request list \<times> registered_event submit_outcome run" where
  "submit_register_tx abi node url sk p =
     submit_phase abi node url sk (rpl_chain_id p) (rpl_contract p) (rpl_collateral p) (register_calldata abi p)
       registered_of ''Registered''"

fun applied_of :: "pprev_log \<Rightarrow> applied_event option" where
  "applied_of (Applied_log app_id tx_id applicant c_b deposit) = Some
     \<lparr>ae_app_id = app_id, ae_tx_id = tx_id, ae_applicant = applicant, ae_c_b = c_b, ae_deposit = deposit\<rparr>"
| "applied_of _ = None"

definition submit_apply_tx ::
    "'log abi_codec \<Rightarrow> ('key, 'pending, 'log) chain_node \<Rightarrow> bytes \<Rightarrow> 'key \<Rightarrow> apply_payload
      \<Rightarrow> tx_request list \<times> applied_event submit_outcome run" where
  "submit_apply_tx abi node url sk p =
     submit_phase abi node url sk (apl_chain_id p) (apl_contract p) (apl_deposit p) (apply_calldata abi p)
       applied_of ''Applied''"

fun engaged_of :: "pprev_log \<Rightarrow> engaged_event option" where
  "engaged_of (Engaged_log eng_id tx_id app_id expires_at) = Some
     \<lparr>ee_eng_id = eng_id, ee_tx_id = tx_id, ee_app_id = app_id, ee_expires_at = expires_at\<rparr>"
| "engaged_of _ = None"

definition chain_id_of :: "('key, 'pending, 'log) chain_node \<Rightarrow> bytes \<Rightarrow> u64 run" where
  "chain_id_of node url = and_then (lib_ctx ''RPC URL'' (lift_lib (cn_url node url))) (\<lambda>_. lift_lib (cn_chain_id node))"

definition submit_engage_tx ::
    "'log abi_codec \<Rightarrow> ('key, 'pending, 'log) chain_node \<Rightarrow> bytes \<Rightarrow> 'key \<Rightarrow> bytes \<Rightarrow> u256 \<Rightarrow> u256
      \<Rightarrow> tx_request list \<times> engaged_event submit_outcome run" where
  "submit_engage_tx abi node url sk contract tx_id app_id =
     (case chain_id_of node url of
        Inl f \<Rightarrow> ([], Inl f)
      | Inr chain_id \<Rightarrow>
          submit_phase abi node url sk chain_id contract 0 (ac_encode abi (Engage_call tx_id app_id)) engaged_of ''Engaged'')"

fun settled_of :: "pprev_log \<Rightarrow> settled_event option" where
  "settled_of (Settled_log eng_id tx_id to_owner to_counterparty) = Some
     \<lparr>se_eng_id = eng_id, se_tx_id = tx_id, se_to_owner = to_owner, se_to_counterparty = to_counterparty\<rparr>"
| "settled_of _ = None"

definition submit_settle_tx ::
    "'log abi_codec \<Rightarrow> ('key, 'pending, 'log) chain_node \<Rightarrow> bytes \<Rightarrow> 'key \<Rightarrow> settle_payload
      \<Rightarrow> tx_request list \<times> settled_event submit_outcome run" where
  "submit_settle_tx abi node url sk p =
     submit_phase abi node url sk (spl_chain_id p) (spl_contract p) 0 (settle_calldata abi p) settled_of ''Settled''"

definition tau_lock_of :: "'log abi_codec \<Rightarrow> ('key, 'pending, 'log) chain_node \<Rightarrow> bytes \<Rightarrow> bytes \<Rightarrow> u64 run" where
  "tau_lock_of abi node url contract =
     and_then (lib_ctx ''RPC URL'' (lift_lib (cn_url node url))) (\<lambda>_.
     and_then (lift_lib (cn_call node contract (ac_encode abi Tau_lock_call))) (\<lambda>out.
     and_then (lift_lib (ac_decode_u256 abi out)) (\<lambda>v.
     some_or_fail ''TAU_LOCK exceeds 64 bits'' (if unat v < 2 ^ 64 then Some (of_nat (unat v)) else None))))"

text \<open>C_tx of a listing from its public parameters.\<close>

definition listing_commitment ::
    "(bytes \<Rightarrow> bytes) \<Rightarrow> (tx_data \<times> bytes \<times> bytes \<Rightarrow> bytes) \<Rightarrow> tx_data \<Rightarrow> bytes \<Rightarrow> bytes \<Rightarrow> bytes" where
  "listing_commitment keccak256 abi_encode tx policy_id_r r = commitment keccak256 abi_encode tx policy_id_r r"

end
