(* ===== verification/Login.thy ===== *)
theory Login
  imports Registry Session_Errors
begin

section \<open>Login of the prover\<close>

text \<open>
  Model of \<open>pprev-prover/src/login.rs\<close>: the request that exchanges credentials for a token and the reading of
  the response. The TLS connection and serde_json are the record \<open>login_client\<close>. Against the model of the
  registry the exchange gives a token for the account exactly with its password.
\<close>

record login_client =
  lc_roots :: "bytes \<Rightarrow> foreign + unit"
  lc_config :: "foreign + unit"
  lc_tcp :: "bytes \<Rightarrow> foreign + unit"
  lc_tls :: "bytes \<Rightarrow> foreign + unit"
  lc_exchange :: "bytes \<Rightarrow> foreign + bytes"
  lc_json :: "bytes \<Rightarrow> bytes \<Rightarrow> bytes"
  lc_token :: "bytes \<Rightarrow> foreign + bytes option"

definition login_post :: "bytes \<Rightarrow> bytes \<Rightarrow> bytes" where
  "login_post server body =
     ''POST /login HTTP/1.1'' @ crlf @ ''Host: '' @ server @ crlf @ ''Content-Type: application/json'' @ crlf
     @ ''Content-Length: '' @ dec (length body) @ crlf @ ''Connection: close'' @ crlf @ crlf @ body"

definition read_token :: "login_client \<Rightarrow> bytes \<Rightarrow> bytes run" where
  "read_token lc response =
     and_then (some_or_fail ''malformed login response'' (window_position (crlf @ crlf) response)) (\<lambda>n.
     require (prefix ''HTTP/1.1 200 '' response) (''login rejected: '' @ take n response) (
     and_then (lift_lib (lc_token lc (drop (n + 4) response))) (some_or_fail ''login response has no token'')))"

definition client_login :: "login_client \<Rightarrow> bytes \<Rightarrow> bytes \<Rightarrow> bytes \<Rightarrow> bytes \<Rightarrow> bytes \<Rightarrow> bytes run" where
  "client_login lc addr server ca acct password =
     and_then (lift_lib (lc_roots lc ca)) (\<lambda>_.
     and_then (lift_lib (lc_config lc)) (\<lambda>_.
     and_then (lift_lib (lc_tcp lc addr)) (\<lambda>_.
     and_then (lift_lib (lc_tls lc server)) (\<lambda>_.
     and_then (lift_lib (lc_exchange lc (login_post server (lc_json lc acct password)))) (read_token lc)))))"

subsection \<open>Heads of HTTP messages\<close>

definition line :: "bytes \<Rightarrow> bool" where
  "line l \<longleftrightarrow> l \<noteq> [] \<and> list_all is_ascii_byte l \<and> CR \<notin> set l"

fun join_lines :: "bytes list \<Rightarrow> bytes" where
  "join_lines [] = []"
| "join_lines [l] = l"
| "join_lines (l # ls) = l @ crlf @ join_lines ls"

lemma window_skip:
  "CR \<notin> set l \<Longrightarrow> window_position (CR # p) (l @ s) = map_option (\<lambda>i. length l + i) (window_position (CR # p) s)"
proof (induction l)
  case (Cons c l)
  then show ?case by (cases "window_position (CR # p) s") auto
qed (cases "window_position (CR # p) s"; simp)

lemma head_end_lines:
  "ls \<noteq> [] \<Longrightarrow> list_all line ls \<Longrightarrow> head_end (join_lines ls @ crlf @ crlf @ body) = Some (length (join_lines ls))"
proof (induction ls rule: join_lines.induct)
  case (2 l)
  then have "CR \<notin> set l" by (simp add: line_def)
  then show ?case by (simp add: head_end_def window_skip)
next
  case (3 l m ls)
  then have l: "CR \<notin> set l" and m: "m \<noteq> []" "CR \<notin> set m" by (simp_all add: line_def)
  obtain c t where c: "join_lines (m # ls) = c # t" "c \<noteq> CR"
    using m by (cases ls; cases m) auto
  have "head_end (join_lines (m # ls) @ crlf @ crlf @ body) = Some (length (join_lines (m # ls)))" using 3 by simp
  with l c show ?case by (simp add: head_end_def window_skip)
qed simp

lemma split_crlf_line: "CR \<notin> set l \<Longrightarrow> split_crlf l = [l]"
  by (induction l) auto

lemma split_crlf_step: "CR \<notin> set l \<Longrightarrow> split_crlf (l @ crlf @ s) = l # split_crlf s"
proof (induction l)
  case (Cons c l)
  then show ?case by (cases "split_crlf s") auto
qed auto

lemma split_crlf_lines: "ls \<noteq> [] \<Longrightarrow> list_all line ls \<Longrightarrow> split_crlf (join_lines ls) = ls"
proof (induction ls rule: join_lines.induct)
  case (3 l m ls)
  then show ?case using split_crlf_step [of l "join_lines (m # ls)"] by (simp add: line_def)
qed (auto simp: line_def split_crlf_line)

subsection \<open>The registry reads the request\<close>

definition printable :: "bytes \<Rightarrow> bool" where
  "printable s \<longleftrightarrow> s \<noteq> [] \<and> list_all (\<lambda>c. 33 \<le> byte_val c \<and> byte_val c \<le> 126) s"

lemma space_white: "'' '' \<in> set white_space" "w \<in> set white_space \<Longrightarrow> prefix w (CHR '' '' # s) \<Longrightarrow> w = '' ''"
proof -
  have "of_char (CHR '' '') = (32::nat)" by simp
  then have sp: "char_of (32::nat) = CHR '' ''" by (metis char_of_char)
  then show "'' '' \<in> set white_space" by (simp add: white_space_def)
  assume w: "w \<in> set white_space" and p: "prefix w (CHR '' '' # s)"
  from p white_space_nonempty [OF w] have "hd w = CHR '' ''" by (cases w) simp_all
  then have "byte_val (hd w) = 32" by simp
  with w sp show "w = '' ''" by (auto simp: white_space_def)
qed

lemma trim_space:
  assumes "printable s"
  shows "trim (CHR '' '' # s) = s" "trim s = s"
proof -
  show s: "trim s = s" using assms trim_printable by (simp add: printable_def)
  let ?f = "find (\<lambda>w. w \<noteq> [] \<and> prefix w (CHR '' '' # s)) white_space"
  have "?f \<noteq> None" using space_white(1) by (auto simp: find_None_iff)
  then obtain w where w: "?f = Some w" by auto
  then have "w \<in> set white_space" "prefix w (CHR '' '' # s)" by (auto simp: find_Some_iff)
  then have "w = '' ''" by (rule space_white(2))
  then have "strip_prefixes white_space (CHR '' '' # s) = strip_prefixes white_space s"
    using w by (simp add: strip_prefixes.simps [of white_space "CHR '' '' # s"])
  then show "trim (CHR '' '' # s) = s" using s by (simp add: trim_def trim_start_def)
qed

lemma printable_dec: "printable (dec n)"
proof -
  have "list_all (\<lambda>c. 33 \<le> byte_val c \<and> byte_val c \<le> 126) (dec n)"
    using dec_digits [of n] unfolding all_digits_def list_all_iff by (auto simp: byte_defs)
  then show ?thesis by (simp add: printable_def)
qed

lemma printable_line: "printable s \<Longrightarrow> CR \<notin> set s \<and> list_all is_ascii_byte s"
  by (auto simp: printable_def list_all_iff byte_defs)

lemma parse_header_line:
  "CHR '':'' \<notin> set k \<Longrightarrow> printable k \<Longrightarrow> printable v \<Longrightarrow> parse_header (k @ '': '' @ v) = Inr (k, v)"
proof -
  assume k: "CHR '':'' \<notin> set k" "printable k" and v: "printable v"
  have "split_once (CHR '':'') (k @ CHR '':'' # CHR '' '' # v) = Some (k, CHR '' '' # v)"
    using k(1) by (induction k) auto
  then show ?thesis using trim_space k(2) v by (simp add: parse_header_def)
qed

definition post_lines :: "bytes \<Rightarrow> nat \<Rightarrow> bytes list" where
  "post_lines server n =
     [''POST /login HTTP/1.1'', ''Host: '' @ server, ''Content-Type: application/json'', ''Content-Length: '' @ dec n,
      ''Connection: close'']"

definition post_headers :: "bytes \<Rightarrow> nat \<Rightarrow> (bytes \<times> bytes) list" where
  "post_headers server n =
     [(''Host'', server), (''Content-Type'', ''application/json''), (''Content-Length'', dec n), (''Connection'', ''close'')]"

lemma post_lines_ok: "printable server \<Longrightarrow> list_all line (post_lines server n)"
  using printable_line [of server] printable_line [OF printable_dec [of n]]
  by (simp add: post_lines_def line_def byte_defs)

lemma login_post_lines: "login_post server body = join_lines (post_lines server (length body)) @ crlf @ crlf @ body"
  by (simp add: login_post_def post_lines_def)

lemma parse_usize_dec: "n < 2 ^ 64 \<Longrightarrow> parse_usize (dec n) = Some (of_nat n)"
proof -
  assume n: "n < 2 ^ 64"
  obtain c t where c: "dec n = c # t" by (cases "dec n") auto
  moreover have "is_ascii_digit c" using dec_digits [of n] c by simp
  then have "c \<noteq> CHR ''+''" by (auto simp: byte_defs)
  ultimately have "(case dec n of c # t \<Rightarrow> if c = CHR ''+'' then t else dec n | [] \<Rightarrow> []) = dec n" by simp
  then show ?thesis using n by (simp add: parse_usize_def)
qed

lemma same_names:
  "\<not> eq_ignore_ascii_case ''Host'' ''content-length''" "\<not> eq_ignore_ascii_case ''Content-Type'' ''content-length''"
  "eq_ignore_ascii_case ''Content-Length'' ''content-length''"
  by code_simp+

lemma u64_nat: "n < 2 ^ 64 \<Longrightarrow> unat (of_nat n :: u64) = n"
  by (simp add: unsigned_of_nat take_bit_nat_eq_self)

lemma login_post_parsed:
  assumes server: "printable server" and size: "length (login_post server body) < 2 ^ 64"
  shows "parse_request (login_post server body) =
    Inr (Some \<lparr>hr_method = ''POST'', hr_target = ''/login'', hr_headers = post_headers server (length body), hr_body = body\<rparr>)"
proof -
  let ?n = "length body"
  let ?head = "join_lines (post_lines server ?n)"
  have ls: "list_all line (post_lines server ?n)" "post_lines server ?n \<noteq> []"
    using post_lines_ok [OF server] by (simp_all add: post_lines_def)
  have head: "head_end (login_post server body) = Some (length ?head)"
    unfolding login_post_lines by (rule head_end_lines [OF ls(2,1)])
  have hdrs: "parse_header (''Host: '' @ server) = Inr (''Host'', server)"
    "parse_header (''Content-Type: application/json'') = Inr (''Content-Type'', ''application/json'')"
    "parse_header (''Content-Length: '' @ dec ?n) = Inr (''Content-Length'', dec ?n)"
    "parse_header (''Connection: close'') = Inr (''Connection'', ''close'')"
    using parse_header_line [of "''Host''" server] parse_header_line [of "''Content-Type''" "''application/json''"]
      parse_header_line [of "''Content-Length''" "dec ?n"] parse_header_line [of "''Connection''" "''close''"]
      server printable_dec by (simp_all add: printable_def)
  have "list_all is_ascii_byte ?head"
    using ls(1) by (simp add: post_lines_def line_def byte_defs)
  then have "utf8_valid ?head" by (rule utf8_valid_ascii)
  moreover have "split_crlf ?head = post_lines server ?n" by (rule split_crlf_lines [OF ls(2,1)])
  moreover have "find_header ''content-length'' (post_headers server ?n) = Some (dec ?n)"
    by (simp add: find_header_def post_headers_def same_names)
  moreover have "?n < 2 ^ 64" using size by (simp add: login_post_def)
  ultimately have "parse_head ?head = Inr \<lparr>hd_method = ''POST'', hd_target = ''/login'',
      hd_headers = post_headers server ?n, hd_content_length = of_nat ?n\<rparr>"
    using hdrs parse_usize_dec [of ?n]
    by (simp add: parse_head_def Let_def post_lines_def post_headers_def)
  moreover have range: "body_range (length ?head) (of_nat ?n) = Range (length ?head + 4) (length (login_post server body))"
    using size unfolding login_post_lines by (simp add: body_range_def u64_nat flip: of_nat_add)
  moreover have "holds (login_post server body) (Range (length ?head + 4) (length (login_post server body))) body"
  proof -
    have eq: "login_post server body = (?head @ crlf @ crlf) @ body @ []" by (simp add: login_post_lines)
    show ?thesis unfolding eq by (rule holds_at) simp_all
  qed
  moreover have "take (length ?head) (login_post server body) = ?head" by (simp add: login_post_lines)
  ultimately show ?thesis
    using head by (simp add: parse_request_def parse_body_def index_range_of_holds Let_def)
qed

subsection \<open>The exchange with the registry\<close>

definition response_lines :: "nat \<Rightarrow> bytes \<Rightarrow> nat \<Rightarrow> bytes list" where
  "response_lines code reason n =
     [''HTTP/1.1 '' @ dec code @ '' '' @ reason, ''Content-Type: application/json'', ''Content-Length: '' @ dec n,
      ''Connection: close'']"

lemma json_response_lines:
  "json_response code reason body = join_lines (response_lines code reason (length body)) @ crlf @ crlf @ body"
  by (simp add: json_response_def response_lines_def)

lemma response_lines_ok:
  "list_all is_ascii_byte reason \<Longrightarrow> CR \<notin> set reason \<Longrightarrow> list_all line (response_lines code reason n)"
  using printable_line [OF printable_dec [of code]] printable_line [OF printable_dec [of n]]
  by (simp add: response_lines_def line_def byte_defs)

lemma response_head_end:
  assumes "list_all is_ascii_byte reason" and "CR \<notin> set reason"
  shows "window_position (crlf @ crlf) (json_response code reason body) =
    Some (length (join_lines (response_lines code reason (length body))))"
  using head_end_lines [OF _ response_lines_ok [OF assms]]
  by (simp add: json_response_lines head_end_def response_lines_def)

lemma read_token_ok:
  "read_token lc (json_response 200 ''OK'' body) = and_then (lift_lib (lc_token lc body)) (some_or_fail ''login response has no token'')"
proof -
  have "window_position (crlf @ crlf) (json_response 200 ''OK'' body) =
      Some (length (join_lines (response_lines 200 ''OK'' (length body))))"
    by (rule response_head_end) (simp_all add: byte_defs)
  moreover have "prefix ''HTTP/1.1 200 '' (json_response 200 ''OK'' body)"
  proof -
    have "dec 200 = ''200''" by code_simp
    then show ?thesis by (simp add: json_response_def)
  qed
  ultimately show ?thesis by (simp add: read_token_def json_response_lines some_or_fail_def require_def)
qed

definition rejected_head :: bytes where
  "rejected_head = join_lines (response_lines 401 ''Unauthorized'' (length ''{}''))"

lemma read_token_rejected:
  "read_token lc (status_response 401 ''Unauthorized'') = fails (''login rejected: '' @ rejected_head)"
proof -
  have "window_position (crlf @ crlf) (status_response 401 ''Unauthorized'') = Some (length rejected_head)"
    unfolding status_response_def rejected_head_def by (subst response_head_end) (simp_all add: byte_defs)
  moreover have "\<not> prefix ''HTTP/1.1 200 '' (status_response 401 ''Unauthorized'')"
  proof -
    have "dec 401 = ''401''" by code_simp
    then show ?thesis by (simp add: status_response_def json_response_def)
  qed
  moreover have "take (length rejected_head) (status_response 401 ''Unauthorized'') = rejected_head"
    by (simp add: status_response_def json_response_lines rejected_head_def)
  ultimately show ?thesis by (simp add: read_token_def require_def some_or_fail_def)
qed

definition knows :: "registry \<Rightarrow> bytes \<Rightarrow> bytes \<Rightarrow> bool" where
  "knows rg acct password \<longleftrightarrow>
     list_ex (\<lambda>a. acc_id a = acct \<and> acc_password a = password) (fx_accounts (rg_fixtures rg))"

definition token_json :: "bytes \<Rightarrow> bytes" where
  "token_json t = CHR ''{'' # dquote # ''token'' @ [dquote, CHR '':'', dquote] @ t @ [dquote, CHR ''}'']"

text \<open>C28: The prover's login against the registry: the registry reads the request as sent, and the prover
  holds a token exactly when the credentials are those of an account; the registry then binds that token,
  and only that token is new, to the account. With other credentials the prover reports the refusal and the
  registry does not change.\<close>

theorem login_against_registry:
  assumes json: "le_credentials le (lc_json lc acct password) = Some (acct, password)"
    and tok: "lc_token lc (token_json (le_hex_encode le raw)) = Inr (Some (le_hex_encode le raw))"
    and conn: "lc_roots lc ca = Inr ()" "lc_config lc = Inr ()" "lc_tcp lc addr = Inr ()" "lc_tls lc server = Inr ()"
    and server: "printable server"
    and size: "length (login_post server (lc_json lc acct password)) \<le> MAX_REQUEST"
    and handled: "handle le raw rg [login_post server (lc_json lc acct password)] = (rg', Inr response)"
    and peer: "lc_exchange lc (login_post server (lc_json lc acct password)) = Inr response"
  shows "if knows rg acct password
    then client_login lc addr server ca acct password = Inr (le_hex_encode le raw) \<and>
      rg' = rg\<lparr>rg_tokens := (rg_tokens rg)(le_hex_encode le raw \<mapsto> acct)\<rparr> \<and>
      account_of rg' (Some (''Bearer '' @ le_hex_encode le raw)) = Some acct
    else client_login lc addr server ca acct password = fails (''login rejected: '' @ rejected_head) \<and> rg' = rg"
proof -
  let ?post = "login_post server (lc_json lc acct password)"
  have "length ?post < 2 ^ 64" using size by (simp add: MAX_REQUEST_def)
  note parsed = login_post_parsed [OF server this]
  have "?post \<noteq> []" by (simp add: login_post_def)
  then have req: "read_request [] [?post] = Inr \<lparr>hr_method = ''POST'', hr_target = ''/login'',
      hr_headers = post_headers server (length (lc_json lc acct password)), hr_body = lc_json lc acct password\<rparr>"
    using parsed size by simp
  have login: "client_login lc addr server ca acct password = read_token lc response"
    using conn peer by (simp add: client_login_def lift_lib_def)
  show ?thesis
  proof (cases "knows rg acct password")
    case True
    then have "rg' = rg\<lparr>rg_tokens := (rg_tokens rg)(le_hex_encode le raw \<mapsto> acct)\<rparr>"
      and r: "response = json_response 200 ''OK'' (token_json (le_hex_encode le raw))"
      using handled req json by (auto simp: handle_def route_def Registry.login_def knows_def token_json_def Let_def)
    moreover have "read_token lc response = Inr (le_hex_encode le raw)"
      using tok unfolding r read_token_ok by (simp add: lift_lib_def some_or_fail_def)
    ultimately show ?thesis using True login by (simp add: account_of_def strip_prefix_def)
  next
    case False
    then have "rg' = rg" and r: "response = status_response 401 ''Unauthorized''"
      using handled req json by (auto simp: handle_def route_def Registry.login_def knows_def Let_def)
    then show ?thesis using False login read_token_rejected by simp
  qed
qed

text \<open>A client of the sample registry, whose JSON codec reads back what it writes.\<close>

definition sample_client :: "bytes \<Rightarrow> login_client" where
  "sample_client response =
     \<lparr>lc_roots = (\<lambda>_. Inr ()), lc_config = Inr (), lc_tcp = (\<lambda>_. Inr ()), lc_tls = (\<lambda>_. Inr ()),
      lc_exchange = (\<lambda>_. Inr response), lc_json = (\<lambda>a p. a @ '':'' @ p),
      lc_token = (\<lambda>j. Inr (Some (take (length j - 12) (drop 10 j))))\<rparr>"

definition colon_login :: login_env where
  "colon_login = \<lparr>le_credentials = split_once (CHR '':''), le_hex_encode = (\<lambda>bs. bs)\<rparr>"

theorem login_against_registry_witness:
  "\<exists>rg' response. handle colon_login ''t'' sample_registry [login_post ''registry'' ''ACC-000000000001:pw''] = (rg', Inr response) \<and>
    client_login (sample_client response) [] ''registry'' [] ''ACC-000000000001'' ''pw'' = Inr ''t'' \<and>
    account_of rg' (Some ''Bearer t'') = Some ''ACC-000000000001''"
proof -
  let ?post = "login_post ''registry'' ''ACC-000000000001:pw''"
  have p: "printable ''registry''" by (simp add: printable_def)
  have "dec (length ''ACC-000000000001:pw'') = ''19''" by code_simp
  then have len: "length ?post \<le> MAX_REQUEST" by (simp add: login_post_def MAX_REQUEST_def)
  then have "length ?post < 2 ^ 64" by (simp add: MAX_REQUEST_def)
  from login_post_parsed [OF p this] len have "\<exists>q. read_request [] [?post] = Inr q" by (simp add: login_post_def)
  then obtain q where q: "read_request [] [?post] = Inr q" by blast
  obtain rg' response where "route colon_login ''t'' sample_registry q = (rg', response)" by fastforce
  with q have h: "handle colon_login ''t'' sample_registry [?post] = (rg', Inr response)"
    by (simp add: handle_def del: read_request.simps)
  have enc: "le_hex_encode colon_login ''t'' = ''t''" by (simp add: colon_login_def)
  have json: "lc_json (sample_client response) ''ACC-000000000001'' ''pw'' = ''ACC-000000000001:pw''"
    "le_credentials colon_login (lc_json (sample_client response) ''ACC-000000000001'' ''pw'') = Some (''ACC-000000000001'', ''pw'')"
    "lc_token (sample_client response) (token_json (le_hex_encode colon_login ''t'')) = Inr (Some (le_hex_encode colon_login ''t''))"
    by (simp_all add: sample_client_def colon_login_def token_json_def)
  have conn: "lc_roots (sample_client response) [] = Inr ()" "lc_config (sample_client response) = Inr ()"
    "lc_tcp (sample_client response) [] = Inr ()" "lc_tls (sample_client response) ''registry'' = Inr ()"
    "lc_exchange (sample_client response) ?post = Inr response" by (simp_all add: sample_client_def)
  note login_against_registry [OF json(2,3) conn(1-4) p, unfolded json(1), OF len h conn(5), unfolded enc]
  moreover have "knows sample_registry ''ACC-000000000001'' ''pw''"
    by (simp add: knows_def sample_registry_def sample_fixtures_def)
  ultimately show ?thesis using h by auto
qed

end
