(* ===== verification/Prover_Phases.thy ===== *)
theory Prover_Phases
  imports Prover_Witness Chain Login Wire Policy Mock_Notary
begin

section \<open>The submitter's phases\<close>

text \<open>
  Model of \<open>pprev-prover/src/register.rs\<close> and \<open>phases.rs\<close>: a run of Register, Apply or Settle from the login to
  the transaction, composed of the modelled parts (login, notarisation with retries, presentation, statement,
  circuit input, proof, submission to the policy verifier, payload and transaction). What lies outside is the
  record \<open>outside\<close>. A run gives the transactions it handed to the node and its record or error, or no value
  when the retry loop does not end. Times, traffic counts and memory are not modelled.
\<close>

subsection \<open>What a run meets\<close>

datatype circuit_input = In_r phi_r_input | In_a phi_a_input | In_s phi_s_input

datatype payload = Payload_r register_payload | Payload_a apply_payload | Payload_s settle_payload

record ('pv, 'http, 'rs, 'tc, 'areq, 'sec, 'att, 'tp, 'p, 'vk, 'oatt, 'key, 'pending, 'log) outside =
  od_create_dir :: "bytes \<Rightarrow> foreign + unit"
  od_address :: "'key \<Rightarrow> bytes"
  od_abi :: "'log abi_codec"
  od_node :: "('key, 'pending, 'log) chain_node"
  od_random_eta :: bytes
  od_random_r :: bytes
  od_random_salt :: bytes
  od_login :: login_client
  od_connect :: "nat \<Rightarrow> 32 word \<Rightarrow> ('pv, 'http, 'rs, 'tc, 'areq, 'sec, 'att, 'tp, 'p) prover_ops run"
  od_races :: "nat \<Rightarrow> ('areq \<times> 'sec \<times> field_opening list \<times> committed_opening \<times> committed_opening) race"
  od_ops :: "('pv, 'http, 'rs, 'tc, 'areq, 'sec, 'att, 'tp, 'p) prover_ops"
  od_tlsn :: "('p, 'vk, 'oatt, 'rs) tlsn"
  od_keccak :: "bytes \<Rightarrow> bytes"
  od_abi_encode :: "tx_data \<times> bytes \<times> bytes \<Rightarrow> bytes"
  od_eip712 :: "statement \<Rightarrow> eip712_domain \<Rightarrow> bytes"
  od_poseidon :: "nat \<Rightarrow> nat \<Rightarrow> nat res"
  od_sha256 :: "bytes \<Rightarrow> bytes"
  od_hex :: "bytes \<Rightarrow> bytes"
  od_read_file :: "bytes \<Rightarrow> bytes res"
  od_is_utf8 :: "bytes \<Rightarrow> bool"
  od_tools :: "circuit_input tools"
  od_disk :: disk
  od_verifier :: "bytes \<Rightarrow> sink res"
  od_verifier_peer :: "bytes \<Rightarrow> bytes \<Rightarrow> incoming"
  od_serialize :: "'p submission \<Rightarrow> bytes res"
  od_deserialize :: "bytes \<Rightarrow> reply res"
  od_codec :: request_codec
  od_write_payload :: "bytes \<Rightarrow> payload \<Rightarrow> foreign + unit"

subsection \<open>The submitter's own view of a presentation\<close>

definition own_t_att :: "bytes \<Rightarrow> ('p, 'vk, 'oatt, 'rs) tlsn \<Rightarrow> bytes list \<Rightarrow> 'p \<Rightarrow> u64 run" where
  "own_t_att whose t roots presentation =
     and_then (lift_res (cert_verifier_new t roots)) (\<lambda>_.
     and_then (lift_res (with_ctx (''verifying the '' @ whose @ '' own presentation'') (verify_presentation t roots presentation)))
       (\<lambda>out. lift_res (t_att_of out)))"

subsection \<open>Proving\<close>

text \<open>Proving, with the downcast of the error: a missing witness is an outcome, any other failure is the run's.\<close>

definition own_proof where
  "own_proof w files input dir =
     (case prove_with (od_tools w) files input dir (od_disk w) of
        Inr (_, prf) \<Rightarrow> Inr (Inr (pp_proof_json prf))
      | Inl (Unsatisfied u) \<Rightarrow> Inr (Inl u)
      | Inl (Prove_error e) \<Rightarrow> Inl (fault_of e))"

definition borrowed_proof where
  "borrowed_proof w file =
     lift_res (read_borrowed_proof (od_sha256 w) (od_hex w) (od_read_file w) (od_is_utf8 w) file)"

definition unsatisfied_text :: "bytes \<Rightarrow> unsatisfied \<Rightarrow> bytes" where
  "unsatisfied_text predicate u =
     predicate @ '' has no witness for this input: assertion failed in template '' @ us_template u @ '' at line ''
     @ dec (unat (us_line u))"

subsection \<open>Register\<close>

record 'key register_config =
  gc_verifier :: bytes
  gc_registry :: bytes
  gc_ca_der :: bytes
  gc_layout :: layout
  gc_policy :: policy_bundle
  gc_account :: bytes
  gc_password :: bytes
  gc_property :: bytes
  gc_rpc_url :: bytes
  gc_contract :: bytes
  gc_key :: 'key
  gc_amount :: u256
  gc_settlement_share :: u256
  gc_collateral :: u256
  gc_circuits :: circuit_files
  gc_out :: bytes
  gc_max_sent :: nat
  gc_max_recv :: nat
  gc_max_retries :: "32 word"
  gc_preprocess_timeout :: nat
  gc_eta :: "bytes option"
  gc_proof_from :: "bytes option"
  gc_submit :: bool

datatype register_outcome = Out_registered | Out_signed | Out_no_witness | Out_refused | Out_reverted

record register_record =
  gr_outcome :: register_outcome
  gr_reason :: "bytes option"
  gr_account :: bytes
  gr_property :: bytes
  gr_submitter :: bytes
  gr_policy_id :: bytes
  gr_c_tx :: bytes
  gr_eta :: bytes
  gr_t_att :: u64
  gr_notarization :: notarize_stats
  gr_unsatisfied :: "unsatisfied option"
  gr_proof_source :: bytes
  gr_payload :: "register_payload option"
  gr_submission :: "registered_event submit_outcome option"

definition finish_register :: "register_record \<Rightarrow> register_outcome \<Rightarrow> bytes option \<Rightarrow> register_record" where
  "finish_register rec1 outcome reason = rec1\<lparr>gr_outcome := outcome, gr_reason := reason\<rparr>"

text \<open>Step (b): login, notarised session, presentation and its attested time.\<close>

definition register_session where
  "register_session w cfg =
     (case client_login (od_login w) (gc_registry cfg) (server_name (gc_layout cfg)) (gc_ca_der cfg) (gc_account cfg)
        (gc_password cfg) of
        Inl f \<Rightarrow> Some (Inl f)
      | Inr token \<Rightarrow>
          map_option (\<lambda>r. and_then r (\<lambda>(nz, stats).
            and_then (present (od_ops w) nz False) (\<lambda>presentation.
            and_then (own_t_att ''owner's'' (od_tlsn w) [gc_ca_der cfg] presentation) (\<lambda>t_att.
            Inr (nz_openings nz, presentation, t_att, stats)))))
          (notarize_with_retries (od_connect w) (od_races w)
            \<lparr>ps_layout = gc_layout cfg, ps_registry_addr = gc_registry cfg, ps_root_certs = [gc_ca_der cfg],
             ps_token = token, ps_property_id = gc_property cfg, ps_max_sent = gc_max_sent cfg,
             ps_max_recv = gc_max_recv cfg, ps_preprocess_timeout = gc_preprocess_timeout cfg\<rparr>
            (gc_max_retries cfg)))"

definition register_statement where
  "register_statement w cfg eta t_att =
     and_then (lift_res (property_id_word (gc_layout cfg) (gc_property cfg))) (\<lambda>word.
     let policy_id = policy_id_r (od_keccak w) (gc_policy cfg);
         tx = \<lparr>tx_property_id = word, tx_amount = gc_amount cfg, tx_settlement_share = gc_settlement_share cfg\<rparr> in
     Inr \<lparr>reg_c_tx = commitment (od_keccak w) (od_abi_encode w) tx policy_id (od_random_r w), reg_tx_data = tx,
          reg_policy_id = policy_id, reg_submitter = od_address w (gc_key cfg), reg_eta = eta, reg_t_att = t_att\<rparr>)"

definition register_record_of where
  "register_record_of cfg x stats =
     \<lparr>gr_outcome = Out_no_witness, gr_reason = None, gr_account = gc_account cfg, gr_property = gc_property cfg,
      gr_submitter = reg_submitter x, gr_policy_id = reg_policy_id x, gr_c_tx = reg_c_tx x, gr_eta = reg_eta x,
      gr_t_att = reg_t_att x, gr_notarization = stats, gr_unsatisfied = None, gr_proof_source = ''own'',
      gr_payload = None, gr_submission = None\<rparr>"

text \<open>Step (c): the phi_R proof, or the borrowed one; \<open>Inl\<close> ends the run.\<close>

definition register_proof where
  "register_proof w cfg rec1 public openings =
     and_then (own_proof w (gc_circuits cfg) (In_r (phi_r_input_new public openings)) (gc_out cfg)) (\<lambda>own.
     let rec2 = (case own of Inl u \<Rightarrow> rec1\<lparr>gr_unsatisfied := Some u\<rparr> | Inr _ \<Rightarrow> rec1) in
     case gc_proof_from cfg of
       Some file \<Rightarrow> and_then (borrowed_proof w file) (\<lambda>(json, source).
         Inr (Inr (rec2\<lparr>gr_proof_source := source\<rparr>, json)))
     | None \<Rightarrow> (case own of
         Inl u \<Rightarrow> Inr (Inl (finish_register rec2 Out_no_witness (Some (unsatisfied_text ''phi_R'' u))))
       | Inr json \<Rightarrow> Inr (Inr (rec2, json))))"

definition register_payload_of where
  "register_payload_of w cfg chain_id x sigma =
     \<lparr>rpl_chain_id = chain_id, rpl_contract = gc_contract cfg, rpl_submitter = reg_submitter x, rpl_c_tx = reg_c_tx x,
      rpl_property_id = tx_property_id (reg_tx_data x), rpl_amount = tx_amount (reg_tx_data x),
      rpl_settlement_share = tx_settlement_share (reg_tx_data x), rpl_policy_id = reg_policy_id x,
      rpl_r = od_random_r w, rpl_sigma = sigma, rpl_eta = reg_eta x, rpl_t_att = reg_t_att x,
      rpl_collateral = gc_collateral cfg\<rparr>"

text \<open>After step (d): the payload is written and, when asked for, submitted.\<close>

definition register_submit where
  "register_submit w cfg rec1 p =
     (case lift_lib (od_write_payload w (path_join (gc_out cfg) ''payload.json'') (Payload_r p)) of
        Inl f \<Rightarrow> ([], Inl f)
      | Inr _ \<Rightarrow>
          let rec2 = rec1\<lparr>gr_payload := Some p\<rparr> in
          if \<not> gc_submit cfg then ([], Inr (finish_register rec2 Out_signed None))
          else let (sent, r) = submit_register_tx (od_abi w) (od_node w) (gc_rpc_url cfg) (gc_key cfg) p in
            (sent, and_then r (\<lambda>outcome.
              let rec3 = rec2\<lparr>gr_submission := Some outcome\<rparr> in
              Inr (case outcome of
                  Included _ _ _ _ _ \<Rightarrow> finish_register rec3 Out_registered None
                | Reverted e \<Rightarrow> finish_register rec3 Out_reverted (Some e)))))"

text \<open>Steps (c) and (d) for the statement of a session.\<close>

definition register_after_session where
  "register_after_session w cfg chain_id x openings presentation stats =
     (let d = digest (od_eip712 w) (Register_stmt x) (domain_of chain_id (gc_contract cfg));
          public = public_of (od_sha256 w) openings (tx_property_id (reg_tx_data x)) d in
      case register_proof w cfg (register_record_of cfg x stats) public openings of
        Inl f \<Rightarrow> ([], Inl f)
      | Inr (Inl ended) \<Rightarrow> ([], Inr ended)
      | Inr (Inr (rec1, json)) \<Rightarrow>
          (case lift_res (submit_register (od_verifier w) (od_verifier_peer w) (od_serialize w) (od_deserialize w)
              (gc_verifier cfg) (register_submission_new (od_codec w) presentation (gc_property cfg) x json)) of
             Inl f \<Rightarrow> ([], Inl f)
           | Inr (Refused reason) \<Rightarrow> ([], Inr (finish_register rec1 Out_refused (Some reason)))
           | Inr (Signed sigma) \<Rightarrow> register_submit w cfg rec1 (register_payload_of w cfg chain_id x sigma)))"

definition run_register where
  "run_register w cfg =
     (case and_then (lib_ctx ''creating the output directory'' (lift_lib (od_create_dir w (gc_out cfg))))
         (\<lambda>_. chain_id_of (od_node w) (gc_rpc_url cfg)) of
        Inl f \<Rightarrow> Some ([], Inl f)
      | Inr chain_id \<Rightarrow>
          let eta = (case gc_eta cfg of Some e \<Rightarrow> e | None \<Rightarrow> od_random_eta w) in
          map_option (\<lambda>session. case session of
              Inl f \<Rightarrow> ([], Inl f)
            | Inr (openings, presentation, t_att, stats) \<Rightarrow>
                (case register_statement w cfg eta t_att of
                   Inl f \<Rightarrow> ([], Inl f)
                 | Inr x \<Rightarrow> register_after_session w cfg chain_id x openings presentation stats))
            (register_session w cfg))"

subsection \<open>Apply and Settle\<close>

record session_config =
  sc_verifier :: bytes
  sc_registry :: bytes
  sc_ca_der :: bytes
  sc_account :: bytes
  sc_password :: bytes
  sc_max_sent :: nat
  sc_max_recv :: nat
  sc_max_retries :: "32 word"
  sc_preprocess_timeout :: nat

record listing =
  li_tx_id :: u256
  li_tx_data :: tx_data
  li_r :: bytes

record 'key apply_config =
  yc_session :: session_config
  yc_layout :: record_layout
  yc_policy :: policy_bundle
  yc_rpc_url :: bytes
  yc_contract :: bytes
  yc_key :: 'key
  yc_listing :: listing
  yc_deposit :: u256
  yc_circuits :: circuit_files
  yc_out :: bytes
  yc_eta :: "bytes option"
  yc_identifier :: "bytes option"
  yc_proof_from :: "bytes option"
  yc_submit :: bool

record engagement =
  en_eng_id :: u256
  en_expires_at :: u256

record 'key settle_config =
  tc_session :: session_config
  tc_layout :: record_layout
  tc_policy :: policy_bundle
  tc_rpc_url :: bytes
  tc_contract :: bytes
  tc_key :: 'key
  tc_listing :: listing
  tc_engagement :: engagement
  tc_c_b :: bytes
  tc_identifier :: bytes
  tc_salt :: bytes
  tc_notation_id :: bytes
  tc_circuits :: circuit_files
  tc_out :: bytes
  tc_eta :: "bytes option"
  tc_proof_from :: "bytes option"
  tc_submit :: bool

datatype phase_outcome = Ph_included | Ph_signed | Ph_no_witness | Ph_refused | Ph_reverted

record ('pl, 'e) phase_record =
  ph_phase :: bytes
  ph_outcome :: phase_outcome
  ph_reason :: "bytes option"
  ph_account :: bytes
  ph_submitter :: bytes
  ph_policy_id :: bytes
  ph_eta :: bytes
  ph_t_att :: u64
  ph_public_inputs :: "bytes list"
  ph_notarization :: notarize_stats
  ph_unsatisfied :: "unsatisfied option"
  ph_proof_source :: bytes
  ph_payload :: "'pl option"
  ph_submission :: "'e submit_outcome option"

record ('att, 'sec, 'p) attested_session =
  as_notarized :: "('att, 'sec) notarized_shape"
  as_presentation :: 'p
  as_att_time :: u64
  as_stats :: notarize_stats

definition attest where
  "attest w ses sh =
     (case client_login (od_login w) (sc_registry ses) (shape_server_name sh) (sc_ca_der ses) (sc_account ses)
        (sc_password ses) of
        Inl f \<Rightarrow> Some (Inl f)
      | Inr token \<Rightarrow>
          map_option (\<lambda>r. and_then r (\<lambda>(ns, stats).
            and_then (present_shape (od_ops w) ns False) (\<lambda>presentation.
            and_then (own_t_att ''submitter's'' (od_tlsn w) [sc_ca_der ses] presentation) (\<lambda>t_att.
            Inr \<lparr>as_notarized = ns, as_presentation = presentation, as_att_time = t_att, as_stats = stats\<rparr>))))
          (notarize_shape_with_retries (od_connect w) (od_races w)
            \<lparr>su_shape = sh, su_registry_addr = sc_registry ses, su_root_certs = [sc_ca_der ses], su_token = token,
             su_max_sent = sc_max_sent ses, su_max_recv = sc_max_recv ses,
             su_preprocess_timeout = sc_preprocess_timeout ses, su_eth_attestation = False\<rparr>
            (sc_max_retries ses)))"

text \<open>The record as the step leaves it, and the proof to submit, if any.\<close>

definition prove_or_borrow where
  "prove_or_borrow w files input out proof_from predicate rec1 =
     and_then (own_proof w files input out) (\<lambda>own.
     let rec2 = (case own of
           Inl u \<Rightarrow> rec1\<lparr>ph_unsatisfied := Some u, ph_reason := Some (unsatisfied_text predicate u)\<rparr>
         | Inr _ \<Rightarrow> rec1) in
     case proof_from of
       Some file \<Rightarrow> and_then (borrowed_proof w file) (\<lambda>(json, source). Inr (rec2\<lparr>ph_proof_source := source\<rparr>, Some json))
     | None \<Rightarrow> Inr (rec2, case own of Inl _ \<Rightarrow> None | Inr json \<Rightarrow> Some json))"

definition sign_step where
  "sign_step w verifier sub rec1 =
     and_then (lift_res (submit (od_verifier w) (od_verifier_peer w) (od_serialize w) (od_deserialize w) verifier sub)) (\<lambda>rep.
     case rep of
       Refused reason \<Rightarrow> Inr (rec1\<lparr>ph_outcome := Ph_refused, ph_reason := Some reason\<rparr>, None)
     | Signed sigma \<Rightarrow> Inr (rec1, Some sigma))"

definition finish_phase where
  "finish_phase rec1 outcome = rec1\<lparr>ph_outcome := outcome\<rparr>"

text \<open>\<open>salt[0] &= 0x1f\<close> on 32 random bytes.\<close>

definition fresh_salt :: "bytes \<Rightarrow> bytes" where
  "fresh_salt raw = char_of (byte_val (hd raw) mod 32) # tl raw"

text \<open>From the payload to the end of a run; \<open>go\<close> submits the payload's transaction.\<close>

definition phase_submit where
  "phase_submit w out pl send_it go rec1 p =
     (case lift_lib (od_write_payload w (path_join out ''payload.json'') (pl p)) of
        Inl f \<Rightarrow> ([], Inl f)
      | Inr _ \<Rightarrow>
          let rec2 = rec1\<lparr>ph_payload := Some p\<rparr> in
          if \<not> send_it then ([], Inr (finish_phase rec2 Ph_signed))
          else let (sent, r) = go p in
            (sent, and_then r (\<lambda>outcome.
              Inr (case outcome of
                  Included _ _ _ _ _ \<Rightarrow> finish_phase (rec2\<lparr>ph_submission := Some outcome\<rparr>) Ph_included
                | Reverted e \<Rightarrow> finish_phase (rec2\<lparr>ph_reason := Some e, ph_submission := Some outcome\<rparr>) Ph_reverted))))"

text \<open>Steps (c) and (d): prove or borrow, have the statement signed, and go on with the payload.\<close>

definition phase_prove_sign where
  "phase_prove_sign w files input out proof_from predicate verifier sub rec1 k =
     (case prove_or_borrow w files input out proof_from predicate rec1 of
        Inl f \<Rightarrow> ([], Inl f)
      | Inr (rec2, None) \<Rightarrow> ([], Inr (finish_phase rec2 Ph_no_witness))
      | Inr (rec2, Some json) \<Rightarrow>
          (case sign_step w verifier (sub json) rec2 of
             Inl f \<Rightarrow> ([], Inl f)
           | Inr (rec3, None) \<Rightarrow> ([], Inr (finish_phase rec3 Ph_refused))
           | Inr (rec3, Some sigma) \<Rightarrow> k rec3 sigma))"

definition new_phase_record where
  "new_phase_record phase acct submitter policy_id eta t_att inputs stats =
     \<lparr>ph_phase = phase, ph_outcome = Ph_no_witness, ph_reason = None, ph_account = acct, ph_submitter = submitter,
      ph_policy_id = policy_id, ph_eta = eta, ph_t_att = t_att, ph_public_inputs = inputs, ph_notarization = stats,
      ph_unsatisfied = None, ph_proof_source = ''own'', ph_payload = None, ph_submission = None\<rparr>"

subsubsection \<open>Apply\<close>

definition apply_statement where
  "apply_statement w cfg c_b eta t_att =
     (let li = yc_listing cfg in
      \<lparr>app_tx_id = li_tx_id li,
       app_c_tx = commitment (od_keccak w) (od_abi_encode w) (li_tx_data li) (policy_id_r (od_keccak w) (yc_policy cfg)) (li_r li),
       app_tx_data = li_tx_data li, app_c_b = c_b, app_policy_id = policy_id_a (od_keccak w) (yc_policy cfg),
       app_submitter = od_address w (yc_key cfg), app_eta = eta, app_t_att = t_att\<rparr>)"

definition apply_payload_of where
  "apply_payload_of cfg chain_id x sigma identifier salt =
     \<lparr>apl_chain_id = chain_id, apl_contract = yc_contract cfg, apl_submitter = app_submitter x, apl_tx_id = app_tx_id x,
      apl_property_id = tx_property_id (app_tx_data x), apl_amount = tx_amount (app_tx_data x),
      apl_settlement_share = tx_settlement_share (app_tx_data x), apl_r = li_r (yc_listing cfg), apl_c_b = app_c_b x,
      apl_sigma = sigma, apl_eta = app_eta x, apl_t_att = app_t_att x, apl_deposit = yc_deposit cfg,
      apl_identifier = identifier, apl_salt = salt\<rparr>"

definition apply_after_session where
  "apply_after_session w cfg chain_id eta salt ses =
     (let openings = ns_openings (as_notarized ses) in
      case and_then (lift_res (pad (yc_layout cfg) (case yc_identifier cfg of Some i \<Rightarrow> i | None \<Rightarrow> sc_account (yc_session cfg))
             (account_width (yc_layout cfg)))) (\<lambda>identifier.
           and_then (lift_res (counterparty_commitment BN254_R (od_poseidon w) identifier salt)) (\<lambda>c_b.
           let x = apply_statement w cfg c_b eta (as_att_time ses);
               d = digest (od_eip712 w) (Apply_stmt x) (domain_of chain_id (yc_contract cfg)) in
           case openings of
             [oa, oi] \<Rightarrow>
               and_then (lift_res (phi_a_new (opening_commitment (od_sha256 w) oa) (opening_commitment (od_sha256 w) oi) c_b
                 (tx_amount (app_tx_data x)) d)) (\<lambda>public.
               and_then (lift_res (phi_a_input_new public openings salt)) (\<lambda>input.
               Inr (identifier, x, public, input)))
           | _ \<Rightarrow> fails ''the eligibility layout has two hidden fields'')) of
        Inl f \<Rightarrow> ([], Inl f)
      | Inr (identifier, x, public, input) \<Rightarrow>
          phase_prove_sign w (yc_circuits cfg) (In_a input) (yc_out cfg) (yc_proof_from cfg) ''phi_A'' (sc_verifier (yc_session cfg))
            (\<lambda>json. Sub_apply (apply_submission_new (od_codec w) (as_presentation ses) x json))
            (new_phase_record ''apply'' (sc_account (yc_session cfg)) (app_submitter x) (app_policy_id x) eta (as_att_time ses)
              (phi_a_inputs public) (as_stats ses))
            (\<lambda>rec1 sigma. phase_submit w (yc_out cfg) Payload_a (yc_submit cfg)
              (submit_apply_tx (od_abi w) (od_node w) (yc_rpc_url cfg) (yc_key cfg)) rec1
              (apply_payload_of cfg chain_id x sigma identifier salt)))"

definition run_apply where
  "run_apply w cfg =
     (case and_then (lib_ctx ''creating the output directory'' (lift_lib (od_create_dir w (yc_out cfg)))) (\<lambda>_.
           and_then (chain_id_of (od_node w) (yc_rpc_url cfg)) (\<lambda>chain_id.
           and_then (lift_res (record_shape (yc_layout cfg) [])) (\<lambda>sh. Inr (chain_id, sh)))) of
        Inl f \<Rightarrow> Some ([], Inl f)
      | Inr (chain_id, sh) \<Rightarrow>
          let eta = (case yc_eta cfg of Some e \<Rightarrow> e | None \<Rightarrow> od_random_eta w); salt = fresh_salt (od_random_salt w) in
          map_option (\<lambda>session. case session of
              Inl f \<Rightarrow> ([], Inl f)
            | Inr ses \<Rightarrow> apply_after_session w cfg chain_id eta salt ses)
            (attest w (yc_session cfg) sh))"

subsubsection \<open>Settle\<close>

definition settle_statement where
  "settle_statement w cfg eta t_att =
     (let li = tc_listing cfg in
      \<lparr>set_eng_id = en_eng_id (tc_engagement cfg), set_tx_id = li_tx_id li,
       set_c_tx = commitment (od_keccak w) (od_abi_encode w) (li_tx_data li) (policy_id_r (od_keccak w) (tc_policy cfg)) (li_r li),
       set_tx_data = li_tx_data li, set_c_b = tc_c_b cfg, set_expires_at = en_expires_at (tc_engagement cfg),
       set_policy_id = policy_id_s (od_keccak w) (tc_policy cfg), set_submitter = od_address w (tc_key cfg),
       set_eta = eta, set_t_att = t_att\<rparr>)"

definition settle_payload_of where
  "settle_payload_of cfg chain_id x sigma =
     \<lparr>spl_chain_id = chain_id, spl_contract = tc_contract cfg, spl_submitter = set_submitter x, spl_eng_id = set_eng_id x,
      spl_property_id = tx_property_id (set_tx_data x), spl_amount = tx_amount (set_tx_data x),
      spl_settlement_share = tx_settlement_share (set_tx_data x), spl_r = li_r (tc_listing cfg), spl_sigma = sigma,
      spl_eta = set_eta x, spl_t_att = set_t_att x\<rparr>"

definition settle_after_session where
  "settle_after_session w cfg chain_id eta edy ses =
     (let x = settle_statement w cfg eta (as_att_time ses);
          d = digest (od_eip712 w) (Settle_stmt x) (domain_of chain_id (tc_contract cfg));
          openings = ns_openings (as_notarized ses) in
      case (case openings of
             [_, op, ot, od] \<Rightarrow>
               and_then (lift_res (phi_s_new (opening_commitment (od_sha256 w) op, opening_commitment (od_sha256 w) ot,
                 opening_commitment (od_sha256 w) od) (tx_property_id (set_tx_data x)) (tc_c_b cfg) edy d)) (\<lambda>public.
               and_then (lift_res (counterparty_commitment BN254_R (od_poseidon w) (tc_identifier cfg) (tc_salt cfg))) (\<lambda>c.
               require (c = tc_c_b cfg) ''the opening does not open c_B'' (
               and_then (lift_res (phi_s_input_new public openings (tc_salt cfg))) (\<lambda>input. Inr (public, input)))))
           | _ \<Rightarrow> fails ''the tenancy layout has four hidden fields'') of
        Inl f \<Rightarrow> ([], Inl f)
      | Inr (public, input) \<Rightarrow>
          phase_prove_sign w (tc_circuits cfg) (In_s input) (tc_out cfg) (tc_proof_from cfg) ''phi_S'' (sc_verifier (tc_session cfg))
            (\<lambda>json. Sub_settle (settle_submission_new (od_codec w) (as_presentation ses) (tc_notation_id cfg) x json))
            (new_phase_record ''settle'' (sc_account (tc_session cfg)) (set_submitter x) (set_policy_id x) eta (as_att_time ses)
              (phi_s_inputs public) (as_stats ses))
            (\<lambda>rec1 sigma. phase_submit w (tc_out cfg) Payload_s (tc_submit cfg)
              (submit_settle_tx (od_abi w) (od_node w) (tc_rpc_url cfg) (tc_key cfg)) rec1
              (settle_payload_of cfg chain_id x sigma)))"

text \<open>The set-up of Settle, up to the session: the engagement day as the policy verifier derives it.\<close>

definition settle_setup where
  "settle_setup w cfg =
     and_then (lib_ctx ''creating the output directory'' (lift_lib (od_create_dir w (tc_out cfg)))) (\<lambda>_.
     and_then (chain_id_of (od_node w) (tc_rpc_url cfg)) (\<lambda>chain_id.
     and_then (some_or_fail ''the policy has no settle source'' (bundle_settle (tc_policy cfg))) (\<lambda>src.
     and_then (tau_lock_of (od_abi w) (od_node w) (tc_rpc_url cfg) (tc_contract cfg)) (\<lambda>tau_lock.
     and_then (some_or_fail ''expiresAt exceeds 64 bits'' (u64_of (en_expires_at (tc_engagement cfg)))) (\<lambda>expires_at.
     and_then (lift_res (engagement_day expires_at tau_lock (utc_offset_secs src))) (\<lambda>edy.
     and_then (lift_res (record_shape (tc_layout cfg) (tc_notation_id cfg))) (\<lambda>sh.
     Inr (chain_id, nat edy, sh))))))))"

definition run_settle where
  "run_settle w cfg =
     (case settle_setup w cfg of
        Inl f \<Rightarrow> Some ([], Inl f)
      | Inr (chain_id, edy, sh) \<Rightarrow>
          let eta = (case tc_eta cfg of Some e \<Rightarrow> e | None \<Rightarrow> od_random_eta w) in
          map_option (\<lambda>session. case session of
              Inl f \<Rightarrow> ([], Inl f)
            | Inr ses \<Rightarrow> settle_after_session w cfg chain_id eta edy ses)
            (attest w (tc_session cfg) sh))"

end
