(* ===== verification/Phase_Transactions.thy ===== *)
theory Phase_Transactions
  imports Prover_Phases
begin

section \<open>The transactions of the submitter's phases\<close>

text \<open>
  What a run of Register, Apply or Settle (\<open>Prover_Phases\<close>) hands to the node, against the statement that the
  contract rebuilds from the call. A run sends at most one transaction, and its record's outcome tells whether
  and how. The salts that Apply draws lie in the scalar field.
\<close>

subsection \<open>What a run hands to the node\<close>

text \<open>The statements that the contract rebuilds from a call (\<open>PPREV.sol\<close>), with the caller as the submitter; for
  Apply and Settle the rest comes from the records of the listing and the engagement.\<close>

definition rebuilt_register :: "bytes \<Rightarrow> pprev_call \<Rightarrow> register_stmt option" where
  "rebuilt_register sender call =
     (case call of
        Register_call c_tx tx policy_id r sigma eta t_att \<Rightarrow> Some
          \<lparr>reg_c_tx = c_tx, reg_tx_data = tx, reg_policy_id = policy_id, reg_submitter = sender, reg_eta = eta,
           reg_t_att = t_att\<rparr>
      | _ \<Rightarrow> None)"

definition rebuilt_apply :: "bytes \<Rightarrow> bytes \<Rightarrow> bytes \<Rightarrow> pprev_call \<Rightarrow> apply_stmt option" where
  "rebuilt_apply sender c_tx policy_id_of call =
     (case call of
        Apply_for_call tx_id tx r c_b sigma eta t_att \<Rightarrow> Some
          \<lparr>app_tx_id = tx_id, app_c_tx = c_tx, app_tx_data = tx, app_c_b = c_b, app_policy_id = policy_id_of,
           app_submitter = sender, app_eta = eta, app_t_att = t_att\<rparr>
      | _ \<Rightarrow> None)"

definition rebuilt_settle ::
    "bytes \<Rightarrow> u256 \<Rightarrow> bytes \<Rightarrow> bytes \<Rightarrow> u256 \<Rightarrow> bytes \<Rightarrow> pprev_call \<Rightarrow> settle_stmt option" where
  "rebuilt_settle sender tx_id c_tx c_b expires_at policy_id_of call =
     (case call of
        Settle_call eng_id tx r sigma eta t_att \<Rightarrow> Some
          \<lparr>set_eng_id = eng_id, set_tx_id = tx_id, set_c_tx = c_tx, set_tx_data = tx, set_c_b = c_b,
           set_expires_at = expires_at, set_policy_id = policy_id_of, set_submitter = sender, set_eta = eta,
           set_t_att = t_att\<rparr>
      | _ \<Rightarrow> None)"

lemma send_tx_cases:
  assumes "send_tx abi node url sk chain_id contract amount calldata = (sent, r)"
  shows "(sent = [] \<and> (\<exists>f. r = Inl f)) \<or>
    (sent = [\<lparr>tr_to = contract, tr_value = amount, tr_input = calldata\<rparr>] \<and> cn_chain_id node = Inr chain_id)"
proof (cases "and_then (lib_ctx ''RPC URL'' (lift_lib (cn_url node url))) (\<lambda>_. lift_lib (cn_chain_id node))")
  case (Inl f)
  then show ?thesis using assms by (auto simp: send_tx_def)
next
  case (Inr n)
  then have "cn_chain_id node = Inr n" by (auto simp: and_then_Inr_iff)
  then show ?thesis using assms Inr by (auto simp: send_tx_def fails_def Let_def split: if_splits)
qed

lemma submit_phase_cases:
  assumes "submit_phase abi node url sk chain_id contract amount calldata into_event name = (sent, r)"
  shows "(sent = [] \<and> (\<exists>f. r = Inl f)) \<or>
    (sent = [\<lparr>tr_to = contract, tr_value = amount, tr_input = calldata\<rparr>] \<and> cn_chain_id node = Inr chain_id)"
  using assms send_tx_cases
  by (cases "send_tx abi node url sk chain_id contract amount calldata") (fastforce simp: submit_phase_def)

text \<open>What the record of a finished run says about it.\<close>

definition register_record_ok where
  "register_record_ok cfg sent rec1 \<longleftrightarrow>
     (case gr_outcome rec1 of
        Out_no_witness \<Rightarrow> sent = [] \<and> gr_payload rec1 = None \<and> gr_submission rec1 = None \<and>
          gr_proof_source rec1 = ''own'' \<and> gc_proof_from cfg = None \<and>
          (\<exists>u. gr_unsatisfied rec1 = Some u \<and> gr_reason rec1 = Some (unsatisfied_text ''phi_R'' u))
      | Out_refused \<Rightarrow> sent = [] \<and> gr_payload rec1 = None \<and> gr_submission rec1 = None \<and> gr_reason rec1 \<noteq> None
      | Out_signed \<Rightarrow> sent = [] \<and> \<not> gc_submit cfg \<and> gr_payload rec1 \<noteq> None \<and> gr_submission rec1 = None \<and> gr_reason rec1 = None
      | Out_registered \<Rightarrow> length sent = 1 \<and> gc_submit cfg \<and> gr_payload rec1 \<noteq> None \<and> gr_reason rec1 = None \<and>
          (\<exists>h n t g e. gr_submission rec1 = Some (Included h n t g e))
      | Out_reverted \<Rightarrow> length sent = 1 \<and> gc_submit cfg \<and> gr_payload rec1 \<noteq> None \<and>
          (\<exists>e. gr_submission rec1 = Some (Reverted e) \<and> gr_reason rec1 = Some e))"

lemma register_submit_ok:
  assumes "register_submit w cfg rec1 p = (sent, r)" and "gr_submission rec1 = None"
  shows "(case r of Inl _ \<Rightarrow> True | Inr rec2 \<Rightarrow> register_record_ok cfg sent rec2) \<and>
    (sent \<noteq> [] \<longrightarrow> gc_submit cfg \<and> cn_chain_id (od_node w) = Inr (rpl_chain_id p) \<and>
       sent = [\<lparr>tr_to = rpl_contract p, tr_value = rpl_collateral p, tr_input = register_calldata (od_abi w) p\<rparr>])"
proof (cases "lift_lib (od_write_payload w (path_join (gc_out cfg) ''payload.json'') (Payload_r p)) = Inr () \<and> gc_submit cfg")
  case False
  then show ?thesis using assms
    by (auto simp: register_submit_def register_record_ok_def finish_register_def split: sum.splits if_splits)
next
  case True
  obtain sent' r' where st: "submit_register_tx (od_abi w) (od_node w) (gc_rpc_url cfg) (gc_key cfg) p = (sent', r')"
    by fastforce
  note c = submit_phase_cases [OF st [unfolded submit_register_tx_def]]
  show ?thesis using assms(1) True st c
    by (cases r') (auto simp: register_submit_def register_record_ok_def finish_register_def Let_def
      split: submit_outcome.splits)
qed

lemma register_proof_cases:
  assumes "register_proof w cfg rec1 public openings = Inr y"
  shows "case y of
      Inl ended \<Rightarrow> gc_proof_from cfg = None \<and>
        (\<exists>u. ended = finish_register (rec1\<lparr>gr_unsatisfied := Some u\<rparr>) Out_no_witness (Some (unsatisfied_text ''phi_R'' u)))
    | Inr (rec2, json) \<Rightarrow> gr_submission rec2 = gr_submission rec1 \<and> gr_payload rec2 = gr_payload rec1"
  using assms
  by (auto simp: register_proof_def and_then_Inr_iff Let_def split: sum.splits option.splits)

lemma register_after_session_ok:
  assumes "register_after_session w cfg chain_id x openings presentation stats = (sent, r)"
  shows "(case r of Inl _ \<Rightarrow> True | Inr rec2 \<Rightarrow> register_record_ok cfg sent rec2) \<and>
    (sent \<noteq> [] \<longrightarrow> gc_submit cfg \<and> cn_chain_id (od_node w) = Inr chain_id \<and>
       (\<exists>json sigma.
          submit_register (od_verifier w) (od_verifier_peer w) (od_serialize w) (od_deserialize w) (gc_verifier cfg)
            (register_submission_new (od_codec w) presentation (gc_property cfg) x json) = Inr (Signed sigma) \<and>
          sent = [\<lparr>tr_to = gc_contract cfg, tr_value = gc_collateral cfg,
            tr_input = register_calldata (od_abi w) (register_payload_of w cfg chain_id x sigma)\<rparr>]))"
proof -
  let ?public = "public_of (od_sha256 w) openings (tx_property_id (reg_tx_data x))
    (digest (od_eip712 w) (Register_stmt x) (domain_of chain_id (gc_contract cfg)))"
  let ?proof = "register_proof w cfg (register_record_of cfg x stats) ?public openings"
  let ?reply = "\<lambda>json. submit_register (od_verifier w) (od_verifier_peer w) (od_serialize w) (od_deserialize w)
    (gc_verifier cfg) (register_submission_new (od_codec w) presentation (gc_property cfg) x json)"
  have start: "gr_submission (register_record_of cfg x stats) = None" "gr_payload (register_record_of cfg x stats) = None"
    "gr_proof_source (register_record_of cfg x stats) = ''own''" by (simp_all add: register_record_of_def)
  note after = assms [unfolded register_after_session_def Let_def]
  consider (failed) f where "?proof = Inl f"
    | (ended) rec1 where "?proof = Inr (Inl rec1)"
    | (lost) rec1 json f where "?proof = Inr (Inr (rec1, json))" "lift_res (?reply json) = Inl f"
    | (refused) rec1 json m where "?proof = Inr (Inr (rec1, json))" "lift_res (?reply json) = Inr (Refused m)"
    | (signed) rec1 json sigma where "?proof = Inr (Inr (rec1, json))" "lift_res (?reply json) = Inr (Signed sigma)"
    by (metis reply.exhaust sum.exhaust surj_pair)
  then show ?thesis
  proof cases
    case failed
    then show ?thesis using after by auto
  next
    case ended
    with register_proof_cases [OF ended] start after show ?thesis
      by (auto simp: finish_register_def register_record_ok_def)
  next
    case lost
    then show ?thesis using after by auto
  next
    case refused
    with register_proof_cases [OF refused(1)] start after show ?thesis
      by (auto simp: finish_register_def register_record_ok_def)
  next
    case signed
    have sub: "register_submit w cfg rec1 (register_payload_of w cfg chain_id x sigma) = (sent, r)"
      using after signed by simp
    have "gr_submission rec1 = None" using register_proof_cases [OF signed(1)] start by simp
    from register_submit_ok [OF sub this] signed(2) show ?thesis
      by (auto simp: register_payload_of_def)
  qed
qed

text \<open>C14: A run of Register hands at most one transaction to the node, and only when it was asked to: a call of the
  contract on the payload's chain with the signature that the policy verifier returned for exactly the
  statement that the contract rebuilds from the call and the caller. That statement names the property asked
  for, commits to its txData and carries the time that the submitter's own presentation attests. The record's
  outcome tells which of this happened.\<close>

theorem register_sends_what_was_signed:
  assumes "run_register w cfg = Some (sent, r)"
  shows "(case r of Inl _ \<Rightarrow> True | Inr rec1 \<Rightarrow> register_record_ok cfg sent rec1) \<and>
    (sent \<noteq> [] \<longrightarrow> gc_submit cfg \<and>
      (\<exists>x c presentation json sigma chain_id.
        cn_chain_id (od_node w) = Inr chain_id \<and>
        sent = [\<lparr>tr_to = gc_contract cfg, tr_value = gc_collateral cfg, tr_input = ac_encode (od_abi w) c\<rparr>] \<and>
        rebuilt_register (od_address w (gc_key cfg)) c = Some x \<and>
        submit_register (od_verifier w) (od_verifier_peer w) (od_serialize w) (od_deserialize w) (gc_verifier cfg)
          (register_submission_new (od_codec w) presentation (gc_property cfg) x json) = Inr (Signed sigma) \<and>
        c = Register_call (reg_c_tx x) (reg_tx_data x) (reg_policy_id x) (od_random_r w) sigma (reg_eta x) (reg_t_att x) \<and>
        reg_c_tx x = commitment (od_keccak w) (od_abi_encode w) (reg_tx_data x) (reg_policy_id x) (od_random_r w) \<and>
        property_id_word (gc_layout cfg) (gc_property cfg) = Inr (tx_property_id (reg_tx_data x)) \<and>
        own_t_att ''owner's'' (od_tlsn w) [gc_ca_der cfg] presentation = Inr (reg_t_att x)))"
proof -
  note run = assms [unfolded run_register_def Let_def]
  show ?thesis
  proof (cases "and_then (lib_ctx ''creating the output directory'' (lift_lib (od_create_dir w (gc_out cfg))))
      (\<lambda>_. chain_id_of (od_node w) (gc_rpc_url cfg))")
    case (Inl f)
    then show ?thesis using run by auto
  next
    case (Inr chain_id)
    let ?eta = "case gc_eta cfg of Some e \<Rightarrow> e | None \<Rightarrow> od_random_eta w"
    from run Inr obtain ses where ses: "register_session w cfg = Some ses"
      and body: "(case ses of
          Inl f \<Rightarrow> ([], Inl f)
        | Inr (openings, presentation, t_att, stats) \<Rightarrow>
            (case register_statement w cfg ?eta t_att of
               Inl f \<Rightarrow> ([], Inl f)
             | Inr x \<Rightarrow> register_after_session w cfg chain_id x openings presentation stats)) = (sent, r)"
      by auto
    show ?thesis
    proof (cases "\<exists>openings presentation t_att stats x. ses = Inr (openings, presentation, t_att, stats) \<and>
        register_statement w cfg ?eta t_att = Inr x")
      case False
      then have "sent = [] \<and> (\<exists>f. r = Inl f)" using body by (auto split: sum.splits prod.splits)
      then show ?thesis by auto
    next
      case True
      then obtain openings presentation t_att stats x where s: "ses = Inr (openings, presentation, t_att, stats)"
        and x: "register_statement w cfg ?eta t_att = Inr x" by blast
      have own: "own_t_att ''owner's'' (od_tlsn w) [gc_ca_der cfg] presentation = Inr t_att"
        using ses s by (auto simp: register_session_def and_then_Inr_iff split: sum.splits)
      have xf: "reg_submitter x = od_address w (gc_key cfg)" "reg_t_att x = t_att"
        "property_id_word (gc_layout cfg) (gc_property cfg) = Inr (tx_property_id (reg_tx_data x))"
        "reg_c_tx x = commitment (od_keccak w) (od_abi_encode w) (reg_tx_data x) (reg_policy_id x) (od_random_r w)"
        using x by (auto simp: register_statement_def and_then_Inr_iff Let_def)
      have "register_after_session w cfg chain_id x openings presentation stats = (sent, r)" using body s x by simp
      note ok = register_after_session_ok [OF this]
      have cd: "register_calldata (od_abi w) (register_payload_of w cfg chain_id x sigma) =
          ac_encode (od_abi w) (Register_call (reg_c_tx x) (reg_tx_data x) (reg_policy_id x) (od_random_r w) sigma (reg_eta x) (reg_t_att x))"
        for sigma by (cases "reg_tx_data x") (simp add: register_calldata_def register_payload_of_def)
      have rb: "rebuilt_register (od_address w (gc_key cfg))
          (Register_call (reg_c_tx x) (reg_tx_data x) (reg_policy_id x) (od_random_r w) sigma (reg_eta x) (reg_t_att x)) = Some x"
        for sigma using xf(1) by (simp add: rebuilt_register_def)
      from ok show ?thesis using own xf(2-4) rb unfolding cd by blast
    qed
  qed
qed

subsection \<open>Apply and Settle alike\<close>

definition phase_record_ok where
  "phase_record_ok send_it proof_from sent rec1 \<longleftrightarrow>
     (case ph_outcome rec1 of
        Ph_no_witness \<Rightarrow> sent = [] \<and> ph_payload rec1 = None \<and> ph_submission rec1 = None \<and> proof_from = None \<and>
          ph_unsatisfied rec1 \<noteq> None \<and> ph_reason rec1 \<noteq> None
      | Ph_refused \<Rightarrow> sent = [] \<and> ph_payload rec1 = None \<and> ph_submission rec1 = None \<and> ph_reason rec1 \<noteq> None
      | Ph_signed \<Rightarrow> sent = [] \<and> \<not> send_it \<and> ph_payload rec1 \<noteq> None \<and> ph_submission rec1 = None
      | Ph_included \<Rightarrow> length sent = 1 \<and> send_it \<and> ph_payload rec1 \<noteq> None \<and>
          (\<exists>h n t g e. ph_submission rec1 = Some (Included h n t g e))
      | Ph_reverted \<Rightarrow> length sent = 1 \<and> send_it \<and> ph_payload rec1 \<noteq> None \<and>
          (\<exists>e. ph_submission rec1 = Some (Reverted e) \<and> ph_reason rec1 = Some e))"

definition sends_only where
  "sends_only node go chain_id tx \<longleftrightarrow>
     (\<forall>sent r. go = (sent, r) \<longrightarrow> (sent = [] \<and> (\<exists>f. r = Inl f)) \<or> (sent = [tx] \<and> cn_chain_id node = Inr chain_id))"

lemma phase_submit_ok:
  assumes "phase_submit w out pl send_it go rec1 p = (sent, r)" and "ph_submission rec1 = None"
    and only: "sends_only (od_node w) (go p) chain_id tx"
  shows "(case r of Inl _ \<Rightarrow> True | Inr rec2 \<Rightarrow> phase_record_ok send_it proof_from sent rec2) \<and>
    (sent \<noteq> [] \<longrightarrow> send_it \<and> cn_chain_id (od_node w) = Inr chain_id \<and> sent = [tx])"
proof (cases "lift_lib (od_write_payload w (path_join out ''payload.json'') (pl p)) = Inr () \<and> send_it")
  case False
  then show ?thesis using assms(1,2)
    by (auto simp: phase_submit_def phase_record_ok_def finish_phase_def split: sum.splits if_splits)
next
  case True
  obtain sent' r' where st: "go p = (sent', r')" by fastforce
  have c: "(sent' = [] \<and> (\<exists>f. r' = Inl f)) \<or> (sent' = [tx] \<and> cn_chain_id (od_node w) = Inr chain_id)"
    using only st by (simp add: sends_only_def)
  show ?thesis using assms(1) True st c
    by (cases r') (auto simp: phase_submit_def phase_record_ok_def finish_phase_def Let_def
      split: submit_outcome.splits)
qed

lemma prove_or_borrow_cases:
  assumes "prove_or_borrow w files input out proof_from predicate rec1 = Inr (rec2, prf)"
  shows "ph_submission rec2 = ph_submission rec1 \<and> ph_payload rec2 = ph_payload rec1 \<and>
    (prf = None \<longrightarrow> proof_from = None \<and> ph_unsatisfied rec2 \<noteq> None \<and> ph_reason rec2 \<noteq> None)"
  using assms
  by (auto simp: prove_or_borrow_def and_then_Inr_iff Let_def split: sum.splits option.splits)

lemma sign_step_cases:
  assumes "sign_step w verifier sub rec1 = Inr (rec2, sg)"
  shows "(\<exists>m. sg = None \<and> rec2 = rec1\<lparr>ph_outcome := Ph_refused, ph_reason := Some m\<rparr>) \<or>
    (\<exists>sigma. sg = Some sigma \<and> rec2 = rec1 \<and>
       submit (od_verifier w) (od_verifier_peer w) (od_serialize w) (od_deserialize w) verifier sub = Inr (Signed sigma))"
proof -
  let ?r = "submit (od_verifier w) (od_verifier_peer w) (od_serialize w) (od_deserialize w) verifier sub"
  from assms obtain rep where "?r = Inr rep"
    and "(case rep of Refused reason \<Rightarrow> Inr (rec1\<lparr>ph_outcome := Ph_refused, ph_reason := Some reason\<rparr>, None)
      | Signed sigma \<Rightarrow> Inr (rec1, Some sigma)) = (Inr (rec2, sg) :: _ run)"
    by (auto simp: sign_step_def and_then_Inr_iff)
  then show ?thesis by (cases rep) auto
qed

lemma phase_prove_sign_ok:
  assumes "phase_prove_sign w files input out proof_from predicate verifier sub rec1
      (\<lambda>rec2 sigma. phase_submit w out pl send_it go rec2 (mk sigma)) = (sent, r)"
    and start: "ph_submission rec1 = None" "ph_payload rec1 = None"
    and only: "\<And>sigma. sends_only (od_node w) (go (mk sigma)) chain_id (tx sigma)"
  shows "(case r of Inl _ \<Rightarrow> True | Inr rec2 \<Rightarrow> phase_record_ok send_it proof_from sent rec2) \<and>
    (sent \<noteq> [] \<longrightarrow> send_it \<and> cn_chain_id (od_node w) = Inr chain_id \<and>
       (\<exists>json sigma. submit (od_verifier w) (od_verifier_peer w) (od_serialize w) (od_deserialize w) verifier (sub json) = Inr (Signed sigma) \<and>
          sent = [tx sigma]))"
proof -
  let ?proof = "prove_or_borrow w files input out proof_from predicate rec1"
  note after = assms(1) [unfolded phase_prove_sign_def]
  consider (failed) f where "?proof = Inl f"
    | (ended) rec2 where "?proof = Inr (rec2, None)"
    | (lost) rec2 json f where "?proof = Inr (rec2, Some json)" "sign_step w verifier (sub json) rec2 = Inl f"
    | (refused) rec2 rec3 json where "?proof = Inr (rec2, Some json)" "sign_step w verifier (sub json) rec2 = Inr (rec3, None)"
    | (signed) rec2 rec3 json sigma where "?proof = Inr (rec2, Some json)"
        "sign_step w verifier (sub json) rec2 = Inr (rec3, Some sigma)"
    by (metis option.exhaust sum.exhaust surj_pair)
  then show ?thesis
  proof cases
    case failed
    then show ?thesis using after by auto
  next
    case ended
    with prove_or_borrow_cases [OF ended] start after show ?thesis
      by (auto simp: finish_phase_def phase_record_ok_def)
  next
    case lost
    then show ?thesis using after by auto
  next
    case refused
    obtain m where "rec3 = rec2\<lparr>ph_outcome := Ph_refused, ph_reason := Some m\<rparr>"
      using sign_step_cases [OF refused(2)] by auto
    moreover have "sent = [] \<and> r = Inr (finish_phase rec3 Ph_refused)" using after refused by simp
    ultimately show ?thesis using prove_or_borrow_cases [OF refused(1)] start
      by (simp add: phase_record_ok_def finish_phase_def)
  next
    case signed
    have sub: "phase_submit w out pl send_it go rec3 (mk sigma) = (sent, r)" using after signed by simp
    have "ph_submission rec3 = None"
      and rep: "submit (od_verifier w) (od_verifier_peer w) (od_serialize w) (od_deserialize w) verifier (sub json) = Inr (Signed sigma)"
      using prove_or_borrow_cases [OF signed(1)] sign_step_cases [OF signed(2)] start by auto
    from phase_submit_ok [OF sub this(1) only] rep show ?thesis by blast
  qed
qed

lemma sends_only_apply:
  "sends_only node (submit_apply_tx abi node url sk p) (apl_chain_id p)
     \<lparr>tr_to = apl_contract p, tr_value = apl_deposit p, tr_input = apply_calldata abi p\<rparr>"
  unfolding sends_only_def submit_apply_tx_def by (intro allI impI) (rule submit_phase_cases)

lemma sends_only_settle:
  "sends_only node (submit_settle_tx abi node url sk p) (spl_chain_id p)
     \<lparr>tr_to = spl_contract p, tr_value = 0, tr_input = settle_calldata abi p\<rparr>"
  unfolding sends_only_def submit_settle_tx_def by (intro allI impI) (rule submit_phase_cases)


lemma two_openings_iff:
  "(case xs of [] \<Rightarrow> fails m | [a] \<Rightarrow> fails m | [a, b] \<Rightarrow> f a b | a # b # c # ys \<Rightarrow> fails m) = Inr y \<longleftrightarrow>
    (\<exists>a b. xs = [a, b] \<and> f a b = Inr y)"
  by (auto simp: fails_def split: list.split)

lemma four_openings_iff:
  "(case xs of [] \<Rightarrow> fails m | [a] \<Rightarrow> fails m | [a, b] \<Rightarrow> fails m | [a, b, c] \<Rightarrow> fails m | [a, b, c, d] \<Rightarrow> f a b c d
      | a # b # c # d # e # ys \<Rightarrow> fails m) = Inr y \<longleftrightarrow>
    (\<exists>a b c d. xs = [a, b, c, d] \<and> f a b c d = Inr y)"
  by (auto simp: fails_def split: list.split)

lemma attest_time:
  "attest w ses sh = Some (Inr a) \<Longrightarrow> own_t_att ''submitter's'' (od_tlsn w) [sc_ca_der ses] (as_presentation a) = Inr (as_att_time a)"
  by (auto simp: attest_def and_then_Inr_iff split: sum.splits)

subsection \<open>Apply\<close>

text \<open>The statement that Apply had signed: it commits to the listing's txData, and its c_B opens to the padded
  identifier under the salt.\<close>

definition apply_stated where
  "apply_stated w cfg salt x \<longleftrightarrow>
     app_c_tx x = commitment (od_keccak w) (od_abi_encode w) (li_tx_data (yc_listing cfg))
       (policy_id_r (od_keccak w) (yc_policy cfg)) (li_r (yc_listing cfg)) \<and>
     (\<exists>identifier.
       pad (yc_layout cfg) (case yc_identifier cfg of Some i \<Rightarrow> i | None \<Rightarrow> sc_account (yc_session cfg))
         (account_width (yc_layout cfg)) = Inr identifier \<and>
       counterparty_commitment BN254_R (od_poseidon w) identifier salt = Inr (app_c_b x))"

definition apply_call_of where
  "apply_call_of cfg x sigma =
     Apply_for_call (li_tx_id (yc_listing cfg)) (li_tx_data (yc_listing cfg)) (li_r (yc_listing cfg)) (app_c_b x) sigma
       (app_eta x) (app_t_att x)"

lemma apply_call_facts:
  assumes "x = apply_statement w cfg c_b eta t_att"
  shows "apply_calldata (od_abi w) (apply_payload_of cfg chain_id x sigma identifier salt) =
      ac_encode (od_abi w) (apply_call_of cfg x sigma)"
    and "rebuilt_apply (od_address w (yc_key cfg)) (app_c_tx x) (policy_id_a (od_keccak w) (yc_policy cfg))
      (apply_call_of cfg x sigma) = Some x"
    and "app_c_b x = c_b" and "app_t_att x = t_att"
    and "app_c_tx x = commitment (od_keccak w) (od_abi_encode w) (li_tx_data (yc_listing cfg))
      (policy_id_r (od_keccak w) (yc_policy cfg)) (li_r (yc_listing cfg))"
proof -
  show "apply_calldata (od_abi w) (apply_payload_of cfg chain_id x sigma identifier salt) =
      ac_encode (od_abi w) (apply_call_of cfg x sigma)"
    by (cases "li_tx_data (yc_listing cfg)")
      (simp add: assms apply_calldata_def apply_tx_data_def apply_payload_of_def apply_statement_def apply_call_of_def Let_def)
qed (simp_all add: assms apply_statement_def apply_call_of_def rebuilt_apply_def Let_def)

lemma apply_after_session_ok:
  assumes "apply_after_session w cfg chain_id eta salt ses = (sent, r)"
  shows "(case r of Inl _ \<Rightarrow> True | Inr rec1 \<Rightarrow> phase_record_ok (yc_submit cfg) (yc_proof_from cfg) sent rec1) \<and>
    (sent \<noteq> [] \<longrightarrow> yc_submit cfg \<and> cn_chain_id (od_node w) = Inr chain_id \<and>
      (\<exists>x json sigma. apply_stated w cfg salt x \<and> app_t_att x = as_att_time ses \<and>
        submit (od_verifier w) (od_verifier_peer w) (od_serialize w) (od_deserialize w) (sc_verifier (yc_session cfg))
          (Sub_apply (apply_submission_new (od_codec w) (as_presentation ses) x json)) = Inr (Signed sigma) \<and>
        rebuilt_apply (od_address w (yc_key cfg)) (app_c_tx x) (policy_id_a (od_keccak w) (yc_policy cfg))
          (apply_call_of cfg x sigma) = Some x \<and>
        sent = [\<lparr>tr_to = yc_contract cfg, tr_value = yc_deposit cfg,
          tr_input = ac_encode (od_abi w) (apply_call_of cfg x sigma)\<rparr>]))"
proof -
  let ?openings = "ns_openings (as_notarized ses)"
  let ?prep = "and_then (lift_res (pad (yc_layout cfg) (case yc_identifier cfg of Some i \<Rightarrow> i | None \<Rightarrow> sc_account (yc_session cfg))
       (account_width (yc_layout cfg)))) (\<lambda>identifier.
     and_then (lift_res (counterparty_commitment BN254_R (od_poseidon w) identifier salt)) (\<lambda>c_b.
     let x = apply_statement w cfg c_b eta (as_att_time ses);
         d = digest (od_eip712 w) (Apply_stmt x) (domain_of chain_id (yc_contract cfg)) in
     case ?openings of
       [oa, oi] \<Rightarrow>
         and_then (lift_res (phi_a_new (opening_commitment (od_sha256 w) oa) (opening_commitment (od_sha256 w) oi) c_b
           (tx_amount (app_tx_data x)) d)) (\<lambda>public.
         and_then (lift_res (phi_a_input_new public ?openings salt)) (\<lambda>inp.
         Inr (identifier, x, public, inp)))
     | _ \<Rightarrow> fails ''the eligibility layout has two hidden fields''))"
  note after = assms [unfolded apply_after_session_def Let_def]
  show ?thesis
  proof (cases ?prep)
    case (Inl f)
    then show ?thesis using after by (auto simp: Let_def)
  next
    case (Inr y)
    obtain ident x public inp where y: "y = (ident, x, public, inp)" by (cases y) auto
    from Inr obtain c_b where pre: "pad (yc_layout cfg)
          (case yc_identifier cfg of Some i \<Rightarrow> i | None \<Rightarrow> sc_account (yc_session cfg)) (account_width (yc_layout cfg)) = Inr ident"
        "counterparty_commitment BN254_R (od_poseidon w) ident salt = Inr c_b"
      and x: "x = apply_statement w cfg c_b eta (as_att_time ses)"
      unfolding y by (auto simp: and_then_Inr_iff two_openings_iff Let_def)
    note facts = apply_call_facts [OF x]
    have stated: "apply_stated w cfg salt x" using pre facts(3,5) by (auto simp: apply_stated_def)
    have only: "sends_only (od_node w) (submit_apply_tx (od_abi w) (od_node w) (yc_rpc_url cfg) (yc_key cfg)
        (apply_payload_of cfg chain_id x sigma ident salt)) chain_id \<lparr>tr_to = yc_contract cfg,
          tr_value = yc_deposit cfg, tr_input = ac_encode (od_abi w) (apply_call_of cfg x sigma)\<rparr>" for sigma
      using sends_only_apply [of "od_node w" "od_abi w" "yc_rpc_url cfg" "yc_key cfg"
          "apply_payload_of cfg chain_id x sigma ident salt", unfolded facts(1)] by (simp add: apply_payload_of_def)
    have run: "phase_prove_sign w (yc_circuits cfg) (In_a inp) (yc_out cfg) (yc_proof_from cfg) ''phi_A''
        (sc_verifier (yc_session cfg))
        (\<lambda>json. Sub_apply (apply_submission_new (od_codec w) (as_presentation ses) x json))
        (new_phase_record ''apply'' (sc_account (yc_session cfg)) (app_submitter x) (app_policy_id x) eta (as_att_time ses)
          (phi_a_inputs public) (as_stats ses))
        (\<lambda>rec1 sigma. phase_submit w (yc_out cfg) Payload_a (yc_submit cfg)
          (submit_apply_tx (od_abi w) (od_node w) (yc_rpc_url cfg) (yc_key cfg)) rec1
          (apply_payload_of cfg chain_id x sigma ident salt)) = (sent, r)"
      using after Inr unfolding y by (simp add: Let_def)
    note ok = phase_prove_sign_ok [OF run _ _ only]
    show ?thesis using ok stated facts(2,4) by (auto simp: new_phase_record_def)
  qed
qed

text \<open>C16: A run of Apply hands at most one transaction to the node, and only when it was asked to: the call, on the
  payload's chain and with the deposit, that carries the policy verifier's signature for exactly the statement
  that the contract rebuilds from the call, the caller and the listing's record. The statement commits to the
  listing's txData, its c_B opens to the padded identifier under the fresh salt, and its time is the one that the
  submitter's own presentation attests. The record's outcome tells which of this happened.\<close>

theorem apply_sends_what_was_signed:
  assumes "run_apply w cfg = Some (sent, r)"
  shows "(case r of Inl _ \<Rightarrow> True | Inr rec1 \<Rightarrow> phase_record_ok (yc_submit cfg) (yc_proof_from cfg) sent rec1) \<and>
    (sent \<noteq> [] \<longrightarrow> yc_submit cfg \<and>
      (\<exists>x presentation json sigma chain_id. cn_chain_id (od_node w) = Inr chain_id \<and>
        apply_stated w cfg (fresh_salt (od_random_salt w)) x \<and>
        own_t_att ''submitter's'' (od_tlsn w) [sc_ca_der (yc_session cfg)] presentation = Inr (app_t_att x) \<and>
        submit (od_verifier w) (od_verifier_peer w) (od_serialize w) (od_deserialize w) (sc_verifier (yc_session cfg))
          (Sub_apply (apply_submission_new (od_codec w) presentation x json)) = Inr (Signed sigma) \<and>
        rebuilt_apply (od_address w (yc_key cfg)) (app_c_tx x) (policy_id_a (od_keccak w) (yc_policy cfg))
          (apply_call_of cfg x sigma) = Some x \<and>
        sent = [\<lparr>tr_to = yc_contract cfg, tr_value = yc_deposit cfg,
          tr_input = ac_encode (od_abi w) (apply_call_of cfg x sigma)\<rparr>]))"
proof -
  let ?conf = "and_then (lib_ctx ''creating the output directory'' (lift_lib (od_create_dir w (yc_out cfg)))) (\<lambda>_.
     and_then (chain_id_of (od_node w) (yc_rpc_url cfg)) (\<lambda>chain_id.
     and_then (lift_res (record_shape (yc_layout cfg) [])) (\<lambda>sh. Inr (chain_id, sh))))"
  let ?eta = "case yc_eta cfg of Some e \<Rightarrow> e | None \<Rightarrow> od_random_eta w"
  let ?salt = "fresh_salt (od_random_salt w)"
  note run = assms [unfolded run_apply_def Let_def]
  show ?thesis
  proof (cases ?conf)
    case (Inl f)
    then show ?thesis using run by auto
  next
    case (Inr y)
    then obtain chain_id sh where "y = (chain_id, sh)" by (cases y)
    with run Inr obtain a where a: "attest w (yc_session cfg) sh = Some a"
      and body: "(case a of Inl f \<Rightarrow> ([], Inl f) | Inr ses \<Rightarrow> apply_after_session w cfg chain_id ?eta ?salt ses) = (sent, r)"
      by auto
    show ?thesis
    proof (cases a)
      case (Inl f)
      then show ?thesis using body by auto
    next
      case (Inr ses)
      then have "apply_after_session w cfg chain_id ?eta ?salt ses = (sent, r)" using body by simp
      from apply_after_session_ok [OF this] attest_time [OF a [unfolded Inr]] show ?thesis by metis
    qed
  qed
qed

subsection \<open>Settle\<close>

text \<open>The statement that Settle had signed: it names the engagement, commits to the listing's txData and repeats the
  c_B of the application, whose opening the run holds.\<close>

definition settle_stated where
  "settle_stated w cfg x \<longleftrightarrow>
     set_c_tx x = commitment (od_keccak w) (od_abi_encode w) (li_tx_data (tc_listing cfg))
       (policy_id_r (od_keccak w) (tc_policy cfg)) (li_r (tc_listing cfg)) \<and>
     set_c_b x = tc_c_b cfg \<and>
     counterparty_commitment BN254_R (od_poseidon w) (tc_identifier cfg) (tc_salt cfg) = Inr (tc_c_b cfg)"

definition settle_call_of where
  "settle_call_of cfg x sigma =
     Settle_call (en_eng_id (tc_engagement cfg)) (li_tx_data (tc_listing cfg)) (li_r (tc_listing cfg)) sigma (set_eta x)
       (set_t_att x)"

lemma settle_call_facts:
  assumes "x = settle_statement w cfg eta t_att"
  shows "settle_calldata (od_abi w) (settle_payload_of cfg chain_id x sigma) =
      ac_encode (od_abi w) (settle_call_of cfg x sigma)"
    and "rebuilt_settle (od_address w (tc_key cfg)) (li_tx_id (tc_listing cfg)) (set_c_tx x) (tc_c_b cfg)
      (en_expires_at (tc_engagement cfg)) (policy_id_s (od_keccak w) (tc_policy cfg)) (settle_call_of cfg x sigma) = Some x"
    and "set_c_b x = tc_c_b cfg" and "set_t_att x = t_att"
    and "set_c_tx x = commitment (od_keccak w) (od_abi_encode w) (li_tx_data (tc_listing cfg))
      (policy_id_r (od_keccak w) (tc_policy cfg)) (li_r (tc_listing cfg))"
proof -
  show "settle_calldata (od_abi w) (settle_payload_of cfg chain_id x sigma) =
      ac_encode (od_abi w) (settle_call_of cfg x sigma)"
    by (cases "li_tx_data (tc_listing cfg)")
      (simp add: assms settle_calldata_def settle_tx_data_def settle_payload_of_def settle_statement_def settle_call_of_def Let_def)
qed (simp_all add: assms settle_statement_def settle_call_of_def rebuilt_settle_def Let_def)

lemma settle_after_session_ok:
  assumes "settle_after_session w cfg chain_id eta edy ses = (sent, r)"
  shows "(case r of Inl _ \<Rightarrow> True | Inr rec1 \<Rightarrow> phase_record_ok (tc_submit cfg) (tc_proof_from cfg) sent rec1) \<and>
    (sent \<noteq> [] \<longrightarrow> tc_submit cfg \<and> cn_chain_id (od_node w) = Inr chain_id \<and>
      (\<exists>x json sigma. settle_stated w cfg x \<and> set_t_att x = as_att_time ses \<and>
        submit (od_verifier w) (od_verifier_peer w) (od_serialize w) (od_deserialize w) (sc_verifier (tc_session cfg))
          (Sub_settle (settle_submission_new (od_codec w) (as_presentation ses) (tc_notation_id cfg) x json)) = Inr (Signed sigma) \<and>
        rebuilt_settle (od_address w (tc_key cfg)) (li_tx_id (tc_listing cfg)) (set_c_tx x) (tc_c_b cfg)
          (en_expires_at (tc_engagement cfg)) (policy_id_s (od_keccak w) (tc_policy cfg)) (settle_call_of cfg x sigma) = Some x \<and>
        sent = [\<lparr>tr_to = tc_contract cfg, tr_value = 0, tr_input = ac_encode (od_abi w) (settle_call_of cfg x sigma)\<rparr>]))"
proof -
  let ?openings = "ns_openings (as_notarized ses)"
  obtain x where x: "x = settle_statement w cfg eta (as_att_time ses)" by simp
  let ?prep = "case ?openings of
     [_, op, ot, od] \<Rightarrow>
       and_then (lift_res (phi_s_new (opening_commitment (od_sha256 w) op, opening_commitment (od_sha256 w) ot,
         opening_commitment (od_sha256 w) od) (tx_property_id (set_tx_data x)) (tc_c_b cfg) edy
         (digest (od_eip712 w) (Settle_stmt x) (domain_of chain_id (tc_contract cfg))))) (\<lambda>public.
       and_then (lift_res (counterparty_commitment BN254_R (od_poseidon w) (tc_identifier cfg) (tc_salt cfg))) (\<lambda>c.
       require (c = tc_c_b cfg) ''the opening does not open c_B'' (
       and_then (lift_res (phi_s_input_new public ?openings (tc_salt cfg))) (\<lambda>inp. Inr (public, inp)))))
     | _ \<Rightarrow> fails ''the tenancy layout has four hidden fields''"
  note after = assms [unfolded settle_after_session_def Let_def, folded x]
  show ?thesis
  proof (cases ?prep)
    case (Inl f)
    then show ?thesis using after by auto
  next
    case (Inr y)
    obtain public inp where y: "y = (public, inp)" by (cases y)
    note facts = settle_call_facts [OF x]
    from Inr have "counterparty_commitment BN254_R (od_poseidon w) (tc_identifier cfg) (tc_salt cfg) = Inr (tc_c_b cfg)"
      by (auto simp: and_then_Inr_iff four_openings_iff)
    then have stated: "settle_stated w cfg x" using facts(5) x by (simp add: settle_stated_def settle_statement_def Let_def)
    have only: "sends_only (od_node w) (submit_settle_tx (od_abi w) (od_node w) (tc_rpc_url cfg) (tc_key cfg)
        (settle_payload_of cfg chain_id x sigma)) chain_id
        \<lparr>tr_to = tc_contract cfg, tr_value = 0, tr_input = ac_encode (od_abi w) (settle_call_of cfg x sigma)\<rparr>" for sigma
      using sends_only_settle [of "od_node w" "od_abi w" "tc_rpc_url cfg" "tc_key cfg"
          "settle_payload_of cfg chain_id x sigma", unfolded facts(1)] by (simp add: settle_payload_of_def)
    have run: "phase_prove_sign w (tc_circuits cfg) (In_s inp) (tc_out cfg) (tc_proof_from cfg) ''phi_S''
        (sc_verifier (tc_session cfg))
        (\<lambda>json. Sub_settle (settle_submission_new (od_codec w) (as_presentation ses) (tc_notation_id cfg) x json))
        (new_phase_record ''settle'' (sc_account (tc_session cfg)) (set_submitter x) (set_policy_id x) eta (as_att_time ses)
          (phi_s_inputs public) (as_stats ses))
        (\<lambda>rec1 sigma. phase_submit w (tc_out cfg) Payload_s (tc_submit cfg)
          (submit_settle_tx (od_abi w) (od_node w) (tc_rpc_url cfg) (tc_key cfg)) rec1
          (settle_payload_of cfg chain_id x sigma)) = (sent, r)"
      using after Inr unfolding y by simp
    note ok = phase_prove_sign_ok [OF run _ _ only]
    show ?thesis using ok stated facts(2,4) by (auto simp: new_phase_record_def)
  qed
qed

text \<open>C15: A run of Settle hands at most one transaction to the node, and only when it was asked to: the call, on the
  payload's chain and without value, that carries the policy verifier's signature for exactly the statement that
  the contract rebuilds from the call, the caller and the records of listing, application and engagement, given
  that the run was configured with those records. The statement commits to the listing's txData, the run holds
  the opening of its c_B, and its time is the one that the submitter's own presentation attests. The record's
  outcome tells which of this happened.\<close>

theorem settle_sends_what_was_signed:
  assumes "run_settle w cfg = Some (sent, r)"
  shows "(case r of Inl _ \<Rightarrow> True | Inr rec1 \<Rightarrow> phase_record_ok (tc_submit cfg) (tc_proof_from cfg) sent rec1) \<and>
    (sent \<noteq> [] \<longrightarrow> tc_submit cfg \<and>
      (\<exists>x presentation json sigma chain_id. cn_chain_id (od_node w) = Inr chain_id \<and>
        settle_stated w cfg x \<and>
        own_t_att ''submitter's'' (od_tlsn w) [sc_ca_der (tc_session cfg)] presentation = Inr (set_t_att x) \<and>
        submit (od_verifier w) (od_verifier_peer w) (od_serialize w) (od_deserialize w) (sc_verifier (tc_session cfg))
          (Sub_settle (settle_submission_new (od_codec w) presentation (tc_notation_id cfg) x json)) = Inr (Signed sigma) \<and>
        rebuilt_settle (od_address w (tc_key cfg)) (li_tx_id (tc_listing cfg)) (set_c_tx x) (tc_c_b cfg)
          (en_expires_at (tc_engagement cfg)) (policy_id_s (od_keccak w) (tc_policy cfg)) (settle_call_of cfg x sigma) = Some x \<and>
        sent = [\<lparr>tr_to = tc_contract cfg, tr_value = 0, tr_input = ac_encode (od_abi w) (settle_call_of cfg x sigma)\<rparr>]))"
proof -
  let ?eta = "case tc_eta cfg of Some e \<Rightarrow> e | None \<Rightarrow> od_random_eta w"
  note run = assms [unfolded run_settle_def Let_def]
  show ?thesis
  proof (cases "settle_setup w cfg")
    case (Inl f)
    then show ?thesis using run by auto
  next
    case (Inr y)
    then obtain chain_id edy sh where "y = (chain_id, edy, sh)" by (cases y)
    with run Inr obtain a where a: "attest w (tc_session cfg) sh = Some a"
      and body: "(case a of Inl f \<Rightarrow> ([], Inl f) | Inr ses \<Rightarrow> settle_after_session w cfg chain_id ?eta edy ses) = (sent, r)"
      by auto
    show ?thesis
    proof (cases a)
      case (Inl f)
      then show ?thesis using body by auto
    next
      case (Inr ses)
      then have "settle_after_session w cfg chain_id ?eta edy ses = (sent, r)" using body by simp
      from settle_after_session_ok [OF this] attest_time [OF a [unfolded Inr]] show ?thesis by metis
    qed
  qed
qed

subsection \<open>The salt of c_B\<close>

lemma be_value_Cons: "be_value (c # bs) = byte_val c * 256 ^ length bs + be_value bs"
  using be_value_append [of "[c]" bs] be_value_snoc [of "[]" c] by simp

text \<open>A salt that Apply draws has 32 bytes and lies below the scalar field's order whatever bytes the random
  generator gives, so neither the commitment c_B nor phi_A's input refuses it; no other bit of the random
  bytes is lost.\<close>

theorem fresh_salt_is_a_field_element:
  assumes "length raw = 32" and "length identifier \<le> 31"
    and "poseidon (be_value identifier) (be_value (fresh_salt raw)) = Inr c"
  shows "length (fresh_salt raw) = 32 \<and> be_value (fresh_salt raw) = be_value raw mod 2 ^ 253 \<and>
    counterparty_commitment BN254_R poseidon identifier (fresh_salt raw) = Inr (be_bytes 32 c)"
proof -
  obtain a bs where raw: "raw = a # bs" and bs: "length bs = 31" using assms(1) by (cases raw) auto
  have len: "length (fresh_salt raw) = 32" using bs by (simp add: raw fresh_salt_def)
  have less: "be_value bs < 256 ^ 31" using be_value_less [of bs] bs by simp
  have salt: "be_value (fresh_salt raw) = byte_val a mod 32 * 256 ^ 31 + be_value bs"
    using bs by (simp add: raw fresh_salt_def be_value_Cons)
  have "x * k = x div 32 * (32 * k) + x mod 32 * k" for x k :: nat
    by (metis div_mult_mod_eq add_mult_distrib mult.assoc)
  from this [of "byte_val a" "256 ^ 31"]
  have "be_value raw = (byte_val a div 32 * 2 ^ 253) + (byte_val a mod 32 * 256 ^ 31 + be_value bs)"
    using bs by (simp add: raw be_value_Cons)
  moreover have below: "byte_val a mod 32 * 256 ^ 31 + be_value bs < 2 ^ 253"
  proof -
    have "byte_val a mod 32 < 32" by simp
    then have "(byte_val a mod 32 + 1) * 256 ^ 31 \<le> 32 * (256 :: nat) ^ 31" by (intro mult_right_mono) simp_all
    then show ?thesis using less by simp
  qed
  ultimately have "be_value raw mod 2 ^ 253 = be_value (fresh_salt raw)" unfolding salt by simp
  moreover have "(2 :: nat) ^ 253 < BN254_R" by (simp add: BN254_R_def)
  then have "be_value (fresh_salt raw) < BN254_R" using below unfolding salt by linarith
  moreover have "be_value identifier mod BN254_R = be_value identifier"
  proof -
    have "be_value identifier < 256 ^ length identifier" by (rule be_value_less)
    also have "\<dots> \<le> (256 :: nat) ^ 31" using assms(2) by (intro power_increasing) simp_all
    also have "\<dots> < BN254_R" by (simp add: BN254_R_def)
    finally show ?thesis by simp
  qed
  ultimately show ?thesis using len assms(2,3)
    by (simp add: counterparty_commitment_def be_limbs_value Let_def ensure_def some_or_def)
qed

theorem fresh_salt_is_a_field_element_witness:
  "be_value (fresh_salt (replicate 32 (CHR 0xff))) = be_value (replicate 32 (CHR 0xff)) mod 2 ^ 253 \<and>
    counterparty_commitment BN254_R (\<lambda>_ _. Inr 5) ''ACC-000000000001'' (fresh_salt (replicate 32 (CHR 0xff))) = Inr (be_bytes 32 5)"
  using fresh_salt_is_a_field_element [of "replicate 32 (CHR 0xff)" "''ACC-000000000001''" "\<lambda>_ _. Inr 5" 5] by simp

subsection \<open>Sample runs\<close>

definition phase_openings :: "nat \<Rightarrow> field_opening list" where
  "phase_openings n = replicate n \<lparr>fo_range = Range 0 1, fo_plaintext = ''x'', fo_blinder = replicate 16 (CHR ''b'')\<rparr>"

definition phase_race ::
    "nat \<Rightarrow> (unit \<times> nat \<times> field_opening list \<times> committed_opening \<times> committed_opening) race" where
  "phase_race n =
     (let c = \<lparr>co_plaintext = ''x'', co_blinder = replicate 16 (CHR ''b'')\<rparr> in
      \<lparr>rc_first = Inl (Inr ((), 5, phase_openings n, c, c)), rc_preprocessed = True, rc_driver_in_grace = None,
       rc_prover_in_grace = None, rc_preprocessed_after = True\<rparr>)"

definition phase_tlsn :: "(range list indexed list, nat, unit, range list) tlsn" where
  "phase_tlsn = \<lparr>verifying_key_of = (\<lambda>_. 7), cert_verifier_new = (\<lambda>_. Inr ()),
     verify_presentation = (\<lambda>_ _. Inr \<lparr>out_attestation = (), out_server_name = None, out_connection_time = 990,
       out_received_len = 0, out_transcript = None, out_extensions = [(T_ATT_EXTENSION_ID, be_bytes 8 1000)]\<rparr>),
     body_commitments = (\<lambda>_. Inr []), range_set = (\<lambda>rs. rs)\<rparr>"

text \<open>A node that includes every transaction and logs the event of the phase.\<close>

definition phase_node :: "(unit, unit, unit) chain_node" where
  "phase_node = \<lparr>cn_url = (\<lambda>_. Inr ()), cn_chain_id = Inr 1, cn_send = (\<lambda>_ _. Inr ()),
     cn_receipt = (\<lambda>_. Inr \<lparr>rc_status = True, rc_block_number = Some 9, rc_tx_hash = ''h'', rc_gas_used = 21000,
       rc_logs = [()]\<rparr>),
     cn_block_timestamp = (\<lambda>_. Inr (Some 1010)), cn_call = (\<lambda>_ _. Inr [])\<rparr>"

definition phase_abi :: "pprev_log \<Rightarrow> unit abi_codec" where
  "phase_abi lg = \<lparr>ac_encode = (\<lambda>c. case c of Register_call _ _ _ _ s _ _ \<Rightarrow> s | Apply_for_call _ _ _ _ s _ _ \<Rightarrow> s
       | Settle_call _ _ _ s _ _ \<Rightarrow> s | _ \<Rightarrow> []),
     ac_decode_log = (\<lambda>_. Some lg), ac_decode_error = (\<lambda>_. None), ac_decode_u256 = (\<lambda>_. Inr 100), ac_hex = (\<lambda>_. [])\<rparr>"

definition phase_codec :: request_codec where
  "phase_codec = \<lparr>abi_encode_stmt = (\<lambda>_. ''x''), abi_decode_register = (\<lambda>_. bail ''none''),
     abi_decode_apply = (\<lambda>_. bail ''none''), abi_decode_settle = (\<lambda>_. bail ''none''), read_proof_json = (\<lambda>_. bail ''none'')\<rparr>"

definition phase_tools :: "circuit_input tools" where
  "phase_tools = \<lparr>to_json = (\<lambda>_. Inr ''input''), to_write = (\<lambda>d p c. Inr (d(p \<mapsto> c))), to_run = (\<lambda>_ d. Inr (d, True, [])),
     to_read = (\<lambda>_ _. Inr ''proof''), to_strings = (\<lambda>_. Inr [])\<rparr>"

definition phase_world where
  "phase_world n lg =
     \<lparr>od_create_dir = (\<lambda>_. Inr ()), od_address = (\<lambda>_ :: unit. replicate 20 (CHR 0x02)), od_abi = phase_abi lg,
      od_node = phase_node, od_random_eta = replicate 32 (CHR 0x07), od_random_r = replicate 32 (CHR 0x08),
      od_random_salt = replicate 32 (CHR 0x00),
      od_login = sample_client (json_response 200 ''OK'' (token_json ''t'')),
      od_connect = (\<lambda>_ _. Inr sample_ops), od_races = (\<lambda>_. phase_race n), od_ops = sample_ops, od_tlsn = phase_tlsn,
      od_keccak = (\<lambda>bs. bs), od_abi_encode = (\<lambda>_. ''c''), od_eip712 = (\<lambda>_ _. replicate 32 (CHR 0x01)),
      od_poseidon = (\<lambda>_ _. Inr 5), od_sha256 = sample_sha, od_hex = (\<lambda>bs. bs), od_read_file = (\<lambda>_. bail ''none''),
      od_is_utf8 = (\<lambda>_. True), od_tools = phase_tools, od_disk = (\<lambda>_. Some []), od_verifier = (\<lambda>_. Inr Accepts),
      od_verifier_peer = (\<lambda>_ _. \<lparr>in_bytes = ''sigma'', in_closed = True\<rparr>), od_serialize = (\<lambda>_. Inr ''submission''),
      od_deserialize = (\<lambda>bs. Inr (Signed bs)), od_codec = phase_codec, od_write_payload = (\<lambda>_ _. Inr ())\<rparr>"

definition phase_policy :: policy_bundle where
  "phase_policy = \<lparr>bundle_id = ''p'', bundle_labels = \<lparr>label_register = ''R'', label_apply = ''A'', label_settle = ''S''\<rparr>,
     bundle_register = \<lparr>register_layout_path = [], register_vk_path = []\<rparr>,
     bundle_apply = Some \<lparr>apply_layout_path = [], apply_vk_path = [], income_multiple = 3, amount_unit = ''TRY''\<rparr>,
     bundle_settle = Some \<lparr>settle_layout_path = [], settle_vk_path = [], utc_offset_secs = 10800\<rparr>,
     req_escrow_wei = ''0'', min_collateral_wei = ''0'', max_collateral_wei = ''0''\<rparr>"

definition register_sample_config :: "unit register_config" where
  "register_sample_config =
     \<lparr>gc_verifier = ''v'', gc_registry = ''r'', gc_ca_der = ''ca'', gc_layout = title_v1, gc_policy = phase_policy,
      gc_account = ''ACC-000000000001'', gc_password = ''pw'', gc_property = ''TR-06-CANKAYA-000123'', gc_rpc_url = ''u'',
      gc_contract = replicate 20 (CHR 0x03), gc_key = (), gc_amount = 1000, gc_settlement_share = 500, gc_collateral = 77,
      gc_circuits = files_phi_r ''circuits'', gc_out = ''out'', gc_max_sent = 4096, gc_max_recv = 16384,
      gc_max_retries = DEFAULT_MAX_RETRIES, gc_preprocess_timeout = PROVER_PREPROCESS_TIMEOUT, gc_eta = None,
      gc_proof_from = None, gc_submit = True\<rparr>"

lemma sample_token:
  "client_login (sample_client (json_response 200 ''OK'' (token_json ''t''))) addr server ca acct password = Inr ''t''"
  by (simp add: client_login_def sample_client_def lift_lib_def)
    (simp add: read_token_ok lift_lib_def some_or_fail_def token_json_def)

lemma sample_own_t_att: "own_t_att whose phase_tlsn roots p = Inr 1000"
  by (simp add: own_t_att_def phase_tlsn_def t_att_of_def lift_res_def some_or_def ensure_def with_ctx_def)

lemma sample_own_proof: "od_tools w = phase_tools \<Longrightarrow> od_disk w = (\<lambda>_. Some []) \<Longrightarrow> own_proof w files inp dir = Inr (Inr ''proof'')"
  by (simp add: own_proof_def prove_with_def generate_witness_def phase_tools_def unless_def lift_prove_def with_ctx_def
    list_all_iff Let_def)

lemma sample_reply:
  "submit (od_verifier (phase_world n lg)) (od_verifier_peer (phase_world n lg)) (od_serialize (phase_world n lg))
     (od_deserialize (phase_world n lg)) addr sub = Inr (Signed ''sigma'')"
  by (simp add: submit_def phase_world_def write_message_def read_message_def read_to_end_def MAX_MESSAGE_BYTES_def
    with_ctx_def ensure_def)

lemma sample_sent:
  "into_event lg = Some e \<Longrightarrow> submit_phase (phase_abi lg) phase_node url sk 1 contract amount calldata into_event name =
     ([\<lparr>tr_to = contract, tr_value = amount, tr_input = calldata\<rparr>], Inr (Included ''h'' 9 1010 21000 e))"
  by (simp add: submit_phase_def send_tx_def phase_node_def phase_abi_def await_inclusion_def lift_lib_def lib_ctx_def
    some_or_fail_def Let_def)

lemma first_attempt:
  "connect 0 1 = Inr notary \<Longrightarrow> one 0 notary = Inr y \<Longrightarrow>
    with_retries connect one m = Some (Inr (y, \<lparr>attempts = 1, stalls = []\<rparr>))"
  by (simp add: with_retries_def with_retries_from.simps Let_def)

lemma sample_notarized_shape:
  "\<exists>ns. notarize_shape sample_ops su (phase_race n) = Inr ns \<and> ns_openings ns = phase_openings n"
  by (simp add: notarize_shape_def phase_race_def settle_race_def Let_def sample_ops_def lift_lib_def)

lemma sample_present: "\<exists>p. build_presentation sample_ops att sec n rs None = Inr p"
  by (simp add: build_presentation_def reveals_def sample_ops_def lift_lib_def Let_def)

lemma sample_register_session:
  "\<exists>o3 p stats. register_session (phase_world 3 lg) register_sample_config = Some (Inr (o3, p, 1000, stats))"
proof -
  from valid_title_v1 have "valid_layout title_v1" by (simp add: validate_layout_iff)
  from title.shape_total [OF this] obtain s where s: "shape title_v1 ''TR-06-CANKAYA-000123'' = Inr s" by blast
  obtain q where q: "layout_ranges title_v1 = Inr q"
    using sample_render_ok render_response_fixed_ranges [OF valid_title_v1] by blast
  let ?conf = "\<lparr>ps_layout = title_v1, ps_registry_addr = ''r'', ps_root_certs = [''ca''], ps_token = ''t'',
    ps_property_id = ''TR-06-CANKAYA-000123'', ps_max_sent = 4096, ps_max_recv = 16384,
    ps_preprocess_timeout = PROVER_PREPROCESS_TIMEOUT\<rparr>"
  from s obtain su where su: "shape_setup_of ?conf = Inr su" by (simp add: shape_setup_of_def)
  obtain ns where ns: "notarize_shape sample_ops su (phase_race 3) = Inr ns" "ns_openings ns = phase_openings 3"
    using sample_notarized_shape by blast
  then obtain nz where nz: "prover_notarize sample_ops ?conf (phase_race 3) = Inr nz"
    using q su by (simp add: prover_notarize_def phase_openings_def numeral_3_eq_3 lift_res_def)
  obtain p where p: "present sample_ops nz False = Inr p" 
    using sample_present [of "nz_attestation nz" "nz_secrets nz" "nz_request_line_len nz" "revealed (nz_ranges nz)"]
    by (auto simp: present_def)
  have "notarize_with_retries (\<lambda>_ _. Inr sample_ops) (\<lambda>_. phase_race 3) ?conf DEFAULT_MAX_RETRIES
      = Some (Inr (nz, \<lparr>attempts = 1, stalls = []\<rparr>))"
    unfolding notarize_with_retries_def by (rule first_attempt [where notary = sample_ops]) (simp_all only: nz)
  then show ?thesis
    by (simp add: register_session_def phase_world_def register_sample_config_def sample_token p sample_own_t_att)
qed

text \<open>The title deed's owner registers its property on the sample world.\<close>

abbreviation (input) "sample_registered \<equiv>
  Registered_log 1 [] [] [] \<lparr>tx_property_id = sample_word, tx_amount = 1000, tx_settlement_share = 500\<rparr> [] 77"

lemma sample_register_run:
  "\<exists>rec1. run_register (phase_world 3 sample_registered) register_sample_config =
     Some ([\<lparr>tr_to = replicate 20 (CHR 0x03), tr_value = 77, tr_input = ''sigma''\<rparr>], Inr rec1) \<and> gr_outcome rec1 = Out_registered \<and>
     gr_submission rec1 = Some (Included ''h'' 9 1010 21000 (the (registered_of sample_registered)))"
proof -
  let ?w = "phase_world 3 sample_registered"
  obtain o3 p stats where ses: "register_session ?w register_sample_config = Some (Inr (o3, p, 1000, stats))"
    using sample_register_session by blast
  obtain x where x: "register_statement ?w register_sample_config (replicate 32 (CHR 0x07)) 1000 = Inr x"
    using sample_word_eq by (simp add: register_statement_def register_sample_config_def lift_res_def Let_def)
  have go: "submit_register_tx (phase_abi sample_registered) phase_node url sk
      (register_payload_of ?w register_sample_config 1 x ''sigma'') =
    ([\<lparr>tr_to = replicate 20 (CHR 0x03), tr_value = 77, tr_input = ''sigma''\<rparr>],
     Inr (Included ''h'' 9 1010 21000 (the (registered_of sample_registered))))" for url sk
    by (simp add: submit_register_tx_def register_payload_of_def register_sample_config_def sample_sent)
      (simp add: register_calldata_def phase_abi_def)
  have w: "od_create_dir ?w d = Inr ()" "od_node ?w = phase_node" "od_abi ?w = phase_abi sample_registered"
    "od_random_eta ?w = replicate 32 (CHR 0x07)" "od_write_payload ?w f pl = Inr ()" "od_tools ?w = phase_tools"
    "od_disk ?w = (\<lambda>_. Some [])" for d f pl by (simp_all add: phase_world_def)
  have c: "gc_proof_from register_sample_config = None" "gc_submit register_sample_config"
    by (simp_all add: register_sample_config_def)
  have after: "\<exists>rec1. register_after_session ?w register_sample_config 1 x o3 p stats =
      ([\<lparr>tr_to = replicate 20 (CHR 0x03), tr_value = 77, tr_input = ''sigma''\<rparr>], Inr rec1) \<and> gr_outcome rec1 = Out_registered \<and>
      gr_submission rec1 = Some (Included ''h'' 9 1010 21000 (the (registered_of sample_registered)))"
    by (simp add: finish_register_def register_after_session_def register_proof_def sample_own_proof w submit_register_def sample_reply
      lift_res_def register_submit_def lift_lib_def go c Let_def)
  have "chain_id_of phase_node url = Inr 1" for url by (simp add: chain_id_of_def phase_node_def lib_ctx_def lift_lib_def)
  then show ?thesis using after ses x
    by (simp add: run_register_def w lib_ctx_def lift_lib_def register_sample_config_def)
qed

theorem register_sends_what_was_signed_witness:
  "\<exists>rec1. run_register (phase_world 3 sample_registered) register_sample_config =
       Some ([\<lparr>tr_to = replicate 20 (CHR 0x03), tr_value = 77, tr_input = ''sigma''\<rparr>], Inr rec1) \<and>
     register_record_ok register_sample_config [\<lparr>tr_to = replicate 20 (CHR 0x03), tr_value = 77, tr_input = ''sigma''\<rparr>] rec1"
proof -
  obtain rec1 where run: "run_register (phase_world 3 sample_registered) register_sample_config =
      Some ([\<lparr>tr_to = replicate 20 (CHR 0x03), tr_value = 77, tr_input = ''sigma''\<rparr>], Inr rec1)"
    using sample_register_run by blast
  from register_sends_what_was_signed [OF run] run show ?thesis by auto
qed

definition sample_session_config :: session_config where
  "sample_session_config =
     \<lparr>sc_verifier = ''v'', sc_registry = ''r'', sc_ca_der = ''ca'', sc_account = ''ACC-000000000001'', sc_password = ''pw'',
      sc_max_sent = 4096, sc_max_recv = 16384, sc_max_retries = DEFAULT_MAX_RETRIES,
      sc_preprocess_timeout = PROVER_PREPROCESS_TIMEOUT\<rparr>"

definition sample_listing :: listing where
  "sample_listing = \<lparr>li_tx_id = 1, li_tx_data = \<lparr>tx_property_id = sample_word, tx_amount = 1000, tx_settlement_share = 500\<rparr>,
     li_r = replicate 32 (CHR 0x08)\<rparr>"

definition apply_sample_config :: "unit apply_config" where
  "apply_sample_config =
     \<lparr>yc_session = sample_session_config, yc_layout = income_v1, yc_policy = phase_policy, yc_rpc_url = ''u'',
      yc_contract = replicate 20 (CHR 0x03), yc_key = (), yc_listing = sample_listing, yc_deposit = 55,
      yc_circuits = files_phi_a ''circuits'', yc_out = ''out'', yc_eta = None, yc_identifier = None, yc_proof_from = None,
      yc_submit = True\<rparr>"

definition settle_sample_config :: "unit settle_config" where
  "settle_sample_config =
     \<lparr>tc_session = sample_session_config, tc_layout = tenancy_v1, tc_policy = phase_policy, tc_rpc_url = ''u'',
      tc_contract = replicate 20 (CHR 0x03), tc_key = (), tc_listing = sample_listing,
      tc_engagement = \<lparr>en_eng_id = 1, en_expires_at = 1000000\<rparr>, tc_c_b = be_bytes 32 5,
      tc_identifier = ''ACC-000000000001'', tc_salt = replicate 32 (CHR 0x00), tc_notation_id = ''N-1'',
      tc_circuits = files_phi_s ''circuits'', tc_out = ''out'', tc_eta = None, tc_proof_from = None, tc_submit = True\<rparr>"

lemma sample_attest:
  "\<exists>ses. attest (phase_world n lg) sample_session_config sh = Some (Inr ses) \<and> as_att_time ses = 1000 \<and>
    ns_openings (as_notarized ses) = phase_openings n"
proof -
  let ?conf = "\<lparr>su_shape = sh, su_registry_addr = ''r'', su_root_certs = [''ca''], su_token = ''t'', su_max_sent = 4096,
    su_max_recv = 16384, su_preprocess_timeout = PROVER_PREPROCESS_TIMEOUT, su_eth_attestation = False\<rparr>"
  obtain ns where ns: "notarize_shape sample_ops ?conf (phase_race n) = Inr ns" "ns_openings ns = phase_openings n"
    using sample_notarized_shape by blast
  obtain p where p: "present_shape sample_ops ns False = Inr p"
    using sample_present [of "ns_attestation ns" "ns_secrets ns" "length (shape_request_line (ns_shape ns))"
        "shape_revealed (ns_shape ns)"] by (auto simp: present_shape_def)
  have "notarize_shape_with_retries (\<lambda>_ _. Inr sample_ops) (\<lambda>_. phase_race n) ?conf DEFAULT_MAX_RETRIES
      = Some (Inr (ns, \<lparr>attempts = 1, stalls = []\<rparr>))"
    unfolding notarize_shape_with_retries_def by (rule first_attempt [where notary = sample_ops]) (simp_all only: ns)
  then show ?thesis
    by (simp add: attest_def phase_world_def sample_session_config_def sample_token p sample_own_t_att ns)
qed

lemma sample_sign_step: "sign_step (phase_world n lg) addr sub rec1 = Inr (rec1, Some ''sigma'')"
  by (simp add: sign_step_def sample_reply lift_res_def)

lemma sample_prove:
  "prove_or_borrow (phase_world n lg) files inp out None predicate rec1 = Inr (rec1, Some ''proof'')"
  by (simp add: prove_or_borrow_def sample_own_proof phase_world_def Let_def)

lemma sample_phase_included:
  "go p = ([tx], Inr (Included h b t g e)) \<Longrightarrow>
    \<exists>rec2. phase_submit (phase_world n lg) out pl True go rec1 p = ([tx], Inr rec2) \<and> ph_outcome rec2 = Ph_included"
  by (simp add: phase_submit_def phase_world_def lift_lib_def finish_phase_def Let_def)

lemma sample_phase_sent:
  "go p = ([tx], Inr (Included h b t g e)) \<Longrightarrow>
    \<exists>rec2. phase_submit (phase_world n lg) out pl True go rec1 p = ([tx], Inr rec2)"
  by (simp add: phase_submit_def phase_world_def lift_lib_def Let_def)

lemma sample_chain:
  "od_create_dir (phase_world n lg) d = Inr ()" "chain_id_of phase_node url = Inr 1"
  "od_random_eta (phase_world n lg) = replicate 32 (CHR 0x07)"
  "od_random_salt (phase_world n lg) = replicate 32 (CHR 0x00)" "od_poseidon (phase_world n lg) = (\<lambda>_ _. Inr 5)"
  "od_node (phase_world n lg) = phase_node" "od_abi (phase_world n lg) = phase_abi lg"
  by (simp_all add: phase_world_def chain_id_of_def phase_node_def lib_ctx_def lift_lib_def)

lemma zero_salt: "be_value (replicate 32 (CHR 0x00)) = 0" "fresh_salt (replicate 32 (CHR 0x00)) = replicate 32 (CHR 0x00)"
  by code_simp+

lemma two: "phase_openings 2 = (let f = \<lparr>fo_range = Range 0 1, fo_plaintext = ''x'', fo_blinder = replicate 16 (CHR ''b'')\<rparr> in [f, f])"
  by (simp add: phase_openings_def numeral_2_eq_2 Let_def)

lemma four: "phase_openings 4 = (let f = \<lparr>fo_range = Range 0 1, fo_plaintext = ''x'', fo_blinder = replicate 16 (CHR ''b'')\<rparr> in [f, f, f, f])"
  by (simp add: phase_openings_def eval_nat_numeral Let_def)

lemma sample_c_b:
  "counterparty_commitment BN254_R (\<lambda>_ _. Inr 5) ''ACC-000000000001'' (replicate 32 (CHR 0x00)) = Inr (be_bytes 32 5)"
  by (simp add: counterparty_commitment_def be_limbs_value zero_salt Let_def ensure_def some_or_def BN254_R_def)

lemma sample_c_b_element: "field_element (be_bytes 32 5) n = Inr (dec 5)"
  by (simp add: field_element_def ensure_def BN254_R_def)

abbreviation (input) "sample_applied \<equiv> Applied_log 1 1 [] [] 55"
abbreviation (input) "sample_settled \<equiv> Settled_log 1 1 0 0"

lemma sample_apply_run:
  "\<exists>rec1. run_apply (phase_world 2 sample_applied) apply_sample_config =
     Some ([\<lparr>tr_to = replicate 20 (CHR 0x03), tr_value = 55, tr_input = ''sigma''\<rparr>], Inr rec1) \<and> ph_outcome rec1 = Ph_included"
proof -
  let ?w = "phase_world 2 sample_applied" and ?tx = "\<lparr>tr_to = replicate 20 (CHR 0x03), tr_value = 55, tr_input = ''sigma''\<rparr>"
  from valid_income_v1 have "valid_record_layout income_v1" by (simp add: valid_record_layout_def)
  from rec.shape_total [OF this] obtain sh where sh: "record_shape income_v1 [] = Inr sh" by blast
  obtain ses where ses: "attest ?w sample_session_config sh = Some (Inr ses)"
    "ns_openings (as_notarized ses) = phase_openings 2" using sample_attest by blast
  have go: "submit_apply_tx (phase_abi sample_applied) phase_node url sk (apply_payload_of apply_sample_config 1 x ''sigma'' i s) =
      ([?tx], Inr (Included ''h'' 9 1010 21000 (the (applied_of sample_applied))))" for url sk x i s
    by (simp add: submit_apply_tx_def apply_payload_of_def apply_sample_config_def sample_sent)
      (simp add: apply_calldata_def phase_abi_def)
  have padded: "pad income_v1 ''ACC-000000000001'' (account_width income_v1) = Inr ''ACC-000000000001''"
    by (simp add: pad_def income_v1_def pad_value_def first_char_def utf8_width_def byte_defs)
  have c: "yc_session apply_sample_config = sample_session_config" "yc_layout apply_sample_config = income_v1"
    "yc_identifier apply_sample_config = None" "sc_account sample_session_config = ''ACC-000000000001''"
    "yc_proof_from apply_sample_config = None" "yc_submit apply_sample_config" "yc_eta apply_sample_config = None"
    by (simp_all add: apply_sample_config_def sample_session_config_def)
  have amount: "tx_amount (app_tx_data (apply_statement ?w apply_sample_config c_b eta t)) = 1000" for c_b eta t
    by (simp add: apply_statement_def apply_sample_config_def sample_listing_def Let_def)
  have "\<exists>rec1. apply_after_session ?w apply_sample_config 1 eta (replicate 32 (CHR 0x00)) ses = ([?tx], Inr rec1) \<and>
      ph_outcome rec1 = Ph_included" for eta
    by (simp add: apply_after_session_def c padded lift_res_def sample_chain sample_c_b ses two
        phi_a_new_def sample_c_b_element amount PHI_A_AMOUNT_BITS_def ensure_def phi_a_input_new_def
        phase_prove_sign_def sample_prove sample_sign_step Let_def)
      (rule sample_phase_included, rule go)
  then show ?thesis using ses(1) sh
    by (simp add: run_apply_def sample_chain c lib_ctx_def lift_lib_def lift_res_def zero_salt Let_def)
qed

theorem apply_sends_what_was_signed_witness:
  "\<exists>rec1. run_apply (phase_world 2 sample_applied) apply_sample_config =
       Some ([\<lparr>tr_to = replicate 20 (CHR 0x03), tr_value = 55, tr_input = ''sigma''\<rparr>], Inr rec1) \<and>
     ph_outcome rec1 \<in> {Ph_included, Ph_reverted}"
proof -
  obtain rec1 where run: "run_apply (phase_world 2 sample_applied) apply_sample_config =
      Some ([\<lparr>tr_to = replicate 20 (CHR 0x03), tr_value = 55, tr_input = ''sigma''\<rparr>], Inr rec1)"
    using sample_apply_run by blast
  from apply_sends_what_was_signed [OF run] run show ?thesis
    by (auto simp: phase_record_ok_def split: phase_outcome.splits)
qed

lemma sample_settle_run:
  "\<exists>rec1. run_settle (phase_world 4 sample_settled) settle_sample_config =
     Some ([\<lparr>tr_to = replicate 20 (CHR 0x03), tr_value = 0, tr_input = ''sigma''\<rparr>], Inr rec1)"
proof -
  let ?w = "phase_world 4 sample_settled" and ?tx = "\<lparr>tr_to = replicate 20 (CHR 0x03), tr_value = 0, tr_input = ''sigma''\<rparr>"
  from valid_tenancy_v1 have "valid_record_layout tenancy_v1" by (simp add: valid_record_layout_def)
  from rec.shape_total [OF this] obtain sh where sh: "record_shape tenancy_v1 ''N-1'' = Inr sh" by blast
  obtain ses where ses: "attest ?w sample_session_config sh = Some (Inr ses)"
    "ns_openings (as_notarized ses) = phase_openings 4" using sample_attest by blast
  have go: "submit_settle_tx (phase_abi sample_settled) phase_node url sk (settle_payload_of settle_sample_config 1 x ''sigma'') =
      ([?tx], Inr (Included ''h'' 9 1010 21000 (the (settled_of sample_settled))))" for url sk x
    by (simp add: submit_settle_tx_def settle_payload_of_def settle_sample_config_def sample_sent)
      (simp add: settle_calldata_def phase_abi_def)
  have c: "tc_session settle_sample_config = sample_session_config" "tc_layout settle_sample_config = tenancy_v1"
    "tc_identifier settle_sample_config = ''ACC-000000000001''" "tc_salt settle_sample_config = replicate 32 (CHR 0x00)"
    "tc_c_b settle_sample_config = be_bytes 32 5" "tc_notation_id settle_sample_config = ''N-1''"
    "tc_policy settle_sample_config = phase_policy" "en_expires_at (tc_engagement settle_sample_config) = 1000000"
    "tc_proof_from settle_sample_config = None" "tc_submit settle_sample_config" "tc_eta settle_sample_config = None"
    by (simp_all add: settle_sample_config_def)
  have "ymd_of_days 11 = Inr 19700112" by code_simp
  then have edy: "engagement_day 1000000 100 10800 = Inr 19700112"
    by (simp add: engagement_day_def some_or_def SECS_PER_DAY_def Let_def)
  have "settle_setup ?w settle_sample_config = Inr (1, 19700112, sh)"
    by (simp add: settle_setup_def sample_chain c lib_ctx_def lift_lib_def some_or_fail_def phase_policy_def)
      (simp add: tau_lock_of_def phase_node_def phase_abi_def lib_ctx_def lift_lib_def some_or_fail_def u64_of_def edy
        lift_res_def sh)
  moreover have "\<exists>rec1. settle_after_session ?w settle_sample_config 1 eta 19700112 ses = ([?tx], Inr rec1)" for eta
    by (simp add: settle_after_session_def c lift_res_def sample_chain sample_c_b ses four
        phi_s_new_def sample_c_b_element ensure_def require_def phi_s_input_new_def phase_prove_sign_def sample_prove sample_sign_step Let_def)
      (rule sample_phase_sent, rule go)
  ultimately show ?thesis using ses(1)
    by (simp add: run_settle_def sample_chain c Let_def)
qed

theorem settle_sends_what_was_signed_witness:
  "\<exists>rec1. run_settle (phase_world 4 sample_settled) settle_sample_config =
       Some ([\<lparr>tr_to = replicate 20 (CHR 0x03), tr_value = 0, tr_input = ''sigma''\<rparr>], Inr rec1) \<and>
     ph_outcome rec1 \<in> {Ph_included, Ph_reverted}"
proof -
  obtain rec1 where run: "run_settle (phase_world 4 sample_settled) settle_sample_config =
      Some ([\<lparr>tr_to = replicate 20 (CHR 0x03), tr_value = 0, tr_input = ''sigma''\<rparr>], Inr rec1)"
    using sample_settle_run by blast
  from settle_sends_what_was_signed [OF run] run show ?thesis
    by (auto simp: phase_record_ok_def split: phase_outcome.splits)
qed

end
