(* ===== verification/Circuit_Tools.thy ===== *)
theory Circuit_Tools
  imports Phase_Inputs Policy Phase_Transactions
begin

section \<open>Generators and tools of the circuits\<close>

text \<open>
  Model of the small binaries around the circuits: \<open>gen-circuit-main\<close>, \<open>gen-phase-circuit-main\<close> (pprev-types),
  \<open>phi-r-verify\<close> (pprev-notary), \<open>phi-r-prove\<close>, \<open>gen-phi-r-sample\<close> and \<open>gen-phase-sample\<close> (pprev-prover), each
  from its arguments to its exit. Files, JSON, hashes and Poseidon are arguments; times are not modelled. The
  sample inputs are shown to satisfy their circuits.
\<close>

record tool_world =
  tw_read_to_string :: "bytes \<Rightarrow> bytes res"
  tw_write :: "bytes \<Rightarrow> bytes \<Rightarrow> unit res"
  tw_parse_layout :: "bytes \<Rightarrow> layout res"
  tw_parse_record_layout :: "bytes \<Rightarrow> record_layout res"
  tw_parse_bundle :: "bytes \<Rightarrow> policy_bundle res"
  tw_parse_u256 :: "bytes \<Rightarrow> u256 res"

subsection \<open>Main components\<close>

definition gen_circuit_main :: "tool_world \<Rightarrow> bytes list \<Rightarrow> unit res" where
  "gen_circuit_main w args =
     (case args of
        layout_path # out # _ \<Rightarrow>
          and_then (load_layout (tw_read_to_string w) (tw_parse_layout w) layout_path) (\<lambda>l.
          and_then (main_circom l) (\<lambda>source.
          with_ctx ''writing'' (tw_write w out source)))
      | _ \<Rightarrow> bail ''usage: gen-circuit-main <layout.json> <out.circom>'')"

definition phase_main_source :: "tool_world \<Rightarrow> bytes \<Rightarrow> bytes \<Rightarrow> policy_bundle \<Rightarrow> bytes res" where
  "phase_main_source w phase base bundle =
     (if phase = ''apply'' then
        and_then (some_or ''the policy has no apply source'' (bundle_apply bundle)) (\<lambda>src.
        and_then (load_record_layout (tw_read_to_string w) (tw_parse_record_layout w) (path_join base (apply_layout_path src))) (\<lambda>l.
        main_circom_phi_a l (income_multiple src)))
      else if phase = ''settle'' then
        and_then (some_or ''the policy has no settle source'' (bundle_settle bundle)) (\<lambda>src.
        and_then (load_record_layout (tw_read_to_string w) (tw_parse_record_layout w) (path_join base (settle_layout_path src)))
          main_circom_phi_s)
      else bail ''usage: gen-phase-circuit-main <apply|settle> <policy.json> <root> <out.circom>'')"

definition gen_phase_circuit_main :: "tool_world \<Rightarrow> bytes list \<Rightarrow> unit res" where
  "gen_phase_circuit_main w args =
     (case args of
        [phase, policy, base, out] \<Rightarrow>
          and_then (load_bundle (tw_read_to_string w) (tw_parse_bundle w) (tw_parse_u256 w) policy) (\<lambda>bundle.
          and_then (phase_main_source w phase base bundle) (\<lambda>source.
          with_ctx ''writing'' (tw_write w out source)))
      | _ \<Rightarrow> bail ''usage: gen-phase-circuit-main <apply|settle> <policy.json> <root> <out.circom>'')"

subsection \<open>Verifying and proving\<close>

text \<open>What is printed, the verdict, comes before the exit.\<close>

definition phi_r_verify ::
    "('g1, 'g2, 'pvk) arkworks \<Rightarrow> (bytes \<Rightarrow> bytes res) \<Rightarrow> (bytes \<Rightarrow> vk_json res) \<Rightarrow> (bytes \<Rightarrow> proof_json res)
      \<Rightarrow> (bytes \<Rightarrow> bytes list res) \<Rightarrow> bytes list \<Rightarrow> bool option \<times> unit res" where
  "phi_r_verify ark read_to_string parse_vk parse_proof parse_public args =
     (case args of
        [vk_path, proof_path, public_path] \<Rightarrow>
          (case and_then (with_ctx ''reading'' (read_to_string vk_path)) (\<lambda>vk.
                and_then (with_ctx ''reading'' (read_to_string proof_path)) (\<lambda>prf.
                and_then (with_ctx ''reading'' (read_to_string public_path)) (\<lambda>public.
                and_then (verifier_from_json ark parse_vk vk) (\<lambda>verifier.
                and_then (proof_from_json ark parse_proof prf) (\<lambda>prf.
                and_then (public_from_json ark parse_public public) (\<lambda>public.
                groth16_verify ark verifier prf public)))))) of
             Inl e \<Rightarrow> (None, Inl e)
           | Inr valid \<Rightarrow> (Some valid, if valid then Inr () else bail ''the proof does not verify''))
      | _ \<Rightarrow> (None, bail ''usage: phi-r-verify <verification_key.json> <proof.json> <public.json>''))"

definition phi_r_prove ::
    "phi_r_input tools \<Rightarrow> (bytes \<Rightarrow> phi_r_input res) \<Rightarrow> (disk \<Rightarrow> bytes \<Rightarrow> disk res) \<Rightarrow> bytes res \<Rightarrow> bytes list \<Rightarrow> disk
      \<Rightarrow> disk proving" where
  "phi_r_prove t parse_input create_dir_all timings_json args d =
     (case args of
        [circuits, input_path, out] \<Rightarrow>
          and_then (lift_prove (with_ctx ''reading'' (to_read t d input_path))) (\<lambda>text.
          and_then (lift_prove (with_ctx ''parsing the witness input'' (parse_input text))) (\<lambda>input.
          and_then (lift_prove (create_dir_all d out)) (\<lambda>d.
          and_then (prove_with t (files_phi_r circuits) input out d) (\<lambda>(d, prf).
          and_then (lift_prove timings_json) (\<lambda>timings.
          lift_prove (to_write t d (path_join out ''timings.json'') (timings @ nl)))))))
      | _ \<Rightarrow> lift_prove (bail ''usage: phi-r-prove <circuits-dir> <input.json> <out-dir>''))"

subsection \<open>The sample of phi_R\<close>

definition TITLE_SAMPLE :: title_record where
  "TITLE_SAMPLE =
     \<lparr>property_id = ''TR-06-CANKAYA-000123'', owners = [''ACC-000000000001'', ''ACC-000000000002''],
      encumbrance = ''N'', assessed_value = ''000000012500000'', record_date = ''2026-09-24''\<rparr>"

text \<open>A word of the test vectors: a hex string of 32 bytes, with any number of leading \<open>0x\<close>. A value that is
  missing or not a string is \<open>None\<close>.\<close>

function trim_start_matches :: "bytes \<Rightarrow> bytes \<Rightarrow> bytes" where
  "trim_start_matches p s = (if p \<noteq> [] \<and> take (length p) s = p then trim_start_matches p (drop (length p) s) else s)"
  by pat_completeness auto

termination
  by (relation "measure (\<lambda>(p, s). length s)") (auto, metis diff_less length_greater_0_conv take_Nil)

declare trim_start_matches.simps [simp del]

definition vector_word :: "(bytes \<Rightarrow> bytes res) \<Rightarrow> bytes option \<Rightarrow> bytes res" where
  "vector_word hex_decode v =
     and_then (some_or ''expected a hex string'' v) (\<lambda>text.
     and_then (with_ctx ''hex'' (hex_decode (trim_start_matches ''0x'' text))) (\<lambda>bs.
     if length bs = 32 then Inr bs else bail (text @ '' is not 32 bytes'')))"

definition phi_r_sample_input :: "(bytes \<Rightarrow> bytes) \<Rightarrow> layout \<Rightarrow> bytes \<Rightarrow> bytes \<Rightarrow> phi_r_input res" where
  "phi_r_sample_input sha l d pid =
     and_then (property_id_word l (property_id TITLE_SAMPLE)) (\<lambda>word.
     ensure (word = pid) ''the statement's txData.propertyId is not the sample record's property'' (
     and_then (rendered_openings l ''ACC-000000000001'' TITLE_SAMPLE
       (label_blinder sha ''sample.account'', label_blinder sha ''sample.owners'', label_blinder sha ''sample.propertyId''))
       (\<lambda>openings.
     Inr (phi_r_input_new (public_of sha openings pid d) openings))))"

definition gen_phi_r_sample ::
    "tool_world \<Rightarrow> (bytes \<Rightarrow> bytes) \<Rightarrow> (bytes \<Rightarrow> bytes res) \<Rightarrow> (bytes \<Rightarrow> (bytes list \<Rightarrow> bytes option) res)
      \<Rightarrow> (phi_r_input \<Rightarrow> bytes res) \<Rightarrow> bytes list \<Rightarrow> unit res" where
  "gen_phi_r_sample w sha hex_decode parse_value render_json args =
     (case args of
        [layout_path, vectors_path, out] \<Rightarrow>
          and_then (load_layout (tw_read_to_string w) (tw_parse_layout w) layout_path) (\<lambda>l.
          and_then (tw_read_to_string w vectors_path) (\<lambda>text.
          and_then (parse_value text) (\<lambda>vectors.
          and_then (vector_word hex_decode (vectors [''register'', ''digest''])) (\<lambda>d.
          and_then (vector_word hex_decode (vectors [''register'', ''message'', ''txData'', ''propertyId''])) (\<lambda>pid.
          and_then (phi_r_sample_input sha l d pid) (\<lambda>input.
          and_then (render_json input) (\<lambda>json.
          tw_write w out (json @ nl))))))))
      | _ \<Rightarrow> bail ''usage: gen-phi-r-sample <layout.json> <eip712.json> <out.json>'')"

lemma label_blinder_length: "(\<And>bs. length (sha bs) = 32) \<Longrightarrow> length (label_blinder sha label) = 16"
  by (simp add: label_blinder_def)

text \<open>The sample input satisfies phi_R: the sample account is an owner of the sample record.\<close>

theorem phi_r_sample_satisfies:
  assumes lib: "circomlib_ok sha lib" and l: "validate_layout l = Inr ()"
    and w: "account_width l \<le> 31" "16 < property_id_width l" "property_id_width l \<le> 32"
    and P: "phi_r_params_from_layout l = Inr P"
    and blank: "\<exists>v. pad l ''ACC-000000000001'' (account_width l) = Inr v \<and> hd v \<noteq> hd (padding l)"
    and i: "phi_r_sample_input sha l d pid = Inr i" and word: "is_word pid"
  shows "phi_r lib P (fst (phi_r_signals i)) (snd (phi_r_signals i))"
proof -
  let ?b = "\<lambda>s. label_blinder sha s"
  obtain openings where word_eq: "property_id_word l (property_id TITLE_SAMPLE) = Inr pid"
    and opn: "rendered_openings l ''ACC-000000000001'' TITLE_SAMPLE
      (?b ''sample.account'', ?b ''sample.owners'', ?b ''sample.propertyId'') = Inr openings"
    and i: "i = phi_r_input_new (public_of sha openings pid d) openings"
    using i by (auto simp: phi_r_sample_input_def and_then_Inr_iff ensure_Inr_iff)
  have b: "length (?b s) = 16" for s using lib by (simp add: circomlib_ok_def label_blinder_length)
  have "is_owner l ''ACC-000000000001'' TITLE_SAMPLE"
    using blank by (auto simp: is_owner_def TITLE_SAMPLE_def)
  then have "phi_r lib P (public_signals (public_of sha openings pid d)) (opening_witness openings)"
    using owner_input_satisfies [OF lib l w P opn b b b word] word_eq by (simp add: i phi_r_signals_new)
  then show ?thesis by (simp add: i phi_r_signals_new)
qed

subsection \<open>The samples of phi_A and phi_S\<close>

definition SAMPLE_TENANT :: bytes where "SAMPLE_TENANT = ''ACC-000000000003''"
definition SAMPLE_LANDLORD :: bytes where "SAMPLE_LANDLORD = ''ACC-000000000001''"
definition SAMPLE_TAU_LOCK :: u64 where "SAMPLE_TAU_LOCK = 14 * 86400"

record sample_world = tool_world +
  sw_sha256 :: "bytes \<Rightarrow> bytes"
  sw_keccak256 :: "bytes \<Rightarrow> bytes"
  sw_poseidon :: "nat \<Rightarrow> nat \<Rightarrow> nat res"
  sw_eip712_hash :: "statement \<Rightarrow> eip712_domain \<Rightarrow> bytes"
  sw_u64 :: "bytes \<Rightarrow> u64 res"
  sw_u256 :: "bytes \<Rightarrow> u256 res"
  sw_b256 :: "bytes \<Rightarrow> bytes res"
  sw_address :: "bytes \<Rightarrow> bytes res"

text \<open>The test vectors: the string at a path of keys, if there is one.\<close>

type_synonym vectors = "bytes list \<Rightarrow> bytes option"

definition parse_at :: "(bytes \<Rightarrow> 'a res) \<Rightarrow> bytes option \<Rightarrow> 'a res" where
  "parse_at parse v = and_then (some_or ''expected a string'' v) (\<lambda>text. with_ctx text (parse text))"

definition vector_tx_data :: "sample_world \<Rightarrow> vectors \<Rightarrow> bytes list \<Rightarrow> tx_data res" where
  "vector_tx_data w v at =
     and_then (parse_at (sw_b256 w) (v (at @ [''propertyId'']))) (\<lambda>pid.
     and_then (parse_at (sw_u256 w) (v (at @ [''amount'']))) (\<lambda>amount.
     and_then (parse_at (sw_u256 w) (v (at @ [''settlementShare'']))) (\<lambda>share.
     Inr \<lparr>tx_property_id = pid, tx_amount = amount, tx_settlement_share = share\<rparr>)))"

definition sample_salt :: "sample_world \<Rightarrow> bytes" where
  "sample_salt w = fresh_salt (sw_keccak256 w ''pprev.sample.salt'')"

definition vector_apply :: "sample_world \<Rightarrow> vectors \<Rightarrow> bytes \<Rightarrow> apply_stmt res" where
  "vector_apply w v c_b =
     (let m = (\<lambda>k. v [''apply'', ''message'', k]) in
      and_then (parse_at (sw_u256 w) (m ''txId'')) (\<lambda>tx_id.
      and_then (parse_at (sw_b256 w) (m ''cTx'')) (\<lambda>c_tx.
      and_then (vector_tx_data w v [''apply'', ''message'', ''txData'']) (\<lambda>tx.
      and_then (parse_at (sw_b256 w) (m ''policyId'')) (\<lambda>policy_id.
      and_then (parse_at (sw_address w) (m ''submitter'')) (\<lambda>submitter.
      and_then (parse_at (sw_b256 w) (m ''eta'')) (\<lambda>eta.
      and_then (parse_at (sw_u64 w) (m ''tAtt'')) (\<lambda>t_att.
      Inr \<lparr>app_tx_id = tx_id, app_c_tx = c_tx, app_tx_data = tx, app_c_b = c_b, app_policy_id = policy_id,
           app_submitter = submitter, app_eta = eta, app_t_att = t_att\<rparr>))))))))"

definition vector_settle :: "sample_world \<Rightarrow> vectors \<Rightarrow> bytes \<Rightarrow> settle_stmt res" where
  "vector_settle w v c_b =
     (let m = (\<lambda>k. v [''settle'', ''message'', k]) in
      and_then (parse_at (sw_u256 w) (m ''engId'')) (\<lambda>eng_id.
      and_then (parse_at (sw_u256 w) (m ''txId'')) (\<lambda>tx_id.
      and_then (parse_at (sw_b256 w) (m ''cTx'')) (\<lambda>c_tx.
      and_then (vector_tx_data w v [''settle'', ''message'', ''txData'']) (\<lambda>tx.
      and_then (parse_at (sw_u256 w) (m ''expiresAt'')) (\<lambda>expires_at.
      and_then (parse_at (sw_b256 w) (m ''policyId'')) (\<lambda>policy_id.
      and_then (parse_at (sw_address w) (m ''submitter'')) (\<lambda>submitter.
      and_then (parse_at (sw_b256 w) (m ''eta'')) (\<lambda>eta.
      and_then (parse_at (sw_u64 w) (m ''tAtt'')) (\<lambda>t_att.
      Inr \<lparr>set_eng_id = eng_id, set_tx_id = tx_id, set_c_tx = c_tx, set_tx_data = tx, set_c_b = c_b,
           set_expires_at = expires_at, set_policy_id = policy_id, set_submitter = submitter, set_eta = eta,
           set_t_att = t_att\<rparr>))))))))))"

text \<open>\<open>{:04}-{:02}-{:02}\<close> of a day number.\<close>

definition zero_padded :: "nat \<Rightarrow> nat \<Rightarrow> bytes" where
  "zero_padded w n = replicate (w - length (dec n)) (CHR ''0'') @ dec n"

definition date_text :: "nat \<Rightarrow> bytes" where
  "date_text d = zero_padded 4 (d div 10000) @ ''-'' @ zero_padded 2 (d div 100 mod 100) @ ''-'' @ zero_padded 2 (d mod 100)"

definition apply_sample_input ::
    "sample_world \<Rightarrow> record_layout \<Rightarrow> vectors \<Rightarrow> eip712_domain \<Rightarrow> bytes \<Rightarrow> bytes \<Rightarrow> phi_a_input res" where
  "apply_sample_input w l v ed salt c_b =
     and_then (vector_apply w v c_b) (\<lambda>x.
     and_then (record_openings l SAMPLE_TENANT [''03500000000000000000'']
       (map (label_blinder (sw_sha256 w)) [''sample.account'', ''sample.monthlyIncome''])) (\<lambda>openings.
     and_then (index_at openings 0) (\<lambda>o0.
     and_then (index_at openings 1) (\<lambda>o1.
     and_then (phi_a_new (opening_commitment (sw_sha256 w) o0) (opening_commitment (sw_sha256 w) o1) c_b
       (tx_amount (app_tx_data x)) (digest (sw_eip712_hash w) (Apply_stmt x) ed)) (\<lambda>public.
     phi_a_input_new public openings salt)))))"

definition settle_sample_input ::
    "sample_world \<Rightarrow> settle_source \<Rightarrow> record_layout \<Rightarrow> vectors \<Rightarrow> eip712_domain \<Rightarrow> bytes \<Rightarrow> bytes \<Rightarrow> phi_s_input res" where
  "settle_sample_input w src l v ed salt c_b =
     and_then (vector_settle w v c_b) (\<lambda>x.
     and_then (some_or ''expiresAt exceeds 64 bits'' (u64_of (set_expires_at x))) (\<lambda>expires_at.
     and_then (engagement_day expires_at SAMPLE_TAU_LOCK (utc_offset_secs src)) (\<lambda>engaged.
     and_then (record_openings l SAMPLE_LANDLORD [''TR-06-CANKAYA-000123'', SAMPLE_TENANT, date_text (nat engaged)]
       (map (label_blinder (sw_sha256 w))
         [''sample.account'', ''sample.propertyId'', ''sample.tenant'', ''sample.recordDate''])) (\<lambda>openings.
     and_then (index_at openings 1) (\<lambda>o1.
     and_then (index_at openings 2) (\<lambda>o2.
     and_then (index_at openings 3) (\<lambda>o3.
     and_then (phi_s_new (opening_commitment (sw_sha256 w) o1, opening_commitment (sw_sha256 w) o2,
         opening_commitment (sw_sha256 w) o3) (tx_property_id (set_tx_data x)) c_b (nat engaged)
       (digest (sw_eip712_hash w) (Settle_stmt x) ed)) (\<lambda>public.
     phi_s_input_new public openings salt))))))))"

datatype phase_input = Input_a phi_a_input | Input_s phi_s_input

definition phase_sample_usage :: bytes where
  "phase_sample_usage = ''usage: gen-phase-sample <apply|settle> <policy.json> <root> <eip712.json> <out.json>''"

definition phase_sample_input :: "sample_world \<Rightarrow> bytes \<Rightarrow> bytes \<Rightarrow> policy_bundle \<Rightarrow> vectors \<Rightarrow> phase_input res" where
  "phase_sample_input w phase base bundle v =
     and_then (parse_at (sw_u64 w) (v [''domain'', ''chainId''])) (\<lambda>chain_id.
     and_then (parse_at (sw_address w) (v [''domain'', ''verifyingContract''])) (\<lambda>contract.
     let ed = domain_of chain_id contract; salt = sample_salt w;
         load = (\<lambda>p. load_record_layout (tw_read_to_string w) (tw_parse_record_layout w) (path_join base p)) in
     and_then (counterparty_commitment BN254_R (sw_poseidon w) SAMPLE_TENANT salt) (\<lambda>c_b.
     if phase = ''apply'' then
       and_then (some_or ''the policy has no apply source'' (bundle_apply bundle)) (\<lambda>src.
       and_then (load (apply_layout_path src)) (\<lambda>l.
       and_then (apply_sample_input w l v ed salt c_b) (\<lambda>i. Inr (Input_a i))))
     else if phase = ''settle'' then
       and_then (some_or ''the policy has no settle source'' (bundle_settle bundle)) (\<lambda>src.
       and_then (load (settle_layout_path src)) (\<lambda>l.
       and_then (settle_sample_input w src l v ed salt c_b) (\<lambda>i. Inr (Input_s i))))
     else bail phase_sample_usage)))"

definition gen_phase_sample ::
    "sample_world \<Rightarrow> (bytes \<Rightarrow> vectors res) \<Rightarrow> (phase_input \<Rightarrow> bytes res) \<Rightarrow> bytes list \<Rightarrow> unit res" where
  "gen_phase_sample w parse_value render_json args =
     (case args of
        [phase, policy, base, vectors_path, out] \<Rightarrow>
          and_then (load_bundle (tw_read_to_string w) (tw_parse_bundle w) (tw_parse_u256 w) policy) (\<lambda>bundle.
          and_then (tw_read_to_string w vectors_path) (\<lambda>text.
          and_then (parse_value text) (\<lambda>v.
          and_then (phase_sample_input w phase base bundle v) (\<lambda>input.
          and_then (render_json input) (\<lambda>json.
          tw_write w out (json @ nl))))))
      | _ \<Rightarrow> bail phase_sample_usage)"

subsection \<open>The date of the sample notation\<close>

lemma dec_length: "n < 10 ^ w \<Longrightarrow> 0 < w \<Longrightarrow> length (dec n) \<le> w"
proof (induction w arbitrary: n)
  case (Suc w)
  show ?case
  proof (cases "n < 10")
    case False
    then have "w \<noteq> 0" using Suc.prems by (cases w) auto
    moreover have "n div 10 < 10 ^ w" using Suc.prems(1) by (simp add: less_mult_imp_div_less mult.commute)
    ultimately have "length (dec (n div 10)) \<le> w" using Suc.IH by simp
    then show ?thesis using False by (simp add: dec.simps [of n])
  qed (simp add: dec.simps [of n])
qed simp

lemma dec_value_zeros: "dec_value (replicate k (CHR ''0'') @ s) = dec_value s"
  by (induction k) (simp_all add: dec_value_def)

lemma zero_padded_facts:
  assumes "n < 10 ^ w" and "0 < w"
  shows "length (zero_padded w n) = w" "all_digits (zero_padded w n)" "dec_value (zero_padded w n) = n"
proof -
  show "length (zero_padded w n) = w" using dec_length [OF assms] by (simp add: zero_padded_def)
  show "all_digits (zero_padded w n)"
    using dec_digits [of n] by (auto simp: zero_padded_def all_digits_def is_ascii_digit_def list_all_iff)
  show "dec_value (zero_padded w n) = n" by (simp add: zero_padded_def dec_value_zeros)
qed

lemma ymd_parts:
  fixes y m d :: nat
  assumes "m < 100" "d < 100"
  shows "(y * 10000 + m * 100 + d) div 10000 = y" "(y * 10000 + m * 100 + d) div 100 mod 100 = m"
    "(y * 10000 + m * 100 + d) mod 100 = d"
proof -
  have eq: "y * 10000 + m * 100 + d = (y * 100 + m) * 100 + d" by simp
  have hundred: "((y * 100 + m) * 100 + d) div 100 = y * 100 + m" "((y * 100 + m) * 100 + d) mod 100 = d"
    "(y * 100 + m) div 100 = y" "(y * 100 + m) mod 100 = m"
    using assms by (metis div_mult_self3 div_less add_0_right zero_neq_numeral, metis mod_mult_self3 mod_less,
      metis div_mult_self3 div_less add_0_right zero_neq_numeral, metis mod_mult_self3 mod_less)
  show "(y * 10000 + m * 100 + d) mod 100 = d" "(y * 10000 + m * 100 + d) div 100 mod 100 = m"
    unfolding eq hundred by (rule refl)+
  have "((y * 100 + m) * 100 + d) div (100 * 100) = y" unfolding div_mult2_eq hundred by (rule refl)
  then show "(y * 10000 + m * 100 + d) div 10000 = y" unfolding eq by simp
qed

text \<open>A day number written as a date reads back as that day.\<close>

lemma date_text_reads_back:
  assumes "day_in_range days" and "ymd_of_days days = Inr e"
  shows "day_number (date_text (nat e)) = Inr days \<and> date_digits (date_text (nat e)) = e"
proof -
  obtain y m d where c: "civil_of_days days = Civil y m d" by (cases "civil_of_days days")
  have ok: "valid_civil (Civil y m d)" using valid_civil_of_days [OF assms(1)] c by simp
  have e: "0 \<le> y" "y \<le> 9999" "e = ymd (Civil y m d)" using assms(2) ymd_of_days_eq [OF assms(1)] c
    by (auto simp: Let_def split: if_splits)
  have md: "1 \<le> m" "m \<le> 12" "1 \<le> d" "d \<le> month_length y m" using ok by (auto simp: valid_civil_def)
  have "month_length y m \<le> 31" by (simp add: month_length_def)
  then have d31: "d \<le> 31" using md(4) by linarith
  let ?n = "nat e"
  have n: "?n = nat y * 10000 + nat m * 100 + nat d" using e md by (simp add: ymd_def nat_add_distrib nat_mult_distrib)
  have small: "nat m < 100" "nat d < 100" "nat y < 10000" using md d31 e by simp_all
  then have parts: "?n div 10000 = nat y" "?n div 100 mod 100 = nat m" "?n mod 100 = nat d"
    unfolding n using ymd_parts [of "nat m" "nat d" "nat y"] by simp_all
  let ?ys = "zero_padded 4 (nat y)" and ?ms = "zero_padded 2 (nat m)" and ?ds = "zero_padded 2 (nat d)"
  have wr: "date_text ?n = ?ys @ CHR ''-'' # ?ms @ CHR ''-'' # ?ds" by (simp add: date_text_def parts)
  note z = zero_padded_facts [of "nat y" 4] zero_padded_facts [of "nat m" 2] zero_padded_facts [of "nat d" 2]
  have len: "length ?ys = 4" "length ?ms = 2" "length ?ds = 2" and digs: "list_all all_digits [?ys, ?ms, ?ds]"
    and val: "dec_value ?ys = nat y" "dec_value ?ms = nat m" "dec_value ?ds = nat d" using z small by simp_all
  have num: "day_number (date_text ?n) = Inr (days_from_civil y m d)"
    unfolding day_number_parts wr using len digs val md e
    by (intro exI [of _ ?ys] exI [of _ ?ms] exI [of _ ?ds]) (simp add: Let_def)
  moreover have dig: "date_digits (date_text ?n) = e"
    unfolding wr date_digits_parts [OF digs len(2,3)] val using n e md by (simp add: ymd_def)
  moreover have "days_from_civil y m d = days"
  proof -
    have r: "day_in_range (days_from_civil y m d)" using day_number_civil [OF num] by metis
    have "ymd_of_days (days_from_civil y m d) = Inr e" using day_number_roundtrip [OF num] dig by simp
    from ymd_of_days_order [OF r assms(1) this assms(2)] ymd_of_days_order [OF assms(1) r assms(2) this]
    show ?thesis by simp
  qed
  ultimately show ?thesis by simp
qed

subsection \<open>The samples satisfy their circuits\<close>

text \<open>The salt is below the field order, and c_B is the Poseidon hash of the tenant under it.\<close>

lemma sample_commitment:
  assumes pos: "\<And>a b. is_signal a \<Longrightarrow> is_signal b \<Longrightarrow> sw_poseidon w a b = Inr (cm_poseidon cm a b) \<and> is_signal (cm_poseidon cm a b)"
    and kec: "length (sw_keccak256 w ''pprev.sample.salt'') = 32"
    and c_b: "counterparty_commitment BN254_R (sw_poseidon w) SAMPLE_TENANT (sample_salt w) = Inr c_b"
  shows "be_value (sample_salt w) < BN254_R" "be_value c_b = cm_poseidon cm (be_value SAMPLE_TENANT) (be_value (sample_salt w))"
proof -
  have tenant: "be_value SAMPLE_TENANT < BN254_R" "length SAMPLE_TENANT \<le> 31"
    using sample_c_b_value(2) by (simp_all add: SAMPLE_TENANT_def sample_tenant_def)
  obtain a bs where raw: "sw_keccak256 w ''pprev.sample.salt'' = a # bs" "length bs = 31"
    using kec by (cases "sw_keccak256 w ''pprev.sample.salt''") auto
  have "be_value (sample_salt w) = byte_val a mod 32 * 256 ^ 31 + be_value bs"
    by (simp add: sample_salt_def fresh_salt_def raw be_value_Cons)
  moreover have "be_value bs < 256 ^ 31" using be_value_less [of bs] raw(2) by simp
  moreover have "byte_val a mod 32 \<le> 31" by simp
  then have "byte_val a mod 32 * 256 ^ 31 \<le> 31 * 256 ^ 31" by (rule mult_le_mono1)
  ultimately have "be_value (sample_salt w) < 32 * 256 ^ 31" by linarith
  also have "(32::nat) * 256 ^ 31 < BN254_R" by (simp add: BN254_R_def)
  finally show salt: "be_value (sample_salt w) < BN254_R" .
  have len: "length (sample_salt w) = 32" by (simp add: sample_salt_def fresh_salt_def raw)
  let ?c = "cm_poseidon cm (be_value SAMPLE_TENANT) (be_value (sample_salt w))"
  have p: "sw_poseidon w (be_value SAMPLE_TENANT) (be_value (sample_salt w)) = Inr ?c" "?c < BN254_R"
    using pos tenant salt by (simp_all add: is_signal_def)
  have "BN254_R < 256 ^ 32" by (simp add: BN254_R_def)
  with p(2) have "?c < 256 ^ 32" by linarith
  then show "be_value c_b = ?c"
    using c_b tenant salt p(1) by (auto simp: counterparty_commitment_def be_limbs_value [OF len] Let_def)
qed

text \<open>The sample input of phi_A satisfies it exactly when the vectors' amount is small enough for the sample income, and
  that of phi_S exactly when the vectors name the sample property.\<close>

theorem phase_samples_satisfy:
  assumes lib: "circomlib_ok (sw_sha256 w) lib" and cm: "comparators_ok cm"
    and pos: "\<And>a b. is_signal a \<Longrightarrow> is_signal b \<Longrightarrow> sw_poseidon w a b = Inr (cm_poseidon cm a b) \<and> is_signal (cm_poseidon cm a b)"
    and kec: "length (sw_keccak256 w ''pprev.sample.salt'') = 32"
    and c_b: "counterparty_commitment BN254_R (sw_poseidon w) SAMPLE_TENANT (sample_salt w) = Inr c_b"
    and la: "validate_record_layout la = Inr ()" "phi_a_params_from_layout la m = Inr Pa" "phi_a_generated Pa"
      "account_width la = 16" "width (record_fields la ! 0) = 20" "hd (padding la) \<noteq> CHR ''A''"
    and ia: "apply_sample_input w la v ed (sample_salt w) c_b = Inr ia"
    and ls: "validate_record_layout ls = Inr ()" "phi_s_params_from_layout ls = Inr Ps" "phi_s_asserts Ps"
      "account_width ls = 16" "hd (padding ls) \<noteq> CHR ''A''"
    and is1: "settle_sample_input w src ls v ed (sample_salt w) c_b = Inr is1"
    and words: "\<And>x. vector_settle w v c_b = Inr x \<Longrightarrow> is_word (tx_property_id (set_tx_data x))"
  shows "(\<exists>x. vector_apply w v c_b = Inr x \<and>
      (phi_a lib cm Pa (fst (phi_a_seen ia)) (snd (phi_a_seen ia)) \<longleftrightarrow>
        unat m * unat (tx_amount (app_tx_data x)) \<le> 3500000000000000000)) \<and>
    (\<exists>x. vector_settle w v c_b = Inr x \<and>
      (phi_s lib cm Ps (fst (phi_s_seen is1)) (snd (phi_s_seen is1)) \<longleftrightarrow>
        field_word ls KEY_PROPERTY_ID ''TR-06-CANKAYA-000123'' = Inr (tx_property_id (set_tx_data x))))"
proof
  note c = sample_commitment [OF pos kec c_b]
  have b: "list_all (\<lambda>b. length b = 16) (map (label_blinder (sw_sha256 w)) labels)" for labels
    using lib by (simp add: list_all_iff circomlib_ok_def label_blinder_length)
  have plain: "plain_value SAMPLE_TENANT" "length SAMPLE_TENANT = 16" "plain_value ''03500000000000000000''"
    "hd SAMPLE_TENANT = CHR ''A''" by (simp_all add: SAMPLE_TENANT_def plain_value_def byte_defs)
  have pad: "valid_padding la" "valid_padding ls"
    using valid_record_padding la(1) ls(1) by (simp_all add: valid_record_layout_def)
  obtain x ops pub where x: "vector_apply w v c_b = Inr x"
    and opn: "record_openings la SAMPLE_TENANT [''03500000000000000000'']
      (map (label_blinder (sw_sha256 w)) [''sample.account'', ''sample.monthlyIncome'']) = Inr ops"
    and pub: "phi_a_new (opening_commitment (sw_sha256 w) (ops ! 0)) (opening_commitment (sw_sha256 w) (ops ! 1)) c_b
      (tx_amount (app_tx_data x)) (digest (sw_eip712_hash w) (Apply_stmt x) ed) = Inr pub"
    and inp: "phi_a_input_new pub ops (sample_salt w) = Inr ia"
    using ia by (auto simp: apply_sample_input_def and_then_Inr_iff index_at_def split: if_splits)
  have "income_shows cm la (unat m) SAMPLE_TENANT ''03500000000000000000'' c_b (unat (tx_amount (app_tx_data x))) (sample_salt w)
      \<longleftrightarrow> unat m * unat (tx_amount (app_tx_data x)) \<le> 3500000000000000000"
  proof -
    have "pad la SAMPLE_TENANT 16 = Inr SAMPLE_TENANT" "pad la ''03500000000000000000'' 20 = Inr ''03500000000000000000''"
      using pad_full [OF plain(1,2) pad(1)] pad_full [OF plain(3) _ pad(1), of 20] by simp_all
    then show ?thesis
      using la(4-6) plain(4) c(2)
      by (simp add: income_shows_def all_digits_def is_ascii_digit_def dec_value_def)
  qed
  then show "\<exists>x. vector_apply w v c_b = Inr x \<and>
      (phi_a lib cm Pa (fst (phi_a_seen ia)) (snd (phi_a_seen ia)) \<longleftrightarrow>
        unat m * unat (tx_amount (app_tx_data x)) \<le> 3500000000000000000)"
    using x applicant_input_iff [OF lib cm la(1-3) opn b pub inp c(1)] by blast
  obtain y expires e ops' pub' where y: "vector_settle w v c_b = Inr y"
    and e: "engagement_day expires SAMPLE_TAU_LOCK (utc_offset_secs src) = Inr e"
    and opn': "record_openings ls SAMPLE_LANDLORD [''TR-06-CANKAYA-000123'', SAMPLE_TENANT, date_text (nat e)]
      (map (label_blinder (sw_sha256 w))
        [''sample.account'', ''sample.propertyId'', ''sample.tenant'', ''sample.recordDate'']) = Inr ops'"
    and pub': "phi_s_new (opening_commitment (sw_sha256 w) (ops' ! 1), opening_commitment (sw_sha256 w) (ops' ! 2),
      opening_commitment (sw_sha256 w) (ops' ! 3)) (tx_property_id (set_tx_data y)) c_b (nat e)
      (digest (sw_eip712_hash w) (Settle_stmt y) ed) = Inr pub'"
    and inp': "phi_s_input_new pub' ops' (sample_salt w) = Inr is1"
    using is1 by (auto simp: settle_sample_input_def and_then_Inr_iff some_or_Inr_iff index_at_def split: if_splits)
  obtain days where days: "day_in_range days" "ymd_of_days days = Inr e"
    using e i64_day_in_range by (auto simp: engagement_day_Inr_iff)
  note date = date_text_reads_back [OF days]
  have "date_digits (date_text (nat e)) = e" and "length (date_text (nat e)) = 10"
    using date by (auto simp: day_number_parts)
  moreover have "0 \<le> e" using date_digits_range [of "date_text (nat e)" days] date by simp
  moreover have "pad ls (date_text (nat e)) 10 = Inr (date_text (nat e))"
  proof -
    have "pad ls (date_text (nat e)) 10 = Inr (fo_plaintext (ops' ! 3))"
      using record_openings_Inr(4) [OF ls(1) opn', of 2] record_openings_Inr(2) [OF ls(1) opn'] settle_params(6) [OF ls(2)]
      by (simp add: numeral_3_eq_3)
    then have "plain_value (date_text (nat e))" using pad(2) by (auto dest!: valid_padding_char simp: pad_Inr_iff)
    then show ?thesis using pad_full [OF _ \<open>length (date_text (nat e)) = 10\<close> pad(2)] by blast
  qed
  moreover have "pad ls SAMPLE_TENANT 16 = Inr SAMPLE_TENANT" using pad_full [OF plain(1,2) pad(2)] by simp
  ultimately have "notation_shows cm ls ''TR-06-CANKAYA-000123'' SAMPLE_TENANT (date_text (nat e)) (tx_property_id (set_tx_data y))
      c_b (nat e) (sample_salt w) \<longleftrightarrow>
    field_word ls KEY_PROPERTY_ID ''TR-06-CANKAYA-000123'' = Inr (tx_property_id (set_tx_data y))"
    using ls(4,5) plain(4) c(2) date by (simp add: notation_shows_def)
  then show "\<exists>x. vector_settle w v c_b = Inr x \<and>
      (phi_s lib cm Ps (fst (phi_s_seen is1)) (snd (phi_s_seen is1)) \<longleftrightarrow>
        field_word ls KEY_PROPERTY_ID ''TR-06-CANKAYA-000123'' = Inr (tx_property_id (set_tx_data x)))"
    using y tenancy_input_iff [OF lib cm ls(1-3) opn' b words [OF y] pub' inp' c(1)] by blast
qed

end
