(* ===== verification/Netem.thy ===== *)
theory Netem
  imports Prelude "HOL-Library.Word" "HOL-Library.Sublist"
begin

section \<open>The emulated link\<close>

text \<open>
  Model of \<open>pprev-prover/src/netem.rs\<close>: the delivery schedule of one direction, the reader and the writer of
  a direction as a step relation over their queue, the permits and the clock, and a proxied connection of
  two directions. Times are nanoseconds without a bound. The time to put bytes on the link at a bandwidth
  is computed in floating point, and is an argument. What a direction has read and delivered is kept as
  a log, which the code has not. Two things are coarser than in the code. The wake-ups of the \<open>Notify\<close> have
  no counterpart: the writer may take whenever the queue is not empty, which is what the code gives, since
  every push is followed by a \<open>notify_one\<close> and the writer looks at the queue before it waits. And a write is
  one step: the bytes that a failing \<open>write_all\<close> may have sent before it failed are not seen.
\<close>

definition CHUNK :: nat where "CHUNK = 16 * 1024"

record link_params =
  lk_delay :: nat
  lk_bits_per_sec :: "u64 option"
  lk_queue_bytes :: nat

definition serialisation :: "(nat \<Rightarrow> u64 \<Rightarrow> nat) \<Rightarrow> link_params \<Rightarrow> nat \<Rightarrow> nat" where
  "serialisation transfer params n =
     (case lk_bits_per_sec params of Some bps \<Rightarrow> transfer n bps | None \<Rightarrow> 0)"

definition validate_link :: "link_params \<Rightarrow> unit res" where
  "validate_link params =
     ensure (lk_bits_per_sec params \<noteq> Some 0) ''the bandwidth must be positive'' (
     ensure (CHUNK \<le> lk_queue_bytes params \<and> lk_queue_bytes params \<le> 2 ^ 30)
       ''the queue must hold between a chunk and 1 GiB'' (Inr ()))"

subsection \<open>The schedule\<close>

record schedule =
  sc_params :: link_params
  sc_link_free_at :: "nat option"

definition schedule_new :: "link_params \<Rightarrow> schedule" where
  "schedule_new params = \<lparr>sc_params = params, sc_link_free_at = None\<rparr>"

definition deliver_at :: "(nat \<Rightarrow> u64 \<Rightarrow> nat) \<Rightarrow> schedule \<Rightarrow> nat \<Rightarrow> nat \<Rightarrow> nat \<times> schedule" where
  "deliver_at transfer s now n =
     (let start = (case sc_link_free_at s of Some free \<Rightarrow> if free > now then free else now | None \<Rightarrow> now);
          sent = start + serialisation transfer (sc_params s) n in
      (sent + lk_delay (sc_params s), s\<lparr>sc_link_free_at := Some sent\<rparr>))"

subsection \<open>One direction\<close>

text \<open>The reader waits for input, holds a chunk until there is room for it, or has seen the end of the
  stream. The writer waits, holds what it took from the queue until its time, or has shut down.\<close>

datatype reader = Reading | Admitting bytes | Reader_done
datatype writer = Idle | Holding nat bytes | Writer_done

record pump =
  pu_schedule :: schedule
  pu_queue :: "(nat \<times> bytes) list"
  pu_room :: nat
  pu_reader :: reader
  pu_writer :: writer
  pu_counter :: u64
  pu_clock :: nat
  pu_read :: bytes
  pu_delivered :: "(nat \<times> bytes) list"

definition pump_new :: "link_params \<Rightarrow> nat \<Rightarrow> pump" where
  "pump_new params now =
     \<lparr>pu_schedule = schedule_new params, pu_queue = [], pu_room = lk_queue_bytes params, pu_reader = Reading,
      pu_writer = Idle, pu_counter = 0, pu_clock = now, pu_read = [], pu_delivered = []\<rparr>"

inductive pump_step :: "(nat \<Rightarrow> u64 \<Rightarrow> nat) \<Rightarrow> pump \<Rightarrow> pump \<Rightarrow> bool" for transfer where
  pump_waits: "pump_step transfer p (p\<lparr>pu_clock := pu_clock p + d\<rparr>)"
| pump_reads: "pu_reader p = Reading \<Longrightarrow> chunk \<noteq> [] \<Longrightarrow> length chunk \<le> CHUNK \<Longrightarrow>
    pump_step transfer p (p\<lparr>pu_reader := Admitting chunk, pu_read := pu_read p @ chunk\<rparr>)"
| pump_admits: "pu_reader p = Admitting chunk \<Longrightarrow> length chunk \<le> pu_room p \<Longrightarrow>
    deliver_at transfer (pu_schedule p) (pu_clock p) (length chunk) = (at, s) \<Longrightarrow>
    pump_step transfer p (p\<lparr>pu_reader := Reading, pu_room := pu_room p - length chunk, pu_schedule := s,
      pu_queue := pu_queue p @ [(at, chunk)]\<rparr>)"
| pump_ends: "pu_reader p = Reading \<Longrightarrow>
    deliver_at transfer (pu_schedule p) (pu_clock p) 0 = (at, s) \<Longrightarrow>
    pump_step transfer p (p\<lparr>pu_reader := Reader_done, pu_schedule := s, pu_queue := pu_queue p @ [(at, [])]\<rparr>)"
| pump_takes: "pu_writer p = Idle \<Longrightarrow> pu_queue p = (at, bs) # q \<Longrightarrow>
    pump_step transfer p (p\<lparr>pu_writer := Holding at bs, pu_queue := q\<rparr>)"
| pump_writes: "pu_writer p = Holding at bs \<Longrightarrow> bs \<noteq> [] \<Longrightarrow> at \<le> pu_clock p \<Longrightarrow>
    pump_step transfer p (p\<lparr>pu_writer := Idle, pu_room := pu_room p + length bs,
      pu_counter := pu_counter p + of_nat (length bs), pu_delivered := pu_delivered p @ [(pu_clock p, bs)]\<rparr>)"
| pump_shuts: "pu_writer p = Holding at [] \<Longrightarrow> at \<le> pu_clock p \<Longrightarrow>
    pump_step transfer p (p\<lparr>pu_writer := Writer_done\<rparr>)"

definition pump_finished :: "pump \<Rightarrow> bool" where
  "pump_finished p \<longleftrightarrow> pu_reader p = Reader_done \<and> pu_writer p = Writer_done"

inductive pump_run :: "(nat \<Rightarrow> u64 \<Rightarrow> nat) \<Rightarrow> link_params \<Rightarrow> pump \<Rightarrow> bool" for transfer params where
  pump_start: "pump_run transfer params (pump_new params now)"
| pump_next: "pump_run transfer params p \<Longrightarrow> pump_step transfer p q \<Longrightarrow> pump_run transfer params q"

inductive_cases pump_stepE: "pump_step transfer p q"

subsection \<open>A connection\<close>

text \<open>Two directions run until each has ended; an error in either ends both.\<close>

datatype proxy_outcome = Closed | Errored bytes

record proxy =
  px_forward :: pump
  px_reverse :: pump
  px_outcome :: "proxy_outcome option"

definition proxy_new :: "link_params \<Rightarrow> link_params \<Rightarrow> nat \<Rightarrow> proxy" where
  "proxy_new forward reverse now =
     \<lparr>px_forward = pump_new forward now, px_reverse = pump_new reverse now, px_outcome = None\<rparr>"

inductive proxy_step :: "(nat \<Rightarrow> u64 \<Rightarrow> nat) \<Rightarrow> proxy \<Rightarrow> proxy \<Rightarrow> bool" for transfer where
  proxy_forward: "px_outcome x = None \<Longrightarrow> pump_step transfer (px_forward x) p \<Longrightarrow>
    proxy_step transfer x (x\<lparr>px_forward := p\<rparr>)"
| proxy_reverse: "px_outcome x = None \<Longrightarrow> pump_step transfer (px_reverse x) p \<Longrightarrow>
    proxy_step transfer x (x\<lparr>px_reverse := p\<rparr>)"
| proxy_fails: "px_outcome x = None \<Longrightarrow> \<not> pump_finished (px_forward x) \<or> \<not> pump_finished (px_reverse x) \<Longrightarrow>
    proxy_step transfer x (x\<lparr>px_outcome := Some (Errored e)\<rparr>)"
| proxy_closes: "px_outcome x = None \<Longrightarrow> pump_finished (px_forward x) \<Longrightarrow> pump_finished (px_reverse x) \<Longrightarrow>
    proxy_step transfer x (x\<lparr>px_outcome := Some Closed\<rparr>)"

inductive proxy_run :: "(nat \<Rightarrow> u64 \<Rightarrow> nat) \<Rightarrow> link_params \<Rightarrow> link_params \<Rightarrow> proxy \<Rightarrow> bool"
  for transfer forward reverse where
  proxy_start: "proxy_run transfer forward reverse (proxy_new forward reverse now)"
| proxy_next: "proxy_run transfer forward reverse x \<Longrightarrow> proxy_step transfer x y \<Longrightarrow> proxy_run transfer forward reverse y"

text \<open>The line of the log for a connection that ended.\<close>

record proxy_line =
  pl_forward_bytes :: u64
  pl_reverse_bytes :: u64
  pl_outcome :: bytes

definition proxy_line_of :: "proxy \<Rightarrow> proxy_line option" where
  "proxy_line_of x =
     (case px_outcome x of
        None \<Rightarrow> None
      | Some result \<Rightarrow> Some \<lparr>pl_forward_bytes = pu_counter (px_forward x), pl_reverse_bytes = pu_counter (px_reverse x),
          pl_outcome = (case result of Closed \<Rightarrow> ''closed'' | Errored e \<Rightarrow> ''error: '' @ e)\<rparr>)"

subsection \<open>Invariants of a direction\<close>

definition held :: "pump \<Rightarrow> (nat \<times> bytes) list" where
  "held p = (case pu_writer p of Holding at bs \<Rightarrow> [(at, bs)] | _ \<Rightarrow> []) @ pu_queue p"

definition admitting :: "pump \<Rightarrow> bytes" where
  "admitting p = (case pu_reader p of Admitting bs \<Rightarrow> bs | _ \<Rightarrow> [])"

definition flying :: "pump \<Rightarrow> bytes" where
  "flying p = concat (map snd (held p))"

definition delivered :: "pump \<Rightarrow> bytes" where
  "delivered p = concat (map snd (pu_delivered p))"

text \<open>The bytes are where they should be: delivered, in flight in order, or waiting for room; the room is
  what the bytes in flight leave.\<close>

definition bytes_ok :: "link_params \<Rightarrow> pump \<Rightarrow> bool" where
  "bytes_ok params p \<longleftrightarrow>
     sc_params (pu_schedule p) = params \<and>
     pu_read p = delivered p @ flying p @ admitting p \<and>
     pu_room p + length (flying p) = lk_queue_bytes params \<and>
     length (admitting p) \<le> CHUNK \<and>
     pu_counter p = of_nat (length (delivered p))"

text \<open>The end marker is the last of what is in flight, until it has shut the writer.\<close>

definition end_ok :: "pump \<Rightarrow> bool" where
  "end_ok p \<longleftrightarrow>
     (if pu_reader p \<noteq> Reader_done then pu_writer p \<noteq> Writer_done \<and> [] \<notin> snd ` set (held p)
      else if pu_writer p = Writer_done then held p = []
      else \<exists>xs at. held p = xs @ [(at, [])] \<and> [] \<notin> snd ` set xs)"

definition pump_ok :: "link_params \<Rightarrow> pump \<Rightarrow> bool" where
  "pump_ok params p \<longleftrightarrow> bytes_ok params p \<and> end_ok p \<and> (\<forall>chunk. pu_reader p = Admitting chunk \<longrightarrow> chunk \<noteq> [])"

lemmas pump_defs = bytes_ok_def held_def flying_def admitting_def delivered_def deliver_at_def Let_def

lemma pump_step_bytes: "pump_step transfer p q \<Longrightarrow> bytes_ok params p \<Longrightarrow> bytes_ok params q"
  by (cases "pu_writer p"; cases "pu_reader p"; erule pump_stepE) (auto simp: pump_defs)

lemma pump_step_end:
  assumes "pump_step transfer p q" and "pump_ok params p"
  shows "end_ok q"
  using assms
proof (cases rule: pump_step.cases)
  case (pump_takes at bs qs)
  then have "held q = held p" by (simp add: held_def)
  then show ?thesis using pump_takes assms(2) by (auto simp: pump_ok_def end_ok_def)
next
  case (pump_writes at bs)
  then have h: "held p = (at, bs) # held q" by (simp add: held_def)
  show ?thesis
  proof (cases "pu_reader p = Reader_done")
    case True
    then obtain xs at' where "held p = xs @ [(at', [])]" "[] \<notin> snd ` set xs"
      using pump_writes assms(2) by (auto simp: pump_ok_def end_ok_def)
    then have "\<exists>ys. held q = ys @ [(at', [])] \<and> [] \<notin> snd ` set ys"
      using h pump_writes(3) by (cases xs) auto
    then show ?thesis using pump_writes(1) True by (auto simp: end_ok_def)
  qed (use h pump_writes assms(2) in \<open>auto simp: pump_ok_def end_ok_def\<close>)
next
  case (pump_shuts at)
  then have h: "held p = (at, []) # pu_queue p" by (simp add: held_def)
  have over: "pu_reader p = Reader_done" using h assms(2) by (auto simp: pump_ok_def end_ok_def split: if_splits)
  then obtain xs at' where "held p = xs @ [(at', [])]" "[] \<notin> snd ` set xs"
    using pump_shuts assms(2) by (auto simp: pump_ok_def end_ok_def)
  with h have "pu_queue p = []" by (cases xs) auto
  then show ?thesis using pump_shuts over by (simp add: end_ok_def held_def)
qed (use assms(2) in \<open>auto simp: pump_ok_def end_ok_def held_def\<close>)

lemma pump_step_ok: "pump_step transfer p q \<Longrightarrow> pump_ok params p \<Longrightarrow> pump_ok params q"
  using pump_step_bytes pump_step_end by (fastforce simp: pump_ok_def elim: pump_stepE)

lemma pump_new_ok: "pump_ok params (pump_new params now)"
  by (simp add: pump_ok_def pump_new_def end_ok_def schedule_new_def pump_defs)

lemma pump_run_ok: "pump_run transfer params p \<Longrightarrow> pump_ok params p"
  by (induction rule: pump_run.induct) (blast intro: pump_new_ok pump_step_ok)+

text \<open>C34: Nothing is lost, duplicated or reordered by a direction, at any speed of its two sides: what it has
  delivered is a prefix of what it has read, the rest is in flight in order; the bytes in flight never
  exceed the queue's bound; the counter counts the delivered bytes, modulo \<open>2^64\<close>; and when both sides
  have ended everything that was read has been delivered.\<close>

theorem pump_delivers_in_order:
  assumes "pump_run transfer params p"
  shows "prefix (delivered p) (pu_read p) \<and>
    length (flying p) \<le> lk_queue_bytes params \<and>
    length (pu_read p) \<le> length (delivered p) + lk_queue_bytes params + CHUNK \<and>
    pu_counter p = of_nat (length (delivered p)) \<and>
    (if pump_finished p then delivered p = pu_read p else True)"
  using pump_run_ok [OF assms]
  by (auto simp: pump_ok_def bytes_ok_def end_ok_def pump_finished_def prefix_def flying_def admitting_def)

subsection \<open>A direction can always finish\<close>

abbreviation pump_steps :: "(nat \<Rightarrow> u64 \<Rightarrow> nat) \<Rightarrow> pump \<Rightarrow> pump \<Rightarrow> bool" where
  "pump_steps transfer \<equiv> (pump_step transfer)\<^sup>*\<^sup>*"

lemma pump_steps_ok: "pump_steps transfer p q \<Longrightarrow> pump_ok params p \<Longrightarrow> pump_ok params q"
  by (induction rule: rtranclp_induct) (auto intro: pump_step_ok)

lemma take_first:
  assumes "pump_ok params p" and "held p = (at, bs) # rest"
  shows "\<exists>q. pump_steps transfer p q \<and> pu_writer q = Holding at bs \<and> pu_queue q = rest \<and> at \<le> pu_clock q \<and>
    pu_reader q = pu_reader p \<and> pu_read q = pu_read p"
proof -
  have "\<exists>q. pump_steps transfer p q \<and> pu_writer q = Holding at bs \<and> pu_queue q = rest \<and>
      pu_reader q = pu_reader p \<and> pu_read q = pu_read p"
  proof (cases "pu_writer p")
    case Idle
    then have "pump_step transfer p (p\<lparr>pu_writer := Holding at bs, pu_queue := rest\<rparr>)"
      using assms(2) by (auto simp: held_def intro: pump_takes)
    then show ?thesis by (intro exI conjI) (erule r_into_rtranclp, simp_all)
  next
    case (Holding a b)
    then show ?thesis using assms(2) by (intro exI [of _ p]) (simp add: held_def)
  next
    case Writer_done
    then show ?thesis using assms by (auto simp: pump_ok_def end_ok_def split: if_splits)
  qed
  then obtain q where q: "pump_steps transfer p q" "pu_writer q = Holding at bs" "pu_queue q = rest"
    "pu_reader q = pu_reader p" "pu_read q = pu_read p" by blast
  have "pump_step transfer q (q\<lparr>pu_clock := pu_clock q + at\<rparr>)" by (rule pump_waits)
  with q(1) have "pump_steps transfer p (q\<lparr>pu_clock := pu_clock q + at\<rparr>)" by (rule rtranclp.rtrancl_into_rtrancl)
  then show ?thesis using q(2-5) by (intro exI conjI) (assumption, simp_all)
qed

lemma drain:
  assumes "pump_ok params p" and "held p = xs @ ys" and "[] \<notin> snd ` set xs"
  shows "\<exists>q. pump_steps transfer p q \<and> held q = ys \<and> pu_reader q = pu_reader p \<and> pu_read q = pu_read p"
  using assms
proof (induction xs arbitrary: p)
  case Nil
  then show ?case by auto
next
  case (Cons x xs)
  obtain at bs where x: "x = (at, bs)" "bs \<noteq> []" using Cons.prems(3) by (cases x) auto
  then obtain q where q: "pump_steps transfer p q" "pu_writer q = Holding at bs" "pu_queue q = xs @ ys"
    "at \<le> pu_clock q" "pu_reader q = pu_reader p" "pu_read q = pu_read p"
    using take_first [OF Cons.prems(1), of at bs "xs @ ys" transfer] Cons.prems(2) by auto
  define r where "r = q\<lparr>pu_writer := Idle, pu_room := pu_room q + length bs,
    pu_counter := pu_counter q + of_nat (length bs), pu_delivered := pu_delivered q @ [(pu_clock q, bs)]\<rparr>"
  have "pump_step transfer q r" unfolding r_def by (rule pump_writes [OF q(2) x(2) q(4)])
  with q(1) have steps: "pump_steps transfer p r" by (rule rtranclp.rtrancl_into_rtrancl)
  have "held r = xs @ ys" using q(3) by (simp add: r_def held_def)
  moreover have "[] \<notin> snd ` set xs" using Cons.prems(3) by simp
  ultimately obtain t where "pump_steps transfer r t" "held t = ys" "pu_reader t = pu_reader r" "pu_read t = pu_read r"
    using Cons.IH [OF pump_steps_ok [OF steps Cons.prems(1)]] by blast
  then show ?case using steps q(5,6) by (intro exI [of _ t]) (auto simp: r_def intro: rtranclp_trans)
qed

lemma shut:
  assumes "pump_ok params p" and "held p = [(at, [])]" and "pu_reader p = Reader_done"
  shows "\<exists>q. pump_steps transfer p q \<and> pump_finished q \<and> pu_read q = pu_read p"
proof -
  from take_first [OF assms(1,2)] obtain q where q: "pump_steps transfer p q" "pu_writer q = Holding at []"
    "at \<le> pu_clock q" "pu_reader q = Reader_done" "pu_read q = pu_read p" using assms(3) by metis
  have "pump_step transfer q (q\<lparr>pu_writer := Writer_done\<rparr>)" by (rule pump_shuts [OF q(2,3)])
  with q(1) have "pump_steps transfer p (q\<lparr>pu_writer := Writer_done\<rparr>)" by (rule rtranclp.rtrancl_into_rtrancl)
  then show ?thesis using q(4,5) by (intro exI conjI) (assumption, simp_all add: pump_finished_def)
qed

lemma finish_reading:
  assumes "pump_ok params p" and "pu_reader p = Reading"
  shows "\<exists>q. pump_steps transfer p q \<and> pump_finished q \<and> pu_read q = pu_read p"
proof -
  have "[] \<notin> snd ` set (held p)" using assms by (auto simp: pump_ok_def end_ok_def)
  with drain [OF assms(1), of "held p" "[]"] obtain q where q: "pump_steps transfer p q" "held q = []"
    "pu_reader q = Reading" "pu_read q = pu_read p" using assms(2) by auto
  obtain at s where "deliver_at transfer (pu_schedule q) (pu_clock q) 0 = (at, s)" by fastforce
  from pump_ends [OF q(3) this] have step: "pump_step transfer q
      (q\<lparr>pu_reader := Reader_done, pu_schedule := s, pu_queue := pu_queue q @ [(at, [])]\<rparr>)" (is "pump_step transfer q ?r") .
  have steps: "pump_steps transfer p ?r" using q(1) step by (rule rtranclp.rtrancl_into_rtrancl)
  have "held ?r = [(at, [])]" using q(2) by (simp add: held_def split: writer.splits)
  from shut [OF pump_steps_ok [OF steps assms(1)] this] obtain t where "pump_steps transfer ?r t" "pump_finished t"
    "pu_read t = pu_read ?r" by auto
  then show ?thesis using steps q(4) by (intro exI [of _ t]) (auto intro: rtranclp_trans)
qed

lemma finish:
  assumes "pump_ok params p" and "CHUNK \<le> lk_queue_bytes params"
  shows "\<exists>q. pump_steps transfer p q \<and> pump_finished q \<and> pu_read q = pu_read p"
proof (cases "pu_reader p")
  case Reading
  then show ?thesis using finish_reading [OF assms(1)] by blast
next
  case Reader_done
  show ?thesis
  proof (cases "pu_writer p = Writer_done")
    case True
    then show ?thesis using Reader_done by (intro exI [of _ p]) (simp add: pump_finished_def)
  next
    case False
    then obtain xs at where "held p = xs @ [(at, [])]" "[] \<notin> snd ` set xs"
      using assms(1) Reader_done by (auto simp: pump_ok_def end_ok_def)
    from drain [OF assms(1) this] obtain q where q: "pump_steps transfer p q" "held q = [(at, [])]"
      "pu_reader q = Reader_done" "pu_read q = pu_read p" using Reader_done by auto
    from shut [OF pump_steps_ok [OF q(1) assms(1)] q(2,3)] q(1,4) show ?thesis by (metis rtranclp_trans)
  qed
next
  case (Admitting chunk)
  then have "[] \<notin> snd ` set (held p)" using assms by (auto simp: pump_ok_def end_ok_def)
  with drain [OF assms(1), of "held p" "[]"] obtain q where q: "pump_steps transfer p q" "held q = []"
    "pu_reader q = Admitting chunk" "pu_read q = pu_read p" using Admitting by auto
  have "bytes_ok params q" using pump_steps_ok [OF q(1) assms(1)] by (simp add: pump_ok_def)
  then have room: "length chunk \<le> pu_room q" using q(2,3) assms(2) by (simp add: bytes_ok_def flying_def admitting_def)
  obtain at s where "deliver_at transfer (pu_schedule q) (pu_clock q) (length chunk) = (at, s)" by fastforce
  from pump_admits [OF q(3) room this] have step: "pump_step transfer q (q\<lparr>pu_reader := Reading,
      pu_room := pu_room q - length chunk, pu_schedule := s, pu_queue := pu_queue q @ [(at, chunk)]\<rparr>)"
    (is "pump_step transfer q ?r") .
  have steps: "pump_steps transfer p ?r" using q(1) step by (rule rtranclp.rtrancl_into_rtrancl)
  from finish_reading [OF pump_steps_ok [OF steps assms(1)]] obtain t where "pump_steps transfer ?r t" "pump_finished t"
    "pu_read t = pu_read ?r" by auto
  then show ?thesis using steps q(4) by (intro exI [of _ t]) (auto intro: rtranclp_trans)
qed

text \<open>C25: With parameters that pass \<open>validate\<close> a direction never gets stuck: from every state that it can
  reach, whatever waits for room, there are steps after which both sides have ended and every byte read
  so far has been delivered.\<close>

theorem pump_can_finish:
  assumes "validate_link params = Inr ()" and "pump_run transfer params p"
  shows "\<exists>q. pump_steps transfer p q \<and> pump_finished q \<and> pu_read q = pu_read p \<and> delivered q = pu_read p"
proof -
  have "CHUNK \<le> lk_queue_bytes params" using assms(1) by (simp add: validate_link_def ensure_Inr_iff)
  from finish [OF pump_run_ok [OF assms(2)] this] obtain q where q: "pump_steps transfer p q" "pump_finished q"
    "pu_read q = pu_read p" by blast
  then have "delivered q = pu_read q"
    using pump_steps_ok [OF q(1) pump_run_ok [OF assms(2)]]
    by (simp add: pump_ok_def bytes_ok_def end_ok_def pump_finished_def flying_def admitting_def)
  with q show ?thesis by auto
qed

subsection \<open>The schedule against the link it stands for\<close>

text \<open>The delivery times of chunks that are read at given times.\<close>

fun deliveries :: "(nat \<Rightarrow> u64 \<Rightarrow> nat) \<Rightarrow> schedule \<Rightarrow> (nat \<times> nat) list \<Rightarrow> nat list" where
  "deliveries transfer s [] = []"
| "deliveries transfer s ((now, n) # xs) =
     (let (at, s') = deliver_at transfer s now n in at # deliveries transfer s' xs)"

text \<open>A link that never waits with something to send: when the \<open>k\<close>-th chunk has left it.\<close>

definition departure :: "(nat \<Rightarrow> nat) \<Rightarrow> (nat \<times> nat) list \<Rightarrow> nat \<Rightarrow> nat" where
  "departure ser xs k = Max ((\<lambda>j. fst (xs ! j) + (\<Sum>i = j..k. ser (snd (xs ! i)))) ` {..k})"

lemma departure_Cons_0: "departure ser ((now, n) # xs) 0 = now + ser n"
  by (simp add: departure_def)

lemma departure_Cons_Suc:
  "departure ser ((now, n) # xs) (Suc k) =
     max (now + (\<Sum>i = 0..Suc k. ser (snd (((now, n) # xs) ! i)))) (departure ser xs k)"
proof -
  have "{..Suc k} = insert 0 (Suc ` {..k})" by (auto simp: image_iff) (metis atMost_iff Suc_le_mono not0_implies_Suc)
  moreover have "(\<lambda>j. fst (((now, n) # xs) ! j) + (\<Sum>i = j..Suc k. ser (snd (((now, n) # xs) ! i)))) ` Suc ` {..k} =
      (\<lambda>j. fst (xs ! j) + (\<Sum>i = j..k. ser (snd (xs ! i)))) ` {..k}"
    by (simp add: image_image sum.shift_bounds_cl_Suc_ivl del: sum.cl_ivl_Suc)
  ultimately show ?thesis unfolding departure_def by simp
qed

lemma deliveries_length [simp]: "length (deliveries transfer s xs) = length xs"
  by (induction transfer s xs rule: deliveries.induct) (auto split: prod.splits)

lemma deliveries_from:
  assumes "k < length xs"
  shows "deliveries transfer s xs ! k = lk_delay (sc_params s) +
    (case sc_link_free_at s of
       None \<Rightarrow> departure (serialisation transfer (sc_params s)) xs k
     | Some free \<Rightarrow> max (free + (\<Sum>i = 0..k. serialisation transfer (sc_params s) (snd (xs ! i))))
         (departure (serialisation transfer (sc_params s)) xs k))"
  using assms
proof (induction transfer s xs arbitrary: k rule: deliveries.induct)
  case (2 transfer s now n xs)
  let ?ser = "serialisation transfer (sc_params s)"
  obtain at s' where d: "deliver_at transfer s now n = (at, s')" by fastforce
  let ?start = "case sc_link_free_at s of Some free \<Rightarrow> max free now | None \<Rightarrow> now"
  have d': "at = ?start + ?ser n + lk_delay (sc_params s)" "sc_params s' = sc_params s"
    "sc_link_free_at s' = Some (?start + ?ser n)"
    using d by (auto simp: deliver_at_def Let_def max_def split: option.splits)
  show ?case
  proof (cases k)
    case 0
    then show ?thesis using d d' by (simp add: departure_Cons_0 split: option.splits)
  next
    case (Suc m)
    have sums: "(\<Sum>i = 0..Suc m. ?ser (snd (((now, n) # xs) ! i))) = ?ser n + (\<Sum>i = 0..m. ?ser (snd (xs ! i)))"
      by (simp add: sum.atLeast0_atMost_Suc_shift del: sum.cl_ivl_Suc)
    have "deliveries transfer s' xs ! m = lk_delay (sc_params s) +
        max (?start + ?ser n + (\<Sum>i = 0..m. ?ser (snd (xs ! i)))) (departure ?ser xs m)"
      using "2.IH" [OF d [symmetric] refl, of m] "2.prems" Suc d' by simp
    then show ?thesis using d Suc
      by (simp add: departure_Cons_Suc sums max_def split: option.splits del: sum.cl_ivl_Suc)
  qed
qed simp

lemma departure_step:
  "departure ser xs (Suc k) = max (departure ser xs k) (fst (xs ! Suc k)) + ser (snd (xs ! Suc k))"
proof -
  let ?f = "\<lambda>k j. fst (xs ! j) + (\<Sum>i = j..k. ser (snd (xs ! i)))"
  let ?s = "ser (snd (xs ! Suc k))"
  have "?f (Suc k) ` {..Suc k} = insert (fst (xs ! Suc k) + ?s) ((\<lambda>x. x + ?s) ` ?f k ` {..k})"
    by (auto simp: image_image atMost_Suc le_Suc_eq)
  moreover have "Max ((\<lambda>x. x + ?s) ` ?f k ` {..k}) = Max (?f k ` {..k}) + ?s"
    by (rule mono_Max_commute [symmetric]) (auto simp: mono_def)
  ultimately have "departure ser xs (Suc k) = max (fst (xs ! Suc k) + ?s) (departure ser xs k + ?s)"
    unfolding departure_def by (simp only:) (subst Max_insert, auto)
  then show ?thesis by (simp add: max_def)
qed

text \<open>The schedule is the link that the module describes: the \<open>k\<close>-th chunk arrives the propagation delay
  after a link that never idles with something to send has put its last byte out; so chunks arrive in
  order, each at least its own serialisation after the one before, and none earlier than its reading,
  its serialisation and the delay allow.\<close>

theorem schedule_is_a_link:
  assumes "k < length xs"
  shows "deliveries transfer (schedule_new params) xs ! k =
      lk_delay params + departure (serialisation transfer params) xs k \<and>
    fst (xs ! k) + serialisation transfer params (snd (xs ! k)) + lk_delay params
      \<le> deliveries transfer (schedule_new params) xs ! k \<and>
    (if Suc k < length xs then
       deliveries transfer (schedule_new params) xs ! k + serialisation transfer params (snd (xs ! Suc k))
         \<le> deliveries transfer (schedule_new params) xs ! Suc k
     else True)"
proof -
  have eq: "deliveries transfer (schedule_new params) xs ! j =
      lk_delay params + departure (serialisation transfer params) xs j" if "j < length xs" for j
    using deliveries_from [OF that] by (simp add: schedule_new_def)
  have "fst (xs ! k) + ser (snd (xs ! k)) \<le> departure ser xs k" for ser
    by (cases k) (simp_all add: departure_step, simp add: departure_def)
  then show ?thesis using eq assms by (simp add: departure_step)
qed

subsection \<open>A proxied connection\<close>

lemma proxy_run_ok:
  "proxy_run transfer forward reverse x \<Longrightarrow> pump_run transfer forward (px_forward x) \<and> pump_run transfer reverse (px_reverse x) \<and>
     (px_outcome x = Some Closed \<longrightarrow> pump_finished (px_forward x) \<and> pump_finished (px_reverse x))"
proof (induction rule: proxy_run.induct)
  case (proxy_start now)
  show ?case by (auto simp: proxy_new_def intro: pump_start)
next
  case (proxy_next x y)
  from proxy_next(2,3) show ?case by (cases rule: proxy_step.cases) (auto intro: pump_next)
qed

text \<open>A connection that closes normally has carried every byte of both sides, and its line in the log
  counts them; a half-close of one side leaves the other's bytes to be delivered.\<close>

theorem closed_connection_is_complete:
  assumes "proxy_run transfer forward reverse x" and "px_outcome x = Some Closed"
  shows "delivered (px_forward x) = pu_read (px_forward x) \<and> delivered (px_reverse x) = pu_read (px_reverse x) \<and>
    proxy_line_of x = Some
      \<lparr>pl_forward_bytes = of_nat (length (pu_read (px_forward x))),
       pl_reverse_bytes = of_nat (length (pu_read (px_reverse x))), pl_outcome = ''closed''\<rparr>"
proof -
  have complete: "delivered p = pu_read p \<and> pu_counter p = of_nat (length (pu_read p))"
    if "pump_run transfer params p" "pump_finished p" for params p
    using pump_run_ok [OF that(1)] that(2)
    by (auto simp: pump_ok_def bytes_ok_def end_ok_def pump_finished_def flying_def admitting_def)
  show ?thesis using proxy_run_ok [OF assms(1)] assms(2) complete by (auto simp: proxy_line_of_def)
qed

subsection \<open>A sample link\<close>

definition sample_link :: link_params where
  "sample_link = \<lparr>lk_delay = 10, lk_bits_per_sec = Some 8, lk_queue_bytes = CHUNK\<rparr>"

definition sample_pump :: pump where
  "sample_pump = (pump_new sample_link 0)\<lparr>pu_reader := Admitting ''ab'', pu_read := ''ab''\<rparr>"

lemma sample_pump_run: "pump_run (\<lambda>n bps. n) sample_link sample_pump"
proof -
  have "pump_step (\<lambda>n bps. n) (pump_new sample_link 0) sample_pump"
    using pump_reads [of "pump_new sample_link 0" "''ab''"] by (simp add: pump_new_def sample_pump_def CHUNK_def)
  then show ?thesis by (rule pump_next [OF pump_start])
qed

lemma sample_link_valid: "validate_link sample_link = Inr ()"
  by (simp add: validate_link_def sample_link_def CHUNK_def)

lemma pump_can_finish_witness:
  "\<exists>q. pump_steps (\<lambda>n bps. n) sample_pump q \<and> pump_finished q \<and> delivered q = ''ab''"
  using pump_can_finish [OF sample_link_valid sample_pump_run] by (auto simp: sample_pump_def)

lemma pump_delivers_in_order_witness:
  "\<exists>q. pump_run (\<lambda>n bps. n) sample_link q \<and> pump_finished q \<and> delivered q = ''ab'' \<and> pu_counter q = 2"
proof -
  have run: "pump_run (\<lambda>n bps. n) sample_link q" if "pump_steps (\<lambda>n bps. n) sample_pump q" for q
    using that by (induction rule: rtranclp_induct) (auto intro: sample_pump_run pump_next)
  obtain q where q: "pump_steps (\<lambda>n bps. n) sample_pump q" "pump_finished q" "pu_read q = ''ab''"
    using finish [OF pump_run_ok [OF sample_pump_run]] by (auto simp: sample_pump_def sample_link_def)
  from pump_delivers_in_order [OF run [OF q(1)]] q run show ?thesis by (intro exI [of _ q]) auto
qed

lemma schedule_is_a_link_witness:
  "deliveries (\<lambda>n bps. n) (schedule_new sample_link) [(0, 5), (1, 5), (100, 5)] ! 1 = 20"
  using schedule_is_a_link [of 1 "[(0, 5), (1, 5), (100, 5)]" "\<lambda>n bps. n" sample_link]
  by (simp add: departure_def serialisation_def sample_link_def atMost_Suc numeral_eq_Suc)

end
