(* ===== verification/Netem_Server.thy ===== *)
theory Netem_Server
  imports Netem
begin

section \<open>The server of the emulated link\<close>

text \<open>
  Model of \<open>serve_logged\<close> of \<open>pprev-prover/src/netem.rs\<close>: the loop that accepts connections, the tasks that
  carry them, the set of ended tasks that the loop joins, and the log of ended connections. The tasks run in
  any interleaving. A connection has a number, its position among the accepted ones; start time and duration
  of a line are not modelled.
\<close>

datatype server_end = Returned bytes | Dropped

record netem_server =
  se_accepted :: nat
  se_open :: "nat \<rightharpoonup> proxy"
  se_ended :: "nat set"
  se_log :: "(nat \<times> proxy_line) list"
  se_end :: "server_end option"

definition netem_server_new :: netem_server where
  "netem_server_new = \<lparr>se_accepted = 0, se_open = Map.empty, se_ended = {}, se_log = [], se_end = None\<rparr>"

text \<open>Both directions' parameters are checked before the first connection is accepted.\<close>

definition serve_start :: "link_params \<Rightarrow> link_params \<Rightarrow> netem_server res" where
  "serve_start forward reverse =
     and_then (validate_link forward) (\<lambda>_.
     and_then (validate_link reverse) (\<lambda>_. Inr netem_server_new))"

text \<open>A task that has ended writes its line, if there is a log; a failed write is ignored. An error of \<open>accept\<close>
  ends the loop, and the caller can drop it; either way the connections still open are aborted.\<close>

inductive server_step ::
    "(nat \<Rightarrow> u64 \<Rightarrow> nat) \<Rightarrow> link_params \<Rightarrow> link_params \<Rightarrow> bool \<Rightarrow> netem_server \<Rightarrow> netem_server \<Rightarrow> bool"
  for transfer forward reverse log where
  server_accepts: "se_end s = None \<Longrightarrow>
    server_step transfer forward reverse log s
      (s\<lparr>se_accepted := Suc (se_accepted s), se_open := (se_open s)(se_accepted s \<mapsto> proxy_new forward reverse now)\<rparr>)"
| server_carries: "se_end s = None \<Longrightarrow> se_open s i = Some x \<Longrightarrow> proxy_step transfer x y \<Longrightarrow>
    server_step transfer forward reverse log s (s\<lparr>se_open := (se_open s)(i \<mapsto> y)\<rparr>)"
| server_ends: "se_end s = None \<Longrightarrow> se_open s i = Some x \<Longrightarrow> proxy_line_of x = Some l \<Longrightarrow>
    server_step transfer forward reverse log s
      (s\<lparr>se_open := (se_open s)(i := None), se_ended := insert i (se_ended s),
         se_log := (if log \<and> written then se_log s @ [(i, l)] else se_log s)\<rparr>)"
| server_joins: "se_end s = None \<Longrightarrow> i \<in> se_ended s \<Longrightarrow>
    server_step transfer forward reverse log s (s\<lparr>se_ended := se_ended s - {i}\<rparr>)"
| server_returns: "se_end s = None \<Longrightarrow>
    server_step transfer forward reverse log s (s\<lparr>se_open := Map.empty, se_end := Some (Returned e)\<rparr>)"
| server_dropped: "se_end s = None \<Longrightarrow>
    server_step transfer forward reverse log s (s\<lparr>se_open := Map.empty, se_end := Some Dropped\<rparr>)"

inductive server_run ::
    "(nat \<Rightarrow> u64 \<Rightarrow> nat) \<Rightarrow> link_params \<Rightarrow> link_params \<Rightarrow> bool \<Rightarrow> netem_server \<Rightarrow> bool"
  for transfer forward reverse log where
  server_first: "serve_start forward reverse = Inr s \<Longrightarrow> server_run transfer forward reverse log s"
| server_next: "server_run transfer forward reverse log s \<Longrightarrow> server_step transfer forward reverse log s t \<Longrightarrow>
    server_run transfer forward reverse log t"

inductive_cases server_stepE: "server_step transfer forward reverse log s t"

subsection \<open>Invariants\<close>

text \<open>A connection is open, or has ended, with at most one line, which is that of its run.\<close>

definition server_ok :: "(nat \<Rightarrow> u64 \<Rightarrow> nat) \<Rightarrow> link_params \<Rightarrow> link_params \<Rightarrow> bool \<Rightarrow> netem_server \<Rightarrow> bool" where
  "server_ok transfer forward reverse log s \<longleftrightarrow>
     (\<forall>i x. se_open s i = Some x \<longrightarrow> i < se_accepted s \<and> i \<notin> se_ended s \<and> i \<notin> fst ` set (se_log s) \<and>
        proxy_run transfer forward reverse x) \<and>
     (\<forall>i \<in> se_ended s. i < se_accepted s) \<and>
     distinct (map fst (se_log s)) \<and>
     (\<forall>(i, l) \<in> set (se_log s). log \<and> i < se_accepted s \<and>
        (\<exists>x. proxy_run transfer forward reverse x \<and> proxy_line_of x = Some l))"

lemma server_new_ok: "server_ok transfer forward reverse log netem_server_new"
  by (simp add: server_ok_def netem_server_new_def)

lemma server_step_ok:
  assumes "server_step transfer forward reverse log s t" and "server_ok transfer forward reverse log s"
  shows "server_ok transfer forward reverse log t"
  using assms
proof (cases rule: server_step.cases)
  case (server_accepts now)
  have "i \<noteq> se_accepted s" if "(i, l) \<in> set (se_log s)" for i l using that assms(2) by (auto simp: server_ok_def)
  then show ?thesis using assms(2) server_accepts by (fastforce simp: server_ok_def intro: proxy_start)
next
  case (server_carries i x y)
  then show ?thesis using assms(2) by (auto simp: server_ok_def intro: proxy_next)
next
  case (server_ends i x l written)
  then show ?thesis using assms(2) by (auto simp: server_ok_def)
qed (auto simp: server_ok_def)

lemma server_run_ok: "server_run transfer forward reverse log s \<Longrightarrow> server_ok transfer forward reverse log s"
  by (induction rule: server_run.induct)
    (auto simp: serve_start_def and_then_Inr_iff server_new_ok intro: server_step_ok)

lemma server_run_valid:
  "server_run transfer forward reverse log s \<Longrightarrow> validate_link forward = Inr () \<and> validate_link reverse = Inr ()"
  by (induction rule: server_run.induct) (auto simp: serve_start_def and_then_Inr_iff)

subsection \<open>What the log says\<close>

text \<open>The counters of a line are what was delivered; with the outcome \<open>closed\<close> nothing of what was read is missing.\<close>

lemma line_tells:
  assumes run: "proxy_run transfer forward reverse x" and l: "proxy_line_of x = Some l"
  shows "pl_forward_bytes l = of_nat (length (delivered (px_forward x)))"
    "pl_reverse_bytes l = of_nat (length (delivered (px_reverse x)))"
    "pl_outcome l = ''closed'' \<Longrightarrow> delivered (px_forward x) = pu_read (px_forward x) \<and> delivered (px_reverse x) = pu_read (px_reverse x)"
proof -
  have ok: "pump_ok forward (px_forward x)" "pump_ok reverse (px_reverse x)"
    using proxy_run_ok [OF run] by (auto intro: pump_run_ok)
  show "pl_forward_bytes l = of_nat (length (delivered (px_forward x)))"
    "pl_reverse_bytes l = of_nat (length (delivered (px_reverse x)))"
    using ok l by (auto simp: proxy_line_of_def pump_ok_def bytes_ok_def split: option.splits)
  assume "pl_outcome l = ''closed''"
  then have "px_outcome x = Some Closed" using l by (auto simp: proxy_line_of_def split: option.splits proxy_outcome.splits)
  with closed_connection_is_complete [OF run] show
    "delivered (px_forward x) = pu_read (px_forward x) \<and> delivered (px_reverse x) = pu_read (px_reverse x)" by simp
qed

text \<open>In every interleaving of the connections the log has at most one line per connection, of connections that
  were accepted and are no longer open, each with the bytes that its connection delivered; a line that says
  \<open>closed\<close> is of a connection that delivered all it read.\<close>

theorem netem_log_is_exact:
  assumes "server_run transfer forward reverse log s"
  shows "distinct (map fst (se_log s)) \<and> (if log then True else se_log s = []) \<and>
    (\<forall>(i, l) \<in> set (se_log s). i < se_accepted s \<and> se_open s i = None \<and>
       (\<exists>x. proxy_run transfer forward reverse x \<and>
         pl_forward_bytes l = of_nat (length (delivered (px_forward x))) \<and>
         pl_reverse_bytes l = of_nat (length (delivered (px_reverse x))) \<and>
         (if pl_outcome l = ''closed'' then
            delivered (px_forward x) = pu_read (px_forward x) \<and> delivered (px_reverse x) = pu_read (px_reverse x)
          else True)))"
proof -
  have ok: "server_ok transfer forward reverse log s" by (rule server_run_ok [OF assms])
  have line: "\<exists>x. proxy_run transfer forward reverse x \<and>
         pl_forward_bytes l = of_nat (length (delivered (px_forward x))) \<and>
         pl_reverse_bytes l = of_nat (length (delivered (px_reverse x))) \<and>
         (if pl_outcome l = ''closed'' then
            delivered (px_forward x) = pu_read (px_forward x) \<and> delivered (px_reverse x) = pu_read (px_reverse x)
          else True)" if "(i, l) \<in> set (se_log s)" for i l
  proof -
    have "\<forall>(i, l) \<in> set (se_log s). log \<and> i < se_accepted s \<and>
        (\<exists>x. proxy_run transfer forward reverse x \<and> proxy_line_of x = Some l)"
      using ok by (simp add: server_ok_def)
    from bspec [OF this that] obtain x where x: "proxy_run transfer forward reverse x" "proxy_line_of x = Some l" by blast
    from line_tells [OF x] x(1) show ?thesis by (intro exI [of _ x]) simp
  qed
  have closed: "i < se_accepted s \<and> se_open s i = None" if "(i, l) \<in> set (se_log s)" for i l
  proof -
    have "i \<in> fst ` set (se_log s)" using that by force
    then show ?thesis using ok that by (cases "se_open s i") (auto simp: server_ok_def)
  qed
  have "if log then True else se_log s = []" using ok by (cases "se_log s") (auto simp: server_ok_def)
  moreover have "distinct (map fst (se_log s))" using ok by (simp add: server_ok_def)
  ultimately show ?thesis
    by (intro conjI ballI case_prodI2) (assumption, assumption, metis closed, metis closed, simp only: line)
qed

subsection \<open>The server can always finish its connections\<close>

abbreviation server_steps where
  "server_steps transfer forward reverse log \<equiv> (server_step transfer forward reverse log)\<^sup>*\<^sup>*"

abbreviation proxy_steps where
  "proxy_steps transfer \<equiv> (proxy_step transfer)\<^sup>*\<^sup>*"

lemma forward_steps:
  "pump_steps transfer p q \<Longrightarrow> px_outcome x = None \<Longrightarrow> px_forward x = p \<Longrightarrow> proxy_steps transfer x (x\<lparr>px_forward := q\<rparr>)"
proof (induction rule: rtranclp_induct)
  case base
  then have "x\<lparr>px_forward := p\<rparr> = x" by (cases x) simp
  then show ?case by simp
next
  case (step q r)
  have "proxy_step transfer (x\<lparr>px_forward := q\<rparr>) ((x\<lparr>px_forward := q\<rparr>)\<lparr>px_forward := r\<rparr>)"
    by (rule proxy_forward) (simp_all add: step)
  then have "proxy_step transfer (x\<lparr>px_forward := q\<rparr>) (x\<lparr>px_forward := r\<rparr>)" by simp
  with step.IH [OF step.prems] show ?case by (rule rtranclp.rtrancl_into_rtrancl)
qed

lemma reverse_steps:
  "pump_steps transfer p q \<Longrightarrow> px_outcome x = None \<Longrightarrow> px_reverse x = p \<Longrightarrow> proxy_steps transfer x (x\<lparr>px_reverse := q\<rparr>)"
proof (induction rule: rtranclp_induct)
  case base
  then have "x\<lparr>px_reverse := p\<rparr> = x" by (cases x) simp
  then show ?case by simp
next
  case (step q r)
  have "proxy_step transfer (x\<lparr>px_reverse := q\<rparr>) ((x\<lparr>px_reverse := q\<rparr>)\<lparr>px_reverse := r\<rparr>)"
    by (rule proxy_reverse) (simp_all add: step)
  then have "proxy_step transfer (x\<lparr>px_reverse := q\<rparr>) (x\<lparr>px_reverse := r\<rparr>)" by simp
  with step.IH [OF step.prems] show ?case by (rule rtranclp.rtrancl_into_rtrancl)
qed

lemma proxy_can_close:
  assumes valid: "validate_link forward = Inr ()" "validate_link reverse = Inr ()"
    and run: "proxy_run transfer forward reverse x" and none: "px_outcome x = None"
  shows "\<exists>y. proxy_steps transfer x y \<and> px_outcome y = Some Closed"
proof -
  have runs: "pump_run transfer forward (px_forward x)" "pump_run transfer reverse (px_reverse x)"
    using proxy_run_ok [OF run] by auto
  have q: "CHUNK \<le> lk_queue_bytes forward" "CHUNK \<le> lk_queue_bytes reverse"
    using valid by (simp_all add: validate_link_def ensure_Inr_iff)
  obtain f where f: "pump_steps transfer (px_forward x) f" "pump_finished f"
    using finish [OF pump_run_ok [OF runs(1)] q(1)] by blast
  obtain r where r: "pump_steps transfer (px_reverse x) r" "pump_finished r"
    using finish [OF pump_run_ok [OF runs(2)] q(2)] by blast
  let ?x1 = "x\<lparr>px_forward := f\<rparr>" and ?x2 = "x\<lparr>px_forward := f, px_reverse := r\<rparr>"
  have "proxy_steps transfer x ?x1" by (rule forward_steps [OF f(1) none refl])
  moreover have "proxy_steps transfer ?x1 ?x2"
    using reverse_steps [OF r(1), of ?x1] none by simp
  moreover have "proxy_step transfer ?x2 (?x2\<lparr>px_outcome := Some Closed\<rparr>)"
    by (rule proxy_closes) (use none f(2) r(2) in simp_all)
  ultimately have "proxy_steps transfer x (?x2\<lparr>px_outcome := Some Closed\<rparr>)"
    by (meson rtranclp_trans rtranclp.rtrancl_into_rtrancl)
  then show ?thesis by (intro exI [of _ "?x2\<lparr>px_outcome := Some Closed\<rparr>"]) simp
qed

lemma carry_steps:
  assumes "proxy_steps transfer x y" and "se_end s = None" and "se_open s i = Some x"
  shows "server_steps transfer forward reverse log s (s\<lparr>se_open := (se_open s)(i \<mapsto> y)\<rparr>)"
  using assms
proof (induction rule: rtranclp_induct)
  case base
  then have "(se_open s)(i \<mapsto> x) = se_open s" by (simp add: map_upd_triv)
  then show ?case by simp
next
  case (step y z)
  let ?t = "s\<lparr>se_open := (se_open s)(i \<mapsto> y)\<rparr>"
  have "server_step transfer forward reverse log ?t (?t\<lparr>se_open := (se_open ?t)(i \<mapsto> z)\<rparr>)"
    by (rule server_carries) (use step in simp_all)
  then have "server_step transfer forward reverse log ?t (s\<lparr>se_open := (se_open s)(i \<mapsto> z)\<rparr>)" by simp
  with step.IH [OF step.prems] show ?case by (rule rtranclp.rtrancl_into_rtrancl)
qed

text \<open>One connection is brought to its end, and leaves the others as they are.\<close>

lemma end_one:
  assumes run: "server_run transfer forward reverse True s" and live: "se_end s = None" and x: "se_open s i = Some x"
  shows "\<exists>l t. server_steps transfer forward reverse True s t \<and> se_end t = None \<and>
    se_open t = (se_open s)(i := None) \<and> se_log t = se_log s @ [(i, l)] \<and> se_accepted t = se_accepted s \<and>
    (if px_outcome x = None then pl_outcome l = ''closed'' else proxy_line_of x = Some l)"
proof -
  have "proxy_run transfer forward reverse x" using server_run_ok [OF run] x by (auto simp: server_ok_def)
  then have "\<exists>y l. proxy_steps transfer x y \<and> proxy_line_of y = Some l \<and>
      (if px_outcome x = None then pl_outcome l = ''closed'' else proxy_line_of x = Some l)"
  proof (cases "px_outcome x")
    case None
    with proxy_can_close [OF conjunct1 conjunct2, OF server_run_valid [OF run] server_run_valid [OF run]]
      \<open>proxy_run transfer forward reverse x\<close> obtain y where "proxy_steps transfer x y" "px_outcome y = Some Closed" by blast
    then show ?thesis using None by (intro exI [of _ y]) (simp add: proxy_line_of_def)
  next
    case (Some r)
    then show ?thesis by (intro exI [of _ x]) (simp add: proxy_line_of_def)
  qed
  then obtain y l where y: "proxy_steps transfer x y" "proxy_line_of y = Some l"
    "if px_outcome x = None then pl_outcome l = ''closed'' else proxy_line_of x = Some l" by blast
  let ?t = "s\<lparr>se_open := (se_open s)(i \<mapsto> y)\<rparr>"
  let ?u = "?t\<lparr>se_open := (se_open ?t)(i := None), se_ended := insert i (se_ended ?t),
    se_log := (if True \<and> True then se_log ?t @ [(i, l)] else se_log ?t)\<rparr>"
  have "server_step transfer forward reverse True ?t ?u"
    by (rule server_ends [where written = True]) (use live y(2) in simp_all)
  with carry_steps [OF y(1) live x] have "server_steps transfer forward reverse True s ?u"
    by (rule rtranclp.rtrancl_into_rtrancl)
  then show ?thesis using y(3) live by (intro exI [of _ l] exI [of _ ?u]) simp
qed

lemma server_steps_run:
  "server_steps transfer forward reverse log s t \<Longrightarrow> server_run transfer forward reverse log s \<Longrightarrow>
   server_run transfer forward reverse log t"
  by (induction rule: rtranclp_induct) (auto intro: server_next)

text \<open>From every state of a running server there are steps after which every connection that was open has ended and has
  its line in the log: \<open>closed\<close> unless it had already failed. No connection waits for another.\<close>

theorem netem_server_can_finish:
  assumes "server_run transfer forward reverse True s" and "se_end s = None"
  shows "\<exists>t. server_steps transfer forward reverse True s t \<and> se_end t = None \<and> se_open t = Map.empty \<and>
    (\<forall>i \<in> dom (se_open s). \<exists>l. (i, l) \<in> set (se_log t) \<and>
       (if px_outcome (the (se_open s i)) = None then pl_outcome l = ''closed''
        else proxy_line_of (the (se_open s i)) = Some l))"
proof -
  have fin: "finite (dom (se_open s))"
  proof (rule finite_subset)
    show "dom (se_open s) \<subseteq> {..<se_accepted s}" using server_run_ok [OF assms(1)] by (auto simp: server_ok_def)
  qed simp
  define D where "D = dom (se_open s)"
  have "finite D" using fin by (simp add: D_def)
  then show ?thesis using assms D_def
  proof (induction D arbitrary: s rule: finite_induct)
    case empty
    then show ?case by (intro exI [of _ s]) auto
  next
    case (insert i D)
    from insert.prems(3) have "i \<in> dom (se_open s)" by blast
    then obtain x where x: "se_open s i = Some x" by blast
    from end_one [OF insert.prems(1,2) x] obtain l t where t: "server_steps transfer forward reverse True s t"
      "se_end t = None" "se_open t = (se_open s)(i := None)" "se_log t = se_log s @ [(i, l)]"
      "if px_outcome x = None then pl_outcome l = ''closed'' else proxy_line_of x = Some l" by blast
    have D: "D = dom (se_open t)" using insert.prems(3) insert.hyps(2) t(3) by auto
    from insert.IH [OF server_steps_run [OF t(1) insert.prems(1)] t(2) D] obtain u where
      u: "server_steps transfer forward reverse True t u" "se_end u = None" "se_open u = Map.empty"
      "\<forall>j \<in> dom (se_open t). \<exists>l. (j, l) \<in> set (se_log u) \<and>
         (if px_outcome (the (se_open t j)) = None then pl_outcome l = ''closed''
          else proxy_line_of (the (se_open t j)) = Some l)" by blast
    have grow: "set (se_log a) \<subseteq> set (se_log b)" if "server_steps transfer forward reverse True a b" for a b
      using that by (induction rule: rtranclp_induct) (auto elim!: server_stepE split: if_splits)
    have "(i, l) \<in> set (se_log u)" using grow [OF u(1)] t(4) by auto
    then have "\<forall>j \<in> dom (se_open s). \<exists>l. (j, l) \<in> set (se_log u) \<and>
         (if px_outcome (the (se_open s j)) = None then pl_outcome l = ''closed''
          else proxy_line_of (the (se_open s j)) = Some l)"
      using u(4) t(3,5) x by (metis (no_types, lifting) domIff fun_upd_apply option.sel)
    then show ?case using rtranclp_trans [OF t(1) u(1)] u(2,3) by blast
  qed
qed

subsection \<open>A sample server\<close>

definition sample_server :: netem_server where
  "sample_server = netem_server_new\<lparr>se_accepted := 1, se_open := [0 \<mapsto> proxy_new sample_link sample_link 0]\<rparr>"

lemma sample_server_run: "server_run (\<lambda>n bps. n) sample_link sample_link True sample_server"
proof -
  have "serve_start sample_link sample_link = Inr netem_server_new" by (simp add: serve_start_def sample_link_valid)
  then have first: "server_run (\<lambda>n bps. n) sample_link sample_link True netem_server_new" by (rule server_first)
  have "server_step (\<lambda>n bps. n) sample_link sample_link True netem_server_new sample_server"
    using server_accepts [of netem_server_new "\<lambda>n bps. n" sample_link sample_link True 0]
    by (simp add: sample_server_def netem_server_new_def)
  with first show ?thesis by (rule server_next)
qed

lemma netem_server_can_finish_witness:
  "\<exists>t l. server_steps (\<lambda>n bps. n) sample_link sample_link True sample_server t \<and> se_open t = Map.empty \<and>
     (0, l) \<in> set (se_log t) \<and> pl_outcome l = ''closed''"
  using netem_server_can_finish [OF sample_server_run]
  by (fastforce simp: sample_server_def netem_server_new_def proxy_new_def)

lemma netem_log_is_exact_witness:
  "\<exists>t. server_run (\<lambda>n bps. n) sample_link sample_link True t \<and> se_log t \<noteq> [] \<and> distinct (map fst (se_log t)) \<and>
     (\<forall>(i, l) \<in> set (se_log t). i < se_accepted t \<and> se_open t i = None)"
proof -
  have "se_end sample_server = None" "se_open sample_server 0 = Some (proxy_new sample_link sample_link 0)"
    by (simp_all add: sample_server_def netem_server_new_def)
  from end_one [OF sample_server_run this] obtain l t where
    t: "server_steps (\<lambda>n bps. n) sample_link sample_link True sample_server t" "se_log t = se_log sample_server @ [(0, l)]"
    by blast
  note run = server_steps_run [OF t(1) sample_server_run]
  from netem_log_is_exact [OF run] run t(2) show ?thesis by (intro exI [of _ t]) fastforce
qed

end
