(* ===== verification/Calibration.thy ===== *)
theory Calibration
  imports Netem_Server
begin

section \<open>The proxy and its calibration\<close>

text \<open>
  Model of the binaries \<open>netem-proxy\<close> and \<open>netem-calibrate\<close>: the parameters of the link from the arguments, the
  start of the proxy, the echo server, the ping and the bulk transfer of the client, and the report. The
  floating-point numbers but NaN, which the first check refuses, are a linear order with their operations as
  arguments; sockets and the clock are arguments. A segment is what the network hands to one read, never empty.
\<close>

subsection \<open>Arguments\<close>

record 'f float_ops =
  fl_finite :: "'f \<Rightarrow> bool"
  fl_zero :: 'f
  fl_greatest :: 'f
  fl_half_delay :: "'f \<Rightarrow> nat res"
  fl_bits_per_sec :: "'f \<Rightarrow> u64"
  fl_mean :: "'f \<Rightarrow> 'f \<Rightarrow> 'f"
  fl_goodput :: "u64 \<Rightarrow> 'f \<Rightarrow> 'f"
  fl_without_rtt :: "'f \<Rightarrow> 'f \<Rightarrow> 'f"

record 'f link_args =
  la_rtt_ms :: 'f
  la_mbps :: "'f option"
  la_queue_bytes :: nat

definition check_link_args :: "('f::linorder) float_ops \<Rightarrow> ('f, 'x) link_args_scheme \<Rightarrow> unit res" where
  "check_link_args fl args =
     ensure (fl_finite fl (la_rtt_ms args) \<and> fl_zero fl \<le> la_rtt_ms args)
       ''the round-trip time must be finite and non-negative'' (
     case la_mbps args of
       Some m \<Rightarrow> ensure (fl_finite fl m \<and> fl_zero fl < m) ''the bandwidth must be finite and positive'' (Inr ())
     | None \<Rightarrow> Inr ())"

text \<open>Half of the round trip in each direction; a delay that is not a \<open>Duration\<close> panics.\<close>

definition link_of_args :: "'f float_ops \<Rightarrow> ('f, 'x) link_args_scheme \<Rightarrow> link_params res" where
  "link_of_args fl args =
     and_then (fl_half_delay fl (la_rtt_ms args)) (\<lambda>delay.
     Inr \<lparr>lk_delay = delay, lk_bits_per_sec = map_option (fl_bits_per_sec fl) (la_mbps args),
          lk_queue_bytes = la_queue_bytes args\<rparr>)"

text \<open>\<open>netem-proxy\<close>, up to the loop in which it serves: the log is opened before the listener is bound.\<close>

definition netem_proxy ::
    "('f::linorder) float_ops \<Rightarrow> unit res option \<Rightarrow> unit res \<Rightarrow> unit res \<Rightarrow> 'f link_args \<Rightarrow> netem_server res" where
  "netem_proxy fl open_log bind local_addr args =
     and_then (check_link_args fl args) (\<lambda>_.
     and_then (case open_log of Some r \<Rightarrow> r | None \<Rightarrow> Inr ()) (\<lambda>_.
     and_then (link_of_args fl args) (\<lambda>params.
     and_then bind (\<lambda>_.
     and_then local_addr (\<lambda>_.
     serve_start params params)))))"

subsection \<open>The echo server\<close>

definition ECHO_BUFFER :: nat where "ECHO_BUFFER = 64 * 1024"

fun seg_read :: "nat \<Rightarrow> bytes list \<Rightarrow> bytes \<times> bytes list" where
  "seg_read cap [] = ([], [])"
| "seg_read cap (s # ss) = (if length s \<le> cap then (s, ss) else (take cap s, drop cap s # ss))"

fun seg_read_exact :: "nat \<Rightarrow> bytes list \<Rightarrow> (bytes \<times> bytes list) option" where
  "seg_read_exact n [] = (if n = 0 then Some ([], []) else None)"
| "seg_read_exact n (s # ss) =
     (if n < length s then Some (take n s, drop n s # ss)
      else map_option (\<lambda>(bs, rest). (s @ bs, rest)) (seg_read_exact (n - length s) ss))"

lemma seg_read_concat: "seg_read cap ss = (bs, rest) \<Longrightarrow> concat ss = bs @ concat rest"
  by (cases ss) (auto split: if_splits)

lemma seg_read_shorter: "seg_read cap ss = (bs, rest) \<Longrightarrow> bs \<noteq> [] \<Longrightarrow> length (concat rest) < length (concat ss)"
  by (auto dest: seg_read_concat)

text \<open>Every byte is returned, until the stream ends or a write fails.\<close>

function echo_loop :: "(nat \<Rightarrow> bool) \<Rightarrow> nat \<Rightarrow> bytes list \<Rightarrow> bytes" where
  "echo_loop wr i ss =
     (case seg_read ECHO_BUFFER ss of
        (bs, rest) \<Rightarrow> if bs = [] \<or> \<not> wr i then [] else bs @ echo_loop wr (Suc i) rest)"
  by pat_completeness auto

termination
  by (relation "measure (\<lambda>(wr, i, ss). length (concat ss))") (auto dest: seg_read_shorter [OF sym])

text \<open>A bulk transfer is counted down; the subtraction wraps.\<close>

function bulk_received :: "u64 \<Rightarrow> bytes list \<Rightarrow> bool" where
  "bulk_received left ss =
     (if left = 0 then True
      else case seg_read ECHO_BUFFER ss of
        (bs, rest) \<Rightarrow> if bs = [] then False else bulk_received (left - of_nat (length bs)) rest)"
  by pat_completeness auto

termination
  by (relation "measure (\<lambda>(left, ss). length (concat ss))") (auto dest: seg_read_shorter [OF sym])

declare echo_loop.simps [simp del] bulk_received.simps [simp del]

definition echo_task :: "(nat \<Rightarrow> bool) \<Rightarrow> bytes list \<Rightarrow> bytes" where
  "echo_task wr ss =
     (case seg_read_exact 1 ss of
        None \<Rightarrow> []
      | Some (mode, rest) \<Rightarrow>
          if mode = ''p'' then echo_loop wr 0 rest
          else (case seg_read_exact 8 rest of
            None \<Rightarrow> []
          | Some (len, rest) \<Rightarrow> if bulk_received (of_nat (be_value len)) rest \<and> wr 0 then ''k'' else []))"

subsection \<open>The client\<close>

record ('s, 'f) net_client =
  nc_echo :: "'s \<Rightarrow> 's res"
  nc_proxy :: "link_params \<Rightarrow> 's \<Rightarrow> 's res"
  nc_connect :: "'s \<Rightarrow> 's res"
  nc_write :: "bytes \<Rightarrow> 's \<Rightarrow> 's res"
  nc_read_exact :: "nat \<Rightarrow> 's \<Rightarrow> (bytes \<times> 's) res"
  nc_elapsed_ms :: "'s \<Rightarrow> 's \<Rightarrow> 'f"
  nc_elapsed_secs :: "'s \<Rightarrow> 's \<Rightarrow> 'f"

fun ping_loop :: "('s, 'f) net_client \<Rightarrow> nat \<Rightarrow> 's \<Rightarrow> ('f list \<times> 's) res" where
  "ping_loop nc 0 s = Inr ([], s)"
| "ping_loop nc (Suc n) s =
     and_then (nc_write nc ''x'' s) (\<lambda>s1.
     and_then (nc_read_exact nc 1 s1) (\<lambda>(b, s2).
     and_then (ping_loop nc n s2) (\<lambda>(rtts, s3). Inr (nc_elapsed_ms nc s s2 # rtts, s3))))"

definition BULK_CHUNK :: nat where "BULK_CHUNK = 64 * 1024"

function bulk_send :: "('s, 'f) net_client \<Rightarrow> nat \<Rightarrow> nat \<Rightarrow> 's \<Rightarrow> 's res" where
  "bulk_send nc amount sent s =
     (if sent < amount then
        let n = min BULK_CHUNK (amount - sent) in
        and_then (nc_write nc (replicate n (CHR 0x5A)) s) (\<lambda>s. bulk_send nc amount (sent + n) s)
      else Inr s)"
  by pat_completeness auto

termination
  by (relation "measure (\<lambda>(nc, amount, sent, s). amount - sent)") (auto simp: BULK_CHUNK_def)

declare bulk_send.simps [simp del]

definition bulk_open :: "('s, 'f) net_client \<Rightarrow> u64 \<Rightarrow> 's \<Rightarrow> 's res" where
  "bulk_open nc amount s =
     and_then (nc_write nc ''b'' s) (\<lambda>s.
     nc_write nc (be_bytes 8 (unat amount)) s)"

definition bulk_transfer :: "('s, 'f) net_client \<Rightarrow> u64 \<Rightarrow> 's \<Rightarrow> ('f \<times> 's) res" where
  "bulk_transfer nc amount s =
     and_then (bulk_open nc amount s) (\<lambda>s1.
     and_then (bulk_send nc (unat amount) 0 s1) (\<lambda>s2.
     and_then (nc_read_exact nc 1 s2) (\<lambda>(b, s3). Inr (nc_elapsed_secs nc s1 s3, s3))))"

definition median :: "('f::linorder \<Rightarrow> 'f \<Rightarrow> 'f) \<Rightarrow> 'f list \<Rightarrow> 'f res" where
  "median mean v =
     (let s = sort v; n = length s in
      if n mod 2 = 1 then index_at s (n div 2)
      else if n = 0 then Inl (Panic ''attempt to subtract with overflow'')
      else and_then (index_at s (n div 2 - 1)) (\<lambda>a. and_then (index_at s (n div 2)) (\<lambda>b. Inr (mean a b))))"

subsection \<open>The calibration\<close>

record 'f calibrate_args = "'f link_args" +
  ca_direct :: bool
  ca_pings :: nat
  ca_bulk_mib :: u64

record 'f calibration =
  cr_mode :: bytes
  cr_median :: 'f
  cr_min :: 'f
  cr_max :: 'f
  cr_samples :: "'f list"
  cr_bulk_bytes :: u64
  cr_bulk_secs :: 'f
  cr_goodput :: 'f
  cr_goodput_without_rtt :: "'f option"

definition calibration_of :: "('f::linorder) float_ops \<Rightarrow> 'f calibrate_args \<Rightarrow> 'f list \<Rightarrow> u64 \<Rightarrow> 'f \<Rightarrow> 'f calibration res" where
  "calibration_of fl args rtts amount secs =
     and_then (median (fl_mean fl) rtts) (\<lambda>m.
     let corrected = fl_without_rtt fl secs m in
     Inr \<lparr>cr_mode = (if ca_direct args then ''direct'' else ''proxy''), cr_median = m,
          cr_min = foldl min (fl_greatest fl) rtts, cr_max = foldl max (fl_zero fl) rtts, cr_samples = rtts,
          cr_bulk_bytes = amount, cr_bulk_secs = secs, cr_goodput = fl_goodput fl amount secs,
          cr_goodput_without_rtt = (if fl_zero fl < corrected then Some (fl_goodput fl amount corrected) else None)\<rparr>)"

text \<open>\<open>args.bulk_mib << 20\<close> drops the high bits.\<close>

definition bulk_bytes :: "u64 \<Rightarrow> u64" where
  "bulk_bytes mib = push_bit 20 mib"

definition calibrate :: "('f::linorder) float_ops \<Rightarrow> ('s, 'f) net_client \<Rightarrow> 'f calibrate_args \<Rightarrow> 's \<Rightarrow> 'f calibration res" where
  "calibrate fl nc args s =
     and_then (check_link_args fl args) (\<lambda>_.
     ensure (1 \<le> ca_pings args) ''at least one ping'' (
     ensure (1 \<le> ca_bulk_mib args) ''the bulk transfer must be at least 1 MiB'' (
     and_then (nc_echo nc s) (\<lambda>s.
     and_then (link_of_args fl args) (\<lambda>params.
     and_then (if ca_direct args then Inr s
       else and_then (validate_link params) (\<lambda>_. nc_proxy nc params s)) (\<lambda>s.
     and_then (nc_connect nc s) (\<lambda>s.
     and_then (nc_write nc ''p'' s) (\<lambda>s.
     and_then (ping_loop nc (ca_pings args) s) (\<lambda>(rtts, s).
     and_then (nc_connect nc s) (\<lambda>s.
     and_then (bulk_transfer nc (bulk_bytes (ca_bulk_mib args)) s) (\<lambda>(secs, s).
     calibration_of fl args rtts (bulk_bytes (ca_bulk_mib args)) secs)))))))))))"

subsection \<open>What the echo server returns\<close>

lemma seg_read_nonempty:
  assumes "seg_read cap ss = (bs, rest)" and "[] \<notin> set ss" and "0 < cap"
  shows "[] \<notin> set rest" "bs = [] \<longleftrightarrow> concat ss = []"
  using assms by (cases ss; auto split: if_splits)+

lemma seg_read_exact_spec:
  "seg_read_exact n ss = (if n \<le> length (concat ss) then seg_read_exact n ss else None) \<and>
   (n \<le> length (concat ss) \<longrightarrow> (\<exists>rest. seg_read_exact n ss = Some (take n (concat ss), rest) \<and>
      concat rest = drop n (concat ss) \<and> set rest \<subseteq> set ss \<union> {x. x \<noteq> []}))"
proof (induction n ss rule: seg_read_exact.induct)
  case (2 n s ss)
  show ?case
  proof (cases "n < length s")
    case False
    then show ?thesis using 2 by (auto split: if_splits)
  qed auto
qed auto

lemma seg_read_exact_some:
  assumes "n \<le> length (concat ss)" and "[] \<notin> set ss"
  obtains rest where "seg_read_exact n ss = Some (take n (concat ss), rest)" "concat rest = drop n (concat ss)"
    "[] \<notin> set rest"
  using seg_read_exact_spec [of n ss] assms by blast

lemma seg_read_exact_none: "length (concat ss) < n \<Longrightarrow> seg_read_exact n ss = None"
  using seg_read_exact_spec [of n ss] by (simp add: not_le [symmetric])

lemma echo_loop_returns:
  "[] \<notin> set ss \<Longrightarrow> echo_loop (\<lambda>_. True) i ss = concat ss"
proof (induction "\<lambda>_ :: nat. True" i ss rule: echo_loop.induct)
  case (1 i ss)
  obtain bs rest where r: "seg_read ECHO_BUFFER ss = (bs, rest)" by fastforce
  note ne = seg_read_nonempty [OF r 1(2)]
  have "0 < ECHO_BUFFER" by (simp add: ECHO_BUFFER_def)
  note ne = ne [OF this]
  show ?case
  proof (cases "bs = []")
    case True
    then have "concat ss = []" using ne(2) by blast
    then show ?thesis using True by (simp add: echo_loop.simps [of _ i ss] r del: concat_eq_Nil_conv)
  next
    case False
    then have "echo_loop (\<lambda>_. True) (Suc i) rest = concat rest" using 1(1) [OF r [symmetric]] ne(1) by simp
    then show ?thesis using False seg_read_concat [OF r] by (subst echo_loop.simps) (simp add: r)
  qed
qed

lemma bulk_received_iff:
  "[] \<notin> set ss \<Longrightarrow> length (concat ss) \<le> unat left \<Longrightarrow> bulk_received left ss \<longleftrightarrow> length (concat ss) = unat left"
proof (induction left ss rule: bulk_received.induct)
  case (1 left ss)
  obtain bs rest where r: "seg_read ECHO_BUFFER ss = (bs, rest)" by fastforce
  have pos: "0 < ECHO_BUFFER" by (simp add: ECHO_BUFFER_def)
  note ne = seg_read_nonempty [OF r 1(2) pos]
  note split = seg_read_concat [OF r]
  show ?case
  proof (cases "left = 0 \<or> bs = []")
    case True
    then have "left = 0 \<or> concat ss = []" using ne(2) by blast
    then show ?thesis using ne(2) 1(3) True
      by (elim disjE; subst bulk_received.simps) (auto simp: r unat_eq_0 simp del: concat_eq_Nil_conv)
  next
    case False
    have "unat (left - of_nat (length bs)) = unat left - length bs"
    proof -
      have le: "length bs \<le> unat left" using 1(3) split by simp
      then have b: "unat (of_nat (length bs) :: u64) = length bs" using unsigned_less [of left, where 'a = nat] by (simp add: unat_of_nat take_bit_eq_mod)
      with le have "(of_nat (length bs) :: u64) \<le> left" by (simp add: word_le_nat_alt)
      then show ?thesis using b by (simp add: unat_sub)
    qed
    then show ?thesis
      using False 1(1) [OF _ r [symmetric]] ne(1) 1(3) split by (auto simp: bulk_received.simps [of left ss] r)
  qed
qed

text \<open>The pings: every byte after the mode is returned, in order, however the network cuts the stream.\<close>

lemma pings_are_echoed:
  assumes "[] \<notin> set ss" and "concat ss = CHR ''p'' # data"
  shows "echo_task (\<lambda>_. True) ss = data"
proof -
  obtain rest where "seg_read_exact 1 ss = Some (''p'', rest)" "concat rest = data" "[] \<notin> set rest"
    by (rule seg_read_exact_some [of 1 ss]) (use assms in auto)
  then show ?thesis by (simp add: echo_task_def echo_loop_returns)
qed

text \<open>A client keeps what it has written.\<close>

lemma bulk_send_writes:
  assumes w: "\<And>b s s'. nc_write nc b s = Inr s' \<Longrightarrow> out s' = out s @ b"
  shows "bulk_send nc amount sent s = Inr s' \<Longrightarrow> out s' = out s @ replicate (amount - sent) (CHR 0x5A)"
proof (induction "amount - sent" arbitrary: sent s rule: less_induct)
  case less
  let ?n = "min BULK_CHUNK (amount - sent)"
  show ?case
  proof (cases "sent < amount")
    case True
    then obtain t where t: "nc_write nc (replicate ?n (CHR 0x5A)) s = Inr t" "bulk_send nc amount (sent + ?n) t = Inr s'"
      using less.prems by (auto simp: bulk_send.simps [of _ _ sent] Let_def and_then_Inr_iff)
    have "0 < ?n" using True by (simp add: BULK_CHUNK_def)
    then have "out s' = out t @ replicate (amount - (sent + ?n)) (CHR 0x5A)"
      using True by (intro less.hyps t(2)) linarith
    moreover have "amount - sent = ?n + (amount - (sent + ?n))" by simp
    ultimately show ?thesis using w [OF t(1)] by (metis append.assoc replicate_add)
  next
    case False
    then show ?thesis using less.prems by (simp add: bulk_send.simps [of _ _ sent])
  qed
qed

text \<open>The acknowledgement that ends the measured time comes exactly when the last byte of the transfer has arrived:
  whatever has arrived of what the client wrote, in whatever segments, the echo server answers only if that is
  all of it.\<close>

theorem bulk_acknowledged_at_its_end:
  assumes w: "\<And>b s s'. nc_write nc b s = Inr s' \<Longrightarrow> out s' = out s @ b" and new: "out s = []"
    and opened: "bulk_open nc amount s = Inr s1" and sent: "bulk_send nc (unat amount) 0 s1 = Inr s2"
    and segs: "[] \<notin> set ss" "prefix (concat ss) (out s2)"
  shows "echo_task (\<lambda>_. True) ss = (if concat ss = out s2 then ''k'' else [])"
proof -
  define data where "data = replicate (unat amount) (CHR 0x5A)"
  have "out s1 = ''b'' @ be_bytes 8 (unat amount)"
    using opened w new by (auto simp: bulk_open_def and_then_Inr_iff)
  then have all: "out s2 = CHR ''b'' # be_bytes 8 (unat amount) @ data"
    using bulk_send_writes [of nc out, OF w sent] by (simp add: data_def)
  let ?c = "concat ss"
  obtain more where more: "out s2 = ?c @ more" using segs(2) by (auto simp: prefix_def)
  show ?thesis
  proof (cases "9 \<le> length ?c")
    case False
    then have short: "?c \<noteq> out s2" using all by auto
    show ?thesis
    proof (cases "?c = []")
      case True
      then show ?thesis using short by (simp add: echo_task_def seg_read_exact_none)
    next
      case ne: False
      then have "take 1 ?c = ''b''" using more all by (cases ?c) auto
      moreover have "1 \<le> length ?c" using ne by (cases ?c) auto
      ultimately obtain rest where r: "seg_read_exact 1 ss = Some (''b'', rest)" "concat rest = drop 1 ?c"
        using seg_read_exact_some [OF _ segs(1), of 1] by metis
      then have "seg_read_exact 8 rest = None" using False by (intro seg_read_exact_none) simp
      then show ?thesis using r short by (simp add: echo_task_def)
    qed
  next
    case True
    obtain rest where r: "seg_read_exact 1 ss = Some (take 1 ?c, rest)" "concat rest = drop 1 ?c" "[] \<notin> set rest"
      by (rule seg_read_exact_some [of 1 ss]) (use segs True in auto)
    obtain rest' where r': "seg_read_exact 8 rest = Some (take 8 (drop 1 ?c), rest')" "concat rest' = drop 8 (drop 1 ?c)"
      "[] \<notin> set rest'"
      by (rule seg_read_exact_some [of 8 rest]) (use r True in auto)
    have head: "take 9 ?c = CHR ''b'' # be_bytes 8 (unat amount)"
    proof -
      have "take 9 ?c = take 9 (out s2)" using more True by simp
      then show ?thesis by (simp add: all)
    qed
    have mode: "take 1 ?c = ''b''" using arg_cong [OF head, of "take 1"] by simp
    have len: "take 8 (drop 1 ?c) = be_bytes 8 (unat amount)" using arg_cong [OF head, of "drop 1"] by (simp add: drop_take)
    have lens: "length ?c = 9 + length (concat rest')" using r'(2) True by simp
    have "length (out s2) = 9 + unat amount" by (simp add: all data_def)
    moreover have "length (out s2) = length ?c + length more" by (simp add: more)
    ultimately have fits: "length (concat rest') \<le> unat amount" "length (concat rest') = unat amount \<longleftrightarrow> more = []"
      using lens by auto
    have "of_nat (be_value (be_bytes 8 (unat amount))) = amount"
    proof -
      have "unat amount < 256 ^ 8" using unsigned_less [of amount, where 'a = nat] by simp
      then show ?thesis by simp
    qed
    then have "echo_task (\<lambda>_. True) ss = (if more = [] then ''k'' else [])"
      using r r' mode len fits bulk_received_iff [OF r'(3) fits(1)] by (simp add: echo_task_def)
    then show ?thesis using more by auto
  qed
qed

subsection \<open>The median\<close>

lemma count_sorted: "length (filter P (sort v)) = length (filter P v)"
  by (simp add: filter_sort)

lemma sorted_at_most:
  assumes "sorted s" and "i < length s" and "s ! i \<le> m"
  shows "Suc i \<le> length (filter (\<lambda>x. x \<le> m) s)"
proof -
  have "x \<le> m" if x: "x \<in> set (take (Suc i) s)" for x
  proof -
    obtain j where "j \<le> i" "x = s ! j" using x by (auto simp: in_set_conv_nth less_Suc_eq_le)
    then show ?thesis using sorted_nth_mono [OF assms(1), of j i] assms(2,3) by (auto intro: order_trans)
  qed
  then have "filter (\<lambda>x. x \<le> m) (take (Suc i) s) = take (Suc i) s" by (simp add: filter_id_conv)
  then have "length (filter (\<lambda>x. x \<le> m) (take (Suc i) s)) = Suc i" using assms(2) by simp
  moreover have "filter (\<lambda>x. x \<le> m) s = filter (\<lambda>x. x \<le> m) (take (Suc i) s) @ filter (\<lambda>x. x \<le> m) (drop (Suc i) s)"
    by (metis append_take_drop_id filter_append)
  ultimately show ?thesis by simp
qed

lemma sorted_at_least:
  assumes "sorted s" and "i < length s" and "m \<le> s ! i"
  shows "length s - i \<le> length (filter (\<lambda>x. m \<le> x) s)"
proof -
  have "m \<le> x" if x: "x \<in> set (drop i s)" for x
  proof -
    obtain j where "j < length s - i" "x = s ! (i + j)"
      using x by (auto simp: in_set_conv_nth add.commute)
    then show ?thesis using sorted_nth_mono [OF assms(1), of i "i + j"] assms(2,3) by (auto intro: order_trans)
  qed
  then have "filter (\<lambda>x. m \<le> x) (drop i s) = drop i s" by (simp add: filter_id_conv)
  then have "length (filter (\<lambda>x. m \<le> x) (drop i s)) = length s - i" by simp
  moreover have "filter (\<lambda>x. m \<le> x) s = filter (\<lambda>x. m \<le> x) (take i s) @ filter (\<lambda>x. m \<le> x) (drop i s)"
    by (metis append_take_drop_id filter_append)
  ultimately show ?thesis by simp
qed

text \<open>The median exists for any samples, and at least half of them are on each side of it.\<close>

theorem median_splits:
  assumes mean: "\<And>a b. a \<le> b \<Longrightarrow> a \<le> mean a b \<and> mean a b \<le> b" and "v \<noteq> []"
  shows "\<exists>m. median mean v = Inr m \<and> length v \<le> 2 * length (filter (\<lambda>x. x \<le> m) v) \<and>
    length v \<le> 2 * length (filter (\<lambda>x. m \<le> x) v)"
proof -
  let ?s = "sort v" and ?n = "length v"
  have pos: "0 < ?n" using assms(2) by simp
  have both: "?n \<le> 2 * length (filter (\<lambda>x. x \<le> m) v) \<and> ?n \<le> 2 * length (filter (\<lambda>x. m \<le> x) v)"
    if "i < ?n" "j < ?n" "?s ! i \<le> m" "m \<le> ?s ! j" "?n \<le> 2 * Suc i" "2 * j \<le> ?n" for i j m
    using sorted_at_most [of ?s i m] sorted_at_least [of ?s j m] that by (simp add: count_sorted)
  show ?thesis
  proof (cases "?n mod 2 = 1")
    case True
    have "?n div 2 < ?n" "?n \<le> 2 * Suc (?n div 2)" "2 * (?n div 2) \<le> ?n" using pos by simp_all
    from both [OF this(1,1) order_refl order_refl this(2,3)] True \<open>?n div 2 < ?n\<close> show ?thesis
      by (intro exI [of _ "?s ! (?n div 2)"]) (simp add: median_def Let_def)
  next
    case False
    let ?a = "?s ! (?n div 2 - 1)" and ?b = "?s ! (?n div 2)"
    have half: "2 * (?n div 2) = ?n" using False by presburger
    then have h: "0 < ?n div 2" "?n div 2 - 1 < ?n" "?n div 2 < ?n" using pos by linarith+
    then have "?a \<le> ?b" by (intro sorted_nth_mono) simp_all
    from mean [OF this] both [OF h(2,3), of "mean ?a ?b"] half h(1)
    have "?n \<le> 2 * length (filter (\<lambda>x. x \<le> mean ?a ?b) v) \<and> ?n \<le> 2 * length (filter (\<lambda>x. mean ?a ?b \<le> x) v)" by auto
    moreover have "median mean v = Inr (mean ?a ?b)" using False h by (auto simp: median_def Let_def index_at_def)
    ultimately show ?thesis by blast
  qed
qed

subsection \<open>The runs\<close>

text \<open>The proxy serves only with parameters that have passed the checks, the same in both directions.\<close>

lemma netem_proxy_serves_valid:
  assumes "netem_proxy fl open_log bind_it local_addr args = Inr s"
  shows "\<exists>params. link_of_args fl args = Inr params \<and> lk_bits_per_sec params \<noteq> Some 0 \<and> se_accepted s = 0 \<and>
    server_run transfer params params (open_log \<noteq> None) s"
proof -
  obtain params where p: "link_of_args fl args = Inr params" "serve_start params params = Inr s"
    using assms by (auto simp: netem_proxy_def and_then_Inr_iff)
  then have "validate_link params = Inr ()" "s = netem_server_new" by (auto simp: serve_start_def and_then_Inr_iff)
  then show ?thesis using p server_first [OF p(2)]
    by (intro exI [of _ params]) (auto simp: validate_link_def ensure_Inr_iff netem_server_new_def)
qed

lemma ping_loop_length: "ping_loop nc n s = Inr (rtts, t) \<Longrightarrow> length rtts = n"
  by (induction n arbitrary: s rtts t) (auto simp: and_then_Inr_iff split: prod.splits)

lemma foldl_min_le: "foldl min z xs \<le> z \<and> (\<forall>x \<in> set xs. foldl min z xs \<le> (x :: 'f::linorder))"
proof (induction xs arbitrary: z)
  case (Cons y ys)
  have "foldl min (min z y) ys \<le> min z y" using Cons by blast
  then show ?case using Cons [of "min z y"] by simp
qed simp

lemma foldl_max_ge: "z \<le> foldl max z xs \<and> (\<forall>x \<in> set xs. (x :: 'f::linorder) \<le> foldl max z xs)"
proof (induction xs arbitrary: z)
  case (Cons y ys)
  have "max z y \<le> foldl max (max z y) ys" using Cons by blast
  then show ?case using Cons [of "max z y"] by simp
qed simp

text \<open>A calibration that ends reports every ping, bounds and the median of the samples, and the size of the transfer,
  which is the requested one below \<open>2^44\<close> MiB.\<close>

theorem calibration_reports_samples:
  assumes "calibrate fl nc args s = Inr r"
  shows "length (cr_samples r) = ca_pings args \<and> cr_samples r \<noteq> [] \<and>
    (\<forall>x \<in> set (cr_samples r). cr_min r \<le> x \<and> x \<le> cr_max r) \<and>
    median (fl_mean fl) (cr_samples r) = Inr (cr_median r) \<and>
    (if ca_bulk_mib args < 2 ^ 44 then unat (cr_bulk_bytes r) = 2 ^ 20 * unat (ca_bulk_mib args) else True)"
proof -
  obtain rtts t u v secs where run: "ping_loop nc (ca_pings args) t = Inr (rtts, u)" "1 \<le> ca_pings args"
    and cal: "calibration_of fl args rtts (bulk_bytes (ca_bulk_mib args)) secs = Inr r"
    using assms by (auto simp: calibrate_def and_then_Inr_iff ensure_Inr_iff split: prod.splits)
  have len: "length rtts = ca_pings args" by (rule ping_loop_length [OF run(1)])
  have r: "cr_samples r = rtts" "cr_min r = foldl min (fl_greatest fl) rtts" "cr_max r = foldl max (fl_zero fl) rtts"
    "median (fl_mean fl) rtts = Inr (cr_median r)" "cr_bulk_bytes r = bulk_bytes (ca_bulk_mib args)"
    using cal by (auto simp: calibration_of_def and_then_Inr_iff Let_def)
  have "unat (bulk_bytes (ca_bulk_mib args)) = 2 ^ 20 * unat (ca_bulk_mib args)" if "ca_bulk_mib args < 2 ^ 44"
  proof -
    have "unat (ca_bulk_mib args) < 2 ^ 44" using that by (simp add: word_less_nat_alt)
    then show ?thesis
      by (simp add: bulk_bytes_def push_bit_eq_mult unat_word_ariths)
  qed
  then show ?thesis using len run(2) r foldl_min_le [of "fl_greatest fl" rtts] foldl_max_ge [of "fl_zero fl" rtts] by auto
qed

text \<open>A transfer of \<open>2^44\<close> MiB passes the check and is empty: the shift drops the high bits.\<close>

lemma bulk_bytes_wraps: "1 \<le> (2 ^ 44 :: u64) \<and> bulk_bytes (2 ^ 44) = 0"
  by (simp add: bulk_bytes_def push_bit_eq_mult word_le_nat_alt)

subsection \<open>Samples\<close>

definition log_client :: "(bytes, nat) net_client" where
  "log_client = \<lparr>nc_echo = Inr, nc_proxy = (\<lambda>_. Inr), nc_connect = (\<lambda>_. Inr []), nc_write = (\<lambda>b s. Inr (s @ b)),
     nc_read_exact = (\<lambda>n s. Inr (replicate n (CHR ''k''), s)), nc_elapsed_ms = (\<lambda>_ _. 3), nc_elapsed_secs = (\<lambda>_ _. 5)\<rparr>"

lemma bulk_acknowledged_at_its_end_witness:
  "\<exists>w. bulk_send log_client 2 0 (''b'' @ be_bytes 8 2) = Inr w \<and> echo_task (\<lambda>_. True) [w] = ''k'' \<and>
     echo_task (\<lambda>_. True) [butlast w] = []"
proof -
  have opened: "bulk_open log_client (2 :: u64) [] = Inr (''b'' @ be_bytes 8 2)"
    by (simp add: bulk_open_def log_client_def)
  have sent: "bulk_send log_client (unat (2 :: u64)) 0 (''b'' @ be_bytes 8 2) = Inr (''b'' @ be_bytes 8 2 @ ''ZZ'')"
  proof -
    have "replicate 2 (CHR ''Z'') = ''ZZ''" by (simp add: numeral_2_eq_2)
    then show ?thesis
      by (simp add: bulk_send.simps [of _ 2 0] bulk_send.simps [of _ 2 2] log_client_def BULK_CHUNK_def Let_def)
  qed
  let ?w = "''b'' @ be_bytes 8 2 @ ''ZZ''"
  have w: "\<And>b s s'. nc_write log_client b s = Inr s' \<Longrightarrow> id s' = id s @ b" by (simp add: log_client_def)
  have ne: "?w \<noteq> []" "butlast ?w \<noteq> []" "butlast ?w \<noteq> ?w" by (simp_all add: butlast_append)
  have pre: "prefix ?w ?w" "prefix (butlast ?w) ?w" by (simp, metis append_butlast_last_id ne(1) prefixI)
  have "echo_task (\<lambda>_. True) [?w] = ''k''"
    using bulk_acknowledged_at_its_end [of log_client id, OF w _ opened sent, of "[?w]"] ne pre by simp
  moreover have "echo_task (\<lambda>_. True) [butlast ?w] = []"
    using bulk_acknowledged_at_its_end [of log_client id, OF w _ opened sent, of "[butlast ?w]"] ne pre by (simp del: butlast.simps)
  ultimately show ?thesis using sent by (intro exI [of _ ?w]) simp
qed

lemma median_splits_witness:
  "median (\<lambda>a b. (a + b) div 2) [7, 1, 4, 2 :: nat] = Inr 3 \<and>
   (\<exists>m. median (\<lambda>a b. (a + b) div 2) [7, 1, 4, 2 :: nat] = Inr m \<and> length [7, 1, 4, 2 :: nat] \<le> 2 * length (filter (\<lambda>x. x \<le> m) [7, 1, 4, 2]))"
proof -
  have "median (\<lambda>a b. (a + b) div 2) [7, 1, 4, 2 :: nat] = Inr 3" by (simp add: median_def index_at_def)
  moreover have "a \<le> (a + b) div 2 \<and> (a + b) div 2 \<le> b" if "a \<le> b" for a b :: nat using that by auto
  from median_splits [of "\<lambda>a b. (a + b) div 2", OF this, of "[7, 1, 4, 2]"]
  have "\<exists>m. median (\<lambda>a b. (a + b) div 2) [7, 1, 4, 2 :: nat] = Inr m \<and> length [7, 1, 4, 2 :: nat] \<le> 2 * length (filter (\<lambda>x. x \<le> m) [7, 1, 4, 2])"
    by blast
  ultimately show ?thesis by blast
qed

end
