(* ===== verification/Attestation_Encoding.thy ===== *)
theory Attestation_Encoding
  imports Prelude "HOL-Library.Multiset"
begin

section \<open>The encoding of an attestation for a contract\<close>

text \<open>
  Model of \<open>pprev-prover/src/e1.rs\<close>: the body fields of an attestation as a contract receives them, the Merkle
  tree over their leaves, and the checks of \<open>encode\<close>. Keccak-256, BLAKE3, the BCS encodings, the reading of tlsn's
  body and the recovery of a signer are parameters. The tree is compared with its recursive definition, and shown
  to bind its leaves.
\<close>

subsection \<open>Fields\<close>

datatype field_kind = Verifying_key | Connection_info | Server_ephemeral_key | Cert_commitment | Extension_field
  | Transcript_commitment

fun type_name :: "field_kind \<Rightarrow> bytes" where
  "type_name Verifying_key = ''VerifyingKey''"
| "type_name Connection_info = ''tlsn_core::connection::ConnectionInfo''"
| "type_name Server_ephemeral_key = ''tlsn_core::connection::ServerEphemKey''"
| "type_name Cert_commitment = ''ServerCertCommitment''"
| "type_name Extension_field = ''Extension''"
| "type_name Transcript_commitment = ''tlsn_core::transcript::TranscriptCommitment''"

definition kind_domain :: "(bytes \<Rightarrow> bytes) \<Rightarrow> field_kind \<Rightarrow> bytes" where
  "kind_domain blake3 k = take 16 (blake3 (type_name k))"

record encoded_field =
  ef_id :: "32 word"
  ef_kind :: field_kind
  ef_data :: bytes
  ef_leaf :: bytes

record encoded_attestation =
  ea_header :: bytes
  ea_signature :: bytes
  ea_signer :: bytes
  ea_fields :: "encoded_field list"
  ea_root :: bytes

text \<open>The body as serde presents it: identifiers and data, the data of any of the six types in \<open>'d\<close>.\<close>

record 'd body_view =
  bv_verifying_key :: "32 word \<times> 'd"
  bv_connection_info :: "32 word \<times> 'd"
  bv_server_ephemeral_key :: "32 word \<times> 'd"
  bv_cert_commitment :: "32 word \<times> 'd"
  bv_extensions :: "(32 word \<times> 'd) list"
  bv_transcript_commitments :: "(32 word \<times> 'd) list"

datatype signature_alg = SECP256K1ETH | Other_signature
datatype tree_alg = KECCAK256 | Other_tree

record ('hd, 'body) signed_attestation =
  sa_signature_alg :: signature_alg
  sa_signature :: bytes
  sa_header :: 'hd
  sa_root_alg :: tree_alg
  sa_root :: bytes
  sa_body :: 'body

record ('hd, 'body, 'd) encoder =
  en_keccak :: "bytes \<Rightarrow> bytes"
  en_blake3 :: "bytes \<Rightarrow> bytes"
  en_header :: "'hd \<Rightarrow> bytes res"
  en_data :: "'d \<Rightarrow> bytes res"
  en_body :: "'body \<Rightarrow> 'd body_view res"
  en_recover :: "bytes \<Rightarrow> bytes \<Rightarrow> bytes res"

definition encoded :: "('hd, 'body, 'd) encoder \<Rightarrow> field_kind \<Rightarrow> 32 word \<times> 'd \<Rightarrow> encoded_field res" where
  "encoded en k f =
     and_then (with_ctx ''BCS'' (en_data en (snd f))) (\<lambda>dat.
     Inr \<lparr>ef_id = fst f, ef_kind = k, ef_data = dat, ef_leaf = en_keccak en (kind_domain (en_blake3 en) k @ dat)\<rparr>)"

subsection \<open>The Merkle tree\<close>

text \<open>One pass of the loop over the chunks of two.\<close>

fun next_layer :: "(bytes \<Rightarrow> bytes) \<Rightarrow> bytes list \<Rightarrow> bytes list" where
  "next_layer h [] = []"
| "next_layer h [x] = [x]"
| "next_layer h (l # r # rest) = h (l @ r) # next_layer h rest"

lemma length_next_layer [simp]: "length (next_layer h xs) = Suc (length xs) div 2"
  by (induction h xs rule: next_layer.induct) auto

function top_layer :: "(bytes \<Rightarrow> bytes) \<Rightarrow> bytes list \<Rightarrow> bytes list" where
  "top_layer h layer = (if length layer > 1 then top_layer h (next_layer h layer) else layer)"
  by pat_completeness auto
termination by (relation "measure (\<lambda>(h, layer). length layer)") auto

declare top_layer.simps [simp del]

definition merkle_root :: "(bytes \<Rightarrow> bytes) \<Rightarrow> bytes list \<Rightarrow> bytes res" where
  "merkle_root h leaves =
     ensure (leaves \<noteq> []) ''a tree has at least one leaf'' (index_at (top_layer h leaves) 0)"

subsection \<open>Encoding\<close>

definition encode_attestation :: "('hd, 'body, 'd) encoder \<Rightarrow> ('hd, 'body) signed_attestation \<Rightarrow> encoded_attestation res" where
  "encode_attestation en a =
     ensure (sa_signature_alg a = SECP256K1ETH) ''the attestation is not signed with SECP256K1ETH'' (
     ensure (sa_root_alg a = KECCAK256) ''the attestation's Merkle tree is not KECCAK256'' (
     and_then (with_ctx ''BCS of the header'' (en_header en (sa_header a))) (\<lambda>header.
     and_then (with_ctx ''reading the attestation body'' (en_body en (sa_body a))) (\<lambda>body.
     and_then (encoded en Verifying_key (bv_verifying_key body)) (\<lambda>f1.
     and_then (encoded en Connection_info (bv_connection_info body)) (\<lambda>f2.
     and_then (encoded en Server_ephemeral_key (bv_server_ephemeral_key body)) (\<lambda>f3.
     and_then (encoded en Cert_commitment (bv_cert_commitment body)) (\<lambda>f4.
     and_then (collect_res (encoded en Extension_field) (bv_extensions body)) (\<lambda>exts.
     and_then (collect_res (encoded en Transcript_commitment) (bv_transcript_commitments body)) (\<lambda>tcs.
     let fields = sort_key ef_id ([f1, f2, f3, f4] @ exts @ tcs) in
     and_then (merkle_root (en_keccak en) (map ef_leaf fields)) (\<lambda>root.
     let sig = sa_signature a in
     ensure (length sig = 65) ''an ecrecover signature has 65 bytes'' (
     let v = byte_val (sig ! 64); sig27 = (if v < 27 then sig[64 := char_of (v + 27)] else sig) in
     and_then (en_recover en sig27 (en_keccak en header)) (\<lambda>signer.
     ensure (sa_root a = root) ''recomputed root differs from the header's''
       (Inr \<lparr>ea_header = header, ea_signature = sig, ea_signer = signer, ea_fields = fields, ea_root = root\<rparr>))))))))))))))"

subsection \<open>The tree's recursive definition\<close>

text \<open>The split of a tree over \<open>n\<close> leaves: the largest power of two below \<open>n\<close> (as in RFC 6962).\<close>

fun split_at :: "nat \<Rightarrow> nat" where
  "split_at n = (if n \<le> 2 then 1 else 2 * split_at (Suc n div 2))"

declare split_at.simps [simp del]

lemma split_at_bounds: "2 \<le> n \<Longrightarrow> 1 \<le> split_at n \<and> split_at n < n \<and> n \<le> 2 * split_at n"
proof (induction n rule: split_at.induct)
  case (1 n)
  show ?case
  proof (cases "n \<le> 2")
    case True
    with 1(2) show ?thesis by (simp add: split_at.simps)
  next
    case False
    with 1 have "1 \<le> split_at (Suc n div 2) \<and> split_at (Suc n div 2) < Suc n div 2 \<and> Suc n div 2 \<le> 2 * split_at (Suc n div 2)"
      by simp
    moreover have "split_at n = 2 * split_at (Suc n div 2)" using False by (subst split_at.simps) simp
    ultimately show ?thesis by linarith
  qed
qed

lemma split_at_power: "\<exists>j. split_at n = 2 ^ j"
proof (induction n rule: split_at.induct)
  case (1 n)
  show ?case
  proof (cases "n \<le> 2")
    case True
    then show ?thesis by (simp add: split_at.simps exI [of _ 0])
  next
    case False
    with 1 obtain j where "split_at (Suc n div 2) = 2 ^ j" by blast
    then have "split_at n = 2 ^ Suc j" using False by (subst split_at.simps) simp
    then show ?thesis ..
  qed
qed

function tree_root :: "(bytes \<Rightarrow> bytes) \<Rightarrow> bytes list \<Rightarrow> bytes" where
  "tree_root h xs =
     (if length xs \<le> 1 then hd xs
      else h (tree_root h (take (split_at (length xs)) xs) @ tree_root h (drop (split_at (length xs)) xs)))"
  by pat_completeness auto
termination
proof (relation "measure (\<lambda>(h, xs). length xs)")
  fix h :: "bytes \<Rightarrow> bytes" and xs :: "bytes list"
  assume "\<not> length xs \<le> 1"
  with split_at_bounds [of "length xs"] have "1 \<le> split_at (length xs) \<and> split_at (length xs) < length xs" by simp
  then show "((h, take (split_at (length xs)) xs), h, xs) \<in> measure (\<lambda>(h, xs). length xs)"
    and "((h, drop (split_at (length xs)) xs), h, xs) \<in> measure (\<lambda>(h, xs). length xs)"
    by (auto simp: min_def)
qed simp

declare tree_root.simps [simp del]

lemma next_layer_append:
  "even (length xs) \<Longrightarrow> next_layer h (xs @ ys) = next_layer h xs @ next_layer h ys"
  by (induction h xs rule: next_layer.induct) auto

lemma next_layer_take_drop:
  assumes "k \<le> length xs" and "even k"
  shows "next_layer h (take k xs) = take (k div 2) (next_layer h xs)"
    and "next_layer h (drop k xs) = drop (k div 2) (next_layer h xs)"
proof -
  have eq: "next_layer h xs = next_layer h (take k xs) @ next_layer h (drop k xs)"
    using next_layer_append [of "take k xs" h "drop k xs"] assms by simp
  have "length (next_layer h (take k xs)) = k div 2" using assms by (simp add: min_def)
  then show "next_layer h (take k xs) = take (k div 2) (next_layer h xs)"
    and "next_layer h (drop k xs) = drop (k div 2) (next_layer h xs)" unfolding eq by simp_all
qed

text \<open>One pass does not change the root.\<close>

lemma tree_root_next_layer: "xs \<noteq> [] \<Longrightarrow> tree_root h (next_layer h xs) = tree_root h xs"
proof (induction "length xs" arbitrary: xs rule: less_induct)
  case less
  consider (one) x where "xs = [x]" | (two) x y where "xs = [x, y]" | (more) "2 < length xs"
  proof (cases "2 < length xs")
    case False
    moreover have "length xs \<noteq> 0" using less.prems by simp
    ultimately have "length xs = 1 \<or> length xs = 2" by linarith
    then show ?thesis using that by (auto simp: length_Suc_conv numeral_2_eq_2)
  qed
  then show ?case
  proof cases
    case one
    then show ?thesis by simp
  next
    case two
    then show ?thesis by (simp add: tree_root.simps [of h "[x, y]"] tree_root.simps [of h "[_]"] split_at.simps)
  next
    case more
    let ?n = "length xs" and ?k = "split_at (length xs)" and ?ys = "next_layer h xs"
    have k: "?k = 2 * split_at (Suc ?n div 2)" using more by (subst split_at.simps) simp
    have b: "1 \<le> ?k \<and> ?k < ?n" using split_at_bounds more by simp
    have half: "split_at (length ?ys) = ?k div 2" unfolding k by simp
    have wide: "\<not> Suc ?n div 2 \<le> Suc 0" using more by linarith
    note td = next_layer_take_drop [of ?k xs h, folded half]
    have "tree_root h ?ys = h (tree_root h (take (split_at (length ?ys)) ?ys) @ tree_root h (drop (split_at (length ?ys)) ?ys))"
      using wide by (subst tree_root.simps) simp
    also have "\<dots> = h (tree_root h (next_layer h (take ?k xs)) @ tree_root h (next_layer h (drop ?k xs)))"
      using td b k by simp
    also have "\<dots> = h (tree_root h (take ?k xs) @ tree_root h (drop ?k xs))"
    proof -
      have "xs \<noteq> []" "length xs - ?k < length xs" using b by (auto simp: Suc_le_eq)
      then show ?thesis using less.hyps [of "take ?k xs"] less.hyps [of "drop ?k xs"] b by simp
    qed
    also have "\<dots> = tree_root h xs" using more by (subst (3) tree_root.simps) simp
    finally show ?thesis .
  qed
qed

lemma top_layer_root: "xs \<noteq> [] \<Longrightarrow> top_layer h xs = [tree_root h xs]"
proof (induction h xs rule: top_layer.induct)
  case (1 h xs)
  show ?case
  proof (cases "length xs > 1")
    case True
    then have "0 < length (next_layer h xs)" by simp
    then have "next_layer h xs \<noteq> []" by (rule length_greater_0_conv [THEN iffD1])
    with 1 True show ?thesis using tree_root_next_layer [OF 1(2)] by (subst top_layer.simps) simp
  next
    case False
    with 1(2) obtain x where "xs = [x]" by (cases xs) auto
    then show ?thesis by (subst top_layer.simps) (simp add: tree_root.simps)
  qed
qed

text \<open>C35: The loop over the layers computes the root of the recursively defined tree, whose left part has the
  largest power of two of leaves, and a tree without leaves is an error; it returns for every list.\<close>

theorem merkle_root_is_tree_root:
  "merkle_root h leaves =
    (if leaves = [] then bail ''a tree has at least one leaf'' else Inr (tree_root h leaves))"
  by (simp add: merkle_root_def top_layer_root index_at_def ensure_def bail_def)

subsection \<open>The root binds the leaves\<close>

text \<open>The messages that a layer, and the whole tree, hashes.\<close>

fun pair_inputs :: "bytes list \<Rightarrow> bytes list" where
  "pair_inputs [] = []"
| "pair_inputs [x] = []"
| "pair_inputs (l # r # rest) = (l @ r) # pair_inputs rest"

function node_inputs :: "(bytes \<Rightarrow> bytes) \<Rightarrow> bytes list \<Rightarrow> bytes list" where
  "node_inputs h layer =
     (if length layer > 1 then pair_inputs layer @ node_inputs h (next_layer h layer) else [])"
  by pat_completeness auto
termination by (relation "measure (\<lambda>(h, layer). length layer)") auto

declare node_inputs.simps [simp del]

definition no_collision :: "(bytes \<Rightarrow> bytes) \<Rightarrow> bytes list \<Rightarrow> bytes list \<Rightarrow> bool" where
  "no_collision h as bs \<longleftrightarrow> (\<forall>a \<in> set as. \<forall>b \<in> set bs. h a = h b \<longrightarrow> a = b)"

lemma no_collision_append:
  "no_collision h (as @ as') (bs @ bs') \<Longrightarrow> no_collision h as bs \<and> no_collision h as' bs'"
  by (auto simp: no_collision_def)

lemma next_layer_inject:
  "length xs = length ys \<Longrightarrow> \<forall>x \<in> set xs \<union> set ys. length x = 32 \<Longrightarrow> no_collision h (pair_inputs xs) (pair_inputs ys) \<Longrightarrow>
    next_layer h xs = next_layer h ys \<Longrightarrow> xs = ys"
proof (induction h xs arbitrary: ys rule: next_layer.induct)
  case (2 h x)
  then obtain y where "ys = [y]" by (cases ys) auto
  with 2 show ?case by simp
next
  case (3 h l r rest)
  obtain l' ys' where "ys = l' # ys'" using "3.prems"(1) by (cases ys) auto
  moreover from this obtain r' rest' where "ys' = r' # rest'" using "3.prems"(1) by (cases ys') auto
  ultimately have ys: "ys = l' # r' # rest'" by simp
  have "l @ r = l' @ r'" using "3.prems"(3,4) by (auto simp: ys no_collision_def)
  moreover have "length l = length l'" using "3.prems"(2) by (simp add: ys)
  moreover have "rest = rest'" by (rule "3.IH") (use "3.prems" in \<open>auto simp: ys no_collision_def\<close>)
  ultimately show ?case by (simp add: ys)
qed simp

lemma next_layer_32:
  assumes "\<forall>m. length (h m) = 32"
  shows "\<forall>x \<in> set xs. length x = 32 \<Longrightarrow> \<forall>x \<in> set (next_layer h xs). length x = 32"
  using assms by (induction h xs rule: next_layer.induct) auto

lemma top_layer_step: "1 < length xs \<Longrightarrow> top_layer h xs = top_layer h (next_layer h xs)"
  by (subst top_layer.simps) simp

lemma top_layer_end: "\<not> 1 < length xs \<Longrightarrow> top_layer h xs = xs"
  by (subst top_layer.simps) simp

lemma top_layer_inject:
  assumes h: "\<forall>m. length (h m) = 32"
  shows "length xs = length ys \<Longrightarrow> \<forall>x \<in> set xs. length x = 32 \<Longrightarrow> \<forall>y \<in> set ys. length y = 32 \<Longrightarrow>
    no_collision h (node_inputs h xs) (node_inputs h ys) \<Longrightarrow> top_layer h xs = top_layer h ys \<Longrightarrow> xs = ys"
proof (induction "length xs" arbitrary: xs ys rule: less_induct)
  case less
  show ?case
  proof (cases "1 < length xs")
    case True
    then have wide: "1 < length ys" using less.prems(1) by simp
    have "no_collision h (pair_inputs xs @ node_inputs h (next_layer h xs)) (pair_inputs ys @ node_inputs h (next_layer h ys))"
      using less.prems(4) True wide by (simp add: node_inputs.simps [of h xs] node_inputs.simps [of h ys])
    from no_collision_append [OF this] have nc: "no_collision h (pair_inputs xs) (pair_inputs ys)"
        "no_collision h (node_inputs h (next_layer h xs)) (node_inputs h (next_layer h ys))"
      by simp_all
    have "top_layer h (next_layer h xs) = top_layer h (next_layer h ys)"
      by (rule trans [OF trans [OF top_layer_step [OF True, symmetric] less.prems(5)] top_layer_step [OF wide]])
    moreover have "length (next_layer h xs) < length xs" using True by simp
    moreover have "length (next_layer h xs) = length (next_layer h ys)" using less.prems(1) by simp
    ultimately have "next_layer h xs = next_layer h ys"
      using less.hyps nc(2) next_layer_32 [OF h less.prems(2)] next_layer_32 [OF h less.prems(3)] by blast
    moreover have "\<forall>x \<in> set xs \<union> set ys. length x = 32" using less.prems(2,3) by blast
    ultimately show ?thesis using next_layer_inject [OF less.prems(1) _ nc(1)] by blast
  next
    case False
    moreover from False have "\<not> 1 < length ys" using less.prems(1) by simp
    ultimately show ?thesis using less.prems(5) top_layer_end by metis
  qed
qed

text \<open>What \<open>encode_attestation\<close> accepts.\<close>

definition body_fields :: "'d body_view \<Rightarrow> (field_kind \<times> 32 word \<times> 'd) list" where
  "body_fields b =
     [(Verifying_key, bv_verifying_key b), (Connection_info, bv_connection_info b),
      (Server_ephemeral_key, bv_server_ephemeral_key b), (Cert_commitment, bv_cert_commitment b)]
     @ map (Pair Extension_field) (bv_extensions b) @ map (Pair Transcript_commitment) (bv_transcript_commitments b)"

definition leaf_input :: "('hd, 'body, 'd) encoder \<Rightarrow> encoded_field \<Rightarrow> bytes" where
  "leaf_input en f = kind_domain (en_blake3 en) (ef_kind f) @ ef_data f"

lemma encoded_iff:
  "encoded en k f = Inr e \<longleftrightarrow> en_data en (snd f) = Inr (ef_data e) \<and> ef_id e = fst f \<and> ef_kind e = k \<and>
    ef_leaf e = en_keccak en (leaf_input en e)"
  by (cases e) (auto simp: encoded_def and_then_Inr_iff with_ctx_Inr_iff leaf_input_def)

lemma collect_fields_append:
  "collect_res f xs = Inr as \<Longrightarrow> collect_res f ys = Inr bs \<Longrightarrow> collect_res f (xs @ ys) = Inr (as @ bs)"
  by (induction xs arbitrary: as) (auto simp: and_then_Inr_iff)

text \<open>An encoding that is accepted is faithful to the attestation: Ethereum-compatible algorithms, the encoded
  header, a signature of 65 bytes whose recovered signer over the header's hash is reported, and the body's
  fields, all of them and no others, in the order of their identifiers, each with the hash of its domain and data
  as its leaf; the root of the tree over the leaves is the one in the header.\<close>

theorem encode_attestation_sound:
  assumes "encode_attestation en a = Inr e"
  shows "sa_signature_alg a = SECP256K1ETH \<and> sa_root_alg a = KECCAK256 \<and> en_header en (sa_header a) = Inr (ea_header e) \<and>
    ea_signature e = sa_signature a \<and> length (ea_signature e) = 65 \<and>
    (\<exists>v. take 64 v = take 64 (ea_signature e) \<and> length v = 65 \<and> 27 \<le> byte_val (v ! 64) \<and>
      en_recover en v (en_keccak en (ea_header e)) = Inr (ea_signer e)) \<and>
    (\<exists>b fs. en_body en (sa_body a) = Inr b \<and> collect_res (\<lambda>(k, f). encoded en k f) (body_fields b) = Inr fs \<and>
      mset (ea_fields e) = mset fs) \<and>
    sorted (map ef_id (ea_fields e)) \<and>
    ea_root e = tree_root (en_keccak en) (map ef_leaf (ea_fields e)) \<and> ea_root e = sa_root a"
proof -
  let ?sig = "sa_signature a"
  let ?sig27 = "if byte_val (?sig ! 64) < 27 then ?sig[64 := char_of (byte_val (?sig ! 64) + 27)] else ?sig"
  from assms obtain header body f1 f2 f3 f4 exts tcs root signer where
    alg: "sa_signature_alg a = SECP256K1ETH" "sa_root_alg a = KECCAK256"
    and header: "en_header en (sa_header a) = Inr header" and body: "en_body en (sa_body a) = Inr body"
    and f: "encoded en Verifying_key (bv_verifying_key body) = Inr f1"
      "encoded en Connection_info (bv_connection_info body) = Inr f2"
      "encoded en Server_ephemeral_key (bv_server_ephemeral_key body) = Inr f3"
      "encoded en Cert_commitment (bv_cert_commitment body) = Inr f4"
      "collect_res (encoded en Extension_field) (bv_extensions body) = Inr exts"
      "collect_res (encoded en Transcript_commitment) (bv_transcript_commitments body) = Inr tcs"
    and root: "merkle_root (en_keccak en) (map ef_leaf (sort_key ef_id ([f1, f2, f3, f4] @ exts @ tcs))) = Inr root"
    and sig: "length ?sig = 65" "en_recover en ?sig27 (en_keccak en header) = Inr signer" "sa_root a = root"
    and e: "e = \<lparr>ea_header = header, ea_signature = ?sig, ea_signer = signer,
      ea_fields = sort_key ef_id ([f1, f2, f3, f4] @ exts @ tcs), ea_root = root\<rparr>"
    unfolding encode_attestation_def
    by (auto simp: and_then_Inr_iff with_ctx_Inr_iff ensure_Inr_iff Let_def simp del: sort_key_simps)
  have "collect_res (\<lambda>(k, f). encoded en k f) (map (Pair k) fs) = collect_res (encoded en k) fs" for k fs
    by (induction fs) simp_all
  then have "collect_res (\<lambda>(k, f). encoded en k f) (body_fields body) = Inr ([f1, f2, f3, f4] @ exts @ tcs)"
    using f collect_fields_append [of "\<lambda>(k, f). encoded en k f" "map (Pair Extension_field) (bv_extensions body)" exts
        "map (Pair Transcript_commitment) (bv_transcript_commitments body)" tcs]
    by (simp add: body_fields_def)
  moreover obtain fields where fields: "fields = sort_key ef_id ([f1, f2, f3, f4] @ exts @ tcs)" by simp
  then have "mset fields = mset ([f1, f2, f3, f4] @ exts @ tcs)" and "sorted (map ef_id fields)" by (simp_all only: mset_sort sorted_sort_key)
  moreover have "root = tree_root (en_keccak en) (map ef_leaf fields)"
    using root unfolding fields merkle_root_is_tree_root by (simp add: bail_def split: if_splits)
  moreover have "\<exists>v. take 64 v = take 64 ?sig \<and> length v = 65 \<and> 27 \<le> byte_val (v ! 64) \<and>
      en_recover en v (en_keccak en header) = Inr signer"
    by (rule exI [where x = ?sig27]) (use sig in auto)
  moreover have "e = \<lparr>ea_header = header, ea_signature = ?sig, ea_signer = signer, ea_fields = fields, ea_root = root\<rparr>"
    using e by (simp only: fields)
  ultimately show ?thesis using alg header body sig(1,3) by simp
qed

text \<open>Everything that is hashed for an encoding.\<close>

definition hashed :: "('hd, 'body, 'd) encoder \<Rightarrow> encoded_attestation \<Rightarrow> bytes list" where
  "hashed en e = map (leaf_input en) (ea_fields e) @ node_inputs (en_keccak en) (map ef_leaf (ea_fields e))"

lemma collect_res_set: "collect_res f xs = Inr ys \<Longrightarrow> y \<in> set ys \<Longrightarrow> \<exists>x \<in> set xs. f x = Inr y"
  by (induction xs arbitrary: ys) (auto simp: and_then_Inr_iff)

lemma encoded_leaves:
  assumes "encode_attestation en a = Inr e" and "f \<in> set (ea_fields e)"
  shows "ef_leaf f = en_keccak en (leaf_input en f)"
proof -
  from encode_attestation_sound [OF assms(1)] obtain b fs where
    "collect_res (\<lambda>(k, f). encoded en k f) (body_fields b) = Inr fs" and "mset (ea_fields e) = mset fs" by blast
  moreover from this(2) assms(2) have "f \<in> set fs" by (metis set_mset_mset)
  ultimately show ?thesis using collect_res_set by (fastforce simp: encoded_iff)
qed

lemma map_leaf_inject:
  assumes "\<forall>f \<in> set fs. ef_leaf f = h (leaf_input en f)" and "\<forall>g \<in> set gs. ef_leaf g = h (leaf_input en g)"
    and "no_collision h (map (leaf_input en) fs) (map (leaf_input en) gs)" and "map ef_leaf fs = map ef_leaf gs"
  shows "map (leaf_input en) fs = map (leaf_input en) gs"
proof -
  from assms(4) have "length fs = length gs" by (rule map_eq_imp_length_eq)
  then show ?thesis using assms
    by (induction fs gs rule: list_induct2) (auto simp: no_collision_def)
qed

text \<open>C36: The root of an accepted encoding binds the kinds and the data of the fields, given their number: two
  accepted encodings with one root and as many fields hold the same kinds and data in the same order, unless two
  of the messages that were hashed for them collide.\<close>

theorem encoding_binds_fields:
  assumes e: "encode_attestation en a = Inr e" and f: "encode_attestation en b = Inr f"
    and root: "ea_root e = ea_root f" and n: "length (ea_fields e) = length (ea_fields f)"
    and hash: "\<forall>m. length (en_keccak en m) = 32" and domains: "inj (kind_domain (en_blake3 en))"
    and sixteen: "\<forall>k. length (kind_domain (en_blake3 en) k) = 16"
    and nc: "no_collision (en_keccak en) (hashed en e) (hashed en f)"
  shows "map (\<lambda>x. (ef_kind x, ef_data x)) (ea_fields e) = map (\<lambda>x. (ef_kind x, ef_data x)) (ea_fields f)"
proof -
  let ?h = "en_keccak en" and ?ls = "map ef_leaf (ea_fields e)" and ?ms = "map ef_leaf (ea_fields f)"
  from nc have nc: "no_collision ?h (map (leaf_input en) (ea_fields e)) (map (leaf_input en) (ea_fields f))"
      "no_collision ?h (node_inputs ?h ?ls) (node_inputs ?h ?ms)"
    unfolding hashed_def using no_collision_append by blast+
  have leaf: "\<forall>x \<in> set (ea_fields e). ef_leaf x = ?h (leaf_input en x)" "\<forall>x \<in> set (ea_fields f). ef_leaf x = ?h (leaf_input en x)"
    using encoded_leaves e f by blast+
  have nonempty: "?ls \<noteq> []" "?ms \<noteq> []"
    using e f merkle_root_is_tree_root by (auto simp: encode_attestation_def and_then_Inr_iff ensure_Inr_iff bail_def Let_def)
  have "tree_root ?h ?ls = tree_root ?h ?ms"
    using root encode_attestation_sound [OF e] encode_attestation_sound [OF f] by simp
  then have "top_layer ?h ?ls = top_layer ?h ?ms" using nonempty by (simp add: top_layer_root)
  moreover have "\<forall>l \<in> set ?ls. length l = 32" "\<forall>m \<in> set ?ms. length m = 32" using leaf hash by auto
  ultimately have "?ls = ?ms" using top_layer_inject [OF hash _ _ _ nc(2)] n by simp
  then have "map (leaf_input en) (ea_fields e) = map (leaf_input en) (ea_fields f)"
    using map_leaf_inject [OF leaf nc(1)] by blast
  moreover have "leaf_input en x = leaf_input en y \<longleftrightarrow> (ef_kind x, ef_data x) = (ef_kind y, ef_data y)" for x y
    using sixteen domains by (auto simp: leaf_input_def dest: injD)
  ultimately show ?thesis using n by (simp add: list_eq_iff_nth_eq)
qed

text \<open>A tree does not bind the number of its leaves: a pair and the hash of the pair have one root.\<close>

lemma root_of_pair: "merkle_root h [l, r] = merkle_root h [h (l @ r)]"
  by (simp add: merkle_root_is_tree_root tree_root.simps split_at.simps)

subsection \<open>Examples\<close>

definition sample_encoder :: "(unit, unit, bytes) encoder" where
  "sample_encoder =
     \<lparr>en_keccak = (\<lambda>m. let p = m @ replicate (32 - length m) (CHR 0x00) in take 16 p @ drop (length p - 16) p),
      en_blake3 = (\<lambda>s. rev s @ replicate 16 (CHR 0x00)), en_header = (\<lambda>_. Inr ''header''), en_data = Inr,
      en_body = (\<lambda>_. Inr \<lparr>bv_verifying_key = (4, ''k''), bv_connection_info = (1, ''c''), bv_server_ephemeral_key = (2, ''e''),
        bv_cert_commitment = (3, ''r''), bv_extensions = [], bv_transcript_commitments = []\<rparr>),
      en_recover = (\<lambda>_ _. Inr ''signer'')\<rparr>"

definition sample_attestation :: "char \<Rightarrow> (unit, unit) signed_attestation" where
  "sample_attestation c =
     \<lparr>sa_signature_alg = SECP256K1ETH, sa_signature = replicate 65 c, sa_header = (), sa_root_alg = KECCAK256,
      sa_root = rev ''::ConnectionInfo'' @ ''k'' @ replicate 15 (CHR 0x00), sa_body = ()\<rparr>"

definition sample_fields :: "encoded_field list" where
  "sample_fields =
     map (\<lambda>(i, k, d). \<lparr>ef_id = i, ef_kind = k, ef_data = d,
         ef_leaf = en_keccak sample_encoder (kind_domain (en_blake3 sample_encoder) k @ d)\<rparr>)
       [(1, Connection_info, ''c''), (2, Server_ephemeral_key, ''e''), (3, Cert_commitment, ''r''), (4, Verifying_key, ''k'')]"

lemma sample_root: "merkle_root (en_keccak sample_encoder) (map ef_leaf sample_fields) = Inr (sa_root (sample_attestation c))"
  by code_simp

lemma sample_encoding:
  "encode_attestation sample_encoder (sample_attestation c) = Inr \<lparr>ea_header = ''header'', ea_signature = replicate 65 c,
     ea_signer = ''signer'', ea_fields = sample_fields, ea_root = sa_root (sample_attestation c)\<rparr>"
proof -
  have en: "en_header sample_encoder h = Inr ''header''" "en_data sample_encoder = Inr" "en_recover sample_encoder s m = Inr ''signer''"
    "en_body sample_encoder b = Inr \<lparr>bv_verifying_key = (4, ''k''), bv_connection_info = (1, ''c''), bv_server_ephemeral_key = (2, ''e''),
      bv_cert_commitment = (3, ''r''), bv_extensions = [], bv_transcript_commitments = []\<rparr>" for h s m b
    by (simp_all add: sample_encoder_def)
  have at: "sa_signature_alg (sample_attestation c) = SECP256K1ETH" "sa_root_alg (sample_attestation c) = KECCAK256"
    "sa_signature (sample_attestation c) = replicate 65 c" by (simp_all add: sample_attestation_def)
  have four: "\<not> (4 :: 32 word) \<le> 1" by (simp add: word_le_nat_alt)
  show ?thesis
    using sample_root [of c] four
    by (simp add: encode_attestation_def encoded_def en at with_ctx_def sample_fields_def Let_def)
qed

lemma no_collision_distinct: "distinct (map h as) \<Longrightarrow> no_collision h as as"
  by (auto simp: no_collision_def distinct_map inj_on_def)

lemma sample_leaves: "map ef_leaf sample_fields = map (\<lambda>(p, c). p @ [c] @ replicate 15 (CHR 0x00))
    [(''ofnInoitcennoC::'', CHR ''c''), (''yeKmehpErevreS::'', CHR ''e''), (''tnemtimmoCtreCre'', CHR ''r''),
     (''yeKgniyfireV'' @ replicate 4 (CHR 0x00), CHR ''k'')]"
  by code_simp

lemma sample_nodes: "node_inputs (en_keccak sample_encoder) (map ef_leaf sample_fields) = 
    (let p = (\<lambda>s c. s @ [c] @ replicate 15 (CHR 0x00)) in
    [p ''ofnInoitcennoC::'' (CHR ''c'') @ p ''yeKmehpErevreS::'' (CHR ''e''),
     p ''tnemtimmoCtreCre'' (CHR ''r'') @ p (''yeKgniyfireV'' @ replicate 4 (CHR 0x00)) (CHR ''k''),
     p ''ofnInoitcennoC::'' (CHR ''e'') @ p ''tnemtimmoCtreCre'' (CHR ''k'')])"
  by code_simp

lemma sample_no_collision:
  "no_collision (en_keccak sample_encoder)
     (map (leaf_input sample_encoder) sample_fields @ node_inputs (en_keccak sample_encoder) (map ef_leaf sample_fields))
     (map (leaf_input sample_encoder) sample_fields @ node_inputs (en_keccak sample_encoder) (map ef_leaf sample_fields))"
proof (rule no_collision_distinct)
  let ?h = "en_keccak sample_encoder"
  have "map ?h (map (leaf_input sample_encoder) sample_fields) = map ef_leaf sample_fields"
    by (simp add: sample_fields_def leaf_input_def)
  then show "distinct (map ?h (map (leaf_input sample_encoder) sample_fields @ node_inputs ?h (map ef_leaf sample_fields)))"
    unfolding map_append sample_nodes
    by (simp only: sample_leaves) (simp add: sample_encoder_def Let_def)
qed

theorem encode_attestation_sound_witness:
  "\<exists>e. encode_attestation sample_encoder (sample_attestation (CHR 0x01)) = Inr e \<and> sorted (map ef_id (ea_fields e)) \<and>
    ea_root e = sa_root (sample_attestation (CHR 0x01))"
  using encode_attestation_sound [OF sample_encoding] sample_encoding by blast

theorem encoding_binds_fields_witness:
  "\<exists>e f. encode_attestation sample_encoder (sample_attestation (CHR 0x01)) = Inr e \<and>
    encode_attestation sample_encoder (sample_attestation (CHR 0x02)) = Inr f \<and> e \<noteq> f \<and>
    map (\<lambda>x. (ef_kind x, ef_data x)) (ea_fields e) = map (\<lambda>x. (ef_kind x, ef_data x)) (ea_fields f)"
proof -
  obtain e f where e: "encode_attestation sample_encoder (sample_attestation (CHR 0x01)) = Inr e"
    and f: "encode_attestation sample_encoder (sample_attestation (CHR 0x02)) = Inr f" and "e \<noteq> f"
    and fields: "ea_fields e = sample_fields" "ea_fields f = sample_fields" "ea_root e = ea_root f"
    using sample_encoding [of "CHR 0x01"] sample_encoding [of "CHR 0x02"] by (simp add: sample_attestation_def)
  have keccak: "\<forall>m. length (en_keccak sample_encoder m) = 32" by (auto simp: sample_encoder_def Let_def min_def)
  have domain: "kind_domain (en_blake3 sample_encoder) k = take 16 (rev (type_name k) @ replicate 16 (CHR 0x00))" for k
    by (simp add: kind_domain_def sample_encoder_def)
  have inj: "inj (kind_domain (en_blake3 sample_encoder))"
  proof (rule injI)
    fix x y assume "kind_domain (en_blake3 sample_encoder) x = kind_domain (en_blake3 sample_encoder) y"
    then show "x = y" unfolding domain by (cases x; cases y; simp)
  qed
  have sixteen: "\<forall>k. length (kind_domain (en_blake3 sample_encoder) k) = 16" by (auto simp: domain min_def)
  have nc: "no_collision (en_keccak sample_encoder) (hashed sample_encoder e) (hashed sample_encoder f)"
    using sample_no_collision by (simp only: hashed_def fields)
  have "length (ea_fields e) = length (ea_fields f)" by (simp only: fields)
  from encoding_binds_fields [OF e f fields(3) this keccak inj sixteen nc] e f \<open>e \<noteq> f\<close> show ?thesis by blast
qed

end
