(* ===== verification/Page_Probe.thy ===== *)
theory Page_Probe
  imports Prover_Session Login
begin

section \<open>The probe of a public page\<close>

text \<open>
  Model of \<open>pprev-prover/src/probe.rs\<close>: two plain requests and one notarised request for a page, what is recorded of
  the responses, and where two responses differ. rustls and the sockets of the plain request are the record
  \<open>plain_client\<close>; the notarised request is the prover's side as in \<open>Prover_Session\<close> (\<open>prover_ops\<close>), with the
  verification of its presentation (\<open>tlsn\<close>). Times, the TLS version and the number of bytes sent are not recorded
  here, the two time limits are modelled by what they cut. The main property: the recorded differences are exactly the maximal runs of differing bytes.
\<close>

subsection \<open>Differences\<close>

record difference =
  df_head_bytes :: nat
  df_differing_bytes :: nat
  df_differing_in_head :: nat
  df_differing_in_body :: nat
  df_runs :: "(nat \<times> nat) list"

definition add_run :: "(nat \<times> nat) list \<Rightarrow> nat \<Rightarrow> (nat \<times> nat) list" where
  "add_run runs i =
     (if runs \<noteq> [] \<and> snd (last runs) = i then butlast runs @ [(fst (last runs), i + 1)] else runs @ [(i, i + 1)])"

definition difference_of :: "bytes \<Rightarrow> bytes \<Rightarrow> difference option" where
  "difference_of a b =
     (if length a \<noteq> length b then None
      else
        let head = (case window_position (crlf @ crlf) a of None \<Rightarrow> length a | Some i \<Rightarrow> i + 4);
            runs = foldl add_run [] (filter (\<lambda>i. a ! i \<noteq> b ! i) [0..<length a]);
            differing = sum_list (map (\<lambda>r. snd r - fst r) runs);
            in_head = sum_list (map (\<lambda>r. min (snd r) head - fst r) runs)
        in Some \<lparr>df_head_bytes = head, df_differing_bytes = differing, df_differing_in_head = in_head,
             df_differing_in_body = differing - in_head, df_runs = runs\<rparr>)"

subsection \<open>Plain requests\<close>

record probe_target =
  pt_host :: bytes
  pt_path :: bytes
  pt_port :: "16 word"

record observed =
  ob_bytes :: nat
  ob_status_line :: bytes
  ob_content_type :: "bytes option"
  ob_digest :: bytes

text \<open>\<open>lossy\<close> is the standard library's UTF-8 decoding, with replacements.\<close>

definition observe :: "(bytes \<Rightarrow> bytes) \<Rightarrow> (bytes \<Rightarrow> bytes) \<Rightarrow> bytes \<Rightarrow> observed" where
  "observe sha256 lossy bs =
     (let head = lossy (take (case window_position (crlf @ crlf) bs of None \<Rightarrow> length bs | Some i \<Rightarrow> i) bs);
          lines = split_crlf head in
      \<lparr>ob_bytes = length bs, ob_status_line = hd lines,
       ob_content_type = map_option (\<lambda>(_, v). trim v)
         (find (\<lambda>(k, _). eq_ignore_ascii_case (trim k) ''content-type'')
           (List.map_filter (split_once (CHR '':'')) (tl lines))),
       ob_digest = sha256 bs\<rparr>)"

definition USER_AGENT :: bytes where
  "USER_AGENT = ''pprev-probe/0.1 (research prototype; one request per run)''"

definition probe_request_line :: "probe_target \<Rightarrow> bytes" where
  "probe_request_line target = ''GET '' @ pt_path target @ '' HTTP/1.1''"

definition plain_request :: "probe_target \<Rightarrow> bytes" where
  "plain_request target =
     probe_request_line target @ crlf @ ''Host: '' @ pt_host target @ crlf @ ''User-Agent: '' @ USER_AGENT @ crlf
     @ ''Accept: */*'' @ crlf @ ''Accept-Encoding: identity'' @ crlf @ ''Connection: close'' @ crlf @ crlf"

text \<open>What the server's side does after the request: the bytes it sends, and how reading them ends.\<close>

datatype read_end = Closed | Unexpected_eof | Read_error link

record plain_client =
  pc_roots :: "foreign + unit"
  pc_config :: "foreign + unit"
  pc_tcp :: "bytes \<Rightarrow> 16 word \<Rightarrow> foreign + unit"
  pc_tls :: "bytes \<Rightarrow> foreign + unit"
  pc_write :: "bytes \<Rightarrow> foreign + unit"
  pc_answer :: "bytes \<times> read_end"

definition plain_fetch :: "plain_client \<Rightarrow> probe_target \<Rightarrow> u64 \<Rightarrow> bytes run" where
  "plain_fetch pc target cap =
     and_then (lift_lib (pc_roots pc)) (\<lambda>_.
     and_then (lift_lib (pc_config pc)) (\<lambda>_.
     and_then (lift_lib (pc_tcp pc (pt_host target) (pt_port target))) (\<lambda>_.
     and_then (lift_lib (pc_tls pc (pt_host target))) (\<lambda>_.
     and_then (lift_lib (pc_write pc (plain_request target))) (\<lambda>_.
     let limit = unat (cap + 1); (sent, ended) = pc_answer pc; out = take limit sent in
     and_then
       (if limit \<le> length sent then Inr ()
        else case ended of
          Closed \<Rightarrow> Inr ()
        | Unexpected_eof \<Rightarrow> (if out \<noteq> [] then Inr () else Inl (Failed (Chain [] (Error (Io UnexpectedEof [])) [])))
        | Read_error l \<Rightarrow> Inl (Failed (Chain [] (Error l) []))) (\<lambda>_.
     require (length out \<le> unat cap) (''the response exceeds '' @ dec (unat cap) @ '' bytes'') (Inr out)))))))"

subsection \<open>The notarised request\<close>

record notarised_page =
  np_cert_chain_len :: nat
  np_received_bytes :: nat
  np_status_line :: bytes
  np_same_length_as_plain :: bool
  np_same_bytes_as_plain :: bool
  np_difference_from_plain :: "difference option"
  np_presentation_verified :: bool
  np_t_att :: u64

text \<open>What the probe adds to the operations of a prover: the in-process notary's end, and its own key.\<close>

record ('p, 'vk, 'oatt, 'rs) probe_env =
  pe_tlsn :: "('p, 'vk, 'oatt, 'rs) tlsn"
  pe_roots :: "bytes list"
  pe_key :: "foreign + 'vk"
  pe_notary :: "foreign + unit"
  pe_sha256 :: "bytes \<Rightarrow> bytes"
  pe_lossy :: "bytes \<Rightarrow> bytes"

definition probe_headers :: "probe_target \<Rightarrow> (bytes \<times> bytes) list" where
  "probe_headers target =
     [(''Host'', pt_host target), (''User-Agent'', USER_AGENT), (''Accept'', ''*/*''),
      (''Accept-Encoding'', ''identity''), (''Connection'', ''close'')]"

text \<open>The response's status is not looked at here.\<close>

definition page_response :: "exchange \<Rightarrow> unit run" where
  "page_response x =
     (case x of
        Answered response body \<Rightarrow> and_then (lift_lib response) (\<lambda>_. lift_lib body)
      | Prover_closed \<Rightarrow> fails ''connection closed''
      | Prover_failed l ls \<Rightarrow> Inl (Failed (Chain [] (Error l) ls))
      | Prover_lost l \<Rightarrow> Inl (Failed (Chain [] (Error l) [])))"

definition page_commits where
  "page_commits ops rl received =
     [(Sent, po_range_set ops [Range 0 (length rl)]), (Received, po_range_set ops [Range 0 (length received)])]"

text \<open>The policy verifier's view of the attestation, and what is recorded of it.\<close>

definition check_page where
  "check_page ops env target att sec received certs =
     (let rl = probe_request_line target; shown = [(Sent, po_range_set ops [Range 0 (length rl)])] in
      and_then (for_each_res (\<lambda>(d, i). lift_lib (po_reveal ops sec d i)) shown) (\<lambda>_.
      and_then (lift_lib (po_transcript_proof ops sec shown)) (\<lambda>tp.
      and_then (lift_lib (po_present ops att sec tp)) (\<lambda>presentation.
      and_then (lift_lib (pe_key env)) (\<lambda>key.
      require (verifying_key_of (pe_tlsn env) presentation = key) ''attestation key is not the probe's'' (
      and_then (lift_res (cert_verifier_new (pe_tlsn env) (pe_roots env))) (\<lambda>_.
      and_then (lift_res (verify_presentation (pe_tlsn env) (pe_roots env) presentation)) (\<lambda>outp.
      require (out_server_name outp = Some (Dns (pt_host target))) ''server identity is not the target's'' (
      and_then (lift_res (t_att_of outp)) (\<lambda>t_att.
      Inr \<lparr>np_cert_chain_len = length certs, np_received_bytes = length received,
           np_status_line = ob_status_line (observe (pe_sha256 env) (pe_lossy env) received),
           np_same_length_as_plain = False, np_same_bytes_as_plain = False, np_difference_from_plain = None,
           np_presentation_verified = True, np_t_att = t_att\<rparr>))))))))))"

definition notarised_fetch where
  "notarised_fetch ops env target max_sent max_recv =
     and_then (lift_lib (po_new_prover ops max_sent max_recv)) (\<lambda>pv.
     and_then (lift_lib (po_preprocess ops pv)) (\<lambda>pv.
     and_then (lift_lib (po_server_name ops (pt_host target))) (\<lambda>_.
     and_then (lift_lib (po_tcp ops (pt_host target))) (\<lambda>_.
     and_then (lift_lib (po_connect ops pv (pt_host target) (pe_roots env))) (\<lambda>pv.
     and_then (lift_lib (po_http_request ops ''GET'' (pt_path target) (probe_headers target))) (\<lambda>request.
     and_then (page_response (po_exchange ops pv request)) (\<lambda>_.
     and_then (lift_lib (po_finished ops pv)) (\<lambda>pv.
     let transcript = po_transcript ops pv; rl = probe_request_line target; received = pt_received transcript;
         cs = page_commits ops rl received in
     require (prefix (rl @ crlf) (pt_sent transcript)) ''request does not start with the request line'' (
     and_then (for_each_res (\<lambda>(d, idx). lift_lib (po_commit ops d idx)) cs) (\<lambda>_.
     and_then (lift_lib (po_configs ops cs False)) (\<lambda>_.
     and_then (lift_lib (po_prove ops pv cs)) (\<lambda>(commitments, secrets, pv).
     and_then (lift_lib (po_close ops pv)) (\<lambda>_.
     and_then (some_or_fail ''no server certificate chain'' (po_cert_chain ops pv)) (\<lambda>certs.
     and_then (some_or_fail ''no server signature'' (po_signature ops pv)) (\<lambda>sig.
     and_then (lift_lib (po_build_request ops (pt_host target) certs sig transcript secrets commitments False)) (\<lambda>(areq, sec).
     and_then (lift_lib (po_driver_join ops)) (\<lambda>_.
     and_then (lift_lib (po_send_request ops areq)) (\<lambda>_.
     and_then (lift_lib (po_read_attestation ops)) (\<lambda>att.
     and_then (lift_lib (po_validate ops areq att)) (\<lambda>_.
     and_then (lift_lib (pe_notary env)) (\<lambda>_.
     and_then (check_page ops env target att sec received certs) (\<lambda>page. Inr (page, received)))))))))))))))))))))))"

subsection \<open>A probe\<close>

record probe_record =
  pr_host :: bytes
  pr_path :: bytes
  pr_plain :: "observed list"
  pr_plain_identical :: bool
  pr_plain_difference :: "difference option"
  pr_max_sent :: nat
  pr_max_recv :: nat
  pr_notarised :: "notarised_page option"
  pr_error :: "bytes option"

text \<open>\<open>plain i\<close> is what the \<open>i\<close>th plain request gives, \<open>None\<close> when the time limit (written \<open>limit\<close>) passes before;
  \<open>fetch\<close> likewise for the notarised request with its two bounds. A panic is not caught.\<close>

fun fetch_plain :: "(nat \<Rightarrow> bytes run option) \<Rightarrow> bytes \<Rightarrow> nat \<Rightarrow> nat \<Rightarrow> (bytes + bytes list) run" where
  "fetch_plain plain limit i 0 = Inr (Inr [])"
| "fetch_plain plain limit i (Suc n) =
     (case plain i of
        None \<Rightarrow> Inr (Inl (''plain request: no response within '' @ limit))
      | Some (Inl (Failed e)) \<Rightarrow> Inr (Inl (''plain request: '' @ chain_text e))
      | Some (Inl (Panicked m)) \<Rightarrow> Inl (Panicked m)
      | Some (Inr bs) \<Rightarrow> map_sum id (map_sum id ((#) bs)) (fetch_plain plain limit (Suc i) n))"

text \<open>The plain responses recorded before the loop ends.\<close>

fun plain_seen :: "(nat \<Rightarrow> bytes run option) \<Rightarrow> nat \<Rightarrow> nat \<Rightarrow> bytes list" where
  "plain_seen plain i 0 = []"
| "plain_seen plain i (Suc n) = (case plain i of Some (Inr bs) \<Rightarrow> bs # plain_seen plain (Suc i) n | _ \<Rightarrow> [])"

definition probe ::
    "(bytes \<Rightarrow> bytes) \<Rightarrow> (bytes \<Rightarrow> bytes) \<Rightarrow> probe_target \<Rightarrow> nat \<Rightarrow> nat \<Rightarrow> bytes \<Rightarrow> (nat \<Rightarrow> bytes run option)
      \<Rightarrow> (nat \<Rightarrow> nat \<Rightarrow> (notarised_page \<times> bytes) run option) \<Rightarrow> probe_record run" where
  "probe sha256 lossy target margin max_recv_cap limit plain fetch =
     (let rec0 = \<lparr>pr_host = pt_host target, pr_path = pt_path target,
            pr_plain = map (observe sha256 lossy) (plain_seen plain 0 2), pr_plain_identical = False,
            pr_plain_difference = None, pr_max_sent = 0, pr_max_recv = 0, pr_notarised = None, pr_error = None\<rparr> in
      and_then (fetch_plain plain limit 0 2) (\<lambda>r. case r of
        Inl e \<Rightarrow> Inr (rec0\<lparr>pr_error := Some e\<rparr>)
      | Inr responses \<Rightarrow>
          let first = responses ! 0; second = responses ! 1;
              max_recv = min (length first + margin) (2 ^ 64 - 1);
              rec1 = rec0\<lparr>pr_plain_identical := (sha256 first = sha256 second),
                pr_plain_difference := difference_of first second, pr_max_sent := 1024, pr_max_recv := max_recv\<rparr> in
          if max_recv_cap < max_recv
          then Inr (rec1\<lparr>pr_error := Some (''the response has '' @ dec (length first)
            @ '' bytes; with the margin it exceeds the cap of '' @ dec max_recv_cap)\<rparr>)
          else case fetch 1024 max_recv of
            None \<Rightarrow> Inr (rec1\<lparr>pr_error := Some (''notarised request: no result within '' @ limit)\<rparr>)
          | Some (Inl (Failed e)) \<Rightarrow> Inr (rec1\<lparr>pr_error := Some (''notarised request: '' @ chain_text e)\<rparr>)
          | Some (Inl (Panicked m)) \<Rightarrow> Inl (Panicked m)
          | Some (Inr (page, received)) \<Rightarrow> Inr (rec1\<lparr>pr_notarised := Some
              (page\<lparr>np_same_length_as_plain := (length received = length first),
                np_same_bytes_as_plain := (received = first),
                np_difference_from_plain := difference_of first received\<rparr>)\<rparr>)))"

subsection \<open>The recorded differences\<close>

definition differs :: "bytes \<Rightarrow> bytes \<Rightarrow> nat set" where
  "differs a b = {i. i < length a \<and> a ! i \<noteq> b ! i}"

text \<open>The maximal runs of a set of positions, as half-open ranges.\<close>

definition maximal_run :: "nat set \<Rightarrow> nat \<times> nat \<Rightarrow> bool" where
  "maximal_run D r \<longleftrightarrow> fst r < snd r \<and> {fst r..<snd r} \<subseteq> D \<and> (0 < fst r \<longrightarrow> fst r - 1 \<notin> D) \<and> snd r \<notin> D"

text \<open>Ascending runs with a gap between each two, from \<open>m\<close> on and ending at or before \<open>n\<close>.\<close>

fun runs_from :: "nat \<Rightarrow> (nat \<times> nat) list \<Rightarrow> nat \<Rightarrow> bool" where
  "runs_from m [] n = True"
| "runs_from m (r # rs) n \<longleftrightarrow> m \<le> fst r \<and> fst r < snd r \<and> snd r \<le> n \<and> runs_from (Suc (snd r)) rs n"

definition covers :: "(nat \<times> nat) list \<Rightarrow> nat set" where
  "covers rs = (\<Union>r \<in> set rs. {fst r..<snd r})"

lemma covers_simps [simp]: "covers [] = {}" "covers (r # rs) = {fst r..<snd r} \<union> covers rs" "covers (xs @ ys) = covers xs \<union> covers ys"
  by (auto simp: covers_def)

lemma runs_from_snoc:
  "runs_from m (rs @ [r]) n \<longleftrightarrow>
    (\<forall>q \<in> set rs. snd q < fst r) \<and> runs_from m rs n \<and> m \<le> fst r \<and> fst r < snd r \<and> snd r \<le> n"
  by (induction rs arbitrary: m) auto

lemma runs_from_mono: "runs_from m rs n \<Longrightarrow> n \<le> k \<Longrightarrow> runs_from m rs k"
  by (induction rs arbitrary: m) auto

lemma runs_from_set: "runs_from m rs n \<Longrightarrow> r \<in> set rs \<Longrightarrow> m \<le> fst r \<and> fst r < snd r \<and> snd r \<le> n"
  by (induction rs arbitrary: m) (auto dest: Suc_leD, fastforce)

lemma runs_from_covers: "runs_from m rs n \<Longrightarrow> i \<in> covers rs \<Longrightarrow> m \<le> i \<and> i < n"
  using runs_from_set by (fastforce simp: covers_def)

lemma add_run_step:
  assumes "runs_from 0 rs i"
  shows "runs_from 0 (add_run rs i) (Suc i) \<and> covers (add_run rs i) = insert i (covers rs)"
proof (cases rs rule: rev_cases)
  case Nil
  then show ?thesis by (auto simp: add_run_def)
next
  case (snoc qs q)
  with assms have q: "\<forall>p \<in> set qs. snd p < fst q" "runs_from 0 qs i" "fst q < snd q" "snd q \<le> i"
    by (simp_all add: runs_from_snoc)
  have "runs_from 0 qs (Suc i)" using runs_from_mono [OF q(2)] by simp
  moreover have "\<forall>p \<in> set (qs @ [q]). snd p < i" if "snd q \<noteq> i" using q that by fastforce
  ultimately show ?thesis using q snoc by (cases "snd q = i") (auto simp: add_run_def runs_from_snoc simp del: append_assoc)
qed

lemma fold_runs:
  "runs_from 0 (foldl add_run [] (filter P [0..<n])) n \<and> covers (foldl add_run [] (filter P [0..<n])) = {i. i < n \<and> P i}"
proof (induction n)
  case (Suc n)
  then show ?case using add_run_step [of "foldl add_run [] (filter P [0..<n])" n] runs_from_mono
    by (auto simp: less_Suc_eq)
qed simp

text \<open>Separated runs are the maximal runs of what they cover, and sums over them count positions.\<close>

lemma maximal_run_interval: "a < b \<Longrightarrow> maximal_run {a..<b} r \<longleftrightarrow> r = (a, b)"
proof
  assume "maximal_run {a..<b} r" "a < b"
  then have "a \<le> fst r \<and> snd r \<le> b \<and> fst r < snd r" "\<not> (0 < fst r \<and> a \<le> fst r - 1)" "\<not> (a \<le> snd r \<and> snd r < b)"
    by (auto simp: maximal_run_def)
  then show "r = (a, b)" by (cases r) auto
qed (auto simp: maximal_run_def)

lemma maximal_run_apart:
  assumes "a < b" and "\<forall>i \<in> B. b < i"
  shows "maximal_run ({a..<b} \<union> B) r \<longleftrightarrow> r = (a, b) \<or> maximal_run B r"
proof
  assume run: "maximal_run ({a..<b} \<union> B) r"
  then have lt: "fst r < snd r" and sub: "{fst r..<snd r} \<subseteq> {a..<b} \<union> B" by (simp_all add: maximal_run_def)
  have b: "b \<notin> {a..<b} \<union> B" using assms by auto
  show "r = (a, b) \<or> maximal_run B r"
  proof (cases "fst r < b")
    case True
    have "\<not> b < snd r" using b sub True by (auto dest!: subsetD [of _ _ b])
    then have "{fst r..<snd r} \<subseteq> {a..<b}" using sub assms(2) by fastforce
    then have "maximal_run {a..<b} r" using run assms(2) by (auto simp: maximal_run_def)
    then show ?thesis using maximal_run_interval [OF assms(1)] by simp
  next
    case False
    then have "{fst r..<snd r} \<subseteq> B" using sub by fastforce
    then show ?thesis using run by (auto simp: maximal_run_def)
  qed
next
  assume "r = (a, b) \<or> maximal_run B r"
  then show "maximal_run ({a..<b} \<union> B) r"
  proof
    assume "r = (a, b)"
    then show ?thesis using assms by (auto simp: maximal_run_def)
  next
    assume run: "maximal_run B r"
    then have "fst r \<in> B" by (auto simp: maximal_run_def)
    then have "b < fst r" using assms(2) by blast
    then show ?thesis using run by (auto simp: maximal_run_def)
  qed
qed

lemma runs_are_maximal: "runs_from m rs n \<Longrightarrow> r \<in> set rs \<longleftrightarrow> maximal_run (covers rs) r"
proof (induction rs arbitrary: m)
  case (Cons q rs)
  then have "\<forall>i \<in> covers rs. snd q < i" using runs_from_covers [of "Suc (snd q)" rs n] by fastforce
  moreover have "fst q < snd q" "runs_from (Suc (snd q)) rs n" using Cons.prems by simp_all
  ultimately show ?case using Cons.IH maximal_run_apart [of "fst q" "snd q" "covers rs" r] by auto
qed (auto simp: maximal_run_def)

lemma runs_count: "runs_from m rs n \<Longrightarrow> (\<Sum>r\<leftarrow>rs. min (snd r) h - fst r) = card {i \<in> covers rs. i < h}"
proof (induction rs arbitrary: m)
  case (Cons q rs)
  let ?A = "{fst q..<snd q}"
  have "covers rs \<subseteq> {Suc (snd q)..<n}" using Cons.prems runs_from_covers [of "Suc (snd q)" rs n] by fastforce
  then have disj: "{i \<in> ?A. i < h} \<inter> {i \<in> covers rs. i < h} = {}" and "finite (covers rs)"
    by (auto intro: finite_subset)
  moreover have "{i \<in> ?A \<union> covers rs. i < h} = {i \<in> ?A. i < h} \<union> {i \<in> covers rs. i < h}" by auto
  moreover have "{i \<in> ?A. i < h} = {fst q..<min (snd q) h}" by auto
  moreover have "(\<Sum>r\<leftarrow>rs. min (snd r) h - fst r) = card {i \<in> covers rs. i < h}"
    using Cons.IH [of "Suc (snd q)"] Cons.prems by simp
  ultimately show ?case by (simp add: card_Un_disjoint)
qed simp

text \<open>The recorded difference of two responses of one length is exact: its runs are precisely the maximal runs of
  differing positions, in order; its counts are the numbers of differing positions, before and after the end of the
  first response's head. Responses of different lengths have none.\<close>

theorem difference_is_exact:
  "case difference_of a b of
     None \<Rightarrow> length a \<noteq> length b
   | Some d \<Rightarrow> length a = length b \<and> sorted (map fst (df_runs d)) \<and> distinct (df_runs d) \<and>
       set (df_runs d) = {r. maximal_run (differs a b) r} \<and>
       df_head_bytes d = (case window_position (crlf @ crlf) a of None \<Rightarrow> length a | Some i \<Rightarrow> i + 4) \<and>
       df_differing_bytes d = card (differs a b) \<and>
       df_differing_in_head d = card {i \<in> differs a b. i < df_head_bytes d} \<and>
       df_differing_in_body d = card {i \<in> differs a b. df_head_bytes d \<le> i}"
proof -
  let ?rs = "foldl add_run [] (filter (\<lambda>i. a ! i \<noteq> b ! i) [0..<length a])"
  have runs: "runs_from 0 ?rs (length a)" and cov: "covers ?rs = differs a b"
    using fold_runs [of "\<lambda>i. a ! i \<noteq> b ! i" "length a"] by (simp_all add: differs_def)
  have sorted: "runs_from m rs n \<Longrightarrow> sorted (map fst rs) \<and> distinct rs" for m rs n
  proof (induction rs arbitrary: m)
    case (Cons q rs)
    have "\<forall>r \<in> set rs. fst q < fst r" using Cons.prems runs_from_set [of "Suc (snd q)" rs n] by fastforce
    then show ?case using Cons by (auto intro: less_imp_le)
  qed simp
  have fin: "finite (differs a b)" by (rule finite_subset [of _ "{..<length a}"]) (auto simp: differs_def)
  have "(\<Sum>r\<leftarrow>?rs. snd r - fst r) = (\<Sum>r\<leftarrow>?rs. min (snd r) (length a) - fst r)"
    using runs_from_set [OF runs] by (intro arg_cong [where f = sum_list] map_cong) (auto simp: min_def)
  also have "\<dots> = card (differs a b)" unfolding runs_count [OF runs] cov by (rule arg_cong [where f = card]) (auto simp: differs_def)
  finally have total: "(\<Sum>r\<leftarrow>?rs. snd r - fst r) = card (differs a b)" .
  have split: "card (differs a b) = card {i \<in> differs a b. i < h} + card {i \<in> differs a b. h \<le> i}" for h
  proof -
    have "differs a b = {i \<in> differs a b. i < h} \<union> {i \<in> differs a b. h \<le> i}" by auto
    moreover have "{i \<in> differs a b. i < h} \<inter> {i \<in> differs a b. h \<le> i} = {}" by auto
    ultimately show ?thesis using fin by (metis (lifting) card_Un_disjoint finite_Un)
  qed
  then have body: "card (differs a b) - card {i \<in> differs a b. i < h} = card {i \<in> differs a b. h \<le> i}" for h
    by (metis add_diff_cancel_left')
  show ?thesis
  proof (cases "length a = length b")
    case True
    let ?h = "case window_position (crlf @ crlf) a of None \<Rightarrow> length a | Some i \<Rightarrow> i + 4"
    have d: "difference_of a b = Some \<lparr>df_head_bytes = ?h, df_differing_bytes = card (differs a b),
        df_differing_in_head = card {i \<in> differs a b. i < ?h}, df_differing_in_body = card {i \<in> differs a b. ?h \<le> i},
        df_runs = ?rs\<rparr>"
      unfolding difference_of_def Let_def total runs_count [OF runs] cov body using True by simp
    show ?thesis using sorted [OF runs] runs_are_maximal [OF runs] True unfolding d cov by auto
  qed (simp add: difference_of_def)
qed

lemma difference_of_same: "difference_of a a = Some d \<Longrightarrow> df_runs d = [] \<and> df_differing_bytes d = 0"
proof -
  have "filter (\<lambda>i. a ! i \<noteq> a ! i) [0..<length a] = []" by simp
  then show "difference_of a a = Some d \<Longrightarrow> df_runs d = [] \<and> df_differing_bytes d = 0"
    by (auto simp: difference_of_def Let_def)
qed

subsection \<open>What a record says\<close>

lemma fetch_plain_two:
  assumes "fetch_plain plain limit 0 2 = Inr (Inr rs)"
  shows "\<exists>x y. plain 0 = Some (Inr x) \<and> plain 1 = Some (Inr y) \<and> rs = [x, y]"
  using assms unfolding numeral_2_eq_2
  by (auto simp: map_sum_def split: option.splits sum.splits fault.splits)

text \<open>A record has either an error or the notarised response, which was fetched within the bound after two plain
  responses and is compared with the first of them.\<close>

theorem probe_outcome:
  assumes "probe sha256 lossy target margin cap limit plain fetch = Inr rec1"
  shows "case pr_notarised rec1 of
      None \<Rightarrow> pr_error rec1 \<noteq> None
    | Some p \<Rightarrow> pr_error rec1 = None \<and> pr_max_recv rec1 \<le> cap \<and>
        (\<exists>x y page received. plain 0 = Some (Inr x) \<and> plain 1 = Some (Inr y) \<and>
          fetch (pr_max_sent rec1) (pr_max_recv rec1) = Some (Inr (page, received)) \<and>
          pr_plain rec1 = map (observe sha256 lossy) [x, y] \<and> np_t_att p = np_t_att page \<and>
          (np_same_bytes_as_plain p \<longleftrightarrow> received = x) \<and> (np_same_length_as_plain p \<longleftrightarrow> length received = length x) \<and>
          np_difference_from_plain p = difference_of x received)"
proof -
  note run = assms [unfolded probe_def Let_def]
  from run obtain r where r: "fetch_plain plain limit 0 2 = Inr r" by (auto simp: and_then_Inr_iff)
  show ?thesis
  proof (cases r)
    case (Inl e)
    then show ?thesis using run r by auto
  next
    case (Inr rs)
    with fetch_plain_two r obtain x y where xy: "plain 0 = Some (Inr x)" "plain 1 = Some (Inr y)" "rs = [x, y]" by blast
    have seen: "plain_seen plain 0 2 = [x, y]" unfolding numeral_2_eq_2 using xy by simp
    let ?max = "min (length x + margin) (2 ^ 64 - 1)"
    show ?thesis
    proof (cases "cap < ?max")
      case True
      then show ?thesis using run r Inr xy by auto
    next
      case False
      show ?thesis
      proof (cases "fetch 1024 ?max")
        case None
        then show ?thesis using run r Inr xy False by auto
      next
        case (Some z)
        then show ?thesis using run r Inr xy False seen
          by (auto split: sum.splits fault.splits prod.splits)
      qed
    qed
  qed
qed

text \<open>A page is recorded as notarised only if its presentation passed the policy verifier's checks: the probe's key,
  the target's name and an attested time; the request that was sent starts with the target's request line.\<close>

theorem notarised_fetch_checked:
  assumes "notarised_fetch ops env target max_sent max_recv = Inr (page, received)"
  shows "\<exists>key presentation outp pv. pe_key env = Inr key \<and> verifying_key_of (pe_tlsn env) presentation = key \<and>
    verify_presentation (pe_tlsn env) (pe_roots env) presentation = Inr outp \<and>
    out_server_name outp = Some (Dns (pt_host target)) \<and> t_att_of outp = Inr (np_t_att page) \<and>
    received = pt_received (po_transcript ops pv) \<and>
    prefix (probe_request_line target @ crlf) (pt_sent (po_transcript ops pv))"
proof -
  have checked: "\<exists>key presentation outp. pe_key env = Inr key \<and> verifying_key_of (pe_tlsn env) presentation = key \<and>
      verify_presentation (pe_tlsn env) (pe_roots env) presentation = Inr outp \<and>
      out_server_name outp = Some (Dns (pt_host target)) \<and> t_att_of outp = Inr (np_t_att page)"
    if "check_page ops env target att sec received certs = Inr page" for att sec and certs :: "bytes list"
    using that by (clarsimp simp: check_page_def and_then_Inr_iff Let_def) (metis notarised_page.select_convs(8))
  from assms obtain pv att sec and certs :: "bytes list" where
    pv: "prefix (probe_request_line target @ crlf) (pt_sent (po_transcript ops pv))"
      "received = pt_received (po_transcript ops pv)"
    and "check_page ops env target att sec received certs = Inr page"
    by (clarsimp simp: notarised_fetch_def and_then_Inr_iff Let_def split: prod.splits)
  from checked [OF this(3)] pv show ?thesis by metis
qed

end
