(* ===== verification/Counting.thy ===== *)
theory Counting
  imports Prelude "HOL-Library.Word" "HOL-Library.Sublist"
begin

section \<open>Traffic counting\<close>

text \<open>
  Model of \<open>pprev-prover/src/counting.rs\<close>: a stream that counts what passes through it. The wrapped stream is
  the record \<open>stream_ops\<close> of its four poll functions over its own state, and a read buffer is its filled part
  and its capacity. The two shared counters belong to one stream, so they are part of its state; additions wrap.
  The main lemma: the wrapper answers as the wrapped stream does, and over any sequence of calls the counters
  are the numbers of bytes that were handed over, modulo \<open>2 ^ 64\<close>.
\<close>

datatype 'a poll = Pending | Ready "bytes + 'a"

record read_buf =
  rb_filled :: bytes
  rb_capacity :: nat

record 's stream_ops =
  st_poll_read :: "'s \<Rightarrow> read_buf \<Rightarrow> 's \<times> read_buf \<times> unit poll"
  st_poll_write :: "'s \<Rightarrow> bytes \<Rightarrow> 's \<times> nat poll"
  st_poll_flush :: "'s \<Rightarrow> 's \<times> unit poll"
  st_poll_shutdown :: "'s \<Rightarrow> 's \<times> unit poll"

record byte_counts =
  bc_sent :: u64
  bc_received :: u64

record traffic =
  sent_bytes :: u64
  received_bytes :: u64

definition traffic_of :: "byte_counts \<Rightarrow> traffic" where
  "traffic_of c = \<lparr>sent_bytes = bc_sent c, received_bytes = bc_received c\<rparr>"

record 's counting_stream =
  cs_inner :: 's
  cs_counts :: byte_counts

definition with_counts :: "'s \<Rightarrow> byte_counts \<Rightarrow> 's counting_stream" where
  "with_counts inner counts = \<lparr>cs_inner = inner, cs_counts = counts\<rparr>"

definition counting_new :: "'s \<Rightarrow> 's counting_stream \<times> byte_counts" where
  "counting_new inner = (let counts = \<lparr>bc_sent = 0, bc_received = 0\<rparr> in (with_counts inner counts, counts))"

text \<open>The difference of the lengths is an \<open>usize\<close>; the release build wraps.\<close>

definition counting_poll_read ::
    "'s stream_ops \<Rightarrow> 's counting_stream \<Rightarrow> read_buf \<Rightarrow> 's counting_stream \<times> read_buf \<times> unit poll" where
  "counting_poll_read ops s buf =
     (let filled_before = length (rb_filled buf);
          (inner, buf, poll) = st_poll_read ops (cs_inner s) buf;
          read = (of_nat (length (rb_filled buf)) - of_nat filled_before :: u64);
          counts = (cs_counts s)\<lparr>bc_received := bc_received (cs_counts s) + read\<rparr> in
      (\<lparr>cs_inner = inner, cs_counts = counts\<rparr>, buf, poll))"

definition counting_poll_write ::
    "'s stream_ops \<Rightarrow> 's counting_stream \<Rightarrow> bytes \<Rightarrow> 's counting_stream \<times> nat poll" where
  "counting_poll_write ops s buf =
     (let (inner, poll) = st_poll_write ops (cs_inner s) buf;
          counts = (case poll of
              Ready (Inr n) \<Rightarrow> (cs_counts s)\<lparr>bc_sent := bc_sent (cs_counts s) + of_nat n\<rparr>
            | _ \<Rightarrow> cs_counts s) in
      (\<lparr>cs_inner = inner, cs_counts = counts\<rparr>, poll))"

definition counting_poll_flush :: "'s stream_ops \<Rightarrow> 's counting_stream \<Rightarrow> 's counting_stream \<times> unit poll" where
  "counting_poll_flush ops s = (let (inner, poll) = st_poll_flush ops (cs_inner s) in (s\<lparr>cs_inner := inner\<rparr>, poll))"

definition counting_poll_shutdown :: "'s stream_ops \<Rightarrow> 's counting_stream \<Rightarrow> 's counting_stream \<times> unit poll" where
  "counting_poll_shutdown ops s = (let (inner, poll) = st_poll_shutdown ops (cs_inner s) in (s\<lparr>cs_inner := inner\<rparr>, poll))"

subsection \<open>Sequences of calls\<close>

datatype stream_call = Poll_read read_buf | Poll_write bytes | Poll_flush | Poll_shutdown
datatype stream_answer = Read_answer read_buf "unit poll" | Write_answer "nat poll" | Unit_answer "unit poll"

fun plain_call :: "'s stream_ops \<Rightarrow> 's \<Rightarrow> stream_call \<Rightarrow> 's \<times> stream_answer" where
  "plain_call ops s (Poll_read buf) = (case st_poll_read ops s buf of (s, b, p) \<Rightarrow> (s, Read_answer b p))"
| "plain_call ops s (Poll_write bs) = (case st_poll_write ops s bs of (s, p) \<Rightarrow> (s, Write_answer p))"
| "plain_call ops s Poll_flush = (case st_poll_flush ops s of (s, p) \<Rightarrow> (s, Unit_answer p))"
| "plain_call ops s Poll_shutdown = (case st_poll_shutdown ops s of (s, p) \<Rightarrow> (s, Unit_answer p))"

fun counting_call :: "'s stream_ops \<Rightarrow> 's counting_stream \<Rightarrow> stream_call \<Rightarrow> 's counting_stream \<times> stream_answer" where
  "counting_call ops s (Poll_read buf) = (case counting_poll_read ops s buf of (s, b, p) \<Rightarrow> (s, Read_answer b p))"
| "counting_call ops s (Poll_write bs) = (case counting_poll_write ops s bs of (s, p) \<Rightarrow> (s, Write_answer p))"
| "counting_call ops s Poll_flush = (case counting_poll_flush ops s of (s, p) \<Rightarrow> (s, Unit_answer p))"
| "counting_call ops s Poll_shutdown = (case counting_poll_shutdown ops s of (s, p) \<Rightarrow> (s, Unit_answer p))"

fun calls :: "('s \<Rightarrow> stream_call \<Rightarrow> 's \<times> stream_answer) \<Rightarrow> 's \<Rightarrow> stream_call list \<Rightarrow> 's \<times> stream_answer list" where
  "calls f s [] = (s, [])"
| "calls f s (c # cs) = (case f s c of (s, a) \<Rightarrow> (case calls f s cs of (s, as) \<Rightarrow> (s, a # as)))"

text \<open>The bytes that an answered call handed over, in each direction.\<close>

fun bytes_read :: "stream_call \<times> stream_answer \<Rightarrow> nat" where
  "bytes_read (Poll_read b, Read_answer b' p) = length (rb_filled b') - length (rb_filled b)"
| "bytes_read _ = 0"

fun bytes_written :: "stream_call \<times> stream_answer \<Rightarrow> nat" where
  "bytes_written (Poll_write bs, Write_answer (Ready (Inr n))) = n"
| "bytes_written _ = 0"

text \<open>Tokio's contract of \<open>poll_read\<close>: what is filled stays, data is appended.\<close>

definition reads_append :: "'s stream_ops \<Rightarrow> bool" where
  "reads_append ops \<longleftrightarrow> (\<forall>s b. prefix (rb_filled b) (rb_filled (fst (snd (st_poll_read ops s b)))))"

lemma counting_call_once:
  assumes "reads_append ops" and "counting_call ops s c = (s', a)"
  shows "plain_call ops (cs_inner s) c = (cs_inner s', a)"
    and "bc_received (cs_counts s') = bc_received (cs_counts s) + of_nat (bytes_read (c, a))"
    and "bc_sent (cs_counts s') = bc_sent (cs_counts s) + of_nat (bytes_written (c, a))"
proof -
  have "plain_call ops (cs_inner s) c = (cs_inner s', a) \<and>
    bc_received (cs_counts s') = bc_received (cs_counts s) + of_nat (bytes_read (c, a)) \<and>
    bc_sent (cs_counts s') = bc_sent (cs_counts s) + of_nat (bytes_written (c, a))"
  proof (cases c)
    case (Poll_read b)
    obtain i b' p where r: "st_poll_read ops (cs_inner s) b = (i, b', p)" by (metis prod_cases3)
    then have "length (rb_filled b) \<le> length (rb_filled b')"
      using assms(1) by (metis fst_conv prefix_length_le reads_append_def snd_conv)
    then show ?thesis using assms(2) r Poll_read
      by (auto simp: counting_poll_read_def Let_def of_nat_diff)
  next
    case (Poll_write bs)
    then show ?thesis using assms(2)
      by (auto simp: counting_poll_write_def Let_def split: prod.splits poll.splits sum.splits)
  qed (use assms(2) in \<open>auto simp: counting_poll_flush_def counting_poll_shutdown_def Let_def split: prod.splits\<close>)
  then show "plain_call ops (cs_inner s) c = (cs_inner s', a)"
    "bc_received (cs_counts s') = bc_received (cs_counts s) + of_nat (bytes_read (c, a))"
    "bc_sent (cs_counts s') = bc_sent (cs_counts s) + of_nat (bytes_written (c, a))" by simp_all
qed

text \<open>Over any sequence of calls the wrapper ends in the wrapped stream's state with its answers, and the traffic
  is the number of bytes handed over in each direction.\<close>

theorem traffic_is_what_passed:
  assumes "reads_append ops" and "calls (counting_call ops) (fst (counting_new i)) cs = (s', as)"
  shows "calls (plain_call ops) i cs = (cs_inner s', as) \<and>
    traffic_of (cs_counts s') = \<lparr>sent_bytes = of_nat (sum_list (map bytes_written (zip cs as))),
      received_bytes = of_nat (sum_list (map bytes_read (zip cs as)))\<rparr>"
proof -
  have "calls (plain_call ops) (cs_inner s) cs = (cs_inner s', as) \<and>
    bc_sent (cs_counts s') = bc_sent (cs_counts s) + of_nat (sum_list (map bytes_written (zip cs as))) \<and>
    bc_received (cs_counts s') = bc_received (cs_counts s) + of_nat (sum_list (map bytes_read (zip cs as)))"
    if "calls (counting_call ops) s cs = (s', as)" for s
    using that
  proof (induction cs arbitrary: s as)
    case (Cons c cs)
    obtain s1 a where one: "counting_call ops s c = (s1, a)" by fastforce
    obtain as' where rest: "calls (counting_call ops) s1 cs = (s', as')" and as: "as = a # as'"
      using Cons.prems one by (auto split: prod.splits)
    then show ?case using Cons.IH [OF rest] counting_call_once [OF assms(1) one] by simp
  qed simp
  from this [OF assms(2)] show ?thesis
    by (simp add: counting_new_def with_counts_def traffic_of_def Let_def)
qed

definition echo_ops :: "bytes stream_ops" where
  "echo_ops =
     \<lparr>st_poll_read = (\<lambda>s b. ([], b\<lparr>rb_filled := rb_filled b @ s\<rparr>, Ready (Inr ()))),
      st_poll_write = (\<lambda>s bs. (s @ bs, Ready (Inr (length bs)))),
      st_poll_flush = (\<lambda>s. (s, Ready (Inr ()))), st_poll_shutdown = (\<lambda>s. (s, Pending))\<rparr>"

theorem traffic_is_what_passed_witness:
  "\<exists>s' as. calls (counting_call echo_ops) (fst (counting_new ''abc''))
      [Poll_read \<lparr>rb_filled = ''x'', rb_capacity = 8\<rparr>, Poll_write ''hello'', Poll_shutdown] = (s', as) \<and>
    traffic_of (cs_counts s') = \<lparr>sent_bytes = 5, received_bytes = 3\<rparr>"
proof -
  have ok: "reads_append echo_ops" by (simp add: reads_append_def echo_ops_def)
  have c: "calls (counting_call echo_ops) (fst (counting_new ''abc''))
      [Poll_read \<lparr>rb_filled = ''x'', rb_capacity = 8\<rparr>, Poll_write ''hello'', Poll_shutdown] =
    (\<lparr>cs_inner = ''hello'', cs_counts = \<lparr>bc_sent = 5, bc_received = 3\<rparr>\<rparr>,
     [Read_answer \<lparr>rb_filled = ''xabc'', rb_capacity = 8\<rparr> (Ready (Inr ())), Write_answer (Ready (Inr 5)), Unit_answer Pending])"
    by (simp add: counting_new_def with_counts_def echo_ops_def counting_poll_read_def counting_poll_write_def
        counting_poll_shutdown_def Let_def)
  from traffic_is_what_passed [OF ok c] c show ?thesis by simp
qed

end
