(* ===== verification/Measurements.thy ===== *)
theory Measurements
  imports Prover_Witness Registry
begin

section \<open>Readings of measurements and reports\<close>

text \<open>
  Model of the functions of \<open>pprev-prover/src/circuit.rs\<close> and \<open>register.rs\<close> that read a peak resident set
  size. What the kernel and \<open>/usr/bin/time -l\<close> report are arguments.
\<close>

text \<open>\<open>split_whitespace().next()\<close>\<close>

fun up_to_space :: "bytes \<Rightarrow> bytes" where
  "up_to_space [] = []"
| "up_to_space (c # s) = (if list_ex (\<lambda>w. prefix w (c # s)) white_space then [] else c # up_to_space s)"

definition first_word :: "bytes \<Rightarrow> bytes option" where
  "first_word s = (case up_to_space (trim_start s) of [] \<Rightarrow> None | w \<Rightarrow> Some w)"

definition reports_rss :: "bytes \<Rightarrow> bool" where
  "reports_rss l \<longleftrightarrow> suffix ''maximum resident set size'' (trim_end l)"

definition peak_rss :: "bytes \<Rightarrow> u64 option" where
  "peak_rss stderr =
     Option.bind (find reports_rss (file_lines stderr)) (\<lambda>l.
     Option.bind (first_word l) parse_usize)"

text \<open>\<open>ru_maxrss\<close> is in bytes on macOS and in kilobytes on Linux; the product wraps.\<close>

definition self_peak_rss_bytes :: "bool \<Rightarrow> int option \<Rightarrow> u64 option" where
  "self_peak_rss_bytes macos ru_maxrss =
     Option.bind ru_maxrss (\<lambda>n.
     Option.bind (if 0 \<le> n then Some (of_int n) else None) (\<lambda>maxrss.
     Some (if macos then maxrss else maxrss * 1024)))"

subsection \<open>The report of \<open>time\<close>\<close>

lemma space_stripped: "strip_prefixes white_space (CHR '' '' # s) = strip_prefixes white_space s"
proof -
  have "find (\<lambda>w. w \<noteq> [] \<and> prefix w (CHR '' '' # s)) white_space = Some '' ''"
    by (simp add: white_space_def char_of_eq_iff)
  then show ?thesis by (subst strip_prefixes.simps) simp
qed

lemma digit_no_space:
  assumes "is_ascii_digit c"
  shows "w \<in> set white_space \<Longrightarrow> \<not> prefix w (c # s)"
proof -
  assume w: "w \<in> set white_space"
  have "byte_val c \<in> {48..57}" using assms by (auto simp: is_ascii_digit_def)
  moreover have "byte_val (hd w) \<notin> {48..57}" using w by (auto simp: white_space_def)
  ultimately show ?thesis using white_space_nonempty [OF w] by (cases w) auto
qed

lemma trim_start_number:
  assumes "is_ascii_digit c"
  shows "trim_start (replicate k (CHR '' '') @ c # s) = c # s"
proof -
  have "find (\<lambda>w. w \<noteq> [] \<and> prefix w (c # s)) white_space = None"
    using digit_no_space [OF assms] by (auto simp: find_None_iff)
  then have "strip_prefixes white_space (c # s) = c # s" by (subst strip_prefixes.simps) simp
  then have "strip_prefixes white_space (replicate k (CHR '' '') @ c # s) = c # s"
    by (induction k) (simp_all add: space_stripped)
  then show ?thesis by (simp add: trim_start_def)
qed

lemma up_to_space_digits:
  "all_digits ds \<Longrightarrow> up_to_space (ds @ CHR '' '' # s) = ds"
proof (induction ds)
  case Nil
  then show ?case by (simp add: white_space_def char_of_eq_iff)
next
  case (Cons d ds)
  then have "is_ascii_digit d" "all_digits ds" by simp_all
  then have "\<not> list_ex (\<lambda>w. prefix w (d # ds @ CHR '' '' # s)) white_space"
    using digit_no_space by (auto simp: list_ex_iff)
  then show ?case using Cons.IH [OF \<open>all_digits ds\<close>] by simp
qed

text \<open>The number at the start of the first line that ends with the words of \<open>time\<close> is read back, if it fits 64 bits,
  whatever the program itself has written.\<close>

lemma peak_rss_reads_report:
  assumes lines: "file_lines stderr = pre @ (replicate k (CHR '' '') @ dec n @ CHR '' '' # rest) # after"
    and first: "\<forall>l \<in> set pre. \<not> reports_rss l"
    and report: "reports_rss (replicate k (CHR '' '') @ dec n @ CHR '' '' # rest)" and n: "n < 2 ^ 64"
  shows "peak_rss stderr = Some (of_nat n)"
proof -
  let ?l = "replicate k (CHR '' '') @ dec n @ CHR '' '' # rest"
  have found: "find reports_rss (file_lines stderr) = Some ?l"
    unfolding lines using first report by (induction pre) auto
  obtain c ds where ds: "dec n = c # ds" using dec_nonempty [of n] by (cases "dec n") auto
  then have c: "is_ascii_digit c" using dec_digits [of n] by simp
  have "trim_start ?l = dec n @ CHR '' '' # rest" using trim_start_number [OF c, of k "ds @ CHR '' '' # rest"] by (simp add: ds)
  then have "first_word ?l = Some (dec n)"
    using up_to_space_digits [OF dec_digits, of n rest] by (simp add: first_word_def ds)
  moreover have "c \<noteq> CHR ''+''" using c by (auto simp: is_ascii_digit_def)
  then have "parse_usize (dec n) = Some (of_nat n)"
    using n dec_digits [of n] dec_value_dec [of n] unfolding ds by (simp add: parse_usize_def Let_def)
  ultimately show ?thesis by (simp add: peak_rss_def found)
qed

lemma peak_rss_sample:
  "peak_rss (''done'' @ [LF] @ ''  8  maximum resident set size'') = Some 8"
proof -
  let ?s = "''done'' @ [LF] @ ''  8  maximum resident set size''"
  have n: "dec 8 = ''8''" by (simp add: dec.simps [of 8] digit_char_def char_of_eq_iff)
  have "file_lines ?s = [''done''] @ (replicate 2 (CHR '' '') @ dec 8 @ CHR '' '' # '' maximum resident set size'') # []"
    by (simp add: file_lines.simps strip_cr_def n numeral_2_eq_2)
  moreover have trimmed: "trim_end (l @ ''e'') = l @ ''e''" for l
  proof -
    have "find (\<lambda>w. w \<noteq> [] \<and> prefix w (CHR ''e'' # rev l)) (map rev white_space) = None"
      by (simp add: white_space_def char_of_eq_iff)
    then show ?thesis by (simp add: trim_end_def strip_prefixes.simps [of "map rev white_space" "CHR ''e'' # rev l"])
  qed
  have "reports_rss (replicate 2 (CHR '' '') @ dec 8 @ CHR '' '' # '' maximum resident set size'')"
    using trimmed [of "replicate 2 (CHR '' '') @ dec 8 @ CHR '' '' # '' maximum resident set siz''"]
    by (simp add: reports_rss_def suffix_def)
  moreover have "\<not> reports_rss ''done''"
    using trimmed [of "''don''"] by (simp add: reports_rss_def suffix_def)
  ultimately show ?thesis using peak_rss_reads_report [of ?s "[''done'']" 2 8 "'' maximum resident set size''" "[]"] by simp
qed

end
