(* ===== verification/Commands.thy ===== *)
theory Commands
  imports Phase_Transactions
begin

section \<open>The command-line program\<close>

text \<open>
  Model of \<open>pprev-prover/src/main.rs\<close>: the commands from their parsed arguments to the exit status. A command
  gives the documents it wrote, in order, the transactions it handed to the node, and its result; a run whose
  retry loop does not end has no value. Files, serde_json and the parsers of keys and numbers are the record
  \<open>cli\<close>; argument parsing, printing, times and the counts of the reports are not modelled.
\<close>

subsection \<open>What a command reads and writes\<close>

datatype document =
    Register_doc register_record
  | Apply_doc "(apply_payload, applied_event) phase_record"
  | Settle_doc "(settle_payload, settled_event) phase_record"
  | Error_doc bytes
  | Registered_doc "registered_event submit_outcome"
  | Applied_doc "applied_event submit_outcome"
  | Engaged_doc "engaged_event submit_outcome"
  | Settled_doc "settled_event submit_outcome"
  | Failed_report bytes
  | Attested_report "32 word" "bytes list"
  | Binary_doc bytes

record ('json, 'key, 'att, 'sec, 'p) cli =
  cl_read :: "bytes \<Rightarrow> bytes res"
  cl_read_text :: "bytes \<Rightarrow> bytes res"
  cl_create_dir :: "bytes \<Rightarrow> unit res"
  cl_pretty :: "document \<Rightarrow> bytes res"
  cl_write :: "bytes \<Rightarrow> bytes \<Rightarrow> unit res"
  cl_bundle :: "bytes \<Rightarrow> policy_bundle res"
  cl_layout :: "bytes \<Rightarrow> layout res"
  cl_record_layout :: "bytes \<Rightarrow> record_layout res"
  cl_wei :: "bytes \<Rightarrow> u256 res"
  cl_json :: "bytes \<Rightarrow> 'json res"
  cl_pointer :: "'json \<Rightarrow> bytes \<Rightarrow> 'json option"
  cl_string :: "'json \<Rightarrow> bytes option"
  cl_display :: "'json \<Rightarrow> bytes"
  cl_u256 :: "bytes \<Rightarrow> bytes + u256"
  cl_b256 :: "bytes \<Rightarrow> bytes + bytes"
  cl_key :: "bytes \<Rightarrow> 'key res"
  cl_register_payload :: "bytes \<Rightarrow> register_payload res"
  cl_apply_payload :: "'json \<Rightarrow> apply_payload res"
  cl_settle_payload :: "'json \<Rightarrow> settle_payload res"
  cl_attestation_bytes :: "'att \<Rightarrow> bytes res"
  cl_secrets_bytes :: "'sec \<Rightarrow> bytes res"
  cl_presentation_bytes :: "'p \<Rightarrow> bytes res"

type_synonym effects = "(bytes \<times> document) list \<times> tx_request list \<times> unit run"

definition write_json :: "('json, 'key, 'att, 'sec, 'p) cli \<Rightarrow> bytes \<Rightarrow> document \<Rightarrow> unit res" where
  "write_json cl file doc =
     and_then (cl_pretty cl doc) (\<lambda>t. with_ctx (''writing '' @ file) (cl_write cl file (t @ [LF])))"

text \<open>A write, and what follows it when it succeeds.\<close>

definition write_then ::
    "('json, 'key, 'att, 'sec, 'p) cli \<Rightarrow> bytes \<Rightarrow> document \<Rightarrow> unit run \<Rightarrow> (bytes \<times> document) list \<times> unit run" where
  "write_then cl file doc r =
     (case write_json cl file doc of Inl e \<Rightarrow> ([], Inl (fault_of e)) | Inr _ \<Rightarrow> ([(file, doc)], r))"

definition read_private_key :: "('json, 'key, 'att, 'sec, 'p) cli \<Rightarrow> bytes \<Rightarrow> 'key run" where
  "read_private_key cl file =
     lift_res (and_then (with_ctx (''reading '' @ file) (cl_read_text cl file)) (\<lambda>text.
       with_ctx (file @ '': not a private key'') (cl_key cl (trim text))))"

definition read_json :: "('json, 'key, 'att, 'sec, 'p) cli \<Rightarrow> bytes \<Rightarrow> 'json run" where
  "read_json cl file =
     lift_res (and_then (with_ctx (''reading '' @ file) (cl_read_text cl file)) (\<lambda>text.
       with_ctx (''parsing '' @ file) (cl_json cl text)))"

definition json_field ::
    "('json, 'key, 'att, 'sec, 'p) cli \<Rightarrow> (bytes \<Rightarrow> bytes + 'a) \<Rightarrow> 'json \<Rightarrow> bytes \<Rightarrow> 'a run" where
  "json_field cl from_str value pointer =
     and_then (some_or_fail (pointer @ '' is missing'') (cl_pointer cl value pointer)) (\<lambda>v.
     case from_str (case cl_string cl v of Some s \<Rightarrow> s | None \<Rightarrow> cl_display cl v) of
       Inl e \<Rightarrow> fails (pointer @ '': '' @ e)
     | Inr x \<Rightarrow> Inr x)"

definition listing_of :: "('json, 'key, 'att, 'sec, 'p) cli \<Rightarrow> bytes \<Rightarrow> listing run" where
  "listing_of cl file =
     and_then (read_json cl file) (\<lambda>v.
     and_then (json_field cl (cl_u256 cl) v ''/submission/event/txId'') (\<lambda>tx_id.
     and_then (json_field cl (cl_b256 cl) v ''/payload/propertyId'') (\<lambda>word.
     and_then (json_field cl (cl_u256 cl) v ''/payload/amount'') (\<lambda>amount.
     and_then (json_field cl (cl_u256 cl) v ''/payload/settlementShare'') (\<lambda>share.
     and_then (json_field cl (cl_b256 cl) v ''/payload/r'') (\<lambda>r.
     Inr \<lparr>li_tx_id = tx_id,
       li_tx_data = \<lparr>tx_property_id = word, tx_amount = amount, tx_settlement_share = share\<rparr>, li_r = r\<rparr>))))))"

subsection \<open>Arguments\<close>

text \<open>The notary's address belongs to \<open>od_connect\<close> of the world of a run.\<close>

record session_args =
  sa_registry :: bytes
  sa_ca :: bytes
  sa_account :: bytes
  sa_password :: bytes
  sa_property :: bytes
  sa_max_sent :: nat
  sa_max_recv :: nat
  sa_max_retries :: "32 word"
  sa_preprocess_timeout_secs :: u64

record phase_session_args =
  pa_verifier :: bytes
  pa_registry :: bytes
  pa_ca :: bytes
  pa_account :: bytes
  pa_password :: bytes
  pa_max_sent :: nat
  pa_max_recv :: nat
  pa_max_retries :: "32 word"
  pa_preprocess_timeout_secs :: u64
  pa_policy :: bytes
  pa_root :: bytes
  pa_rpc_url :: bytes
  pa_contract :: bytes
  pa_key_file :: bytes
  pa_listing :: bytes
  pa_circuits :: bytes
  pa_out :: bytes
  pa_eta :: "bytes option"
  pa_proof_from :: "bytes option"
  pa_no_submit :: bool
  pa_measure_rss :: bool

record notarize_args =
  na_session :: session_args
  na_layout :: bytes
  na_out :: bytes
  na_report :: "bytes option"

record register_args =
  ra_session :: session_args
  ra_verifier :: bytes
  ra_policy :: bytes
  ra_root :: bytes
  ra_rpc_url :: bytes
  ra_contract :: bytes
  ra_key_file :: bytes
  ra_amount_wei :: u256
  ra_settlement_share_bps :: u256
  ra_collateral_wei :: u256
  ra_circuits :: bytes
  ra_out :: bytes
  ra_eta :: "bytes option"
  ra_proof_from :: "bytes option"
  ra_no_submit :: bool
  ra_measure_rss :: bool

record apply_args =
  aa_session :: phase_session_args
  aa_deposit_wei :: u256
  aa_identifier :: "bytes option"

record engage_args =
  ea_application :: bytes
  ea_rpc_url :: bytes
  ea_contract :: bytes
  ea_key_file :: bytes
  ea_out :: bytes

record settle_args =
  ta_session :: phase_session_args
  ta_application :: bytes
  ta_engagement :: bytes
  ta_notation :: bytes

record submit_args =
  ba_payload :: bytes
  ba_rpc_url :: bytes
  ba_key_file :: bytes
  ba_out :: bytes

datatype cli_command =
    Notarize_cmd notarize_args
  | Register_cmd register_args
  | Submit_cmd submit_args
  | Apply_cmd apply_args
  | Engage_cmd engage_args
  | Settle_cmd settle_args
  | Submit_apply_cmd submit_args
  | Submit_settle_cmd submit_args

subsection \<open>Configurations\<close>

definition session_of :: "('json, 'key, 'att, 'sec, 'p) cli \<Rightarrow> phase_session_args \<Rightarrow> session_config run" where
  "session_of cl s =
     and_then (lift_res (with_ctx (''reading '' @ pa_ca s) (cl_read cl (pa_ca s)))) (\<lambda>ca.
     Inr \<lparr>sc_verifier = pa_verifier s, sc_registry = pa_registry s, sc_ca_der = ca, sc_account = pa_account s,
       sc_password = pa_password s, sc_max_sent = pa_max_sent s, sc_max_recv = pa_max_recv s,
       sc_max_retries = pa_max_retries s, sc_preprocess_timeout = unat (pa_preprocess_timeout_secs s)\<rparr>)"

definition circuits_of :: "phase_session_args \<Rightarrow> (bytes \<Rightarrow> circuit_files) \<Rightarrow> circuit_files" where
  "circuits_of s files =
     (let f = files (path_join (pa_root s) (pa_circuits s)) in
      if pa_measure_rss s then with_rss_measurement f else f)"

definition bundle_of :: "('json, 'key, 'att, 'sec, 'p) cli \<Rightarrow> bytes \<Rightarrow> policy_bundle run" where
  "bundle_of cl file = lift_res (load_bundle (cl_read_text cl) (cl_bundle cl) (cl_wei cl) file)"

definition register_config_of where
  "register_config_of cl args =
     (let s = ra_session args in
      and_then (bundle_of cl (ra_policy args)) (\<lambda>policy.
      and_then (lift_res (with_ctx (''reading '' @ sa_ca s) (cl_read cl (sa_ca s)))) (\<lambda>ca.
      and_then (lift_res (load_layout (cl_read_text cl) (cl_layout cl)
        (path_join (ra_root args) (register_layout_path (bundle_register policy))))) (\<lambda>l.
      and_then (read_private_key cl (ra_key_file args)) (\<lambda>k.
      Inr \<lparr>gc_verifier = ra_verifier args, gc_registry = sa_registry s, gc_ca_der = ca, gc_layout = l,
        gc_policy = policy, gc_account = sa_account s, gc_password = sa_password s, gc_property = sa_property s,
        gc_rpc_url = ra_rpc_url args, gc_contract = ra_contract args, gc_key = k, gc_amount = ra_amount_wei args,
        gc_settlement_share = ra_settlement_share_bps args, gc_collateral = ra_collateral_wei args,
        gc_circuits = (let f = files_phi_r (path_join (ra_root args) (ra_circuits args)) in
          if ra_measure_rss args then with_rss_measurement f else f),
        gc_out = ra_out args, gc_max_sent = sa_max_sent s, gc_max_recv = sa_max_recv s,
        gc_max_retries = sa_max_retries s, gc_preprocess_timeout = unat (sa_preprocess_timeout_secs s),
        gc_eta = ra_eta args, gc_proof_from = ra_proof_from args, gc_submit = (\<not> ra_no_submit args)\<rparr>)))))"

definition apply_config_of where
  "apply_config_of cl args =
     (let s = aa_session args in
      and_then (bundle_of cl (pa_policy s)) (\<lambda>policy.
      and_then (some_or_fail ''the policy has no apply source'' (bundle_apply policy)) (\<lambda>src.
      and_then (session_of cl s) (\<lambda>ses.
      and_then (lift_res (load_record_layout (cl_read_text cl) (cl_record_layout cl)
        (path_join (pa_root s) (apply_layout_path src)))) (\<lambda>l.
      and_then (read_private_key cl (pa_key_file s)) (\<lambda>k.
      and_then (listing_of cl (pa_listing s)) (\<lambda>li.
      Inr \<lparr>yc_session = ses, yc_layout = l, yc_policy = policy, yc_rpc_url = pa_rpc_url s,
        yc_contract = pa_contract s, yc_key = k, yc_listing = li, yc_deposit = aa_deposit_wei args,
        yc_circuits = circuits_of s files_phi_a, yc_out = pa_out s, yc_eta = pa_eta s,
        yc_identifier = aa_identifier args, yc_proof_from = pa_proof_from s, yc_submit = (\<not> pa_no_submit s)\<rparr>)))))))"

definition settle_config_of where
  "settle_config_of cl args =
     (let s = ta_session args in
      and_then (bundle_of cl (pa_policy s)) (\<lambda>policy.
      and_then (some_or_fail ''the policy has no settle source'' (bundle_settle policy)) (\<lambda>src.
      and_then (read_json cl (ta_application args)) (\<lambda>application.
      and_then (read_json cl (ta_engagement args)) (\<lambda>engaged.
      and_then (session_of cl s) (\<lambda>ses.
      and_then (lift_res (load_record_layout (cl_read_text cl) (cl_record_layout cl)
        (path_join (pa_root s) (settle_layout_path src)))) (\<lambda>l.
      and_then (read_private_key cl (pa_key_file s)) (\<lambda>k.
      and_then (listing_of cl (pa_listing s)) (\<lambda>li.
      and_then (json_field cl (cl_u256 cl) engaged ''/event/engId'') (\<lambda>eng_id.
      and_then (json_field cl (cl_u256 cl) engaged ''/event/expiresAt'') (\<lambda>expires_at.
      and_then (json_field cl (cl_b256 cl) application ''/payload/cB'') (\<lambda>c_b.
      and_then (json_field cl Inr application ''/payload/identifier'') (\<lambda>ident.
      and_then (json_field cl (cl_b256 cl) application ''/payload/salt'') (\<lambda>salt.
      Inr \<lparr>tc_session = ses, tc_layout = l, tc_policy = policy, tc_rpc_url = pa_rpc_url s,
        tc_contract = pa_contract s, tc_key = k, tc_listing = li,
        tc_engagement = \<lparr>en_eng_id = eng_id, en_expires_at = expires_at\<rparr>, tc_c_b = c_b, tc_identifier = ident,
        tc_salt = salt, tc_notation_id = ta_notation args, tc_circuits = circuits_of s files_phi_s,
        tc_out = pa_out s, tc_eta = pa_eta s, tc_proof_from = pa_proof_from s,
        tc_submit = (\<not> pa_no_submit s)\<rparr>))))))))))))))"

subsection \<open>The end of a run\<close>

text \<open>An error of a run goes to \<open>record.json\<close> before it ends the command.\<close>

definition write_error where
  "write_error cl out e =
     (case cl_create_dir cl out of
        Inl f \<Rightarrow> ([], Inl (fault_of f))
      | Inr _ \<Rightarrow> write_then cl (path_join out ''record.json'') (Error_doc (chain_text e)) (Inl (Failed e)))"

definition finish_phase_command where
  "finish_phase_command cl out doc r send_it =
     (case r of
        Inl (Panicked m) \<Rightarrow> ([], Inl (Panicked m))
      | Inl (Failed e) \<Rightarrow> write_error cl out e
      | Inr rec1 \<Rightarrow>
          write_then cl (path_join out ''record.json'') (doc rec1)
            (require (ph_outcome rec1 = (if send_it then Ph_included else Ph_signed)) (ph_phase rec1 @ '' did not complete'')
              (Inr ())))"

definition finish_register_command where
  "finish_register_command cl out r send_it =
     (case r of
        Inl (Panicked m) \<Rightarrow> ([], Inl (Panicked m))
      | Inl (Failed e) \<Rightarrow> write_error cl out e
      | Inr rec1 \<Rightarrow>
          write_then cl (path_join out ''record.json'') (Register_doc rec1)
            (require (gr_outcome rec1 = (if send_it then Out_registered else Out_signed)) ''Register did not complete'' (Inr ())))"

definition write_phase_outcome where
  "write_phase_outcome cl out doc outcome =
     write_then cl out (doc outcome)
       (case outcome of Included _ _ _ _ _ \<Rightarrow> Inr () | Reverted e \<Rightarrow> fails (''reverted: '' @ e))"

text \<open>A configured run and its end.\<close>

definition run_command where
  "run_command conf go close =
     (case conf of
        Inl f \<Rightarrow> Some ([], [], Inl f)
      | Inr cfg \<Rightarrow> map_option (\<lambda>(sent, r). case close cfg r of (docs, x) \<Rightarrow> (docs, sent, x)) (go cfg))"

text \<open>A prepared submission and its end.\<close>

definition submit_command where
  "submit_command cl out doc prepared =
     (case prepared of
        Inl f \<Rightarrow> ([], [], Inl f)
      | Inr (sent, Inl f) \<Rightarrow> ([], sent, Inl f)
      | Inr (sent, Inr outcome) \<Rightarrow> (case write_phase_outcome cl out doc outcome of (docs, x) \<Rightarrow> (docs, sent, x)))"

subsection \<open>The commands\<close>

definition register_command where
  "register_command cl w args =
     run_command (register_config_of cl args) (run_register w)
       (\<lambda>cfg r. finish_register_command cl (ra_out args) r (gc_submit cfg))"

definition apply_command where
  "apply_command cl w args =
     run_command (apply_config_of cl args) (run_apply w)
       (\<lambda>cfg r. finish_phase_command cl (pa_out (aa_session args)) Apply_doc r (yc_submit cfg))"

definition settle_command where
  "settle_command cl w args =
     run_command (settle_config_of cl args) (run_settle w)
       (\<lambda>cfg r. finish_phase_command cl (pa_out (ta_session args)) Settle_doc r (tc_submit cfg))"

definition engage_command where
  "engage_command cl abi node args =
     submit_command cl (ea_out args) Engaged_doc
       (and_then (read_json cl (ea_application args)) (\<lambda>v.
        and_then (read_private_key cl (ea_key_file args)) (\<lambda>k.
        and_then (json_field cl (cl_u256 cl) v ''/submission/event/txId'') (\<lambda>tx_id.
        and_then (json_field cl (cl_u256 cl) v ''/submission/event/appId'') (\<lambda>app_id.
        Inr (submit_engage_tx abi node (ea_rpc_url args) k (ea_contract args) tx_id app_id))))))"

definition submit_register_command where
  "submit_register_command cl abi node args =
     submit_command cl (ba_out args) Registered_doc
       (and_then (lift_res (with_ctx (''reading '' @ ba_payload args) (cl_read_text cl (ba_payload args)))) (\<lambda>text.
        and_then (lift_res (with_ctx ''parsing the payload'' (cl_register_payload cl text))) (\<lambda>p.
        and_then (read_private_key cl (ba_key_file args)) (\<lambda>k.
        Inr (submit_register_tx abi node (ba_rpc_url args) k p)))))"

definition submit_apply_command where
  "submit_apply_command cl abi node args =
     submit_command cl (ba_out args) Applied_doc
       (and_then (read_json cl (ba_payload args)) (\<lambda>v.
        and_then (lift_res (cl_apply_payload cl v)) (\<lambda>p.
        and_then (read_private_key cl (ba_key_file args)) (\<lambda>k.
        Inr (submit_apply_tx abi node (ba_rpc_url args) k p)))))"

definition submit_settle_command where
  "submit_settle_command cl abi node args =
     submit_command cl (ba_out args) Settled_doc
       (and_then (read_json cl (ba_payload args)) (\<lambda>v.
        and_then (lift_res (cl_settle_payload cl v)) (\<lambda>p.
        and_then (read_private_key cl (ba_key_file args)) (\<lambda>k.
        Inr (submit_settle_tx abi node (ba_rpc_url args) k p)))))"

subsubsection \<open>Notarize\<close>

text \<open>Files in order; the first that fails ends the command.\<close>

fun write_binaries where
  "write_binaries cl [] = ([], Inr ())"
| "write_binaries cl ((file, bs) # fs) =
     (case and_then bs (cl_write cl file) of
        Inl e \<Rightarrow> ([], Inl (fault_of e))
      | Inr _ \<Rightarrow> (case write_binaries cl fs of (docs, r) \<Rightarrow> ((file, Binary_doc (case bs of Inr b \<Rightarrow> b | Inl _ \<Rightarrow> [])) # docs, r)))"

text \<open>The optional report of a session; \<open>Inl\<close> ends the command.\<close>

definition write_report where
  "write_report cl report doc =
     (case report of None \<Rightarrow> ([], Inr ()) | Some file \<Rightarrow> write_then cl file doc (Inr ()))"

definition write_notarized where
  "write_notarized cl w out nz =
     (case present (od_ops w) nz False of
        Inl f \<Rightarrow> ([], Inl f)
      | Inr presentation \<Rightarrow>
          (case cl_create_dir cl out of
             Inl e \<Rightarrow> ([], Inl (fault_of e))
           | Inr _ \<Rightarrow> write_binaries cl
               [(path_join out ''attestation.bin'', cl_attestation_bytes cl (nz_attestation nz)),
                (path_join out ''secrets.bin'', cl_secrets_bytes cl (nz_secrets nz)),
                (path_join out ''presentation.bin'', cl_presentation_bytes cl presentation)]))"

definition finish_notarize where
  "finish_notarize cl w args r =
     (case r of
        Inl (Panicked m) \<Rightarrow> ([], Inl (Panicked m))
      | Inl (Failed e) \<Rightarrow>
          (case write_report cl (na_report args) (Failed_report (chain_text e)) of
             (docs, Inl f) \<Rightarrow> (docs, Inl f)
           | (docs, Inr _) \<Rightarrow> (docs, Inl (Failed e)))
      | Inr (nz, stats) \<Rightarrow>
          (case write_report cl (na_report args) (Attested_report (attempts stats) (stalls stats)) of
             (docs, Inl f) \<Rightarrow> (docs, Inl f)
           | (docs, Inr _) \<Rightarrow> (case write_notarized cl w (na_out args) nz of (files, x) \<Rightarrow> (docs @ files, x))))"

definition notarize_setup where
  "notarize_setup cl w args =
     (let s = na_session args in
      and_then (lift_res (load_layout (cl_read_text cl) (cl_layout cl) (na_layout args))) (\<lambda>l.
      and_then (lift_res (cl_read cl (sa_ca s))) (\<lambda>ca.
      and_then (client_login (od_login w) (sa_registry s) (server_name l) ca (sa_account s) (sa_password s)) (\<lambda>token.
      Inr \<lparr>ps_layout = l, ps_registry_addr = sa_registry s, ps_root_certs = [ca], ps_token = token,
        ps_property_id = sa_property s, ps_max_sent = sa_max_sent s, ps_max_recv = sa_max_recv s,
        ps_preprocess_timeout = unat (sa_preprocess_timeout_secs s)\<rparr>))))"

definition notarize_command where
  "notarize_command cl w args =
     (case notarize_setup cl w args of
        Inl f \<Rightarrow> Some ([], [], Inl f)
      | Inr setup_of \<Rightarrow>
          map_option (\<lambda>r. case finish_notarize cl w args r of (docs, x) \<Rightarrow> (docs, [], x))
            (notarize_with_retries (od_connect w) (od_races w) setup_of (sa_max_retries (na_session args))))"

fun main_command where
  "main_command cl w (Notarize_cmd args) = notarize_command cl w args"
| "main_command cl w (Register_cmd args) = register_command cl w args"
| "main_command cl w (Submit_cmd args) = Some (submit_register_command cl (od_abi w) (od_node w) args)"
| "main_command cl w (Apply_cmd args) = apply_command cl w args"
| "main_command cl w (Engage_cmd args) = Some (engage_command cl (od_abi w) (od_node w) args)"
| "main_command cl w (Settle_cmd args) = settle_command cl w args"
| "main_command cl w (Submit_apply_cmd args) = Some (submit_apply_command cl (od_abi w) (od_node w) args)"
| "main_command cl w (Submit_settle_cmd args) = Some (submit_settle_command cl (od_abi w) (od_node w) args)"

end
