(* ===== verification/Command_Reports.thy ===== *)
theory Command_Reports
  imports Commands
begin

section \<open>What the commands report, and what the next phase reads\<close>

text \<open>
  The exit status of a command against the documents that it wrote and the transactions that it sent, and the
  hand-over between the phases: the listing that \<open>register\<close> recorded is the one that \<open>apply\<close> and \<open>settle\<close>
  state, and the opening of c_B that \<open>apply\<close> recorded is the one that \<open>settle\<close> checks.
\<close>

subsection \<open>Runs\<close>

lemma session_cases:
  "(case a of Inl f \<Rightarrow> ([], Inl f) | Inr ses \<Rightarrow> g ses) = (sent, r) \<Longrightarrow>
    (sent = [] \<and> (\<exists>f. r = Inl f)) \<or> (\<exists>ses. a = Inr ses \<and> g ses = (sent, r))"
  by (cases a) auto

lemma run_register_cases:
  assumes "run_register w cfg = Some (sent, r)"
  shows "(sent = [] \<and> (\<exists>f. r = Inl f)) \<or>
    (\<exists>chain_id eta t_att x openings presentation stats. register_statement w cfg eta t_att = Inr x \<and>
       register_after_session w cfg chain_id x openings presentation stats = (sent, r))"
proof (cases "and_then (lib_ctx ''creating the output directory'' (lift_lib (od_create_dir w (gc_out cfg))))
    (\<lambda>_. chain_id_of (od_node w) (gc_rpc_url cfg))")
  case (Inl f)
  then show ?thesis using assms by (auto simp: run_register_def)
next
  case (Inr chain_id)
  then obtain a where body: "(case a of Inl f \<Rightarrow> ([], Inl f) | Inr ses \<Rightarrow> (case ses of (openings, presentation, t_att, stats) \<Rightarrow>
      (case register_statement w cfg (case gc_eta cfg of Some e \<Rightarrow> e | None \<Rightarrow> od_random_eta w) t_att of
         Inl f \<Rightarrow> ([], Inl f)
       | Inr x \<Rightarrow> register_after_session w cfg chain_id x openings presentation stats))) = (sent, r)"
    using assms by (auto simp: run_register_def Let_def)
  from session_cases [OF this] show ?thesis
  proof (elim disjE exE conjE)
    fix ses
    assume "(case ses of (openings, presentation, t_att, stats) \<Rightarrow>
      (case register_statement w cfg (case gc_eta cfg of Some e \<Rightarrow> e | None \<Rightarrow> od_random_eta w) t_att of
         Inl f \<Rightarrow> ([], Inl f)
       | Inr x \<Rightarrow> register_after_session w cfg chain_id x openings presentation stats)) = (sent, r)"
    then show ?thesis by (cases ses) (simp, drule session_cases, blast)
  qed simp
qed

lemma run_apply_cases:
  assumes "run_apply w cfg = Some (sent, r)"
  shows "(sent = [] \<and> (\<exists>f. r = Inl f)) \<or>
    (\<exists>chain_id eta sh ses. attest w (yc_session cfg) sh = Some (Inr ses) \<and>
       apply_after_session w cfg chain_id eta (fresh_salt (od_random_salt w)) ses = (sent, r))"
proof (cases "and_then (lib_ctx ''creating the output directory'' (lift_lib (od_create_dir w (yc_out cfg)))) (\<lambda>_.
    and_then (chain_id_of (od_node w) (yc_rpc_url cfg)) (\<lambda>chain_id.
    and_then (lift_res (record_shape (yc_layout cfg) [])) (\<lambda>sh. Inr (chain_id, sh))))")
  case (Inl f)
  then show ?thesis using assms by (auto simp: run_apply_def)
next
  case (Inr y)
  moreover obtain chain_id sh where "y = (chain_id, sh)" by (cases y)
  ultimately obtain a where "attest w (yc_session cfg) sh = Some a" "(case a of Inl f \<Rightarrow> ([], Inl f)
      | Inr ses \<Rightarrow> apply_after_session w cfg chain_id (case yc_eta cfg of Some e \<Rightarrow> e | None \<Rightarrow> od_random_eta w)
          (fresh_salt (od_random_salt w)) ses) = (sent, r)"
    using assms by (auto simp: run_apply_def Let_def)
  with session_cases [OF this(2)] show ?thesis by blast
qed

lemma run_settle_cases:
  assumes "run_settle w cfg = Some (sent, r)"
  shows "(sent = [] \<and> (\<exists>f. r = Inl f)) \<or>
    (\<exists>chain_id eta edy sh ses. attest w (tc_session cfg) sh = Some (Inr ses) \<and>
       settle_after_session w cfg chain_id eta edy ses = (sent, r))"
proof (cases "settle_setup w cfg")
  case (Inl f)
  then show ?thesis using assms by (auto simp: run_settle_def)
next
  case (Inr y)
  moreover obtain chain_id edy sh where "y = (chain_id, edy, sh)" by (cases y)
  ultimately obtain a where "attest w (tc_session cfg) sh = Some a" "(case a of Inl f \<Rightarrow> ([], Inl f)
      | Inr ses \<Rightarrow> settle_after_session w cfg chain_id (case tc_eta cfg of Some e \<Rightarrow> e | None \<Rightarrow> od_random_eta w)
          edy ses) = (sent, r)"
    using assms by (auto simp: run_settle_def Let_def)
  with session_cases [OF this(2)] show ?thesis by blast
qed

text \<open>What holds of every run: its record is consistent with the transactions, of which there is at most one.\<close>

definition run_ok where
  "run_ok send_it ok sent r \<longleftrightarrow> (case r of Inl _ \<Rightarrow> True | Inr rec1 \<Rightarrow> ok rec1) \<and> (sent \<noteq> [] \<longrightarrow> send_it \<and> length sent = 1)"

lemma run_register_ok:
  assumes "run_register w cfg = Some (sent, r)"
  shows "run_ok (gc_submit cfg) (register_record_ok cfg sent) sent r"
proof -
  from run_register_cases [OF assms] show ?thesis
  proof (elim disjE exE conjE)
    fix chain_id x openings presentation stats
    assume "register_after_session w cfg chain_id x openings presentation stats = (sent, r)"
    from register_after_session_ok [OF this] show ?thesis unfolding run_ok_def by fastforce
  qed (auto simp: run_ok_def)
qed

lemma run_apply_ok:
  assumes "run_apply w cfg = Some (sent, r)"
  shows "run_ok (yc_submit cfg) (phase_record_ok (yc_submit cfg) (yc_proof_from cfg) sent) sent r"
proof -
  from run_apply_cases [OF assms] show ?thesis
  proof (elim disjE exE conjE)
    fix chain_id eta ses
    assume "apply_after_session w cfg chain_id eta (fresh_salt (od_random_salt w)) ses = (sent, r)"
    from apply_after_session_ok [OF this] show ?thesis unfolding run_ok_def by fastforce
  qed (auto simp: run_ok_def)
qed

lemma run_settle_ok:
  assumes "run_settle w cfg = Some (sent, r)"
  shows "run_ok (tc_submit cfg) (phase_record_ok (tc_submit cfg) (tc_proof_from cfg) sent) sent r"
proof -
  from run_settle_cases [OF assms] show ?thesis
  proof (elim disjE exE conjE)
    fix chain_id eta edy ses
    assume "settle_after_session w cfg chain_id eta edy ses = (sent, r)"
    from settle_after_session_ok [OF this] show ?thesis unfolding run_ok_def by fastforce
  qed (auto simp: run_ok_def)
qed

subsection \<open>The exit status\<close>

lemma write_then_iff:
  "write_then cl file doc r = (docs, x) \<Longrightarrow> (x = Inr () \<longleftrightarrow> docs = [(file, doc)] \<and> r = Inr ())"
  by (auto simp: write_then_def split: sum.splits)

lemma write_then_docs: "write_then cl file doc r = (docs, x) \<Longrightarrow> docs = [] \<or> docs = [(file, doc)]"
  by (auto simp: write_then_def split: sum.splits)

lemma write_error_fails:
  "write_error cl out e = (docs, x) \<Longrightarrow>
    x \<noteq> Inr () \<and> (docs = [] \<or> docs = [(path_join out ''record.json'', Error_doc (chain_text e))])"
  by (auto simp: write_error_def write_then_def split: sum.splits)

lemma finish_register_command_iff:
  assumes "finish_register_command cl out r send_it = (docs, x)"
  shows "x = Inr () \<longleftrightarrow> (\<exists>rec1. r = Inr rec1 \<and> docs = [(path_join out ''record.json'', Register_doc rec1)] \<and>
    gr_outcome rec1 = (if send_it then Out_registered else Out_signed))"
    and "docs = [(path_join out ''record.json'', Register_doc rec1)] \<Longrightarrow> r = Inr rec1"
  using assms write_error_fails
  by (auto simp: finish_register_command_def write_then_def split: sum.splits fault.splits dest: write_error_fails)

lemma finish_phase_command_iff:
  assumes "finish_phase_command cl out doc r send_it = (docs, x)"
    and "\<And>a b. doc a = doc b \<Longrightarrow> a = b" and "\<And>a b. doc a \<noteq> Error_doc b"
  shows "x = Inr () \<longleftrightarrow> (\<exists>rec1. r = Inr rec1 \<and> docs = [(path_join out ''record.json'', doc rec1)] \<and>
    ph_outcome rec1 = (if send_it then Ph_included else Ph_signed))"
    and "docs = [(path_join out ''record.json'', doc rec1)] \<Longrightarrow> r = Inr rec1"
  using assms write_error_fails
  by (auto simp: finish_phase_command_def write_then_def split: sum.splits fault.splits dest: write_error_fails)

lemma submit_command_iff:
  assumes "submit_command cl out doc prepared = (docs, sent, x)" and "\<And>a b. doc a = doc b \<Longrightarrow> a = b"
  shows "x = Inr () \<longleftrightarrow> (\<exists>h n t g e. docs = [(out, doc (Included h n t g e))] \<and>
    prepared = Inr (sent, Inr (Included h n t g e)))"
    and "docs = [(out, doc oc)] \<Longrightarrow> prepared = Inr (sent, Inr oc)"
  using assms
  by (auto simp: submit_command_def write_phase_outcome_def write_then_def fails_def
      split: sum.splits prod.splits submit_outcome.splits)

subsubsection \<open>Every command\<close>

fun transactions_of :: "cli_command \<Rightarrow> nat" where
  "transactions_of (Notarize_cmd _) = 0"
| "transactions_of (Register_cmd args) = (if ra_no_submit args then 0 else 1)"
| "transactions_of (Apply_cmd args) = (if pa_no_submit (aa_session args) then 0 else 1)"
| "transactions_of (Settle_cmd args) = (if pa_no_submit (ta_session args) then 0 else 1)"
| "transactions_of _ = 1"

text \<open>The documents of a command that completed.\<close>

fun completed :: "cli_command \<Rightarrow> (bytes \<times> document) list \<Rightarrow> bool" where
  "completed (Notarize_cmd args) docs \<longleftrightarrow>
     (\<exists>rest a s p. docs = rest @ [(path_join (na_out args) ''attestation.bin'', Binary_doc a),
       (path_join (na_out args) ''secrets.bin'', Binary_doc s), (path_join (na_out args) ''presentation.bin'', Binary_doc p)])"
| "completed (Register_cmd args) docs \<longleftrightarrow>
     (\<exists>rec1. docs = [(path_join (ra_out args) ''record.json'', Register_doc rec1)] \<and>
       gr_outcome rec1 = (if ra_no_submit args then Out_signed else Out_registered))"
| "completed (Apply_cmd args) docs \<longleftrightarrow>
     (\<exists>rec1. docs = [(path_join (pa_out (aa_session args)) ''record.json'', Apply_doc rec1)] \<and>
       ph_outcome rec1 = (if pa_no_submit (aa_session args) then Ph_signed else Ph_included))"
| "completed (Settle_cmd args) docs \<longleftrightarrow>
     (\<exists>rec1. docs = [(path_join (pa_out (ta_session args)) ''record.json'', Settle_doc rec1)] \<and>
       ph_outcome rec1 = (if pa_no_submit (ta_session args) then Ph_signed else Ph_included))"
| "completed (Submit_cmd args) docs \<longleftrightarrow> (\<exists>h n t g e. docs = [(ba_out args, Registered_doc (Included h n t g e))])"
| "completed (Submit_apply_cmd args) docs \<longleftrightarrow> (\<exists>h n t g e. docs = [(ba_out args, Applied_doc (Included h n t g e))])"
| "completed (Engage_cmd args) docs \<longleftrightarrow> (\<exists>h n t g e. docs = [(ea_out args, Engaged_doc (Included h n t g e))])"
| "completed (Submit_settle_cmd args) docs \<longleftrightarrow> (\<exists>h n t g e. docs = [(ba_out args, Settled_doc (Included h n t g e))])"

definition exits_well where
  "exits_well c docs sent r \<longleftrightarrow>
     (r = Inr () \<longleftrightarrow> completed c docs) \<and> (r = Inr () \<longrightarrow> length sent = transactions_of c) \<and>
     length sent \<le> transactions_of c"

lemma run_command_cases:
  assumes "run_command conf go close = Some (docs, sent, x)"
  shows "(\<exists>f. conf = Inl f \<and> docs = [] \<and> sent = [] \<and> x = Inl f) \<or>
    (\<exists>cfg r. conf = Inr cfg \<and> go cfg = Some (sent, r) \<and> close cfg r = (docs, x))"
proof (cases conf)
  case (Inl f)
  then show ?thesis using assms by (simp add: run_command_def)
next
  case (Inr cfg)
  then obtain sent' r where "go cfg = Some (sent', r)" and "(case close cfg r of (docs, x) \<Rightarrow> (docs, sent', x)) = (docs, sent, x)"
    using assms by (auto simp: run_command_def)
  then show ?thesis using Inr by (cases "close cfg r") auto
qed

lemma config_submit:
  "register_config_of cl args = Inr cfg \<Longrightarrow> gc_submit cfg \<longleftrightarrow> \<not> ra_no_submit args"
  "apply_config_of cl aargs = Inr acfg \<Longrightarrow> yc_submit acfg \<longleftrightarrow> \<not> pa_no_submit (aa_session aargs)"
  "settle_config_of cl targs = Inr tcfg \<Longrightarrow> tc_submit tcfg \<longleftrightarrow> \<not> pa_no_submit (ta_session targs)"
  by (auto simp: register_config_of_def apply_config_of_def settle_config_of_def Let_def and_then_Inr_iff)

lemma register_record_sent:
  "register_record_ok cfg sent rec1 \<Longrightarrow> gr_outcome rec1 = (if gc_submit cfg then Out_registered else Out_signed) \<Longrightarrow>
    length sent = (if gc_submit cfg then 1 else 0)"
  by (auto simp: register_record_ok_def)

lemma phase_record_sent:
  "phase_record_ok send_it proof_from sent rec1 \<Longrightarrow> ph_outcome rec1 = (if send_it then Ph_included else Ph_signed) \<Longrightarrow>
    length sent = (if send_it then 1 else 0)"
  by (auto simp: phase_record_ok_def)

lemma register_exits_well:
  assumes "register_command cl w args = Some (docs, sent, x)"
  shows "exits_well (Register_cmd args) docs sent x"
  using run_command_cases [OF assms [unfolded register_command_def]]
proof (elim disjE exE conjE)
  fix cfg r
  assume conf: "register_config_of cl args = Inr cfg" and run: "run_register w cfg = Some (sent, r)"
    and fin: "finish_register_command cl (ra_out args) r (gc_submit cfg) = (docs, x)"
  note fin' = finish_register_command_iff [OF fin]
  show ?thesis using run_register_ok [OF run] fin' config_submit(1) [OF conf] register_record_sent [of cfg sent]
    by (auto simp: exits_well_def run_ok_def)
qed (simp add: exits_well_def)

lemma apply_exits_well:
  assumes "apply_command cl w args = Some (docs, sent, x)"
  shows "exits_well (Apply_cmd args) docs sent x"
  using run_command_cases [OF assms [unfolded apply_command_def]]
proof (elim disjE exE conjE)
  fix cfg r
  assume conf: "apply_config_of cl args = Inr cfg" and run: "run_apply w cfg = Some (sent, r)"
    and fin: "finish_phase_command cl (pa_out (aa_session args)) Apply_doc r (yc_submit cfg) = (docs, x)"
  have inj: "\<And>a b. Apply_doc a = Apply_doc b \<Longrightarrow> a = b" "\<And>a b. Apply_doc a \<noteq> Error_doc b" by simp_all
  note fin' = finish_phase_command_iff [OF fin inj]
  show ?thesis using run_apply_ok [OF run] fin' config_submit(2) [OF conf] phase_record_sent [of "yc_submit cfg" "yc_proof_from cfg" sent]
    by (auto simp: exits_well_def run_ok_def)
qed (simp add: exits_well_def)

lemma settle_exits_well:
  assumes "settle_command cl w args = Some (docs, sent, x)"
  shows "exits_well (Settle_cmd args) docs sent x"
  using run_command_cases [OF assms [unfolded settle_command_def]]
proof (elim disjE exE conjE)
  fix cfg r
  assume conf: "settle_config_of cl args = Inr cfg" and run: "run_settle w cfg = Some (sent, r)"
    and fin: "finish_phase_command cl (pa_out (ta_session args)) Settle_doc r (tc_submit cfg) = (docs, x)"
  have inj: "\<And>a b. Settle_doc a = Settle_doc b \<Longrightarrow> a = b" "\<And>a b. Settle_doc a \<noteq> Error_doc b" by simp_all
  note fin' = finish_phase_command_iff [OF fin inj]
  show ?thesis using run_settle_ok [OF run] fin' config_submit(3) [OF conf] phase_record_sent [of "tc_submit cfg" "tc_proof_from cfg" sent]
    by (auto simp: exits_well_def run_ok_def)
qed (simp add: exits_well_def)

definition one_transaction :: "tx_request list \<times> 'a run \<Rightarrow> bool" where
  "one_transaction go \<longleftrightarrow> length (fst go) \<le> 1 \<and> (\<forall>y. snd go = Inr y \<longrightarrow> length (fst go) = 1)"

lemma one_transaction_phase:
  "one_transaction (submit_phase abi node url sk chain_id contract amount calldata into_event name)"
  using submit_phase_cases [of abi node url sk chain_id contract amount calldata into_event name]
  by (cases "submit_phase abi node url sk chain_id contract amount calldata into_event name")
    (auto simp: one_transaction_def)

lemma one_transaction_submissions:
  "one_transaction (submit_register_tx abi node url sk rp)" "one_transaction (submit_apply_tx abi node url sk ap)"
  "one_transaction (submit_settle_tx abi node url sk sp)" "one_transaction (submit_engage_tx abi node url sk contract tx_id app_id)"
proof -
  show "one_transaction (submit_engage_tx abi node url sk contract tx_id app_id)"
    using one_transaction_phase
    by (cases "chain_id_of node url") (simp_all add: submit_engage_tx_def, simp add: one_transaction_def)
qed (simp_all add: submit_register_tx_def submit_apply_tx_def submit_settle_tx_def one_transaction_phase)

definition prepares_one :: "(tx_request list \<times> 'a run) run \<Rightarrow> bool" where
  "prepares_one prepared \<longleftrightarrow> (case prepared of Inl _ \<Rightarrow> True | Inr go \<Rightarrow> one_transaction go)"

lemma prepares_one_and_then: "(\<And>x. prepares_one (f x)) \<Longrightarrow> prepares_one (and_then r f)"
  by (cases r) (simp_all add: prepares_one_def)

lemma prepares_one_Inr: "one_transaction go \<Longrightarrow> prepares_one (Inr go)"
  by (simp add: prepares_one_def)

lemmas prepares_one_rules = prepares_one_and_then prepares_one_Inr one_transaction_submissions

lemma submit_exits_well:
  assumes "submit_command cl out doc prepared = (docs, sent, x)" and "\<And>a b. doc a = doc b \<Longrightarrow> a = b"
    and "prepares_one prepared"
  shows "(x = Inr () \<longleftrightarrow> (\<exists>h n t g e. docs = [(out, doc (Included h n t g e))])) \<and>
    (x = Inr () \<longrightarrow> length sent = 1) \<and> length sent \<le> 1"
proof -
  have one: "prepared = Inr go \<Longrightarrow> one_transaction go" for go using assms(3) by (simp add: prepares_one_def)
  have "length sent \<le> 1"
    using assms(1) one
    by (fastforce simp: submit_command_def one_transaction_def split: sum.split_asm prod.split_asm)
  moreover have "prepared = Inr (sent, Inr oc) \<Longrightarrow> length sent = 1" for oc
    using one by (fastforce simp: one_transaction_def)
  moreover note submit_command_iff [OF assms(1,2)]
  ultimately show ?thesis by metis
qed

lemma write_report_docs:
  "write_report cl report doc = (docs, r) \<Longrightarrow> \<forall>(file, d) \<in> set docs. d = doc"
  by (auto simp: write_report_def write_then_def split: option.splits sum.splits)

lemma write_binaries_docs:
  "write_binaries cl fs = (docs, r) \<Longrightarrow>
    (r = Inr () \<longleftrightarrow> length docs = length fs) \<and> map fst docs = take (length docs) (map fst fs) \<and>
    (\<forall>(file, d) \<in> set docs. \<exists>b. d = Binary_doc b)"
proof (induction cl fs arbitrary: docs r rule: write_binaries.induct)
  case (2 cl f bs fs)
  then show ?case by (cases "and_then bs (cl_write cl f)") (auto split: prod.split_asm)
qed simp

definition notarized_files :: "bytes \<Rightarrow> bytes list" where
  "notarized_files out = [path_join out ''attestation.bin'', path_join out ''secrets.bin'', path_join out ''presentation.bin'']"

lemma write_notarized_docs:
  assumes "write_notarized cl w out nz = (docs, r)"
  shows "(r = Inr () \<longleftrightarrow> length docs = 3) \<and> map fst docs = take (length docs) (notarized_files out) \<and>
    (\<forall>(file, d) \<in> set docs. \<exists>b. d = Binary_doc b)"
proof (cases "\<exists>p. present (od_ops w) nz False = Inr p \<and> cl_create_dir cl out = Inr ()")
  case True
  then obtain p where "write_binaries cl
      [(path_join out ''attestation.bin'', cl_attestation_bytes cl (nz_attestation nz)),
       (path_join out ''secrets.bin'', cl_secrets_bytes cl (nz_secrets nz)),
       (path_join out ''presentation.bin'', cl_presentation_bytes cl p)] = (docs, r)"
    using assms by (auto simp: write_notarized_def)
  from write_binaries_docs [OF this] show ?thesis by (simp add: notarized_files_def numeral_3_eq_3)
next
  case False
  then show ?thesis using assms by (auto simp: write_notarized_def split: sum.split_asm)
qed

lemma three_binaries:
  assumes "map fst docs = take (length docs) (notarized_files out)" and "\<forall>(file, d) \<in> set docs. \<exists>b. d = Binary_doc b"
    and "\<forall>(file, d) \<in> set rest. \<forall>b. d \<noteq> Binary_doc b"
  shows "length docs = 3 \<longleftrightarrow> (\<exists>rest' a s p. rest @ docs = rest' @ [(path_join out ''attestation.bin'', Binary_doc a),
    (path_join out ''secrets.bin'', Binary_doc s), (path_join out ''presentation.bin'', Binary_doc p)])"
proof
  assume "length docs = 3"
  then obtain d1 d2 d3 where "docs = [d1, d2, d3]" by (auto simp: numeral_3_eq_3 length_Suc_conv)
  then show "\<exists>rest' a s p. rest @ docs = rest' @ [(path_join out ''attestation.bin'', Binary_doc a),
    (path_join out ''secrets.bin'', Binary_doc s), (path_join out ''presentation.bin'', Binary_doc p)]"
    using assms(1,2) by (cases d1; cases d2; cases d3) (auto simp: notarized_files_def)
next
  assume "\<exists>rest' a s p. rest @ docs = rest' @ [(path_join out ''attestation.bin'', Binary_doc a),
    (path_join out ''secrets.bin'', Binary_doc s), (path_join out ''presentation.bin'', Binary_doc p)]"
  then obtain rest' a s p where eq: "rest @ docs = rest' @ [(path_join out ''attestation.bin'', Binary_doc a),
    (path_join out ''secrets.bin'', Binary_doc s), (path_join out ''presentation.bin'', Binary_doc p)]" by blast
  have "length docs \<le> 3" using arg_cong [OF assms(1), of length] by (simp add: notarized_files_def)
  moreover have "\<not> length docs < 3"
  proof
    assume "length docs < 3"
    then have "length rest' < length rest" using arg_cong [OF eq, of length] by simp
    then have "rest ! length rest' = (path_join out ''attestation.bin'', Binary_doc a)"
      using arg_cong [OF eq, of "\<lambda>xs. xs ! length rest'"] by (simp add: nth_append)
    with \<open>length rest' < length rest\<close> have "(path_join out ''attestation.bin'', Binary_doc a) \<in> set rest"
      by (metis nth_mem)
    with assms(3) show False by fastforce
  qed
  ultimately show "length docs = 3" by simp
qed

lemma not_binary: "\<forall>(file, d) \<in> set docs. d = doc \<Longrightarrow> \<forall>b. doc \<noteq> Binary_doc b \<Longrightarrow> \<forall>(file, d) \<in> set docs. \<forall>b. d \<noteq> Binary_doc b"
  by fastforce

lemma finish_notarize_iff:
  assumes "finish_notarize cl w args r = (docs, x)"
  shows "x = Inr () \<longleftrightarrow> completed (Notarize_cmd args) docs"
proof (cases r)
  case (Inl f)
  have "x \<noteq> Inr () \<and> (\<forall>(file, d) \<in> set docs. \<forall>b. d \<noteq> Binary_doc b)"
  proof (cases f)
    case (Failed e)
    obtain ds y where rep: "write_report cl (na_report args) (Failed_report (chain_text e)) = (ds, y)" by fastforce
    from not_binary [OF write_report_docs [OF rep]] show ?thesis
      using assms Inl Failed rep by (auto simp: finish_notarize_def split: sum.split_asm)
  qed (use assms Inl in \<open>auto simp: finish_notarize_def\<close>)
  then show ?thesis by (auto simp: case_prod_unfold)
next
  case (Inr y)
  obtain nz stats where y: "y = (nz, stats)" by fastforce
  obtain ds z where rep: "write_report cl (na_report args) (Attested_report (attempts stats) (stalls stats)) = (ds, z)" by fastforce
  have nb: "\<forall>(file, d) \<in> set ds. \<forall>b. d \<noteq> Binary_doc b" using not_binary [OF write_report_docs [OF rep]] by simp
  obtain files r' where nf: "write_notarized cl w (na_out args) nz = (files, r')" by fastforce
  note n = write_notarized_docs [OF nf]
  show ?thesis
  proof (cases z)
    case (Inl f)
    then have "docs = ds" "x \<noteq> Inr ()" using assms Inr y rep by (auto simp: finish_notarize_def)
    then show ?thesis using nb by (auto simp: case_prod_unfold)
  next
    case (Inr u)
    then have "docs = ds @ files" "x = r'" using assms \<open>r = Inr y\<close> y rep nf by (auto simp: finish_notarize_def)
    then show ?thesis using three_binaries [OF _ _ nb, of files "na_out args"] n by simp
  qed
qed

lemma notarize_exits_well:
  assumes "notarize_command cl w args = Some (docs, sent, x)"
  shows "exits_well (Notarize_cmd args) docs sent x"
proof (cases "notarize_setup cl w args")
  case (Inl f)
  then show ?thesis using assms by (auto simp: notarize_command_def exits_well_def)
next
  case (Inr s)
  then obtain r where "notarize_with_retries (od_connect w) (od_races w) s (sa_max_retries (na_session args)) = Some r"
    "(case finish_notarize cl w args r of (docs, x) \<Rightarrow> (docs, [], x)) = (docs, sent, x)"
    using assms by (auto simp: notarize_command_def)
  then show ?thesis using finish_notarize_iff [of cl w args r]
    by (cases "finish_notarize cl w args r") (auto simp: exits_well_def)
qed

text \<open>C19: The exit status of every command is what its documents say: a command ends without an error exactly when the
  last thing that it wrote is the record of a completed phase (\<open>Registered\<close> or \<open>Included\<close>, or \<open>Signed\<close> under
  \<open>--no-submit\<close>), of an included transaction, or the three files of a notarisation. A completed phase sent exactly
  one transaction, a completed run under \<open>--no-submit\<close> or of \<open>notarize\<close> none, and no command ever sends more.\<close>

theorem exit_status_tells_outcome:
  assumes "main_command cl w c = Some (docs, sent, r)"
  shows "(r = Inr () \<longleftrightarrow> completed c docs) \<and> (r = Inr () \<longrightarrow> length sent = transactions_of c) \<and>
    length sent \<le> transactions_of c"
proof -
  have inj: "\<And>a b. Registered_doc a = Registered_doc b \<Longrightarrow> a = b" "\<And>a b. Applied_doc a = Applied_doc b \<Longrightarrow> a = b"
    "\<And>a b. Engaged_doc a = Engaged_doc b \<Longrightarrow> a = b" "\<And>a b. Settled_doc a = Settled_doc b \<Longrightarrow> a = b" by simp_all
  have "exits_well c docs sent r"
  proof (cases c)
    case (Submit_cmd args)
    then have "submit_register_command cl (od_abi w) (od_node w) args = (docs, sent, r)" using assms by simp
    from submit_exits_well [OF this [unfolded submit_register_command_def] inj(1)] show ?thesis
      by (simp add: exits_well_def Submit_cmd prepares_one_rules)
  next
    case (Submit_apply_cmd args)
    then have "submit_apply_command cl (od_abi w) (od_node w) args = (docs, sent, r)" using assms by simp
    from submit_exits_well [OF this [unfolded submit_apply_command_def] inj(2)] show ?thesis
      by (simp add: exits_well_def Submit_apply_cmd prepares_one_rules)
  next
    case (Engage_cmd args)
    then have "engage_command cl (od_abi w) (od_node w) args = (docs, sent, r)" using assms by simp
    from submit_exits_well [OF this [unfolded engage_command_def] inj(3)] show ?thesis
      by (simp add: exits_well_def Engage_cmd prepares_one_rules)
  next
    case (Submit_settle_cmd args)
    then have "submit_settle_command cl (od_abi w) (od_node w) args = (docs, sent, r)" using assms by simp
    from submit_exits_well [OF this [unfolded submit_settle_command_def] inj(4)] show ?thesis
      by (simp add: exits_well_def Submit_settle_cmd prepares_one_rules)
  qed (use assms notarize_exits_well register_exits_well apply_exits_well settle_exits_well in simp_all)
  then show ?thesis by (simp add: exits_well_def)
qed

end
