(* ===== verification/Handover.thy ===== *)
theory Handover
  imports Command_Reports
begin

section \<open>From one phase to the next\<close>

text \<open>
  The phases of \<open>pprev-prover\<close> are separate runs of the program: \<open>apply\<close> and \<open>settle\<close> read the listing from the
  record that \<open>register\<close> wrote, and \<open>settle\<close> the opening of c_B from the record of \<open>apply\<close>. Given a file system
  that keeps what was written and a JSON codec that reads it back, the statements of the later phases are about
  the listing that was registered, and the opening that \<open>settle\<close> checks is the one that \<open>apply\<close> committed to.
\<close>

subsection \<open>What the records of a run hold\<close>

lemma register_submit_payload:
  assumes "register_submit w cfg rec2 p = (sent, Inr rec1)"
  shows "gr_c_tx rec1 = gr_c_tx rec2 \<and> gr_payload rec1 = Some p"
proof (cases "lift_lib (od_write_payload w (path_join (gc_out cfg) ''payload.json'') (Payload_r p)) = Inr () \<and> gc_submit cfg")
  case False
  then show ?thesis using assms by (auto simp: register_submit_def finish_register_def split: sum.splits if_splits)
next
  case True
  obtain sent' r where st: "submit_register_tx (od_abi w) (od_node w) (gc_rpc_url cfg) (gc_key cfg) p = (sent', r)" by fastforce
  show ?thesis using assms True st
    by (cases r) (auto simp: register_submit_def finish_register_def Let_def split: submit_outcome.splits)
qed

lemma phase_submit_payload:
  assumes "phase_submit w out pl send_it go rec2 p = (sent, Inr rec1)"
  shows "ph_payload rec1 = Some p"
proof (cases "lift_lib (od_write_payload w (path_join out ''payload.json'') (pl p)) = Inr () \<and> send_it")
  case False
  then show ?thesis using assms by (auto simp: phase_submit_def finish_phase_def split: sum.splits if_splits)
next
  case True
  obtain sent' r where st: "go p = (sent', r)" by fastforce
  show ?thesis using assms True st
    by (cases r) (auto simp: phase_submit_def finish_phase_def Let_def split: submit_outcome.splits)
qed

lemma register_after_session_payload:
  assumes after: "register_after_session w cfg chain_id x openings presentation stats = (sent, Inr rec1)"
    and p: "gr_payload rec1 = Some p"
  shows "gr_c_tx rec1 = reg_c_tx x \<and> (\<exists>sigma. p = register_payload_of w cfg chain_id x sigma)"
proof -
  let ?public = "public_of (od_sha256 w) openings (tx_property_id (reg_tx_data x))
    (digest (od_eip712 w) (Register_stmt x) (domain_of chain_id (gc_contract cfg)))"
  let ?proof = "register_proof w cfg (register_record_of cfg x stats) ?public openings"
  have start: "gr_c_tx (register_record_of cfg x stats) = reg_c_tx x" "gr_payload (register_record_of cfg x stats) = None"
    by (simp_all add: register_record_of_def)
  have "gr_payload rec2 = None" if "?proof = Inr (Inl rec2)" for rec2
    using register_proof_cases [OF that] start by (auto simp: finish_register_def)
  then obtain rec2 json rep where proved: "?proof = Inr (Inr (rec2, json))"
    and r: "(case rep of Refused reason \<Rightarrow> ([], Inr (finish_register rec2 Out_refused (Some reason)))
      | Signed sigma \<Rightarrow> register_submit w cfg rec2 (register_payload_of w cfg chain_id x sigma)) = (sent, Inr rec1)"
    using after p unfolding register_after_session_def Let_def by (auto split: sum.split_asm prod.split_asm)
  have "gr_c_tx rec2 = reg_c_tx x \<and> gr_payload rec2 = None"
    using proved start by (auto simp: register_proof_def and_then_Inr_iff Let_def split: sum.split_asm option.split_asm)
  then show ?thesis using r p by (cases rep) (auto simp: finish_register_def dest!: register_submit_payload)
qed

lemma register_record_binds:
  assumes "run_register w cfg = Some (sent, Inr rec1)" and "gr_payload rec1 = Some p"
  shows "gr_c_tx rec1 = commitment (od_keccak w) (od_abi_encode w) (register_tx_data p)
      (policy_id_r (od_keccak w) (gc_policy cfg)) (rpl_r p) \<and>
    property_id_word (gc_layout cfg) (gc_property cfg) = Inr (rpl_property_id p) \<and> rpl_amount p = gc_amount cfg \<and>
    rpl_settlement_share p = gc_settlement_share cfg \<and> rpl_r p = od_random_r w"
  using run_register_cases [OF assms(1)]
proof (elim disjE exE conjE)
  fix chain_id eta t_att x openings presentation stats
  assume x: "register_statement w cfg eta t_att = Inr x"
    and after: "register_after_session w cfg chain_id x openings presentation stats = (sent, Inr rec1)"
  from register_after_session_payload [OF after assms(2)] x show ?thesis
    by (auto simp: register_payload_of_def register_tx_data_def register_statement_def and_then_Inr_iff Let_def)
qed simp

lemma phase_prove_sign_payload:
  assumes after: "phase_prove_sign w files input out proof_from predicate verifier sub rec1
      (\<lambda>rec2 sigma. phase_submit w out pl send_it go rec2 (mk sigma)) = (sent, Inr rec2)"
    and start: "ph_payload rec1 = None" and p: "ph_payload rec2 = Some p"
  shows "\<exists>sigma. p = mk sigma"
proof -
  let ?proof = "prove_or_borrow w files input out proof_from predicate rec1"
  note after = after [unfolded phase_prove_sign_def]
  consider (failed) f where "?proof = Inl f"
    | (ended) rec3 where "?proof = Inr (rec3, None)"
    | (lost) rec3 json f where "?proof = Inr (rec3, Some json)" "sign_step w verifier (sub json) rec3 = Inl f"
    | (refused) rec3 rec4 json where "?proof = Inr (rec3, Some json)" "sign_step w verifier (sub json) rec3 = Inr (rec4, None)"
    | (signed) rec3 rec4 json sigma where "?proof = Inr (rec3, Some json)"
        "sign_step w verifier (sub json) rec3 = Inr (rec4, Some sigma)"
    by (metis option.exhaust sum.exhaust surj_pair)
  then show ?thesis
  proof cases
    case ended
    then show ?thesis using after p prove_or_borrow_cases [OF ended] start by (auto simp: finish_phase_def)
  next
    case refused
    then show ?thesis using after p prove_or_borrow_cases [OF refused(1)] sign_step_cases [OF refused(2)] start
      by (auto simp: finish_phase_def)
  next
    case signed
    then have "phase_submit w out pl send_it go rec4 (mk sigma) = (sent, Inr rec2)" using after by simp
    from phase_submit_payload [OF this] p show ?thesis by auto
  qed (use after in auto)
qed

lemma apply_record_opens:
  assumes "run_apply w cfg = Some (sent, Inr rec1)" and "ph_payload rec1 = Some p"
  shows "pad (yc_layout cfg) (case yc_identifier cfg of Some i \<Rightarrow> i | None \<Rightarrow> sc_account (yc_session cfg))
      (account_width (yc_layout cfg)) = Inr (apl_identifier p) \<and> apl_salt p = fresh_salt (od_random_salt w) \<and>
    counterparty_commitment BN254_R (od_poseidon w) (apl_identifier p) (apl_salt p) = Inr (apl_c_b p)"
  using run_apply_cases [OF assms(1)]
proof (elim disjE exE conjE)
  fix chain_id eta sh ses
  assume "attest w (yc_session cfg) sh = Some (Inr ses)"
    and after: "apply_after_session w cfg chain_id eta (fresh_salt (od_random_salt w)) ses = (sent, Inr rec1)"
  let ?salt = "fresh_salt (od_random_salt w)"
  let ?prep = "and_then (lift_res (pad (yc_layout cfg) (case yc_identifier cfg of Some i \<Rightarrow> i | None \<Rightarrow> sc_account (yc_session cfg))
       (account_width (yc_layout cfg)))) (\<lambda>identifier.
     and_then (lift_res (counterparty_commitment BN254_R (od_poseidon w) identifier ?salt)) (\<lambda>c_b.
     let x = apply_statement w cfg c_b eta (as_att_time ses);
         d = digest (od_eip712 w) (Apply_stmt x) (domain_of chain_id (yc_contract cfg)) in
     case ns_openings (as_notarized ses) of
       [oa, oi] \<Rightarrow>
         and_then (lift_res (phi_a_new (opening_commitment (od_sha256 w) oa) (opening_commitment (od_sha256 w) oi) c_b
           (tx_amount (app_tx_data x)) d)) (\<lambda>public.
         and_then (lift_res (phi_a_input_new public (ns_openings (as_notarized ses)) ?salt)) (\<lambda>inp.
         Inr (identifier, x, public, inp)))
     | _ \<Rightarrow> fails ''the eligibility layout has two hidden fields''))"
  show ?thesis
  proof (cases ?prep)
    case (Inl f)
    then show ?thesis using after unfolding apply_after_session_def Let_def by auto
  next
    case (Inr y)
    obtain ident x public inp where y: "y = (ident, x, public, inp)" by (cases y) auto
    from Inr obtain c_b where pre: "pad (yc_layout cfg)
          (case yc_identifier cfg of Some i \<Rightarrow> i | None \<Rightarrow> sc_account (yc_session cfg)) (account_width (yc_layout cfg)) = Inr ident"
        "counterparty_commitment BN254_R (od_poseidon w) ident ?salt = Inr c_b"
      and x: "x = apply_statement w cfg c_b eta (as_att_time ses)"
      unfolding y by (auto simp: and_then_Inr_iff two_openings_iff Let_def)
    have "phase_prove_sign w (yc_circuits cfg) (In_a inp) (yc_out cfg) (yc_proof_from cfg) ''phi_A''
        (sc_verifier (yc_session cfg))
        (\<lambda>json. Sub_apply (apply_submission_new (od_codec w) (as_presentation ses) x json))
        (new_phase_record ''apply'' (sc_account (yc_session cfg)) (app_submitter x) (app_policy_id x) eta (as_att_time ses)
          (phi_a_inputs public) (as_stats ses))
        (\<lambda>rec1 sigma. phase_submit w (yc_out cfg) Payload_a (yc_submit cfg)
          (submit_apply_tx (od_abi w) (od_node w) (yc_rpc_url cfg) (yc_key cfg)) rec1
          (apply_payload_of cfg chain_id x sigma ident ?salt)) = (sent, Inr rec1)"
      using after Inr unfolding apply_after_session_def y Let_def by simp
    from phase_prove_sign_payload [OF this _ assms(2)] obtain sigma where
      "p = apply_payload_of cfg chain_id x sigma ident ?salt" by (auto simp: new_phase_record_def)
    then show ?thesis using pre x by (simp add: apply_payload_of_def apply_statement_def Let_def)
  qed
qed simp

subsection \<open>Files between the runs\<close>

text \<open>The file system of the later command holds what the earlier one wrote.\<close>

definition keeps where
  "keeps cl docs cl' \<longleftrightarrow>
     (\<forall>(file, doc) \<in> set docs. \<forall>text. cl_pretty cl doc = Inr text \<longrightarrow> cl_read_text cl' file = Inr (text @ [LF]))"

text \<open>serde_json reads back the fields that it wrote.\<close>

definition reads_register_record where
  "reads_register_record cl text rec1 \<longleftrightarrow>
     (\<forall>p h n t g e. gr_payload rec1 = Some p \<and> gr_submission rec1 = Some (Included h n t g e) \<longrightarrow>
       (\<exists>v. cl_json cl text = Inr v \<and>
         json_field cl (cl_u256 cl) v ''/submission/event/txId'' = Inr (re_tx_id e) \<and>
         json_field cl (cl_b256 cl) v ''/payload/propertyId'' = Inr (rpl_property_id p) \<and>
         json_field cl (cl_u256 cl) v ''/payload/amount'' = Inr (rpl_amount p) \<and>
         json_field cl (cl_u256 cl) v ''/payload/settlementShare'' = Inr (rpl_settlement_share p) \<and>
         json_field cl (cl_b256 cl) v ''/payload/r'' = Inr (rpl_r p)))"

definition reads_apply_record where
  "reads_apply_record cl text rec1 \<longleftrightarrow>
     (\<forall>p. ph_payload rec1 = Some p \<longrightarrow>
       (\<exists>v. cl_json cl text = Inr v \<and>
         json_field cl (cl_b256 cl) v ''/payload/cB'' = Inr (apl_c_b p) \<and>
         json_field cl Inr v ''/payload/identifier'' = Inr (apl_identifier p) \<and>
         json_field cl (cl_b256 cl) v ''/payload/salt'' = Inr (apl_salt p)))"

lemma write_then_written:
  "write_then cl file doc r = (docs, Inr ()) \<Longrightarrow> docs = [(file, doc)] \<and> (\<exists>text. cl_pretty cl doc = Inr text)"
  by (auto simp: write_then_def write_json_def and_then_Inr_iff split: sum.splits)

lemma read_json_kept:
  assumes "keeps cl docs cl'" and "(file, doc) \<in> set docs" and "cl_pretty cl doc = Inr text" and "cl_json cl' (text @ [LF]) = Inr v"
  shows "read_json cl' file = Inr v"
  using assms by (fastforce simp: keeps_def read_json_def lift_res_def)

text \<open>C17: The listing that a completed \<open>register\<close> recorded is the listing of the later phases: read from its record, it
  has the transaction identifier of the event and the txData that was registered, and the statements of Apply and
  of Settle made from it name the same commitment C_tx that the Register statement named, under the same policy.\<close>

theorem listing_is_handed_over:
  assumes completed_run: "register_command cl w args = Some (docs, sent, Inr ())" and submitted: "\<not> ra_no_submit args"
    and policy: "bundle_of cl (ra_policy args) = Inr policy"
    and kept: "keeps cl docs cl'"
    and reads: "\<forall>rec1 text. Register_doc rec1 \<in> snd ` set docs \<and> cl_pretty cl (Register_doc rec1) = Inr text \<longrightarrow>
      reads_register_record cl' (text @ [LF]) rec1"
  shows "\<exists>rec1 h n t g e li. docs = [(path_join (ra_out args) ''record.json'', Register_doc rec1)] \<and>
    gr_submission rec1 = Some (Included h n t g e) \<and>
    listing_of cl' (path_join (ra_out args) ''record.json'') = Inr li \<and>
    li_tx_id li = re_tx_id e \<and> tx_amount (li_tx_data li) = ra_amount_wei args \<and>
    tx_settlement_share (li_tx_data li) = ra_settlement_share_bps args \<and>
    (\<forall>cfg c_b eta t_att. yc_listing cfg = li \<longrightarrow> yc_policy cfg = policy \<longrightarrow>
       app_c_tx (apply_statement w cfg c_b eta t_att) = gr_c_tx rec1) \<and>
    (\<forall>cfg eta t_att. tc_listing cfg = li \<longrightarrow> tc_policy cfg = policy \<longrightarrow>
       set_c_tx (settle_statement w cfg eta t_att) = gr_c_tx rec1)"
proof -
  from run_command_cases [OF completed_run [unfolded register_command_def]] obtain cfg r
    where conf: "register_config_of cl args = Inr cfg" and run: "run_register w cfg = Some (sent, r)"
      and fin: "finish_register_command cl (ra_out args) r (gc_submit cfg) = (docs, Inr ())" by auto
  have cfg: "gc_policy cfg = policy" "gc_amount cfg = ra_amount_wei args" "gc_settlement_share cfg = ra_settlement_share_bps args"
    "gc_submit cfg" using conf policy submitted by (auto simp: register_config_of_def Let_def and_then_Inr_iff)
  from finish_register_command_iff(1) [OF fin] cfg(4) obtain rec1 where r: "r = Inr rec1"
    and docs: "docs = [(path_join (ra_out args) ''record.json'', Register_doc rec1)]"
    and outcome: "gr_outcome rec1 = Out_registered" by auto
  from run_register_ok [OF run] r outcome obtain p h n t g e
    where p: "gr_payload rec1 = Some p" and sub: "gr_submission rec1 = Some (Included h n t g e)"
    by (auto simp: run_ok_def register_record_ok_def)
  from fin r obtain jtext where jtext: "cl_pretty cl (Register_doc rec1) = Inr jtext"
    by (auto simp: finish_register_command_def dest: write_then_written)
  note binds = register_record_binds [OF run [unfolded r] p]
  from reads docs jtext p sub obtain v
    where v: "cl_json cl' (jtext @ [LF]) = Inr v"
      "json_field cl' (cl_u256 cl') v ''/submission/event/txId'' = Inr (re_tx_id e)"
      "json_field cl' (cl_b256 cl') v ''/payload/propertyId'' = Inr (rpl_property_id p)"
      "json_field cl' (cl_u256 cl') v ''/payload/amount'' = Inr (rpl_amount p)"
      "json_field cl' (cl_u256 cl') v ''/payload/settlementShare'' = Inr (rpl_settlement_share p)"
      "json_field cl' (cl_b256 cl') v ''/payload/r'' = Inr (rpl_r p)"
    unfolding reads_register_record_def by fastforce
  have "read_json cl' (path_join (ra_out args) ''record.json'') = Inr v"
    using read_json_kept [OF kept _ jtext v(1)] docs by simp
  then have "listing_of cl' (path_join (ra_out args) ''record.json'') =
      Inr \<lparr>li_tx_id = re_tx_id e, li_tx_data = register_tx_data p, li_r = rpl_r p\<rparr>"
    using v(2-6) by (simp add: listing_of_def register_tx_data_def)
  then show ?thesis
    using docs sub binds cfg(1-3)
    by (auto simp: apply_statement_def settle_statement_def register_tx_data_def Let_def)
qed

text \<open>C18: The opening of c_B that \<open>apply\<close> recorded is the one that \<open>settle\<close> is configured with, and it opens the c_B
  of the application: the check of Settle that the opening opens c_B succeeds for every such configuration.\<close>

theorem opening_is_handed_over:
  assumes completed_run: "apply_command cl w args = Some (docs, sent, Inr ())"
    and kept: "keeps cl docs cl'"
    and reads: "\<forall>rec1 text. Apply_doc rec1 \<in> snd ` set docs \<and> cl_pretty cl (Apply_doc rec1) = Inr text \<longrightarrow>
      reads_apply_record cl' (text @ [LF]) rec1"
    and conf: "settle_config_of cl' targs = Inr tcfg"
    and same_file: "ta_application targs = path_join (pa_out (aa_session args)) ''record.json''"
  shows "counterparty_commitment BN254_R (od_poseidon w) (tc_identifier tcfg) (tc_salt tcfg) = Inr (tc_c_b tcfg)"
proof -
  from run_command_cases [OF completed_run [unfolded apply_command_def]] obtain cfg r
    where "apply_config_of cl args = Inr cfg" and run: "run_apply w cfg = Some (sent, r)"
      and fin: "finish_phase_command cl (pa_out (aa_session args)) Apply_doc r (yc_submit cfg) = (docs, Inr ())" by auto
  have inj: "\<And>a b. Apply_doc a = Apply_doc b \<Longrightarrow> a = b" "\<And>a b. Apply_doc a \<noteq> Error_doc b" by simp_all
  from finish_phase_command_iff(1) [OF fin inj] obtain rec1 where r: "r = Inr rec1"
    and docs: "docs = [(path_join (pa_out (aa_session args)) ''record.json'', Apply_doc rec1)]"
    and outcome: "ph_outcome rec1 = (if yc_submit cfg then Ph_included else Ph_signed)" by auto
  from run_apply_ok [OF run] r outcome obtain p where p: "ph_payload rec1 = Some p"
    by (cases "yc_submit cfg") (auto simp: run_ok_def phase_record_ok_def)
  from fin r obtain jtext where jtext: "cl_pretty cl (Apply_doc rec1) = Inr jtext"
    by (auto simp: finish_phase_command_def dest: write_then_written)
  from reads docs jtext p obtain v
    where v: "cl_json cl' (jtext @ [LF]) = Inr v"
      "json_field cl' (cl_b256 cl') v ''/payload/cB'' = Inr (apl_c_b p)"
      "json_field cl' Inr v ''/payload/identifier'' = Inr (apl_identifier p)"
      "json_field cl' (cl_b256 cl') v ''/payload/salt'' = Inr (apl_salt p)"
    unfolding reads_apply_record_def by fastforce
  have "read_json cl' (ta_application targs) = Inr v"
    using read_json_kept [OF kept _ jtext v(1)] docs same_file by simp
  with conf v(2-4) have "tc_c_b tcfg = apl_c_b p" "tc_identifier tcfg = apl_identifier p" "tc_salt tcfg = apl_salt p"
    by (auto simp: settle_config_of_def Let_def and_then_Inr_iff)
  then show ?thesis using apply_record_opens [OF run [unfolded r] p] by auto
qed

subsection \<open>Sample commands\<close>

text \<open>A JSON value is a text; a pointer leads to itself, and the parsers give the values of the sample runs.\<close>

definition sample_cli :: "record_layout \<Rightarrow> (bytes, unit, nat, nat, range list indexed list) cli" where
  "sample_cli l =
     \<lparr>cl_read = (\<lambda>_. Inr ''ca''), cl_read_text = (\<lambda>_. Inr (''x'' @ [LF])), cl_create_dir = (\<lambda>_. Inr ()),
      cl_pretty = (\<lambda>_. Inr ''x''), cl_write = (\<lambda>_ _. Inr ()), cl_bundle = (\<lambda>_. Inr phase_policy),
      cl_layout = (\<lambda>_. Inr title_v1), cl_record_layout = (\<lambda>_. Inr l), cl_wei = (\<lambda>_. Inr 0),
      cl_json = (\<lambda>_. Inr []), cl_pointer = (\<lambda>_ p. Some p),
      cl_string = (\<lambda>v. if v = ''/payload/identifier'' then Some ''ACC-000000000001'' else Some v),
      cl_display = (\<lambda>v. v),
      cl_u256 = (\<lambda>v. Inr (if v = ''/payload/amount'' then 1000 else if v = ''/payload/settlementShare'' then 500
        else if v = ''/event/expiresAt'' then 1000000 else 1)),
      cl_b256 = (\<lambda>v. Inr (if v = ''/payload/propertyId'' then sample_word else if v = ''/payload/r'' then replicate 32 (CHR 0x08)
        else if v = ''/payload/cB'' then be_bytes 32 5 else replicate 32 (CHR 0x00))),
      cl_key = (\<lambda>_. Inr ()), cl_register_payload = (\<lambda>_. bail ''none''), cl_apply_payload = (\<lambda>_. bail ''none''),
      cl_settle_payload = (\<lambda>_. bail ''none''), cl_attestation_bytes = (\<lambda>_. Inr []), cl_secrets_bytes = (\<lambda>_. Inr []),
      cl_presentation_bytes = (\<lambda>_. Inr [])\<rparr>"

definition register_sample_args :: register_args where
  "register_sample_args =
     \<lparr>ra_session = \<lparr>sa_registry = ''r'', sa_ca = ''ca.der'', sa_account = ''ACC-000000000001'', sa_password = ''pw'',
        sa_property = ''TR-06-CANKAYA-000123'', sa_max_sent = 4096, sa_max_recv = 16384,
        sa_max_retries = DEFAULT_MAX_RETRIES, sa_preprocess_timeout_secs = 30\<rparr>,
      ra_verifier = ''v'', ra_policy = ''policy.json'', ra_root = [], ra_rpc_url = ''u'', ra_contract = replicate 20 (CHR 0x03),
      ra_key_file = ''k'', ra_amount_wei = 1000, ra_settlement_share_bps = 500, ra_collateral_wei = 77,
      ra_circuits = ''circuits'', ra_out = ''out'', ra_eta = None, ra_proof_from = None, ra_no_submit = False,
      ra_measure_rss = False\<rparr>"

definition phase_sample_args :: "bytes \<Rightarrow> phase_session_args" where
  "phase_sample_args out =
     \<lparr>pa_verifier = ''v'', pa_registry = ''r'', pa_ca = ''ca.der'', pa_account = ''ACC-000000000001'', pa_password = ''pw'',
      pa_max_sent = 4096, pa_max_recv = 16384, pa_max_retries = DEFAULT_MAX_RETRIES, pa_preprocess_timeout_secs = 30,
      pa_policy = ''policy.json'', pa_root = [], pa_rpc_url = ''u'', pa_contract = replicate 20 (CHR 0x03), pa_key_file = ''k'',
      pa_listing = ''out/record.json'', pa_circuits = ''circuits'', pa_out = out, pa_eta = None, pa_proof_from = None,
      pa_no_submit = False, pa_measure_rss = False\<rparr>"

definition apply_sample_args :: apply_args where
  "apply_sample_args = \<lparr>aa_session = phase_sample_args ''out'', aa_deposit_wei = 55, aa_identifier = None\<rparr>"

definition settle_sample_args :: settle_args where
  "settle_sample_args = \<lparr>ta_session = phase_sample_args ''settle'', ta_application = ''out/record.json'',
     ta_engagement = ''engaged.json'', ta_notation = ''N-1''\<rparr>"

lemma zero_digit: "is_ascii_digit (CHR ''0'')"
  by code_simp

lemma sample_bundle: "bundle_of (sample_cli l) file = Inr phase_policy"
  by (simp add: zero_digit bundle_of_def sample_cli_def load_bundle_def check_bundle_def phase_policy_def wei_def min_collateral_def
      max_collateral_def req_escrow_def ensure_def lift_res_def)

lemma sample_key: "read_private_key (sample_cli l) file = Inr ()"
  by (simp add: read_private_key_def sample_cli_def lift_res_def)

lemma sample_title: "load_layout (cl_read_text (sample_cli l)) (cl_layout (sample_cli l)) file = Inr title_v1"
  using valid_title_v1 by (simp add: load_layout_def sample_cli_def layout_from_json_def)

lemma sample_register_config: "register_config_of (sample_cli l) register_sample_args = Inr register_sample_config"
  by (simp add: register_config_of_def sample_bundle sample_key sample_title register_sample_args_def Let_def)
    (simp add: sample_cli_def lift_res_def register_sample_config_def path_join_def PROVER_PREPROCESS_TIMEOUT_def)

lemma sample_record_path: "path_join ''out'' ''record.json'' = ''out/record.json''"
  by (simp add: path_join_def)

lemma sample_finish_register:
  "gr_outcome rec1 = Out_registered \<Longrightarrow>
    finish_register_command (sample_cli l) (ra_out register_sample_args) (Inr rec1) (gc_submit register_sample_config) =
      ([(''out/record.json'', Register_doc rec1)], Inr ())"
  by (simp add: finish_register_command_def register_sample_args_def register_sample_config_def
      sample_record_path write_then_def write_json_def sample_cli_def)

lemma sample_register_command:
  "\<exists>rec1. register_command (sample_cli l) (phase_world 3 sample_registered) register_sample_args =
      Some ([(''out/record.json'', Register_doc rec1)],
        [\<lparr>tr_to = replicate 20 (CHR 0x03), tr_value = 77, tr_input = ''sigma''\<rparr>], Inr ()) \<and>
    run_register (phase_world 3 sample_registered) register_sample_config =
      Some ([\<lparr>tr_to = replicate 20 (CHR 0x03), tr_value = 77, tr_input = ''sigma''\<rparr>], Inr rec1) \<and>
    gr_submission rec1 = Some (Included ''h'' 9 1010 21000 (the (registered_of sample_registered)))"
proof -
  obtain rec1 where run: "run_register (phase_world 3 sample_registered) register_sample_config =
      Some ([\<lparr>tr_to = replicate 20 (CHR 0x03), tr_value = 77, tr_input = ''sigma''\<rparr>], Inr rec1)"
    and out: "gr_outcome rec1 = Out_registered"
    and sub: "gr_submission rec1 = Some (Included ''h'' 9 1010 21000 (the (registered_of sample_registered)))"
    using sample_register_run by blast
  have "register_command (sample_cli l) (phase_world 3 sample_registered) register_sample_args =
      Some ([(''out/record.json'', Register_doc rec1)],
        [\<lparr>tr_to = replicate 20 (CHR 0x03), tr_value = 77, tr_input = ''sigma''\<rparr>], Inr ())"
    by (simp add: register_command_def run_command_def sample_register_config run sample_finish_register out)
  with run sub show ?thesis by blast
qed

lemma sample_keeps: "keeps (sample_cli l) docs (sample_cli l')"
  by (auto simp: keeps_def sample_cli_def)

theorem exit_status_tells_outcome_witness:
  "\<exists>docs sent. main_command (sample_cli income_v1) (phase_world 3 sample_registered) (Register_cmd register_sample_args) =
      Some (docs, sent, Inr ()) \<and> completed (Register_cmd register_sample_args) docs \<and> length sent = 1"
proof -
  obtain docs sent where run: "main_command (sample_cli income_v1) (phase_world 3 sample_registered)
      (Register_cmd register_sample_args) = Some (docs, sent, Inr ())"
    using sample_register_command by fastforce
  from exit_status_tells_outcome [OF run] have "completed (Register_cmd register_sample_args) docs"
    and "length sent = transactions_of (Register_cmd register_sample_args)" by blast+
  with run show ?thesis by (auto simp: register_sample_args_def)
qed

lemma sample_reads_register:
  assumes "run_register (phase_world 3 sample_registered) register_sample_config = Some (sent, Inr rec1)"
    and "gr_submission rec1 = Some (Included ''h'' 9 1010 21000 (the (registered_of sample_registered)))"
  shows "reads_register_record (sample_cli l) txt1 rec1"
  unfolding reads_register_record_def
proof (intro allI impI, elim conjE)
  fix p h n t g e
  assume p: "gr_payload rec1 = Some p" and e: "gr_submission rec1 = Some (Included h n t g e)"
  have "rpl_property_id p = sample_word" "rpl_amount p = 1000" "rpl_settlement_share p = 500" "rpl_r p = replicate 32 (CHR 0x08)"
    using register_record_binds [OF assms(1) p] sample_word_eq by (auto simp: register_sample_config_def phase_world_def)
  moreover have "re_tx_id e = 1" using e assms(2) by auto
  ultimately show "\<exists>v. cl_json (sample_cli l) txt1 = Inr v \<and>
      json_field (sample_cli l) (cl_u256 (sample_cli l)) v ''/submission/event/txId'' = Inr (re_tx_id e) \<and>
      json_field (sample_cli l) (cl_b256 (sample_cli l)) v ''/payload/propertyId'' = Inr (rpl_property_id p) \<and>
      json_field (sample_cli l) (cl_u256 (sample_cli l)) v ''/payload/amount'' = Inr (rpl_amount p) \<and>
      json_field (sample_cli l) (cl_u256 (sample_cli l)) v ''/payload/settlementShare'' = Inr (rpl_settlement_share p) \<and>
      json_field (sample_cli l) (cl_b256 (sample_cli l)) v ''/payload/r'' = Inr (rpl_r p)"
    by (simp add: sample_cli_def json_field_def some_or_fail_def)
qed

theorem listing_is_handed_over_witness:
  "\<exists>rec1 li. register_command (sample_cli income_v1) (phase_world 3 sample_registered) register_sample_args =
      Some ([(''out/record.json'', Register_doc rec1)],
        [\<lparr>tr_to = replicate 20 (CHR 0x03), tr_value = 77, tr_input = ''sigma''\<rparr>], Inr ()) \<and>
    listing_of (sample_cli income_v1) ''out/record.json'' = Inr li \<and> tx_amount (li_tx_data li) = 1000 \<and>
    app_c_tx (apply_statement (phase_world 3 sample_registered) (apply_sample_config\<lparr>yc_listing := li\<rparr>) [] [] 0) = gr_c_tx rec1"
proof -
  obtain rec1 where cmd: "register_command (sample_cli income_v1) (phase_world 3 sample_registered) register_sample_args =
      Some ([(''out/record.json'', Register_doc rec1)],
        [\<lparr>tr_to = replicate 20 (CHR 0x03), tr_value = 77, tr_input = ''sigma''\<rparr>], Inr ())"
    and run: "run_register (phase_world 3 sample_registered) register_sample_config =
      Some ([\<lparr>tr_to = replicate 20 (CHR 0x03), tr_value = 77, tr_input = ''sigma''\<rparr>], Inr rec1)"
    and sub: "gr_submission rec1 = Some (Included ''h'' 9 1010 21000 (the (registered_of sample_registered)))"
    using sample_register_command by blast
  have args: "\<not> ra_no_submit register_sample_args" "ra_out register_sample_args = ''out''"
    "ra_amount_wei register_sample_args = 1000" by (simp_all add: register_sample_args_def)
  have reads: "\<forall>rec2 t. Register_doc rec2 \<in> snd ` set [(''out/record.json'', Register_doc rec1)] \<and> c rec2 t \<longrightarrow>
      reads_register_record (sample_cli income_v1) (t @ [LF]) rec2" for c
    by (simp add: sample_reads_register [OF run sub])
  have "yc_policy apply_sample_config = phase_policy" by (simp add: apply_sample_config_def)
  moreover from listing_is_handed_over [OF cmd args(1) sample_bundle sample_keeps reads, unfolded args(2,3) sample_record_path]
  obtain rec2 li where "[(''out/record.json'', Register_doc rec1)] = [(''out/record.json'', Register_doc rec2)]"
    and li: "listing_of (sample_cli income_v1) ''out/record.json'' = Inr li" "tx_amount (li_tx_data li) = 1000"
      "\<forall>cfg c_b eta t_att. yc_listing cfg = li \<longrightarrow> yc_policy cfg = phase_policy \<longrightarrow>
        app_c_tx (apply_statement (phase_world 3 sample_registered) (cfg :: unit apply_config) c_b eta t_att) = gr_c_tx rec2"
    by blast
  moreover from this(1) have "rec2 = rec1" by simp
  ultimately show ?thesis using cmd by (intro exI [of _ rec1] exI [of _ li]) simp
qed

subsubsection \<open>Apply, and the opening for Settle\<close>

lemma sample_income: "load_record_layout (cl_read_text (sample_cli income_v1)) (cl_record_layout (sample_cli income_v1)) file = Inr income_v1"
  using valid_income_v1 by (simp add: load_record_layout_def sample_cli_def record_layout_from_json_def)

lemma sample_tenancy: "load_record_layout (cl_read_text (sample_cli tenancy_v1)) (cl_record_layout (sample_cli tenancy_v1)) file = Inr tenancy_v1"
  using valid_tenancy_v1 by (simp add: load_record_layout_def sample_cli_def record_layout_from_json_def)

lemma sample_session: "session_of (sample_cli l) (phase_sample_args out) = Inr sample_session_config"
  by (simp add: session_of_def phase_sample_args_def sample_cli_def lift_res_def sample_session_config_def
      PROVER_PREPROCESS_TIMEOUT_def)

lemma sample_fields: "json_field (sample_cli l) f v p =
    (case f (if p = ''/payload/identifier'' then ''ACC-000000000001'' else p) of Inl e \<Rightarrow> fails (p @ '': '' @ e) | Inr x \<Rightarrow> Inr x)"
  by (simp add: json_field_def sample_cli_def some_or_fail_def)

lemma sample_read_json: "read_json (sample_cli l) file = Inr []"
  by (simp add: read_json_def sample_cli_def lift_res_def)

lemma sample_listing_of: "listing_of (sample_cli l) file = Inr sample_listing"
  by (simp add: listing_of_def sample_read_json sample_fields) (simp add: sample_cli_def sample_listing_def)

lemma sample_apply_config: "apply_config_of (sample_cli income_v1) apply_sample_args = Inr apply_sample_config"
  by (simp add: apply_config_of_def sample_bundle sample_key sample_income apply_sample_args_def sample_session
      sample_listing_of phase_policy_def some_or_fail_def lift_res_def Let_def)
    (simp add: phase_sample_args_def apply_sample_config_def circuits_of_def path_join_def phase_policy_def Let_def)

lemma sample_settle_config: "settle_config_of (sample_cli tenancy_v1) settle_sample_args =
    Inr (settle_sample_config\<lparr>tc_out := ''settle''\<rparr>)"
  by (simp add: settle_config_of_def sample_bundle sample_key sample_tenancy settle_sample_args_def sample_session
      sample_listing_of sample_read_json sample_fields phase_policy_def some_or_fail_def lift_res_def Let_def)
    (simp add: phase_sample_args_def settle_sample_config_def circuits_of_def path_join_def phase_policy_def sample_cli_def Let_def)

lemma sample_apply_command:
  "\<exists>rec1. apply_command (sample_cli income_v1) (phase_world 2 sample_applied) apply_sample_args =
      Some ([(''out/record.json'', Apply_doc rec1)],
        [\<lparr>tr_to = replicate 20 (CHR 0x03), tr_value = 55, tr_input = ''sigma''\<rparr>], Inr ()) \<and>
    run_apply (phase_world 2 sample_applied) apply_sample_config =
      Some ([\<lparr>tr_to = replicate 20 (CHR 0x03), tr_value = 55, tr_input = ''sigma''\<rparr>], Inr rec1)"
proof -
  obtain rec1 where run: "run_apply (phase_world 2 sample_applied) apply_sample_config =
      Some ([\<lparr>tr_to = replicate 20 (CHR 0x03), tr_value = 55, tr_input = ''sigma''\<rparr>], Inr rec1)"
    and out: "ph_outcome rec1 = Ph_included" using sample_apply_run by blast
  have "finish_phase_command (sample_cli income_v1) ''out'' Apply_doc (Inr rec1) True =
      ([(''out/record.json'', Apply_doc rec1)], Inr ())"
    using out by (simp add: finish_phase_command_def sample_record_path write_then_def write_json_def sample_cli_def)
  moreover have "pa_out (aa_session apply_sample_args) = ''out''" "yc_submit apply_sample_config"
    by (simp_all add: apply_sample_args_def phase_sample_args_def apply_sample_config_def)
  ultimately show ?thesis using run by (simp add: apply_command_def run_command_def sample_apply_config)
qed

lemma sample_reads_apply:
  assumes "run_apply (phase_world 2 sample_applied) apply_sample_config = Some (sent, Inr rec1)"
  shows "reads_apply_record (sample_cli l) txt1 rec1"
  unfolding reads_apply_record_def
proof (intro allI impI)
  fix p
  assume p: "ph_payload rec1 = Some p"
  have padded: "pad income_v1 ''ACC-000000000001'' (account_width income_v1) = Inr ''ACC-000000000001''"
    by (simp add: pad_def income_v1_def pad_value_def first_char_def utf8_width_def byte_defs)
  have c: "yc_layout apply_sample_config = income_v1" "yc_identifier apply_sample_config = None"
    "sc_account (yc_session apply_sample_config) = ''ACC-000000000001''"
    by (simp_all add: apply_sample_config_def sample_session_config_def)
  note opens = apply_record_opens [OF assms p]
  have fields: "apl_identifier p = ''ACC-000000000001''" "apl_salt p = replicate 32 (CHR 0x00)"
    using opens by (simp_all add: c padded sample_chain zero_salt)
  with opens have "apl_c_b p = be_bytes 32 5" by (simp add: sample_chain sample_c_b)
  with fields show "\<exists>v. cl_json (sample_cli l) txt1 = Inr v \<and>
      json_field (sample_cli l) (cl_b256 (sample_cli l)) v ''/payload/cB'' = Inr (apl_c_b p) \<and>
      json_field (sample_cli l) Inr v ''/payload/identifier'' = Inr (apl_identifier p) \<and>
      json_field (sample_cli l) (cl_b256 (sample_cli l)) v ''/payload/salt'' = Inr (apl_salt p)"
    by (simp add: sample_fields) (simp add: sample_cli_def)
qed

theorem opening_is_handed_over_witness:
  "\<exists>docs sent tcfg. apply_command (sample_cli income_v1) (phase_world 2 sample_applied) apply_sample_args = Some (docs, sent, Inr ()) \<and>
    settle_config_of (sample_cli tenancy_v1) settle_sample_args = Inr tcfg \<and>
    counterparty_commitment BN254_R (od_poseidon (phase_world 2 sample_applied)) (tc_identifier tcfg) (tc_salt tcfg) =
      Inr (tc_c_b tcfg)"
proof -
  obtain rec1 where cmd: "apply_command (sample_cli income_v1) (phase_world 2 sample_applied) apply_sample_args =
      Some ([(''out/record.json'', Apply_doc rec1)],
        [\<lparr>tr_to = replicate 20 (CHR 0x03), tr_value = 55, tr_input = ''sigma''\<rparr>], Inr ())"
    and run: "run_apply (phase_world 2 sample_applied) apply_sample_config =
      Some ([\<lparr>tr_to = replicate 20 (CHR 0x03), tr_value = 55, tr_input = ''sigma''\<rparr>], Inr rec1)"
    using sample_apply_command by blast
  have reads: "\<forall>rec2 t. Apply_doc rec2 \<in> snd ` set [(''out/record.json'', Apply_doc rec1)] \<and> c rec2 t \<longrightarrow>
      reads_apply_record (sample_cli tenancy_v1) (t @ [LF]) rec2" for c
    by (simp add: sample_reads_apply [OF run])
  have "ta_application settle_sample_args = path_join (pa_out (aa_session apply_sample_args)) ''record.json''"
    by (simp add: settle_sample_args_def apply_sample_args_def phase_sample_args_def sample_record_path)
  from opening_is_handed_over [OF cmd sample_keeps reads sample_settle_config this] show ?thesis
    using cmd sample_settle_config by (intro exI conjI)
qed

end
