(* ===== verification/Spec2Isabelle.thy ===== *)
theory Spec2Isabelle
  imports Mock_Circuits Notary_Process Registry_Server Circuit_Tools Calibration Phase_Transactions Attestation_Encoding Probe_Portal Counting Measurements Handover
begin

text \<open>
  PPREV is a protocol for verified real-estate transactions over notarised registry data. A party fetches a
  record of its own account from a registry inside an MPC-TLS session with a notary, proves a predicate over
  the hidden fields of the attested response, has the notary's policy verifier sign the statement of one
  transaction, and sends the signed statement to an escrow contract. This development models the Rust code of
  the repository (\<open>src/offchain/crates\<close>, \<open>src/mock-registry\<close>) and the circuits (\<open>src/circuits/src\<close>), and
  proves what makes it correct.

  The program's parts and how they interact
  \<^item> \<open>pprev-types\<close>: what both sides agree on. A layout file describes a registry response byte by byte; the
    registry renders it, the prover commits to its hidden ranges, the notary checks its revealed ranges.
    Statements are EIP-712 structs; the public inputs of the circuits are derived from them.
  \<^item> \<open>mock-registry\<close>: an HTTP server that hands a record to a logged-in account.
  \<^item> \<open>pprev-prover\<close>: login, MPC-TLS session with retries, openings, witness and proof, submission to the
    policy verifier, transaction, and the commands that run these; an emulated link for measurements.
  \<^item> \<open>pprev-notary\<close>: the notary's side of the session, the policy verifier with its nonce record, and the
    service that answers connections; a mock notary that evaluates the predicates in the clear.
  \<^item> the circuits: the constraints whose satisfaction a proof shows.

  Theories and sources, in import order
  \<^item> \<open>Prelude\<close>: results (\<open>error + 'a\<close> as \<open>'a res\<close>, with \<open>Msg\<close>, \<open>Context\<close> and \<open>Panic\<close>), byte strings, ranges,
    decimal numerals, UTF-8, the collections of rewrite rules.
  \<^item> \<open>Exchange\<close>, \<open>Layout\<close>, \<open>Record_Layout\<close>: \<open>pprev-types/src/layout.rs\<close>, \<open>record.rs\<close>. The locale
    \<open>response_source\<close> states what any source promises to the checks (the rendering has the shape's length,
    the template's bytes, hidden ranges apart from the revealed ones) and \<open>segmented_source\<close> derives it from a
    response built of segments; the interpretations \<open>title\<close> and \<open>rec\<close> discharge it for the two layouts.
  \<^item> \<open>Circuit_Inputs\<close>, \<open>Statement\<close>, \<open>Policy\<close>, \<open>Calendar\<close>: \<open>field.rs\<close>, \<open>circuit.rs\<close>, \<open>statement.rs\<close>,
    \<open>policy.rs\<close>, \<open>calendar.rs\<close>.
  \<^item> \<open>Presentation\<close>, \<open>Groth16\<close>, \<open>Nonces\<close>, \<open>Policy_Verifier\<close>: \<open>pprev-notary/src/presentation.rs\<close>,
    \<open>groth16.rs\<close>, \<open>nonces.rs\<close>, and \<open>register.rs\<close>, \<open>phases.rs\<close>, \<open>sigma.rs\<close>. The locale \<open>nonce_log\<close> is the contract
    of an append-only store of used nonces; its interpretation \<open>store\<close> is the nonce file.
  \<^item> \<open>Mock_Notary\<close>, \<open>Wire\<close>, \<open>Notary_Service\<close>, \<open>Notarization\<close>, \<open>Notary_Process\<close>: \<open>mock.rs\<close>, \<open>wire.rs\<close>,
    \<open>bin/pprev-notary.rs\<close>, \<open>session.rs\<close> of the notary. The service is an inductive step relation over interleaved
    connections; the process adds its start, the listener of the sessions and the log that both share.
  \<^item> \<open>Registry\<close>, \<open>Registry_Server\<close>, \<open>Login\<close>: \<open>mock-registry/src\<close>, \<open>pprev-prover/src/login.rs\<close>. \<open>Registry\<close> handles one
    request after the other; \<open>Registry_Server\<close> interleaves the connections between the locks.
  \<^item> \<open>Session_Errors\<close>, \<open>Prover_Session\<close>: \<open>pprev-prover/src/session.rs\<close>; error chains, classification of
    failures, the race with the driver, the retry loop, openings and presentations.
  \<^item> \<open>Circom\<close>, \<open>Phi_R\<close>, \<open>Prover_Witness\<close>, \<open>Ownership\<close>: \<open>circuits/src/lib/bytes.circom\<close>, \<open>phi_r.circom\<close>,
    \<open>pprev-prover/src/circuit.rs\<close>, and the composition of verifier, layout and circuit.
  \<^item> \<open>Chain\<close>, \<open>Prover_Phases\<close>, \<open>Phase_Transactions\<close>: \<open>chain.rs\<close>, \<open>register.rs\<close> and \<open>phases.rs\<close> of the prover; whole
    runs of Register, Apply and Settle, and what they send.
  \<^item> \<open>Commands\<close>, \<open>Command_Reports\<close>, \<open>Handover\<close>: \<open>pprev-prover/src/main.rs\<close>; every command from its arguments to
    its exit status, and what one phase reads from the record of another.
  \<^item> \<open>Circom_Numbers\<close>, \<open>Phi_A\<close>, \<open>Phi_S\<close>: \<open>circuits/src/lib/decimal.circom\<close>, \<open>date.circom\<close>, \<open>phi_a.circom\<close>,
    \<open>phi_s.circom\<close>. \<open>Phase_Signatures\<close> and \<open>Phase_Samples\<close> compose them with the verifier, \<open>Phase_Inputs\<close> with the
    inputs of \<open>pprev-prover/src/circuit.rs\<close>, \<open>Mock_Circuits\<close> with the native checks of the mock notary.
  \<^item> \<open>Circuit_Tools\<close>: the binaries \<open>gen-circuit-main\<close>, \<open>gen-phase-circuit-main\<close>, \<open>phi-r-verify\<close>, \<open>phi-r-prove\<close>,
    \<open>gen-phi-r-sample\<close> and \<open>gen-phase-sample\<close>.
  \<^item> \<open>Netem\<close>, \<open>Netem_Server\<close>, \<open>Calibration\<close>: \<open>netem.rs\<close>, \<open>bin/netem-proxy.rs\<close>, \<open>bin/netem-calibrate.rs\<close>; the schedule
    and the two ends of an emulated direction as a step relation, the server over its connections, the echo
    server and its client.
  \<^item> \<open>Attestation_Encoding\<close>, \<open>Page_Probe\<close>, \<open>Probe_Portal\<close>, \<open>Counting\<close>: \<open>e1.rs\<close>, \<open>probe.rs\<close>, \<open>bin/probe-portal.rs\<close>,
    \<open>counting.rs\<close>. \<open>Measurements\<close>: the readings of a peak resident set size.

  What the lemmas show
  \<^item> Agreement on bytes: every rendered response has the ranges and revealed bytes of the template
    (\<open>render_response_fixed_ranges\<close>); the checks accept what an honest prover presents (\<open>honest_title_accepted\<close>)
    and nothing but a response of the template with exactly the expected commitments (\<open>check_shape_sound\<close>).
  \<^item> Signing: no signature without the checks of its phase, one signature per nonce over restarts, failing appends and
    interleaved connections, each connection answered for the submission it sent, no panic under the lock.
  \<^item> Meaning: a Register signature means ownership, an Apply signature an income above the multiple of the amount, a
    Settle signature a notation on the property that names the tenant and is dated late enough, and the tenant
    of Settle is the applicant of Apply, or the extracted witness exhibits a collision; the inputs that the parties
    build satisfy the circuits exactly when their records show this; the mock notary accepts a record in the clear
    exactly when the circuits accept the session's input, but for blank identifiers and incomes that are not decimal; the
    dates of the circuit are the days of the calendar.
  \<^item> Servers: the registry answers a record only to a login, and its connections, interleaved between its locks, are one
    request after the other; the notary's
    process is the service of the verifier beside the sessions; the emulated link's server can always bring its
    connections to an end, and its log is exact.
  \<^item> Sessions: only a cut before preprocessing is retried; the retry loop against its specification; what openings hold;
    the presentations of Register, Apply and Settle disclose the request line and the structure of the response alone.
  \<^item> Runs: a run hands at most one transaction to the node, the one that was signed; records, documents and exit
    status agree; the later phases state the listing that was registered and hold the opening that was committed.
  \<^item> Auxiliary code: calendar against counting days, the Merkle loop against the recursive tree, exact differences
    of responses, the emulated link loses and reorders nothing and can finish, counted traffic is what passed, the
    sample inputs of the circuits satisfy them, a bulk transfer is acknowledged exactly at its end.

  Parameters and named hypotheses. Code outside the repository is an argument: the records \<open>tlsn\<close>, \<open>prover_ops\<close>
  and \<open>mpc_session\<close> (tlsn, hyper, sockets), \<open>arkworks\<close>, \<open>circomlib\<close>, \<open>notary_env\<close> (keys, EIP-712, hex),
  \<open>comparators\<close>, \<open>request_codec\<close>, \<open>abi_codec\<close>, \<open>chain_node\<close>, \<open>login_env\<close>, \<open>login_client\<close>, \<open>loader\<close>, \<open>tools\<close> (the
  circuit's programs and the disk), \<open>encoder\<close>, \<open>plain_client\<close>, \<open>probe_env\<close>, \<open>portal_world\<close>, \<open>tool_world\<close>,
  \<open>sample_world\<close>, \<open>stream_ops\<close>, \<open>float_ops\<close>, \<open>net_client\<close>, \<open>cli\<close> and \<open>outside\<close> (the world of a run).
  Hypotheses on them are named and state documented behaviour: \<open>hex_codec\<close>, \<open>index_sets\<close>, \<open>abi_words\<close>,
  \<open>libraries_return\<close>, \<open>transcripts_sized\<close>, \<open>sound_prover\<close>, \<open>circomlib_ok\<close>, \<open>comparators_ok\<close>,
  \<open>same_poseidon\<close>, \<open>groth16_extracts\<close> and \<open>phase_extracts\<close> (knowledge soundness, with the extractor as an argument),
  \<open>reads_append\<close>, \<open>attests_openings\<close>, \<open>no_collision\<close>, \<open>keeps\<close> and the
  \<open>reads_..._record\<close> of \<open>Handover\<close>. Every property with a hypothesis has a witness on concrete data.

  Integers, bounds and termination. Bytes are characters; \<open>usize\<close> is \<open>nat\<close> where it indexes memory and a 64-bit
  word where it can wrap; \<open>u64\<close>, \<open>u32\<close> and \<open>u256\<close> are words; \<open>i64\<close> is \<open>int\<close> with its range written out;
  \<open>BigUint\<close> is \<open>nat\<close>; a signal of a circuit is a natural number below \<open>BN254_R\<close>. Wrap-around is kept where the release
  build wraps (attested times, Content-Length, the retry counter, the mock notary's day, the size of a
  calibration's transfer). Bounds of the code:
  \<open>MAX_MESSAGE_BYTES\<close>, \<open>MAX_REQUEST\<close>, \<open>CHUNK\<close>, the 32-byte identifiers and 31-byte packings. There is no fuel: loops
  are recursive functions with termination proofs, and the retry loop, which can run for ever, is a
  \<open>partial_function (option)\<close> with \<open>None\<close> for not returning and a theorem that says exactly when.

  Errors. A fallible function of the crates returns \<open>'a res\<close>; a run of the prover returns \<open>'a run\<close>, whose errors
  are chains of causes (they are inspected) and whose panics are values. Every early return is a branch.

  Not modelled
  \<^item> Timings, tracing, the records of measurements in a run's record, printing, argument parsing: outputs only.
  \<^item> Sockets, TLS and the generation of certificates: library calls, with their outcomes as arguments.
  \<^item> serde, bincode, ABI and hash implementations: arguments, with hypotheses where a property needs them.
  \<^item> The Solidity contract, except the statement that it rebuilds from a call (\<open>Phase_Transactions\<close>).
  \<^item> Floating-point arithmetic: the serialisation times of the emulated link and the figures of its calibration are
    arguments.
  \<^item> The wake-ups of the emulated link's \<open>Notify\<close> and the partial bytes of a failing write (\<open>Netem\<close>): the writer is
    enabled whenever its queue is not empty, as every push is followed by a wake-up, and a write is one step.
  \<^item> Tests, deployment and measurement scripts.
\<close>

end
